(* ===== verification/Vops_Prelude.thy ===== *)
theory Vops_Prelude
  imports Complex_Main "HOL-Library.AList"
begin

text \<open>
  The prelude of the development: the effect type of the service methods (a state
  with exceptions), the rules that carry a property through their composition, and the
  pieces of the JavaScript library that the components use on strings, arrays and sets.

  An \<open>async\<close> method of a service is an \<open>action\<close>: it reads and writes the
  state \<open>'w\<close> and returns a value or throws. A throw keeps the writes made before
  it, as it does in the program.
\<close>

section \<open>Actions: state and exceptions\<close>

type_synonym ('w, 'e, 'a) action = "'w \<Rightarrow> ('e + 'a) \<times> 'w"

definition ret :: "'a \<Rightarrow> ('w, 'e, 'a) action" where
  "ret x w = (Inr x, w)"

definition throw :: "'e \<Rightarrow> ('w, 'e, 'a) action" where
  "throw e w = (Inl e, w)"

definition andThen :: "('w, 'e, 'a) action \<Rightarrow> ('a \<Rightarrow> ('w, 'e, 'b) action) \<Rightarrow> ('w, 'e, 'b) action" where
  "andThen m f w = (case m w of (Inl e, w') \<Rightarrow> (Inl e, w') | (Inr x, w') \<Rightarrow> f x w')"

definition gets :: "('w \<Rightarrow> 'a) \<Rightarrow> ('w, 'e, 'a) action" where
  "gets f w = (Inr (f w), w)"

definition modify :: "('w \<Rightarrow> 'w) \<Rightarrow> ('w, 'e, unit) action" where
  "modify f w = (Inr (), f w)"

definition catching :: "('w, 'e, 'a) action \<Rightarrow> ('e \<Rightarrow> ('w, 'e, 'a) action) \<Rightarrow> ('w, 'e, 'a) action" where
  "catching m h w = (case m w of (Inl e, w') \<Rightarrow> h e w' | (Inr x, w') \<Rightarrow> (Inr x, w'))"

text \<open>\<open>for (const x of xs) await f(x)\<close>: the first throw ends the loop.\<close>

fun for_each :: "('a \<Rightarrow> ('w, 'e, 'b) action) \<Rightarrow> 'a list \<Rightarrow> ('w, 'e, 'b list) action" where
  "for_each f [] = ret []"
| "for_each f (x # xs) = andThen (f x) (\<lambda>y. andThen (for_each f xs) (\<lambda>ys. ret (y # ys)))"

named_theorems action_simps \<open>evaluation of composed actions\<close>

lemma run_action [action_simps]:
  "ret x w = (Inr x, w)"
  "throw e w = (Inl e, w)"
  "gets g w = (Inr (g w), w)"
  "modify h w = (Inr (), h w)"
  by (simp_all add: ret_def throw_def gets_def modify_def)

lemma andThen_run [action_simps]:
  "m w = (Inl e, w') \<Longrightarrow> andThen m f w = (Inl e, w')"
  "m w = (Inr x, w') \<Longrightarrow> andThen m f w = f x w'"
  by (simp_all add: andThen_def)

lemma andThen_ret [action_simps]:
  "andThen (ret x) f w = f x w"
  "andThen (throw e) f w = (Inl e, w)"
  "andThen (gets g) f w = f (g w) w"
  "andThen (modify h) (\<lambda>u. k) w = k (h w)"
  by (simp_all add: andThen_def ret_def throw_def gets_def modify_def)

lemma andThen_assoc: "andThen (andThen m f) g = andThen m (\<lambda>x. andThen (f x) g)"
  by (auto simp: andThen_def fun_eq_iff split: prod.splits sum.splits)

lemma andThen_assoc_run [action_simps]:
  "andThen (andThen m f) g w = andThen m (\<lambda>x. andThen (f x) g) w"
  by (simp add: andThen_assoc)

lemma andThen_if [action_simps]:
  "andThen (if b then m else n) f w = (if b then andThen m f w else andThen n f w)"
  by simp

lemma andThen_InrE:
  assumes "andThen m f w = (Inr y, w'')"
  obtains x w' where "m w = (Inr x, w')" and "f x w' = (Inr y, w'')"
  using assms by (auto simp: andThen_def split: prod.splits sum.splits)

lemma andThen_InlE:
  assumes "andThen m f w = (Inl e, w'')"
  obtains "m w = (Inl e, w'')"
  | x w' where "m w = (Inr x, w')" and "f x w' = (Inl e, w'')"
  using assms by (auto simp: andThen_def split: prod.splits sum.splits)

lemma catching_run [action_simps]:
  "m w = (Inl e, w') \<Longrightarrow> catching m h w = h e w'"
  "m w = (Inr x, w') \<Longrightarrow> catching m h w = (Inr x, w')"
  by (simp_all add: catching_def)

section \<open>Weakest preconditions and kept properties\<close>

text \<open>
  \<open>wp m Q E w\<close>: from the state \<open>w\<close> the action returns with \<open>Q\<close> or throws with
  \<open>E\<close>; actions are total, so it always does one of the two.
  \<open>keeps P m\<close>: the action keeps the state property \<open>P\<close>, whichever way it ends.
\<close>

definition wp :: "('w, 'e, 'a) action \<Rightarrow> ('a \<Rightarrow> 'w \<Rightarrow> bool) \<Rightarrow> ('e \<Rightarrow> 'w \<Rightarrow> bool) \<Rightarrow> 'w \<Rightarrow> bool" where
  "wp m Q E w \<longleftrightarrow> (case m w of (Inr x, w') \<Rightarrow> Q x w' | (Inl e, w') \<Rightarrow> E e w')"

named_theorems wp_simps \<open>weakest preconditions of composed actions\<close>

lemma wp_ret [wp_simps]: "wp (ret x) Q E w \<longleftrightarrow> Q x w"
  by (simp add: wp_def ret_def)

lemma wp_throw [wp_simps]: "wp (throw e) Q E w \<longleftrightarrow> E e w"
  by (simp add: wp_def throw_def)

lemma wp_gets [wp_simps]: "wp (gets f) Q E w \<longleftrightarrow> Q (f w) w"
  by (simp add: wp_def gets_def)

lemma wp_modify [wp_simps]: "wp (modify f) Q E w \<longleftrightarrow> Q () (f w)"
  by (simp add: wp_def modify_def)

lemma wp_andThen [wp_simps]: "wp (andThen m f) Q E w \<longleftrightarrow> wp m (\<lambda>x. wp (f x) Q E) E w"
  by (simp add: wp_def andThen_def split: prod.split sum.split)

lemma wp_catching [wp_simps]: "wp (catching m h) Q E w \<longleftrightarrow> wp m Q (\<lambda>e. wp (h e) Q E) w"
  by (simp add: wp_def catching_def split: prod.split sum.split)

lemma wp_if [wp_simps]: "wp (if b then m else n) Q E w \<longleftrightarrow> (if b then wp m Q E w else wp n Q E w)"
  by simp

lemma wp_mono:
  assumes "wp m Q E w" and "\<And>x w'. Q x w' \<Longrightarrow> Q' x w'" and "\<And>e w'. E e w' \<Longrightarrow> E' e w'"
  shows "wp m Q' E' w"
  using assms by (auto simp: wp_def split: prod.splits sum.splits)

lemma wp_conj: "wp m (\<lambda>x w'. Q x w' \<and> Q' x w') (\<lambda>e w'. E e w' \<and> E' e w') w \<longleftrightarrow> wp m Q E w \<and> wp m Q' E' w"
  by (auto simp: wp_def split: prod.splits sum.splits)

lemma wp_true [simp]: "wp m (\<lambda>x w'. True) (\<lambda>e w'. True) w"
  by (auto simp: wp_def split: prod.splits sum.splits)

lemma wp_state: "wp m (\<lambda>x. P) (\<lambda>e. P) w \<longleftrightarrow> P (snd (m w))"
  unfolding wp_def by (cases "m w") (auto split: sum.split)

lemma wp_returns: "wp m Q E w \<Longrightarrow> m w = (Inr x, w') \<Longrightarrow> Q x w'"
  by (simp add: wp_def)

lemma wp_throws: "wp m Q E w \<Longrightarrow> m w = (Inl e, w') \<Longrightarrow> E e w'"
  by (simp add: wp_def)

lemma wp_seq:
  assumes "wp m Q0 E p" and "\<And>x p'. Q0 x p' \<Longrightarrow> wp (f x) Q E p'"
  shows "wp (andThen m f) Q E p"
  unfolding wp_andThen by (rule wp_mono[OF assms(1)]) (rule assms(2))

lemma wp_ifI: "(b \<Longrightarrow> wp m Q E p) \<Longrightarrow> (\<not> b \<Longrightarrow> wp n Q E p) \<Longrightarrow> wp (if b then m else n) Q E p"
  by simp

definition keeps :: "('w \<Rightarrow> bool) \<Rightarrow> ('w, 'e, 'a) action \<Rightarrow> bool" where
  "keeps P m \<longleftrightarrow> (\<forall>w. P w \<longrightarrow> P (snd (m w)))"

named_theorems keeps_intros \<open>rules that carry a kept property through an action\<close>

lemma keeps_wp: "keeps P m \<longleftrightarrow> (\<forall>w. P w \<longrightarrow> wp m (\<lambda>x. P) (\<lambda>e. P) w)"
  by (simp add: keeps_def wp_state)

lemma keepsI: "(\<And>w. P w \<Longrightarrow> P (snd (m w))) \<Longrightarrow> keeps P m"
  by (simp add: keeps_def)

lemma keepsD: "keeps P m \<Longrightarrow> P w \<Longrightarrow> m w = (r, w') \<Longrightarrow> P w'"
  by (metis keeps_def snd_conv)

lemma keeps_ret [keeps_intros]: "keeps P (ret x)"
  by (simp add: keeps_def ret_def)

lemma keeps_throw [keeps_intros]: "keeps P (throw e)"
  by (simp add: keeps_def throw_def)

lemma keeps_gets [keeps_intros]: "keeps P (gets f)"
  by (simp add: keeps_def gets_def)

lemma keeps_modify: "(\<And>w. P w \<Longrightarrow> P (f w)) \<Longrightarrow> keeps P (modify f)"
  by (simp add: keeps_def modify_def)

lemma keeps_andThen [keeps_intros]:
  assumes m: "keeps P m" and f: "\<And>x. keeps P (f x)"
  shows "keeps P (andThen m f)"
proof (rule keepsI)
  fix w assume w: "P w"
  obtain r w' where run: "m w = (r, w')" by (cases "m w")
  then have w': "P w'" using m w by (rule_tac keepsD)
  show "P (snd (andThen m f w))"
  proof (cases r)
    case (Inl e) then show ?thesis using run w' by (simp add: action_simps)
  next
    case (Inr x) then show ?thesis using run w' f[of x] by (simp add: andThen_def keeps_def)
  qed
qed

lemma keeps_catching [keeps_intros]:
  assumes m: "keeps P m" and h: "\<And>e. keeps P (h e)"
  shows "keeps P (catching m h)"
proof (rule keepsI)
  fix w assume w: "P w"
  obtain r w' where run: "m w = (r, w')" by (cases "m w")
  then have w': "P w'" using m w by (rule_tac keepsD)
  show "P (snd (catching m h w))"
    using run w' h by (cases r) (simp_all add: catching_def keeps_def)
qed

lemma keeps_if [keeps_intros]:
  "(b \<Longrightarrow> keeps P m) \<Longrightarrow> (\<not> b \<Longrightarrow> keeps P n) \<Longrightarrow> keeps P (if b then m else n)"
  by simp

lemma keeps_case_option [keeps_intros]:
  "(x = None \<Longrightarrow> keeps P m) \<Longrightarrow> (\<And>y. x = Some y \<Longrightarrow> keeps P (f y)) \<Longrightarrow>
   keeps P (case x of None \<Rightarrow> m | Some y \<Rightarrow> f y)"
  by (cases x) auto

lemma keeps_case_sum [keeps_intros]:
  "(\<And>e. x = Inl e \<Longrightarrow> keeps P (g e)) \<Longrightarrow> (\<And>y. x = Inr y \<Longrightarrow> keeps P (f y)) \<Longrightarrow>
   keeps P (case x of Inl e \<Rightarrow> g e | Inr y \<Rightarrow> f y)"
  by (cases x) auto

lemma keeps_let [keeps_intros]: "keeps P (f x) \<Longrightarrow> keeps P (let y = x in f y)"
  by (simp add: Let_def)

lemma keeps_for_each [keeps_intros]:
  "(\<And>x. x \<in> set xs \<Longrightarrow> keeps P (f x)) \<Longrightarrow> keeps P (for_each f xs)"
proof (induction xs)
  case Nil show ?case by (simp add: keeps_ret)
next
  case (Cons x xs)
  have "keeps P (f x)" and "keeps P (for_each f xs)" using Cons by auto
  then show ?case by (auto intro!: keeps_intros)
qed

section \<open>Arrays and sets\<close>

text \<open>\<open>[...new Set(xs)]\<close>: one copy of each element, in order of first occurrence.\<close>

fun uniq :: "'a list \<Rightarrow> 'a list" where
  "uniq [] = []"
| "uniq (x # xs) = x # filter (\<lambda>y. y \<noteq> x) (uniq xs)"

lemma set_uniq [simp]: "set (uniq xs) = set xs"
  by (induction xs) auto

lemma distinct_uniq [simp]: "distinct (uniq xs)"
  by (induction xs) auto

lemma uniq_distinct [simp]: "distinct xs \<Longrightarrow> uniq xs = xs"
proof (induction xs)
  case (Cons x xs)
  then have "filter (\<lambda>y. y \<noteq> x) xs = xs" by (auto intro: filter_True)
  then show ?case using Cons by simp
qed simp

lemma uniq_idem [simp]: "uniq (uniq xs) = uniq xs"
  by simp

lemma uniq_eq_Nil [simp]: "uniq xs = [] \<longleftrightarrow> xs = []"
  by (cases xs) auto

text \<open>Array.find and Array.some with a predicate are \<open>List.find\<close> and \<open>list_ex\<close>.\<close>

lemma find_SomeD: "find P xs = Some x \<Longrightarrow> x \<in> set xs \<and> P x"
  by (induction xs) (auto split: if_splits)

lemma find_NoneD: "find P xs = None \<Longrightarrow> x \<in> set xs \<Longrightarrow> \<not> P x"
  by (auto simp: find_None_iff)

text \<open>\<open>xs.flatMap(f)\<close>, \<open>xs.some\<close>, \<open>xs.every\<close> are \<open>List.maps\<close>-like folds of the library.\<close>

definition flat_map :: "('a \<Rightarrow> 'b list) \<Rightarrow> 'a list \<Rightarrow> 'b list" where
  "flat_map f xs = concat (map f xs)"

section \<open>Optional values\<close>

text \<open>\<open>x ?? d\<close>, and the values of an optional text that \<open>if (x)\<close> takes.\<close>

definition or_default :: "'a option \<Rightarrow> 'a \<Rightarrow> 'a" where
  "or_default x d = (case x of None \<Rightarrow> d | Some y \<Rightarrow> y)"

definition nonempty :: "string option \<Rightarrow> string option" where
  "nonempty v = (case v of None \<Rightarrow> None | Some x \<Rightarrow> if x = [] then None else Some x)"

section \<open>Strings\<close>

definition nl :: string where
  "nl = [CHR 0x0A]"

text \<open>\<open>`'${s}'`\<close> in a message.\<close>

definition quoted :: "string \<Rightarrow> string" where
  "quoted s = CHR 0x27 # s @ [CHR 0x27]"

definition is_space :: "char \<Rightarrow> bool" where
  "is_space c \<longleftrightarrow> c \<in> {CHR 0x09, CHR 0x0A, CHR 0x0B, CHR 0x0C, CHR 0x0D, CHR '' ''}"

definition trim_start :: "string \<Rightarrow> string" where
  "trim_start = dropWhile is_space"

definition trim_end :: "string \<Rightarrow> string" where
  "trim_end s = rev (dropWhile is_space (rev s))"

definition trim :: "string \<Rightarrow> string" where
  "trim s = trim_end (trim_start s)"

definition starts_with :: "string \<Rightarrow> string \<Rightarrow> bool" where
  "starts_with s p \<longleftrightarrow> take (length p) s = p"

definition ends_with :: "string \<Rightarrow> string \<Rightarrow> bool" where
  "ends_with s p \<longleftrightarrow> starts_with (rev s) (rev p)"

fun index_of :: "string \<Rightarrow> string \<Rightarrow> nat option" where
  "index_of [] p = (if p = [] then Some 0 else None)"
| "index_of (c # cs) p = (if starts_with (c # cs) p then Some 0 else map_option Suc (index_of cs p))"

definition includes_str :: "string \<Rightarrow> string \<Rightarrow> bool" where
  "includes_str s p \<longleftrightarrow> index_of s p \<noteq> None"

text \<open>\<open>s.split(c)\<close> for a one-character separator, and \<open>xs.join(sep)\<close>.\<close>

fun split_on :: "char \<Rightarrow> string \<Rightarrow> string list" where
  "split_on c [] = [[]]"
| "split_on c (x # xs) =
     (if x = c then [] # split_on c xs
      else (case split_on c xs of [] \<Rightarrow> [[x]] | y # ys \<Rightarrow> (x # y) # ys))"

fun join :: "string \<Rightarrow> string list \<Rightarrow> string" where
  "join sep [] = []"
| "join sep [x] = x"
| "join sep (x # y # xs) = x @ sep @ join sep (y # xs)"

text \<open>\<open>s.split(/\s+/)\<close>: a leading or trailing run of spaces gives an empty field.\<close>

fun split_spaces_from :: "bool \<Rightarrow> string \<Rightarrow> string list" where
  "split_spaces_from inside [] = [[]]"
| "split_spaces_from inside (x # xs) =
     (if is_space x then
        (if inside then split_spaces_from True xs else [] # split_spaces_from True xs)
      else (case split_spaces_from False xs of [] \<Rightarrow> [[x]] | y # ys \<Rightarrow> (x # y) # ys))"

definition split_spaces :: "string \<Rightarrow> string list" where
  "split_spaces s = split_spaces_from False s"

lemma split_on_not_Nil [simp]: "split_on c s \<noteq> []"
  by (induction s) (auto split: list.splits)

lemma join_split_on: "join [c] (split_on c s) = s"
proof (induction s)
  case (Cons x xs)
  obtain y ys where yys: "split_on c xs = y # ys" by (cases "split_on c xs") auto
  show ?case using Cons yys by (cases ys) auto
qed simp

lemma split_on_no_sep: "c \<notin> set s \<Longrightarrow> split_on c s = [s]"
  by (induction s) auto

lemma split_on_append: "c \<notin> set s \<Longrightarrow> split_on c (s @ c # t) = s # split_on c t"
  by (induction s) auto

lemma split_on_join:
  "xs \<noteq> [] \<Longrightarrow> \<forall>x \<in> set xs. c \<notin> set x \<Longrightarrow> split_on c (join [c] xs) = xs"
proof (induction xs rule: induct_list012)
  case (3 x y zs)
  then show ?case by (simp add: split_on_append)
qed (auto simp: split_on_no_sep)

lemma split_on_parts: "x \<in> set (split_on c s) \<Longrightarrow> c \<notin> set x"
proof (induction s arbitrary: x)
  case (Cons a s)
  obtain y ys where yys: "split_on c s = y # ys" by (cases "split_on c s") auto
  show ?case using Cons yys by (auto split: if_splits)
qed simp

lemma starts_with_iff: "starts_with s p \<longleftrightarrow> (\<exists>t. s = p @ t)"
  by (auto simp: starts_with_def) (metis append_take_drop_id)

lemma ends_with_iff: "ends_with s p \<longleftrightarrow> (\<exists>t. s = t @ p)"
proof
  assume "ends_with s p"
  then obtain t where "rev s = rev p @ t" by (auto simp: ends_with_def starts_with_iff)
  then have "s = rev t @ p" by (metis rev_append rev_rev_ident)
  then show "\<exists>t. s = t @ p" ..
next
  assume "\<exists>t. s = t @ p"
  then show "ends_with s p" by (auto simp: ends_with_def starts_with_iff)
qed

lemma includes_str_iff: "includes_str s p \<longleftrightarrow> (\<exists>u v. s = u @ p @ v)"
proof (induction s)
  case Nil
  show ?case by (auto simp: includes_str_def)
next
  case (Cons c cs)
  show ?case
  proof (cases "starts_with (c # cs) p")
    case True
    then obtain v where "c # cs = [] @ p @ v" by (auto simp: starts_with_iff)
    then have "\<exists>u v. c # cs = u @ p @ v" by blast
    with True show ?thesis by (simp add: includes_str_def)
  next
    case False
    have "includes_str (c # cs) p \<longleftrightarrow> includes_str cs p" using False by (simp add: includes_str_def)
    also have "\<dots> \<longleftrightarrow> (\<exists>u v. cs = u @ p @ v)" by (rule Cons.IH)
    also have "\<dots> \<longleftrightarrow> (\<exists>u v. c # cs = u @ p @ v)"
    proof
      assume "\<exists>u v. c # cs = u @ p @ v"
      then obtain u v where uv: "c # cs = u @ p @ v" by blast
      with False have "u \<noteq> []" by (auto simp: starts_with_iff)
      with uv show "\<exists>u v. cs = u @ p @ v" by (cases u) auto
    qed (metis append_Cons)
    finally show ?thesis .
  qed
qed

section \<open>Decimal numerals\<close>

definition is_digit :: "char \<Rightarrow> bool" where
  "is_digit c \<longleftrightarrow> 48 \<le> (of_char c :: nat) \<and> (of_char c :: nat) \<le> 57"

definition digit_char :: "nat \<Rightarrow> char" where
  "digit_char d = char_of (48 + d)"

definition digit_val :: "char \<Rightarrow> nat" where
  "digit_val c = of_char c - 48"

fun show_nat :: "nat \<Rightarrow> string" where
  "show_nat n = (if n < 10 then [digit_char n] else show_nat (n div 10) @ [digit_char (n mod 10)])"

declare show_nat.simps [simp del]

definition read_nat :: "string \<Rightarrow> nat" where
  "read_nat s = foldl (\<lambda>a c. 10 * a + digit_val c) 0 s"

text \<open>The classes of characters on literal characters, for evaluation.\<close>

lemma is_digit_bits [simp, code]: "is_digit (Char b0 b1 b2 b3 b4 b5 b6 b7) \<longleftrightarrow>
   \<not> b7 \<and> \<not> b6 \<and> b5 \<and> b4 \<and> \<not> (b3 \<and> (b2 \<or> b1))"
  by (cases b0; cases b1; cases b2; cases b3; cases b4; cases b5; cases b6; cases b7; simp add: is_digit_def)

lemma digit_val_char [simp]: "d < 10 \<Longrightarrow> digit_val (digit_char d) = d"
  by (simp add: digit_val_def digit_char_def)

lemma is_digit_char [simp]: "d < 10 \<Longrightarrow> is_digit (digit_char d)"
  by (simp add: is_digit_def digit_char_def del: is_digit_bits)

lemma read_show_nat [simp]: "read_nat (show_nat n) = n"
proof (induction n rule: show_nat.induct)
  case (1 n)
  show ?case
  proof (cases "n < 10")
    case True
    then show ?thesis by (subst show_nat.simps) (simp add: read_nat_def)
  next
    case False
    with 1 have "read_nat (show_nat (n div 10)) = n div 10" by simp
    with False show ?thesis by (subst show_nat.simps) (simp add: read_nat_def)
  qed
qed

lemma show_nat_digits: "c \<in> set (show_nat n) \<Longrightarrow> is_digit c"
proof (induction n rule: show_nat.induct)
  case (1 n)
  then show ?case by (subst (asm) (2) show_nat.simps) (auto split: if_splits)
qed

lemma show_nat_inj [simp]: "show_nat m = show_nat n \<longleftrightarrow> m = n"
  by (metis read_show_nat)

lemma show_nat_not_Nil [simp]: "show_nat n \<noteq> []"
  by (subst show_nat.simps) simp

text \<open>\<open>x.toFixed(2)\<close> of a non-negative number: the nearest hundredth, ties upward.\<close>

definition to_fixed2 :: "rat \<Rightarrow> string" where
  "to_fixed2 x =
     (let n = nat \<lfloor>\<bar>x\<bar> * 100 + 1 / 2\<rfloor>
      in (if x < 0 then ''-'' else []) @ show_nat (n div 100) @ ''.'' @
         [digit_char (n mod 100 div 10), digit_char (n mod 10)])"

section \<open>Instants\<close>

text \<open>
  An instant is its milliseconds since the epoch, which is what \<open>Date.now()\<close> and
  \<open>getTime()\<close> give; \<open>iso_string\<close> is \<open>Date.prototype.toISOString\<close>. A record field
  that holds an ISO text written by \<open>toISOString\<close> is modelled by its instant.
\<close>

type_synonym instant = int

fun pad0 :: "nat \<Rightarrow> string \<Rightarrow> string" where
  "pad0 w s = replicate (w - length s) CHR ''0'' @ s"

definition civil_from_days :: "int \<Rightarrow> int \<times> int \<times> int" where
  "civil_from_days z0 =
     (let z = z0 + 719468;
          era = z div 146097;
          doe = z mod 146097;
          yoe = (doe - doe div 1460 + doe div 36524 - doe div 146096) div 365;
          doy = doe - (365 * yoe + yoe div 4 - yoe div 100);
          mp = (5 * doy + 2) div 153;
          d = doy - (153 * mp + 2) div 5 + 1;
          m = (if mp < 10 then mp + 3 else mp - 9)
      in (yoe + era * 400 + (if m \<le> 2 then 1 else 0), m, d))"

definition iso_string :: "instant \<Rightarrow> string" where
  "iso_string t =
     (let (y, m, d) = civil_from_days (t div 86400000);
          ms = t mod 86400000;
          num = (\<lambda>w n. pad0 w (show_nat (nat n)))
      in (if 0 \<le> y \<and> y \<le> 9999 then num 4 y
          else (if y < 0 then ''-'' else ''+'') @ num 6 \<bar>y\<bar>) @ ''-'' @ num 2 m @ ''-'' @ num 2 d @ ''T'' @
         num 2 (ms div 3600000) @ '':'' @ num 2 (ms div 60000 mod 60) @ '':'' @
         num 2 (ms div 1000 mod 60) @ ''.'' @ num 3 (ms mod 1000) @ ''Z'')"

end
