(* ===== verification/Js_Regex.thy ===== *)
theory Js_Regex
  imports Vops_Prelude
begin

text \<open>
  The regular expressions of the source, with the backtracking semantics of JavaScript:
  \<open>rx r (pre, rest)\<close> lists the positions a match of \<open>r\<close> can end at, in the order
  the engine tries them (greedy before lazy, left alternative first). A position is the
  text already passed, reversed, and the text still to come. \<open>RegExp.test\<close>,
  \<open>RegExp.exec\<close> (the first match) and \<open>String.replace\<close> with the flag \<open>g\<close> are
  built on it.
\<close>

section \<open>Characters\<close>

definition to_lower :: "char \<Rightarrow> char" where
  "to_lower c = (let n = (of_char c :: nat) in if 65 \<le> n \<and> n \<le> 90 then char_of (n + 32) else c)"

definition in_range :: "char \<Rightarrow> char \<Rightarrow> char \<Rightarrow> bool" where
  "in_range a b c \<longleftrightarrow> (of_char a :: nat) \<le> of_char c \<and> (of_char c :: nat) \<le> of_char b"

definition is_lower :: "char \<Rightarrow> bool" where
  "is_lower = in_range CHR ''a'' CHR ''z''"

definition is_upper :: "char \<Rightarrow> bool" where
  "is_upper = in_range CHR ''A'' CHR ''Z''"

definition is_word :: "char \<Rightarrow> bool" where
  "is_word c \<longleftrightarrow> is_lower c \<or> is_upper c \<or> is_digit c \<or> c = CHR ''_''"

lemma is_upper_bits [simp, code]: "is_upper (Char b0 b1 b2 b3 b4 b5 b6 b7) \<longleftrightarrow>
   \<not> b7 \<and> b6 \<and> \<not> b5 \<and> (b4 \<or> b3 \<or> b2 \<or> b1 \<or> b0) \<and> \<not> (b4 \<and> b3 \<and> (b2 \<or> (b1 \<and> b0)))"
  by (cases b0; cases b1; cases b2; cases b3; cases b4; cases b5; cases b6; cases b7;
      simp add: is_upper_def in_range_def)

lemma is_lower_bits [simp, code]: "is_lower (Char b0 b1 b2 b3 b4 b5 b6 b7) \<longleftrightarrow>
   \<not> b7 \<and> b6 \<and> b5 \<and> (b4 \<or> b3 \<or> b2 \<or> b1 \<or> b0) \<and> \<not> (b4 \<and> b3 \<and> (b2 \<or> (b1 \<and> b0)))"
  by (cases b0; cases b1; cases b2; cases b3; cases b4; cases b5; cases b6; cases b7;
      simp add: is_lower_def in_range_def)

lemma to_lower_bits [simp, code]: "to_lower (Char b0 b1 b2 b3 b4 b5 b6 b7) =
   (if is_upper (Char b0 b1 b2 b3 b4 b5 b6 b7) then Char b0 b1 b2 b3 b4 True b6 b7
    else Char b0 b1 b2 b3 b4 b5 b6 b7)"
  unfolding is_upper_bits
  by (cases b0; cases b1; cases b2; cases b3; cases b4; cases b5; cases b6; cases b7;
      simp add: to_lower_def char_of_def bit_0)

section \<open>Matching\<close>

datatype re =
    Eps
  | Cls "char \<Rightarrow> bool"
  | Seq re re
  | Alt re re
  | Star re
  | Lazy re
  | Bnd
  | Bol
  | Eol

type_synonym pos = "string \<times> string"

definition boundary :: "pos \<Rightarrow> bool" where
  "boundary s \<longleftrightarrow>
     ((case fst s of [] \<Rightarrow> False | c # _ \<Rightarrow> is_word c) \<noteq>
      (case snd s of [] \<Rightarrow> False | c # _ \<Rightarrow> is_word c))"

function rx :: "re \<Rightarrow> pos \<Rightarrow> pos list" where
  "rx Eps s = [s]"
| "rx (Cls p) s = (case snd s of [] \<Rightarrow> [] | c # cs \<Rightarrow> if p c then [(c # fst s, cs)] else [])"
| "rx (Seq a b) s = concat (map (rx b) (rx a s))"
| "rx (Alt a b) s = rx a s @ rx b s"
| "rx (Star a) s =
     concat (map (rx (Star a)) (filter (\<lambda>t. length (snd t) < length (snd s)) (rx a s))) @ [s]"
| "rx (Lazy a) s =
     s # concat (map (rx (Lazy a)) (filter (\<lambda>t. length (snd t) < length (snd s)) (rx a s)))"
| "rx Bnd s = (if boundary s then [s] else [])"
| "rx Bol s = (if fst s = [] then [s] else [])"
| "rx Eol s = (if snd s = [] then [s] else [])"
  by pat_completeness auto
termination
  by (relation "measures [\<lambda>(r, s). size r, \<lambda>(r, s). length (snd s)]") auto

declare rx.simps(5,6) [simp del]

lemma set_rx_Star:
  "t \<in> set (rx (Star a) s) \<longleftrightarrow>
     t = s \<or> (\<exists>m \<in> set (rx a s). length (snd m) < length (snd s) \<and> t \<in> set (rx (Star a) m))"
  by (subst rx.simps(5)) auto

lemma set_rx_Lazy:
  "t \<in> set (rx (Lazy a) s) \<longleftrightarrow>
     t = s \<or> (\<exists>m \<in> set (rx a s). length (snd m) < length (snd s) \<and> t \<in> set (rx (Lazy a) m))"
  by (subst rx.simps(6)) auto

definition plus :: "re \<Rightarrow> re" where
  "plus r = Seq r (Star r)"

definition opt :: "re \<Rightarrow> re" where
  "opt r = Alt r Eps"

fun times :: "nat \<Rightarrow> re \<Rightarrow> re" where
  "times 0 r = Eps"
| "times (Suc n) r = Seq r (times n r)"

text \<open>\<open>r{n,}\<close>, a literal text, and a literal text under the flag \<open>i\<close>.\<close>

definition at_least :: "nat \<Rightarrow> re \<Rightarrow> re" where
  "at_least n r = Seq (times n r) (Star r)"

fun lit :: "string \<Rightarrow> re" where
  "lit [] = Eps"
| "lit (c # cs) = Seq (Cls (\<lambda>x. x = c)) (lit cs)"

fun lit_ci :: "string \<Rightarrow> re" where
  "lit_ci [] = Eps"
| "lit_ci (c # cs) = Seq (Cls (\<lambda>x. to_lower x = to_lower c)) (lit_ci cs)"

fun alts :: "re list \<Rightarrow> re" where
  "alts [] = Cls (\<lambda>_. False)"
| "alts [r] = r"
| "alts (r # rs) = Alt r (alts rs)"

section \<open>Searching and replacing\<close>

fun search_from :: "re \<Rightarrow> string \<Rightarrow> string \<Rightarrow> (pos \<times> pos) option" where
  "search_from r pre [] = (case rx r (pre, []) of [] \<Rightarrow> None | t # _ \<Rightarrow> Some ((pre, []), t))"
| "search_from r pre (c # cs) =
     (case rx r (pre, c # cs) of
        [] \<Rightarrow> search_from r (c # pre) cs
      | t # _ \<Rightarrow> Some ((pre, c # cs), t))"

definition re_test :: "re \<Rightarrow> string \<Rightarrow> bool" where
  "re_test r s \<longleftrightarrow> search_from r [] s \<noteq> None"

text \<open>\<open>/^r$/.test(s)\<close>.\<close>

definition full_match :: "re \<Rightarrow> string \<Rightarrow> bool" where
  "full_match r s \<longleftrightarrow> (\<exists>t \<in> set (rx r ([], s)). snd t = [])"

text \<open>
  \<open>s.replace(/ab/g, x => f(text of a))\<close>: the text \<open>a\<close> matched is the capture group
  1 of the replacement. Scanning resumes after each match; an empty match passes one
  character on.
\<close>

definition first_split :: "re \<Rightarrow> re \<Rightarrow> pos \<Rightarrow> (pos \<times> pos) option" where
  "first_split a b s =
     (case concat (map (\<lambda>t. map (\<lambda>u. (t, u)) (rx b t)) (rx a s)) of [] \<Rightarrow> None | x # _ \<Rightarrow> Some x)"

function replace_from :: "re \<Rightarrow> re \<Rightarrow> (string \<Rightarrow> string) \<Rightarrow> string \<Rightarrow> string \<Rightarrow> string" where
  "replace_from a b f pre rest =
     (case first_split a b (pre, rest) of
        Some (t, u) \<Rightarrow>
          (if length (snd u) < length rest
           then f (take (length rest - length (snd t)) rest) @ replace_from a b f (fst u) (snd u)
           else (case rest of [] \<Rightarrow> [] | c # cs \<Rightarrow> c # replace_from a b f (c # pre) cs))
      | None \<Rightarrow> (case rest of [] \<Rightarrow> [] | c # cs \<Rightarrow> c # replace_from a b f (c # pre) cs))"
  by pat_completeness auto
termination
  by (relation "measure (\<lambda>(a, b, f, pre, rest). length rest)") auto

declare replace_from.simps [simp del]

definition replace_all :: "re \<Rightarrow> re \<Rightarrow> (string \<Rightarrow> string) \<Rightarrow> string \<Rightarrow> string" where
  "replace_all a b f s = replace_from a b f [] s"

section \<open>Where a pattern cannot match\<close>

text \<open>
  \<open>needs p r\<close>: every match of \<open>r\<close> passes a character in \<open>p\<close>, so a text without
  such a character has no match and a replacement leaves it as it is.
\<close>

fun needs :: "char set \<Rightarrow> re \<Rightarrow> bool" where
  "needs P (Cls q) \<longleftrightarrow> Collect q \<subseteq> P"
| "needs P (Seq a b) \<longleftrightarrow> needs P a \<or> needs P b"
| "needs P (Alt a b) \<longleftrightarrow> needs P a \<and> needs P b"
| "needs P _ \<longleftrightarrow> False"

lemma rx_suffix: "t \<in> set (rx r s) \<Longrightarrow> \<exists>u. snd s = u @ snd t"
proof (induction r s arbitrary: t rule: rx.induct)
  case (3 a b s)
  then obtain m where m: "m \<in> set (rx a s)" and t: "t \<in> set (rx b m)" by auto
  from "3.IH"(1)[OF m] obtain u where u: "snd s = u @ snd m" by blast
  from "3.IH"(2)[OF m t] obtain v where "snd m = v @ snd t" by blast
  with u have "snd s = (u @ v) @ snd t" by simp
  then show ?case by blast
next
  case (5 a s)
  show ?case
  proof (cases "t = s")
    case True then show ?thesis by simp
  next
    case False
    with "5.prems" obtain m where m: "m \<in> set (rx a s)" "length (snd m) < length (snd s)"
      and t: "t \<in> set (rx (Star a) m)" by (subst (asm) set_rx_Star) auto
    from "5.IH"(1)[OF m(1)] obtain u where u: "snd s = u @ snd m" by blast
    from "5.IH"(2)[OF _ t] m obtain v where "snd m = v @ snd t" by auto
    with u have "snd s = (u @ v) @ snd t" by simp
    then show ?thesis by blast
  qed
next
  case (6 a s)
  show ?case
  proof (cases "t = s")
    case True then show ?thesis by simp
  next
    case False
    with "6.prems" obtain m where m: "m \<in> set (rx a s)" "length (snd m) < length (snd s)"
      and t: "t \<in> set (rx (Lazy a) m)" by (subst (asm) set_rx_Lazy) auto
    from "6.IH"(1)[OF m(1)] obtain u where u: "snd s = u @ snd m" by blast
    from "6.IH"(2)[OF _ t] m obtain v where "snd m = v @ snd t" by auto
    with u have "snd s = (u @ v) @ snd t" by simp
    then show ?thesis by blast
  qed
qed (auto split: list.splits if_splits)

lemma needs_no_match:
  assumes "needs P r" and "set (snd s) \<inter> P = {}"
  shows "rx r s = []"
  using assms
proof (induction r arbitrary: s)
  case (Cls q)
  then show ?case by (auto split: list.splits)
next
  case (Seq a b)
  show ?case
  proof (cases "needs P a")
    case True
    with Seq show ?thesis by simp
  next
    case False
    with Seq.prems have "needs P b" by simp
    moreover have "set (snd t) \<inter> P = {}" if "t \<in> set (rx a s)" for t
      using rx_suffix[OF that] Seq.prems(2) by auto
    ultimately show ?thesis using Seq.IH(2) by simp
  qed
next
  case (Alt a b)
  then show ?case by simp
qed simp_all

lemma first_split_None: "needs P (Seq a b) \<Longrightarrow> set (snd s) \<inter> P = {} \<Longrightarrow> first_split a b s = None"
proof -
  assume "needs P (Seq a b)" and "set (snd s) \<inter> P = {}"
  then have "rx (Seq a b) s = []" by (rule needs_no_match)
  then have "\<forall>t \<in> set (rx a s). rx b t = []" by simp
  then have "map (\<lambda>t. map (\<lambda>u. (t, u)) (rx b t)) (rx a s) = map (\<lambda>t. []) (rx a s)" by simp
  then have none: "concat (map (\<lambda>t. map (\<lambda>u. (t, u)) (rx b t)) (rx a s)) = []"
    by (simp only: concat_eq_Nil_conv) auto
  show ?thesis unfolding first_split_def none by simp
qed

lemma replace_all_clean:
  assumes "needs P (Seq a b)" and "set s \<inter> P = {}"
  shows "replace_all a b f s = s"
proof -
  have "replace_from a b f pre s = s" for pre
    using assms(2)
  proof (induction s arbitrary: pre)
    case Nil
    then show ?case using first_split_None[OF assms(1)] by (subst replace_from.simps) simp
  next
    case (Cons c s)
    then show ?case using first_split_None[OF assms(1)] by (subst replace_from.simps) simp
  qed
  then show ?thesis by (simp add: replace_all_def)
qed

lemma needs_lit_ci: "c \<in> set s \<Longrightarrow> {x. to_lower x = to_lower c} \<subseteq> P \<Longrightarrow> needs P (lit_ci s)"
  by (induction s) auto

lemma needs_lit: "c \<in> set s \<Longrightarrow> c \<in> P \<Longrightarrow> needs P (lit s)"
  by (induction s) auto

section \<open>What a match is made of\<close>

text \<open>\<open>confined P r\<close>: \<open>r\<close> passes characters of \<open>P\<close> only.\<close>

fun confined :: "char set \<Rightarrow> re \<Rightarrow> bool" where
  "confined P (Cls q) \<longleftrightarrow> Collect q \<subseteq> P"
| "confined P (Seq a b) \<longleftrightarrow> confined P a \<and> confined P b"
| "confined P (Alt a b) \<longleftrightarrow> confined P a \<and> confined P b"
| "confined P (Star a) \<longleftrightarrow> confined P a"
| "confined P (Lazy a) \<longleftrightarrow> confined P a"
| "confined P _ \<longleftrightarrow> True"

definition passed :: "char set \<Rightarrow> pos \<Rightarrow> pos \<Rightarrow> bool" where
  "passed P s t \<longleftrightarrow> (\<exists>u. snd s = u @ snd t \<and> set u \<subseteq> P)"

lemma passed_refl [simp]: "passed P s s"
  by (simp add: passed_def)

lemma passed_trans: "passed P s m \<Longrightarrow> passed P m t \<Longrightarrow> passed P s t"
  unfolding passed_def by (metis append_assoc set_append Un_subset_iff)

lemma rx_passed: "t \<in> set (rx r s) \<Longrightarrow> confined P r \<Longrightarrow> passed P s t"
proof (induction r s arbitrary: t rule: rx.induct)
  case (2 p s)
  then show ?case by (cases s; cases "snd s") (auto simp: passed_def split: if_splits)
next
  case (3 a b s)
  then obtain m where "m \<in> set (rx a s)" "t \<in> set (rx b m)" by auto
  moreover have "confined P a" "confined P b" using 3 by auto
  ultimately show ?case using "3.IH"(1)[of m] "3.IH"(2)[of m t] passed_trans by blast
next
  case (5 a s)
  then have a: "confined P a" by simp
  show ?case
  proof (cases "t = s")
    case False
    with "5.prems"(1) obtain m where m: "m \<in> set (filter (\<lambda>u. length (snd u) < length (snd s)) (rx a s))"
      "t \<in> set (rx (Star a) m)" by (auto simp: set_rx_Star[of t a s])
    with "5.IH"(1)[of m] "5.IH"(2)[of m t] "5.prems"(2) a show ?thesis by (auto intro: passed_trans)
  qed simp
next
  case (6 a s)
  then have a: "confined P a" by simp
  show ?case
  proof (cases "t = s")
    case False
    with "6.prems"(1) obtain m where m: "m \<in> set (filter (\<lambda>u. length (snd u) < length (snd s)) (rx a s))"
      "t \<in> set (rx (Lazy a) m)" by (auto simp: set_rx_Lazy[of t a s])
    with "6.IH"(1)[of m] "6.IH"(2)[of m t] "6.prems"(2) a show ?thesis by (auto intro: passed_trans)
  qed simp
qed (auto split: if_splits)

lemma full_match_chars: "full_match r s \<Longrightarrow> confined P r \<Longrightarrow> set s \<subseteq> P"
  using rx_passed[of _ r "([], s)" P] by (fastforce simp: full_match_def passed_def)

end
