(* ===== verification/Redaction.thy ===== *)
theory Redaction
  imports Js_Regex
begin

text \<open>
  JSON values and the redaction of secrets (src/src/agent-control/redaction.ts). Every
  record the agent store writes passes \<open>redactSecrets\<close>, so what is read back is the
  redacted record; the lemmas here say what redaction removes, what it keeps, and on which
  values it is the identity.
\<close>

section \<open>JSON values\<close>

text \<open>An object is its list of entries in insertion order; a member that is \<open>undefined\<close> is absent.\<close>

datatype json =
    JNull
  | JBool bool
  | JNum rat
  | JStr string
  | JArr "json list"
  | JObj "(string \<times> json) list"

lemma size_JArr: "x \<in> set xs \<Longrightarrow> size x < size (JArr xs)"
  by (induction xs) auto

lemma size_JObj: "(k, x) \<in> set kvs \<Longrightarrow> size x < size (JObj kvs)"
  by (induction kvs) auto

definition member :: "string \<Rightarrow> (string \<times> json) list \<Rightarrow> json option" where
  "member k kvs = map_of kvs k"

section \<open>Sensitive keys\<close>

text \<open>\<open>key.replace(/([a-z0-9])([A-Z])/g, '$1_$2')\<close>.\<close>

fun camel_split :: "string \<Rightarrow> string" where
  "camel_split (a # b # s) =
     (if (is_lower a \<or> is_digit a) \<and> is_upper b then a # CHR ''_'' # camel_split (b # s)
      else a # camel_split (b # s))"
| "camel_split s = s"

definition key_sep :: re where
  "key_sep = opt (Cls (\<lambda>c. c = CHR ''_'' \<or> c = CHR ''-''))"

definition SENSITIVE_KEY :: re where
  "SENSITIVE_KEY =
     Seq (Alt Bol (lit ''_''))
       (Seq (alts [lit_ci ''token'', lit_ci ''secret'', lit_ci ''password'', lit_ci ''passphrase'',
                   Seq (lit_ci ''private'') (Seq key_sep (lit_ci ''key'')),
                   lit_ci ''authorization'', lit_ci ''cookie'', lit_ci ''credential'',
                   Seq (lit_ci ''api'') (Seq key_sep (lit_ci ''key'')),
                   Seq (lit_ci ''client'') (Seq key_sep (lit_ci ''secret''))])
            (Alt Eol (lit ''_'')))"

definition isSensitiveKey :: "string \<Rightarrow> bool" where
  "isSensitiveKey key = re_test SENSITIVE_KEY (camel_split key)"

section \<open>Secrets in text\<close>

definition BEARER :: re where
  "BEARER = Seq Bnd (Seq (lit_ci ''Bearer'') (Seq (plus (Cls is_space))
     (at_least 8 (Cls (\<lambda>c. is_lower c \<or> is_upper c \<or> is_digit c \<or> c \<in> set ''._~+/=-'')))))"

definition PRIVATE_KEY :: re where
  "PRIVATE_KEY = Seq (lit ''-----BEGIN '') (Seq (Star (Cls (\<lambda>c. is_upper c \<or> c = CHR '' '')))
     (Seq (lit ''PRIVATE KEY-----'') (Seq (Lazy (Cls (\<lambda>_. True))) (Seq (lit ''-----END '')
       (Seq (Star (Cls (\<lambda>c. is_upper c \<or> c = CHR '' ''))) (lit ''PRIVATE KEY-----''))))))"

text \<open>The capture group of \<open>URI_CREDENTIAL\<close>, scheme and user, and the credential after it.\<close>

definition URI_PREFIX :: re where
  "URI_PREFIX = Seq (Cls (\<lambda>c. is_lower c \<or> is_upper c))
     (Seq (Star (Cls (\<lambda>c. is_lower c \<or> is_upper c \<or> is_digit c \<or> c \<in> set ''+.-'')))
       (Seq (lit ''://'') (Seq (plus (Cls (\<lambda>c. \<not> is_space c \<and> c \<notin> set '':/@''))) (lit '':''))))"

definition URI_SECRET :: re where
  "URI_SECRET = Seq (plus (Cls (\<lambda>c. \<not> is_space c \<and> c \<notin> set ''@/''))) (lit ''@'')"

definition redact_str :: "string \<Rightarrow> string" where
  "redact_str s =
     replace_all URI_PREFIX URI_SECRET (\<lambda>p. p @ ''[REDACTED]@'')
       (replace_all PRIVATE_KEY Eps (\<lambda>_. ''[REDACTED PRIVATE KEY]'')
         (replace_all BEARER Eps (\<lambda>_. ''Bearer [REDACTED]'') s))"

section \<open>redactSecrets and containsSecretLikeField\<close>

definition hides :: "string option \<Rightarrow> bool" where
  "hides key = (case key of None \<Rightarrow> False | Some k \<Rightarrow> k \<noteq> [] \<and> isSensitiveKey k)"

text \<open>
  \<open>visit\<close>: \<open>redact key v\<close> is its value, \<open>redaction_applied key v\<close> says whether the
  call sets the flag \<open>applied\<close>.
\<close>

function redact :: "string option \<Rightarrow> json \<Rightarrow> json" where
  "redact key v =
     (if hides key then JStr ''[REDACTED]''
      else (case v of
          JStr s \<Rightarrow> JStr (redact_str s)
        | JArr xs \<Rightarrow> JArr (map (redact None) xs)
        | JObj kvs \<Rightarrow> JObj (map (\<lambda>(k, x). (k, redact (Some k) x)) kvs)
        | _ \<Rightarrow> v))"
  by pat_completeness auto
termination
  by (relation "measure (\<lambda>(key, v). size v)") (auto dest: size_JArr size_JObj)

function redaction_applied :: "string option \<Rightarrow> json \<Rightarrow> bool" where
  "redaction_applied key v =
     (if hides key then True
      else (case v of
          JStr s \<Rightarrow> redact_str s \<noteq> s
        | JArr xs \<Rightarrow> list_ex (redaction_applied None) xs
        | JObj kvs \<Rightarrow> list_ex (\<lambda>(k, x). redaction_applied (Some k) x) kvs
        | _ \<Rightarrow> False))"
  by pat_completeness auto
termination
  by (relation "measure (\<lambda>(key, v). size v)") (auto dest: size_JArr size_JObj)

function containsSecretLikeField :: "json \<Rightarrow> bool" where
  "containsSecretLikeField v =
     (case v of
        JArr xs \<Rightarrow> list_ex containsSecretLikeField xs
      | JObj kvs \<Rightarrow> list_ex (\<lambda>(k, x). isSensitiveKey k \<or> containsSecretLikeField x) kvs
      | _ \<Rightarrow> False)"
  by pat_completeness auto
termination
  by (relation "measure size") (auto dest: size_JArr size_JObj)

declare redact.simps [simp del] redaction_applied.simps [simp del] containsSecretLikeField.simps [simp del]

lemma hides_None [simp]: "\<not> hides None"
  by (simp add: hides_def)

lemma isSensitiveKey_Nil [simp]: "\<not> isSensitiveKey []"
  by (simp add: isSensitiveKey_def re_test_def SENSITIVE_KEY_def key_sep_def opt_def)

lemma hides_Some [simp]: "hides (Some k) \<longleftrightarrow> isSensitiveKey k"
  by (auto simp: hides_def)

lemma redact_simps [simp]:
  "redact None JNull = JNull"
  "redact None (JBool b) = JBool b"
  "redact None (JNum n) = JNum n"
  "redact None (JStr s) = JStr (redact_str s)"
  "redact None (JArr xs) = JArr (map (redact None) xs)"
  "redact None (JObj kvs) = JObj (map (\<lambda>(k, x). (k, redact (Some k) x)) kvs)"
  by (subst redact.simps; simp)+

lemma redact_hidden [simp]: "hides key \<Longrightarrow> redact key v = JStr ''[REDACTED]''"
  by (subst redact.simps) simp

lemma redact_visible: "\<not> isSensitiveKey k \<Longrightarrow> redact (Some k) v = redact None v"
  by (simp add: redact.simps[of "Some k" v] redact.simps[of None v])

lemma redaction_applied_simps [simp]:
  "redaction_applied None JNull = False"
  "redaction_applied None (JBool b) = False"
  "redaction_applied None (JNum n) = False"
  "redaction_applied None (JStr s) = (redact_str s \<noteq> s)"
  "redaction_applied None (JArr xs) = list_ex (redaction_applied None) xs"
  "redaction_applied None (JObj kvs) = list_ex (\<lambda>(k, x). redaction_applied (Some k) x) kvs"
  by (subst redaction_applied.simps; simp)+

lemma redaction_applied_hidden [simp]: "hides key \<Longrightarrow> redaction_applied key v"
  by (subst redaction_applied.simps) simp

lemma redaction_applied_visible:
  "\<not> isSensitiveKey k \<Longrightarrow> redaction_applied (Some k) v = redaction_applied None v"
  by (simp add: redaction_applied.simps[of "Some k" v] redaction_applied.simps[of None v])

lemma containsSecretLikeField_simps [simp]:
  "containsSecretLikeField JNull = False"
  "containsSecretLikeField (JBool b) = False"
  "containsSecretLikeField (JNum n) = False"
  "containsSecretLikeField (JStr s) = False"
  "containsSecretLikeField (JArr xs) = list_ex containsSecretLikeField xs"
  "containsSecretLikeField (JObj kvs) =
     list_ex (\<lambda>(k, x). isSensitiveKey k \<or> containsSecretLikeField x) kvs"
  by (subst containsSecretLikeField.simps; simp)+

lemma json_induct [case_names Null Bool Num Str Arr Obj]:
  assumes "P JNull" "\<And>b. P (JBool b)" "\<And>n. P (JNum n)" "\<And>s. P (JStr s)"
    and "\<And>xs. (\<And>x. x \<in> set xs \<Longrightarrow> P x) \<Longrightarrow> P (JArr xs)"
    and "\<And>kvs. (\<And>k x. (k, x) \<in> set kvs \<Longrightarrow> P x) \<Longrightarrow> P (JObj kvs)"
  shows "P v"
proof (induction v rule: measure_induct_rule[of size])
  case (less v)
  have arr: "P x" if "v = JArr xs" "x \<in> set xs" for x xs
    using less that size_JArr by blast
  have obj: "P x" if "v = JObj kvs" "(k, x) \<in> set kvs" for k x kvs
    using less that size_JObj by blast
  show ?case
  proof (cases v)
    case (JArr xs) then show ?thesis using arr by (simp add: assms(5))
  next
    case (JObj kvs) then show ?thesis using obj assms(6)[of kvs] by simp
  qed (simp_all add: assms)
qed

section \<open>What redaction keeps and what it removes\<close>

text \<open>When the flag is not set, nothing was changed.\<close>

lemma redact_unapplied: "\<not> redaction_applied None v \<Longrightarrow> redact None v = v"
proof (induction v rule: json_induct)
  case (Arr xs)
  then show ?case by (auto simp: list_ex_iff intro: map_idI)
next
  case (Obj kvs)
  have "redact (Some k) x = x" if "(k, x) \<in> set kvs" for k x
  proof -
    have none: "\<not> redaction_applied (Some k) x" using Obj.prems that by (auto simp: list_ex_iff)
    then have "\<not> isSensitiveKey k" by auto
    then show ?thesis
      using Obj.IH[OF that] none by (simp add: redact_visible redaction_applied_visible)
  qed
  then show ?case by (auto intro: map_idI)
qed simp_all

text \<open>Every entry under a sensitive key is masked, at any depth.\<close>

function all_masked :: "json \<Rightarrow> bool" where
  "all_masked v =
     (case v of
        JArr xs \<Rightarrow> list_all all_masked xs
      | JObj kvs \<Rightarrow>
          list_all (\<lambda>(k, x). (isSensitiveKey k \<longrightarrow> x = JStr ''[REDACTED]'') \<and> all_masked x) kvs
      | _ \<Rightarrow> True)"
  by pat_completeness auto
termination
  by (relation "measure size") (auto dest: size_JArr size_JObj)

declare all_masked.simps [simp del]

lemma all_masked_simps [simp]:
  "all_masked JNull" "all_masked (JBool b)" "all_masked (JNum n)" "all_masked (JStr s)"
  "all_masked (JArr xs) = list_all all_masked xs"
  "all_masked (JObj kvs) =
     list_all (\<lambda>(k, x). (isSensitiveKey k \<longrightarrow> x = JStr ''[REDACTED]'') \<and> all_masked x) kvs"
  by (subst all_masked.simps; simp)+

lemma all_masked_redact_key: "all_masked (redact None v) \<Longrightarrow> all_masked (redact (Some k) v)"
  by (cases "isSensitiveKey k") (simp_all add: redact_visible)

lemma all_masked_redact: "all_masked (redact None v)"
proof (induction v rule: json_induct)
  case (Arr xs)
  then show ?case by (auto simp: list_all_iff)
next
  case (Obj kvs)
  then show ?case by (auto simp: list_all_iff intro!: all_masked_redact_key)
qed simp_all

text \<open>An input that names no secret field keeps its shape: only texts can change.\<close>

function map_str :: "(string \<Rightarrow> string) \<Rightarrow> json \<Rightarrow> json" where
  "map_str f v =
     (case v of
        JStr s \<Rightarrow> JStr (f s)
      | JArr xs \<Rightarrow> JArr (map (map_str f) xs)
      | JObj kvs \<Rightarrow> JObj (map (\<lambda>(k, x). (k, map_str f x)) kvs)
      | _ \<Rightarrow> v)"
  by pat_completeness auto
termination
  by (relation "measure (\<lambda>(f, v). size v)") (auto dest: size_JArr size_JObj)

declare map_str.simps [simp del]

lemma map_str_simps [simp]:
  "map_str f JNull = JNull"
  "map_str f (JBool b) = JBool b"
  "map_str f (JNum n) = JNum n"
  "map_str f (JStr s) = JStr (f s)"
  "map_str f (JArr xs) = JArr (map (map_str f) xs)"
  "map_str f (JObj kvs) = JObj (map (\<lambda>(k, x). (k, map_str f x)) kvs)"
  by (subst map_str.simps; simp)+

lemma redact_no_secret_fields: "\<not> containsSecretLikeField v \<Longrightarrow> redact None v = map_str redact_str v"
proof (induction v rule: json_induct)
  case (Arr xs)
  then show ?case by (auto simp: list_ex_iff)
next
  case (Obj kvs)
  have "redact (Some k) x = map_str redact_str x" if "(k, x) \<in> set kvs" for k x
  proof -
    have "\<not> isSensitiveKey k" and "\<not> containsSecretLikeField x"
      using Obj.prems that by (auto simp: list_ex_iff)
    then show ?thesis using Obj.IH[OF that] by (simp add: redact_visible)
  qed
  then show ?case by auto
qed simp_all

text \<open>
  A text with neither white space nor \<open>@\<close> matches none of the three patterns:
  identifiers, capability names, host names and time stamps are left as they are.
\<close>

definition clean :: "string \<Rightarrow> bool" where
  "clean s \<longleftrightarrow> (\<forall>c \<in> set s. \<not> is_space c \<and> c \<noteq> CHR ''@'')"

lemma clean_simps [simp]:
  "clean []" "clean (c # s) \<longleftrightarrow> \<not> is_space c \<and> c \<noteq> CHR ''@'' \<and> clean s"
  "clean (s @ t) \<longleftrightarrow> clean s \<and> clean t"
  by (auto simp: clean_def)

lemma redact_str_clean [simp]: "clean s \<Longrightarrow> redact_str s = s"
proof -
  assume "clean s"
  then have sp: "set s \<inter> Collect is_space = {}" and at: "set s \<inter> {CHR ''@''} = {}"
    by (auto simp: clean_def)
  have "replace_all BEARER Eps f s = s" for f
    by (rule replace_all_clean[OF _ sp]) (simp add: BEARER_def plus_def)
  moreover have "replace_all PRIVATE_KEY Eps f s = s" for f
    by (rule replace_all_clean[OF _ sp])
      (simp add: PRIVATE_KEY_def needs_lit[where c = "CHR '' ''"] is_space_def)
  moreover have "replace_all URI_PREFIX URI_SECRET f s = s" for f
    by (rule replace_all_clean[OF _ at]) (simp add: URI_SECRET_def)
  ultimately show ?thesis by (simp add: redact_str_def)
qed

lemma clean_show_nat [simp]: "clean (show_nat n)"
  unfolding clean_def
proof
  fix c assume "c \<in> set (show_nat n)"
  then have "is_digit c" by (rule show_nat_digits)
  then show "\<not> is_space c \<and> c \<noteq> CHR ''@''" by (auto simp: is_digit_def is_space_def)
qed

end
