(* ===== verification/Stable_Json.thy ===== *)
theory Stable_Json
  imports Redaction "HOL-Library.Multiset"
begin

text \<open>
  The deterministic JSON text of src/src/agent-api/plan-store.ts that plan hashes and the
  audit chain are computed over. \<open>localeCompare\<close>, the decimal text of a number and SHA-256
  belong to the run-time library and are the fields of a record of parameters.
\<close>

record host_lib =
  sha256 :: "string \<Rightarrow> string"
  locale_le :: "string \<Rightarrow> string \<Rightarrow> bool"
  num_text :: "rat \<Rightarrow> string"

text \<open>\<open>JSON.stringify\<close> of a string: the quote, the backslash and the control characters are escaped.\<close>

definition hex_digit :: "nat \<Rightarrow> char" where
  "hex_digit n = (if n < 10 then digit_char n else char_of (87 + n))"

definition escape_char :: "char \<Rightarrow> string" where
  "escape_char c =
     (if c = CHR 0x22 then [CHR 0x5C, CHR 0x22]
      else if c = CHR 0x5C then [CHR 0x5C, CHR 0x5C]
      else if c = CHR 0x08 then [CHR 0x5C, CHR ''b'']
      else if c = CHR 0x0C then [CHR 0x5C, CHR ''f'']
      else if c = CHR 0x0A then [CHR 0x5C, CHR ''n'']
      else if c = CHR 0x0D then [CHR 0x5C, CHR ''r'']
      else if c = CHR 0x09 then [CHR 0x5C, CHR ''t'']
      else if (of_char c :: nat) < 32 then
        [CHR 0x5C, CHR ''u'', CHR ''0'', CHR ''0'', hex_digit (of_char c div 16), hex_digit (of_char c mod 16)]
      else [c])"

definition json_quote :: "string \<Rightarrow> string" where
  "json_quote s = CHR 0x22 # flat_map escape_char s @ [CHR 0x22]"

text \<open>\<open>entries.sort(([a], [b]) => a.localeCompare(b))\<close>, a stable sort.\<close>

fun insert_entry :: "(string \<Rightarrow> string \<Rightarrow> bool) \<Rightarrow> string \<times> 'a \<Rightarrow> (string \<times> 'a) list \<Rightarrow> (string \<times> 'a) list" where
  "insert_entry le e [] = [e]"
| "insert_entry le e (f # fs) = (if le (fst e) (fst f) then e # f # fs else f # insert_entry le e fs)"

definition sort_entries :: "(string \<Rightarrow> string \<Rightarrow> bool) \<Rightarrow> (string \<times> 'a) list \<Rightarrow> (string \<times> 'a) list" where
  "sort_entries le es = foldr (insert_entry le) es []"

lemma mset_insert_entry [simp]: "mset (insert_entry le e fs) = add_mset e (mset fs)"
  by (induction fs) auto

lemma mset_sort_entries [simp]: "mset (sort_entries le es) = mset es"
  unfolding sort_entries_def by (induction es) auto

lemma set_sort_entries [simp]: "set (sort_entries le es) = set es"
  by (metis mset_sort_entries set_mset_mset)

function stableStringify :: "host_lib \<Rightarrow> json \<Rightarrow> string" where
  "stableStringify L v =
     (case v of
        JNull \<Rightarrow> ''null''
      | JBool b \<Rightarrow> (if b then ''true'' else ''false'')
      | JNum n \<Rightarrow> num_text L n
      | JStr s \<Rightarrow> json_quote s
      | JArr xs \<Rightarrow> ''['' @ join '','' (map (stableStringify L) xs) @ '']''
      | JObj kvs \<Rightarrow>
          CHR 0x7B # join '','' (map (\<lambda>(k, x). json_quote k @ '':'' @ stableStringify L x)
                                  (sort_entries (locale_le L) kvs)) @ [CHR 0x7D])"
  by pat_completeness auto
termination
  by (relation "measure (\<lambda>(L, v). size v)") (auto dest: size_JArr size_JObj)

declare stableStringify.simps [simp del]

lemma stableStringify_simps [simp]:
  "stableStringify L JNull = ''null''"
  "stableStringify L (JBool b) = (if b then ''true'' else ''false'')"
  "stableStringify L (JNum n) = num_text L n"
  "stableStringify L (JStr s) = json_quote s"
  "stableStringify L (JArr xs) = ''['' @ join '','' (map (stableStringify L) xs) @ '']''"
  "stableStringify L (JObj kvs) =
     CHR 0x7B # join '','' (map (\<lambda>(k, x). json_quote k @ '':'' @ stableStringify L x)
                             (sort_entries (locale_le L) kvs)) @ [CHR 0x7D]"
  by (subst stableStringify.simps; simp)+

section \<open>The canonical form\<close>

text \<open>\<open>canon le v\<close> is \<open>v\<close> with the entries of every object sorted.\<close>

function canon :: "(string \<Rightarrow> string \<Rightarrow> bool) \<Rightarrow> json \<Rightarrow> json" where
  "canon le v =
     (case v of
        JArr xs \<Rightarrow> JArr (map (canon le) xs)
      | JObj kvs \<Rightarrow> JObj (sort_entries le (map (\<lambda>(k, x). (k, canon le x)) kvs))
      | _ \<Rightarrow> v)"
  by pat_completeness auto
termination
  by (relation "measure (\<lambda>(le, v). size v)") (auto dest: size_JArr size_JObj)

declare canon.simps [simp del]

lemma canon_simps [simp]:
  "canon le JNull = JNull"
  "canon le (JBool b) = JBool b"
  "canon le (JNum n) = JNum n"
  "canon le (JStr s) = JStr s"
  "canon le (JArr xs) = JArr (map (canon le) xs)"
  "canon le (JObj kvs) = JObj (sort_entries le (map (\<lambda>(k, x). (k, canon le x)) kvs))"
  by (subst canon.simps; simp)+

text \<open>The text printed in entry order, without sorting.\<close>

function render :: "host_lib \<Rightarrow> json \<Rightarrow> string" where
  "render L v =
     (case v of
        JNull \<Rightarrow> ''null''
      | JBool b \<Rightarrow> (if b then ''true'' else ''false'')
      | JNum n \<Rightarrow> num_text L n
      | JStr s \<Rightarrow> json_quote s
      | JArr xs \<Rightarrow> ''['' @ join '','' (map (render L) xs) @ '']''
      | JObj kvs \<Rightarrow>
          CHR 0x7B # join '','' (map (\<lambda>(k, x). json_quote k @ '':'' @ render L x) kvs) @ [CHR 0x7D])"
  by pat_completeness auto
termination
  by (relation "measure (\<lambda>(L, v). size v)") (auto dest: size_JArr size_JObj)

declare render.simps [simp del]

lemma render_simps [simp]:
  "render L JNull = ''null''"
  "render L (JBool b) = (if b then ''true'' else ''false'')"
  "render L (JNum n) = num_text L n"
  "render L (JStr s) = json_quote s"
  "render L (JArr xs) = ''['' @ join '','' (map (render L) xs) @ '']''"
  "render L (JObj kvs) =
     CHR 0x7B # join '','' (map (\<lambda>(k, x). json_quote k @ '':'' @ render L x) kvs) @ [CHR 0x7D]"
  by (subst render.simps; simp)+

lemma insert_entry_map:
  "insert_entry le (k, f x) (map (\<lambda>(k, x). (k, f x)) es) = map (\<lambda>(k, x). (k, f x)) (insert_entry le (k, x) es)"
  by (induction es) auto

lemma sort_entries_map:
  "sort_entries le (map (\<lambda>(k, x). (k, f x)) es) = map (\<lambda>(k, x). (k, f x)) (sort_entries le es)"
  unfolding sort_entries_def by (induction es) (auto simp: insert_entry_map)

theorem stableStringify_render: "stableStringify L v = render L (canon (locale_le L) v)"
proof (induction v rule: json_induct)
  case (Arr xs)
  then have "map (stableStringify L) xs = map (render L) (map (canon (locale_le L)) xs)" by simp
  then show ?case by (simp del: map_map)
next
  case (Obj kvs)
  let ?g = "\<lambda>(k, x). json_quote k @ '':'' @ render L x"
  have "map (\<lambda>(k, x). json_quote k @ '':'' @ stableStringify L x) (sort_entries (locale_le L) kvs) =
        map ?g (map (\<lambda>(k, x). (k, canon (locale_le L) x)) (sort_entries (locale_le L) kvs))"
    using Obj by auto
  then show ?case by (simp add: sort_entries_map del: map_map)
qed simp_all

section \<open>The text determines the value\<close>

text \<open>Reading one escaped character back.\<close>

definition hex_val :: "char \<Rightarrow> nat" where
  "hex_val c = (if is_digit c then digit_val c else of_char c - 87)"

definition unescape :: "string \<Rightarrow> (char \<times> string) option" where
  "unescape s =
     (case s of
        [] \<Rightarrow> None
      | c # u \<Rightarrow>
          if c \<noteq> CHR 0x5C then Some (c, u)
          else (case u of
              [] \<Rightarrow> None
            | d # t \<Rightarrow>
                if d = CHR 0x22 \<or> d = CHR 0x5C then Some (d, t)
                else if d = CHR ''b'' then Some (CHR 0x08, t)
                else if d = CHR ''f'' then Some (CHR 0x0C, t)
                else if d = CHR ''n'' then Some (CHR 0x0A, t)
                else if d = CHR ''r'' then Some (CHR 0x0D, t)
                else if d = CHR ''t'' then Some (CHR 0x09, t)
                else Some (char_of (16 * hex_val (t ! 2) + hex_val (t ! 3)), drop 4 t)))"

lemma hex_val_digit [simp]: "n < 16 \<Longrightarrow> hex_val (hex_digit n) = n"
proof (cases "n < 10")
  case True
  then show ?thesis by (simp add: hex_val_def hex_digit_def)
next
  case False
  assume "n < 16"
  with False have "\<not> is_digit (char_of (87 + n))" by (simp add: is_digit_def)
  with False \<open>n < 16\<close> show ?thesis by (simp add: hex_val_def hex_digit_def)
qed

lemma unescape_escape [simp]: "unescape (escape_char c @ u) = Some (c, u)"
  by (simp add: unescape_def escape_char_def)

lemma escape_char_hd: "\<exists>d t. escape_char c = d # t \<and> d \<noteq> CHR 0x22"
  by (simp add: escape_char_def)

lemma escape_char_unique: "escape_char c @ u = escape_char d @ v \<Longrightarrow> c = d \<and> u = v"
  by (metis unescape_escape option.inject prod.inject)

lemma json_quote_unique: "json_quote s @ u = json_quote t @ v \<Longrightarrow> s = t \<and> u = v"
proof -
  have "flat_map escape_char s @ CHR 0x22 # u = flat_map escape_char t @ CHR 0x22 # v \<Longrightarrow> s = t \<and> u = v"
  proof (induction s arbitrary: t)
    case Nil
    then show ?case using escape_char_hd by (cases t) (auto simp: flat_map_def, metis append_Cons list.sel(1))
  next
    case (Cons c s)
    show ?case
    proof (cases t)
      case Nil
      then show ?thesis using Cons.prems escape_char_hd[of c] by (auto simp: flat_map_def)
    next
      case (Cons d t')
      then have "escape_char c @ (flat_map escape_char s @ CHR 0x22 # u) =
                 escape_char d @ (flat_map escape_char t' @ CHR 0x22 # v)"
        using Cons.prems by (simp add: flat_map_def)
      then have "c = d" and "flat_map escape_char s @ CHR 0x22 # u = flat_map escape_char t' @ CHR 0x22 # v"
        using escape_char_unique by blast+
      then show ?thesis using Cons.IH Cons by auto
    qed
  qed
  then show "json_quote s @ u = json_quote t @ v \<Longrightarrow> s = t \<and> u = v" by (simp add: json_quote_def)
qed

text \<open>
  What the texts of numbers must satisfy, as those of JavaScript do: distinct numbers have
  distinct texts, made of digits, signs, the point and the exponent letter.
\<close>

definition num_char :: "char \<Rightarrow> bool" where
  "num_char c \<longleftrightarrow> is_digit c \<or> c \<in> set ''+-.e''"

definition good_nums :: "host_lib \<Rightarrow> bool" where
  "good_nums L \<longleftrightarrow> inj (num_text L) \<and>
     (\<forall>n. \<exists>c t. num_text L n = c # t \<and> (is_digit c \<or> c = CHR ''-'') \<and> list_all num_char (c # t))"

definition ends_value :: "string \<Rightarrow> bool" where
  "ends_value r \<longleftrightarrow> (case r of [] \<Rightarrow> True | c # _ \<Rightarrow> c \<in> {CHR '','', CHR '']'', CHR 0x7D})"

lemma ends_value_simps [simp]:
  "ends_value []" "ends_value (c # r) \<longleftrightarrow> c \<in> {CHR '','', CHR '']'', CHR 0x7D}"
  by (simp_all add: ends_value_def)

lemma prefix_until:
  assumes "list_all P a" "list_all P b" "a @ r = b @ s"
    and "\<And>c t. r = c # t \<Longrightarrow> \<not> P c" "\<And>c t. s = c # t \<Longrightarrow> \<not> P c"
  shows "a = b \<and> r = s"
  using assms
proof (induction a arbitrary: b)
  case Nil
  then show ?case by (cases b) auto
next
  case (Cons x a)
  then show ?case by (cases b) auto
qed

lemma num_text_unique:
  assumes L: "good_nums L" and eq: "num_text L m @ r = num_text L n @ s"
    and r: "ends_value r" and s: "ends_value s"
  shows "m = n \<and> r = s"
proof -
  have num: "list_all num_char (num_text L k)" for k
    using L unfolding good_nums_def by metis
  have stop: "\<not> num_char c" if "ends_value (c # t)" for c t
    using that by (auto simp: num_char_def is_digit_def)
  have "num_text L m = num_text L n \<and> r = s"
    by (rule prefix_until[OF num num eq]) (use r s stop in auto)
  then show ?thesis using L by (auto simp: good_nums_def dest: injD)
qed

text \<open>An item that can be read back in front of any text that ends a value.\<close>

definition decodable :: "('a \<Rightarrow> string) \<Rightarrow> 'a \<Rightarrow> bool" where
  "decodable f x \<longleftrightarrow>
     (\<forall>y r s. ends_value r \<longrightarrow> ends_value s \<longrightarrow> f x @ r = f y @ s \<longrightarrow> x = y \<and> r = s)"

lemma decodableD: "decodable f x \<Longrightarrow> f x @ r = f y @ s \<Longrightarrow> ends_value r \<Longrightarrow> ends_value s \<Longrightarrow> x = y \<and> r = s"
  by (auto simp: decodable_def)

lemma join_Cons: "join sep (x # xs) = x @ (if xs = [] then [] else sep @ join sep xs)"
  by (cases xs) auto

lemma join_unique:
  assumes items: "\<forall>x \<in> set xs. decodable f x" and c: "c \<in> {CHR '']'', CHR 0x7D}"
    and open_end: "\<And>y. \<exists>d t. f y = d # t \<and> d \<noteq> c"
    and eq: "join '','' (map f xs) @ c # r = join '','' (map f ys) @ c # s"
  shows "xs = ys \<and> r = s"
  using items eq
proof (induction xs arbitrary: ys)
  case Nil
  then show ?case using open_end by (cases ys) (auto simp: join_Cons, metis append_Cons list.sel(1))
next
  case (Cons x xs)
  obtain d t where x: "f x = d # t" "d \<noteq> c" using open_end by blast
  show ?case
  proof (cases ys)
    case Nil
    with Cons.prems x show ?thesis by (simp add: join_Cons)
  next
    case (Cons y ys')
    define rest where "rest zs u = (if zs = [] then [] else '','' @ join '','' (map f zs)) @ c # u" for zs :: "'a list" and u
    have ends: "ends_value (rest zs u)" for zs u using c by (auto simp: rest_def)
    have "f x @ rest xs r = f y @ rest ys' s"
      using Cons.prems(2) unfolding Cons by (simp add: join_Cons rest_def split: if_splits)
    then have "x = y" and rest: "rest xs r = rest ys' s"
      using decodableD[of f x] Cons.prems(1) ends by auto
    have "xs = ys' \<and> r = s"
    proof (cases "xs = [] \<or> ys' = []")
      case True
      then show ?thesis using rest c by (auto simp: rest_def split: if_splits)
    next
      case False
      then have "join '','' (map f xs) @ c # r = join '','' (map f ys') @ c # s"
        using rest by (simp add: rest_def)
      then show ?thesis using Cons.IH Cons.prems(1) by auto
    qed
    then show ?thesis using \<open>x = y\<close> Cons by simp
  qed
qed

lemma render_hd:
  assumes "good_nums L"
  shows "\<exists>d t. render L v = d # t \<and> d \<notin> {CHR '','', CHR '']'', CHR 0x7D} \<and>
     (case v of JNull \<Rightarrow> d = CHR ''n'' | JBool b \<Rightarrow> d = (if b then CHR ''t'' else CHR ''f'')
      | JNum n \<Rightarrow> is_digit d \<or> d = CHR ''-'' | JStr s \<Rightarrow> d = CHR 0x22
      | JArr xs \<Rightarrow> d = CHR ''['' | JObj kvs \<Rightarrow> d = CHR 0x7B)"
proof (cases v)
  case (JNum n)
  then obtain c t where "num_text L n = c # t" "is_digit c \<or> c = CHR ''-''"
    using assms unfolding good_nums_def by metis
  then show ?thesis using JNum by (auto simp: is_digit_def)
qed (auto simp: json_quote_def)

text \<open>Two values with the same text are of the same kind.\<close>

definition same_kind :: "json \<Rightarrow> json \<Rightarrow> bool" where
  "same_kind v w = (case (v, w) of
      (JNull, JNull) \<Rightarrow> True | (JBool a, JBool b) \<Rightarrow> a = b | (JNum _, JNum _) \<Rightarrow> True
    | (JStr _, JStr _) \<Rightarrow> True | (JArr _, JArr _) \<Rightarrow> True | (JObj _, JObj _) \<Rightarrow> True | _ \<Rightarrow> False)"

lemma render_same_kind:
  assumes "good_nums L" and "render L v @ r = render L w @ s"
  shows "same_kind v w"
proof -
  obtain d t where v: "render L v = d # t" and dv: "case v of JNull \<Rightarrow> d = CHR ''n''
      | JBool b \<Rightarrow> d = (if b then CHR ''t'' else CHR ''f'')
      | JNum n \<Rightarrow> is_digit d \<or> d = CHR ''-'' | JStr s \<Rightarrow> d = CHR 0x22
      | JArr xs \<Rightarrow> d = CHR ''['' | JObj kvs \<Rightarrow> d = CHR 0x7B"
    using render_hd[OF assms(1), of v] by blast
  obtain t' where w: "render L w = d # t'" using render_hd[OF assms(1), of w] v assms(2) by auto
  have dw: "case w of JNull \<Rightarrow> d = CHR ''n'' | JBool b \<Rightarrow> d = (if b then CHR ''t'' else CHR ''f'')
      | JNum n \<Rightarrow> is_digit d \<or> d = CHR ''-'' | JStr s \<Rightarrow> d = CHR 0x22
      | JArr xs \<Rightarrow> d = CHR ''['' | JObj kvs \<Rightarrow> d = CHR 0x7B"
    using render_hd[OF assms(1), of w] w by auto
  show ?thesis using dv dw
    by (cases v; cases w) (auto simp: same_kind_def is_digit_def split: if_splits)
qed

lemma render_decodable:
  assumes L: "good_nums L"
  shows "decodable (render L) v"
proof (induction v rule: json_induct)
  case (Num n)
  show ?case unfolding decodable_def
  proof (intro allI impI)
    fix w r s assume e: "ends_value r" "ends_value s" and eq: "render L (JNum n) @ r = render L w @ s"
    from render_same_kind[OF L eq] obtain m where w: "w = JNum m" by (cases w) (auto simp: same_kind_def)
    then show "JNum n = w \<and> r = s" using num_text_unique[OF L] eq e by auto
  qed
next
  case (Str x)
  show ?case unfolding decodable_def
  proof (intro allI impI)
    fix w r s assume eq: "render L (JStr x) @ r = render L w @ s"
    from render_same_kind[OF L eq] obtain y where w: "w = JStr y" by (cases w) (auto simp: same_kind_def)
    then show "JStr x = w \<and> r = s" using json_quote_unique[of x r y s] eq by simp
  qed
next
  case (Arr xs)
  show ?case unfolding decodable_def
  proof (intro allI impI)
    fix w r s assume eq: "render L (JArr xs) @ r = render L w @ s"
    from render_same_kind[OF L eq] obtain ys where w: "w = JArr ys" by (cases w) (auto simp: same_kind_def)
    have open_end: "\<exists>d t. render L y = d # t \<and> d \<noteq> CHR '']''" for y
      using render_hd[OF L, of y] by blast
    have "xs = ys \<and> r = s"
      by (rule join_unique[where f = "render L" and c = "CHR '']''"])
        (use Arr eq w open_end in \<open>simp_all\<close>)
    then show "JArr xs = w \<and> r = s" using w by simp
  qed
next
  case (Obj kvs)
  let ?f = "\<lambda>(k, x). json_quote k @ '':'' @ render L x"
  show ?case unfolding decodable_def
  proof (intro allI impI)
    fix w r s assume eq: "render L (JObj kvs) @ r = render L w @ s"
    from render_same_kind[OF L eq] obtain ys where w: "w = JObj ys" by (cases w) (auto simp: same_kind_def)
    have items: "\<forall>e \<in> set kvs. decodable ?f e"
    proof
      fix e assume "e \<in> set kvs"
      then obtain k x where e: "e = (k, x)" and x: "decodable (render L) x"
        using Obj by (metis surj_pair)
      show "decodable ?f e" unfolding decodable_def e
      proof (intro allI impI)
        fix e' r s assume ends: "ends_value r" "ends_value s" and eq: "?f (k, x) @ r = ?f e' @ s"
        obtain k' x' where e': "e' = (k', x')" by (cases e')
        have "json_quote k @ ('':'' @ render L x @ r) = json_quote k' @ ('':'' @ render L x' @ s)"
          using eq e' by simp
        then have k: "k = k'" and "'':'' @ render L x @ r = '':'' @ render L x' @ s"
          using json_quote_unique by blast+
        then have "render L x @ r = render L x' @ s" by simp
        then have "x = x' \<and> r = s" using decodableD[OF x] ends by blast
        then show "(k, x) = e' \<and> r = s" using e' k by simp
      qed
    qed
    have "kvs = ys \<and> r = s"
      by (rule join_unique[where f = ?f and c = "CHR 0x7D", OF items])
        (use eq w in \<open>simp_all add: json_quote_def split_beta\<close>)
    then show "JObj kvs = w \<and> r = s" using w by simp
  qed
next
  case Null
  show ?case unfolding decodable_def
  proof (intro allI impI)
    fix w r s assume eq: "render L JNull @ r = render L w @ s"
    from render_same_kind[OF L eq] have "w = JNull" by (cases w) (auto simp: same_kind_def)
    then show "JNull = w \<and> r = s" using eq by simp
  qed
next
  case (Bool b)
  show ?case unfolding decodable_def
  proof (intro allI impI)
    fix w r s assume eq: "render L (JBool b) @ r = render L w @ s"
    from render_same_kind[OF L eq] have "w = JBool b" by (cases w) (auto simp: same_kind_def)
    then show "JBool b = w \<and> r = s" using eq by auto
  qed
qed

theorem stableStringify_inj:
  assumes "good_nums L" and "stableStringify L v = stableStringify L w"
  shows "canon (locale_le L) v = canon (locale_le L) w"
  using decodableD[OF render_decodable[OF assms(1)], of "canon (locale_le L) v" "[]" _ "[]"] assms(2)
  by (simp add: stableStringify_render)

end
