(* ===== verification/Agent_Model.thy ===== *)
theory Agent_Model
  imports Stable_Json
begin

text \<open>
  The data of the agent control plane (src/src/agent-control/agent-model.ts,
  agent-control-error.ts, ids.ts): sessions, plans, approvals, operations and audit
  events, the typed errors, and the JSON the hashes are computed over.
\<close>

section \<open>Sessions\<close>

datatype agent_client = Claude_Code | Codex | Opencode | Antigravity | Other_Client

datatype session_mode = Advisory | Protected

datatype session_status = Active | Paused | Revoked | Expired | Completed

datatype environment = Development | Staging | Production

record permissions =
  perm_allow :: "string list"
  perm_allow_within :: "string list"
  perm_require_approval :: "string list"
  perm_deny :: "string list"

record scope =
  scope_projects :: "string list"
  scope_targets :: "string list"
  scope_environments :: "environment list"

record limits =
  lim_expires_at :: instant
  lim_max_operations :: int
  lim_max_spend :: rat

record session =
  ses_id :: string
  ses_client :: agent_client
  ses_client_version :: "string option"
  ses_display_name :: string
  ses_objective :: string
  ses_mode :: session_mode
  ses_status :: session_status
  ses_repo_path :: string
  ses_repo_name :: string
  ses_scope :: scope
  ses_permissions :: permissions
  ses_limits :: limits
  ses_operation_count :: int
  ses_spend :: rat
  ses_created_at :: instant
  ses_updated_at :: instant

section \<open>Plans\<close>

datatype risk = Read_Only | Low | Medium | High | Destructive

datatype tri = Yes | No | Conditional

datatype plan_status =
    Plan_Proposed | Plan_Awaiting | Plan_Approved | Plan_Queued | Plan_Running
  | Plan_Succeeded | Plan_Failed | Plan_Cancelled | Plan_Rejected

record plan_step =
  step_id :: string
  step_capability :: string
  step_input :: "(string \<times> json) list"
  step_risk :: risk

record agent_plan =
  plan_id :: string
  plan_hash :: string
  plan_session :: string
  plan_objective :: string
  plan_status :: plan_status
  plan_environment :: environment
  plan_target :: "string option"
  plan_steps :: "plan_step list"
  plan_success_criteria :: "string list"
  plan_estimated_effects :: "string list"
  plan_excluded_effects :: "string list"
  plan_rb_available :: bool
  plan_rb_limitations :: "string list"
  plan_created_at :: instant
  plan_updated_at :: instant

section \<open>Approvals\<close>

datatype approval_status = Pending | Approved | Denied | Approval_Expired

record approval =
  apr_id :: string
  apr_session :: string
  apr_plan :: "string option"
  apr_capability :: "string option"
  apr_status :: approval_status
  apr_reason :: string
  apr_risk :: risk
  apr_target :: "string option"
  apr_environment :: "environment option"
  apr_effects :: "string list"
  apr_reversible :: tri
  apr_requested_at :: instant
  apr_decided_at :: "instant option"
  apr_expires_at :: instant
  apr_decision_reason :: "string option"

section \<open>Operations\<close>

datatype op_state =
    Op_Proposed | Op_Awaiting_Approval | Op_Approved | Op_Queued | Op_Running | Op_Verifying
  | Op_Succeeded | Op_Failed | Op_Cancelling | Op_Cancelled | Op_Rollback_Requested
  | Op_Rolling_Back | Op_Rolled_Back | Op_Rollback_Failed

datatype verdict = Passed | Degraded | Verdict_Failed | Not_Verified

record check =
  chk_capability :: string
  chk_step :: string
  chk_status :: string
  chk_failed :: "string list"

record verification =
  ver_status :: verdict
  ver_checks :: "check list"

record op_error =
  operr_code :: string
  operr_message :: string
  operr_recoverable :: bool

record step_result =
  res_step :: string
  res_capability :: string
  res_output :: json

record operation =
  op_id :: string
  op_session :: string
  op_plan :: string
  op_capability :: "string option"
  op_state :: op_state
  op_current_step :: "string option"
  op_result :: "step_result list option"
  op_verification :: "verification option"
  op_error :: "op_error option"
  op_rollback_available :: bool
  op_cancel_requested :: bool
  op_created_at :: instant
  op_updated_at :: instant

section \<open>Audit events\<close>

record audit_event =
  ev_id :: string
  ev_timestamp :: instant
  ev_session :: "string option"
  ev_actor :: string
  ev_operation :: "string option"
  ev_type :: string
  ev_capability :: "string option"
  ev_target :: "string option"
  ev_summary :: string
  ev_detail :: json
  ev_previous_hash :: "string option"
  ev_redactions_applied :: bool
  ev_hash :: string

section \<open>Texts of the enumerations\<close>

fun client_text :: "agent_client \<Rightarrow> string" where
  "client_text Claude_Code = ''claude-code''"
| "client_text Codex = ''codex''"
| "client_text Opencode = ''opencode''"
| "client_text Antigravity = ''antigravity''"
| "client_text Other_Client = ''other''"

fun mode_text :: "session_mode \<Rightarrow> string" where
  "mode_text Advisory = ''advisory''"
| "mode_text Protected = ''protected''"

fun session_status_text :: "session_status \<Rightarrow> string" where
  "session_status_text Active = ''active''"
| "session_status_text Paused = ''paused''"
| "session_status_text Revoked = ''revoked''"
| "session_status_text Expired = ''expired''"
| "session_status_text Completed = ''completed''"

fun environment_text :: "environment \<Rightarrow> string" where
  "environment_text Development = ''development''"
| "environment_text Staging = ''staging''"
| "environment_text Production = ''production''"

fun risk_text :: "risk \<Rightarrow> string" where
  "risk_text Read_Only = ''read_only''"
| "risk_text Low = ''low''"
| "risk_text Medium = ''medium''"
| "risk_text High = ''high''"
| "risk_text Destructive = ''destructive''"

fun plan_status_text :: "plan_status \<Rightarrow> string" where
  "plan_status_text Plan_Proposed = ''proposed''"
| "plan_status_text Plan_Awaiting = ''awaiting_approval''"
| "plan_status_text Plan_Approved = ''approved''"
| "plan_status_text Plan_Queued = ''queued''"
| "plan_status_text Plan_Running = ''running''"
| "plan_status_text Plan_Succeeded = ''succeeded''"
| "plan_status_text Plan_Failed = ''failed''"
| "plan_status_text Plan_Cancelled = ''cancelled''"
| "plan_status_text Plan_Rejected = ''rejected''"

fun approval_status_text :: "approval_status \<Rightarrow> string" where
  "approval_status_text Pending = ''pending''"
| "approval_status_text Approved = ''approved''"
| "approval_status_text Denied = ''denied''"
| "approval_status_text Approval_Expired = ''expired''"

fun op_state_text :: "op_state \<Rightarrow> string" where
  "op_state_text Op_Proposed = ''proposed''"
| "op_state_text Op_Awaiting_Approval = ''awaiting_approval''"
| "op_state_text Op_Approved = ''approved''"
| "op_state_text Op_Queued = ''queued''"
| "op_state_text Op_Running = ''running''"
| "op_state_text Op_Verifying = ''verifying''"
| "op_state_text Op_Succeeded = ''succeeded''"
| "op_state_text Op_Failed = ''failed''"
| "op_state_text Op_Cancelling = ''cancelling''"
| "op_state_text Op_Cancelled = ''cancelled''"
| "op_state_text Op_Rollback_Requested = ''rollback_requested''"
| "op_state_text Op_Rolling_Back = ''rolling_back''"
| "op_state_text Op_Rolled_Back = ''rolled_back''"
| "op_state_text Op_Rollback_Failed = ''rollback_failed''"

fun verdict_text :: "verdict \<Rightarrow> string" where
  "verdict_text Passed = ''passed''"
| "verdict_text Degraded = ''degraded''"
| "verdict_text Verdict_Failed = ''failed''"
| "verdict_text Not_Verified = ''not_verified''"

section \<open>Errors\<close>

datatype error_code =
    Auth_Required | Token_Invalid | Session_Expired | Session_Inactive | Scope_Denied
  | Approval_Required | Plan_Invalid | Plan_Stale | Not_Found | Unsupported | Operation_Failed

fun error_code_text :: "error_code \<Rightarrow> string" where
  "error_code_text Auth_Required = ''VOPS_AGENT_AUTH_REQUIRED''"
| "error_code_text Token_Invalid = ''VOPS_AGENT_TOKEN_INVALID''"
| "error_code_text Session_Expired = ''VOPS_AGENT_SESSION_EXPIRED''"
| "error_code_text Session_Inactive = ''VOPS_AGENT_SESSION_INACTIVE''"
| "error_code_text Scope_Denied = ''VOPS_AGENT_SCOPE_DENIED''"
| "error_code_text Approval_Required = ''VOPS_AGENT_APPROVAL_REQUIRED''"
| "error_code_text Plan_Invalid = ''VOPS_AGENT_PLAN_INVALID''"
| "error_code_text Plan_Stale = ''VOPS_AGENT_PLAN_STALE''"
| "error_code_text Not_Found = ''VOPS_AGENT_NOT_FOUND''"
| "error_code_text Unsupported = ''VOPS_AGENT_UNSUPPORTED''"
| "error_code_text Operation_Failed = ''VOPS_AGENT_OPERATION_FAILED''"

datatype error_status = Err_Denied | Err_Approval_Required | Err_Failed

record plan_problem =
  prob_step :: "string option"
  prob_path :: "string option"
  prob_message :: string

datatype error_detail =
    No_Detail
  | Problems "plan_problem list"
  | Latest_Approval "approval option"

record control_error =
  err_code :: error_code
  err_message :: string
  err_status :: error_status
  err_recoverable :: bool
  err_detail :: error_detail

text \<open>What a method can throw: an \<open>AgentControlError\<close>, or any other \<open>Error\<close> with its message.\<close>

datatype exn = Control control_error | Js_Error string

definition control :: "error_code \<Rightarrow> string \<Rightarrow> error_status \<Rightarrow> bool \<Rightarrow> error_detail \<Rightarrow> exn" where
  "control c m s r d = Control \<lparr>err_code = c, err_message = m, err_status = s, err_recoverable = r, err_detail = d\<rparr>"

text \<open>\<open>new AgentControlError(code, message)\<close> with the default status and flag.\<close>

definition control_failed :: "error_code \<Rightarrow> string \<Rightarrow> exn" where
  "control_failed c m = control c m Err_Failed False No_Detail"

section \<open>JSON of the records\<close>

definition opt_member :: "string \<Rightarrow> string option \<Rightarrow> (string \<times> json) list" where
  "opt_member k v = (case v of None \<Rightarrow> [] | Some x \<Rightarrow> [(k, JStr x)])"

definition strs :: "string list \<Rightarrow> json" where
  "strs xs = JArr (map JStr xs)"

definition step_json :: "plan_step \<Rightarrow> json" where
  "step_json st = JObj [(''id'', JStr (step_id st)), (''capability'', JStr (step_capability st)),
     (''input'', JObj (step_input st)), (''risk'', JStr (risk_text (step_risk st)))]"

text \<open>\<open>planBody(plan)\<close>: the plan without its id, hash, status and time stamps.\<close>

definition planBody :: "agent_plan \<Rightarrow> json" where
  "planBody p = JObj ([(''sessionId'', JStr (plan_session p)), (''objective'', JStr (plan_objective p)),
     (''environment'', JStr (environment_text (plan_environment p)))] @ opt_member ''target'' (plan_target p) @
     [(''steps'', JArr (map step_json (plan_steps p))), (''successCriteria'', strs (plan_success_criteria p)),
      (''estimatedEffects'', strs (plan_estimated_effects p)), (''excludedEffects'', strs (plan_excluded_effects p)),
      (''rollback'', JObj [(''available'', JBool (plan_rb_available p)),
                           (''limitations'', strs (plan_rb_limitations p))])])"

text \<open>The payload an audit event's hash covers: everything but the hash and the redaction flag.\<close>

definition event_payload :: "audit_event \<Rightarrow> json" where
  "event_payload e = JObj ([(''eventId'', JStr (ev_id e)), (''timestamp'', JStr (iso_string (ev_timestamp e)))] @
     opt_member ''sessionId'' (ev_session e) @ [(''actor'', JStr (ev_actor e))] @
     opt_member ''operationId'' (ev_operation e) @ [(''eventType'', JStr (ev_type e))] @
     opt_member ''capability'' (ev_capability e) @ opt_member ''target'' (ev_target e) @
     [(''summary'', JStr (ev_summary e)), (''detail'', ev_detail e)] @
     opt_member ''previousHash'' (ev_previous_hash e))"

section \<open>Redacted records\<close>

text \<open>
  \<open>safeJson(record)\<close> followed by \<open>JSON.parse\<close>: what a record is once written and read
  back. No field name of the records is sensitive, so redaction rewrites their texts and
  visits the open parts (step inputs, event details, step outputs).
\<close>

definition red_strs :: "string list \<Rightarrow> string list" where
  "red_strs = map redact_str"

definition red_entries :: "(string \<times> json) list \<Rightarrow> (string \<times> json) list" where
  "red_entries kvs = map (\<lambda>(k, x). (k, redact (Some k) x)) kvs"

definition redact_session :: "session \<Rightarrow> session" where
  "redact_session s = s\<lparr>
     ses_id := redact_str (ses_id s),
     ses_client_version := map_option redact_str (ses_client_version s),
     ses_display_name := redact_str (ses_display_name s),
     ses_objective := redact_str (ses_objective s),
     ses_repo_path := redact_str (ses_repo_path s),
     ses_repo_name := redact_str (ses_repo_name s),
     ses_scope := (ses_scope s)\<lparr>scope_projects := red_strs (scope_projects (ses_scope s)),
                                scope_targets := red_strs (scope_targets (ses_scope s))\<rparr>,
     ses_permissions := \<lparr>perm_allow = red_strs (perm_allow (ses_permissions s)),
                         perm_allow_within = red_strs (perm_allow_within (ses_permissions s)),
                         perm_require_approval = red_strs (perm_require_approval (ses_permissions s)),
                         perm_deny = red_strs (perm_deny (ses_permissions s))\<rparr>\<rparr>"

definition redact_step :: "plan_step \<Rightarrow> plan_step" where
  "redact_step st = st\<lparr>step_id := redact_str (step_id st), step_capability := redact_str (step_capability st),
     step_input := red_entries (step_input st)\<rparr>"

definition redact_plan :: "agent_plan \<Rightarrow> agent_plan" where
  "redact_plan p = p\<lparr>
     plan_id := redact_str (plan_id p),
     plan_hash := redact_str (plan_hash p),
     plan_session := redact_str (plan_session p),
     plan_objective := redact_str (plan_objective p),
     plan_target := map_option redact_str (plan_target p),
     plan_steps := map redact_step (plan_steps p),
     plan_success_criteria := red_strs (plan_success_criteria p),
     plan_estimated_effects := red_strs (plan_estimated_effects p),
     plan_excluded_effects := red_strs (plan_excluded_effects p),
     plan_rb_limitations := red_strs (plan_rb_limitations p)\<rparr>"

definition redact_approval :: "approval \<Rightarrow> approval" where
  "redact_approval a = a\<lparr>
     apr_id := redact_str (apr_id a),
     apr_session := redact_str (apr_session a),
     apr_plan := map_option redact_str (apr_plan a),
     apr_capability := map_option redact_str (apr_capability a),
     apr_reason := redact_str (apr_reason a),
     apr_target := map_option redact_str (apr_target a),
     apr_effects := red_strs (apr_effects a),
     apr_decision_reason := map_option redact_str (apr_decision_reason a)\<rparr>"

definition redact_check :: "check \<Rightarrow> check" where
  "redact_check c = \<lparr>chk_capability = redact_str (chk_capability c), chk_step = redact_str (chk_step c),
     chk_status = redact_str (chk_status c), chk_failed = red_strs (chk_failed c)\<rparr>"

definition redact_operation :: "operation \<Rightarrow> operation" where
  "redact_operation o1 = o1\<lparr>
     op_id := redact_str (op_id o1),
     op_session := redact_str (op_session o1),
     op_plan := redact_str (op_plan o1),
     op_capability := map_option redact_str (op_capability o1),
     op_current_step := map_option redact_str (op_current_step o1),
     op_result := map_option (map (\<lambda>r. \<lparr>res_step = redact_str (res_step r),
         res_capability = redact_str (res_capability r), res_output = redact None (res_output r)\<rparr>)) (op_result o1),
     op_verification := map_option (\<lambda>v. v\<lparr>ver_checks := map redact_check (ver_checks v)\<rparr>) (op_verification o1),
     op_error := map_option (\<lambda>e. e\<lparr>operr_message := redact_str (operr_message e)\<rparr>) (op_error o1)\<rparr>"

definition redact_event :: "audit_event \<Rightarrow> audit_event" where
  "redact_event e = e\<lparr>
     ev_id := redact_str (ev_id e),
     ev_session := map_option redact_str (ev_session e),
     ev_actor := redact_str (ev_actor e),
     ev_operation := map_option redact_str (ev_operation e),
     ev_type := redact_str (ev_type e),
     ev_capability := map_option redact_str (ev_capability e),
     ev_target := map_option redact_str (ev_target e),
     ev_summary := redact_str (ev_summary e),
     ev_detail := redact None (ev_detail e),
     ev_previous_hash := map_option redact_str (ev_previous_hash e),
     ev_hash := redact_str (ev_hash e)\<rparr>"

section \<open>Redaction commutes with the JSON of a record\<close>

lemma record_keys_visible [simp]:
  "\<not> isSensitiveKey ''sessionId''" "\<not> isSensitiveKey ''objective''" "\<not> isSensitiveKey ''environment''"
  "\<not> isSensitiveKey ''target''" "\<not> isSensitiveKey ''steps''" "\<not> isSensitiveKey ''successCriteria''"
  "\<not> isSensitiveKey ''estimatedEffects''" "\<not> isSensitiveKey ''excludedEffects''" "\<not> isSensitiveKey ''rollback''"
  "\<not> isSensitiveKey ''available''" "\<not> isSensitiveKey ''limitations''" "\<not> isSensitiveKey ''id''"
  "\<not> isSensitiveKey ''capability''" "\<not> isSensitiveKey ''input''" "\<not> isSensitiveKey ''risk''"
  "\<not> isSensitiveKey ''eventId''" "\<not> isSensitiveKey ''timestamp''" "\<not> isSensitiveKey ''actor''"
  "\<not> isSensitiveKey ''operationId''" "\<not> isSensitiveKey ''eventType''" "\<not> isSensitiveKey ''summary''"
  "\<not> isSensitiveKey ''detail''" "\<not> isSensitiveKey ''previousHash''"
  by code_simp+

lemma redact_texts [simp]:
  "redact_str (environment_text e) = environment_text e"
  "redact_str (risk_text r) = risk_text r"
  by (cases e; simp add: is_space_def) (cases r; simp add: is_space_def)

lemma redact_strs [simp]: "redact None (strs xs) = strs (red_strs xs)"
  by (simp add: strs_def red_strs_def)

lemma redact_opt_member:
  "\<not> isSensitiveKey k \<Longrightarrow>
   map (\<lambda>(k, x). (k, redact (Some k) x)) (opt_member k v) = opt_member k (map_option redact_str v)"
  by (cases v) (simp_all add: opt_member_def redact_visible)

lemma step_json_redact: "step_json (redact_step st) = redact None (step_json st)"
  by (simp add: step_json_def redact_step_def redact_visible red_entries_def)

theorem planBody_redact: "planBody (redact_plan p) = redact None (planBody p)"
  by (simp add: planBody_def redact_plan_def redact_visible redact_opt_member step_json_redact o_def)

text \<open>The same for an event; its time stamp is left as it is.\<close>

lemma clean_replicate [simp]: "clean (replicate n CHR ''0'')"
  by (induction n) (auto simp: is_space_def)

lemma clean_pad0 [simp]: "clean (pad0 w (show_nat n))"
  by simp

lemma clean_iso_string [simp]: "clean (iso_string t)"
  by (simp add: iso_string_def Let_def split_beta is_space_def del: pad0.simps)

theorem event_payload_redact: "event_payload (redact_event e) = redact None (event_payload e)"
  by (simp add: event_payload_def redact_event_def redact_visible redact_opt_member)

section \<open>Records that redaction leaves alone\<close>

lemma red_strs_clean [simp]: "list_all clean xs \<Longrightarrow> red_strs xs = xs"
  by (induction xs) (auto simp: red_strs_def)

definition clean_opt :: "string option \<Rightarrow> bool" where
  "clean_opt v = (case v of None \<Rightarrow> True | Some x \<Rightarrow> clean x)"

lemma map_option_clean [simp]: "clean_opt v \<Longrightarrow> map_option redact_str v = v"
  by (cases v) (auto simp: clean_opt_def)

end
