(* ===== verification/Agent_Store.thy ===== *)
theory Agent_Store
  imports Agent_Model
begin

text \<open>
  The agent store (src/src/agent-control/agent-store.ts): the tables of the local
  database, the append-only audit log with its hash chain, and the paging of the log.
  The state \<open>world\<close> is everything the control plane reads and writes: the tables, the
  in-memory emergency stop, the clock and the supply of random identifiers.
\<close>

section \<open>The state\<close>

text \<open>A row of a record table: its id, the second it was inserted in, and its record.\<close>

type_synonym 'r table = "(string \<times> instant \<times> 'r) list"

record emergency_stop =
  stop_active :: bool
  stop_activated_at :: "instant option"
  stop_activated_by :: "string option"
  stop_reason :: "string option"
  stop_cleared_at :: "instant option"
  stop_cleared_by :: "string option"

record event_row =
  row_sequence :: nat
  row_session :: "string option"
  row_hash :: string
  row_record :: audit_event

record world =
  w_now :: instant
  w_next :: nat
  w_sessions :: "(string \<times> string option \<times> session) list"
  w_plans :: "agent_plan table"
  w_approvals :: "approval table"
  w_operations :: "operation table"
  w_events :: "event_row list"
  w_setting :: "emergency_stop option"
  w_safety :: emergency_stop

type_synonym 'a act = "(world, exn, 'a) action"

definition now :: "instant act" where
  "now = gets w_now"

text \<open>\<open>localId(prefix)\<close>: the random part is drawn from a supply that never repeats.\<close>

definition local_id :: "string \<Rightarrow> nat \<Rightarrow> string" where
  "local_id prefix n = prefix @ ''_'' @ show_nat n"

definition localId :: "string \<Rightarrow> string act" where
  "localId prefix = andThen (gets w_next) (\<lambda>n.
     andThen (modify (\<lambda>w. w\<lparr>w_next := Suc n\<rparr>)) (\<lambda>_. ret (local_id prefix n)))"

section \<open>Rows\<close>

definition row_get :: "string \<Rightarrow> 'r table \<Rightarrow> 'r option" where
  "row_get k t = map_option snd (map_of t k)"

text \<open>
  \<open>INSERT ... ON CONFLICT(id) DO UPDATE\<close>: a row that exists keeps its place and its
  insertion time; a new one comes first, the listings being newest first.
\<close>

definition upsert :: "instant \<Rightarrow> string \<Rightarrow> 'r \<Rightarrow> 'r table \<Rightarrow> 'r table" where
  "upsert t k r rows =
     (if k \<in> fst ` set rows
      then map (\<lambda>(k', t', r'). if k' = k then (k', t', r) else (k', t', r')) rows
      else (k, t, r) # rows)"

text \<open>\<open>SELECT record ... ORDER BY created_at DESC\<close>; rows of one second stay newest first.\<close>

definition newest_first :: "'r table \<Rightarrow> 'r list" where
  "newest_first rows = map (snd \<circ> snd) (sort_key (\<lambda>(k, t, r). - t) rows)"

definition second_of :: "instant \<Rightarrow> instant" where
  "second_of t = t div 1000"

section \<open>Sessions, plans, approvals, operations\<close>

definition session_rows :: "session \<Rightarrow> string option \<Rightarrow> (string \<times> string option \<times> session) list \<Rightarrow>
    (string \<times> string option \<times> session) list" where
  "session_rows s tokenHash rows =
     (if ses_id s \<in> fst ` set rows
      then map (\<lambda>(k, h, r). if k = ses_id s
                then (k, (case tokenHash of None \<Rightarrow> h | Some _ \<Rightarrow> tokenHash), redact_session s)
                else (k, h, r)) rows
      else (ses_id s, tokenHash, redact_session s) # rows)"

definition saveSession :: "session \<Rightarrow> string option \<Rightarrow> unit act" where
  "saveSession s tokenHash = modify (\<lambda>w. w\<lparr>w_sessions := session_rows s tokenHash (w_sessions w)\<rparr>)"

definition getSession :: "string \<Rightarrow> session option act" where
  "getSession i = gets (\<lambda>w. map_option snd (map_of (w_sessions w) i))"

definition getSessionByTokenHash :: "string \<Rightarrow> session option act" where
  "getSessionByTokenHash h =
     gets (\<lambda>w. map_option (snd \<circ> snd) (find (\<lambda>(k, th, s). th = Some h) (w_sessions w)))"

definition listSessions :: "session list act" where
  "listSessions = gets (\<lambda>w. sort_key (\<lambda>s. - ses_created_at s) (map (snd \<circ> snd) (w_sessions w)))"

definition savePlan :: "agent_plan \<Rightarrow> unit act" where
  "savePlan p = modify (\<lambda>w. w\<lparr>w_plans := upsert (second_of (w_now w)) (plan_id p) (redact_plan p) (w_plans w)\<rparr>)"

definition getPlan :: "string \<Rightarrow> agent_plan option act" where
  "getPlan i = gets (\<lambda>w. row_get i (w_plans w))"

definition listPlans :: "string option \<Rightarrow> agent_plan list act" where
  "listPlans sid = gets (\<lambda>w. filter (\<lambda>p. case sid of None \<Rightarrow> True | Some s \<Rightarrow> s = [] \<or> plan_session p = s)
     (newest_first (w_plans w)))"

definition saveApproval :: "approval \<Rightarrow> unit act" where
  "saveApproval a = modify (\<lambda>w. w\<lparr>w_approvals :=
     upsert (second_of (w_now w)) (apr_id a) (redact_approval a) (w_approvals w)\<rparr>)"

definition getApproval :: "string \<Rightarrow> approval option act" where
  "getApproval i = gets (\<lambda>w. row_get i (w_approvals w))"

definition listApprovals :: "approval_status option \<Rightarrow> approval list act" where
  "listApprovals st = gets (\<lambda>w. filter (\<lambda>a. case st of None \<Rightarrow> True | Some s \<Rightarrow> apr_status a = s)
     (newest_first (w_approvals w)))"

definition saveOperation :: "operation \<Rightarrow> unit act" where
  "saveOperation o1 = modify (\<lambda>w. w\<lparr>w_operations :=
     upsert (second_of (w_now w)) (op_id o1) (redact_operation o1) (w_operations w)\<rparr>)"

definition getOperation :: "string \<Rightarrow> operation option act" where
  "getOperation i = gets (\<lambda>w. row_get i (w_operations w))"

definition listOperations :: "string option \<Rightarrow> operation list act" where
  "listOperations sid = gets (\<lambda>w. filter (\<lambda>q. case sid of None \<Rightarrow> True | Some s \<Rightarrow> s = [] \<or> op_session q = s)
     (newest_first (w_operations w)))"

section \<open>The audit log\<close>

record new_event =
  ne_id :: string
  ne_timestamp :: instant
  ne_session :: "string option"
  ne_actor :: string
  ne_operation :: "string option"
  ne_type :: string
  ne_capability :: "string option"
  ne_target :: "string option"
  ne_summary :: string
  ne_detail :: json

text \<open>\<open>stored\<close>: the event with its redacted detail, the hash of the newest row and its own hash.\<close>

definition chain_event :: "host_lib \<Rightarrow> string option \<Rightarrow> new_event \<Rightarrow> audit_event" where
  "chain_event L previous e =
     (let stored = \<lparr>ev_id = ne_id e, ev_timestamp = ne_timestamp e, ev_session = ne_session e,
            ev_actor = ne_actor e, ev_operation = ne_operation e, ev_type = ne_type e,
            ev_capability = ne_capability e, ev_target = ne_target e, ev_summary = ne_summary e,
            ev_detail = redact None (ne_detail e), ev_previous_hash = previous,
            ev_redactions_applied = redaction_applied None (ne_detail e), ev_hash = []\<rparr>
      in stored\<lparr>ev_hash := sha256 L (stableStringify L (event_payload stored))\<rparr>)"

definition newest_hash :: "event_row list \<Rightarrow> string option" where
  "newest_hash rows = (case rows of [] \<Rightarrow> None | r # _ \<Rightarrow> Some (row_hash r))"

definition appendEvent :: "host_lib \<Rightarrow> new_event \<Rightarrow> audit_event act" where
  "appendEvent L e = andThen (gets (\<lambda>w. newest_hash (w_events w))) (\<lambda>previous.
     let stored = chain_event L previous e in
     andThen (modify (\<lambda>w. w\<lparr>w_events :=
         \<lparr>row_sequence = Suc (length (w_events w)), row_session = ev_session stored,
          row_hash = ev_hash stored, row_record = redact_event stored\<rparr> # w_events w\<rparr>)) (\<lambda>_.
     ret stored))"

definition clamp :: "int \<Rightarrow> int \<Rightarrow> int \<Rightarrow> int" where
  "clamp lo hi x = max lo (min x hi)"

definition rows_of_session :: "string option \<Rightarrow> event_row list \<Rightarrow> event_row list" where
  "rows_of_session sid rows =
     (case sid of None \<Rightarrow> rows | Some s \<Rightarrow> if s = [] then rows else filter (\<lambda>r. row_session r = Some s) rows)"

definition listEvents :: "string option \<Rightarrow> int \<Rightarrow> audit_event list act" where
  "listEvents sid limit = gets (\<lambda>w. map row_record (take (nat (clamp 1 1000 limit)) (rows_of_session sid (w_events w))))"

record event_page =
  page_events :: "(nat \<times> audit_event) list"
  page_next_cursor :: "nat option"

definition page_of :: "string option \<Rightarrow> nat option \<Rightarrow> int option \<Rightarrow> event_row list \<Rightarrow> event_page" where
  "page_of sid before limit rows =
     (let bounded = nat (clamp 1 200 (case limit of None \<Rightarrow> 30 | Some l \<Rightarrow> l));
          selected = take (bounded + 1)
            (filter (\<lambda>r. case before of None \<Rightarrow> True | Some b \<Rightarrow> row_sequence r < b) (rows_of_session sid rows));
          pairs = map (\<lambda>r. (row_sequence r, row_record r)) selected;
          events = take bounded pairs
      in \<lparr>page_events = events,
          page_next_cursor = (if length pairs > bounded \<and> events \<noteq> [] then Some (fst (last events)) else None)\<rparr>)"

definition listEventPage :: "string option \<Rightarrow> nat option \<Rightarrow> int option \<Rightarrow> event_page act" where
  "listEventPage sid before limit = gets (\<lambda>w. page_of sid before limit (w_events w))"

record chain_check =
  chain_valid :: bool
  chain_events :: nat
  chain_broken_at :: "string option"

fun check_chain :: "host_lib \<Rightarrow> string option \<Rightarrow> audit_event list \<Rightarrow> string option" where
  "check_chain L previous [] = None"
| "check_chain L previous (e # es) =
     (if ev_previous_hash e \<noteq> previous \<or> ev_hash e \<noteq> sha256 L (stableStringify L (event_payload e))
      then Some (ev_id e)
      else check_chain L (Some (ev_hash e)) es)"

definition verifyEventChain :: "host_lib \<Rightarrow> chain_check act" where
  "verifyEventChain L = gets (\<lambda>w.
     let events = map row_record (rev (w_events w)); broken = check_chain L None events
     in \<lparr>chain_valid = (broken = None), chain_events = length events, chain_broken_at = broken\<rparr>)"

definition getSetting :: "emergency_stop option act" where
  "getSetting = gets w_setting"

definition setSetting :: "emergency_stop \<Rightarrow> unit act" where
  "setSetting v = modify (\<lambda>w. w\<lparr>w_setting := Some (v\<lparr>stop_activated_by := map_option redact_str (stop_activated_by v),
     stop_reason := map_option redact_str (stop_reason v),
     stop_cleared_by := map_option redact_str (stop_cleared_by v)\<rparr>)\<rparr>)"

text \<open>
  The private \<open>event\<close> method every service has: a fresh event id, the current time,
  and the row appended.
\<close>

definition logEvent :: "host_lib \<Rightarrow> (string \<Rightarrow> instant \<Rightarrow> new_event) \<Rightarrow> unit act" where
  "logEvent L mk = andThen (localId ''evt'') (\<lambda>i. andThen now (\<lambda>t.
     andThen (appendEvent L (mk i t)) (\<lambda>_. ret ())))"

section \<open>Identifiers\<close>

lemma local_id_inj [simp]: "local_id p m = local_id p n \<longleftrightarrow> m = n"
  by (simp add: local_id_def)

lemma clean_local_id [simp]: "clean (local_id p n) \<longleftrightarrow> clean p"
  by (simp add: local_id_def is_space_def)

lemma localId_run [action_simps]:
  "localId p w = (Inr (local_id p (w_next w)), w\<lparr>w_next := Suc (w_next w)\<rparr>)"
  by (simp add: localId_def action_simps)

lemma now_run [action_simps]: "now w = (Inr (w_now w), w)"
  by (simp add: now_def action_simps)

section \<open>Tables: reading what was written\<close>

lemma map_of_replace:
  "map_of (map (\<lambda>(k', t', r'). if k' = k then (k', t', r) else (k', t', r')) rows) k' =
     (if k' = k then map_option (\<lambda>(t, _). (t, r)) (map_of rows k) else map_of rows k')"
  by (induction rows) auto

lemma row_get_upsert: "row_get k' (upsert t k r rows) = (if k' = k then Some r else row_get k' rows)"
proof (cases "k \<in> fst ` set rows")
  case True
  then obtain t0 r0 where "map_of rows k = Some (t0, r0)" by (cases "map_of rows k") (auto simp: map_of_eq_None_iff)
  with True show ?thesis by (simp add: upsert_def row_get_def map_of_replace)
next
  case False
  then show ?thesis by (auto simp: upsert_def row_get_def)
qed

lemma fst_set_upsert [simp]: "fst ` set (upsert t k r rows) = insert k (fst ` set rows)"
  by (force simp: upsert_def)

text \<open>
  The contract the services rely on: a record that is saved is read back, redacted, under
  its id, and no other record changes. \<open>put\<close> and \<open>get\<close> are the two operations,
  \<open>ident\<close> the key and \<open>norm\<close> what the JSON text keeps of the record.
\<close>

locale record_store =
  fixes put :: "'r \<Rightarrow> 'w \<Rightarrow> 'w"
    and get :: "string \<Rightarrow> 'w \<Rightarrow> 'r option"
    and ident :: "'r \<Rightarrow> string"
    and norm :: "'r \<Rightarrow> 'r"
  assumes get_put: "get k (put r w) = (if k = ident r then Some (norm r) else get k w)"
begin

lemma read_back: "get (ident r) (put r w) = Some (norm r)"
  by (simp add: get_put)

lemma others_unchanged: "k \<noteq> ident r \<Longrightarrow> get k (put r w) = get k w"
  by (simp add: get_put)

lemma last_put_wins: "ident r = ident r' \<Longrightarrow> get k (put r' (put r w)) = get k (put r' w)"
  by (simp add: get_put)

lemma put_keeps_all:
  assumes "\<And>k r. get k w = Some r \<Longrightarrow> P r" and "P (norm r)" and "get k (put r w) = Some r'"
  shows "P r'"
  using assms by (auto simp: get_put split: if_splits)

lemma put_keeps_known: "get k w \<noteq> None \<Longrightarrow> get k (put r w) \<noteq> None"
  by (simp add: get_put)

end

definition put_session :: "session \<Rightarrow> world \<Rightarrow> world" where
  "put_session s w = w\<lparr>w_sessions := session_rows s None (w_sessions w)\<rparr>"

definition session_at :: "string \<Rightarrow> world \<Rightarrow> session option" where
  "session_at i w = map_option snd (map_of (w_sessions w) i)"

definition put_plan :: "agent_plan \<Rightarrow> world \<Rightarrow> world" where
  "put_plan p w = w\<lparr>w_plans := upsert (second_of (w_now w)) (plan_id p) (redact_plan p) (w_plans w)\<rparr>"

definition plan_at :: "string \<Rightarrow> world \<Rightarrow> agent_plan option" where
  "plan_at i w = row_get i (w_plans w)"

definition put_approval :: "approval \<Rightarrow> world \<Rightarrow> world" where
  "put_approval a w = w\<lparr>w_approvals := upsert (second_of (w_now w)) (apr_id a) (redact_approval a) (w_approvals w)\<rparr>"

definition approval_at :: "string \<Rightarrow> world \<Rightarrow> approval option" where
  "approval_at i w = row_get i (w_approvals w)"

definition put_operation :: "operation \<Rightarrow> world \<Rightarrow> world" where
  "put_operation q w = w\<lparr>w_operations := upsert (second_of (w_now w)) (op_id q) (redact_operation q) (w_operations w)\<rparr>"

definition operation_at :: "string \<Rightarrow> world \<Rightarrow> operation option" where
  "operation_at i w = row_get i (w_operations w)"

lemma map_of_replace_session:
  "map_of (map (\<lambda>(k', h, r). if k' = k then (k', f h, x) else (k', h, r)) rows) k' =
     (if k' = k then map_option (\<lambda>(h, _). (f h, x)) (map_of rows k) else map_of rows k')"
  by (induction rows) auto

lemma session_rows_get:
  "map_option snd (map_of (session_rows s th rows) k) =
     (if k = ses_id s then Some (redact_session s) else map_option snd (map_of rows k))"
proof (cases "ses_id s \<in> fst ` set rows")
  case True
  then obtain h0 r0 where "map_of rows (ses_id s) = Some (h0, r0)"
    by (cases "map_of rows (ses_id s)") (auto simp: map_of_eq_None_iff)
  with True show ?thesis by (simp add: session_rows_def map_of_replace_session)
next
  case False
  then show ?thesis by (auto simp: session_rows_def)
qed

interpretation sessions: record_store put_session session_at ses_id redact_session
  by unfold_locales (simp add: put_session_def session_at_def session_rows_get)

interpretation plans: record_store put_plan plan_at plan_id redact_plan
  by unfold_locales (simp add: put_plan_def plan_at_def row_get_upsert)

interpretation approvals: record_store put_approval approval_at apr_id redact_approval
  by unfold_locales (simp add: put_approval_def approval_at_def row_get_upsert)

interpretation operations: record_store put_operation operation_at op_id redact_operation
  by unfold_locales (simp add: put_operation_def operation_at_def row_get_upsert)

text \<open>The store's methods in terms of these.\<close>

lemma store_run [action_simps]:
  "saveSession s None w = (Inr (), put_session s w)"
  "getSession i w = (Inr (session_at i w), w)"
  "savePlan p w = (Inr (), put_plan p w)"
  "getPlan i w = (Inr (plan_at i w), w)"
  "saveApproval a w = (Inr (), put_approval a w)"
  "getApproval i w = (Inr (approval_at i w), w)"
  "saveOperation q w = (Inr (), put_operation q w)"
  "getOperation i w = (Inr (operation_at i w), w)"
  by (simp_all add: saveSession_def getSession_def savePlan_def getPlan_def saveApproval_def getApproval_def
      saveOperation_def getOperation_def put_session_def session_at_def put_plan_def plan_at_def
      put_approval_def approval_at_def put_operation_def operation_at_def action_simps)

text \<open>A save touches its own table only.\<close>

lemma put_frames [simp]:
  "plan_at i (put_session s w) = plan_at i w" "approval_at i (put_session s w) = approval_at i w"
  "operation_at i (put_session s w) = operation_at i w"
  "session_at i (put_plan p w) = session_at i w" "approval_at i (put_plan p w) = approval_at i w"
  "operation_at i (put_plan p w) = operation_at i w"
  "session_at i (put_approval a w) = session_at i w" "plan_at i (put_approval a w) = plan_at i w"
  "operation_at i (put_approval a w) = operation_at i w"
  "session_at i (put_operation q w) = session_at i w" "plan_at i (put_operation q w) = plan_at i w"
  "approval_at i (put_operation q w) = approval_at i w"
  by (simp_all add: put_session_def put_plan_def put_approval_def put_operation_def
      session_at_def plan_at_def approval_at_def operation_at_def)

lemma put_fields [simp]:
  "w_now (put_session s w) = w_now w" "w_now (put_plan p w) = w_now w"
  "w_now (put_approval a w) = w_now w" "w_now (put_operation q w) = w_now w"
  "w_next (put_session s w) = w_next w" "w_next (put_plan p w) = w_next w"
  "w_next (put_approval a w) = w_next w" "w_next (put_operation q w) = w_next w"
  "w_events (put_session s w) = w_events w" "w_events (put_plan p w) = w_events w"
  "w_events (put_approval a w) = w_events w" "w_events (put_operation q w) = w_events w"
  "w_safety (put_session s w) = w_safety w" "w_safety (put_plan p w) = w_safety w"
  "w_safety (put_approval a w) = w_safety w" "w_safety (put_operation q w) = w_safety w"
  by (simp_all add: put_session_def put_plan_def put_approval_def put_operation_def)

section \<open>Logging\<close>

definition log_row :: "host_lib \<Rightarrow> new_event \<Rightarrow> event_row list \<Rightarrow> event_row" where
  "log_row L e rows =
     (let stored = chain_event L (newest_hash rows) e
      in \<lparr>row_sequence = Suc (length rows), row_session = ev_session stored, row_hash = ev_hash stored,
          row_record = redact_event stored\<rparr>)"

definition logged :: "host_lib \<Rightarrow> (string \<Rightarrow> instant \<Rightarrow> new_event) \<Rightarrow> world \<Rightarrow> world" where
  "logged L mk w = w\<lparr>w_next := Suc (w_next w),
     w_events := log_row L (mk (local_id ''evt'' (w_next w)) (w_now w)) (w_events w) # w_events w\<rparr>"

lemma appendEvent_run [action_simps]:
  "appendEvent L e w = (Inr (chain_event L (newest_hash (w_events w)) e),
     w\<lparr>w_events := log_row L e (w_events w) # w_events w\<rparr>)"
  by (simp add: appendEvent_def log_row_def Let_def action_simps)

lemma logEvent_run [action_simps]: "logEvent L mk w = (Inr (), logged L mk w)"
  by (simp add: logEvent_def logged_def andThen_def action_simps)

lemma logged_frames [simp]:
  "session_at i (logged L mk w) = session_at i w" "plan_at i (logged L mk w) = plan_at i w"
  "approval_at i (logged L mk w) = approval_at i w" "operation_at i (logged L mk w) = operation_at i w"
  "w_now (logged L mk w) = w_now w" "w_safety (logged L mk w) = w_safety w"
  "w_sessions (logged L mk w) = w_sessions w" "w_approvals (logged L mk w) = w_approvals w"
  "w_plans (logged L mk w) = w_plans w" "w_operations (logged L mk w) = w_operations w"
  by (simp_all add: logged_def session_at_def plan_at_def approval_at_def operation_at_def)

end
