(* ===== verification/Policy_Engine.thy ===== *)
theory Policy_Engine
  imports Agent_Store
begin

text \<open>
  The capability registry and the policy engine (src/src/agent-control/capability-registry.ts,
  capabilities.json, policy-engine.ts): the capabilities an agent can ask for, and the one
  decision function every plan step passes twice, when the plan is made and when the step
  runs. The JSON-schema validator (Ajv, a package) is the parameter \<open>reg_ajv\<close>: the errors it
  reports for an input and the input with the schema's defaults filled in.
\<close>

section \<open>Capability registry\<close>

datatype access = Read | Local_Write | Remote_Write | Provider_Write

datatype approval_default = Session_Grant | Plan_Approval | Explicit_Approval

record capability =
  cap_id :: string
  cap_summary :: string
  cap_action :: string
  cap_access :: access
  cap_risk :: risk
  cap_reversible :: tri
  cap_supports_plan :: bool
  cap_enabled :: "bool option"
  cap_unavailable :: "string option"
  cap_effects :: "string list"
  cap_host_scoped :: bool
  cap_development :: approval_default
  cap_staging :: approval_default
  cap_production :: approval_default

definition cap :: "string \<Rightarrow> string \<Rightarrow> string \<Rightarrow> access \<Rightarrow> risk \<Rightarrow> tri \<Rightarrow> bool \<Rightarrow> bool option \<Rightarrow> string option \<Rightarrow>
    string list \<Rightarrow> bool \<Rightarrow> approval_default \<Rightarrow> approval_default \<Rightarrow> approval_default \<Rightarrow> capability" where
  "cap i s a ac r rv sp en un fx hs d st p = \<lparr>cap_id = i, cap_summary = s, cap_action = a, cap_access = ac,
     cap_risk = r, cap_reversible = rv, cap_supports_plan = sp,
     cap_enabled = en, cap_unavailable = un, cap_effects = fx,
     cap_host_scoped = hs, cap_development = d, cap_staging = st, cap_production = p\<rparr>"

definition capabilities_json :: "capability list" where
  "capabilities_json = [
  cap ''repository.inspect'' ''Inspect safe repository metadata without reading credentials or files outside the repository.'' ''Inspect the repository''
    Read Read_Only Yes False (None) (None)
    [] False Session_Grant Session_Grant Session_Grant,
  cap ''flui_spec.read'' ''Read a flui.yaml manifest inside the session repository.'' ''Read flui.yaml''
    Read Read_Only Yes False (None) (None)
    [] False Session_Grant Session_Grant Session_Grant,
  cap ''flui_spec.generate'' ''Generate a deterministic base flui.yaml from a bundled framework template.'' ''Write a flui.yaml''
    Local_Write Low Yes True (None) (None)
    [''write_repository_file''] False Session_Grant Session_Grant Plan_Approval,
  cap ''flui_spec.validate'' ''Validate a flui.yaml manifest against the installed flui specification.'' ''Validate flui.yaml''
    Read Read_Only Yes False (None) (None)
    [] False Session_Grant Session_Grant Session_Grant,
  cap ''catalog.list'' ''List packaged applications and reusable building blocks.'' ''Browse the app catalog''
    Read Read_Only Yes False (None) (None)
    [] False Session_Grant Session_Grant Session_Grant,
  cap ''catalog.describe'' ''Describe one packaged catalog application and its required inputs.'' ''Describe a catalog app''
    Read Read_Only Yes False (None) (None)
    [] False Session_Grant Session_Grant Session_Grant,
  cap ''catalog.install'' ''Install one bundled catalog application on a registered target.'' ''Install a catalog app''
    Remote_Write Medium Conditional True (None) (None)
    [''upload_files'', ''create_or_update_containers'', ''create_system_service'', ''alter_application_network_bindings''] False Plan_Approval Plan_Approval Explicit_Approval,
  cap ''provider.list'' ''List supported VPS providers and their static capability summary.'' ''List providers''
    Read Read_Only Yes False (None) (None)
    [] False Session_Grant Session_Grant Session_Grant,
  cap ''provider.prices.compare'' ''Compare live provider plans and prices as a planning aid.'' ''Compare provider prices''
    Read Read_Only Yes False (None) (None)
    [''provider_api_read''] False Session_Grant Session_Grant Session_Grant,
  cap ''target.list'' ''List locally registered vOps host targets.'' ''List your servers''
    Read Read_Only Yes False (None) (None)
    [] False Session_Grant Session_Grant Session_Grant,
  cap ''target.inspect'' ''Inspect one registered target and run bounded read-only health probes.'' ''Inspect a server''
    Read Read_Only Yes False (None) (None)
    [''ssh_read_only_probe''] False Session_Grant Session_Grant Session_Grant,
  cap ''server.list'' ''List servers from one configured provider.'' ''List provider servers''
    Read Read_Only Yes False (None) (None)
    [''provider_api_read''] False Session_Grant Session_Grant Session_Grant,
  cap ''server.inspect'' ''Inspect one server from a configured provider.'' ''Inspect a provider server''
    Read Read_Only Yes False (None) (None)
    [''provider_api_read''] False Session_Grant Session_Grant Session_Grant,
  cap ''server.harden'' ''Apply the bounded idempotent vOps host-hardening workflow to one target.'' ''Harden a server''
    Remote_Write High Conditional True (None) (None)
    [''modify_ssh_configuration'', ''install_ops_key'', ''enable_updates'', ''modify_host_firewall''] False Explicit_Approval Explicit_Approval Explicit_Approval,
  cap ''application.plan_deploy'' ''Render and persist an immutable deployment plan without changing the target.'' ''Plan a deployment''
    Local_Write Low Yes True (None) (None)
    [''write_local_plan''] False Session_Grant Session_Grant Plan_Approval,
  cap ''application.deploy'' ''Apply a previously rendered immutable deployment plan to one target.'' ''Deploy an application''
    Remote_Write Medium Conditional True (None) (None)
    [''upload_files'', ''create_or_update_containers'', ''create_system_service'', ''restart_application'', ''alter_application_network_bindings''] False Plan_Approval Plan_Approval Explicit_Approval,
  cap ''application.status'' ''Read live systemd and container status for one installed application.'' ''Read application status''
    Read Read_Only Yes False (None) (None)
    [''ssh_read_only_probe''] True Session_Grant Session_Grant Session_Grant,
  cap ''application.restart'' ''Restart one installed application and return its resulting state.'' ''Restart an application''
    Remote_Write Medium Yes True (None) (None)
    [''restart_application'', ''temporary_downtime''] True Plan_Approval Plan_Approval Explicit_Approval,
  cap ''logs.read_recent'' ''Read a bounded number of recent application log lines.'' ''Read recent logs''
    Read Read_Only Yes False (None) (None)
    [''ssh_read_only_probe''] True Session_Grant Session_Grant Session_Grant,
  cap ''healthcheck.run'' ''Run the configured post-deployment verification for an application.'' ''Run a healthcheck''
    Read Read_Only Yes False (None) (None)
    [''ssh_read_only_probe'', ''http_probe''] True Session_Grant Session_Grant Session_Grant,
  cap ''firewall.inspect'' ''Inspect effective vOps-managed or detected firewall state for one target.'' ''Inspect the firewall''
    Read Read_Only Yes False (None) (None)
    [''ssh_read_only_probe'', ''provider_api_read''] False Session_Grant Session_Grant Session_Grant,
  cap ''firewall.open_port'' ''Add one validated inbound service to the target firewall without removing existing services.'' ''Open a firewall port''
    Remote_Write High Yes True (None) (None)
    [''modify_firewall'', ''increase_network_exposure''] False Explicit_Approval Explicit_Approval Explicit_Approval,
  cap ''firewall.close_port'' ''Remove one validated inbound service while preserving all other target firewall services.'' ''Close a firewall port''
    Remote_Write High Yes True (None) (None)
    [''modify_firewall'', ''reduce_network_access''] False Explicit_Approval Explicit_Approval Explicit_Approval,
  cap ''server.provision'' ''Provision an hourly-billed server from a vOps plan file.'' ''Buy and provision a server''
    Provider_Write High Yes True (None) (None)
    [''provider_spend'', ''create_server'', ''register_host''] False Explicit_Approval Explicit_Approval Explicit_Approval,
  cap ''server.destroy'' ''Destroy one vOps-managed provider server.'' ''Destroy a server''
    Provider_Write Destructive No True (None) (None)
    [''terminate_server'', ''data_loss'', ''stop_billing''] False Explicit_Approval Explicit_Approval Explicit_Approval,
  cap ''application.rollback'' ''Restore a captured previous application revision when one is available.'' ''Roll back a deployment''
    Remote_Write High Conditional True (Some False) (Some ''vOps currently rolls back a failed deploy internally but does not expose a durable previous-revision restore operation.'')
    [''replace_application_revision'', ''temporary_downtime''] False Explicit_Approval Explicit_Approval Explicit_Approval]"

record registry =
  reg_definitions :: "capability list"
  reg_ajv :: "string \<Rightarrow> (string \<times> json) list \<Rightarrow> (string \<times> string) list \<times> (string \<times> json) list"

text \<open>The constructor: \<open>enabled\<close> defaults to true, and two entries with one id are refused.\<close>

definition load_registry ::
    "(string \<Rightarrow> (string \<times> json) list \<Rightarrow> (string \<times> string) list \<times> (string \<times> json) list) \<Rightarrow>
     capability list \<Rightarrow> exn + registry" where
  "load_registry ajv caps =
     (let definitions = map (\<lambda>c. c\<lparr>cap_enabled := Some (case cap_enabled c of None \<Rightarrow> True | Some b \<Rightarrow> b)\<rparr>) caps
      in if length (uniq (map cap_id definitions)) \<noteq> length definitions
         then Inl (Js_Error ''Capability registry contains duplicate ids.'')
         else Inr \<lparr>reg_definitions = definitions, reg_ajv = ajv\<rparr>)"

definition by_id :: "registry \<Rightarrow> string \<Rightarrow> capability option" where
  "by_id R i = find (\<lambda>c. cap_id c = i) (reg_definitions R)"

definition list_capabilities :: "registry \<Rightarrow> bool \<Rightarrow> capability list" where
  "list_capabilities R includeUnavailable =
     filter (\<lambda>c. includeUnavailable \<or> cap_enabled c = Some True) (reg_definitions R)"

definition describe :: "registry \<Rightarrow> string \<Rightarrow> exn + capability" where
  "describe R i = (case by_id R i of
       None \<Rightarrow> Inl (Js_Error (''Unknown capability '' @ quoted i @ ''.''))
     | Some c \<Rightarrow> Inr c)"

definition has_capability :: "registry \<Rightarrow> string \<Rightarrow> bool" where
  "has_capability R i = (case by_id R i of None \<Rightarrow> False | Some c \<Rightarrow> cap_enabled c = Some True)"

text \<open>
  \<open>validate(id, input)\<close>: the errors as (path, message) pairs, none exactly when the
  input is valid, and the input as the validator leaves it (defaults are written into it).
\<close>

definition validate_input :: "registry \<Rightarrow> string \<Rightarrow> (string \<times> json) list \<Rightarrow>
    (string \<times> string) list \<times> (string \<times> json) list" where
  "validate_input R i input = (case by_id R i of
       None \<Rightarrow> ([(''/'', ''Unknown capability '' @ quoted i @ ''.'')], input)
     | Some c \<Rightarrow>
         if cap_enabled c \<noteq> Some True
         then ([(''/'', case cap_unavailable c of Some m \<Rightarrow> m | None \<Rightarrow> i @ '' is unavailable.'')], input)
         else reg_ajv R i input)"

section \<open>Policy decisions\<close>

datatype effect = Allow | Approval_Needed | Deny

record policy_request =
  req_session :: session
  req_capability :: string
  req_input :: "(string \<times> json) list"
  req_environment :: environment
  req_approved_plan :: "agent_plan option"

record policy_decision =
  dec_effect :: effect
  dec_reason :: string
  dec_capability :: capability

definition decision :: "effect \<Rightarrow> string \<Rightarrow> capability \<Rightarrow> policy_decision" where
  "decision e r c = \<lparr>dec_effect = e, dec_reason = r, dec_capability = c\<rparr>"

definition matches :: "string list \<Rightarrow> string \<Rightarrow> bool" where
  "matches patterns c = list_ex (\<lambda>p. p = ''*'' \<or> p = c) patterns"

fun first_text :: "string list \<Rightarrow> (string \<times> json) list \<Rightarrow> string option" where
  "first_text [] input = None"
| "first_text (k # ks) input = (case member k input of
       Some (JStr v) \<Rightarrow> if v \<noteq> [] then Some v else first_text ks input
     | _ \<Rightarrow> first_text ks input)"

definition targetFrom :: "(string \<times> json) list \<Rightarrow> string option" where
  "targetFrom input = first_text [''target'', ''host'', ''id''] input"

definition scopeDenial :: "session \<Rightarrow> capability \<Rightarrow> policy_request \<Rightarrow> string option" where
  "scopeDenial s c req =
     (if req_environment req \<notin> set (scope_environments (ses_scope s))
      then Some (''Environment '' @ quoted (environment_text (req_environment req)) @ '' is outside the session scope.'')
      else if scope_targets (ses_scope s) = [] then None
      else case targetFrom (req_input req) of
        Some t \<Rightarrow> if t \<in> set (scope_targets (ses_scope s)) then None
                  else Some (''Target '' @ quoted t @ '' is outside the session scope.'')
      | None \<Rightarrow>
          if cap_host_scoped c
          then Some (cap_id c @ '' acts on one host: set 'host' to one of '' @
                     join '', '' (scope_targets (ses_scope s)) @ ''.'')
          else None)"

definition approval_default_for :: "capability \<Rightarrow> environment \<Rightarrow> approval_default" where
  "approval_default_for c e = (case e of Development \<Rightarrow> cap_development c | Staging \<Rightarrow> cap_staging c
     | Production \<Rightarrow> cap_production c)"

definition evaluate :: "registry \<Rightarrow> emergency_stop \<Rightarrow> policy_request \<Rightarrow> exn + policy_decision" where
  "evaluate R stop req =
     (case describe R (req_capability req) of Inl e \<Rightarrow> Inl e | Inr c \<Rightarrow> Inr (
        let s = req_session req; p = ses_permissions s in
        if stop_active stop \<and> cap_access c \<noteq> Read
        then decision Deny ''Agent mutations are disabled by the emergency stop.'' c
        else if cap_enabled c \<noteq> Some True
        then decision Deny (case cap_unavailable c of Some m \<Rightarrow> m | None \<Rightarrow> ''Capability unavailable.'') c
        else if ses_status s \<noteq> Active
        then decision Deny (''Session is '' @ session_status_text (ses_status s) @ ''.'') c
        else case scopeDenial s c req of
          Some m \<Rightarrow> decision Deny m c
        | None \<Rightarrow>
        if matches (perm_deny p) (cap_id c)
        then decision Deny (cap_id c @ '' is denied by the session policy.'') c
        else if cap_id c = ''server.provision'' \<and> lim_max_spend (ses_limits s) \<le> 0
        then decision Deny ''This session has a zero provider-spend limit.'' c
        else if cap_risk c = Read_Only \<and> matches (perm_allow p) (cap_id c)
        then decision Allow ''Read-only capability is included in the session grant.'' c
        else if matches (perm_allow p) (cap_id c)
        then decision Allow ''Capability is included in the session grant.'' c
        else if (case req_approved_plan req of None \<Rightarrow> False
                 | Some ap \<Rightarrow> plan_status ap = Plan_Approved \<and> plan_session ap = ses_id s) \<and>
                (matches (perm_allow_within p) (cap_id c) \<or> matches (perm_require_approval p) (cap_id c))
        then decision Allow ''Capability is included in the approved plan.'' c
        else if matches (perm_require_approval p) (cap_id c) \<or> matches (perm_allow_within p) (cap_id c) \<or>
                approval_default_for c (req_environment req) \<noteq> Session_Grant
        then decision Approval_Needed ''The capability requires an approved plan or explicit grant.'' c
        else decision Deny (cap_id c @ '' is not granted to this session.'') c))"

section \<open>When the policy allows\<close>

lemma describe_id: "describe R i = Inr c \<Longrightarrow> cap_id c = i"
  by (auto simp: describe_def by_id_def dest: find_SomeD split: option.splits)

lemma decision_capability [simp]: "dec_capability (decision e r c) = c"
  by (simp add: decision_def)

lemma evaluate_capability:
  assumes "evaluate R stop req = Inr d" and "describe R (req_capability req) = Inr c"
  shows "dec_capability d = c"
proof -
  have "dec_capability (projr (evaluate R stop req)) = c"
    using assms(2)
    by (simp add: evaluate_def Let_def if_distrib[of dec_capability] option.case_distrib[of dec_capability] option.case_eq_if)
  then show ?thesis using assms(1) by simp
qed

text \<open>The capability is open to the session at all: the guards every decision passes first.\<close>

definition reachable_for :: "emergency_stop \<Rightarrow> policy_request \<Rightarrow> capability \<Rightarrow> bool" where
  "reachable_for stop req c \<longleftrightarrow>
     (stop_active stop \<longrightarrow> cap_access c = Read) \<and> cap_enabled c = Some True \<and>
     ses_status (req_session req) = Active \<and> scopeDenial (req_session req) c req = None \<and>
     \<not> matches (perm_deny (ses_permissions (req_session req))) (cap_id c) \<and>
     (cap_id c = ''server.provision'' \<longrightarrow> 0 < lim_max_spend (ses_limits (req_session req)))"

definition plan_covers :: "policy_request \<Rightarrow> capability \<Rightarrow> bool" where
  "plan_covers req c \<longleftrightarrow>
     (\<exists>ap. req_approved_plan req = Some ap \<and> plan_status ap = Plan_Approved \<and>
           plan_session ap = ses_id (req_session req)) \<and>
     (matches (perm_allow_within (ses_permissions (req_session req))) (cap_id c) \<or>
      matches (perm_require_approval (ses_permissions (req_session req))) (cap_id c))"

lemma evaluate_unknown: "describe R (req_capability req) = Inl e \<Longrightarrow> evaluate R stop req = Inl e"
  by (simp add: evaluate_def)

lemma evaluate_allow_iff:
  assumes "describe R (req_capability req) = Inr c"
  shows "(\<exists>d. evaluate R stop req = Inr d \<and> dec_effect d = Allow) \<longleftrightarrow>
    reachable_for stop req c \<and> (matches (perm_allow (ses_permissions (req_session req))) (cap_id c) \<or> plan_covers req c)"
  using assms
  by (auto simp: evaluate_def Let_def decision_def reachable_for_def plan_covers_def split: option.splits)

lemma evaluate_approval_iff:
  assumes "describe R (req_capability req) = Inr c"
  shows "(\<exists>d. evaluate R stop req = Inr d \<and> dec_effect d = Approval_Needed) \<longleftrightarrow>
    reachable_for stop req c \<and> \<not> matches (perm_allow (ses_permissions (req_session req))) (cap_id c) \<and>
    \<not> plan_covers req c \<and>
    (matches (perm_require_approval (ses_permissions (req_session req))) (cap_id c) \<or>
     matches (perm_allow_within (ses_permissions (req_session req))) (cap_id c) \<or>
     approval_default_for c (req_environment req) \<noteq> Session_Grant)"
  using assms
  by (auto simp: evaluate_def Let_def decision_def reachable_for_def plan_covers_def split: option.splits)

end
