(* ===== verification/Session_Manager.thy ===== *)
theory Session_Manager
  imports Policy_Engine
begin

text \<open>
  Agent sessions (src/src/agent-control/agent-session-manager.ts): creation with its clamped
  limits, authentication by token hash, the status changes, the spend budget, and the two
  operations that widen and narrow what a session may do. The file system
  (\<open>resolveRepository\<close>) is a parameter; the random token comes from the supply of fresh
  numbers. Every method reads the clock once.
\<close>

section \<open>Defaults\<close>

definition DEFAULT_MINUTES :: int where
  "DEFAULT_MINUTES = 60"

definition MAX_MINUTES :: int where
  "MAX_MINUTES = 12 * 60"

definition DEFAULT_PERMISSIONS :: permissions where
  "DEFAULT_PERMISSIONS = \<lparr>
     perm_allow = [''repository.inspect'', ''flui_spec.read'', ''flui_spec.generate'', ''flui_spec.validate'',
       ''catalog.list'', ''catalog.describe'', ''provider.list'', ''provider.prices.compare'', ''target.list'',
       ''target.inspect'', ''server.list'', ''server.inspect'', ''application.plan_deploy'', ''application.status'',
       ''logs.read_recent'', ''healthcheck.run'', ''firewall.inspect''],
     perm_allow_within = [''catalog.install'', ''application.deploy'', ''application.restart'', ''server.harden'',
       ''firewall.open_port'', ''firewall.close_port''],
     perm_require_approval = [''server.provision''],
     perm_deny = [''server.destroy'', ''application.rollback'']\<rparr>"

record permissions_input =
  pi_allow :: "string list option"
  pi_allow_within :: "string list option"
  pi_require_approval :: "string list option"
  pi_deny :: "string list option"

definition mergePermissions :: "permissions_input option \<Rightarrow> permissions" where
  "mergePermissions i =
     \<lparr>perm_allow = uniq (or_default (Option.bind i pi_allow) (perm_allow DEFAULT_PERMISSIONS)),
      perm_allow_within = uniq (or_default (Option.bind i pi_allow_within) (perm_allow_within DEFAULT_PERMISSIONS)),
      perm_require_approval = uniq (or_default (Option.bind i pi_require_approval) (perm_require_approval DEFAULT_PERMISSIONS)),
      perm_deny = uniq (or_default (Option.bind i pi_deny) (perm_deny DEFAULT_PERMISSIONS))\<rparr>"

fun clientLabel :: "agent_client \<Rightarrow> string" where
  "clientLabel Claude_Code = ''Claude Code''"
| "clientLabel Codex = ''Codex''"
| "clientLabel Opencode = ''OpenCode''"
| "clientLabel Antigravity = ''Antigravity''"
| "clientLabel Other_Client = ''Coding agent''"

record session_input =
  si_client :: agent_client
  si_client_version :: "string option"
  si_display_name :: "string option"
  si_objective :: string
  si_repository :: string
  si_mode :: "session_mode option"
  si_targets :: "string list option"
  si_environments :: "environment list option"
  si_permissions :: "permissions_input option"
  si_expires_minutes :: "int option"
  si_max_operations :: "int option"
  si_max_spend :: "rat option"

definition basename :: "string \<Rightarrow> string" where
  "basename p = last (split_on CHR ''/'' p)"

definition hashToken :: "host_lib \<Rightarrow> string \<Rightarrow> string" where
  "hashToken L t = sha256 L t"

definition sessionTokenValue :: "string act" where
  "sessionTokenValue = localId ''vops_st''"

definition session_event :: "session \<Rightarrow> string \<Rightarrow> string \<Rightarrow> string \<Rightarrow> instant \<Rightarrow> new_event" where
  "session_event s eventType summary i t = \<lparr>ne_id = i, ne_timestamp = t, ne_session = Some (ses_id s),
     ne_actor = client_text (ses_client s), ne_operation = None, ne_type = eventType, ne_capability = None,
     ne_target = None, ne_summary = summary,
     ne_detail = JObj [(''objective'', JStr (ses_objective s)), (''mode'', JStr (mode_text (ses_mode s)))]\<rparr>"

section \<open>Creation\<close>

definition clamp_minutes :: "int option \<Rightarrow> int" where
  "clamp_minutes m = max 1 (min (or_default m DEFAULT_MINUTES) MAX_MINUTES)"

definition build_session :: "session_input \<Rightarrow> string \<Rightarrow> string \<Rightarrow> instant \<Rightarrow> session" where
  "build_session i repository sid t = \<lparr>
     ses_id = sid, ses_client = si_client i, ses_client_version = nonempty (si_client_version i),
     ses_display_name = or_default (si_display_name i) (clientLabel (si_client i)),
     ses_objective = trim (si_objective i), ses_mode = Advisory, ses_status = Active,
     ses_repo_path = repository, ses_repo_name = basename repository,
     ses_scope = \<lparr>scope_projects = [basename repository], scope_targets = uniq (or_default (si_targets i) []),
                  scope_environments = uniq (or_default (si_environments i) [Staging])\<rparr>,
     ses_permissions = mergePermissions (si_permissions i),
     ses_limits = \<lparr>lim_expires_at = t + clamp_minutes (si_expires_minutes i) * 60000,
                   lim_max_operations = max 1 (min (or_default (si_max_operations i) 50) 1000),
                   lim_max_spend = max 0 (or_default (si_max_spend i) 0)\<rparr>,
     ses_operation_count = 0, ses_spend = 0, ses_created_at = t, ses_updated_at = t\<rparr>"

definition create_session :: "host_lib \<Rightarrow> (string \<Rightarrow> exn + string) \<Rightarrow> session_input \<Rightarrow> (session \<times> string) act" where
  "create_session L resolveRepository i =
     (if si_mode i = Some Protected
      then throw (control Unsupported ''Protected mode is not implemented. Create an advisory session instead.''
                    Err_Failed True No_Detail)
      else case resolveRepository (si_repository i) of
        Inl e \<Rightarrow> throw e
      | Inr repository \<Rightarrow>
          andThen now (\<lambda>t.
          andThen sessionTokenValue (\<lambda>token.
          andThen (localId ''ses'') (\<lambda>sid.
          let s = build_session i repository sid t in
          andThen (saveSession s (Some (hashToken L token))) (\<lambda>_.
          andThen (logEvent L (session_event s ''session.created''
             (''Created advisory session for '' @ ses_display_name s @ ''.''))) (\<lambda>_.
          ret (s, token)))))))"

section \<open>Reading and changing the status\<close>

definition show_session :: "string \<Rightarrow> session act" where
  "show_session i = andThen (getSession i) (\<lambda>s. case s of
       None \<Rightarrow> throw (control_failed Not_Found (''Agent session '' @ quoted i @ '' was not found.''))
     | Some s \<Rightarrow> ret s)"

definition update_session :: "host_lib \<Rightarrow> session \<Rightarrow> string \<Rightarrow> string \<Rightarrow> session act" where
  "update_session L s eventType summary = andThen now (\<lambda>t.
     let updated = s\<lparr>ses_updated_at := t\<rparr> in
     andThen (saveSession updated None) (\<lambda>_.
     andThen (logEvent L (session_event updated eventType summary)) (\<lambda>_.
     ret updated)))"

definition set_session_status :: "host_lib \<Rightarrow> string \<Rightarrow> session_status \<Rightarrow> session act" where
  "set_session_status L i st = andThen (show_session i) (\<lambda>s.
     update_session L (s\<lparr>ses_status := st\<rparr>) (''session.'' @ session_status_text st)
       (''Session '' @ session_status_text st @ ''.''))"

definition expired_at :: "instant \<Rightarrow> session \<Rightarrow> bool" where
  "expired_at t s \<longleftrightarrow> lim_expires_at (ses_limits s) \<le> t"

definition authenticate :: "host_lib \<Rightarrow> string option \<Rightarrow> session act" where
  "authenticate L token = (case nonempty token of
       None \<Rightarrow> throw (control Auth_Required ''An active vOps agent session token is required.'' Err_Denied True No_Detail)
     | Some tok \<Rightarrow> andThen (getSessionByTokenHash (hashToken L tok)) (\<lambda>found. case found of
         None \<Rightarrow> throw (control Token_Invalid ''The agent session token is invalid.'' Err_Denied False No_Detail)
       | Some s \<Rightarrow> andThen now (\<lambda>t.
           if expired_at t s
           then andThen (if ses_status s \<noteq> Expired
                         then andThen (set_session_status L (ses_id s) Expired) (\<lambda>_. ret ()) else ret ()) (\<lambda>_.
                throw (control Session_Expired ''The agent session has expired.'' Err_Denied True No_Detail))
           else if ses_status s \<noteq> Active
           then throw (control Session_Inactive (''The agent session is '' @ session_status_text (ses_status s) @ ''.'')
                  Err_Denied (ses_status s = Paused) No_Detail)
           else if lim_max_operations (ses_limits s) \<le> ses_operation_count s
           then throw (control Scope_Denied (''The session reached its '' @
                  num_text L (of_int (lim_max_operations (ses_limits s))) @ ''-operation limit.'') Err_Denied True No_Detail)
           else ret s)))"

definition list_sessions :: "host_lib \<Rightarrow> session list act" where
  "list_sessions L = andThen listSessions (\<lambda>ss. andThen now (\<lambda>t.
     andThen (for_each (\<lambda>s. set_session_status L (ses_id s) Expired)
       (filter (\<lambda>s. ses_status s = Active \<and> expired_at t s) ss)) (\<lambda>_.
     listSessions)))"

definition pause_session :: "host_lib \<Rightarrow> string \<Rightarrow> session act" where
  "pause_session L i = set_session_status L i Paused"

definition resume_session :: "host_lib \<Rightarrow> string \<Rightarrow> session act" where
  "resume_session L i = andThen (show_session i) (\<lambda>s. andThen now (\<lambda>t.
     if expired_at t s
     then throw (control_failed Session_Expired ''An expired session cannot be resumed.'')
     else set_session_status L i Active))"

definition revoke_session :: "host_lib \<Rightarrow> string \<Rightarrow> session act" where
  "revoke_session L i = set_session_status L i Revoked"

definition stopAll :: "host_lib \<Rightarrow> session list act" where
  "stopAll L = andThen (list_sessions L) (\<lambda>ss.
     for_each (\<lambda>s. set_session_status L (ses_id s) Revoked)
       (filter (\<lambda>s. ses_status s = Active \<or> ses_status s = Paused) ss))"

section \<open>Limits and spend\<close>

definition incrementOperation :: "string \<Rightarrow> session act" where
  "incrementOperation i = andThen (show_session i) (\<lambda>s. andThen now (\<lambda>t.
     let updated = s\<lparr>ses_operation_count := ses_operation_count s + 1, ses_updated_at := t\<rparr> in
     andThen (saveSession updated None) (\<lambda>_. ret updated)))"

definition commitProviderSpend :: "host_lib \<Rightarrow> string \<Rightarrow> rat \<Rightarrow> session act" where
  "commitProviderSpend L i monthlyEur = andThen (show_session i) (\<lambda>s.
     let committed = ses_spend s; total = committed + max 0 monthlyEur; cap = lim_max_spend (ses_limits s) in
     if cap < total
     then throw (control Scope_Denied (''This commitment costs '' @ to_fixed2 monthlyEur @
            '' EUR/month. The session has already committed '' @ to_fixed2 committed @ '' of its '' @
            to_fixed2 cap @ '' EUR/month budget.'') Err_Denied True No_Detail)
     else update_session L (s\<lparr>ses_spend := total\<rparr>) ''session.spend_committed''
            (''Committed '' @ to_fixed2 monthlyEur @ '' EUR/month; '' @ to_fixed2 total @ '' of '' @
             to_fixed2 cap @ '' used.''))"

text \<open>The expiry argument is what \<open>Date.parse\<close> makes of the text: none when it is not a date.\<close>

definition extendForConditionalIntent :: "host_lib \<Rightarrow> string \<Rightarrow> instant option \<Rightarrow> session act" where
  "extendForConditionalIntent L i expires = andThen (show_session i) (\<lambda>s. andThen now (\<lambda>t.
     let denied = throw (control Scope_Denied
           ''Only a bounded conditional-intent session may receive an extended expiry.'' Err_Denied False No_Detail) in
     if \<not> starts_with (ses_display_name s) ''Conditional intent '' then denied
     else case expires of None \<Rightarrow> denied
       | Some e \<Rightarrow>
           if e \<le> t \<or> e - t > 30 * 24 * 60 * 60000 then denied
           else update_session L (s\<lparr>ses_limits := (ses_limits s)\<lparr>lim_expires_at := e\<rparr>\<rparr>)
                  ''session.intent_expiry_set'' ''Bound session expiry to its conditional intent.''))"

section \<open>Widening and narrowing\<close>

record scope_grant =
  grant_capability :: string
  grant_target :: "string option"
  grant_environment :: "environment option"

definition granted :: "scope_grant \<Rightarrow> session \<Rightarrow> session" where
  "granted g s = (let p = ses_permissions s; sc = ses_scope s in s\<lparr>
     ses_scope := sc\<lparr>
       scope_targets := (case nonempty (grant_target g) of Some t \<Rightarrow> uniq (scope_targets sc @ [t]) | None \<Rightarrow> scope_targets sc),
       scope_environments := (case grant_environment g of Some e \<Rightarrow> uniq (scope_environments sc @ [e])
                              | None \<Rightarrow> scope_environments sc)\<rparr>,
     ses_permissions := p\<lparr>
       perm_allow := uniq (perm_allow p @ [grant_capability g]),
       perm_deny := filter (\<lambda>x. x \<noteq> grant_capability g) (perm_deny p),
       perm_require_approval := filter (\<lambda>x. x \<noteq> grant_capability g) (perm_require_approval p)\<rparr>\<rparr>)"

definition grantScope :: "host_lib \<Rightarrow> string \<Rightarrow> scope_grant \<Rightarrow> session act" where
  "grantScope L i g = andThen (show_session i) (\<lambda>s.
     update_session L (granted g s) ''session.scope_granted''
       (''Granted '' @ grant_capability g @ '' to the session.''))"

text \<open>\<open>Some None\<close> for the expiry is a text that is not a date.\<close>

record scope_narrowing =
  narrow_capabilities :: "string list option"
  narrow_targets :: "string list option"
  narrow_expires_at :: "instant option option"
  narrow_max_spend :: "rat option"

definition narrowed :: "scope_narrowing \<Rightarrow> instant option \<Rightarrow> session \<Rightarrow> session" where
  "narrowed n expires s =
     (let removed = or_default (narrow_capabilities n) []; p = ses_permissions s;
          retain = filter (\<lambda>x. x \<notin> set removed) in s\<lparr>
     ses_scope := (ses_scope s)\<lparr>
       scope_targets := (case narrow_targets n of Some ts \<Rightarrow> uniq ts | None \<Rightarrow> scope_targets (ses_scope s))\<rparr>,
     ses_permissions := \<lparr>perm_allow = retain (perm_allow p), perm_allow_within = retain (perm_allow_within p),
       perm_require_approval = retain (perm_require_approval p), perm_deny = uniq (perm_deny p @ removed)\<rparr>,
     ses_limits := (ses_limits s)\<lparr>
       lim_expires_at := or_default expires (lim_expires_at (ses_limits s)),
       lim_max_spend := (case narrow_max_spend n of Some m \<Rightarrow> max 0 m | None \<Rightarrow> lim_max_spend (ses_limits s))\<rparr>\<rparr>)"

definition narrowSummary :: "host_lib \<Rightarrow> scope_narrowing \<Rightarrow> string" where
  "narrowSummary L n =
     (let parts =
        (case narrow_capabilities n of Some (c # cs) \<Rightarrow> [''revoked '' @ join '', '' (c # cs)] | _ \<Rightarrow> []) @
        (case narrow_targets n of Some ts \<Rightarrow> [''targets limited to '' @ (if join '', '' ts = [] then ''none'' else join '', '' ts)]
         | None \<Rightarrow> []) @
        (case narrow_expires_at n of Some _ \<Rightarrow> [''expiry shortened''] | None \<Rightarrow> []) @
        (case narrow_max_spend n of Some m \<Rightarrow> [''spend limit set to '' @ num_text L m] | None \<Rightarrow> [])
      in if parts \<noteq> [] then ''Narrowed the session: '' @ join ''; '' parts @ ''.'' else ''Narrowed the session.'')"

definition narrowScope :: "host_lib \<Rightarrow> string \<Rightarrow> scope_narrowing \<Rightarrow> session act" where
  "narrowScope L i n = andThen (show_session i) (\<lambda>s.
     case narrow_expires_at n of
       Some None \<Rightarrow> throw (Js_Error ''Invalid time value'')
     | Some (Some e) \<Rightarrow> update_session L (narrowed n (Some e) s) ''session.scope_narrowed'' (narrowSummary L n)
     | None \<Rightarrow> update_session L (narrowed n None s) ''session.scope_narrowed'' (narrowSummary L n))"

section \<open>What the operations do to the store\<close>

lemma or_default_simps [simp]: "or_default None d = d" "or_default (Some x) d = x"
  by (simp_all add: or_default_def)

lemma show_session_run [action_simps]:
  "session_at i w = Some s \<Longrightarrow> show_session i w = (Inr s, w)"
  "session_at i w = None \<Longrightarrow> show_session i w =
     (Inl (control_failed Not_Found (''Agent session '' @ quoted i @ '' was not found.'')), w)"
  by (simp_all add: show_session_def andThen_def action_simps)

lemma update_session_run [action_simps]:
  "update_session L s ty sm w = (let u = s\<lparr>ses_updated_at := w_now w\<rparr>
     in (Inr u, logged L (session_event u ty sm) (put_session u w)))"
  by (simp add: update_session_def Let_def andThen_def action_simps)

lemma set_session_status_run [action_simps]:
  "session_at i w = Some s \<Longrightarrow> set_session_status L i st w =
     (let u = s\<lparr>ses_status := st, ses_updated_at := w_now w\<rparr>
      in (Inr u, logged L (session_event u (''session.'' @ session_status_text st)
            (''Session '' @ session_status_text st @ ''.'')) (put_session u w)))"
  by (simp add: set_session_status_def andThen_def action_simps)

lemma redact_session_sel [simp]:
  "ses_status (redact_session s) = ses_status s" "ses_limits (redact_session s) = ses_limits s"
  "ses_spend (redact_session s) = ses_spend s" "ses_operation_count (redact_session s) = ses_operation_count s"
  "ses_id (redact_session s) = redact_str (ses_id s)" "ses_created_at (redact_session s) = ses_created_at s"
  "scope_environments (ses_scope (redact_session s)) = scope_environments (ses_scope s)"
  by (simp_all add: redact_session_def)

text \<open>
  The table the service keeps: one row for an id, and every record under its own id, which
  holds nothing that redaction would rewrite.
\<close>

definition sessions_wf :: "world \<Rightarrow> bool" where
  "sessions_wf w \<longleftrightarrow> distinct (map fst (w_sessions w)) \<and>
     (\<forall>(k, h, s) \<in> set (w_sessions w). ses_id s = k \<and> clean k)"

lemma sessions_wf_at: "sessions_wf w \<Longrightarrow> session_at i w = Some s \<Longrightarrow> ses_id s = i \<and> clean i"
  by (auto simp: sessions_wf_def session_at_def dest!: map_of_SomeD)

lemma session_at_row: "sessions_wf w \<Longrightarrow> (k, h, s) \<in> set (w_sessions w) \<Longrightarrow> session_at k w = Some s"
  by (auto simp: sessions_wf_def session_at_def)

lemma keys_session_rows:
  "map fst (session_rows s th rows) =
     (if ses_id s \<in> fst ` set rows then map fst rows else ses_id s # map fst rows)"
  by (auto simp: session_rows_def case_prod_beta)

lemma sessions_wf_rows:
  assumes "distinct (map fst rows)" and "\<forall>(k, h, s) \<in> set rows. ses_id s = k \<and> clean k" and "clean (ses_id s)"
  shows "distinct (map fst (session_rows s th rows)) \<and>
    (\<forall>(k, h, r) \<in> set (session_rows s th rows). ses_id r = k \<and> clean k)"
proof
  show "distinct (map fst (session_rows s th rows))"
    using assms(1) by (auto simp: keys_session_rows image_iff) 
  show "\<forall>(k, h, r) \<in> set (session_rows s th rows). ses_id r = k \<and> clean k"
    using assms(2,3) redact_str_clean[of "ses_id s"] by (auto simp: session_rows_def split: if_splits)
qed

lemma sessions_wf_put: "sessions_wf w \<Longrightarrow> clean (ses_id s) \<Longrightarrow> sessions_wf (put_session s w)"
  using sessions_wf_rows[of "w_sessions w" s None] by (simp add: sessions_wf_def put_session_def)

lemma sessions_wf_logged [simp]: "sessions_wf (logged L mk w) = sessions_wf w"
  by (simp add: sessions_wf_def)

lemma sessions_wf_status: "sessions_wf w \<Longrightarrow> session_at i w = Some s \<Longrightarrow>
    sessions_wf (snd (set_session_status L i st w))"
  using sessions_wf_at[of w i s] by (simp add: action_simps Let_def sessions_wf_put)

section \<open>Limits of a new session\<close>

lemma clamp_minutes_bounds: "1 \<le> clamp_minutes m" "clamp_minutes m \<le> 720"
  by (simp_all add: clamp_minutes_def MAX_MINUTES_def)

text \<open>
  a new session is advisory and active, ends between one minute and twelve hours from
  now, may run between 1 and 1000 operations, has a spend limit that is not negative with
  nothing spent, and holds each permission, target and environment once.
\<close>

theorem build_session_bounded:
  "ses_mode (build_session i r sid t) = Advisory \<and> ses_status (build_session i r sid t) = Active \<and>
   t + 60000 \<le> lim_expires_at (ses_limits (build_session i r sid t)) \<and>
   lim_expires_at (ses_limits (build_session i r sid t)) \<le> t + 720 * 60000 \<and>
   lim_max_operations (ses_limits (build_session i r sid t)) \<in> {1..1000} \<and>
   0 \<le> lim_max_spend (ses_limits (build_session i r sid t)) \<and> ses_spend (build_session i r sid t) = 0 \<and>
   distinct (perm_allow (ses_permissions (build_session i r sid t))) \<and>
   distinct (perm_deny (ses_permissions (build_session i r sid t))) \<and>
   distinct (scope_targets (ses_scope (build_session i r sid t))) \<and>
   distinct (scope_environments (ses_scope (build_session i r sid t)))"
  using clamp_minutes_bounds[of "si_expires_minutes i"]
  by (simp add: build_session_def mergePermissions_def)

section \<open>Authentication\<close>

definition session_of_token :: "host_lib \<Rightarrow> string \<Rightarrow> world \<Rightarrow> session option" where
  "session_of_token L tok w = map_option (snd \<circ> snd) (find (\<lambda>(k, th, s). th = Some (hashToken L tok)) (w_sessions w))"

lemma getSessionByTokenHash_run [action_simps]:
  "getSessionByTokenHash (hashToken L tok) w = (Inr (session_of_token L tok w), w)"
  by (simp add: getSessionByTokenHash_def session_of_token_def action_simps)

lemma session_of_token_row:
  assumes "session_of_token L tok w = Some s"
  obtains k where "(k, Some (hashToken L tok), s) \<in> set (w_sessions w)"
  using assms by (auto simp: session_of_token_def dest!: find_SomeD)

lemma session_of_token_at:
  assumes "sessions_wf w" and "session_of_token L tok w = Some s"
  shows "session_at (ses_id s) w = Some s"
proof -
  obtain k where row: "(k, Some (hashToken L tok), s) \<in> set (w_sessions w)"
    using assms(2) by (rule session_of_token_row)
  then have "ses_id s = k" using assms(1) by (auto simp: sessions_wf_def)
  then show ?thesis using session_at_row[OF assms(1) row] by simp
qed

lemma authenticate_known:
  assumes "session_of_token L tok w = Some s" and "tok \<noteq> []" and "\<not> expired_at (w_now w) s"
    and "ses_status s = Active" and "ses_operation_count s < lim_max_operations (ses_limits s)"
  shows "authenticate L (Some tok) w = (Inr s, w)"
  using assms by (simp add: authenticate_def nonempty_def andThen_def action_simps)

text \<open>
  C27: a token that authenticates belongs to a stored session that is active, is not past its
  expiry and is below its operation limit, and the call changes nothing.
\<close>

theorem authenticate_sound:
  assumes "authenticate L token w = (Inr s, w')"
  shows "w' = w \<and> (\<exists>tok. token = Some tok \<and> tok \<noteq> [] \<and> session_of_token L tok w = Some s) \<and>
    ses_status s = Active \<and> w_now w < lim_expires_at (ses_limits s) \<and>
    ses_operation_count s < lim_max_operations (ses_limits s)"
  using assms
  by (auto simp: authenticate_def nonempty_def expired_at_def action_simps
      elim!: andThen_InrE split: option.splits if_splits)

text \<open>
  a token whose session is past its expiry is refused with SESSION_EXPIRED, whatever
  its status was, and the stored session is expired from then on.
\<close>

theorem authenticate_expires:
  assumes "sessions_wf w" and "session_of_token L tok w = Some s" and "tok \<noteq> []" and "expired_at (w_now w) s"
  shows "\<exists>w'. authenticate L (Some tok) w =
      (Inl (control Session_Expired ''The agent session has expired.'' Err_Denied True No_Detail), w') \<and>
    map_option ses_status (session_at (ses_id s) w') = Some Expired"
proof -
  have at: "session_at (ses_id s) w = Some s" using assms(1,2) by (rule session_of_token_at)
  show ?thesis
    using assms at
    by (simp add: authenticate_def nonempty_def andThen_def action_simps Let_def sessions.get_put)
qed

lemma find_token_append:
  "find (\<lambda>(k, th, s). th = Some h) ((k0, Some h, s0) # rows) = Some (k0, Some h, s0)"
  by simp

text \<open>
  The token a new session is created with authenticates it at once: what comes back
  is the session as it was stored.
\<close>

theorem create_authenticate:
  assumes "create_session L resolve i w = (Inr (s, tok), w')"
    and "ses_id s \<notin> fst ` set (w_sessions w)"
  shows "authenticate L (Some tok) w' = (Inr (redact_session s), w')"
proof -
  obtain r where r: "resolve (si_repository i) = Inr r"
    using assms(1) by (auto simp: create_session_def action_simps split: if_splits sum.splits)
  have s: "s = build_session i r (local_id ''ses'' (Suc (w_next w))) (w_now w)"
    and tok: "tok = local_id ''vops_st'' (w_next w)"
    and rows: "w_sessions w' = (ses_id s, Some (hashToken L tok), redact_session s) # w_sessions w"
    and now: "w_now w' = w_now w"
    using assms r
    by (auto simp: create_session_def sessionTokenValue_def saveSession_def session_rows_def andThen_def
        action_simps Let_def split: if_splits)
  have "session_of_token L tok w' = Some (redact_session s)"
    by (simp add: session_of_token_def rows)
  moreover have "tok \<noteq> []" by (simp add: tok local_id_def)
  ultimately show ?thesis
    using clamp_minutes_bounds[of "si_expires_minutes i"]
    by (intro authenticate_known) (auto simp: s now expired_at_def build_session_def)
qed

section \<open>Status changes over many sessions\<close>

definition status_at :: "string \<Rightarrow> world \<Rightarrow> session_status option" where
  "status_at i w = map_option ses_status (session_at i w)"

lemma set_status_ok:
  assumes "sessions_wf w" and "session_at i w = Some s"
  shows "\<exists>u w'. set_session_status L i st w = (Inr u, w') \<and> sessions_wf w' \<and> w_now w' = w_now w \<and>
    (\<forall>k. status_at k w' = (if k = i then Some st else status_at k w)) \<and>
    (\<forall>k. k \<noteq> i \<longrightarrow> session_at k w' = session_at k w) \<and>
    (\<exists>s'. session_at i w' = Some s' \<and> ses_limits s' = ses_limits s)"
  using assms sessions_wf_at[OF assms] sessions_wf_status[OF assms, of L st]
  by (simp add: action_simps Let_def status_at_def sessions.get_put)

lemma set_status_all:
  assumes "sessions_wf w" and "\<forall>i \<in> set ks. session_at i w \<noteq> None"
  shows "\<exists>us w'. for_each (\<lambda>i. set_session_status L i st) ks w = (Inr us, w') \<and> sessions_wf w' \<and>
    w_now w' = w_now w \<and> (\<forall>k. status_at k w' = (if k \<in> set ks then Some st else status_at k w)) \<and>
    (\<forall>k. map_option ses_limits (session_at k w') = map_option ses_limits (session_at k w))"
  using assms
proof (induction ks arbitrary: w)
  case Nil
  then show ?case by (simp add: action_simps)
next
  case (Cons i ks)
  then obtain s where s: "session_at i w = Some s" by auto
  obtain u w1 where w1: "set_session_status L i st w = (Inr u, w1)" "sessions_wf w1" "w_now w1 = w_now w"
    "\<forall>k. status_at k w1 = (if k = i then Some st else status_at k w)"
    and oth: "\<forall>k. k \<noteq> i \<longrightarrow> session_at k w1 = session_at k w"
    and same: "\<exists>s'. session_at i w1 = Some s' \<and> ses_limits s' = ses_limits s"
    using set_status_ok[OF Cons.prems(1) s, of L st] by blast
  have lims: "map_option ses_limits (session_at k w1) = map_option ses_limits (session_at k w)" for k
    using oth same s by (cases "k = i") auto
  have "\<forall>j \<in> set ks. session_at j w1 \<noteq> None" using Cons.prems(2) oth same by auto
  then obtain us w2 where "for_each (\<lambda>i. set_session_status L i st) ks w1 = (Inr us, w2)" "sessions_wf w2"
    "w_now w2 = w_now w1" "\<forall>k. status_at k w2 = (if k \<in> set ks then Some st else status_at k w1)"
    "\<forall>k. map_option ses_limits (session_at k w2) = map_option ses_limits (session_at k w1)"
    using Cons.IH[OF w1(2)] by blast
  then show ?case using w1 lims by (simp add: andThen_def ret_def)
qed

lemma for_each_map: "for_each f (map g xs) = for_each (\<lambda>x. f (g x)) xs"
  by (induction xs) simp_all

lemma listed_iff:
  assumes "sessions_wf w"
  shows "s \<in> set (sort_key (\<lambda>s. - ses_created_at s) (map (snd \<circ> snd) (w_sessions w))) \<longleftrightarrow>
    session_at (ses_id s) w = Some s"
proof
  assume "s \<in> set (sort_key (\<lambda>s. - ses_created_at s) (map (snd \<circ> snd) (w_sessions w)))"
  then obtain k h where row: "(k, h, s) \<in> set (w_sessions w)" by auto
  then have "ses_id s = k" using assms by (auto simp: sessions_wf_def)
  then show "session_at (ses_id s) w = Some s" using session_at_row[OF assms row] by simp
next
  assume "session_at (ses_id s) w = Some s"
  then show "s \<in> set (sort_key (\<lambda>s. - ses_created_at s) (map (snd \<circ> snd) (w_sessions w)))"
    by (force simp: session_at_def dest: map_of_SomeD)
qed

lemma listed_ids:
  assumes wf: "sessions_wf w" and ss: "\<And>s. s \<in> set ss \<longleftrightarrow> session_at (ses_id s) w = Some s"
  shows "k \<in> set (map ses_id (filter P ss)) \<longleftrightarrow> (\<exists>s. session_at k w = Some s \<and> P s)"
proof
  assume "k \<in> set (map ses_id (filter P ss))"
  then obtain s where "s \<in> set ss" "P s" "ses_id s = k" by auto
  then show "\<exists>s. session_at k w = Some s \<and> P s" using ss by blast
next
  assume "\<exists>s. session_at k w = Some s \<and> P s"
  then obtain s where s: "session_at k w = Some s" "P s" by blast
  then have "ses_id s = k" using sessions_wf_at[OF wf] by blast
  then have "s \<in> set ss" "ses_id s = k" using s ss by auto
  then show "k \<in> set (map ses_id (filter P ss))" using s(2) by auto
qed

lemma list_sessions_ok:
  assumes "sessions_wf w"
  shows "\<exists>ss w'. list_sessions L w = (Inr ss, w') \<and> sessions_wf w' \<and> w_now w' = w_now w \<and>
    (\<forall>s. s \<in> set ss \<longleftrightarrow> session_at (ses_id s) w' = Some s) \<and>
    (\<forall>k. map_option ses_limits (session_at k w') = map_option ses_limits (session_at k w)) \<and>
    (\<forall>k. status_at k w' = (case session_at k w of None \<Rightarrow> None | Some s \<Rightarrow>
        Some (if ses_status s = Active \<and> expired_at (w_now w) s then Expired else ses_status s)))"
proof -
  let ?all = "sort_key (\<lambda>s. - ses_created_at s) (map (snd \<circ> snd) (w_sessions w))"
  let ?due = "map ses_id (filter (\<lambda>s. ses_status s = Active \<and> expired_at (w_now w) s) ?all)"
  have due: "k \<in> set ?due \<longleftrightarrow> (\<exists>s. session_at k w = Some s \<and> ses_status s = Active \<and> expired_at (w_now w) s)" for k
    by (rule listed_ids[OF assms listed_iff[OF assms]])
  then have "\<forall>i \<in> set ?due. session_at i w \<noteq> None" by auto
  from set_status_all[OF assms this, of L Expired]
  obtain us w' where run: "for_each (\<lambda>i. set_session_status L i Expired) ?due w = (Inr us, w')" "sessions_wf w'"
    "w_now w' = w_now w" "\<forall>k. status_at k w' = (if k \<in> set ?due then Some Expired else status_at k w)"
    "\<forall>k. map_option ses_limits (session_at k w') = map_option ses_limits (session_at k w)" by blast
  have "list_sessions L w = (Inr (sort_key (\<lambda>s. - ses_created_at s) (map (snd \<circ> snd) (w_sessions w'))), w')"
    using run(1) unfolding for_each_map
    by (simp add: list_sessions_def listSessions_def andThen_def run_action now_run)
  moreover have "status_at k w' = (case session_at k w of None \<Rightarrow> None | Some s \<Rightarrow>
        Some (if ses_status s = Active \<and> expired_at (w_now w) s then Expired else ses_status s))" for k
    using run(4) due[of k] by (auto simp: status_at_def split: option.splits)
  ultimately show ?thesis using run(2,3,5) listed_iff[OF run(2)] by auto
qed

text \<open>
  stopping every session leaves no session active or paused, loses none, and revokes
  all of them but those that were over already: expired, revoked or completed sessions.
\<close>

theorem stopAll_stops:
  assumes "sessions_wf w"
  shows "\<exists>us w'. stopAll L w = (Inr us, w') \<and>
    (\<forall>k. status_at k w' \<notin> {Some Active, Some Paused}) \<and>
    (\<forall>k s. session_at k w = Some s \<and> \<not> expired_at (w_now w) s \<and> ses_status s \<in> {Active, Paused} \<longrightarrow>
        status_at k w' = Some Revoked)"
proof -
  obtain ss w1 where ls: "list_sessions L w = (Inr ss, w1)" "sessions_wf w1"
    and in_ss: "\<forall>s. s \<in> set ss \<longleftrightarrow> session_at (ses_id s) w1 = Some s"
    and st1: "\<forall>k. status_at k w1 = (case session_at k w of None \<Rightarrow> None | Some s \<Rightarrow>
        Some (if ses_status s = Active \<and> expired_at (w_now w) s then Expired else ses_status s))"
    using list_sessions_ok[OF assms, of L] by blast
  let ?live = "map ses_id (filter (\<lambda>s. ses_status s = Active \<or> ses_status s = Paused) ss)"
  have live: "k \<in> set ?live \<longleftrightarrow> status_at k w1 \<in> {Some Active, Some Paused}" for k
    unfolding listed_ids[OF ls(2) in_ss[rule_format]] by (auto simp: status_at_def)
  have "session_at i w1 \<noteq> None" if "i \<in> set ?live" for i
    using that[unfolded live] by (auto simp: status_at_def)
  then have "\<forall>i \<in> set ?live. session_at i w1 \<noteq> None" by blast
  from set_status_all[OF ls(2) this, of L Revoked]
  obtain us w' where run: "for_each (\<lambda>i. set_session_status L i Revoked) ?live w1 = (Inr us, w')"
    and st: "\<forall>k. status_at k w' = (if k \<in> set ?live then Some Revoked else status_at k w1)" by blast
  have "stopAll L w = (Inr us, w')"
    using ls(1) run unfolding for_each_map by (simp add: stopAll_def andThen_def)
  then show ?thesis using st st1 live by (auto split: if_splits)
qed

text \<open>
  Resuming does not look at the status it leaves: a session that was revoked, alone or
  by the emergency stop, is active again after \<open>resume\<close> as long as it has not expired.
\<close>

theorem resume_revives_revoked:
  assumes "sessions_wf w" and "session_at i w = Some s" and "ses_status s = Revoked" and "\<not> expired_at (w_now w) s"
  shows "\<exists>u w'. resume_session L i w = (Inr u, w') \<and> status_at i w' = Some Active"
  using assms set_status_ok[OF assms(1,2), of L Active]
  by (auto simp: resume_session_def andThen_def action_simps)

section \<open>The spend budget\<close>

text \<open>One commitment that may be refused; a refusal leaves the session as it was.\<close>

definition try_commit :: "host_lib \<Rightarrow> string \<Rightarrow> rat \<Rightarrow> rat act" where
  "try_commit L i m = catching (andThen (commitProviderSpend L i m) (\<lambda>_. ret (max 0 m))) (\<lambda>_. ret 0)"

lemma commit_run:
  assumes "session_at i w = Some s"
  shows "try_commit L i m w =
    (if lim_max_spend (ses_limits s) < ses_spend s + max 0 m then (Inr 0, w)
     else (Inr (max 0 m), snd (commitProviderSpend L i m w)))"
  using assms
  by (simp add: try_commit_def commitProviderSpend_def catching_def andThen_def action_simps Let_def)

lemma commit_effect:
  assumes "sessions_wf w" and "session_at i w = Some s" and "ses_spend s + max 0 m \<le> lim_max_spend (ses_limits s)"
  shows "\<exists>s'. session_at i (snd (commitProviderSpend L i m w)) = Some s' \<and> ses_spend s' = ses_spend s + max 0 m \<and>
     ses_limits s' = ses_limits s \<and> sessions_wf (snd (commitProviderSpend L i m w))"
  using assms sessions_wf_at[OF assms(1,2)]
  by (simp add: commitProviderSpend_def andThen_def action_simps Let_def sessions.get_put sessions_wf_put)


section \<open>Narrowing and granting against the policy\<close>

lemma matches_filter: "matches (filter P ps) c \<Longrightarrow> matches ps c"
  by (auto simp: matches_def list_ex_iff)

lemma narrowed_denies: "narrow_capabilities n = Some cs \<Longrightarrow> c \<in> set cs \<Longrightarrow>
    matches (perm_deny (ses_permissions (narrowed n e s))) c"
  by (auto simp: narrowed_def Let_def matches_def list_ex_iff)

text \<open>
  a capability taken from a session by narrowing is refused by the policy for it from
  then on, with and without an approved plan, whatever it asks: no approval of a plan brings
  it back.
\<close>

theorem narrowed_refused:
  assumes "narrow_capabilities n = Some cs" and "req_capability req \<in> set cs"
    and "req_session req = narrowed n e s" and "evaluate R stop req = Inr d"
  shows "dec_effect d = Deny"
proof -
  obtain c where c: "describe R (req_capability req) = Inr c"
    using assms(4) by (cases "describe R (req_capability req)") (auto simp: evaluate_def)
  have "\<not> reachable_for stop req c"
    using narrowed_denies[OF assms(1,2)] describe_id[OF c] assms(3) by (simp add: reachable_for_def)
  then have "dec_effect d \<noteq> Allow" and "dec_effect d \<noteq> Approval_Needed"
    using evaluate_allow_iff[OF c, of stop] evaluate_approval_iff[OF c, of stop] assms(4) by auto
  then show ?thesis by (cases "dec_effect d") auto
qed

text \<open>Granting the capability again undoes that: it leaves the denials and is allowed outright.\<close>

theorem granted_after_narrowed:
  assumes "\<not> matches (perm_deny (ses_permissions s)) ''*''" and "grant_capability g \<noteq> ''*''"
  shows "\<not> matches (perm_deny (ses_permissions (granted g s))) (grant_capability g) \<and>
    matches (perm_allow (ses_permissions (granted g s))) (grant_capability g)"
  using assms by (auto simp: granted_def Let_def matches_def list_ex_iff)

section \<open>The default permissions\<close>

definition document_registry ::
    "(string \<Rightarrow> (string \<times> json) list \<Rightarrow> (string \<times> string) list \<times> (string \<times> json) list) \<Rightarrow> registry" where
  "document_registry ajv =
     \<lparr>reg_definitions = map (\<lambda>c. c\<lparr>cap_enabled := Some (case cap_enabled c of None \<Rightarrow> True | Some b \<Rightarrow> b)\<rparr>) capabilities_json,
      reg_ajv = ajv\<rparr>"

lemma document_loads: "load_registry ajv capabilities_json = Inr (document_registry ajv)"
proof -
  have "distinct (map cap_id capabilities_json)"
    by code_simp
  then have "length (uniq (map cap_id capabilities_json)) = length capabilities_json"
    by simp
  then show ?thesis by (simp add: load_registry_def document_registry_def Let_def comp_def)
qed

definition remote_ids :: "string list" where
  "remote_ids = [''catalog.install'', ''server.harden'', ''application.deploy'', ''application.restart'',
     ''firewall.open_port'', ''firewall.close_port'', ''server.provision'', ''server.destroy'', ''application.rollback'']"

lemma remote_ids: "map cap_id (filter (\<lambda>c. cap_access c \<in> {Remote_Write, Provider_Write}) capabilities_json) = remote_ids"
  by (simp add: capabilities_json_def cap_def remote_ids_def)

lemma remote_not_default: "i \<in> set remote_ids \<Longrightarrow> \<not> matches (perm_allow DEFAULT_PERMISSIONS) i"
proof -
  have "set (perm_allow DEFAULT_PERMISSIONS) \<inter> set remote_ids = {}" "''*'' \<notin> set (perm_allow DEFAULT_PERMISSIONS)"
    by (simp_all add: DEFAULT_PERMISSIONS_def remote_ids_def)
  then show "i \<in> set remote_ids \<Longrightarrow> \<not> matches (perm_allow DEFAULT_PERMISSIONS) i"
    by (auto simp: matches_def list_ex_iff)
qed

lemma describe_in: "describe R i = Inr c \<Longrightarrow> c \<in> set (reg_definitions R)"
  using find_SomeD[of "\<lambda>c. cap_id c = i" "reg_definitions R" c]
  by (simp add: describe_def by_id_def split: option.splits)

text \<open>
  under the permissions a session gets when nothing is asked for, no capability of the
  shipped registry that writes to a host or a provider is allowed without an approved plan.
\<close>

theorem default_needs_approval:
  assumes "load_registry ajv capabilities_json = Inr R"
    and "ses_permissions (req_session req) = mergePermissions None" and "req_approved_plan req = None"
    and "evaluate R stop req = Inr d" and "cap_access (dec_capability d) \<in> {Remote_Write, Provider_Write}"
  shows "dec_effect d \<noteq> Allow"
proof
  assume allow: "dec_effect d = Allow"
  obtain c where c: "describe R (req_capability req) = Inr c"
    using assms(4) by (cases "describe R (req_capability req)") (auto simp: evaluate_def)
  have dc: "dec_capability d = c" using evaluate_capability[OF assms(4) c] .
  have "c \<in> set (reg_definitions (document_registry ajv))"
    using describe_in[OF c] assms(1) document_loads by simp
  then obtain c0 where c0: "c0 \<in> set capabilities_json" "cap_id c0 = cap_id c" "cap_access c0 = cap_access c"
    by (auto simp: document_registry_def)
  have "c0 \<in> set (filter (\<lambda>c. cap_access c \<in> {Remote_Write, Provider_Write}) capabilities_json)"
    using c0 assms(5) dc by simp
  then have "cap_id c0 \<in> set remote_ids"
    unfolding remote_ids[symmetric] set_map by (rule imageI)
  then have rem: "cap_id c \<in> set remote_ids" using c0 by simp
  have "distinct (perm_allow DEFAULT_PERMISSIONS)"
    by code_simp
  then have "uniq (perm_allow DEFAULT_PERMISSIONS) = perm_allow DEFAULT_PERMISSIONS"
    by (rule uniq_distinct)
  then have "\<not> matches (perm_allow (ses_permissions (req_session req))) (cap_id c)"
    using remote_not_default[OF rem] by (simp add: assms(2) mergePermissions_def del: uniq.simps)
  moreover have "\<not> plan_covers req c" by (simp add: plan_covers_def assms(3))
  ultimately show False using evaluate_allow_iff[OF c, of stop] assms(4) allow by blast
qed

end
