(* ===== verification/Approval_Manager.thy ===== *)
theory Approval_Manager
  imports Session_Manager
begin

text \<open>
  Approvals (src/src/agent-control/approval-manager.ts): the request made for a plan or for a
  wider scope, and the one decision each of them gets: approved, denied, or expired when an
  hour has passed. Approving a scope request grants it to the session.
\<close>

section \<open>Requests\<close>

fun riskRank :: "risk \<Rightarrow> nat" where
  "riskRank Read_Only = 0"
| "riskRank Low = 1"
| "riskRank Medium = 2"
| "riskRank High = 3"
| "riskRank Destructive = 4"

definition approval_event :: "approval \<Rightarrow> string \<Rightarrow> string \<Rightarrow> string \<Rightarrow> string \<Rightarrow> instant \<Rightarrow> new_event" where
  "approval_event a eventType summary actor i t = \<lparr>ne_id = i, ne_timestamp = t, ne_session = Some (apr_session a),
     ne_actor = actor, ne_operation = None, ne_type = eventType, ne_capability = apr_capability a,
     ne_target = apr_target a, ne_summary = summary,
     ne_detail = JObj ([(''approvalId'', JStr (apr_id a))] @ opt_member ''planId'' (apr_plan a) @
       [(''reason'', JStr (apr_reason a))])\<rparr>"

definition highest_risk :: "plan_step list \<Rightarrow> risk" where
  "highest_risk steps = (case sort_key (\<lambda>s. - int (riskRank (step_risk s))) steps of
       [] \<Rightarrow> Read_Only | s # _ \<Rightarrow> step_risk s)"

definition plan_approval :: "agent_plan \<Rightarrow> string \<Rightarrow> string \<Rightarrow> instant \<Rightarrow> approval" where
  "plan_approval p reason i t = \<lparr>apr_id = i, apr_session = plan_session p, apr_plan = Some (plan_id p), apr_capability = None,
     apr_status = Pending, apr_reason = reason, apr_risk = highest_risk (plan_steps p),
     apr_target = nonempty (plan_target p), apr_environment = Some (plan_environment p),
     apr_effects = plan_estimated_effects p,
     apr_reversible = (if plan_rb_available p then Conditional else No),
     apr_requested_at = t, apr_decided_at = None, apr_expires_at = t + 60 * 60000,
     apr_decision_reason = None\<rparr>"

definition requestForPlan :: "host_lib \<Rightarrow> agent_plan \<Rightarrow> string \<Rightarrow> approval act" where
  "requestForPlan L p reason = andThen (listApprovals (Some Pending)) (\<lambda>pending.
     case find (\<lambda>a. apr_plan a = Some (plan_id p)) pending of
       Some existing \<Rightarrow> ret existing
     | None \<Rightarrow> andThen now (\<lambda>t. andThen (localId ''apr'') (\<lambda>i.
         let a = plan_approval p reason i t in
         andThen (saveApproval a) (\<lambda>_.
         andThen (logEvent L (approval_event a ''approval.requested'' ''Plan approval requested.'' ''vops'')) (\<lambda>_. ret a)))))"

record scope_request =
  sr_session :: string
  sr_capability :: string
  sr_reason :: string
  sr_risk :: risk
  sr_target :: "string option"
  sr_environment :: "environment option"
  sr_effects :: "string list option"
  sr_reversible :: "tri option"

definition request_scope_expansion :: "host_lib \<Rightarrow> scope_request \<Rightarrow> approval act" where
  "request_scope_expansion L r = andThen now (\<lambda>t. andThen (localId ''apr'') (\<lambda>i.
     let a = \<lparr>apr_id = i, apr_session = sr_session r, apr_plan = None, apr_capability = Some (sr_capability r),
          apr_status = Pending, apr_reason = sr_reason r, apr_risk = sr_risk r,
          apr_target = nonempty (sr_target r), apr_environment = sr_environment r,
          apr_effects = or_default (sr_effects r) [], apr_reversible = or_default (sr_reversible r) No,
          apr_requested_at = t, apr_decided_at = None, apr_expires_at = t + 60 * 60000,
          apr_decision_reason = None\<rparr> in
     andThen (saveApproval a) (\<lambda>_.
     andThen (logEvent L (approval_event a ''approval.scope_requested''
        (''Scope expansion requested for '' @ sr_capability r @ ''.'') ''vops'')) (\<lambda>_. ret a))))"

section \<open>Decisions\<close>

definition window_closed :: "instant \<Rightarrow> approval \<Rightarrow> bool" where
  "window_closed t a \<longleftrightarrow> apr_expires_at a \<le> t"

definition grants_scope :: "approval_status \<Rightarrow> approval \<Rightarrow> string option" where
  "grants_scope st a = (if st = Approved \<and> nonempty (apr_plan a) = None then nonempty (apr_capability a) else None)"

function decide :: "host_lib \<Rightarrow> string \<Rightarrow> approval_status \<Rightarrow> string \<Rightarrow> string \<Rightarrow> approval act" where
  "decide L i st reason actor = andThen (getApproval i) (\<lambda>found. case found of
       None \<Rightarrow> throw (control_failed Not_Found (''Approval '' @ quoted i @ '' was not found.''))
     | Some a \<Rightarrow>
         if apr_status a \<noteq> Pending then
           (if apr_status a = st then ret a
            else throw (control_failed Plan_Invalid
                   (''Approval '' @ quoted i @ '' is already '' @ approval_status_text (apr_status a) @ ''.'')))
         else andThen now (\<lambda>t.
           if st = Approved \<and> window_closed t a
           then decide L i Approval_Expired ''Approval window expired.'' ''vops''
           else
             let updated = a\<lparr>apr_status := st, apr_decided_at := Some t, apr_decision_reason := Some reason\<rparr> in
             andThen (saveApproval updated) (\<lambda>_.
             andThen (case grants_scope st updated of
                 None \<Rightarrow> ret ()
               | Some c \<Rightarrow> andThen (grantScope L (apr_session updated)
                   \<lparr>grant_capability = c, grant_target = apr_target updated,
                    grant_environment = apr_environment updated\<rparr>) (\<lambda>_. ret ())) (\<lambda>_.
             andThen (logEvent L (approval_event updated (''approval.'' @ approval_status_text st)
                 (''Approval '' @ approval_status_text st @ ''.'') actor)) (\<lambda>_.
             ret updated)))))"
  by pat_completeness auto
termination
  by (relation "measure (\<lambda>(L, i, st, reason, actor). if st = Approved then 1 else 0)") auto

declare decide.simps [simp del]

definition list_approvals :: "host_lib \<Rightarrow> approval_status option \<Rightarrow> approval list act" where
  "list_approvals L st = andThen (listApprovals st) (\<lambda>as. andThen now (\<lambda>t.
     let expired = filter (\<lambda>a. apr_status a = Pending \<and> window_closed t a) as in
     andThen (for_each (\<lambda>a. decide L (apr_id a) Approval_Expired ''Approval window expired.'' ''vops'') expired) (\<lambda>_.
     if expired \<noteq> [] then listApprovals st else ret as)))"

definition approve :: "host_lib \<Rightarrow> string \<Rightarrow> string \<Rightarrow> string \<Rightarrow> approval act" where
  "approve L i reason actor = decide L i Approved reason actor"

definition deny :: "host_lib \<Rightarrow> string \<Rightarrow> string \<Rightarrow> string \<Rightarrow> approval act" where
  "deny L i reason actor = decide L i Denied reason actor"

definition requireApprovedForPlan :: "string \<Rightarrow> approval act" where
  "requireApprovedForPlan pid = andThen (listApprovals None) (\<lambda>as.
     let refused = (\<lambda>latest. throw (control Approval_Required (''Plan '' @ quoted pid @ '' has not been approved.'')
           Err_Approval_Required True (Latest_Approval latest))) in
     case find (\<lambda>a. apr_plan a = Some pid) as of
       None \<Rightarrow> refused None
     | Some a \<Rightarrow> if apr_status a \<noteq> Approved then refused (Some a) else ret a)"

section \<open>A decision is taken once\<close>

lemma redact_approval_sel [simp]:
  "apr_status (redact_approval a) = apr_status a" "apr_id (redact_approval a) = redact_str (apr_id a)"
  "apr_expires_at (redact_approval a) = apr_expires_at a" "apr_plan (redact_approval a) = map_option redact_str (apr_plan a)"
  by (simp_all add: redact_approval_def)

definition approvals_wf :: "world \<Rightarrow> bool" where
  "approvals_wf w \<longleftrightarrow> (\<forall>i a. approval_at i w = Some a \<longrightarrow> apr_id a = i \<and> clean i)"

lemma approvals_wf_at: "approvals_wf w \<Longrightarrow> approval_at i w = Some a \<Longrightarrow> apr_id a = i \<and> clean i"
  by (auto simp: approvals_wf_def)

lemma approvals_wf_put: "approvals_wf w \<Longrightarrow> clean (apr_id a) \<Longrightarrow> approvals_wf (put_approval a w)"
  by (auto simp: approvals_wf_def approvals.get_put redact_str_clean)

lemma approvals_wf_frames [simp]:
  "approvals_wf (logged L mk w) = approvals_wf w" "approvals_wf (put_session s w) = approvals_wf w"
  by (simp_all add: approvals_wf_def)

lemma grantScope_approvals [simp]:
  "approval_at i (snd (grantScope L s g w)) = approval_at i w" "w_now (snd (grantScope L s g w)) = w_now w"
  by (cases "session_at s w"; simp add: grantScope_def andThen_def action_simps Let_def)+

lemma grantScope_wf [simp]: "approvals_wf (snd (grantScope L s g w)) = approvals_wf w"
  by (simp add: approvals_wf_def)

text \<open>What is left of \<open>decide\<close> once the approval is found pending and in its window.\<close>

definition settled :: "approval_status \<Rightarrow> instant \<Rightarrow> string \<Rightarrow> approval \<Rightarrow> approval" where
  "settled st t reason a = a\<lparr>apr_status := st, apr_decided_at := Some t, apr_decision_reason := Some reason\<rparr>"

lemma settled_sel [simp]: "apr_id (settled st t r a) = apr_id a" "apr_status (settled st t r a) = st"
  by (simp_all add: settled_def)

lemma decide_decided:
  assumes "approval_at i w = Some a" and "apr_status a \<noteq> Pending"
  shows "snd (decide L i st reason actor w) = w"
  using assms by (subst decide.simps) (simp add: andThen_def action_simps)

lemma decide_missing: "approval_at i w = None \<Longrightarrow> snd (decide L i st reason actor w) = w"
  by (subst decide.simps) (simp add: andThen_def action_simps)

lemma after_save:
  "(\<forall>k. approval_at k (snd (andThen (case g of None \<Rightarrow> ret () | Some c \<Rightarrow> andThen (grantScope L s (mk c)) (\<lambda>_. ret ()))
      (\<lambda>_. andThen (logEvent L ev) (\<lambda>_. ret x)) w)) = approval_at k w) \<and>
   approvals_wf (snd (andThen (case g of None \<Rightarrow> ret () | Some c \<Rightarrow> andThen (grantScope L s (mk c)) (\<lambda>_. ret ()))
      (\<lambda>_. andThen (logEvent L ev) (\<lambda>_. ret x)) w)) = approvals_wf w"
proof (cases g)
  case None
  then show ?thesis by (simp add: andThen_def action_simps)
next
  case (Some c)
  obtain r w1 where run: "grantScope L s (mk c) w = (r, w1)" by (cases "grantScope L s (mk c) w")
  then have "approval_at k w1 = approval_at k w" for k
    using grantScope_approvals(1)[of k L s "mk c" w] by simp
  moreover have "approvals_wf w1 = approvals_wf w" using grantScope_wf[of L s "mk c" w] run by simp
  ultimately show ?thesis using Some run by (cases r) (simp_all add: andThen_def action_simps)
qed

lemma decide_open:
  assumes "approvals_wf w" and "approval_at i w = Some a" and "apr_status a = Pending"
    and "st = Approved \<longrightarrow> \<not> window_closed (w_now w) a"
  shows "(\<forall>k. approval_at k (snd (decide L i st reason actor w)) =
      (if k = i then Some (redact_approval (settled st (w_now w) reason a)) else approval_at k w)) \<and>
    approvals_wf (snd (decide L i st reason actor w))"
proof -
  have no: "\<not> (st = Approved \<and> window_closed (w_now w) a)" using assms(4) by blast
  show ?thesis
    using assms(1-3) approvals_wf_at[OF assms(1,2)]
    by (subst (1 2) decide.simps)
      (simp only: if_not_P[OF no] if_False andThen_run action_simps,
        simp add: no Let_def after_save approvals.get_put approvals_wf_put andThen_run action_simps flip: settled_def
        del: andThen_ret(1) de_Morgan_conj)
qed

text \<open>
  C28: an approval is decided once. On a pending one, \<open>approve\<close> within the hour approves it,
  after the hour it records that the window expired instead, and \<open>deny\<close> denies it; on a
  decided one no call changes anything.
\<close>

theorem approval_decided_once:
  assumes "approvals_wf w" and "approval_at i w = Some a"
  shows "(apr_status a = Pending \<and> \<not> window_closed (w_now w) a \<longrightarrow>
            map_option apr_status (approval_at i (snd (approve L i reason actor w))) = Some Approved) \<and>
    (apr_status a = Pending \<and> window_closed (w_now w) a \<longrightarrow>
            map_option apr_status (approval_at i (snd (approve L i reason actor w))) = Some Approval_Expired) \<and>
    (apr_status a = Pending \<longrightarrow> map_option apr_status (approval_at i (snd (deny L i reason actor w))) = Some Denied) \<and>
    (apr_status a \<noteq> Pending \<longrightarrow> snd (approve L i reason actor w) = w \<and> snd (deny L i reason actor w) = w)"
proof (cases "apr_status a = Pending")
  case False
  then show ?thesis using assms by (simp add: approve_def deny_def decide_decided)
next
  case True
  have late: "decide L i Approved reason actor w = decide L i Approval_Expired ''Approval window expired.'' ''vops'' w"
    if "window_closed (w_now w) a"
    using that assms True by (subst decide.simps) (simp add: andThen_run action_simps)
  show ?thesis
    using True decide_open[OF assms True, of Approved L reason actor] decide_open[OF assms True, of Denied L reason actor]
      decide_open[OF assms True, of Approval_Expired L "''Approval window expired.''" "''vops''"]
    by (cases "window_closed (w_now w) a") (simp_all add: approve_def deny_def late)
qed

lemma decide_settles:
  assumes "approval_at i w = Some a" and "apr_status a = Pending" and "\<not> (st = Approved \<and> window_closed (w_now w) a)"
  shows "decide L i st reason actor w =
    andThen (case grants_scope st (settled st (w_now w) reason a) of
        None \<Rightarrow> ret ()
      | Some c \<Rightarrow> andThen (grantScope L (apr_session a) \<lparr>grant_capability = c, grant_target = apr_target a,
                    grant_environment = apr_environment a\<rparr>) (\<lambda>_. ret ()))
      (\<lambda>_. andThen (logEvent L (approval_event (settled st (w_now w) reason a) (''approval.'' @ approval_status_text st)
                 (''Approval '' @ approval_status_text st @ ''.'') actor)) (\<lambda>_. ret (settled st (w_now w) reason a)))
      (put_approval (settled st (w_now w) reason a) w)"
proof (cases "st = Approved")
  case True
  then show ?thesis using assms
    by (subst decide.simps) (simp add: andThen_run action_simps settled_def Let_def del: andThen_ret(1) cong: option.case_cong)
next
  case False
  then show ?thesis using assms(1,2)
    by (subst decide.simps) (simp add: andThen_run action_simps settled_def Let_def del: andThen_ret(1) cong: option.case_cong)
qed

lemma grantScope_run [action_simps]:
  "session_at i w = Some s \<Longrightarrow> grantScope L i g w = update_session L (granted g s) ''session.scope_granted''
       (''Granted '' @ grant_capability g @ '' to the session.'') w"
  "session_at i w = None \<Longrightarrow> grantScope L i g w =
     (Inl (control_failed Not_Found (''Agent session '' @ quoted i @ '' was not found.'')), w)"
  by (simp_all add: grantScope_def andThen_run show_session_run)

lemma matches_red_strs: "c \<in> set ps \<Longrightarrow> clean c \<Longrightarrow> matches (red_strs ps) c"
  by (auto simp: matches_def red_strs_def list_ex_iff image_iff redact_str_clean intro: bexI[of _ c])

text \<open>
  deciding an approval changes a session only by approving a request for a wider scope:
  denying, expiring and approving a plan leave every session as it is, and an approved
  scope request puts its capability among the session's grants and out of its denials.
\<close>

theorem scope_by_approval_only:
  assumes "approvals_wf w" and "approval_at i w = Some a" and "apr_status a = Pending"
  shows "session_at k (snd (deny L i reason actor w)) = session_at k w \<and>
    (nonempty (apr_plan a) \<noteq> None \<or> window_closed (w_now w) a \<longrightarrow>
       session_at k (snd (approve L i reason actor w)) = session_at k w) \<and>
    (nonempty (apr_plan a) = None \<and> \<not> window_closed (w_now w) a \<and> apr_capability a = Some c \<and> c \<noteq> [] \<and> clean c \<and>
       session_at (apr_session a) w = Some s \<and> clean (ses_id s) \<and> ses_id s = apr_session a \<longrightarrow>
       (\<exists>s'. session_at (apr_session a) (snd (approve L i reason actor w)) = Some s' \<and>
          matches (perm_allow (ses_permissions s')) c \<and> ses_status s' = ses_status s))"
proof (intro conjI impI)
  have none: "session_at k (snd (decide L i st r ac w)) = session_at k w"
    if "\<not> (st = Approved \<and> window_closed (w_now w) a)" "grants_scope st (settled st (w_now w) r a) = None" for st r ac
    using that by (simp add: decide_settles[OF assms(2,3)] andThen_run action_simps del: de_Morgan_conj)
  show "session_at k (snd (deny L i reason actor w)) = session_at k w"
    unfolding deny_def by (rule none) (simp_all add: grants_scope_def)
  have late: "session_at k (snd (approve L i reason actor w)) = session_at k w" if "window_closed (w_now w) a"
  proof -
    have "decide L i Approved reason actor w = decide L i Approval_Expired ''Approval window expired.'' ''vops'' w"
      using that assms(2,3) by (subst decide.simps) (simp add: andThen_run action_simps)
    then show ?thesis
      unfolding approve_def by (simp add: none grants_scope_def)
  qed
  assume "nonempty (apr_plan a) \<noteq> None \<or> window_closed (w_now w) a"
  then show "session_at k (snd (approve L i reason actor w)) = session_at k w"
  proof (cases "window_closed (w_now w) a")
    case False
    with \<open>nonempty (apr_plan a) \<noteq> None \<or> window_closed (w_now w) a\<close> show ?thesis
      unfolding approve_def by (intro none) (auto simp: grants_scope_def settled_def)
  qed (rule late)
next
  assume h: "nonempty (apr_plan a) = None \<and> \<not> window_closed (w_now w) a \<and> apr_capability a = Some c \<and> c \<noteq> [] \<and> clean c \<and>
       session_at (apr_session a) w = Some s \<and> clean (ses_id s) \<and> ses_id s = apr_session a"
  let ?g = "\<lparr>grant_capability = c, grant_target = apr_target a, grant_environment = apr_environment a\<rparr>"
  have g: "grants_scope Approved (settled Approved (w_now w) reason a) = Some c"
    using h by (simp add: grants_scope_def settled_def nonempty_def)
  have "c \<in> set (perm_allow (ses_permissions (granted ?g s)))" by (simp add: granted_def Let_def)
  then have "matches (red_strs (perm_allow (ses_permissions (granted ?g s)))) c"
    using h by (intro matches_red_strs) auto
  moreover have "ses_status (granted ?g s) = ses_status s" "ses_id (granted ?g s) = ses_id s"
    by (simp_all add: granted_def Let_def)
  ultimately show "\<exists>s'. session_at (apr_session a) (snd (approve L i reason actor w)) = Some s' \<and>
      matches (perm_allow (ses_permissions s')) c \<and> ses_status s' = ses_status s"
    using h g decide_settles[OF assms(2,3), of Approved L reason actor]
    by (simp add: approve_def andThen_run action_simps Let_def sessions.get_put redact_session_def del: andThen_ret(1))
qed

lemma set_newest_first [simp]: "set (newest_first rows) = (snd \<circ> snd) ` set rows"
  by (simp add: newest_first_def)

lemma set_upsert_records: "r' \<in> (snd \<circ> snd) ` set (upsert t k r rows) \<Longrightarrow> r' = r \<or> r' \<in> (snd \<circ> snd) ` set rows"
  by (force simp: upsert_def split: if_splits)

lemma upsert_has: "r \<in> (snd \<circ> snd) ` set (upsert t k r rows)"
  by (force simp: upsert_def split: if_splits)

text \<open>
  While a plan's approval is pending, asking again returns that approval and changes
  nothing: a plan has one open request at a time.
\<close>

theorem one_open_request:
  assumes "requestForPlan L p reason w = (Inr a, w')" and "clean (plan_id p)"
  shows "\<exists>a'. requestForPlan L p reason' w' = (Inr a', w') \<and> apr_status a' = Pending \<and>
    apr_plan a' = Some (plan_id p)"
proof -
  let ?P = "\<lambda>a. apr_plan a = Some (plan_id p)"
  let ?pending = "\<lambda>w. filter (\<lambda>a. apr_status a = Pending) (newest_first (w_approvals w))"
  have found: "find ?P (?pending w') \<noteq> None"
  proof (cases "find ?P (?pending w)")
    case None
    let ?a0 = "plan_approval p reason (local_id ''apr'' (w_next w)) (w_now w)"
    have "apr_status ?a0 = Pending" "apr_plan ?a0 = Some (plan_id p)" by (simp_all add: plan_approval_def)
    moreover have "w_approvals w' = upsert (second_of (w_now w)) (apr_id ?a0) (redact_approval ?a0) (w_approvals w)"
      using None assms(1)
      by (auto simp: requestForPlan_def listApprovals_def andThen_run action_simps Let_def put_approval_def)
    ultimately have a0: "redact_approval ?a0 \<in> set (?pending w')" "?P (redact_approval ?a0)"
      using upsert_has[of "redact_approval ?a0"] assms(2) by (simp_all add: redact_str_clean)
    show ?thesis
    proof
      assume "find ?P (?pending w') = None"
      from find_NoneD[OF this a0(1)] a0(2) show False by blast
    qed
  next
    case (Some e)
    with assms(1) have "w' = w" by (auto simp: requestForPlan_def listApprovals_def andThen_run action_simps)
    then show ?thesis using Some by simp
  qed
  then obtain a' where a': "find ?P (?pending w') = Some a'" by auto
  then have "requestForPlan L p reason' w' = (Inr a', w')"
    by (simp add: requestForPlan_def listApprovals_def andThen_run action_simps)
  moreover have "a' \<in> set (?pending w')" "?P a'" using find_SomeD[OF a'] by auto
  ultimately show ?thesis by simp
qed

end
