(* ===== verification/Operation_Manager.thy ===== *)
theory Operation_Manager
  imports Agent_Store
begin

text \<open>
  Operations (src/src/agent-control/operation-manager.ts): the state machine an execution
  goes through, its transition table, and cancellation. The table is also given as a step
  relation, and every sequence of calls is shown to follow it.
\<close>

section \<open>The transition table\<close>

fun TRANSITIONS :: "op_state \<Rightarrow> op_state list" where
  "TRANSITIONS Op_Proposed = [Op_Awaiting_Approval, Op_Approved, Op_Queued, Op_Cancelled]"
| "TRANSITIONS Op_Awaiting_Approval = [Op_Approved, Op_Cancelled]"
| "TRANSITIONS Op_Approved = [Op_Queued, Op_Cancelled]"
| "TRANSITIONS Op_Queued = [Op_Running, Op_Cancelling, Op_Cancelled]"
| "TRANSITIONS Op_Running = [Op_Verifying, Op_Succeeded, Op_Failed, Op_Cancelling]"
| "TRANSITIONS Op_Verifying = [Op_Succeeded, Op_Failed, Op_Cancelling]"
| "TRANSITIONS Op_Succeeded = [Op_Rollback_Requested]"
| "TRANSITIONS Op_Failed = [Op_Rollback_Requested]"
| "TRANSITIONS Op_Cancelling = [Op_Cancelled, Op_Failed]"
| "TRANSITIONS Op_Cancelled = []"
| "TRANSITIONS Op_Rollback_Requested = [Op_Rolling_Back, Op_Rollback_Failed]"
| "TRANSITIONS Op_Rolling_Back = [Op_Rolled_Back, Op_Rollback_Failed]"
| "TRANSITIONS Op_Rolled_Back = []"
| "TRANSITIONS Op_Rollback_Failed = []"

section \<open>Operations on operations\<close>

record op_patch =
  pt_current_step :: "string option"
  pt_capability :: "string option"
  pt_result :: "step_result list option"
  pt_error :: "op_error option"
  pt_cancel_requested :: "bool option"
  pt_verification :: "verification option"

definition no_patch :: op_patch where
  "no_patch = \<lparr>pt_current_step = None, pt_capability = None, pt_result = None, pt_error = None,
     pt_cancel_requested = None, pt_verification = None\<rparr>"

definition override :: "'a option \<Rightarrow> 'a option \<Rightarrow> 'a option" where
  "override new old = (case new of None \<Rightarrow> old | Some _ \<Rightarrow> new)"

text \<open>\<open>{ ...operation, ...patch }\<close>\<close>

definition patched :: "op_patch \<Rightarrow> operation \<Rightarrow> operation" where
  "patched p q = q\<lparr>op_current_step := override (pt_current_step p) (op_current_step q),
     op_capability := override (pt_capability p) (op_capability q),
     op_result := override (pt_result p) (op_result q),
     op_error := override (pt_error p) (op_error q),
     op_cancel_requested := (case pt_cancel_requested p of None \<Rightarrow> op_cancel_requested q | Some b \<Rightarrow> b),
     op_verification := override (pt_verification p) (op_verification q)\<rparr>"

definition error_json :: "op_error \<Rightarrow> json" where
  "error_json e = JObj [(''code'', JStr (operr_code e)), (''message'', JStr (operr_message e)),
     (''recoverable'', JBool (operr_recoverable e))]"

definition operation_event :: "operation \<Rightarrow> string \<Rightarrow> string \<Rightarrow> string \<Rightarrow> instant \<Rightarrow> new_event" where
  "operation_event q eventType summary i t = \<lparr>ne_id = i, ne_timestamp = t, ne_session = Some (op_session q),
     ne_actor = ''vops'', ne_operation = Some (op_id q), ne_type = eventType, ne_capability = op_capability q,
     ne_target = None, ne_summary = summary,
     ne_detail = JObj ([(''planId'', JStr (op_plan q))] @ opt_member ''currentStep'' (op_current_step q) @
       (case op_error q of None \<Rightarrow> [] | Some e \<Rightarrow> [(''error'', error_json e)]))\<rparr>"

definition operationSummary :: "operation \<Rightarrow> string" where
  "operationSummary q = ''Operation '' @ op_state_text (op_state q) @
     (case op_current_step q of None \<Rightarrow> [] | Some st \<Rightarrow> if st = [] then [] else '' at '' @ st) @ ''.''"

definition create_operation :: "host_lib \<Rightarrow> string \<Rightarrow> string \<Rightarrow> bool \<Rightarrow> operation act" where
  "create_operation L sid pid rollbackAvailable = andThen now (\<lambda>t. andThen (localId ''op'') (\<lambda>i.
     let q = \<lparr>op_id = i, op_session = sid, op_plan = pid, op_capability = None, op_state = Op_Queued,
          op_current_step = None, op_result = None, op_verification = None, op_error = None,
          op_rollback_available = rollbackAvailable, op_cancel_requested = False,
          op_created_at = t, op_updated_at = t\<rparr> in
     andThen (saveOperation q) (\<lambda>_.
     andThen (logEvent L (operation_event q ''operation.queued'' ''Operation queued.'')) (\<lambda>_. ret q))))"

definition get_operation :: "string \<Rightarrow> operation act" where
  "get_operation i = andThen (getOperation i) (\<lambda>q. case q of
       None \<Rightarrow> throw (control_failed Not_Found (''Operation '' @ quoted i @ '' was not found.''))
     | Some q \<Rightarrow> ret q)"

definition list_operations :: "string option \<Rightarrow> operation list act" where
  "list_operations sid = listOperations sid"

definition transition :: "host_lib \<Rightarrow> string \<Rightarrow> op_state \<Rightarrow> op_patch \<Rightarrow> operation act" where
  "transition L i st p = andThen (get_operation i) (\<lambda>q.
     if op_state q = st then ret q
     else if st \<notin> set (TRANSITIONS (op_state q))
     then throw (control_failed Operation_Failed (''Invalid operation transition '' @ op_state_text (op_state q) @
            '' -> '' @ op_state_text st @ ''.''))
     else andThen now (\<lambda>t.
       let updated = (patched p q)\<lparr>op_state := st, op_updated_at := t\<rparr> in
       andThen (saveOperation updated) (\<lambda>_.
       andThen (logEvent L (operation_event updated (''operation.'' @ op_state_text st) (operationSummary updated))) (\<lambda>_.
       ret updated))))"

definition requestCancel :: "host_lib \<Rightarrow> string \<Rightarrow> operation act" where
  "requestCancel L i = andThen (get_operation i) (\<lambda>q.
     if op_state q \<in> {Op_Succeeded, Op_Failed, Op_Cancelled, Op_Rolled_Back, Op_Rollback_Failed} then ret q
     else transition L i (if op_state q = Op_Queued then Op_Cancelled else Op_Cancelling)
            (no_patch\<lparr>pt_cancel_requested := Some True\<rparr>))"

definition shouldCancel :: "string \<Rightarrow> bool act" where
  "shouldCancel i = andThen (get_operation i) (\<lambda>q. ret (op_cancel_requested q))"

section \<open>What the operations do\<close>

lemma get_operation_run [action_simps]:
  "operation_at i w = Some q \<Longrightarrow> get_operation i w = (Inr q, w)"
  "operation_at i w = None \<Longrightarrow> get_operation i w =
     (Inl (control_failed Not_Found (''Operation '' @ quoted i @ '' was not found.'')), w)"
  by (simp_all add: get_operation_def andThen_def action_simps)

definition moved :: "host_lib \<Rightarrow> op_state \<Rightarrow> op_patch \<Rightarrow> operation \<Rightarrow> world \<Rightarrow> operation \<times> world" where
  "moved L st p q w = (let u = (patched p q)\<lparr>op_state := st, op_updated_at := w_now w\<rparr>
     in (u, logged L (operation_event u (''operation.'' @ op_state_text st) (operationSummary u)) (put_operation u w)))"

lemma transition_run:
  assumes "operation_at i w = Some q"
  shows "transition L i st p w =
    (if op_state q = st then (Inr q, w)
     else if st \<in> set (TRANSITIONS (op_state q)) then (Inr (fst (moved L st p q w)), snd (moved L st p q w))
     else (Inl (control_failed Operation_Failed (''Invalid operation transition '' @ op_state_text (op_state q) @
            '' -> '' @ op_state_text st @ ''.'')), w))"
  using assms by (simp add: transition_def moved_def andThen_def action_simps Let_def)

lemma redact_operation_sel [simp]:
  "op_state (redact_operation q) = op_state q" "op_cancel_requested (redact_operation q) = op_cancel_requested q"
  "op_rollback_available (redact_operation q) = op_rollback_available q"
  "op_id (redact_operation q) = redact_str (op_id q)" "op_plan (redact_operation q) = redact_str (op_plan q)"
  "op_session (redact_operation q) = redact_str (op_session q)"
  by (simp_all add: redact_operation_def)

lemma patched_sel [simp]:
  "op_id (patched p q) = op_id q" "op_plan (patched p q) = op_plan q" "op_session (patched p q) = op_session q"
  "op_state (patched p q) = op_state q" "op_rollback_available (patched p q) = op_rollback_available q"
  "op_cancel_requested (patched p q) = (case pt_cancel_requested p of None \<Rightarrow> op_cancel_requested q | Some b \<Rightarrow> b)"
  by (simp_all add: patched_def)

text \<open>Every operation is stored under its own id, which redaction leaves alone.\<close>

definition operations_wf :: "world \<Rightarrow> bool" where
  "operations_wf w \<longleftrightarrow> (\<forall>i q. operation_at i w = Some q \<longrightarrow> op_id q = i \<and> clean i)"

lemma operations_wf_at: "operations_wf w \<Longrightarrow> operation_at i w = Some q \<Longrightarrow> op_id q = i \<and> clean i"
  by (auto simp: operations_wf_def)

lemma operations_wf_put: "operations_wf w \<Longrightarrow> clean (op_id q) \<Longrightarrow> operations_wf (put_operation q w)"
  by (auto simp: operations_wf_def operations.get_put redact_str_clean)

lemma operations_wf_logged [simp]: "operations_wf (logged L mk w) = operations_wf w"
  by (simp add: operations_wf_def)

lemma moved_at:
  assumes "operations_wf w" and "operation_at i w = Some q"
  shows "operation_at k (snd (moved L st p q w)) =
    (if k = i then Some (redact_operation ((patched p q)\<lparr>op_state := st, op_updated_at := w_now w\<rparr>)) else operation_at k w)"
    and "operations_wf (snd (moved L st p q w))"
  using assms operations_wf_at[OF assms]
  by (simp_all add: moved_def Let_def operations.get_put operations_wf_put)

section \<open>The step relation\<close>

inductive op_step :: "op_state \<Rightarrow> op_state \<Rightarrow> bool" where
  op_step: "t \<in> set (TRANSITIONS s) \<Longrightarrow> op_step s t"

inductive_simps op_step_iff: "op_step s t"
inductive_cases op_step_cancelled: "op_step Op_Cancelled t"

abbreviation op_steps :: "op_state \<Rightarrow> op_state \<Rightarrow> bool" where
  "op_steps \<equiv> op_step\<^sup>*\<^sup>*"

definition op_state_at :: "string \<Rightarrow> world \<Rightarrow> op_state option" where
  "op_state_at i w = map_option op_state (operation_at i w)"

text \<open>A call of the service on some operation; a call that throws leaves the run going.\<close>

datatype op_call = Move string op_state op_patch | Cancel string

definition do_call :: "host_lib \<Rightarrow> op_call \<Rightarrow> world \<Rightarrow> world" where
  "do_call L c w = (case c of Move i st p \<Rightarrow> snd (transition L i st p w) | Cancel i \<Rightarrow> snd (requestCancel L i w))"

lemma transition_step:
  assumes "operations_wf w" and "operation_at k w = Some q"
  shows "operations_wf (snd (transition L i st p w)) \<and>
    (\<exists>q'. operation_at k (snd (transition L i st p w)) = Some q' \<and> op_steps (op_state q) (op_state q'))"
proof (cases "operation_at i w")
  case None
  then show ?thesis using assms by (simp add: transition_def andThen_def action_simps)
next
  case (Some qi)
  show ?thesis
  proof (cases "op_state qi \<noteq> st \<and> st \<in> set (TRANSITIONS (op_state qi))")
    case True
    then have "op_steps (op_state qi) st" by (auto intro: op_step)
    then show ?thesis
      using True assms moved_at[OF assms(1) Some] by (auto simp: transition_run[OF Some] Some)
  next
    case False
    then show ?thesis using assms by (auto simp: transition_run[OF Some])
  qed
qed

lemma do_call_step:
  assumes "operations_wf w" and "operation_at k w = Some q"
  shows "operations_wf (do_call L c w) \<and>
    (\<exists>q'. operation_at k (do_call L c w) = Some q' \<and> op_steps (op_state q) (op_state q'))"
proof (cases c)
  case (Move i st p)
  then show ?thesis using transition_step[OF assms] by (simp add: do_call_def)
next
  case (Cancel i)
  then show ?thesis
    using assms transition_step[OF assms]
    by (cases "operation_at i w") (auto simp: do_call_def requestCancel_def andThen_def action_simps)
qed

lemma calls_step:
  assumes "operations_wf w" and "operation_at k w = Some q"
  shows "\<exists>q'. operation_at k (fold (do_call L) cs w) = Some q' \<and> op_steps (op_state q) (op_state q')"
  using assms
proof (induction cs arbitrary: w q)
  case Nil
  then show ?case by auto
next
  case (Cons c cs)
  from do_call_step[OF Cons.prems, of L c] obtain q1 where
    q1: "operation_at k (do_call L c w) = Some q1" "op_steps (op_state q) (op_state q1)" "operations_wf (do_call L c w)"
    by blast
  from Cons.IH[OF q1(3,1)] q1(2) show ?case by auto
qed

text \<open>
  C26: whatever calls are made on whatever operations, in whatever order and with failing
  calls among them, an operation moves only along the transition table.
\<close>

theorem calls_follow_table:
  assumes "operations_wf w" and "op_state_at k w = Some s"
  shows "\<exists>s'. op_state_at k (fold (do_call L) cs w) = Some s' \<and> op_steps s s'"
proof -
  obtain q where "operation_at k w = Some q" "op_state q = s"
    using assms(2) by (auto simp: op_state_at_def)
  then show ?thesis using calls_step[OF assms(1), of k q L cs] by (auto simp: op_state_at_def)
qed

section \<open>Where the table leads\<close>

lemma stuck_steps: "TRANSITIONS s = [] \<Longrightarrow> op_steps s t \<Longrightarrow> t = s"
  by (erule converse_rtranclpE) (auto simp: op_step_iff)

lemma closed_steps:
  assumes "op_steps s t" and "s \<in> S" and "\<And>x. x \<in> S \<Longrightarrow> set (TRANSITIONS x) \<subseteq> S"
  shows "t \<in> S"
  using assms(1,2) by (induction rule: rtranclp_induct) (use assms(3) in \<open>auto simp: op_step_iff\<close>)

text \<open>
  A cancelled operation, a rolled-back one and one whose rollback failed keep their
  state for ever; one that succeeded or failed is never run, verified or cancelled again.
\<close>

theorem final_states_final:
  assumes "operations_wf w" and "op_state_at k w = Some s"
  shows "(s \<in> {Op_Cancelled, Op_Rolled_Back, Op_Rollback_Failed} \<longrightarrow>
            op_state_at k (fold (do_call L) cs w) = Some s) \<and>
    (s \<in> {Op_Succeeded, Op_Failed} \<longrightarrow> (\<exists>s'. op_state_at k (fold (do_call L) cs w) = Some s' \<and>
            s' \<in> {s, Op_Rollback_Requested, Op_Rolling_Back, Op_Rolled_Back, Op_Rollback_Failed}))"
proof -
  obtain q where q: "operation_at k w = Some q" "op_state q = s"
    using assms(2) by (auto simp: op_state_at_def)
  obtain q' where q': "operation_at k (fold (do_call L) cs w) = Some q'" "op_steps s (op_state q')"
    using calls_step[OF assms(1) q(1), of L cs] q(2) by blast
  have "op_state q' = s" if "s \<in> {Op_Cancelled, Op_Rolled_Back, Op_Rollback_Failed}"
    using that q'(2) by (auto dest: stuck_steps[rotated])
  moreover have "op_state q' \<in> {s, Op_Rollback_Requested, Op_Rolling_Back, Op_Rolled_Back, Op_Rollback_Failed}"
    if "s \<in> {Op_Succeeded, Op_Failed}"
    by (rule closed_steps[OF q'(2)]) (use that in auto)
  ultimately show ?thesis using q'(1) by (auto simp: op_state_at_def)
qed

text \<open>
  A transition to the state an operation already has returns the operation as it is:
  the step and capability passed with it are dropped, as every \<open>running\<close> transition of the
  broker's loop does with the step it starts.
\<close>

theorem same_state_drops_patch:
  assumes "operation_at i w = Some q" and "op_state q = st"
  shows "transition L i st p w = (Inr q, w)"
  using assms by (simp add: transition_run)

text \<open>
  Cancelling an operation that runs is seen by the next check, and one that is still
  queued is cancelled at once; an operation that has ended is returned unchanged.
\<close>

theorem requestCancel_effect:
  assumes "operations_wf w" and "operation_at i w = Some q"
  shows "(op_state q = Op_Queued \<longrightarrow> (\<exists>u w'. requestCancel L i w = (Inr u, w') \<and> op_state_at i w' = Some Op_Cancelled)) \<and>
    (op_state q \<in> {Op_Running, Op_Verifying} \<longrightarrow> (\<exists>u w'. requestCancel L i w = (Inr u, w') \<and>
        op_state_at i w' = Some Op_Cancelling \<and> fst (shouldCancel i w') = Inr True)) \<and>
    (op_state q \<in> {Op_Succeeded, Op_Failed, Op_Cancelled, Op_Rolled_Back, Op_Rollback_Failed} \<longrightarrow>
        requestCancel L i w = (Inr q, w))"
proof -
  have run: "requestCancel L i w = (if op_state q \<in> {Op_Succeeded, Op_Failed, Op_Cancelled, Op_Rolled_Back, Op_Rollback_Failed}
      then (Inr q, w) else transition L i (if op_state q = Op_Queued then Op_Cancelled else Op_Cancelling)
            (no_patch\<lparr>pt_cancel_requested := Some True\<rparr>) w)"
    using assms(2) by (simp add: requestCancel_def andThen_def action_simps)
  have seen: "fst (shouldCancel i w') = Inr (op_cancel_requested q')" if "operation_at i w' = Some q'" for w' q'
    using that by (simp add: shouldCancel_def andThen_def action_simps)
  show ?thesis
    using moved_at(1)[OF assms, of i] transition_run[OF assms(2)]
    by (auto simp: run op_state_at_def seen)
qed

end
