(* ===== verification/Plan_Engine.thy ===== *)
theory Plan_Engine
  imports Session_Manager
begin

text \<open>
  Plans (src/src/agent-control/plan-engine.ts): a proposal is checked step by step against the
  registry, the ban on secret fields and the policy, hashed over its content and stored; what is
  executed later must still carry the hash of its content.
\<close>

section \<open>Creating a plan\<close>

record plan_input =
  pin_objective :: string
  pin_environment :: "environment option"
  pin_target :: "string option"
  pin_steps :: "(string \<times> (string \<times> json) list option) list"
  pin_success_criteria :: "string list option"
  pin_excluded_effects :: "string list option"

definition problem :: "string option \<Rightarrow> string option \<Rightarrow> string \<Rightarrow> plan_problem" where
  "problem st p m = \<lparr>prob_step = st, prob_path = p, prob_message = m\<rparr>"

definition step_name :: "nat \<Rightarrow> string" where
  "step_name index = ''step_'' @ show_nat (index + 1)"

text \<open>
  The body of \<open>input.steps.map\<close>: the step, the problems it adds, and whether it needs an
  approval. The validator fills defaults into the step's input before the policy sees it.
\<close>

definition check_step :: "registry \<Rightarrow> emergency_stop \<Rightarrow> session \<Rightarrow> environment \<Rightarrow> nat \<Rightarrow>
    string \<times> (string \<times> json) list option \<Rightarrow> exn + plan_step \<times> plan_problem list \<times> bool" where
  "check_step R stop s env index st =
     (case describe R (fst st) of Inl e \<Rightarrow> Inl e | Inr definition_ \<Rightarrow>
       (let (found, stepInput) = validate_input R (fst st) (or_default (snd st) []);
            name = Some (step_name index)
        in case evaluate R stop \<lparr>req_session = s, req_capability = fst st, req_input = stepInput,
              req_environment = env, req_approved_plan = None\<rparr> of
          Inl e \<Rightarrow> Inl e
        | Inr d \<Rightarrow> Inr (\<lparr>step_id = step_name index, step_capability = cap_id definition_,
              step_input = stepInput, step_risk = cap_risk definition_\<rparr>,
            map (\<lambda>(p, m). problem name (Some p) m) found @
            (if containsSecretLikeField (JObj stepInput)
             then [problem name None ''Plans may contain logical credential references, never credential values or secret fields.'']
             else []) @
            (if dec_effect d = Deny then [problem name None (dec_reason d)] else []),
            dec_effect d = Approval_Needed)))"

fun check_steps :: "registry \<Rightarrow> emergency_stop \<Rightarrow> session \<Rightarrow> environment \<Rightarrow> nat \<Rightarrow>
    (string \<times> (string \<times> json) list option) list \<Rightarrow> exn + plan_step list \<times> plan_problem list \<times> bool" where
  "check_steps R stop s env index [] = Inr ([], [], False)"
| "check_steps R stop s env index (st # sts) = (case check_step R stop s env index st of
     Inl e \<Rightarrow> Inl e
   | Inr (x, ps, a) \<Rightarrow> (case check_steps R stop s env (index + 1) sts of
       Inl e \<Rightarrow> Inl e
     | Inr (xs, qs, b) \<Rightarrow> Inr (x # xs, ps @ qs, a \<or> b)))"

definition rollbackLimitations :: "tri list \<Rightarrow> string list" where
  "rollbackLimitations values =
     (if No \<in> set values then [''At least one plan step has no rollback operation.'']
      else if Conditional \<in> set values
      then [''Rollback depends on state captured by the underlying capability and may not restore persistent data.'']
      else [])"

definition capabilities_of :: "registry \<Rightarrow> plan_step list \<Rightarrow> capability list" where
  "capabilities_of R steps = List.map_filter (\<lambda>st. by_id R (step_capability st)) steps"

definition hashPlan :: "host_lib \<Rightarrow> json \<Rightarrow> string" where
  "hashPlan L v = sha256 L (stableStringify L v)"

definition problem_json :: "plan_problem \<Rightarrow> json" where
  "problem_json p = JObj (opt_member ''step'' (prob_step p) @ opt_member ''path'' (prob_path p) @
     [(''message'', JStr (prob_message p))])"

definition plan_denied :: "session \<Rightarrow> plan_input \<Rightarrow> plan_problem list \<Rightarrow> string \<Rightarrow> instant \<Rightarrow> new_event" where
  "plan_denied s pin errors i t = \<lparr>ne_id = i, ne_timestamp = t, ne_session = Some (ses_id s),
     ne_actor = client_text (ses_client s), ne_operation = None, ne_type = ''plan.denied'', ne_capability = None,
     ne_target = pin_target pin, ne_summary = ''Rejected an invalid or out-of-scope plan.'',
     ne_detail = JObj [(''objective'', JStr (pin_objective pin)), (''errors'', JArr (map problem_json errors))]\<rparr>"

definition plan_created :: "session \<Rightarrow> agent_plan \<Rightarrow> string \<Rightarrow> instant \<Rightarrow> new_event" where
  "plan_created s p i t = \<lparr>ne_id = i, ne_timestamp = t, ne_session = Some (ses_id s),
     ne_actor = client_text (ses_client s), ne_operation = None, ne_type = ''plan.created'', ne_capability = None,
     ne_target = plan_target p, ne_summary = ''Created '' @ show_nat (length (plan_steps p)) @ ''-step plan.'',
     ne_detail = JObj [(''planId'', JStr (plan_id p)), (''hash'', JStr (plan_hash p)),
       (''effects'', strs (plan_estimated_effects p))]\<rparr>"

definition plan_environment_for :: "session \<Rightarrow> plan_input \<Rightarrow> environment" where
  "plan_environment_for s pin = or_default (pin_environment pin)
     (case scope_environments (ses_scope s) of [] \<Rightarrow> Staging | e # _ \<Rightarrow> e)"

text \<open>\<open>base\<close> with the id, hash, status and time stamps around it.\<close>

definition build_plan :: "host_lib \<Rightarrow> registry \<Rightarrow> session \<Rightarrow> plan_input \<Rightarrow> plan_step list \<Rightarrow> bool \<Rightarrow>
    string \<Rightarrow> instant \<Rightarrow> agent_plan" where
  "build_plan L R s pin steps requiresApproval i t =
     (let caps = capabilities_of R steps;
          base = \<lparr>plan_id = i, plan_hash = [], plan_session = ses_id s, plan_objective = trim (pin_objective pin),
            plan_status = (if requiresApproval then Plan_Awaiting else Plan_Approved),
            plan_environment = plan_environment_for s pin, plan_target = nonempty (pin_target pin), plan_steps = steps,
            plan_success_criteria = or_default (pin_success_criteria pin) [],
            plan_estimated_effects = uniq (flat_map cap_effects caps),
            plan_excluded_effects = or_default (pin_excluded_effects pin) [],
            plan_rb_available = list_all (\<lambda>c. cap_reversible c = Yes) caps,
            plan_rb_limitations = rollbackLimitations (map cap_reversible caps),
            plan_created_at = t, plan_updated_at = t\<rparr>
      in base\<lparr>plan_hash := hashPlan L (planBody base)\<rparr>)"

definition create_plan :: "host_lib \<Rightarrow> registry \<Rightarrow> session \<Rightarrow> plan_input \<Rightarrow> agent_plan act" where
  "create_plan L R s pin =
     (if pin_steps pin = [] then throw (control_failed Plan_Invalid ''A plan must contain at least one step.'')
      else andThen (gets w_safety) (\<lambda>stop.
        case check_steps R stop s (plan_environment_for s pin) 0 (pin_steps pin) of
          Inl e \<Rightarrow> throw e
        | Inr (steps, errors, requiresApproval) \<Rightarrow>
            if errors \<noteq> []
            then andThen (logEvent L (plan_denied s pin errors)) (\<lambda>_.
                   throw (control Plan_Invalid ''The proposed plan is invalid.'' Err_Failed True (Problems errors)))
            else andThen now (\<lambda>t. andThen (localId ''plan'') (\<lambda>i.
                   let p = build_plan L R s pin steps requiresApproval i t in
                   andThen (savePlan p) (\<lambda>_.
                   andThen (logEvent L (plan_created s p)) (\<lambda>_.
                   ret p))))))"

section \<open>Reading and validating a plan\<close>

definition get_plan :: "string \<Rightarrow> agent_plan act" where
  "get_plan i = andThen (getPlan i) (\<lambda>p. case p of
       None \<Rightarrow> throw (control_failed Not_Found (''Plan '' @ quoted i @ '' was not found.''))
     | Some p \<Rightarrow> ret p)"

definition list_plans :: "string option \<Rightarrow> agent_plan list act" where
  "list_plans sid = listPlans sid"

record plan_validation =
  pv_valid :: bool
  pv_requires_approval :: bool
  pv_errors :: "plan_problem list"

definition validate_plan :: "host_lib \<Rightarrow> registry \<Rightarrow> agent_plan \<Rightarrow> plan_validation" where
  "validate_plan L R p =
     (let errors =
        (if hashPlan L (planBody p) \<noteq> plan_hash p then [problem None None ''Plan content changed after it was created.''] else []) @
        flat_map (\<lambda>st. map (\<lambda>(path, m). problem (Some (step_id st)) (Some path) m)
          (fst (validate_input R (step_capability st) (step_input st)))) (plan_steps p)
      in \<lparr>pv_valid = (errors = []), pv_requires_approval = (plan_status p = Plan_Awaiting), pv_errors = errors\<rparr>)"

definition requireExecutable :: "host_lib \<Rightarrow> registry \<Rightarrow> string \<Rightarrow> string \<Rightarrow> agent_plan act" where
  "requireExecutable L R i sid = andThen (get_plan i) (\<lambda>p.
     if plan_session p \<noteq> sid
     then throw (control Scope_Denied ''The plan belongs to a different session.'' Err_Denied False No_Detail)
     else let v = validate_plan L R p in
       if \<not> pv_valid v
       then throw (control Plan_Stale ''The approved plan no longer matches its content hash.'' Err_Denied True (Problems (pv_errors v)))
       else if plan_status p \<noteq> Plan_Approved
       then throw (control Approval_Required (''Plan '' @ quoted i @ '' is '' @ plan_status_text (plan_status p) @ ''.'')
              Err_Approval_Required True No_Detail)
       else ret p)"

definition set_plan_status :: "string \<Rightarrow> plan_status \<Rightarrow> agent_plan act" where
  "set_plan_status i st = andThen (get_plan i) (\<lambda>p. andThen now (\<lambda>t.
     let updated = p\<lparr>plan_status := st, plan_updated_at := t\<rparr> in
     andThen (savePlan updated) (\<lambda>_. ret updated)))"

section \<open>What the operations do\<close>

lemma get_plan_run [action_simps]:
  "plan_at i w = Some p \<Longrightarrow> get_plan i w = (Inr p, w)"
  "plan_at i w = None \<Longrightarrow> get_plan i w =
     (Inl (control_failed Not_Found (''Plan '' @ quoted i @ '' was not found.'')), w)"
  by (simp_all add: get_plan_def andThen_def action_simps)

lemma set_plan_status_run [action_simps]:
  "plan_at i w = Some p \<Longrightarrow> set_plan_status i st w =
     (let u = p\<lparr>plan_status := st, plan_updated_at := w_now w\<rparr> in (Inr u, put_plan u w))"
  by (simp add: set_plan_status_def andThen_def action_simps Let_def)

lemma planBody_frame [simp]:
  "planBody (p\<lparr>plan_hash := h\<rparr>) = planBody p" "planBody (p\<lparr>plan_status := st\<rparr>) = planBody p"
  "planBody (p\<lparr>plan_updated_at := t\<rparr>) = planBody p" "planBody (p\<lparr>plan_id := i\<rparr>) = planBody p"
  by (simp_all add: planBody_def)

lemma validate_plan_status [simp]:
  "pv_valid (validate_plan L R (p\<lparr>plan_status := st\<rparr>)) = pv_valid (validate_plan L R p)"
  "pv_valid (validate_plan L R (p\<lparr>plan_updated_at := t\<rparr>)) = pv_valid (validate_plan L R p)"
  by (simp_all add: validate_plan_def Let_def)

lemma build_plan_hash: "plan_hash (build_plan L R s pin steps a i t) = hashPlan L (planBody (build_plan L R s pin steps a i t))"
  by (simp add: build_plan_def Let_def planBody_def)

lemma build_plan_sel [simp]:
  "plan_steps (build_plan L R s pin steps a i t) = steps" "plan_session (build_plan L R s pin steps a i t) = ses_id s"
  "plan_status (build_plan L R s pin steps a i t) = (if a then Plan_Awaiting else Plan_Approved)"
  "plan_id (build_plan L R s pin steps a i t) = i"
  "plan_environment (build_plan L R s pin steps a i t) = plan_environment_for s pin"
  by (simp_all add: build_plan_def Let_def)

text \<open>A request the policy answers for a step of the plan.\<close>

definition step_request :: "session \<Rightarrow> environment \<Rightarrow> agent_plan option \<Rightarrow> plan_step \<Rightarrow> policy_request" where
  "step_request s env p st = \<lparr>req_session = s, req_capability = step_capability st, req_input = step_input st,
     req_environment = env, req_approved_plan = p\<rparr>"

lemma only_allow_left: "e \<noteq> Deny \<Longrightarrow> e \<noteq> Approval_Needed \<Longrightarrow> e = Allow"
  by (cases e) simp_all

lemma check_step_ok:
  assumes "check_step R stop s env n st = Inr (x, [], a)"
  shows "\<not> containsSecretLikeField (JObj (step_input x)) \<and> fst (validate_input R (fst st) (or_default (snd st) [])) = [] \<and>
    step_input x = snd (validate_input R (fst st) (or_default (snd st) [])) \<and> step_capability x = fst st \<and>
    (\<exists>d. evaluate R stop (step_request s env None x) = Inr d \<and> dec_effect d = (if a then Approval_Needed else Allow))"
  using assms
  by (auto simp: check_step_def step_request_def Let_def describe_id intro: only_allow_left split: sum.splits prod.splits if_splits)

lemma check_steps_ok:
  assumes "check_steps R stop s env n sts = Inr (xs, [], a)"
  shows "length xs = length sts \<and> (a \<longleftrightarrow> (\<exists>x \<in> set xs. \<exists>d. evaluate R stop (step_request s env None x) = Inr d \<and> dec_effect d = Approval_Needed)) \<and>
    (\<forall>x \<in> set xs. \<not> containsSecretLikeField (JObj (step_input x)) \<and>
       (\<exists>d. evaluate R stop (step_request s env None x) = Inr d \<and> dec_effect d \<noteq> Deny))"
  using assms
proof (induction sts arbitrary: n xs a)
  case Nil
  then show ?case by simp
next
  case (Cons st sts)
  obtain x b ys c where x: "check_step R stop s env n st = Inr (x, [], b)"
    and ys: "check_steps R stop s env (n + 1) sts = Inr (ys, [], c)" and xs: "xs = x # ys" "a \<longleftrightarrow> b \<or> c"
    using Cons.prems by (auto split: sum.splits prod.splits)
  from check_step_ok[OF x] obtain d where d: "evaluate R stop (step_request s env None x) = Inr d"
    "dec_effect d = (if b then Approval_Needed else Allow)" "\<not> containsSecretLikeField (JObj (step_input x))" by blast
  show ?case using Cons.IH[OF ys] d by (auto simp: xs)
qed

text \<open>What a created plan is stored as.\<close>

lemma create_plan_stored:
  assumes "create_plan L R s pin w = (Inr p, w')"
  shows "plan_session p = ses_id s" and "plan_hash p = hashPlan L (planBody p)" and "plan_at (plan_id p) w' = Some (redact_plan p)"
proof -
  obtain xs a where p: "p = build_plan L R s pin xs a (local_id ''plan'' (w_next w)) (w_now w)"
    and w': "w' = logged L (plan_created s p) (put_plan p (w\<lparr>w_next := Suc (w_next w)\<rparr>))"
    using assms
    by (auto simp: create_plan_def andThen_run action_simps Let_def split: if_splits sum.splits prod.splits)
  show "plan_hash p = hashPlan L (planBody p)" using build_plan_hash p by blast
  show "plan_session p = ses_id s" by (simp add: p)
  show "plan_at (plan_id p) w' = Some (redact_plan p)" by (simp add: w' plans.get_put)
qed

text \<open>
  C3: a plan is created only when every step of it is known, carries no secret-like field and is
  not denied by the policy in the plan's environment; it waits for an approval exactly when the
  policy asks one for some step, and it is stored under the hash of its own content.
\<close>

theorem create_plan_sound:
  assumes "create_plan L R s pin w = (Inr p, w')"
  shows "plan_steps p \<noteq> [] \<and> plan_session p = ses_id s \<and> plan_hash p = hashPlan L (planBody p) \<and>
    (\<forall>x \<in> set (plan_steps p). \<not> containsSecretLikeField (JObj (step_input x)) \<and>
       (\<exists>d. evaluate R (w_safety w) (step_request s (plan_environment p) None x) = Inr d \<and> dec_effect d \<noteq> Deny)) \<and>
    (plan_status p = Plan_Awaiting \<longleftrightarrow>
       (\<exists>x \<in> set (plan_steps p). \<exists>d. evaluate R (w_safety w) (step_request s (plan_environment p) None x) = Inr d \<and>
          dec_effect d = Approval_Needed)) \<and>
    (plan_status p = Plan_Awaiting \<or> plan_status p = Plan_Approved) \<and>
    plan_at (plan_id p) w' = Some (redact_plan p)"
proof -
  obtain xs a where xs: "check_steps R (w_safety w) s (plan_environment_for s pin) 0 (pin_steps pin) = Inr (xs, [], a)"
    and p: "p = build_plan L R s pin xs a (local_id ''plan'' (w_next w)) (w_now w)"
    and ne: "pin_steps pin \<noteq> []"
    using assms
    by (auto simp: create_plan_def andThen_run action_simps Let_def split: if_splits sum.splits prod.splits)
  note hash = create_plan_stored(2)[OF assms] and at = create_plan_stored(3)[OF assms]
  have sel: "plan_steps p = xs" "plan_session p = ses_id s" "plan_environment p = plan_environment_for s pin"
    "plan_status p = (if a then Plan_Awaiting else Plan_Approved)" by (simp_all add: p)
  have ok: "length xs = length (pin_steps pin)" using check_steps_ok[OF xs] by blast
  then have "xs \<noteq> []" using ne by (metis length_0_conv)
  then show ?thesis
    using check_steps_ok[OF xs] unfolding sel hash[symmetric] by (simp add: at)
qed

text \<open>
  A plan that is refused leaves no plan behind: the only trace is the audit event.
\<close>

theorem refused_plan_not_stored:
  assumes "create_plan L R s pin w = (Inl e, w')"
  shows "w_plans w' = w_plans w \<and> w_sessions w' = w_sessions w \<and> w_approvals w' = w_approvals w \<and>
    w_operations w' = w_operations w"
  using assms
  by (auto simp: create_plan_def andThen_run action_simps Let_def split: if_splits sum.splits prod.splits)

section \<open>What may be executed\<close>

text \<open>The plan that may be executed is the stored one, valid, approved and the session's own.\<close>

lemma requireExecutable_plan:
  assumes "requireExecutable L R i sid w = (Inr p, w')"
  shows "w' = w \<and> plan_at i w = Some p \<and> plan_session p = sid \<and> plan_status p = Plan_Approved \<and> pv_valid (validate_plan L R p)"
  using assms
  by (cases "plan_at i w") (auto simp: requireExecutable_def andThen_run action_simps Let_def split: if_splits)

text \<open>
  C4: a plan is executable only for the session it was made for, when it is approved, when every
  step's input is still valid, and when its stored hash is the hash of its stored content.
\<close>

theorem requireExecutable_sound:
  assumes "requireExecutable L R i sid w = (Inr p, w')"
  shows "w' = w \<and> plan_at i w = Some p \<and> plan_session p = sid \<and> plan_status p = Plan_Approved \<and>
    plan_hash p = hashPlan L (planBody p) \<and>
    (\<forall>st \<in> set (plan_steps p). fst (validate_input R (step_capability st) (step_input st)) = [])"
  using requireExecutable_plan[OF assms] by (auto simp: validate_plan_def Let_def flat_map_def split: if_splits)

text \<open>The SHA-256 of two different renderings differ.\<close>

definition no_collision :: "host_lib \<Rightarrow> json \<Rightarrow> json \<Rightarrow> bool" where
  "no_collision L v u \<longleftrightarrow> (hashPlan L v = hashPlan L u \<longrightarrow> stableStringify L v = stableStringify L u)"

text \<open>
  A plan whose content was changed after it was hashed is refused as stale, unless the change
  is one the sorted rendering does not show.
\<close>

lemma tampered_plan_refused:
  assumes "good_nums L" and "no_collision L (planBody q) (planBody p)" and "plan_at i w = Some q" and "plan_session q = sid"
    and "plan_hash q = hashPlan L (planBody p)" and "canon (locale_le L) (planBody q) \<noteq> canon (locale_le L) (planBody p)"
  shows "requireExecutable L R i sid w =
    (Inl (control Plan_Stale ''The approved plan no longer matches its content hash.'' Err_Denied True
       (Problems (pv_errors (validate_plan L R q)))), w)"
proof -
  have "hashPlan L (planBody q) \<noteq> plan_hash q"
    using stableStringify_inj[OF assms(1), of "planBody q" "planBody p"] assms(2,6)
    unfolding assms(5) no_collision_def by blast
  then have "\<not> pv_valid (validate_plan L R q)" by (simp add: validate_plan_def Let_def)
  then show ?thesis using assms(3,4) by (simp add: requireExecutable_def andThen_run action_simps Let_def)
qed

text \<open>
  The hash is taken before the store redacts the plan. A plan that is created with a text
  redaction rewrites (a bearer token or a credential in a URL, in the objective, a step's input or
  a criterion) is stored changed, and can never be executed: it is stale from the start.
\<close>

theorem redacted_plan_stale:
  assumes "good_nums L" and "no_collision L (redact None (planBody p)) (planBody p)" and "create_plan L R s pin w = (Inr p, w')"
    and "clean (ses_id s)" and "clean (plan_hash p)"
    and "canon (locale_le L) (redact None (planBody p)) \<noteq> canon (locale_le L) (planBody p)"
  shows "requireExecutable L R (plan_id p) (ses_id s) w' =
    (Inl (control Plan_Stale ''The approved plan no longer matches its content hash.'' Err_Denied True
       (Problems (pv_errors (validate_plan L R (redact_plan p))))), w')"
proof -
  have p: "plan_at (plan_id p) w' = Some (redact_plan p)" "plan_session p = ses_id s" "plan_hash p = hashPlan L (planBody p)"
    using create_plan_stored[OF assms(3)] by auto
  show ?thesis
    using assms(2,4-6) p
    by (intro tampered_plan_refused[OF assms(1) _ p(1), of p])
      (simp_all add: redact_plan_def flip: planBody_redact)
qed

end
