(* ===== verification/Safety_Verification.thy ===== *)
theory Safety_Verification
  imports Agent_Store
begin

text \<open>
  The emergency stop (src/src/agent-control/agent-safety-state.ts), which lives in memory and
  in the settings table, and the verdict an operation carries (verification.ts).
\<close>

section \<open>Emergency stop\<close>

definition inactive_stop :: emergency_stop where
  "inactive_stop = \<lparr>stop_active = False, stop_activated_at = None, stop_activated_by = None, stop_reason = None,
     stop_cleared_at = None, stop_cleared_by = None\<rparr>"

definition set_safety :: "emergency_stop \<Rightarrow> unit act" where
  "set_safety v = modify (\<lambda>w. w\<lparr>w_safety := v\<rparr>)"

definition onModuleInit :: "unit act" where
  "onModuleInit = andThen getSetting (\<lambda>v. set_safety (case v of None \<Rightarrow> inactive_stop | Some x \<Rightarrow> x))"

definition current :: "emergency_stop act" where
  "current = gets w_safety"

definition opt_instant :: "string \<Rightarrow> instant option \<Rightarrow> (string \<times> json) list" where
  "opt_instant k v = (case v of None \<Rightarrow> [] | Some t \<Rightarrow> [(k, JStr (iso_string t))])"

definition stop_json :: "emergency_stop \<Rightarrow> json" where
  "stop_json v = JObj ([(''active'', JBool (stop_active v))] @ opt_instant ''activatedAt'' (stop_activated_at v) @
     opt_member ''activatedBy'' (stop_activated_by v) @ opt_member ''reason'' (stop_reason v) @
     opt_instant ''clearedAt'' (stop_cleared_at v) @ opt_member ''clearedBy'' (stop_cleared_by v))"

definition safety_event :: "emergency_stop \<Rightarrow> string \<Rightarrow> string \<Rightarrow> string \<Rightarrow> string \<Rightarrow> instant \<Rightarrow> new_event" where
  "safety_event v eventType actor summary i t = \<lparr>ne_id = i, ne_timestamp = t, ne_session = None, ne_actor = actor,
     ne_operation = None, ne_type = eventType, ne_capability = None, ne_target = None, ne_summary = summary,
     ne_detail = stop_json v\<rparr>"

definition record_stop :: "host_lib \<Rightarrow> emergency_stop \<Rightarrow> string \<Rightarrow> string \<Rightarrow> string \<Rightarrow> emergency_stop act" where
  "record_stop L v eventType actor summary = andThen (set_safety v) (\<lambda>_. andThen (setSetting v) (\<lambda>_.
     andThen (logEvent L (safety_event v eventType actor summary)) (\<lambda>_. current)))"

definition activate :: "host_lib \<Rightarrow> string \<Rightarrow> string \<Rightarrow> emergency_stop act" where
  "activate L actor reason = andThen current (\<lambda>v.
     if stop_active v then current
     else andThen now (\<lambda>t. record_stop L
       \<lparr>stop_active = True, stop_activated_at = Some t, stop_activated_by = Some actor,
        stop_reason = Some (take 500 reason), stop_cleared_at = None, stop_cleared_by = None\<rparr>
       ''agent.emergency_stop.activated'' actor ''Agent emergency stop activated.''))"

definition clear_stop :: "host_lib \<Rightarrow> string \<Rightarrow> string \<Rightarrow> emergency_stop act" where
  "clear_stop L actor reason = andThen current (\<lambda>v. andThen now (\<lambda>t. record_stop L
     \<lparr>stop_active = False, stop_activated_at = stop_activated_at v, stop_activated_by = stop_activated_by v,
      stop_reason = stop_reason v, stop_cleared_at = Some t, stop_cleared_by = Some actor\<rparr>
     ''agent.emergency_stop.cleared'' actor (''Agent emergency stop cleared: '' @ take 240 reason)))"

lemma record_stop_run:
  "record_stop L v ty actor sm w =
     (Inr v, logged L (safety_event v ty actor sm) (w\<lparr>w_safety := v,
        w_setting := Some (v\<lparr>stop_activated_by := map_option redact_str (stop_activated_by v),
          stop_reason := map_option redact_str (stop_reason v), stop_cleared_by := map_option redact_str (stop_cleared_by v)\<rparr>)\<rparr>))"
  by (simp add: record_stop_def set_safety_def setSetting_def current_def andThen_def action_simps)

lemma logged_setting [simp]: "w_setting (logged L mk w) = w_setting w"
  by (simp add: logged_def)

text \<open>
  the emergency stop is in force in memory from the moment it is activated and survives a
  restart: what is loaded from the settings table is active exactly when the stop in memory was,
  after activating it and after clearing it. Activating it twice changes nothing.
\<close>

theorem stop_persists:
  "(\<exists>v w'. activate L actor reason w = (Inr v, w') \<and> stop_active v \<and> stop_active (w_safety w') \<and>
      (\<not> stop_active (w_safety w) \<longrightarrow> stop_active (w_safety (snd (onModuleInit w')))) \<and>
      (stop_active (w_safety w) \<longrightarrow> w' = w)) \<and>
   (\<exists>v w'. clear_stop L actor reason w = (Inr v, w') \<and> \<not> stop_active (w_safety w') \<and>
      \<not> stop_active (w_safety (snd (onModuleInit w'))))"
  by (simp add: activate_def clear_stop_def record_stop_run current_def onModuleInit_def set_safety_def
      getSetting_def andThen_def action_simps)

section \<open>Verification of an operation\<close>

definition VERIFYING_CAPABILITIES :: "string list" where
  "VERIFYING_CAPABILITIES = [''healthcheck.run'']"

text \<open>The lookup table \<open>VERDICT\<close>, with the default for a text it does not hold.\<close>

definition VERDICT :: "string \<Rightarrow> verdict" where
  "VERDICT s = (if s = ''healthy'' then Passed else if s = ''degraded'' then Degraded else Not_Verified)"

definition record_of :: "json \<Rightarrow> (string \<times> json) list option" where
  "record_of v = (case v of JObj kvs \<Rightarrow> Some kvs | _ \<Rightarrow> None)"

definition text_field :: "string \<Rightarrow> json \<Rightarrow> string option" where
  "text_field k v = (case record_of v of None \<Rightarrow> None | Some kvs \<Rightarrow>
     (case member k kvs of Some (JStr s) \<Rightarrow> Some s | _ \<Rightarrow> None))"

definition reportStatus :: "json \<Rightarrow> string" where
  "reportStatus output = (case text_field ''status'' output of Some s \<Rightarrow> s | None \<Rightarrow> ''unknown'')"

definition failedCheckNames :: "json \<Rightarrow> string list" where
  "failedCheckNames output = (case Option.bind (record_of output) (member ''checks'') of
       Some (JArr checks) \<Rightarrow> map (\<lambda>c. case text_field ''name'' c of Some n \<Rightarrow> n | None \<Rightarrow> ''check'')
         (filter (\<lambda>c. text_field ''status'' c = Some ''fail'') checks)
     | _ \<Rightarrow> [])"

definition verification_checks :: "step_result list \<Rightarrow> check list" where
  "verification_checks results = map (\<lambda>r. \<lparr>chk_capability = res_capability r, chk_step = res_step r,
       chk_status = reportStatus (res_output r), chk_failed = failedCheckNames (res_output r)\<rparr>)
     (filter (\<lambda>r. res_capability r \<in> set VERIFYING_CAPABILITIES) results)"

definition summariseVerification :: "step_result list \<Rightarrow> verification" where
  "summariseVerification results =
     (let checks = verification_checks results; verdicts = map (\<lambda>c. VERDICT (chk_status c)) checks
      in \<lparr>ver_status =
            (if checks = [] then Not_Verified
             else if list_ex (\<lambda>c. chk_failed c \<noteq> []) checks then Degraded
             else if Degraded \<in> set verdicts then Degraded
             else if Not_Verified \<in> set verdicts then Not_Verified
             else Passed),
          ver_checks = checks\<rparr>)"

lemma VERDICT_passed [simp]: "VERDICT s = Passed \<longleftrightarrow> s = ''healthy''"
  by (simp add: VERDICT_def)

lemma VERDICT_not_failed [simp]: "VERDICT s \<noteq> Verdict_Failed"
  by (simp add: VERDICT_def)

lemma all_passed: "list_all (\<lambda>v. v = Passed) vs \<longleftrightarrow> Degraded \<notin> set vs \<and> Not_Verified \<notin> set vs"
  if "Verdict_Failed \<notin> set vs" for vs :: "verdict list"
  using that by (induction vs) (auto intro: verdict.exhaust)

lemma summary_status:
  "ver_status (summariseVerification rs) = Passed \<longleftrightarrow> verification_checks rs \<noteq> [] \<and>
     list_all (\<lambda>c. chk_failed c = [] \<and> chk_status c = ''healthy'') (verification_checks rs)"
proof -
  let ?vs = "map (\<lambda>c. VERDICT (chk_status c)) (verification_checks rs)"
  have "Verdict_Failed \<notin> set ?vs" by (auto simp: image_iff eq_commute[of Verdict_Failed])
  note passed = all_passed[OF this]
  show ?thesis
    using passed by (auto simp: summariseVerification_def Let_def list_ex_iff list_all_iff)
qed

text \<open>
  an operation reports \<open>passed\<close> exactly when it ran a health check and every one it ran
  answered \<open>healthy\<close> with no failing check; a failing check is never hidden by a healthy one.
\<close>

theorem verification_passed_iff:
  "ver_status (summariseVerification rs) = Passed \<longleftrightarrow>
     (\<exists>r \<in> set rs. res_capability r = ''healthcheck.run'') \<and>
     (\<forall>r \<in> set rs. res_capability r = ''healthcheck.run'' \<longrightarrow>
        reportStatus (res_output r) = ''healthy'' \<and> failedCheckNames (res_output r) = [])"
proof -
  have H: "res_capability r \<in> set VERIFYING_CAPABILITIES \<longleftrightarrow> res_capability r = ''healthcheck.run''" for r
    by (simp add: VERIFYING_CAPABILITIES_def)
  show ?thesis
    unfolding summary_status verification_checks_def H by (auto simp: list_all_iff filter_empty_conv)
qed

end
