(* ===== verification/Action_Broker.thy ===== *)
theory Action_Broker
  imports Approval_Manager Operation_Manager Plan_Engine Safety_Verification
begin

text \<open>
  The action broker (src/src/agent-control/action-broker.ts): what a coding agent reaches. It
  authenticates the token, turns a request into a plan, waits for the approval the policy asks
  for, and runs the plan's steps one by one. The executor of the capabilities is an argument:
  it may change anything, which covers what other clients do while a step runs.
\<close>

section \<open>Entry points up to the execution\<close>

record exec_context =
  ctx_session :: session
  ctx_plan :: agent_plan
  ctx_operation :: string

type_synonym executor = "string \<Rightarrow> (string \<times> json) list \<Rightarrow> exec_context \<Rightarrow> json act"

definition broker_create_plan :: "host_lib \<Rightarrow> registry \<Rightarrow> string option \<Rightarrow> plan_input \<Rightarrow> (agent_plan \<times> approval option) act" where
  "broker_create_plan L R token pin = andThen (authenticate L token) (\<lambda>s.
     andThen (create_plan L R s pin) (\<lambda>p.
     if plan_status p = Plan_Awaiting
     then andThen (requestForPlan L p (''Approve: '' @ plan_objective p)) (\<lambda>a. ret (p, Some a))
     else ret (p, None)))"

definition broker_validate_plan :: "host_lib \<Rightarrow> registry \<Rightarrow> string option \<Rightarrow> string \<Rightarrow> (agent_plan \<times> plan_validation) act" where
  "broker_validate_plan L R token pid = andThen (authenticate L token) (\<lambda>s.
     andThen (get_plan pid) (\<lambda>p.
     if plan_session p \<noteq> ses_id s
     then throw (control Scope_Denied ''The plan belongs to a different session.'' Err_Denied False No_Detail)
     else ret (p, validate_plan L R p)))"

record expansion_input =
  xp_capability :: string
  xp_reason :: string
  xp_target :: "string option"
  xp_environment :: "environment option"

definition broker_request_scope :: "host_lib \<Rightarrow> registry \<Rightarrow> string option \<Rightarrow> expansion_input \<Rightarrow> approval act" where
  "broker_request_scope L R token x = andThen (authenticate L token) (\<lambda>s.
     case describe R (xp_capability x) of Inl e \<Rightarrow> throw e | Inr c \<Rightarrow>
       request_scope_expansion L \<lparr>sr_session = ses_id s, sr_capability = xp_capability x, sr_reason = xp_reason x,
         sr_risk = cap_risk c, sr_target = xp_target x, sr_environment = xp_environment x,
         sr_effects = Some (cap_effects c), sr_reversible = Some (cap_reversible c)\<rparr>)"

section \<open>Executing a plan\<close>

definition requireStepAllowed :: "registry \<Rightarrow> emergency_stop \<Rightarrow> session \<Rightarrow> agent_plan \<Rightarrow> plan_step \<Rightarrow> exn + unit" where
  "requireStepAllowed R stop s p st =
     (case evaluate R stop (step_request s (plan_environment p) (Some (p\<lparr>plan_status := Plan_Approved\<rparr>)) st) of
        Inl e \<Rightarrow> Inl e
      | Inr d \<Rightarrow>
          if dec_effect d = Allow then Inr ()
          else if dec_effect d = Approval_Needed
          then Inl (control Approval_Required (dec_reason d) Err_Approval_Required True No_Detail)
          else Inl (control Scope_Denied (dec_reason d) Err_Denied True No_Detail))"

definition asControlError :: "exn \<Rightarrow> control_error" where
  "asControlError e = (case e of
       Control c \<Rightarrow> c
     | Js_Error m \<Rightarrow> \<lparr>err_code = Operation_Failed, err_message = m, err_status = Err_Failed,
                      err_recoverable = True, err_detail = No_Detail\<rparr>)"

definition step_succeeded :: "session \<Rightarrow> agent_plan \<Rightarrow> string \<Rightarrow> plan_step \<Rightarrow> string \<Rightarrow> instant \<Rightarrow> new_event" where
  "step_succeeded s p opid st i t = \<lparr>ne_id = i, ne_timestamp = t, ne_session = Some (ses_id s),
     ne_actor = client_text (ses_client s), ne_operation = Some opid, ne_type = ''operation.step_succeeded'',
     ne_capability = Some (step_capability st), ne_target = plan_target p,
     ne_summary = step_id st @ '' '' @ step_capability st @ '' succeeded.'',
     ne_detail = JObj [(''step'', JStr (step_id st))]\<rparr>"

text \<open>The loop of the steps: it ends with all results, or with the operation it found cancelled.\<close>

fun run_steps :: "host_lib \<Rightarrow> registry \<Rightarrow> executor \<Rightarrow> session \<Rightarrow> agent_plan \<Rightarrow> string \<Rightarrow> plan_step list \<Rightarrow>
    step_result list \<Rightarrow> (operation + step_result list) act" where
  "run_steps L R exec s p opid [] results = ret (Inr results)"
| "run_steps L R exec s p opid (st # sts) results = andThen (shouldCancel opid) (\<lambda>cancelled.
     if cancelled
     then andThen (transition L opid Op_Cancelled no_patch) (\<lambda>_.
          andThen (set_plan_status (plan_id p) Plan_Cancelled) (\<lambda>_.
          andThen (get_operation opid) (\<lambda>q. ret (Inl q))))
     else andThen current (\<lambda>stop.
       case requireStepAllowed R stop s p st of Inl e \<Rightarrow> throw e | Inr _ \<Rightarrow>
       andThen (transition L opid Op_Running (no_patch\<lparr>pt_current_step := Some (step_id st),
                  pt_capability := Some (step_capability st)\<rparr>)) (\<lambda>_.
       andThen (exec (step_capability st) (step_input st)
                  \<lparr>ctx_session = s, ctx_plan = p, ctx_operation = opid\<rparr>) (\<lambda>output.
       andThen (logEvent L (step_succeeded s p opid st)) (\<lambda>_.
       run_steps L R exec s p opid sts
         (results @ [\<lparr>res_step = step_id st, res_capability = step_capability st, res_output = redact None output\<rparr>]))))))"

definition run_plan :: "host_lib \<Rightarrow> registry \<Rightarrow> executor \<Rightarrow> session \<Rightarrow> agent_plan \<Rightarrow> string \<Rightarrow> operation act" where
  "run_plan L R exec s p opid =
     andThen (run_steps L R exec s p opid (plan_steps p) []) (\<lambda>e. case e of
       Inl q \<Rightarrow> ret q
     | Inr results \<Rightarrow>
         andThen (transition L opid Op_Verifying no_patch) (\<lambda>_.
         andThen (transition L opid Op_Succeeded (no_patch\<lparr>pt_result := Some results,
                    pt_verification := Some (summariseVerification results)\<rparr>)) (\<lambda>succeeded.
         andThen (set_plan_status (plan_id p) Plan_Succeeded) (\<lambda>_. ret succeeded))))"

definition fail_run :: "host_lib \<Rightarrow> agent_plan \<Rightarrow> string \<Rightarrow> exn \<Rightarrow> operation act" where
  "fail_run L p opid e = (let c = asControlError e in
     andThen (transition L opid Op_Failed (no_patch\<lparr>pt_error := Some \<lparr>operr_code = error_code_text (err_code c),
                operr_message = err_message c, operr_recoverable = err_recoverable c\<rparr>\<rparr>)) (\<lambda>_.
     andThen (set_plan_status (plan_id p) Plan_Failed) (\<lambda>_.
     throw (Control c))))"

definition start_operation :: "host_lib \<Rightarrow> registry \<Rightarrow> executor \<Rightarrow> session \<Rightarrow> agent_plan \<Rightarrow> operation act" where
  "start_operation L R exec s p =
     andThen (create_operation L (ses_id s) (plan_id p) (plan_rb_available p)) (\<lambda>q.
     andThen (incrementOperation (ses_id s)) (\<lambda>_.
     andThen (set_plan_status (plan_id p) Plan_Running) (\<lambda>_.
     andThen (transition L (op_id q) Op_Running no_patch) (\<lambda>_.
     catching (run_plan L R exec s p (op_id q)) (fail_run L p (op_id q))))))"

definition executePlanForSession :: "host_lib \<Rightarrow> registry \<Rightarrow> executor \<Rightarrow> session \<Rightarrow> string \<Rightarrow> operation act" where
  "executePlanForSession L R exec s pid = andThen (get_plan pid) (\<lambda>p0.
     if plan_session p0 \<noteq> ses_id s
     then throw (control Scope_Denied ''The plan belongs to a different session.'' Err_Denied False No_Detail)
     else andThen (if plan_status p0 = Plan_Awaiting
         then andThen (requireApprovedForPlan (plan_id p0)) (\<lambda>_. set_plan_status (plan_id p0) Plan_Approved)
         else ret p0) (\<lambda>p1.
     andThen (requireExecutable L R (plan_id p1) (ses_id s)) (start_operation L R exec s)))"

definition executePlan :: "host_lib \<Rightarrow> registry \<Rightarrow> executor \<Rightarrow> string option \<Rightarrow> string \<Rightarrow> operation act" where
  "executePlan L R exec token pid = andThen (authenticate L token) (\<lambda>s. executePlanForSession L R exec s pid)"

record invoke_options =
  io_objective :: "string option"
  io_environment :: "environment option"
  io_target :: "string option"

record invocation =
  inv_plan :: agent_plan
  inv_approval :: "approval option"
  inv_operation :: "operation option"

definition invoke :: "host_lib \<Rightarrow> registry \<Rightarrow> executor \<Rightarrow> string option \<Rightarrow> string \<Rightarrow> (string \<times> json) list \<Rightarrow>
    invoke_options \<Rightarrow> invocation act" where
  "invoke L R exec token capability input opts = andThen (authenticate L token) (\<lambda>s.
     andThen (create_plan L R s \<lparr>pin_objective = or_default (io_objective opts) (''Run '' @ capability),
         pin_environment = io_environment opts, pin_target = io_target opts, pin_steps = [(capability, Some input)],
         pin_success_criteria = None, pin_excluded_effects = None\<rparr>) (\<lambda>p.
     if plan_status p = Plan_Awaiting
     then andThen (requestForPlan L p (''Approve '' @ capability @ ''.'')) (\<lambda>a.
          ret \<lparr>inv_plan = p, inv_approval = Some a, inv_operation = None\<rparr>)
     else andThen (executePlanForSession L R exec s (plan_id p)) (\<lambda>q.
          ret \<lparr>inv_plan = p, inv_approval = None, inv_operation = Some q\<rparr>)))"

section \<open>The executor is called within the policy only\<close>

definition policy_allows :: "registry \<Rightarrow> emergency_stop \<Rightarrow> session \<Rightarrow> agent_plan \<Rightarrow> string \<Rightarrow> (string \<times> json) list \<Rightarrow> bool" where
  "policy_allows R stop s p c input \<longleftrightarrow>
     (case evaluate R stop \<lparr>req_session = s, req_capability = c, req_input = input, req_environment = plan_environment p,
        req_approved_plan = Some (p\<lparr>plan_status := Plan_Approved\<rparr>)\<rparr> of
        Inl e \<Rightarrow> False | Inr d \<Rightarrow> dec_effect d = Allow)"

lemma requireStepAllowed_iff:
  "requireStepAllowed R stop s p st = Inr () \<longleftrightarrow> policy_allows R stop s p (step_capability st) (step_input st)"
  by (auto simp: requireStepAllowed_def policy_allows_def step_request_def split: sum.splits)

lemma andThen_cong_run:
  "(\<And>x w'. m w = (Inr x, w') \<Longrightarrow> f x w' = g x w') \<Longrightarrow> andThen m f w = andThen m g w"
  by (auto simp: andThen_def split: prod.splits sum.splits)

lemma transition_safety: "transition L i st p w = (r, w') \<Longrightarrow> w_safety w' = w_safety w"
proof (cases "operation_at i w")
  case None
  then show "transition L i st p w = (r, w') \<Longrightarrow> w_safety w' = w_safety w"
    by (auto simp: transition_def andThen_def action_simps)
next
  case (Some q)
  then show "transition L i st p w = (r, w') \<Longrightarrow> w_safety w' = w_safety w"
    by (auto simp: transition_run moved_def Let_def split: if_splits)
qed

lemma current_run [action_simps]: "current w = (Inr (w_safety w), w)"
  by (simp add: current_def action_simps)

lemma run_steps_within:
  assumes agree: "\<And>c input w. policy_allows R (w_safety w) s p c input \<Longrightarrow>
      exec c input \<lparr>ctx_session = s, ctx_plan = p, ctx_operation = opid\<rparr> w =
      exec' c input \<lparr>ctx_session = s, ctx_plan = p, ctx_operation = opid\<rparr> w"
  shows "run_steps L R exec s p opid sts rs w = run_steps L R exec' s p opid sts rs w"
proof (induction sts arbitrary: rs w)
  case Nil
  then show ?case by simp
next
  case (Cons st sts)
  let ?ctx = "\<lparr>ctx_session = s, ctx_plan = p, ctx_operation = opid\<rparr>"
  let ?rest = "\<lambda>ex. andThen (ex (step_capability st) (step_input st) ?ctx) (\<lambda>output.
       andThen (logEvent L (step_succeeded s p opid st)) (\<lambda>_. run_steps L R ex s p opid sts
         (rs @ [\<lparr>res_step = step_id st, res_capability = step_capability st, res_output = redact None output\<rparr>])))"
  have rest: "?rest exec w1 = ?rest exec' w1"
    if "policy_allows R (w_safety w1) s p (step_capability st) (step_input st)" for w1
    unfolding andThen_def agree[OF that] Cons.IH ..
  have body: "(case requireStepAllowed R (w_safety w0) s p st of Inl e \<Rightarrow> throw e
      | Inr _ \<Rightarrow> andThen (transition L opid Op_Running (no_patch\<lparr>pt_current_step := Some (step_id st),
                  pt_capability := Some (step_capability st)\<rparr>)) (\<lambda>_. ?rest exec)) w0 =
    (case requireStepAllowed R (w_safety w0) s p st of Inl e \<Rightarrow> throw e
      | Inr _ \<Rightarrow> andThen (transition L opid Op_Running (no_patch\<lparr>pt_current_step := Some (step_id st),
                  pt_capability := Some (step_capability st)\<rparr>)) (\<lambda>_. ?rest exec')) w0" for w0
  proof (cases "requireStepAllowed R (w_safety w0) s p st")
    case (Inr u)
    then have "policy_allows R (w_safety w0) s p (step_capability st) (step_input st)"
      by (simp flip: requireStepAllowed_iff)
    then show ?thesis unfolding Inr sum.case
      by (intro andThen_cong_run rest) (simp add: transition_safety)
  qed simp
  show ?case
    unfolding run_steps.simps
    by (rule andThen_cong_run)
      (simp only: if_distrib[of "\<lambda>f. f _"] andThen_run(2)[OF current_run] body cong: if_cong)
qed

text \<open>
  C1: the broker hands the executor nothing the policy does not allow at that moment. Two
  executors that agree wherever the policy allows the capability and its input, for the session that
  was authenticated and under the emergency stop as it is when the step starts, give the same run.
\<close>

theorem executor_within_policy:
  assumes "\<And>c input ctx w. policy_allows R (w_safety w) (ctx_session ctx) (ctx_plan ctx) c input \<Longrightarrow>
      exec c input ctx w = exec' c input ctx w"
  shows "executePlan L R exec token pid w = executePlan L R exec' token pid w"
proof -
  have steps: "run_steps L R exec s p opid sts rs = run_steps L R exec' s p opid sts rs" for s p opid sts rs
    using run_steps_within[of R s p exec opid exec' L sts rs] assms by (auto simp: fun_eq_iff)
  show ?thesis
    unfolding executePlan_def executePlanForSession_def start_operation_def run_plan_def steps ..
qed

text \<open>
  while the emergency stop is active no step that changes anything reaches the executor,
  whatever the session was granted and the plan was approved for.
\<close>

theorem stop_blocks_mutations:
  assumes "describe R c = Inr d" and "cap_access d \<noteq> Read" and "stop_active stop"
  shows "\<not> policy_allows R stop s p c input"
  using assms by (simp add: policy_allows_def evaluate_def decision_def)

section \<open>How an execution ends\<close>

text \<open>
  What the broker relies on: the executor leaves the operations and plans to it. \<open>I\<close> is
  whatever the executor needs of the state and keeps; the broker's own writes keep it too.
\<close>

locale framed_executor =
  fixes exec :: executor and I :: "world \<Rightarrow> bool"
  assumes I_logged: "I w \<Longrightarrow> I (logged L mk w)"
    and I_operation: "I w \<Longrightarrow> I (put_operation q w)"
    and I_plan: "I w \<Longrightarrow> I (put_plan p w)"
    and I_session: "I w \<Longrightarrow> session_at (ses_id s) w \<noteq> None \<Longrightarrow> clean (ses_id s) \<Longrightarrow> I (put_session s w)"
    and I_next: "I w \<Longrightarrow> I (w\<lparr>w_next := n\<rparr>)"
    and I_keys: "I w \<Longrightarrow> session_at k w = Some s \<Longrightarrow> ses_id s = k \<and> clean k"
    and frame: "I w \<Longrightarrow> exec c input ctx w = (r, w') \<Longrightarrow>
      I w' \<and> (\<forall>k. operation_at k w' = operation_at k w) \<and> (\<forall>k. plan_at k w' = plan_at k w)"

definition running :: "string \<Rightarrow> world \<Rightarrow> bool" where
  "running opid w \<longleftrightarrow> (\<exists>q. operation_at opid w = Some q \<and> op_id q = opid \<and> clean opid \<and>
     op_state q = Op_Running \<and> \<not> op_cancel_requested q)"

lemma running_cong: "(\<And>k. operation_at k w' = operation_at k w) \<Longrightarrow> running opid w' = running opid w"
  by (simp add: running_def)

lemma running_step:
  assumes "running opid w"
  shows "shouldCancel opid w = (Inr False, w)" and "\<exists>q. transition L opid Op_Running pt w = (Inr q, w)"
  using assms by (auto simp: running_def shouldCancel_def andThen_run action_simps transition_run)

lemma run_steps_running:
  assumes "running opid w"
  shows "run_steps L R exec s p opid (st # sts) rs w =
    (case requireStepAllowed R (w_safety w) s p st of Inl e \<Rightarrow> (Inl e, w)
     | Inr _ \<Rightarrow> andThen (exec (step_capability st) (step_input st) \<lparr>ctx_session = s, ctx_plan = p, ctx_operation = opid\<rparr>)
        (\<lambda>output. andThen (logEvent L (step_succeeded s p opid st)) (\<lambda>_. run_steps L R exec s p opid sts
         (rs @ [\<lparr>res_step = step_id st, res_capability = step_capability st, res_output = redact None output\<rparr>]))) w)"
proof -
  obtain q where q: "transition L opid Op_Running (no_patch\<lparr>pt_current_step := Some (step_id st),
      pt_capability := Some (step_capability st)\<rparr>) w = (Inr q, w)" using running_step(2)[OF assms] by blast
  show ?thesis
    unfolding run_steps.simps andThen_run(2)[of "shouldCancel opid" w False w, OF running_step(1)[OF assms]] if_False
      andThen_run(2)[of current w "w_safety w" w, OF current_run]
    by (cases "requireStepAllowed R (w_safety w) s p st")
      (simp_all add: andThen_run(2)[of "transition _ _ _ _" w q w, OF q] throw_def del: run_steps.simps)
qed

context framed_executor
begin

lemma steps_frame:
  assumes "I w" and "running opid w" and "run_steps L R exec s p opid sts rs w = (r, w')"
  shows "I w' \<and> (\<forall>k. operation_at k w' = operation_at k w) \<and> (\<forall>k. plan_at k w' = plan_at k w) \<and>
    (\<forall>x. r = Inr x \<longrightarrow> (\<exists>out. x = Inr out))"
  using assms
proof (induction sts arbitrary: rs w)
  case Nil
  then show ?case by (auto simp: action_simps)
next
  case (Cons st sts)
  show ?case
  proof (cases "requireStepAllowed R (w_safety w) s p st")
    case (Inl e)
    then show ?thesis using Cons.prems(1,3) by (auto simp: run_steps_running[OF Cons.prems(2)] simp del: run_steps.simps)
  next
    case (Inr u)
    obtain o1 w1 where ex: "exec (step_capability st) (step_input st)
        \<lparr>ctx_session = s, ctx_plan = p, ctx_operation = opid\<rparr> w = (o1, w1)" by fastforce
    have f: "I w1" "\<And>k. operation_at k w1 = operation_at k w" "\<And>k. plan_at k w1 = plan_at k w"
      using frame[OF Cons.prems(1) ex] by auto
    show ?thesis
    proof (cases o1)
      case (Inl e)
      then show ?thesis
        using Cons.prems(3) ex f Inr
        by (auto simp: run_steps_running[OF Cons.prems(2)] andThen_run simp del: run_steps.simps)
    next
      case (Inr out)
      let ?w2 = "logged L (step_succeeded s p opid st) w1"
      have "run_steps L R exec s p opid sts (rs @ [\<lparr>res_step = step_id st, res_capability = step_capability st,
          res_output = redact None out\<rparr>]) ?w2 = (r, w')"
        using Cons.prems(3) ex Inr \<open>requireStepAllowed R (w_safety w) s p st = Inr u\<close>
        by (simp add: run_steps_running[OF Cons.prems(2)] andThen_run logEvent_run del: run_steps.simps)
      moreover have "I ?w2" using f(1) by (rule I_logged)
      moreover have "running opid ?w2" using Cons.prems(2) f(2) by (simp add: running_def)
      ultimately show ?thesis using Cons.IH f by fastforce
    qed
  qed
qed

text \<open>A run ends with its operation and plan both succeeded or, when it throws, both failed.\<close>

lemma run_ends:
  assumes "I w" and "running opid w" and "plan_at (plan_id p) w = Some p1" and "plan_id p1 = plan_id p"
    and "catching (run_plan L R exec s p opid) (fail_run L p opid) w = (r, w')"
  shows "(\<forall>k. k \<noteq> opid \<longrightarrow> operation_at k w' = operation_at k w) \<and>
    (\<forall>q. r = Inr q \<longrightarrow> op_state q = Op_Succeeded \<and> op_state_at opid w' = Some Op_Succeeded \<and>
       map_option plan_status (plan_at (plan_id p) w') = Some Plan_Succeeded) \<and>
    (\<forall>e. r = Inl e \<longrightarrow> op_state_at opid w' = Some Op_Failed \<and>
       map_option plan_status (plan_at (plan_id p) w') = Some Plan_Failed)"
proof -
  obtain r1 w1 where run: "run_steps L R exec s p opid (plan_steps p) [] w = (r1, w1)" by fastforce
  note fr = steps_frame[OF assms(1,2) run]
  obtain q where q: "operation_at opid w1 = Some q" "op_id q = opid" "clean opid" "op_state q = Op_Running"
    using assms(2) fr by (auto simp: running_def)
  have p1: "plan_at (plan_id p) w1 = Some p1" using fr assms(3) by simp
  have moved: "operation_at k (snd (moved L st pt q' w2)) = (if k = opid
      then Some (redact_operation ((patched pt q')\<lparr>op_state := st, op_updated_at := w_now w2\<rparr>)) else operation_at k w2)"
    "op_state (fst (moved L st pt q' w2)) = st" "plan_at i (snd (moved L st pt q' w2)) = plan_at i w2"
    if "op_id q' = opid" for k st pt q' w2 i
    using that by (simp_all add: moved_def Let_def operations.get_put)
  show ?thesis
  proof (cases r1)
    case (Inl e)
    then have "run_plan L R exec s p opid w = (Inl e, w1)" using run by (simp add: run_plan_def andThen_run)
    then have fin: "fail_run L p opid e w1 = (r, w')" using assms(5) by (simp add: catching_def)
    show ?thesis
      using fin q p1 assms(4) fr
      by (auto simp: fail_run_def Let_def andThen_run transition_run moved action_simps op_state_at_def plans.get_put
          redact_plan_def)
  next
    case (Inr x)
    then obtain out where x: "x = Inr out" using fr by blast
    obtain q2 where ver: "transition L opid Op_Verifying no_patch w1 = (Inr (fst (moved L Op_Verifying no_patch q w1)),
        snd (moved L Op_Verifying no_patch q w1))" "operation_at opid (snd (moved L Op_Verifying no_patch q w1)) = Some q2"
      "op_state q2 = Op_Verifying" "op_id q2 = opid"
      using q by (simp add: transition_run moved)
    let ?w2 = "snd (moved L Op_Verifying no_patch q w1)"
    let ?pt = "no_patch\<lparr>pt_result := Some out, pt_verification := Some (summariseVerification out)\<rparr>"
    obtain q3 w3 where suc: "transition L opid Op_Succeeded ?pt ?w2 = (Inr q3, w3)"
      and q3: "op_state q3 = Op_Succeeded" "op_state_at opid w3 = Some Op_Succeeded"
        "\<And>k. k \<noteq> opid \<Longrightarrow> operation_at k w3 = operation_at k ?w2" "\<And>i. plan_at i w3 = plan_at i ?w2"
      using ver by (simp add: transition_run moved op_state_at_def)
    have p3: "plan_at (plan_id p) w3 = Some p1" using q3(4) p1 moved(3)[OF q(2)] by simp
    have "run_plan L R exec s p opid w =
        (Inr q3, put_plan (p1\<lparr>plan_status := Plan_Succeeded, plan_updated_at := w_now w3\<rparr>) w3)"
      by (simp add: run_plan_def andThen_run run Inr x ver(1) suc set_plan_status_run[OF p3] Let_def run_action)
    then have r: "r = Inr q3" and w': "w' = put_plan (p1\<lparr>plan_status := Plan_Succeeded, plan_updated_at := w_now w3\<rparr>) w3"
      using assms(5) by (simp_all add: catching_def)
    have "operation_at k w' = operation_at k w" if "k \<noteq> opid" for k
      using that q3(3) moved(1)[OF q(2)] fr by (simp add: w')
    moreover have "map_option plan_status (plan_at (plan_id p) w') = Some Plan_Succeeded"
      using assms(4) by (simp add: w' plans.get_put redact_plan_def)
    ultimately show ?thesis using r q3 by (simp add: w' op_state_at_def)
  qed
qed

lemma start_ends:
  assumes "I w" and "session_at (ses_id s) w \<noteq> None" and "plan_at (plan_id p) w = Some p1" and "plan_id p1 = plan_id p"
    and "clean (plan_id p)" and "start_operation L R exec s p w = (r, w')"
  shows "\<exists>opid. (\<forall>k. k \<noteq> opid \<longrightarrow> operation_at k w' = operation_at k w) \<and>
    (\<forall>q. r = Inr q \<longrightarrow> op_state q = Op_Succeeded \<and> op_state_at opid w' = Some Op_Succeeded \<and>
       map_option plan_status (plan_at (plan_id p) w') = Some Plan_Succeeded) \<and>
    (\<forall>e. r = Inl e \<longrightarrow> op_state_at opid w' = Some Op_Failed \<and>
       map_option plan_status (plan_at (plan_id p) w') = Some Plan_Failed)"
proof -
  let ?opid = "local_id ''op'' (w_next w)"
  let ?w0 = "w\<lparr>w_next := Suc (w_next w)\<rparr>"
  have opid: "clean ?opid" by (simp add: is_space_def)
  obtain q w1 where cr: "create_operation L (ses_id s) (plan_id p) (plan_rb_available p) w = (Inr q, w1)"
    and q: "op_id q = ?opid" "op_state q = Op_Queued" "\<not> op_cancel_requested q"
    and w1: "w1 = logged L (operation_event q ''operation.queued'' ''Operation queued.'') (put_operation q ?w0)"
    by (simp add: create_operation_def andThen_run action_simps Let_def)
  have I1: "I w1" using w1 I_logged I_operation I_next[OF assms(1)] by auto
  have at0: "session_at k ?w0 = session_at k w" "plan_at k ?w0 = plan_at k w" "operation_at k ?w0 = operation_at k w" for k
    by (simp_all add: session_at_def plan_at_def operation_at_def)
  have at1: "session_at k w1 = session_at k w" "plan_at k w1 = plan_at k w"
    "operation_at k w1 = (if k = ?opid then Some (redact_operation q) else operation_at k w)" for k
    using w1 q(1) by (auto simp: operations.get_put at0)
  obtain s0 where s0: "session_at (ses_id s) w = Some s0" using assms(2) by auto
  then have key: "ses_id s0 = ses_id s" "clean (ses_id s)" using I_keys[OF assms(1)] by auto
  obtain s1 w2 where inc: "incrementOperation (ses_id s) w1 = (Inr s1, w2)" and s1: "ses_id s1 = ses_id s" "w2 = put_session s1 w1"
    using s0 at1(1) key by (simp add: incrementOperation_def andThen_run action_simps Let_def)
  have I2: "I w2" using s1 I_session[OF I1, of s1] s0 at1(1) key by simp
  let ?u = "p1\<lparr>plan_status := Plan_Running, plan_updated_at := w_now w2\<rparr>"
  let ?w3 = "put_plan ?u w2"
  have st: "set_plan_status (plan_id p) Plan_Running w2 = (Inr ?u, ?w3)"
    using assms(3) at1 s1 by (simp add: set_plan_status_run Let_def)
  have op3: "operation_at ?opid ?w3 = Some (redact_operation q)" using at1 s1 by simp
  define w4 where "w4 = snd (moved L Op_Running no_patch (redact_operation q) ?w3)"
  have rid: "op_id (redact_operation q) = ?opid" using q(1) opid redact_str_clean[of ?opid] by simp
  obtain q4 where tr: "transition L ?opid Op_Running no_patch ?w3 = (Inr q4, w4)"
    using q(2) by (simp add: transition_run[OF op3] w4_def)
  have w4: "operation_at ?opid w4 = Some (redact_operation ((patched no_patch (redact_operation q))\<lparr>op_state := Op_Running, op_updated_at := w_now ?w3\<rparr>))"
      "\<And>k. k \<noteq> ?opid \<Longrightarrow> operation_at k w4 = operation_at k w" "\<And>i. plan_at i w4 = plan_at i ?w3" "I w4"
    using rid at1 s1 I_logged I_operation I_plan[OF I2]
    by (simp_all add: w4_def moved_def Let_def operations.get_put)
  have run: "running ?opid w4"
    using w4(1) q rid opid redact_str_clean[OF opid] by (simp add: running_def no_patch_def)
  have pl: "plan_at (plan_id p) w4 = Some (redact_plan ?u)" "plan_id (redact_plan ?u) = plan_id p"
    using w4(3) assms(4,5) by (simp_all add: plans.get_put redact_plan_def)
  have "catching (run_plan L R exec s p ?opid) (fail_run L p ?opid) w4 = (r, w')"
    using assms(6) by (simp add: start_operation_def andThen_run cr inc st tr q(1))
  note ends = run_ends[OF w4(4) run pl this]
  show ?thesis
    by (rule exI[of _ ?opid], intro conjI) (use ends w4(2) in simp_all)
qed

end

lemma requireExecutable_same: "requireExecutable L R i sid w = (r, w') \<Longrightarrow> w' = w"
  by (cases "plan_at i w") (auto simp: requireExecutable_def andThen_run action_simps Let_def split: if_splits)

lemma requireApproved_same: "requireApprovedForPlan i w = (r, w') \<Longrightarrow> w' = w"
  by (auto simp: requireApprovedForPlan_def listApprovals_def andThen_run action_simps Let_def split: option.splits if_splits)

definition plans_wf :: "world \<Rightarrow> bool" where
  "plans_wf w \<longleftrightarrow> (\<forall>i p. plan_at i w = Some p \<longrightarrow> plan_id p = i \<and> clean i)"

context framed_executor
begin

lemma I_next_plan: "I w \<Longrightarrow> plan_at pid w = Some p0 \<Longrightarrow> set_plan_status pid st w = (r, w') \<Longrightarrow> I w'"
  using I_plan by (auto simp: set_plan_status_run Let_def)

lemma execution_ends:
  assumes "I w" and "plans_wf w" and "session_at (ses_id s) w \<noteq> None"
    and "executePlanForSession L R exec s pid w = (r, w')"
  shows "(\<forall>q. r = Inr q \<longrightarrow> op_state q = Op_Succeeded \<and> map_option plan_status (plan_at pid w') = Some Plan_Succeeded) \<and>
    (\<forall>k. op_state_at k w' \<noteq> op_state_at k w \<longrightarrow> (\<forall>q. r = Inr q \<longrightarrow> op_state_at k w' = Some Op_Succeeded) \<and>
       (\<forall>e. r = Inl e \<longrightarrow> op_state_at k w' = Some Op_Failed \<and> map_option plan_status (plan_at pid w') = Some Plan_Failed))"
proof (cases "plan_at pid w")
  case None
  then show ?thesis using assms(4) by (auto simp: executePlanForSession_def andThen_run action_simps)
next
  case (Some p0)
  then have p0: "plan_id p0 = pid" "clean pid" using assms(2) by (auto simp: plans_wf_def)
  define gate where "gate = (if plan_status p0 = Plan_Awaiting
         then andThen (requireApprovedForPlan (plan_id p0)) (\<lambda>_. set_plan_status (plan_id p0) Plan_Approved)
         else ret p0)"
  have unfold: "executePlanForSession L R exec s pid w = (if plan_session p0 \<noteq> ses_id s
     then (Inl (control Scope_Denied ''The plan belongs to a different session.'' Err_Denied False No_Detail), w)
     else andThen gate (\<lambda>p1. andThen (requireExecutable L R (plan_id p1) (ses_id s)) (start_operation L R exec s)) w)"
    using Some by (simp add: executePlanForSession_def andThen_run get_plan_run gate_def throw_def)
  obtain g w1 where g: "gate w = (g, w1)" by fastforce
  have gate: "I w1 \<and> (\<forall>k. operation_at k w1 = operation_at k w) \<and> session_at (ses_id s) w1 = session_at (ses_id s) w \<and>
      (\<exists>p1. plan_at pid w1 = Some p1 \<and> plan_id p1 = pid) \<and> (\<forall>p1. g = Inr p1 \<longrightarrow> plan_id p1 = pid)"
  proof (cases "plan_status p0 = Plan_Awaiting")
    case False
    then show ?thesis using g Some p0 assms(1) by (auto simp: gate_def action_simps)
  next
    case True
    obtain a w0 where a: "requireApprovedForPlan pid w = (a, w0)" by fastforce
    then have "w0 = w" by (rule requireApproved_same)
    then show ?thesis
      using g a Some p0 assms(1) True
      by (cases a) (auto simp: gate_def andThen_run p0 set_plan_status_run Let_def I_plan plans.get_put redact_plan_def)
  qed
  show ?thesis
  proof (cases "plan_session p0 \<noteq> ses_id s \<or> (\<exists>e. g = Inl e)")
    case True
    then have "operation_at k w' = operation_at k w \<and> (\<exists>e. r = Inl e)" for k
      using assms(4) gate g unfolding unfold by (auto simp: andThen_run split: if_splits)
    then show ?thesis by (auto simp: op_state_at_def)
  next
    case False
    then obtain p1 where p1: "g = Inr p1" "plan_id p1 = pid" using gate by (cases g) auto
    obtain x w2 where x: "requireExecutable L R pid (ses_id s) w1 = (x, w2)" by fastforce
    then have w2: "w2 = w1" by (rule requireExecutable_same)
    have rest: "andThen (requireExecutable L R pid (ses_id s)) (start_operation L R exec s) w1 = (r, w')"
      using assms(4) False g p1 unfolding unfold by (simp add: andThen_run)
    show ?thesis
    proof (cases x)
      case (Inl e)
      then show ?thesis using rest x w2 gate by (auto simp: andThen_run op_state_at_def)
    next
      case (Inr p)
      obtain p2 where p2: "plan_at pid w1 = Some p2" "plan_id p2 = pid" using gate by blast
      with x Inr have "p = p2" using requireExecutable_plan[of L R pid "ses_id s" w1 p w2] by simp
      then have p: "plan_at (plan_id p) w1 = Some p" "plan_id p = pid" using p2 by auto
      have "start_operation L R exec s p w1 = (r, w')" using rest x Inr w2 by (simp add: andThen_run)
      from start_ends[OF _ _ p(1) refl _ this] gate assms(3) p p0 obtain opid where
        ends: "\<forall>k. k \<noteq> opid \<longrightarrow> operation_at k w' = operation_at k w1"
        "\<forall>q. r = Inr q \<longrightarrow> op_state q = Op_Succeeded \<and> op_state_at opid w' = Some Op_Succeeded \<and>
           map_option plan_status (plan_at pid w') = Some Plan_Succeeded"
        "\<forall>e. r = Inl e \<longrightarrow> op_state_at opid w' = Some Op_Failed \<and> map_option plan_status (plan_at pid w') = Some Plan_Failed"
        by auto
      have "k = opid" if "op_state_at k w' \<noteq> op_state_at k w" for k
        using that ends(1) gate by (auto simp: op_state_at_def)
      then show ?thesis using ends by blast
    qed
  qed
qed

end

end
