(* ===== verification/Demo_World.thy ===== *)
theory Demo_World
  imports Action_Broker
begin

text \<open>
  A small concrete world the witnesses evaluate the properties in: a library whose hash is the
  length of the text, one session under the default permissions, the shipped registry with a
  validator that accepts everything, and an empty store.
\<close>

definition demo_num :: "rat \<Rightarrow> string" where
  "demo_num r = (case quotient_of r of (n, d) \<Rightarrow>
     (if n < 0 then ''-'' else []) @ show_nat (nat \<bar>n\<bar>) @ ''e'' @ show_nat (nat d))"

fun demo_le :: "string \<Rightarrow> string \<Rightarrow> bool" where
  "demo_le [] t = True"
| "demo_le (c # s) [] = False"
| "demo_le (c # s) (d # t) = (if c = d then demo_le s t else of_char c < (of_char d :: nat))"

definition demo_lib :: host_lib where
  "demo_lib = \<lparr>sha256 = (\<lambda>s. show_nat (length s)), locale_le = demo_le, num_text = demo_num\<rparr>"

definition demo_read :: capability where
  "demo_read = cap ''r'' ''r'' ''r'' Read Read_Only Yes False (Some True) None [] False Session_Grant Session_Grant Session_Grant"

definition demo_write :: capability where
  "demo_write = cap ''w'' ''w'' ''w'' Remote_Write High Yes True (Some True) None [''x''] False Plan_Approval Plan_Approval Plan_Approval"

definition demo_registry :: registry where
  "demo_registry = \<lparr>reg_definitions = [demo_read, demo_write], reg_ajv = (\<lambda>i input. ([], input))\<rparr>"

definition demo_input :: session_input where
  "demo_input = \<lparr>si_client = Codex, si_client_version = None, si_display_name = Some ''d'', si_objective = ''o'',
     si_repository = ''/r'', si_mode = None, si_targets = None, si_environments = None, si_permissions =
       Some \<lparr>pi_allow = Some [''r''], pi_allow_within = Some [''w''], pi_require_approval = Some [], pi_deny = Some []\<rparr>,
     si_expires_minutes = None, si_max_operations = None, si_max_spend = Some 10\<rparr>"

definition demo_stop :: emergency_stop where
  "demo_stop = \<lparr>stop_active = False, stop_activated_at = None, stop_activated_by = None, stop_reason = None,
     stop_cleared_at = None, stop_cleared_by = None\<rparr>"

definition empty_world :: world where
  "empty_world = \<lparr>w_now = 1000, w_next = 0, w_sessions = [], w_plans = [], w_approvals = [], w_operations = [],
     w_events = [], w_setting = None, w_safety = demo_stop\<rparr>"

definition demo_session :: session where
  "demo_session = build_session demo_input ''/r'' ''s'' 1000"


definition session_world :: world where
  "session_world = empty_world\<lparr>w_sessions := [(''s'', Some (hashToken demo_lib ''t''), demo_session)]\<rparr>"

definition demo_plan_input :: plan_input where
  "demo_plan_input = \<lparr>pin_objective = ''o'', pin_environment = None, pin_target = None, pin_steps = [(''r'', None)],
     pin_success_criteria = None, pin_excluded_effects = None\<rparr>"

definition demo_step :: plan_step where
  "demo_step = \<lparr>step_id = ''step_1'', step_capability = ''r'', step_input = [], step_risk = Read_Only\<rparr>"

definition demo_plan :: agent_plan where
  "demo_plan = build_plan demo_lib demo_registry demo_session demo_plan_input [demo_step] False ''p'' 1000"

definition plan_world :: world where
  "plan_world = session_world\<lparr>w_plans := [(''p'', 1, demo_plan)]\<rparr>"

definition demo_operation :: operation where
  "demo_operation = \<lparr>op_id = ''q'', op_session = ''s'', op_plan = ''p'', op_capability = None, op_state = Op_Running,
     op_current_step = None, op_result = None, op_verification = None, op_error = None, op_rollback_available = False,
     op_cancel_requested = False, op_created_at = 1000, op_updated_at = 1000\<rparr>"

definition operation_world :: world where
  "operation_world = plan_world\<lparr>w_operations := [(''q'', 1, demo_operation)]\<rparr>"

definition demo_approval :: approval where
  "demo_approval = \<lparr>apr_id = ''a'', apr_session = ''s'', apr_plan = None, apr_capability = Some ''w'', apr_status = Pending,
     apr_reason = ''o'', apr_risk = High, apr_target = None, apr_environment = Some Staging, apr_effects = [],
     apr_reversible = Yes, apr_requested_at = 1000, apr_decided_at = None, apr_expires_at = 3601000,
     apr_decision_reason = None\<rparr>"

definition approval_world :: world where
  "approval_world = plan_world\<lparr>w_approvals := [(''a'', 1, demo_approval)]\<rparr>"

lemma good_demo: "good_nums demo_lib"
proof -
  have digits: "list_all is_digit (show_nat n)" for n
    using show_nat_digits by (auto simp: list_all_iff)
  have split: "show_nat a @ CHR ''e'' # show_nat b = show_nat c @ CHR ''e'' # show_nat d \<Longrightarrow> a = c \<and> b = d" for a b c d
    using prefix_until[of is_digit "show_nat a" "show_nat c" "CHR ''e'' # show_nat b" "CHR ''e'' # show_nat d"] digits
    by (auto simp: is_digit_def)
  have inj: "m = n" if eq: "demo_num m = demo_num n" for m n
  proof -
    obtain a b c d where q: "quotient_of m = (a, b)" "quotient_of n = (c, d)" by force
    have pos: "0 < b" "0 < d" using quotient_of_denom_pos q by auto
    have minus: "show_nat k = CHR ''-'' # t \<Longrightarrow> False" for k t
      using show_nat_digits[of "CHR ''-''" k] by (simp add: is_digit_def)
    have head: "show_nat k @ r = CHR ''-'' # t \<Longrightarrow> False" for k r t
      by (cases "show_nat k") (auto dest: minus)
    have "a < 0 \<longleftrightarrow> c < 0" and "nat \<bar>a\<bar> = nat \<bar>c\<bar> \<and> nat b = nat d"
      using eq q by (auto simp: demo_num_def dest: split head head[OF sym] split: if_splits)
    then have "a = c" "b = d" using pos by (auto split: if_splits)
    then show ?thesis using q by (metis quotient_of_inject)
  qed
  have form: "\<exists>c t. demo_num n = c # t \<and> (is_digit c \<or> c = CHR ''-'') \<and> list_all num_char (c # t)" for n
  proof -
    obtain a b where q: "quotient_of n = (a, b)" by force
    have all: "list_all num_char (demo_num n)"
      using digits q by (auto simp: demo_num_def num_char_def list_all_iff)
    obtain c t where ct: "show_nat (nat \<bar>a\<bar>) = c # t" by (cases "show_nat (nat \<bar>a\<bar>)") auto
    then have "is_digit c" using digits[of "nat \<bar>a\<bar>"] by simp
    then show ?thesis using all q ct by (auto simp: demo_num_def split: if_splits)
  qed
  show ?thesis using inj form by (auto simp: good_nums_def demo_lib_def inj_def)
qed

lemmas demo_defs = demo_session_def build_session_def demo_input_def or_default_def nonempty_def mergePermissions_def
  clamp_minutes_def DEFAULT_MINUTES_def MAX_MINUTES_def

lemma demo_session_fields [simp]:
  "ses_id demo_session = ''s''" "ses_status demo_session = Active"
  "ses_limits demo_session = \<lparr>lim_expires_at = 3601000, lim_max_operations = 50, lim_max_spend = 10\<rparr>"
  "ses_spend demo_session = 0" "ses_operation_count demo_session = 0"
  "ses_permissions demo_session = \<lparr>perm_allow = [''r''], perm_allow_within = [''w''], perm_require_approval = [], perm_deny = []\<rparr>"
  "ses_scope demo_session = \<lparr>scope_projects = [''r''], scope_targets = [], scope_environments = [Staging]\<rparr>"
  by (simp_all add: demo_defs DEFAULT_PERMISSIONS_def basename_def)

lemma demo_sessions_wf: "sessions_wf session_world" "sessions_wf plan_world"  "sessions_wf operation_world" "sessions_wf approval_world"
  by (simp_all add: sessions_wf_def session_world_def plan_world_def operation_world_def approval_world_def is_space_def)

lemma demo_session_at [simp]: "session_at ''s'' session_world = Some demo_session" "session_at ''s'' plan_world = Some demo_session"
  "session_at ''s'' operation_world = Some demo_session" "session_at ''s'' approval_world = Some demo_session"
  by (simp_all add: session_at_def session_world_def plan_world_def operation_world_def approval_world_def)

lemma demo_now [simp]: "w_now session_world = 1000" "w_now plan_world = 1000" "w_now operation_world = 1000" "w_now approval_world = 1000"
  by (simp_all add: session_world_def plan_world_def operation_world_def approval_world_def empty_world_def)

lemma demo_token: "session_of_token demo_lib ''t'' session_world = Some demo_session"
   "session_of_token demo_lib ''t'' plan_world = Some demo_session"
  by (simp_all add: session_of_token_def session_world_def plan_world_def)

lemma demo_authenticate: "authenticate demo_lib (Some ''t'') session_world = (Inr demo_session, session_world)"
   "authenticate demo_lib (Some ''t'') plan_world = (Inr demo_session, plan_world)"
  by (simp_all add: authenticate_def nonempty_def andThen_def action_simps demo_token expired_at_def)

lemma demo_describe: "describe demo_registry ''r'' = Inr demo_read" "describe demo_registry ''w'' = Inr demo_write"
  by (simp_all add: describe_def by_id_def demo_registry_def demo_read_def demo_write_def cap_def)

lemma demo_plan_fields [simp]:
  "plan_id demo_plan = ''p''" "plan_session demo_plan = ''s''" "plan_status demo_plan = Plan_Approved"
  "plan_steps demo_plan = [demo_step]" "plan_objective demo_plan = ''o''"
  by (simp_all add: demo_plan_def build_plan_def Let_def demo_plan_input_def trim_def trim_end_def trim_start_def is_space_def)

lemma demo_validate: "validate_input demo_registry ''r'' i = ([], i)" "validate_input demo_registry ''w'' i = ([], i)"
  by (simp_all add: validate_input_def by_id_def demo_registry_def demo_read_def demo_write_def cap_def)

lemma demo_evaluate: "evaluate demo_registry demo_stop \<lparr>req_session = demo_session, req_capability = ''r'', req_input = i,
    req_environment = Staging, req_approved_plan = p\<rparr> =
    Inr (decision Allow ''Read-only capability is included in the session grant.'' demo_read)"
  by (simp add: evaluate_def demo_describe scopeDenial_def demo_stop_def demo_read_def cap_def matches_def)

lemma show_one: "show_nat 1 = ''1''" "show_nat (Suc 0) = ''1''"
  by code_simp+

lemma demo_check_steps: "check_steps demo_registry demo_stop demo_session Staging 0 [(''r'', None)] = Inr ([demo_step], [], False)"
  by (simp add: check_step_def demo_describe demo_validate demo_evaluate or_default_def decision_def step_name_def
      demo_step_def demo_read_def cap_def show_one containsSecretLikeField.simps)

lemma demo_safety [simp]: "w_safety session_world = demo_stop" "w_safety plan_world = demo_stop"
  by (simp_all add: session_world_def plan_world_def empty_world_def)

lemma demo_create_plan: "create_plan demo_lib demo_registry demo_session demo_plan_input session_world =
   (let p = build_plan demo_lib demo_registry demo_session demo_plan_input [demo_step] False (local_id ''plan'' 0) 1000 in
    (Inr p, logged demo_lib (plan_created demo_session p) (put_plan p (session_world\<lparr>w_next := 1\<rparr>))))"
  using demo_check_steps
  by (simp add: create_plan_def demo_plan_input_def andThen_def action_simps plan_environment_for_def or_default_def Let_def
     session_world_def empty_world_def)


lemma demo_plan_worlds_at [simp]: "plan_at ''p'' plan_world = Some demo_plan" "plan_at ''p'' approval_world = Some demo_plan"
  by (simp_all add: plan_at_def row_get_def plan_world_def approval_world_def)

lemma demo_plan_hash: "plan_hash demo_plan = hashPlan demo_lib (planBody demo_plan)"
  unfolding demo_plan_def by (rule build_plan_hash)

lemma demo_executable: "requireExecutable demo_lib demo_registry ''p'' ''s'' plan_world = (Inr demo_plan, plan_world)"
  using demo_plan_hash
  by (simp add: requireExecutable_def andThen_def action_simps validate_plan_def Let_def flat_map_def demo_step_def demo_validate)

lemma demo_operation_at [simp]: "operation_at ''q'' operation_world = Some demo_operation"
  by (simp add: operation_at_def row_get_def operation_world_def)

lemma demo_operations_wf: "operations_wf operation_world"
  by (auto simp: operations_wf_def operation_at_def row_get_def operation_world_def demo_operation_def is_space_def
      split: if_splits)

lemma demo_approval_at [simp]: "approval_at ''a'' approval_world = Some demo_approval"
  by (simp add: approval_at_def row_get_def approval_world_def)

lemma demo_approvals_wf: "approvals_wf approval_world"
  by (auto simp: approvals_wf_def approval_at_def row_get_def approval_world_def demo_approval_def is_space_def
      split: if_splits)

end
