(* ===== verification/Audit_Log.thy ===== *)
theory Audit_Log
  imports Agent_Store
begin

text \<open>
  What the audit log of src/src/agent-control/agent-store.ts guarantees: the hash chain
  that \<open>appendEvent\<close> builds and \<open>verifyEventChain\<close> checks, its sequence numbers, and
  the pages of \<open>listEventPage\<close>.
\<close>

section \<open>Sequence numbers\<close>

fun numbered :: "event_row list \<Rightarrow> bool" where
  "numbered [] = True"
| "numbered (r # rows) = (row_sequence r = Suc (length rows) \<and> numbered rows)"

lemma numbered_bound: "numbered rows \<Longrightarrow> r \<in> set rows \<Longrightarrow> row_sequence r \<le> length rows"
  by (induction rows) auto

lemma numbered_sorted: "numbered rows \<Longrightarrow> sorted_wrt (\<lambda>a b. row_sequence b < row_sequence a) rows"
  by (induction rows) (auto dest: numbered_bound)

lemma numbered_log_row: "numbered rows \<Longrightarrow> numbered (log_row L e rows # rows)"
  by (simp add: log_row_def Let_def)

lemma numbered_logged: "numbered (w_events w) \<Longrightarrow> numbered (w_events (logged L mk w))"
  by (simp add: logged_def numbered_log_row del: numbered.simps)

section \<open>The chain\<close>

definition last_hash :: "string option \<Rightarrow> audit_event list \<Rightarrow> string option" where
  "last_hash p es = (if es = [] then p else Some (ev_hash (last es)))"

lemma check_chain_append:
  "check_chain L p (es @ fs) =
     (case check_chain L p es of Some b \<Rightarrow> Some b | None \<Rightarrow> check_chain L (last_hash p es) fs)"
  by (induction es arbitrary: p) (auto simp: last_hash_def split: option.splits)

text \<open>The log read oldest first, and the state of a log that verifies.\<close>

definition chain :: "event_row list \<Rightarrow> audit_event list" where
  "chain rows = map row_record (rev rows)"

definition chain_ok :: "host_lib \<Rightarrow> event_row list \<Rightarrow> bool" where
  "chain_ok L rows \<longleftrightarrow> check_chain L None (chain rows) = None \<and> newest_hash rows = last_hash None (chain rows)"

lemma verify_valid_iff: "chain_valid (projr (fst (verifyEventChain L w))) \<longleftrightarrow> check_chain L None (chain (w_events w)) = None"
  by (simp add: verifyEventChain_def chain_def run_action Let_def)

text \<open>
  An event is stable when reading its record back gives the payload its hash was computed
  over: the second redaction, of the whole record, finds nothing the first left.
\<close>

definition stable_event :: "host_lib \<Rightarrow> event_row list \<Rightarrow> new_event \<Rightarrow> bool" where
  "stable_event L rows e \<longleftrightarrow> redact_event (chain_event L (newest_hash rows) e) = chain_event L (newest_hash rows) e"

lemma chain_event_hash:
  "ev_hash (chain_event L p e) = sha256 L (stableStringify L (event_payload (chain_event L p e)))"
  by (simp add: chain_event_def Let_def event_payload_def)

lemma chain_event_previous [simp]: "ev_previous_hash (chain_event L p e) = p"
  by (simp add: chain_event_def Let_def)

lemma chain_Cons: "chain (r # rows) = chain rows @ [row_record r]"
  by (simp add: chain_def)

lemma chain_ok_log:
  assumes ok: "chain_ok L rows" and st: "stable_event L rows e"
  shows "chain_ok L (log_row L e rows # rows)"
proof -
  let ?s = "chain_event L (newest_hash rows) e"
  have row: "row_record (log_row L e rows) = ?s" "row_hash (log_row L e rows) = ev_hash ?s"
    using st by (simp_all add: log_row_def Let_def stable_event_def)
  have link: "check_chain L (newest_hash rows) [?s] = None"
    using chain_event_hash[of L "newest_hash rows" e] by simp
  have "check_chain L None (chain rows @ [?s]) = None"
    using ok link by (simp add: chain_ok_def check_chain_append del: check_chain.simps)
  moreover have "newest_hash (log_row L e rows # rows) = Some (ev_hash ?s)"
    using row by (simp add: newest_hash_def)
  ultimately show ?thesis
    unfolding chain_ok_def chain_Cons row(1) by (simp add: last_hash_def)
qed

lemma chain_ok_Nil: "chain_ok L []"
  by (simp add: chain_ok_def chain_def last_hash_def newest_hash_def)

text \<open>
  An event whose record redaction changes breaks the chain, provided the hash tells the two
  payloads apart.
\<close>

lemma chain_broken_log:
  assumes "sha256 L (stableStringify L (event_payload (redact_event (chain_event L (newest_hash rows) e))))
             \<noteq> redact_str (ev_hash (chain_event L (newest_hash rows) e))"
  shows "check_chain L None (chain (log_row L e rows # rows)) \<noteq> None"
  using assms
  by (auto simp: chain_Cons check_chain_append log_row_def Let_def redact_event_def split: option.splits)

text \<open>
  Two logs that verify and end in the same hash hold the same events, provided no two of their
  events collide under the hash: changing, dropping or reordering an earlier event is found.
\<close>

lemma payload_previous:
  assumes "canon le (event_payload e) = canon le (event_payload f)"
  shows "ev_previous_hash e = ev_previous_hash f"
proof -
  have entry: "(\<exists>kvs. event_payload x = JObj kvs \<and>
      (\<forall>h. (''previousHash'', JStr h) \<in> set (map (\<lambda>(k, v). (k, canon le v)) kvs) \<longleftrightarrow> ev_previous_hash x = Some h))" for x
    by (cases "ev_previous_hash x"; cases "ev_target x"; cases "ev_capability x"; cases "ev_operation x"; cases "ev_session x")
       (simp_all add: event_payload_def opt_member_def eq_commute)
  obtain ks where e: "event_payload e = JObj ks"
    and eh: "\<And>h. (''previousHash'', JStr h) \<in> set (map (\<lambda>(k, v). (k, canon le v)) ks) \<longleftrightarrow> ev_previous_hash e = Some h"
    using entry[of e] by blast
  obtain ls where f: "event_payload f = JObj ls"
    and fh: "\<And>h. (''previousHash'', JStr h) \<in> set (map (\<lambda>(k, v). (k, canon le v)) ls) \<longleftrightarrow> ev_previous_hash f = Some h"
    using entry[of f] by blast
  have "sort_entries le (map (\<lambda>(k, v). (k, canon le v)) ks) =
        sort_entries le (map (\<lambda>(k, v). (k, canon le v)) ls)"
    using assms unfolding e f by (simp only: canon_simps json.inject)
  then have "set (sort_entries le (map (\<lambda>(k, v). (k, canon le v)) ks)) =
             set (sort_entries le (map (\<lambda>(k, v). (k, canon le v)) ls))" by (rule arg_cong)
  then have "set (map (\<lambda>(k, v). (k, canon le v)) ks) = set (map (\<lambda>(k, v). (k, canon le v)) ls)"
    by (simp only: set_sort_entries)
  then have "ev_previous_hash e = Some h \<longleftrightarrow> ev_previous_hash f = Some h" for h using eh fh by blast
  then show ?thesis by (metis option.exhaust)
qed

lemma check_chain_snocD:
  "check_chain L p (xs @ [x]) = None \<Longrightarrow>
   check_chain L p xs = None \<and> ev_previous_hash x = last_hash p xs \<and>
   ev_hash x = sha256 L (stableStringify L (event_payload x))"
  by (auto simp: check_chain_append split: option.splits if_splits)

definition no_collisions :: "host_lib \<Rightarrow> audit_event list \<Rightarrow> bool" where
  "no_collisions L es \<longleftrightarrow> inj_on (sha256 L) ((\<lambda>e. stableStringify L (event_payload e)) ` set es)"

lemma no_collisionsD:
  "no_collisions L es \<Longrightarrow> x \<in> set es \<Longrightarrow> y \<in> set es \<Longrightarrow>
   sha256 L (stableStringify L (event_payload x)) = sha256 L (stableStringify L (event_payload y)) \<Longrightarrow>
   stableStringify L (event_payload x) = stableStringify L (event_payload y)"
  by (auto simp: no_collisions_def dest: inj_onD)

lemma no_collisions_subset: "no_collisions L es \<Longrightarrow> set fs \<subseteq> set es \<Longrightarrow> no_collisions L fs"
  unfolding no_collisions_def by (erule inj_on_subset) (rule image_mono)

lemma check_chain_pins:
  assumes L: "good_nums L"
    and "no_collisions L (es @ fs)" and "check_chain L None es = None" and "check_chain L None fs = None"
    and "last_hash None es = last_hash None fs"
  shows "map (\<lambda>e. canon (locale_le L) (event_payload e)) es = map (\<lambda>e. canon (locale_le L) (event_payload e)) fs"
  using assms(2-5)
proof (induction es arbitrary: fs rule: rev_induct)
  case Nil
  then show ?case by (simp add: last_hash_def split: if_splits)
next
  case (snoc x xs)
  then obtain ys y where fs: "fs = ys @ [y]" by (cases fs rule: rev_cases) (auto simp: last_hash_def)
  note X = check_chain_snocD[OF snoc.prems(2)]
  note Y = check_chain_snocD[OF snoc.prems(3)[unfolded fs]]
  have "ev_hash x = ev_hash y" using snoc.prems(4) fs by (simp add: last_hash_def)
  then have "stableStringify L (event_payload x) = stableStringify L (event_payload y)"
    using X Y fs by (intro no_collisionsD[OF snoc.prems(1)]) auto
  then have same: "canon (locale_le L) (event_payload x) = canon (locale_le L) (event_payload y)"
    by (rule stableStringify_inj[OF L])
  then have hash: "last_hash None xs = last_hash None ys" using payload_previous X Y by metis
  have "no_collisions L (xs @ ys)" using snoc.prems(1) by (rule no_collisions_subset) (auto simp: fs)
  then show ?case using snoc.IH[of ys] X Y same fs hash by simp
qed

text \<open>The events a run of the services appends, one after another.\<close>

fun append_all :: "host_lib \<Rightarrow> new_event list \<Rightarrow> world \<Rightarrow> world" where
  "append_all L [] w = w"
| "append_all L (e # es) w = append_all L es (snd (appendEvent L e w))"

fun stable_events :: "host_lib \<Rightarrow> new_event list \<Rightarrow> world \<Rightarrow> bool" where
  "stable_events L [] w = True"
| "stable_events L (e # es) w =
     (stable_event L (w_events w) e \<and> stable_events L es (snd (appendEvent L e w)))"

lemma append_rows: "w_events (snd (appendEvent L e w)) = log_row L e (w_events w) # w_events w"
  by (simp add: appendEvent_def andThen_run action_simps Let_def log_row_def)

lemma append_all_ok:
  "chain_ok L (w_events w) \<Longrightarrow> stable_events L es w \<Longrightarrow>
   chain_ok L (w_events (append_all L es w)) \<and>
   length (w_events (append_all L es w)) = length (w_events w) + length es"
proof (induction es arbitrary: w)
  case (Cons e es)
  then show ?case using Cons.IH[of "snd (appendEvent L e w)"] chain_ok_log[of L "w_events w" e]
    by (simp add: append_rows)
qed simp


text \<open>
  C31: a log that was tampered with is found out by its last hash: if it still verifies and still
  ends in the hash that was written down, it holds the same events in the same order.
\<close>

theorem last_hash_pins_log:
  assumes "good_nums L" and "no_collisions L (chain (w_events w) @ chain (w_events v))"
    and "chain_valid (projr (fst (verifyEventChain L w)))" and "chain_valid (projr (fst (verifyEventChain L v)))"
    and "last_hash None (chain (w_events w)) = last_hash None (chain (w_events v))"
  shows "map (\<lambda>e. canon (locale_le L) (event_payload e)) (chain (w_events w)) =
    map (\<lambda>e. canon (locale_le L) (event_payload e)) (chain (w_events v))"
  using assms(3,4) by (intro check_chain_pins[OF assms(1,2) _ _ assms(5)]) (simp_all add: verify_valid_iff)

section \<open>Pages\<close>

definition entries :: "event_row list \<Rightarrow> (nat \<times> audit_event) list" where
  "entries rows = map (\<lambda>r. (row_sequence r, row_record r)) rows"

definition older_than :: "nat option \<Rightarrow> event_row list \<Rightarrow> event_row list" where
  "older_than before rows = filter (\<lambda>r. case before of None \<Rightarrow> True | Some b \<Rightarrow> row_sequence r < b) rows"

definition page_size :: "int option \<Rightarrow> nat" where
  "page_size limit = nat (clamp 1 200 (case limit of None \<Rightarrow> 30 | Some l \<Rightarrow> l))"

lemma page_size_bounds: "1 \<le> page_size limit" "page_size limit \<le> 200"
  by (auto simp: page_size_def clamp_def)

lemma page_of_events:
  "page_events (page_of sid before limit rows) =
     entries (take (page_size limit) (older_than before (rows_of_session sid rows)))"
  by (simp add: page_of_def Let_def page_size_def entries_def older_than_def take_map min_def)

lemma page_of_cursor:
  "page_next_cursor (page_of sid before limit rows) =
     (let R = older_than before (rows_of_session sid rows); n = page_size limit
      in if n < length R then Some (row_sequence (R ! (n - 1))) else None)"
proof -
  let ?R = "older_than before (rows_of_session sid rows)" and ?n = "page_size limit"
  have pos: "0 < ?n" using page_size_bounds(1)[of limit] by simp
  have lst: "?n < length ?R \<Longrightarrow> last (take ?n ?R) = ?R ! (?n - 1)"
    using pos by (subst last_conv_nth) (auto simp: min_def)
  show ?thesis using pos lst
    by (auto simp: page_of_def Let_def page_size_def[symmetric] older_than_def[symmetric] take_map
        min_def last_map o_def)
qed

lemma older_than_split:
  assumes sorted: "sorted_wrt (\<lambda>a b. row_sequence b < row_sequence a) R" and n: "0 < n" "n \<le> length R"
  shows "older_than (Some (row_sequence (R ! (n - 1)))) R = drop n R"
proof -
  have parts: "R = take n R @ drop n R" by simp
  have newer: "\<not> row_sequence r < row_sequence (R ! (n - 1))" if r: "r \<in> set (take n R)" for r
  proof -
    obtain i where "i < length (take n R)" "take n R ! i = r" using r unfolding in_set_conv_nth by blast
    then have i: "i < n" "r = R ! i" by auto
    show ?thesis
    proof (cases "i = n - 1")
      case False
      then have "row_sequence (R ! (n - 1)) < row_sequence (R ! i)"
        using sorted_wrt_nth_less[OF sorted, of i "n - 1"] i n by simp
      then show ?thesis using i by simp
    qed (use i in simp)
  qed
  have older: "row_sequence r < row_sequence (R ! (n - 1))" if r: "r \<in> set (drop n R)" for r
  proof -
    obtain i where "i < length (drop n R)" "drop n R ! i = r" using r unfolding in_set_conv_nth by blast
    then have i: "n + i < length R" "r = R ! (n + i)" by auto
    then show ?thesis using sorted_wrt_nth_less[OF sorted, of "n - 1" "n + i"] n by simp
  qed
  show ?thesis unfolding older_than_def
    by (subst parts, subst filter_append) (use newer older in \<open>simp add: filter_id_conv\<close>)
qed

lemma rows_of_session_append [simp]:
  "rows_of_session sid (new @ rows) = rows_of_session sid new @ rows_of_session sid rows"
  by (auto simp: rows_of_session_def split: option.splits)

lemma rows_of_session_subset: "set (rows_of_session sid rows) \<subseteq> set rows"
  by (auto simp: rows_of_session_def split: option.splits)

lemma sorted_rows_of_session:
  "sorted_wrt P rows \<Longrightarrow> sorted_wrt P (rows_of_session sid rows)"
  by (auto simp: rows_of_session_def sorted_wrt_filter split: option.splits)

lemma sorted_older_than: "sorted_wrt P rows \<Longrightarrow> sorted_wrt P (older_than b rows)"
  by (simp add: older_than_def sorted_wrt_filter)

text \<open>
  Following the cursor after new rows arrived on top: the first page and everything older
  than its cursor are together exactly what the first request would have listed, each once.
\<close>

lemma numbered_append_newer:
  "numbered (new @ rows) \<Longrightarrow> r \<in> set new \<Longrightarrow> length rows < row_sequence r"
  by (induction new) (auto)

lemma pages_partition:
  assumes num: "numbered (new @ rows)"
    and cursor: "page_next_cursor (page_of sid before limit rows) = Some c"
  shows "page_events (page_of sid before limit rows) @ entries (older_than (Some c) (rows_of_session sid (new @ rows)))
       = entries (older_than before (rows_of_session sid rows))"
proof -
  let ?R = "older_than before (rows_of_session sid rows)" and ?n = "page_size limit"
  have numr: "numbered rows" using num by (induction new) auto
  have sorted: "sorted_wrt (\<lambda>a b. row_sequence b < row_sequence a) ?R"
    by (intro sorted_older_than sorted_rows_of_session numbered_sorted[OF numr])
  have n: "0 < ?n" using page_size_bounds(1)[of limit] by simp
  from cursor have len: "?n < length ?R" and c: "c = row_sequence (?R ! (?n - 1))"
    by (auto simp: page_of_cursor Let_def split: if_splits)
  have mem: "?R ! (?n - 1) \<in> set ?R" using len by simp
  then have memr: "?R ! (?n - 1) \<in> set rows"
    using rows_of_session_subset by (auto simp: older_than_def)
  have cle: "c \<le> length rows" using numbered_bound[OF numr memr] c by simp
  have cb: "case before of None \<Rightarrow> True | Some b \<Rightarrow> c < b" using mem c by (auto simp: older_than_def)
  have none_new: "older_than (Some c) (rows_of_session sid new) = []"
    using numbered_append_newer[OF num] cle rows_of_session_subset[of sid new]
    by (fastforce simp: older_than_def filter_empty_conv)
  have "older_than (Some c) (rows_of_session sid rows) = older_than (Some c) ?R"
    using cb by (auto simp: older_than_def intro!: filter_cong split: option.splits)
  also have "\<dots> = drop ?n ?R" unfolding c by (rule older_than_split[OF sorted n]) (use len in simp)
  finally have "older_than (Some c) (rows_of_session sid (new @ rows)) = drop ?n ?R"
    using none_new by (simp add: older_than_def)
  then show ?thesis
    by (simp add: page_of_events entries_def flip: map_append)
qed

lemma last_page_complete:
  assumes "page_next_cursor (page_of sid before limit rows) = None"
  shows "page_events (page_of sid before limit rows) = entries (older_than before (rows_of_session sid rows))"
  using assms by (simp add: page_of_cursor page_of_events Let_def split: if_splits)

text \<open>
  Reading the whole log page by page, each request finding the log as it is by then: the requests
  end when no cursor comes back.
\<close>

fun read_pages :: "string option \<Rightarrow> int option \<Rightarrow> nat option \<Rightarrow> event_row list list \<Rightarrow> (nat \<times> audit_event) list option" where
  "read_pages sid limit before [] = None"
| "read_pages sid limit before (rows # later) =
     (let p = page_of sid before limit rows
      in case page_next_cursor p of
           None \<Rightarrow> Some (page_events p)
         | Some c \<Rightarrow> map_option ((@) (page_events p)) (read_pages sid limit (Some c) later))"

fun growing :: "event_row list list \<Rightarrow> bool" where
  "growing [] = True"
| "growing [rows] = numbered rows"
| "growing (rows # rows' # later) = (numbered rows \<and> (\<exists>new. rows' = new @ rows) \<and> growing (rows' # later))"

lemma growing_numbered: "growing (rows # later) \<Longrightarrow> numbered rows"
  by (cases later) auto

lemma page_nonempty:
  "page_next_cursor (page_of sid before limit rows) = Some c \<Longrightarrow> page_events (page_of sid before limit rows) \<noteq> []"
  using page_size_bounds(1)[of limit]
  by (auto simp: page_of_cursor page_of_events entries_def Let_def split: if_splits)

lemma read_pages_all:
  "growing logs \<Longrightarrow> logs \<noteq> [] \<Longrightarrow> length (older_than before (rows_of_session sid (hd logs))) < length logs \<Longrightarrow>
   read_pages sid limit before logs = Some (entries (older_than before (rows_of_session sid (hd logs))))"
proof (induction sid limit before logs rule: read_pages.induct)
  case (2 sid limit before rows later)
  show ?case
  proof (cases "page_next_cursor (page_of sid before limit rows)")
    case None
    then show ?thesis using last_page_complete[OF None] by simp
  next
    case (Some c)
    have "later \<noteq> []" using "2.prems"(3) Some by (auto simp: page_of_cursor Let_def split: if_splits)
    then obtain rows' rest where later: "later = rows' # rest" by (cases later) auto
    obtain new where new: "rows' = new @ rows" and g: "growing later" using "2.prems"(1) later by auto
    have num: "numbered (new @ rows)" using growing_numbered g later new by blast
    note part = pages_partition[OF num Some]
    have "length (page_events (page_of sid before limit rows)) + length (older_than (Some c) (rows_of_session sid rows'))
        = length (older_than before (rows_of_session sid rows))"
      using arg_cong[OF part, of length] by (simp add: entries_def new)
    moreover have "0 < length (page_events (page_of sid before limit rows))" using page_nonempty[OF Some] by simp
    ultimately have "length (older_than (Some c) (rows_of_session sid rows')) < length (older_than before (rows_of_session sid rows))"
      by linarith
    then have "length (older_than (Some c) (rows_of_session sid (hd later))) < length later"
      using "2.prems"(3) later by simp
    from "2.IH"[OF refl Some g \<open>later \<noteq> []\<close> this] show ?thesis
      using Some part by (simp add: later new)
  qed
qed simp

text \<open>
  C34: following the cursors reads every event the first request could see, each exactly once and
  newest first, however many events are appended in between and whatever page size is asked for;
  no more requests are needed than there were events, and one.
\<close>

theorem pages_read_everything:
  assumes "growing (rows # later)" and "length (rows_of_session sid rows) \<le> length later"
  shows "read_pages sid limit None (rows # later) = Some (entries (rows_of_session sid rows))"
  using read_pages_all[OF assms(1), of None sid limit] assms(2) by (simp add: older_than_def)

end
