(* ===== verification/Firewall_Services.thy ===== *)
theory Firewall_Services
  imports Js_Regex
begin

text \<open>
  The simple firewall model (src/src/firewall/firewall-services.ts, the rule shapes of
  dto/firewall.dto.ts and the provider names of lib/providers.ts): services, their
  validation, their compilation to portable rules and back, the command-line syntax, and
  the choice of the engine.
\<close>

section \<open>Rules and services\<close>

datatype direction = Dir_In | Dir_Out

datatype protocol = Tcp | Udp | Icmp

record fw_rule =
  rule_id :: "string option"
  rule_description :: string
  rule_direction :: direction
  rule_protocol :: protocol
  rule_port :: "string option"
  rule_sources :: "string list option"
  rule_destinations :: "string list option"

text \<open>A service's protocol is \<open>Tcp\<close> or \<open>Udp\<close>.\<close>

record fw_service =
  svc_id :: string
  svc_label :: string
  svc_protocol :: protocol
  svc_port :: string
  svc_enabled :: bool
  svc_sources :: "string list"

fun protocol_text :: "protocol \<Rightarrow> string" where
  "protocol_text Tcp = ''tcp''"
| "protocol_text Udp = ''udp''"
| "protocol_text Icmp = ''icmp''"

record well_known =
  wk_id :: string
  wk_label :: string
  wk_protocol :: protocol
  wk_port :: string

definition WELL_KNOWN_SERVICES :: "well_known list" where
  "WELL_KNOWN_SERVICES = [
     \<lparr>wk_id = ''ssh'', wk_label = ''SSH'', wk_protocol = Tcp, wk_port = ''22''\<rparr>,
     \<lparr>wk_id = ''http'', wk_label = ''Web (HTTP)'', wk_protocol = Tcp, wk_port = ''80''\<rparr>,
     \<lparr>wk_id = ''https'', wk_label = ''Web (HTTPS)'', wk_protocol = Tcp, wk_port = ''443''\<rparr>]"

definition known_by_port :: "protocol \<Rightarrow> string \<Rightarrow> well_known option" where
  "known_by_port proto port = find (\<lambda>k. wk_protocol k = proto \<and> wk_port k = port) WELL_KNOWN_SERVICES"

definition service_to_rule :: "fw_service \<Rightarrow> fw_rule" where
  "service_to_rule s = \<lparr>rule_id = None, rule_description = svc_label s, rule_direction = Dir_In,
     rule_protocol = svc_protocol s, rule_port = Some (svc_port s),
     rule_sources = (if svc_sources s = [] then None else Some (svc_sources s)), rule_destinations = None\<rparr>"

definition servicesToRules :: "fw_service list \<Rightarrow> fw_rule list" where
  "servicesToRules services = map service_to_rule (filter svc_enabled services)"

section \<open>Validation\<close>

definition digits :: re where
  "digits = plus (Cls is_digit)"

definition dash :: re where
  "dash = Cls (\<lambda>c. c = CHR ''-'')"

definition port_item :: re where
  "port_item = Seq digits (opt (Seq dash digits))"

definition PORT_SPEC :: re where
  "PORT_SPEC = Seq port_item (Star (Seq (Cls (\<lambda>c. c = CHR '','')) port_item))"

definition split_ports :: "string \<Rightarrow> string list" where
  "split_ports s = concat (map (split_on CHR ''-'') (split_on CHR '','' s))"

definition portOk :: "string \<Rightarrow> bool" where
  "portOk port \<longleftrightarrow> full_match PORT_SPEC port \<and>
     list_all (\<lambda>n. 1 \<le> read_nat n \<and> read_nat n \<le> 65535) (split_ports port)"

definition all_digits :: "string \<Rightarrow> bool" where
  "all_digits s \<longleftrightarrow> s \<noteq> [] \<and> list_all is_digit s"

text \<open>The capture groups of \<open>V4_CIDR\<close> and of \<open>V6_CIDR\<close>, when the text matches.\<close>

definition v4_groups :: "string \<Rightarrow> (string list \<times> string option) option" where
  "v4_groups s =
     (let parts = split_on CHR ''/'' s; octets = split_on CHR ''.'' (hd parts)
      in if length octets = 4 \<and> list_all (\<lambda>x. all_digits x \<and> length x \<le> 3) octets
         then (case tl parts of
                 [] \<Rightarrow> Some (octets, None)
               | [b] \<Rightarrow> if all_digits b \<and> length b \<le> 2 then Some (octets, Some b) else None
               | _ \<Rightarrow> None)
         else None)"

definition hex_colon :: "char \<Rightarrow> bool" where
  "hex_colon c \<longleftrightarrow> is_digit c \<or> in_range CHR ''a'' CHR ''f'' c \<or> in_range CHR ''A'' CHR ''F'' c \<or> c = CHR '':''"

definition v6_groups :: "string \<Rightarrow> string option option" where
  "v6_groups s =
     (let parts = split_on CHR ''/'' s
      in if hd parts \<noteq> [] \<and> list_all hex_colon (hd parts)
         then (case tl parts of
                 [] \<Rightarrow> Some None
               | [b] \<Rightarrow> if all_digits b \<and> length b \<le> 3 then Some (Some b) else None
               | _ \<Rightarrow> None)
         else None)"

definition cidrOk :: "string \<Rightarrow> bool" where
  "cidrOk src =
     (let s = trim src in
      case v4_groups s of
        Some (octets, bits) \<Rightarrow> list_all (\<lambda>x. read_nat x \<le> 255) octets \<and>
          (case bits of None \<Rightarrow> True | Some b \<Rightarrow> read_nat b \<le> 32)
      | None \<Rightarrow> (case v6_groups s of
          None \<Rightarrow> False
        | Some bits \<Rightarrow> CHR '':'' \<in> set s \<and> (case bits of None \<Rightarrow> True | Some b \<Rightarrow> read_nat b \<le> 128)))"

definition service_error :: "fw_service \<Rightarrow> string option" where
  "service_error s =
     (if \<not> svc_enabled s then None
      else if \<not> portOk (trim (svc_port s))
      then Some (''Invalid port '' @ quoted (svc_port s) @ '' for '' @ svc_label s @
                 '' - use 8080, 8000-8100 or 80,443 (1-65535).'')
      else (case find (\<lambda>src. \<not> cidrOk src) (svc_sources s) of
              None \<Rightarrow> None
            | Some src \<Rightarrow> Some (''Invalid source '' @ quoted src @ '' for '' @ svc_label s @
                 '' - use a CIDR like 203.0.113.4/32.'')))"

fun firstServiceError :: "fw_service list \<Rightarrow> string option" where
  "firstServiceError [] = None"
| "firstServiceError (s # ss) = (case service_error s of Some m \<Rightarrow> Some m | None \<Rightarrow> firstServiceError ss)"

section \<open>Rules back to services\<close>

definition has_port :: "fw_rule \<Rightarrow> bool" where
  "has_port r \<longleftrightarrow> (case rule_port r of None \<Rightarrow> False | Some p \<Rightarrow> p \<noteq> [])"

definition isServiceRule :: "fw_rule \<Rightarrow> bool" where
  "isServiceRule r \<longleftrightarrow> rule_direction r = Dir_In \<and> (rule_protocol r = Tcp \<or> rule_protocol r = Udp) \<and> has_port r"

text \<open>\<open>/^(\d+)-(\d+)$/\<close>, as its two numbers.\<close>

definition range_groups :: "string \<Rightarrow> (nat \<times> nat) option" where
  "range_groups p = (case split_on CHR ''-'' p of
       [a, b] \<Rightarrow> if all_digits a \<and> all_digits b then Some (read_nat a, read_nat b) else None
     | _ \<Rightarrow> None)"

definition part_allows :: "nat \<Rightarrow> string \<Rightarrow> bool" where
  "part_allows port part =
     (let p = trim part in p = show_nat port \<or>
       (case range_groups p of None \<Rightarrow> False | Some (lo, hi) \<Rightarrow> lo \<le> port \<and> port \<le> hi))"

definition rulesAllowPort :: "fw_rule list \<Rightarrow> nat \<Rightarrow> bool" where
  "rulesAllowPort rules port \<longleftrightarrow> list_ex (\<lambda>r. rule_protocol r = Tcp \<and> has_port r \<and>
     list_ex (part_allows port) (split_on CHR '','' (the (rule_port r)))) rules"

definition rule_to_service :: "fw_rule \<Rightarrow> fw_service" where
  "rule_to_service r =
     (let proto = rule_protocol r; port = (case rule_port r of Some p \<Rightarrow> p | None \<Rightarrow> []);
          known = known_by_port proto port
      in \<lparr>svc_id = (case known of Some k \<Rightarrow> wk_id k | None \<Rightarrow> ''port-'' @ protocol_text proto @ ''-'' @ port),
          svc_label = (case known of Some k \<Rightarrow> wk_label k | None \<Rightarrow> ''Port '' @ port),
          svc_protocol = proto, svc_port = port, svc_enabled = True,
          svc_sources = (case rule_sources r of None \<Rightarrow> [] | Some ss \<Rightarrow> ss)\<rparr>)"

definition service_key :: "fw_service \<Rightarrow> protocol \<times> string" where
  "service_key s = (svc_protocol s, svc_port s)"

fun first_per_key :: "(protocol \<times> string) list \<Rightarrow> fw_service list \<Rightarrow> fw_service list" where
  "first_per_key seen [] = []"
| "first_per_key seen (s # ss) =
     (if service_key s \<in> set seen then first_per_key seen ss
      else s # first_per_key (service_key s # seen) ss)"

definition rulesToServices :: "fw_rule list \<Rightarrow> fw_service list" where
  "rulesToServices rules = first_per_key [] (map rule_to_service (filter isServiceRule rules))"

section \<open>Command line and client address\<close>

definition lower :: "string \<Rightarrow> string" where
  "lower = map to_lower"

definition parseServiceSpec :: "string \<Rightarrow> string + fw_service" where
  "parseServiceSpec token =
     (let parts = split_on CHR 0x40 (trim token); portPart = hd parts;
          sources = (case tl parts of [] \<Rightarrow> [] | src # _ \<Rightarrow> if src = [] then [] else [src])
      in case find (\<lambda>k. wk_id k = lower portPart) WELL_KNOWN_SERVICES of
        Some k \<Rightarrow> Inr \<lparr>svc_id = wk_id k, svc_label = wk_label k, svc_protocol = wk_protocol k, svc_port = wk_port k,
                      svc_enabled = True, svc_sources = sources\<rparr>
      | None \<Rightarrow>
          (let fields = split_on CHR ''/'' portPart; port = hd fields;
               proto = (case tl fields of [] \<Rightarrow> None | p # _ \<Rightarrow> Some p)
           in if \<not> full_match PORT_SPEC port
              then Inl (''Bad service '' @ quoted token @
                 ''. Use a name (ssh/http/https) or a port like 8080, 8000-8100 or 51820/udp.'')
              else (let protocol = (if proto = Some ''udp'' then Udp else Tcp) in
                Inr \<lparr>svc_id = ''port-'' @ protocol_text protocol @ ''-'' @ port, svc_label = ''Port '' @ port,
                     svc_protocol = protocol, svc_port = port, svc_enabled = True, svc_sources = sources\<rparr>)))"

definition address_char :: "char \<Rightarrow> bool" where
  "address_char c \<longleftrightarrow> hex_colon c \<or> c = CHR ''.''"

definition parseClientIp :: "string \<Rightarrow> string option" where
  "parseClientIp sshConnection =
     (let first = hd (split_spaces (trim sshConnection))
      in if 0 < length first \<and> list_all address_char first then Some first else None)"

section \<open>Providers and engines\<close>

datatype provider = Hetzner | Scaleway | Contabo | Ovh | Cherry

definition COMPARE_PROVIDERS :: "provider list" where
  "COMPARE_PROVIDERS = [Hetzner, Scaleway, Contabo, Ovh, Cherry]"

fun DISPLAY_NAMES :: "provider \<Rightarrow> string" where
  "DISPLAY_NAMES Hetzner = ''Hetzner Cloud''"
| "DISPLAY_NAMES Scaleway = ''Scaleway''"
| "DISPLAY_NAMES Contabo = ''Contabo''"
| "DISPLAY_NAMES Ovh = ''OVHcloud''"
| "DISPLAY_NAMES Cherry = ''Cherry Servers''"

definition squashed :: "string \<Rightarrow> string" where
  "squashed s = filter (\<lambda>c. \<not> is_space c) (lower s)"

text \<open>The enumeration's texts are the package's: \<open>pid\<close>.\<close>

definition resolveProvider :: "(provider \<Rightarrow> string) \<Rightarrow> string \<Rightarrow> provider option" where
  "resolveProvider pid name =
     (let n = squashed name
      in find (\<lambda>p. n = pid p \<or> starts_with n (pid p) \<or> squashed (DISPLAY_NAMES p) = n) COMPARE_PROVIDERS)"

definition hasNativeFirewall :: "provider \<Rightarrow> bool" where
  "hasNativeFirewall p \<longleftrightarrow> p = Hetzner \<or> p = Scaleway"

datatype engine = Provider_Engine | Nftables_Engine | No_Engine

definition providerHasNativeFirewall :: "(provider \<Rightarrow> string) \<Rightarrow> string \<Rightarrow> bool" where
  "providerHasNativeFirewall pid name = (case resolveProvider pid name of None \<Rightarrow> False | Some p \<Rightarrow> hasNativeFirewall p)"

definition resolveFirewallEngine :: "(provider \<Rightarrow> string) \<Rightarrow> string option \<Rightarrow> bool option \<Rightarrow> engine" where
  "resolveFirewallEngine pid provider sshManaged =
     (if (case provider of None \<Rightarrow> False | Some p \<Rightarrow> p \<noteq> [] \<and> providerHasNativeFirewall pid p) then Provider_Engine
      else if sshManaged \<noteq> Some False then Nftables_Engine
      else No_Engine)"

section \<open>Services that name themselves as the parser does\<close>

text \<open>A service as the parser and the reader produce it: named after its protocol and port, enabled.\<close>

definition canonical_service :: "fw_service \<Rightarrow> bool" where
  "canonical_service s \<longleftrightarrow> svc_enabled s \<and> svc_protocol s \<in> {Tcp, Udp} \<and> svc_port s \<noteq> [] \<and>
     (case known_by_port (svc_protocol s) (svc_port s) of
        Some k \<Rightarrow> svc_id s = wk_id k \<and> svc_label s = wk_label k
      | None \<Rightarrow> svc_id s = ''port-'' @ protocol_text (svc_protocol s) @ ''-'' @ svc_port s \<and>
                svc_label s = ''Port '' @ svc_port s)"

lemma read_back_service: "canonical_service s \<Longrightarrow> rule_to_service (service_to_rule s) = s"
  by (cases s) (auto simp: canonical_service_def rule_to_service_def service_to_rule_def Let_def split: option.splits)

lemma service_rule: "canonical_service s \<Longrightarrow> isServiceRule (service_to_rule s)"
  by (auto simp: canonical_service_def isServiceRule_def service_to_rule_def has_port_def)

lemma canonical_read: "isServiceRule r \<Longrightarrow> canonical_service (rule_to_service r)"
  by (auto simp: isServiceRule_def has_port_def canonical_service_def rule_to_service_def Let_def split: option.splits)

lemma first_per_key_distinct:
  "distinct (map service_key ss) \<Longrightarrow> set (map service_key ss) \<inter> set seen = {} \<Longrightarrow> first_per_key seen ss = ss"
  by (induction ss arbitrary: seen) auto

lemma first_per_key_sound:
  "distinct (map service_key (first_per_key seen ss)) \<and> set (first_per_key seen ss) \<subseteq> set ss \<and>
   set (map service_key (first_per_key seen ss)) \<inter> set seen = {}"
proof (induction ss arbitrary: seen)
  case (Cons s ss)
  show ?case using Cons[of seen] Cons[of "service_key s # seen"] by auto
qed simp

lemma servicesToRules_read:
  "list_all canonical_service ss \<Longrightarrow> map rule_to_service (filter isServiceRule (servicesToRules ss)) = ss"
  by (induction ss) (auto simp: servicesToRules_def service_rule read_back_service canonical_service_def)

text \<open>
  services compile to rules and read back: canonical services with one entry for each
  protocol and port come back the same, in order; and whatever rules are read, compiling what was
  read and reading it again changes nothing.
\<close>

theorem services_roundtrip:
  "(list_all canonical_service ss \<and> distinct (map service_key ss) \<longrightarrow> rulesToServices (servicesToRules ss) = ss) \<and>
   rulesToServices (servicesToRules (rulesToServices rules)) = rulesToServices rules"
proof -
  have one: "rulesToServices (servicesToRules ts) = ts" if "list_all canonical_service ts" "distinct (map service_key ts)" for ts
    using that by (simp add: rulesToServices_def servicesToRules_read first_per_key_distinct)
  let ?raw = "map rule_to_service (filter isServiceRule rules)"
  have "set (rulesToServices rules) \<subseteq> set ?raw" "distinct (map service_key (rulesToServices rules))"
    using first_per_key_sound[of "[]" ?raw] by (auto simp: rulesToServices_def)
  moreover have "list_all canonical_service ?raw" by (auto simp: list_all_iff canonical_read)
  ultimately have "list_all canonical_service (rulesToServices rules)"
    and "distinct (map service_key (rulesToServices rules))" by (auto simp: list_all_iff)
  then show ?thesis using one by blast
qed

section \<open>What the validation guarantees\<close>

definition port_char :: "char \<Rightarrow> bool" where
  "port_char c \<longleftrightarrow> is_digit c \<or> c = CHR ''-'' \<or> c = CHR '',''"

lemma PORT_SPEC_chars:
  assumes "full_match PORT_SPEC s"
  shows "list_all port_char s"
proof -
  have "confined (Collect port_char) PORT_SPEC"
    by (auto simp: PORT_SPEC_def port_item_def digits_def dash_def plus_def opt_def port_char_def)
  from full_match_chars[OF assms this] show ?thesis by (auto simp: list_all_iff)
qed

lemma firstServiceError_all: "firstServiceError ss = None \<Longrightarrow> s \<in> set ss \<Longrightarrow> service_error s = None"
  by (induction ss) (auto split: option.splits)

lemma v4_chars:
  assumes "v4_groups s = Some g"
  shows "list_all (\<lambda>c. is_digit c \<or> c = CHR ''.'' \<or> c = CHR ''/'') s"
proof -
  have sep: "list_all P (join [x] ps)" if "\<forall>p \<in> set ps. list_all P p" "P x" for P x and ps :: "string list"
    using that by (induction "[x]" ps rule: join.induct) auto
  let ?P = "\<lambda>c. is_digit c \<or> c = CHR ''.'' \<or> c = CHR ''/''"
  have hd: "list_all ?P (hd (split_on CHR ''/'' s))"
  proof -
    have "\<forall>p \<in> set (split_on CHR ''.'' (hd (split_on CHR ''/'' s))). list_all ?P p"
      using assms by (auto simp: v4_groups_def Let_def all_digits_def list_all_iff split: if_splits)
    from sep[OF this, of "CHR ''.''"] show ?thesis by (simp add: join_split_on)
  qed
  have "\<forall>p \<in> set (split_on CHR ''/'' s). list_all ?P p"
    using assms hd by (cases "split_on CHR ''/'' s")
      (auto simp: v4_groups_def Let_def all_digits_def list_all_iff split: if_splits list.splits)
  from sep[OF this, of "CHR ''/''"] show ?thesis by (simp add: join_split_on)
qed

lemma v6_chars:
  assumes "v6_groups s = Some g"
  shows "list_all (\<lambda>c. hex_colon c \<or> c = CHR ''/'') s"
proof -
  have sep: "list_all P (join [x] ps)" if "\<forall>p \<in> set ps. list_all P p" "P x" for P x and ps :: "string list"
    using that by (induction "[x]" ps rule: join.induct) auto
  have "\<forall>p \<in> set (split_on CHR ''/'' s). list_all (\<lambda>c. hex_colon c \<or> c = CHR ''/'') p"
    using assms by (cases "split_on CHR ''/'' s")
      (auto simp: v6_groups_def Let_def all_digits_def list_all_iff hex_colon_def split: if_splits list.splits)
  from sep[OF this, of "CHR ''/''"] show ?thesis by (simp add: join_split_on)
qed

definition source_char :: "char \<Rightarrow> bool" where
  "source_char c \<longleftrightarrow> hex_colon c \<or> c = CHR ''.'' \<or> c = CHR ''/''"

lemma port_spec_nonempty: "\<not> full_match PORT_SPEC []"
  by (simp add: full_match_def PORT_SPEC_def port_item_def digits_def plus_def)

text \<open>The port of an enabled, validated service is not blank.\<close>

lemma service_port_written:
  assumes "firstServiceError ss = None" and "s \<in> set ss" and "svc_enabled s"
  shows "trim (svc_port s) \<noteq> []"
  using firstServiceError_all[OF assms(1,2)] assms(3) port_spec_nonempty
  by (auto simp: service_error_def portOk_def split: if_splits)

text \<open>
  Services that pass the validation put nothing but numbers and addresses in a rule: an
  enabled service's port is digits, dashes and commas with every number between 1 and 65535, and
  each source, spaces at its ends apart, is hexadecimal digits, dots, colons and a slash.
\<close>

theorem validated_services:
  assumes "firstServiceError ss = None" and "s \<in> set ss" and "svc_enabled s"
  shows "list_all port_char (trim (svc_port s)) \<and> trim (svc_port s) \<noteq> [] \<and>
    (\<forall>n \<in> set (split_ports (trim (svc_port s))). 1 \<le> read_nat n \<and> read_nat n \<le> 65535) \<and>
    (\<forall>src \<in> set (svc_sources s). trim src \<noteq> [] \<and> list_all source_char (trim src))"
proof -
  have err: "service_error s = None" using firstServiceError_all[OF assms(1,2)] .
  then have port: "portOk (trim (svc_port s))"
    using assms(3) by (auto simp: service_error_def split: if_splits)
  have src: "cidrOk src" if "src \<in> set (svc_sources s)" for src
    using err assms(3) that by (auto simp: service_error_def find_None_iff split: if_splits option.splits)
  have chars: "list_all source_char (trim x)" and ne: "trim x \<noteq> []" if ok: "cidrOk x" for x
  proof -
    consider g where "v4_groups (trim x) = Some g" | g where "v6_groups (trim x) = Some g"
      using ok by (cases "v4_groups (trim x)"; cases "v6_groups (trim x)") (auto simp: cidrOk_def Let_def)
    then have "list_all source_char (trim x) \<and> trim x \<noteq> []"
    proof cases
      case 1
      then have "trim x \<noteq> []" by (auto simp: v4_groups_def all_digits_def)
      with v4_chars[OF 1] show ?thesis by (auto simp: list_all_iff source_char_def hex_colon_def)
    next
      case 2
      then have "trim x \<noteq> []" by (auto simp: v6_groups_def)
      with v6_chars[OF 2] show ?thesis by (auto simp: list_all_iff source_char_def)
    qed
    then show "list_all source_char (trim x)" "trim x \<noteq> []" by auto
  qed
  show ?thesis
    using port src chars ne PORT_SPEC_chars port_spec_nonempty by (auto simp: portOk_def list_all_iff)
qed

end
