(* ===== verification/Nftables.thy ===== *)
theory Nftables
  imports Firewall_Services
begin

text \<open>
  The nftables renderer (src/src/host-firewall/nftables.ts): portable rules become the text of
  one table. What the text lets in is given by a small semantics of its inbound lines, so that
  the rendering can be compared with the rules it was made from.
\<close>

section \<open>The renderer\<close>

record fw_options =
  opt_policy_accept :: bool
  opt_keep_ssh :: bool
  opt_ssh_port :: nat
  opt_ssh_always :: bool
  opt_allow_outbound :: bool
  opt_allow_ping :: bool

text \<open>\<open>HostFirewallOptions\<close> with every default taken.\<close>

definition default_options :: fw_options where
  "default_options = \<lparr>opt_policy_accept = False, opt_keep_ssh = True, opt_ssh_port = 22, opt_ssh_always = False,
     opt_allow_outbound = True, opt_allow_ping = True\<rparr>"

definition TABLE :: string where
  "TABLE = ''vops_fw''"

record inbound_line =
  il_proto :: protocol
  il_port_expr :: string
  il_v4 :: "string list"
  il_v6 :: "string list"

definition comma :: re where
  "comma = Cls (\<lambda>c. c = CHR '','')"

definition LIST_SPEC :: re where
  "LIST_SPEC = Seq port_item (plus (Seq comma port_item))"

definition PORT_LIST :: re where
  "PORT_LIST = Seq digits (plus (Seq comma digits))"

text \<open>\<open>replaceAll(',', ', ')\<close>\<close>

definition spaced :: "string \<Rightarrow> string" where
  "spaced s = concat (map (\<lambda>c. if c = CHR '','' then '', '' else [c]) s)"

definition portExpr :: "string option \<Rightarrow> string + string" where
  "portExpr port =
     (let trimmed = trim (case port of None \<Rightarrow> [] | Some p \<Rightarrow> p)
      in if trimmed = [] then Inr ''0-65535''
         else if all_digits trimmed then Inr trimmed
         else if range_groups trimmed \<noteq> None then Inr trimmed
         else if full_match LIST_SPEC trimmed then Inr (''{ '' @ spaced trimmed @ '' }'')
         else Inl (''Invalid port spec '' @ quoted (case port of None \<Rightarrow> ''undefined'' | Some p \<Rightarrow> p) @
                   ''. Use a port (8080), range (8000-8100), or list (80,443).''))"

definition any_cidr :: "string \<Rightarrow> bool" where
  "any_cidr c \<longleftrightarrow> c = ''0.0.0.0/0'' \<or> c = ''::/0''"

definition splitCidrs :: "string list option \<Rightarrow> string list \<times> string list" where
  "splitCidrs cidrs =
     (let specific = filter (\<lambda>c. \<not> any_cidr c) (case cidrs of None \<Rightarrow> [] | Some cs \<Rightarrow> cs)
      in (filter (\<lambda>c. CHR '':'' \<notin> set c) specific, filter (\<lambda>c. CHR '':'' \<in> set c) specific))"

definition inbound_of :: "fw_rule \<Rightarrow> string + inbound_line" where
  "inbound_of r = (case portExpr (rule_port r) of
       Inl m \<Rightarrow> Inl m
     | Inr e \<Rightarrow> (let (v4, v6) = splitCidrs (rule_sources r)
               in Inr \<lparr>il_proto = rule_protocol r, il_port_expr = e, il_v4 = v4, il_v6 = v6\<rparr>))"

fun map_or_fail :: "('a \<Rightarrow> 'e + 'b) \<Rightarrow> 'a list \<Rightarrow> 'e + 'b list" where
  "map_or_fail f [] = Inr []"
| "map_or_fail f (x # xs) = (case f x of Inl e \<Rightarrow> Inl e | Inr y \<Rightarrow>
     (case map_or_fail f xs of Inl e \<Rightarrow> Inl e | Inr ys \<Rightarrow> Inr (y # ys)))"

definition buildInboundLines :: "fw_rule list \<Rightarrow> string + inbound_line list" where
  "buildInboundLines inbound = map_or_fail inbound_of (filter (\<lambda>r. rule_protocol r = Tcp \<or> rule_protocol r = Udp) inbound)"

definition cidr_set :: "string list \<Rightarrow> string" where
  "cidr_set items = (case items of [x] \<Rightarrow> x | _ \<Rightarrow> ''{ '' @ join '', '' items @ '' }'')"

definition renderInbound :: "inbound_line \<Rightarrow> string" where
  "renderInbound l =
     (if il_v4 l = [] \<and> il_v6 l = []
      then protocol_text (il_proto l) @ '' dport '' @ il_port_expr l @ '' accept''
      else join (nl @ ''    '')
        ((if il_v4 l \<noteq> [] then [''ip saddr '' @ cidr_set (il_v4 l) @ '' '' @ protocol_text (il_proto l) @ '' dport '' @
            il_port_expr l @ '' accept''] else []) @
         (if il_v6 l \<noteq> [] then [''ip6 saddr '' @ cidr_set (il_v6 l) @ '' '' @ protocol_text (il_proto l) @ '' dport '' @
            il_port_expr l @ '' accept''] else [])))"

text \<open>Does a rule open the port already: exactly, as a member of a list of ports, or in a range?\<close>

definition coversPort :: "fw_rule \<Rightarrow> nat \<Rightarrow> bool" where
  "coversPort r port \<longleftrightarrow> rule_protocol r = Tcp \<and> has_port r \<and>
     (let p = trim (the (rule_port r)); s = show_nat port in
      if p = s then True
      else if full_match PORT_LIST p then s \<in> set (split_on CHR '','' p)
      else (case range_groups p of None \<Rightarrow> False | Some (lo, hi) \<Rightarrow> lo \<le> port \<and> port \<le> hi))"

definition keep_ssh_line :: "fw_rule list \<Rightarrow> fw_options \<Rightarrow> bool" where
  "keep_ssh_line inbound o1 \<longleftrightarrow> opt_ssh_always o1 \<or>
     (opt_keep_ssh o1 \<and> \<not> opt_policy_accept o1 \<and> \<not> list_ex (\<lambda>r. coversPort r (opt_ssh_port o1)) inbound)"

definition ssh_line :: "fw_options \<Rightarrow> string" where
  "ssh_line o1 = ''    tcp dport '' @ show_nat (opt_ssh_port o1) @ '' accept comment '' @ [CHR 0x22] @
     (if opt_ssh_always o1 then ''vops: keep-ssh-open (not closable)'' else ''vops: keep-ssh-open'') @ [CHR 0x22]"

text \<open>The lines of the input chain before those of the rules.\<close>

definition input_prelude :: "fw_rule list \<Rightarrow> fw_options \<Rightarrow> string list" where
  "input_prelude inbound o1 =
     [''    type filter hook input priority 0; policy '' @ (if opt_policy_accept o1 then ''accept'' else ''drop'') @ '';'',
      ''    ct state established,related accept'',
      ''    ct state invalid drop'',
      ''    iif '' @ [CHR 0x22] @ ''lo'' @ [CHR 0x22] @ '' accept''] @
     (if opt_allow_ping o1 \<or> list_ex (\<lambda>r. rule_protocol r = Icmp) inbound
      then [''    ip protocol icmp accept'', ''    meta l4proto icmpv6 accept''] else []) @
     (if keep_ssh_line inbound o1 then [ssh_line o1] else [])"

definition output_chain :: "fw_options \<Rightarrow> string list" where
  "output_chain o1 =
     [''    type filter hook output priority 0; policy '' @ (if opt_allow_outbound o1 then ''accept'' else ''drop'') @ '';''] @
     (if opt_allow_outbound o1 then []
      else [''    ct state established,related accept'', ''    oif '' @ [CHR 0x22] @ ''lo'' @ [CHR 0x22] @ '' accept''])"

definition ruleset_lines :: "fw_rule list \<Rightarrow> fw_options \<Rightarrow> inbound_line list \<Rightarrow> string list" where
  "ruleset_lines inbound o1 ls =
     [''#!/usr/sbin/nft -f'', [], ''table inet '' @ TABLE, ''delete table inet '' @ TABLE, [],
      ''table inet '' @ TABLE @ '' {'', ''  chain input {''] @
     input_prelude inbound o1 @ map (\<lambda>l. ''    '' @ renderInbound l) ls @
     [''  }'', ''  chain output {''] @ output_chain o1 @ [''  }'', ''}'']"

definition renderNftables :: "fw_rule list \<Rightarrow> fw_options \<Rightarrow> string + string" where
  "renderNftables rules o1 =
     (let inbound = filter (\<lambda>r. rule_direction r = Dir_In) rules
      in case buildInboundLines inbound of
           Inl m \<Rightarrow> Inl m
         | Inr ls \<Rightarrow> Inr (join nl (ruleset_lines inbound o1 ls) @ nl))"

definition renderSshRateLimit :: "nat option \<Rightarrow> nat option \<Rightarrow> nat option \<Rightarrow> string" where
  "renderSshRateLimit port rate burst =
     (let num = (\<lambda>v d. show_nat (case v of None \<Rightarrow> d | Some n \<Rightarrow> n))
      in join nl [''#!/usr/sbin/nft -f'', [], ''table inet vops_ssh_ratelimit {'', ''  chain input {'',
        ''    type filter hook input priority -10; policy accept;'',
        ''    tcp dport '' @ num port 22 @ '' ct state new limit rate over '' @ num rate 10 @ ''/minute burst '' @
          num burst 5 @ '' packets drop'',
        ''  }'', ''}'', []])"

definition renderCloudInit :: "fw_rule list \<Rightarrow> fw_options \<Rightarrow> string + string" where
  "renderCloudInit rules o1 = (case renderNftables rules o1 of
       Inl m \<Rightarrow> Inl m
     | Inr text \<Rightarrow>
         (let indented = join nl (map (\<lambda>l. if l = [] then [] else ''      '' @ l) (split_on (hd nl) (trim_end text)))
          in Inr (join nl [''#cloud-config'', ''package_update: true'', ''packages:'', ''  - nftables'', ''write_files:'',
               ''  - path: /etc/nftables.conf'', ''    permissions: '' @ [CHR 0x22] @ ''0755'' @ [CHR 0x22],
               ''    owner: root:root'', ''    content: |'', indented, ''runcmd:'', ''  - systemctl enable nftables'',
               ''  - nft -f /etc/nftables.conf'', []])))"

section \<open>Reading a ruleset\<close>

text \<open>
  The part of the ruleset language the renderer writes, read back from the text alone: lines of words,
  a chain with its policy, and statements that match on the state of the connection, the loopback
  device, ICMP, the source address and the destination port and then accept or drop. A line outside
  that part makes the whole text unreadable. A statement without a verdict decides nothing, as in the
  language itself. Whether \<open>nft\<close> loads a text it could read (it refuses overlapping elements of a set)
  is not considered.
\<close>

datatype ct_state = Ct_New | Ct_Established | Ct_Related | Ct_Invalid

datatype 'a address = V4 'a | V6 'a

record 'a packet =
  pk_state :: ct_state
  pk_iif_lo :: bool
  pk_oif_lo :: bool
  pk_proto :: protocol
  pk_port :: nat
  pk_src :: "'a address"

datatype fw_match =
  Match_State "ct_state list"
| Match_Iif_Lo
| Match_Oif_Lo
| Match_Icmp
| Match_Icmp6
| Match_Source "string list"
| Match_Source6 "string list"
| Match_Port protocol "string list"

datatype verdict = Accept | Drop

type_synonym statement = "fw_match list \<times> verdict option"
type_synonym fw_chain = "verdict \<times> statement list"

definition word_list :: "string \<Rightarrow> string list" where
  "word_list line = filter (\<lambda>w. w \<noteq> []) (split_on CHR '' '' line)"

text \<open>A single element, or elements between braces.\<close>

definition read_set :: "string list \<Rightarrow> (string list \<times> string list) option" where
  "read_set ws = (case ws of
       [] \<Rightarrow> None
     | w # rest \<Rightarrow> if w \<noteq> ''{'' then Some ([w], rest)
         else if ''}'' \<in> set rest
         then Some (split_on CHR '','' (concat (takeWhile (\<lambda>x. x \<noteq> ''}'') rest)), tl (dropWhile (\<lambda>x. x \<noteq> ''}'') rest))
         else None)"

definition read_state :: "string \<Rightarrow> ct_state option" where
  "read_state s = (if s = ''new'' then Some Ct_New else if s = ''established'' then Some Ct_Established
     else if s = ''related'' then Some Ct_Related else if s = ''invalid'' then Some Ct_Invalid else None)"

definition read_states :: "string \<Rightarrow> ct_state list option" where
  "read_states s = (if list_all (\<lambda>x. read_state x \<noteq> None) (split_on CHR '','' s)
     then Some (map (\<lambda>x. the (read_state x)) (split_on CHR '','' s)) else None)"

definition read_match :: "string list \<Rightarrow> (fw_match \<times> string list) option" where
  "read_match ws =
     (if take 2 ws = [''ct'', ''state''] \<and> 2 < length ws
      then map_option (\<lambda>ss. (Match_State ss, drop 3 ws)) (read_states (ws ! 2))
      else if take 2 ws = [''iif'', [CHR 0x22] @ ''lo'' @ [CHR 0x22]] then Some (Match_Iif_Lo, drop 2 ws)
      else if take 2 ws = [''oif'', [CHR 0x22] @ ''lo'' @ [CHR 0x22]] then Some (Match_Oif_Lo, drop 2 ws)
      else if take 3 ws = [''ip'', ''protocol'', ''icmp''] then Some (Match_Icmp, drop 3 ws)
      else if take 3 ws = [''meta'', ''l4proto'', ''icmpv6''] then Some (Match_Icmp6, drop 3 ws)
      else if take 2 ws = [''ip'', ''saddr''] then map_option (\<lambda>(xs, r). (Match_Source xs, r)) (read_set (drop 2 ws))
      else if take 2 ws = [''ip6'', ''saddr''] then map_option (\<lambda>(xs, r). (Match_Source6 xs, r)) (read_set (drop 2 ws))
      else if take 2 ws = [''tcp'', ''dport''] then map_option (\<lambda>(xs, r). (Match_Port Tcp xs, r)) (read_set (drop 2 ws))
      else if take 2 ws = [''udp'', ''dport''] then map_option (\<lambda>(xs, r). (Match_Port Udp xs, r)) (read_set (drop 2 ws))
      else None)"

definition quoted_words :: "string list \<Rightarrow> bool" where
  "quoted_words ws \<longleftrightarrow> ws \<noteq> [] \<and> hd (hd ws) = CHR 0x22 \<and> last (last ws) = CHR 0x22"

definition read_verdict :: "string list \<Rightarrow> verdict option option" where
  "read_verdict ws = (if ws = [] then Some None
     else if ws = [''drop''] then Some (Some Drop)
     else if ws = [''accept''] \<or> take 2 ws = [''accept'', ''comment''] \<and> quoted_words (drop 2 ws) then Some (Some Accept)
     else None)"

fun read_statement :: "string list \<Rightarrow> statement option" where
  "read_statement ws = (case read_verdict ws of
       Some v \<Rightarrow> Some ([], v)
     | None \<Rightarrow> (case read_match ws of
         None \<Rightarrow> None
       | Some (m, rest) \<Rightarrow> if length rest < length ws
           then map_option (\<lambda>(ms, v). (m # ms, v)) (read_statement rest) else None))"

declare read_statement.simps [simp del]

fun map_option_list :: "('a \<Rightarrow> 'b option) \<Rightarrow> 'a list \<Rightarrow> 'b list option" where
  "map_option_list f [] = Some []"
| "map_option_list f (x # xs) = (case f x of None \<Rightarrow> None | Some y \<Rightarrow> map_option ((#) y) (map_option_list f xs))"

definition read_policy :: "string \<Rightarrow> string list \<Rightarrow> verdict option" where
  "read_policy hook ws = (let start = [''type'', ''filter'', ''hook'', hook, ''priority'', ''0;'', ''policy''] in
     if ws = start @ [''accept;''] then Some Accept else if ws = start @ [''drop;''] then Some Drop else None)"

definition read_chain :: "string \<Rightarrow> string list list \<Rightarrow> (fw_chain \<times> string list list) option" where
  "read_chain name lines = (case lines of
       opening # policy # rest \<Rightarrow>
         if opening = [''chain'', name, ''{''] \<and> [''}''] \<in> set rest
         then (case (read_policy name policy, map_option_list read_statement (takeWhile (\<lambda>l. l \<noteq> [''}'']) rest)) of
             (Some v, Some rs) \<Rightarrow> Some ((v, rs), tl (dropWhile (\<lambda>l. l \<noteq> [''}'']) rest))
           | _ \<Rightarrow> None)
         else None
     | _ \<Rightarrow> None)"

text \<open>The words of each line that is not blank and not a comment.\<close>

definition text_words :: "string \<Rightarrow> string list list" where
  "text_words text = filter (\<lambda>ws. ws \<noteq> [] \<and> hd (hd ws) \<noteq> CHR ''#'') (map word_list (split_on (CHR 0x0A) text))"

text \<open>The managed table declared, deleted and defined anew with its two chains, and nothing else.\<close>

definition read_ruleset :: "string \<Rightarrow> (fw_chain \<times> fw_chain) option" where
  "read_ruleset text = (let ls = text_words text; start = [[''table'', ''inet'', TABLE],
       [''delete'', ''table'', ''inet'', TABLE], [''table'', ''inet'', TABLE, ''{'']] in
     if take 3 ls \<noteq> start then None
     else (case read_chain ''input'' (drop 3 ls) of
         None \<Rightarrow> None
       | Some (inp, rest) \<Rightarrow> (case read_chain ''output'' rest of
           None \<Rightarrow> None
         | Some (outp, rest') \<Rightarrow> if rest' = [[''}'']] then Some (inp, outp) else None)))"

section \<open>What a chain decides\<close>

text \<open>\<open>in_cidr c a\<close>: the address lies in the network the text names, for the kernel.\<close>

definition item_matches :: "nat \<Rightarrow> string \<Rightarrow> bool" where
  "item_matches n item \<longleftrightarrow> (all_digits item \<and> read_nat item = n) \<or>
     (case range_groups item of None \<Rightarrow> False | Some (lo, hi) \<Rightarrow> lo \<le> n \<and> n \<le> hi)"

fun fw_matches :: "(string \<Rightarrow> 'a \<Rightarrow> bool) \<Rightarrow> 'a packet \<Rightarrow> fw_match \<Rightarrow> bool" where
  "fw_matches in_cidr pkt (Match_State ss) = (pk_state pkt \<in> set ss)"
| "fw_matches in_cidr pkt Match_Iif_Lo = pk_iif_lo pkt"
| "fw_matches in_cidr pkt Match_Oif_Lo = pk_oif_lo pkt"
| "fw_matches in_cidr pkt Match_Icmp = (pk_proto pkt = Icmp \<and> (case pk_src pkt of V4 a \<Rightarrow> True | V6 a \<Rightarrow> False))"
| "fw_matches in_cidr pkt Match_Icmp6 = (pk_proto pkt = Icmp \<and> (case pk_src pkt of V4 a \<Rightarrow> False | V6 a \<Rightarrow> True))"
| "fw_matches in_cidr pkt (Match_Source cs) = (case pk_src pkt of V4 a \<Rightarrow> list_ex (\<lambda>c. in_cidr c a) cs | V6 a \<Rightarrow> False)"
| "fw_matches in_cidr pkt (Match_Source6 cs) = (case pk_src pkt of V4 a \<Rightarrow> False | V6 a \<Rightarrow> list_ex (\<lambda>c. in_cidr c a) cs)"
| "fw_matches in_cidr pkt (Match_Port proto ps) = (pk_proto pkt = proto \<and> list_ex (item_matches (pk_port pkt)) ps)"

fun run_statements :: "(string \<Rightarrow> 'a \<Rightarrow> bool) \<Rightarrow> 'a packet \<Rightarrow> statement list \<Rightarrow> verdict \<Rightarrow> verdict" where
  "run_statements in_cidr pkt [] policy = policy"
| "run_statements in_cidr pkt ((ms, v) # rs) policy = (case v of
       Some d \<Rightarrow> if list_all (fw_matches in_cidr pkt) ms then d else run_statements in_cidr pkt rs policy
     | None \<Rightarrow> run_statements in_cidr pkt rs policy)"

definition chain_verdict :: "(string \<Rightarrow> 'a \<Rightarrow> bool) \<Rightarrow> fw_chain \<Rightarrow> 'a packet \<Rightarrow> verdict" where
  "chain_verdict in_cidr ch pkt = run_statements in_cidr pkt (snd ch) (fst ch)"

text \<open>
  What a service lets in: its protocol and one of its ports and, once the sources that stand for every
  address are left out, one of its networks, or anybody when none is left.
\<close>

definition service_admits :: "(string \<Rightarrow> 'a \<Rightarrow> bool) \<Rightarrow> fw_service \<Rightarrow> 'a packet \<Rightarrow> bool" where
  "service_admits in_cidr s pkt \<longleftrightarrow> pk_proto pkt = svc_protocol s \<and>
     list_ex (item_matches (pk_port pkt)) (split_on CHR '','' (trim (svc_port s))) \<and>
     (let cs = filter (\<lambda>c. \<not> any_cidr c) (svc_sources s) in
      cs = [] \<or> list_ex (\<lambda>c. case pk_src pkt of V4 a \<Rightarrow> CHR '':'' \<notin> set c \<and> in_cidr c a | V6 a \<Rightarrow> CHR '':'' \<in> set c \<and> in_cidr c a) cs)"

section \<open>Port texts\<close>

lemma rx_digits:
  assumes "t \<in> set (rx digits s)"
  shows "\<exists>u. snd s = u @ snd t \<and> all_digits u"
proof -
  obtain m where m: "m \<in> set (rx (Cls is_digit) s)" "t \<in> set (rx (Star (Cls is_digit)) m)"
    using assms by (auto simp: digits_def plus_def simp del: rx.simps(2))
  obtain c cs where c: "snd s = c # cs" "is_digit c" "snd m = cs"
    using m(1) by (cases "snd s") (auto split: if_splits)
  obtain u where "snd m = u @ snd t" "set u \<subseteq> Collect is_digit"
    using rx_passed[OF m(2), of "Collect is_digit"] by (auto simp: passed_def)
  then have "snd s = (c # u) @ snd t" "all_digits (c # u)" using c by (auto simp: all_digits_def list_all_iff)
  then show ?thesis by blast
qed

lemma all_digits_no: "all_digits s \<Longrightarrow> \<not> is_digit c \<Longrightarrow> c \<notin> set s"
  by (auto simp: all_digits_def list_all_iff)

lemma range_groups_append:
  assumes "all_digits u" and "all_digits v"
  shows "range_groups (u @ CHR ''-'' # v) = Some (read_nat u, read_nat v)"
proof -
  have "CHR ''-'' \<notin> set u" "CHR ''-'' \<notin> set v" using all_digits_no[of _ "CHR ''-''"] assms by auto
  then show ?thesis using assms by (simp add: range_groups_def split_on_append split_on_no_sep)
qed

lemma port_item_shape:
  assumes "full_match port_item s"
  shows "all_digits s \<or> range_groups s \<noteq> None"
proof -
  obtain m t where m: "m \<in> set (rx digits ([], s))" and t: "t \<in> set (rx (opt (Seq dash digits)) m)" "snd t = []"
    using assms by (auto simp: full_match_def port_item_def)
  obtain u where u: "s = u @ snd m" "all_digits u" using rx_digits[OF m] by auto
  consider "t = m" | d where "d \<in> set (rx dash m)" "t \<in> set (rx digits d)"
    using t(1) by (auto simp: opt_def)
  then show ?thesis
  proof cases
    case 1
    then show ?thesis using u t(2) by simp
  next
    case 2
    then have "snd m = CHR ''-'' # snd d" by (auto simp: dash_def split: list.splits if_splits)
    moreover obtain v where "snd d = v" "all_digits v" using rx_digits[OF 2(2)] t(2) by auto
    ultimately show ?thesis using range_groups_append[OF u(2)] u(1) by simp
  qed
qed

lemma full_match_Seq_Star:
  assumes "full_match (Seq a (Star b)) s"
  shows "full_match a s \<or> full_match (Seq a (plus b)) s"
proof -
  obtain m t where m: "m \<in> set (rx a ([], s))" "t \<in> set (rx (Star b) m)" "snd t = []"
    using assms by (auto simp: full_match_def)
  then show ?thesis by (cases "t = m") (auto simp: full_match_def plus_def set_rx_Star[of t b m])
qed

lemma portExpr_total: "full_match PORT_SPEC (trim p) \<Longrightarrow> \<exists>e. portExpr (Some p) = Inr e"
  using full_match_Seq_Star[of port_item "Seq comma port_item" "trim p"] port_item_shape[of "trim p"]
  by (auto simp: portExpr_def Let_def LIST_SPEC_def PORT_SPEC_def comma_def)

text \<open>The items of a rendered port expression are those of the rule's port.\<close>

lemma split_spaced:
  "split_on CHR '','' (spaced s) = (case split_on CHR '','' s of [] \<Rightarrow> [] | p # ps \<Rightarrow> p # map ((#) CHR '' '') ps)"
proof (induction s)
  case (Cons c s)
  obtain p ps where "split_on CHR '','' s = p # ps" by (cases "split_on CHR '','' s") auto
  with Cons show ?case by (auto simp: spaced_def)
qed (simp add: spaced_def)

lemma trim_no_space: "\<forall>c \<in> set s. \<not> is_space c \<Longrightarrow> trim s = s"
proof -
  assume h: "\<forall>c \<in> set s. \<not> is_space c"
  have stop: "dropWhile is_space xs = xs" if "\<forall>c \<in> set xs. \<not> is_space c" for xs using that by (cases xs) auto
  show ?thesis using h by (simp add: trim_def trim_start_def trim_end_def stop)
qed

lemma trim_Cons_space: "trim (CHR '' '' # s) = trim s"
  by (simp add: trim_def trim_start_def is_space_def)

lemma port_char_not_space: "port_char c \<Longrightarrow> \<not> is_space c"
  by (auto simp: port_char_def is_space_def)

lemma LIST_SPEC_chars:
  assumes "full_match LIST_SPEC s"
  shows "list_all port_char s"
proof -
  have "confined (Collect port_char) LIST_SPEC"
    by (auto simp: LIST_SPEC_def comma_def port_item_def digits_def dash_def plus_def opt_def port_char_def)
  from full_match_chars[OF assms this] show ?thesis by (auto simp: list_all_iff)
qed

lemma split_on_chars: "x \<in> set (split_on c s) \<Longrightarrow> set x \<subseteq> set s"
proof (induction s arbitrary: x)
  case (Cons a s)
  obtain y ys where yys: "split_on c s = y # ys" by (cases "split_on c s") auto
  have "set y \<subseteq> set s" "\<forall>z \<in> set ys. set z \<subseteq> set s" using Cons.IH yys by auto
  with Cons.prems yys show ?case by (auto split: if_splits)
qed simp

lemma digit_hd: "all_digits s \<Longrightarrow> \<not> starts_with s ''{ ''"
  by (cases s) (auto simp: all_digits_def starts_with_def)

lemma range_shape: "range_groups s = Some g \<Longrightarrow> \<exists>u v. s = u @ CHR ''-'' # v \<and> all_digits u \<and> all_digits v"
  using join_split_on[of "CHR ''-''" s] by (auto simp: range_groups_def split: list.splits if_splits)

lemma portExpr_cases:
  "portExpr (Some p) = Inr e \<Longrightarrow> trim p \<noteq> [] \<Longrightarrow>
   (all_digits (trim p) \<and> e = trim p) \<or> (range_groups (trim p) \<noteq> None \<and> e = trim p) \<or>
   (full_match LIST_SPEC (trim p) \<and> e = ''{ '' @ spaced (trim p) @ '' }'')"
  unfolding portExpr_def Let_def option.case by (simp split: if_splits)

lemma map_or_fail_all:
  "\<forall>x \<in> set xs. \<exists>y. f x = Inr y \<Longrightarrow> \<exists>ys. map_or_fail f xs = Inr ys \<and> list_all2 (\<lambda>x y. f x = Inr y) xs ys"
  by (induction xs) auto

text \<open>The enabled services' rules all render, into one line each.\<close>

lemma validated_lines:
  assumes "firstServiceError ss = None" and "\<forall>s \<in> set ss. svc_protocol s \<in> {Tcp, Udp}"
  shows "\<exists>ls. buildInboundLines (servicesToRules ss) = Inr ls \<and>
    list_all2 (\<lambda>r l. inbound_of r = Inr l) (servicesToRules ss) ls"
proof -
  let ?rs = "servicesToRules ss"
  have all: "filter (\<lambda>r. rule_protocol r = Tcp \<or> rule_protocol r = Udp) ?rs = ?rs"
    using assms(2) by (auto simp: servicesToRules_def service_to_rule_def intro!: filter_True)
  have "\<exists>l. inbound_of r = Inr l" if r: "r \<in> set ?rs" for r
  proof -
    obtain s where s: "s \<in> set ss" "svc_enabled s" "r = service_to_rule s" using r by (auto simp: servicesToRules_def)
    have "portOk (trim (svc_port s))"
      using firstServiceError_all[OF assms(1) s(1)] s(2) by (auto simp: service_error_def split: if_splits)
    then obtain e where "portExpr (Some (svc_port s)) = Inr e" using portExpr_total by (auto simp: portOk_def)
    then show ?thesis by (auto simp: s(3) inbound_of_def service_to_rule_def split: prod.splits)
  qed
  then show ?thesis using map_or_fail_all[of ?rs inbound_of] all by (simp add: buildInboundLines_def)
qed

section \<open>The words of the rendering\<close>

lemma split_on_app: "split_on c (x @ c # y) = split_on c x @ split_on c y"
proof (induction x)
  case (Cons a x)
  obtain p ps where "split_on c x = p # ps" by (cases "split_on c x") auto
  with Cons show ?case by auto
qed simp

lemma word_list_app: "word_list (x @ CHR '' '' # y) = word_list x @ word_list y"
  by (simp add: word_list_def split_on_app)

lemma word_list_space: "word_list (CHR '' '' # y) = word_list y"
  by (simp add: word_list_def)

lemma word_list_word: "CHR '' '' \<notin> set w \<Longrightarrow> w \<noteq> [] \<Longrightarrow> word_list w = [w]"
  by (simp add: word_list_def split_on_no_sep)

lemma concat_word_list: "concat (word_list s) = filter (\<lambda>c. c \<noteq> CHR '' '') s"
proof (induction s)
  case (Cons a s)
  obtain p ps where "split_on CHR '' '' s = p # ps" by (cases "split_on CHR '' '' s") auto
  with Cons show ?case by (auto simp: word_list_def split: if_splits)
qed (simp add: word_list_def)

lemma word_list_chars: "w \<in> set (word_list s) \<Longrightarrow> w \<noteq> [] \<and> set w \<subseteq> set s - {CHR '' ''}"
  unfolding word_list_def using split_on_chars split_on_parts by fastforce

lemma text_words_app: "text_words (x @ (CHR 0x0A) # y) = text_words x @ text_words y"
  by (simp add: text_words_def split_on_app)

lemma text_words_line:
  assumes "(CHR 0x0A) \<notin> set s" and "word_list s \<noteq> []" and "hd (hd (word_list s)) \<noteq> CHR ''#''"
  shows "text_words s = [word_list s]"
  using assms by (simp add: text_words_def split_on_no_sep)

lemma text_words_join: "xs \<noteq> [] \<Longrightarrow> text_words (join nl xs) = concat (map text_words xs)"
proof (induction nl xs rule: join.induct)
  case (3 x y xs)
  then show ?case using text_words_app[of x "join nl (y # xs)"] by (simp add: nl_def)
qed simp_all

lemma text_words_lines: "xs \<noteq> [] \<Longrightarrow> text_words (join nl xs @ nl) = concat (map text_words xs)"
  using text_words_app[of "join nl xs" "[]"] text_words_join[of xs] by (simp add: nl_def) (simp add: text_words_def word_list_def)

text \<open>A set of elements without spaces, commas and braces reads back as its elements.\<close>

definition element :: "string \<Rightarrow> bool" where
  "element x \<longleftrightarrow> x \<noteq> [] \<and> (\<forall>c \<in> set x. c \<notin> {CHR '' '', CHR '','', CHR ''{'', CHR ''}'', CHR 0x0A, CHR ''#''})"

lemma spaced_join: "\<forall>x \<in> set xs. CHR '','' \<notin> set x \<Longrightarrow> filter (\<lambda>c. c \<noteq> CHR '' '') (join '', '' xs) =
    join '','' (map (filter (\<lambda>c. c \<noteq> CHR '' '')) xs)"
  by (induction "'', ''" xs rule: join.induct) auto

lemma join_chars: "c \<in> set (join sep xs) \<Longrightarrow> c \<in> set sep \<or> (\<exists>x \<in> set xs. c \<in> set x)"
  by (induction sep xs rule: join.induct) auto

lemma takeWhile_to: "y \<notin> set xs \<Longrightarrow> takeWhile (\<lambda>x. x \<noteq> y) (xs @ y # zs) = xs \<and> dropWhile (\<lambda>x. x \<noteq> y) (xs @ y # zs) = y # zs"
  by (induction xs) auto

lemma read_set_braces:
  assumes "xs \<noteq> []" and "\<forall>x \<in> set xs. element x"
  shows "read_set (word_list (''{ '' @ join '', '' xs @ '' }'') @ rest) = Some (xs, rest)"
proof -
  let ?ws = "word_list (join '', '' xs)"
  have "word_list (''{'' @ CHR '' '' # (join '', '' xs @ CHR '' '' # ''}'')) = ''{'' # ?ws @ [''}'']"
    by (simp only: word_list_app) (simp add: word_list_word)
  then have ws: "word_list (''{ '' @ join '', '' xs @ '' }'') = ''{'' # ?ws @ [''}'']" by simp
  have "CHR ''}'' \<notin> set (join '', '' xs)" using join_chars[of "CHR ''}''" "'', ''" xs] assms(2) by (auto simp: element_def)
  then have no: "''}'' \<notin> set ?ws" using word_list_chars[of "''}''" "join '', '' xs"] by auto
  have keep: "map (filter (\<lambda>c. c \<noteq> CHR '' '')) xs = xs" using assms(2) by (auto simp: element_def intro!: map_idI filter_True)
  have "concat ?ws = join '','' xs"
    unfolding concat_word_list using spaced_join[of xs] assms(2) keep by (auto simp: element_def)
  moreover have "split_on CHR '','' (join '','' xs) = xs"
    using assms by (intro split_on_join) (auto simp: element_def)
  ultimately show ?thesis
    unfolding ws read_set_def using takeWhile_to[OF no, of rest] by simp
qed

lemma read_set_one: "element x \<Longrightarrow> read_set (word_list x @ rest) = Some ([x], rest)"
proof -
  assume x: "element x"
  then have "CHR '' '' \<notin> set x" "x \<noteq> []" and brace: "CHR ''{'' \<notin> set x" unfolding element_def by blast+
  then have "word_list x = [x]" by (simp add: word_list_word)
  moreover have "x \<noteq> ''{''" using brace by auto
  ultimately show ?thesis by (simp add: read_set_def)
qed

lemma read_set_cidrs:
  assumes "xs \<noteq> []" and "\<forall>x \<in> set xs. element x"
  shows "read_set (word_list (cidr_set xs) @ rest) = Some (xs, rest)"
proof (cases "\<exists>x. xs = [x]")
  case True
  then show ?thesis using assms(2) read_set_one by (auto simp: cidr_set_def)
next
  case False
  then have "cidr_set xs = ''{ '' @ join '', '' xs @ '' }''" by (simp add: cidr_set_def split: list.split)
  then show ?thesis using read_set_braces[OF assms] by (simp only:)
qed

lemma spaced_items: "spaced s = join '', '' (split_on CHR '','' s)"
proof (induction s)
  case (Cons c s)
  obtain p ps where "split_on CHR '','' s = p # ps" by (cases "split_on CHR '','' s") auto
  with Cons show ?case by (cases ps) (auto simp: spaced_def)
qed (simp add: spaced_def)

lemma port_elements:
  assumes "portOk s" and "x \<in> set (split_on CHR '','' s)"
  shows "element x"
proof -
  have "list_all port_char s" using assms(1) PORT_SPEC_chars by (simp add: portOk_def)
  then have "\<forall>c \<in> set x. port_char c" using split_on_chars[OF assms(2)] by (auto simp: list_all_iff)
  moreover have "CHR '','' \<notin> set x" using split_on_parts[OF assms(2)] .
  moreover have "x \<noteq> []"
  proof
    assume "x = []"
    then have "[] \<in> set (split_ports s)" using assms(2) by (force simp: split_ports_def)
    then show False using assms(1) by (auto simp: portOk_def list_all_iff read_nat_def)
  qed
  ultimately show ?thesis by (auto simp: element_def port_char_def is_digit_def)
qed

text \<open>A rendered port expression reads back as the items of the port.\<close>

lemma portExpr_read:
  assumes "portExpr (Some p) = Inr e" and "portOk (trim p)"
  shows "read_set (word_list e @ rest) = Some (split_on CHR '','' (trim p), rest) \<and> CHR 0x0A \<notin> set e"
proof -
  have el: "\<forall>x \<in> set (split_on CHR '','' (trim p)). element x" using port_elements[OF assms(2)] by blast
  have ne: "trim p \<noteq> []" using assms(2) port_spec_nonempty by (auto simp: portOk_def)
  have line: "CHR 0x0A \<notin> set (join '', '' (split_on CHR '','' (trim p)))"
    using join_chars[of "CHR 0x0A" "'', ''" "split_on CHR '','' (trim p)"] el by (auto simp: element_def)
  have one: "read_set (word_list s @ rest) = Some (split_on CHR '','' s, rest) \<and> CHR 0x0A \<notin> set s"
    if "CHR '','' \<notin> set s" "s = trim p" for s
    using that el read_set_one[of s rest] by (auto simp: split_on_no_sep element_def)
  consider "all_digits (trim p)" "e = trim p" | g where "range_groups (trim p) = Some g" "e = trim p"
    | "e = ''{ '' @ spaced (trim p) @ '' }''"
    using portExpr_cases[OF assms(1) ne] by blast
  then show ?thesis
  proof cases
    case 1
    then show ?thesis using one[of "trim p"] all_digits_no[of "trim p" "CHR '',''"] by simp
  next
    case 2
    from range_shape[OF 2(1)] obtain u v where "trim p = u @ CHR ''-'' # v" "all_digits u" "all_digits v" by blast
    then have "CHR '','' \<notin> set (trim p)" using all_digits_no[of _ "CHR '',''"] by auto
    then show ?thesis using one 2(2) by simp
  next
    case 3
    have "CHR 0x0A \<notin> set e" unfolding 3 spaced_items using line by simp
    then show ?thesis using read_set_braces[OF _ el, of rest] unfolding 3 spaced_items by simp
  qed
qed

section \<open>The statements of a service\<close>

lemma read_accept: "read_statement [''accept''] = Some ([], Some Accept)"
  by (simp add: read_statement.simps read_verdict_def)

lemma read_port_statement:
  assumes "read_set (ws @ [''accept'']) = Some (items, [''accept''])" and "q \<in> {Tcp, Udp}"
  shows "read_statement ([protocol_text q, ''dport''] @ ws @ [''accept'']) = Some ([Match_Port q items], Some Accept)"
  using assms by (subst read_statement.simps) (auto simp: read_verdict_def read_match_def read_accept)

lemma read_source_statement:
  assumes "read_set (ws @ [''accept'']) = Some (items, [''accept''])" and "q \<in> {Tcp, Udp}"
    and "read_set (cs @ [protocol_text q, ''dport''] @ ws @ [''accept'']) = Some (xs, [protocol_text q, ''dport''] @ ws @ [''accept''])"
  shows "read_statement ([''ip'', ''saddr''] @ cs @ [protocol_text q, ''dport''] @ ws @ [''accept'']) =
      Some ([Match_Source xs, Match_Port q items], Some Accept)"
    and "read_statement ([''ip6'', ''saddr''] @ cs @ [protocol_text q, ''dport''] @ ws @ [''accept'']) =
      Some ([Match_Source6 xs, Match_Port q items], Some Accept)"
  using read_port_statement[OF assms(1,2)] assms(3)
  by (subst read_statement.simps, simp add: read_verdict_def read_match_def)+

lemma map_option_list_app: "map_option_list f (xs @ ys) = (case map_option_list f xs of None \<Rightarrow> None
    | Some us \<Rightarrow> map_option ((@) us) (map_option_list f ys))"
proof (cases "map_option_list f ys")
  case None
  then show ?thesis by (induction xs) (auto split: option.split)
next
  case (Some vs)
  then show ?thesis by (induction xs) (auto split: option.split)
qed

definition service_statements :: "fw_service \<Rightarrow> statement list" where
  "service_statements s =
     (let port = Match_Port (svc_protocol s) (split_on CHR '','' (trim (svc_port s)));
          cs = filter (\<lambda>c. \<not> any_cidr c) (svc_sources s);
          v4 = filter (\<lambda>c. CHR '':'' \<notin> set c) cs; v6 = filter (\<lambda>c. CHR '':'' \<in> set c) cs
      in if v4 = [] \<and> v6 = [] then [([port], Some Accept)]
         else (if v4 \<noteq> [] then [([Match_Source v4, port], Some Accept)] else []) @
              (if v6 \<noteq> [] then [([Match_Source6 v6, port], Some Accept)] else []))"

lemma statements_admit:
  "list_ex (\<lambda>(ms, v). list_all (fw_matches in_cidr pkt) ms) (service_statements s) \<longleftrightarrow> service_admits in_cidr s pkt"
proof -
  define cs where "cs = filter (\<lambda>c. \<not> any_cidr c) (svc_sources s)"
  define v4 where "v4 = filter (\<lambda>c. CHR '':'' \<notin> set c) cs"
  define v6 where "v6 = filter (\<lambda>c. CHR '':'' \<in> set c) cs"
  have none: "v4 = [] \<and> v6 = [] \<longleftrightarrow> cs = []" by (cases cs) (auto simp: v4_def v6_def)
  have v4: "list_ex (\<lambda>c. CHR '':'' \<notin> set c \<and> in_cidr c a) cs \<longleftrightarrow> list_ex (\<lambda>c. in_cidr c a) v4" for a
    by (auto simp: v4_def list_ex_iff)
  have v6: "list_ex (\<lambda>c. CHR '':'' \<in> set c \<and> in_cidr c a) cs \<longleftrightarrow> list_ex (\<lambda>c. in_cidr c a) v6" for a
    by (auto simp: v6_def list_ex_iff)
  have body: "service_statements s = (let port = Match_Port (svc_protocol s) (split_on CHR '','' (trim (svc_port s)))
      in if v4 = [] \<and> v6 = [] then [([port], Some Accept)]
         else (if v4 \<noteq> [] then [([Match_Source v4, port], Some Accept)] else []) @
              (if v6 \<noteq> [] then [([Match_Source6 v6, port], Some Accept)] else []))"
    by (simp add: service_statements_def v4_def v6_def cs_def Let_def)
  have "service_admits in_cidr s pkt \<longleftrightarrow> pk_proto pkt = svc_protocol s \<and>
     list_ex (item_matches (pk_port pkt)) (split_on CHR '','' (trim (svc_port s))) \<and>
     (v4 = [] \<and> v6 = [] \<or> (case pk_src pkt of V4 a \<Rightarrow> list_ex (\<lambda>c. in_cidr c a) v4 | V6 a \<Rightarrow> list_ex (\<lambda>c. in_cidr c a) v6))"
    unfolding service_admits_def Let_def cs_def[symmetric] none by (cases "pk_src pkt") (simp_all add: v4 v6)
  then show ?thesis
    unfolding body Let_def by (cases "pk_src pkt"; cases "v4 = []"; cases "v6 = []") auto
qed

lemma statements_accept: "st \<in> set (service_statements s) \<Longrightarrow> snd st = Some Accept"
  by (auto simp: service_statements_def Let_def split: if_splits)


lemma open_words:
  "word_list (protocol_text q @ '' dport '' @ e @ '' accept'') = [protocol_text q, ''dport''] @ word_list e @ [''accept'']"
proof -
  have "protocol_text q @ '' dport '' @ e @ '' accept'' = protocol_text q @ CHR '' '' # (''dport'' @ CHR '' '' # (e @ CHR '' '' # ''accept''))"
    by simp
  moreover have "word_list (protocol_text q) = [protocol_text q]" by (cases q) (simp_all add: word_list_word)
  ultimately show ?thesis by (simp only: word_list_app) (simp add: word_list_word)
qed

lemma source_words:
  "word_list (''ip saddr '' @ c @ '' '' @ t) = [''ip'', ''saddr''] @ word_list c @ word_list t"
  "word_list (''ip6 saddr '' @ c @ '' '' @ t) = [''ip6'', ''saddr''] @ word_list c @ word_list t"
proof -
  have "''ip saddr '' @ c @ '' '' @ t = ''ip'' @ CHR '' '' # (''saddr'' @ CHR '' '' # (c @ CHR '' '' # t))"
    "''ip6 saddr '' @ c @ '' '' @ t = ''ip6'' @ CHR '' '' # (''saddr'' @ CHR '' '' # (c @ CHR '' '' # t))" by simp_all
  then show "word_list (''ip saddr '' @ c @ '' '' @ t) = [''ip'', ''saddr''] @ word_list c @ word_list t"
    "word_list (''ip6 saddr '' @ c @ '' '' @ t) = [''ip6'', ''saddr''] @ word_list c @ word_list t"
    by (simp_all only: word_list_app) (simp_all add: word_list_word)
qed

lemma indented_line:
  assumes "CHR 0x0A \<notin> set t" and "word_list t = w # ws" and "hd w \<noteq> CHR ''#''"
  shows "text_words (''    '' @ t) = [w # ws]"
proof -
  have "word_list (''    '' @ t) = w # ws" using assms(2) by (simp add: word_list_space)
  then show ?thesis using assms(1,3) text_words_line[of "''    '' @ t"] by simp
qed

lemma cidr_set_cases: "(\<exists>x. xs = [x] \<and> cidr_set xs = x) \<or> cidr_set xs = ''{ '' @ join '', '' xs @ '' }''"
  by (auto simp: cidr_set_def split: list.split)

lemma cidr_set_line:
  assumes "\<forall>x \<in> set xs. element x"
  shows "CHR 0x0A \<notin> set (cidr_set xs)"
proof -
  have x: "CHR 0x0A \<notin> set x" if "x \<in> set xs" for x using assms that unfolding element_def by blast
  then have "CHR 0x0A \<notin> set (join '', '' xs)" using join_chars[of "CHR 0x0A" "'', ''" xs] by auto
  then have "CHR 0x0A \<notin> set (''{ '' @ join '', '' xs @ '' }'')" by simp
  then show ?thesis using cidr_set_cases[of xs] x by (metis list.set_intros(1))
qed

text \<open>What the renderer writes for a service reads back as the service's statements.\<close>

lemma inbound_read:
  assumes l: "inbound_of (service_to_rule s) = Inr l" and port: "portOk (trim (svc_port s))"
    and q: "svc_protocol s \<in> {Tcp, Udp}" and src: "\<forall>c \<in> set (svc_sources s). element c"
  shows "map_option_list read_statement (text_words (''    '' @ renderInbound l)) = Some (service_statements s) \<and>
    [''}''] \<notin> set (text_words (''    '' @ renderInbound l))"
proof -
  let ?q = "svc_protocol s" and ?items = "split_on CHR '','' (trim (svc_port s))"
  define cs where "cs = filter (\<lambda>c. \<not> any_cidr c) (svc_sources s)"
  define v4 where "v4 = filter (\<lambda>c. CHR '':'' \<notin> set c) cs"
  define v6 where "v6 = filter (\<lambda>c. CHR '':'' \<in> set c) cs"
  obtain e where e: "portExpr (Some (svc_port s)) = Inr e" "l = \<lparr>il_proto = ?q, il_port_expr = e, il_v4 = v4, il_v6 = v6\<rparr>"
    using l by (auto simp: inbound_of_def service_to_rule_def splitCidrs_def Let_def v4_def v6_def cs_def split: sum.splits if_splits)
  let ?open = "protocol_text ?q @ '' dport '' @ e @ '' accept''"
  let ?ows = "[protocol_text ?q, ''dport''] @ word_list e @ [''accept'']"
  have e1: "read_set (word_list e @ r) = Some (?items, r)" and e2: "CHR 0x0A \<notin> set e" for r
    using portExpr_read[OF e(1) port, of r] by auto
  have p: "protocol_text ?q \<in> {''tcp'', ''udp''}" using q by auto
  have open1: "CHR 0x0A \<notin> set ?open" using e2 p by auto
  have el: "\<forall>x \<in> set v4. element x" "\<forall>x \<in> set v6. element x" using src by (auto simp: v4_def v6_def cs_def)
  have none: "text_words (''    '' @ ?open) = [?ows]"
    using indented_line[OF open1, unfolded open_words, of "protocol_text ?q" "''dport'' # word_list e @ [''accept'']"] p by auto
  have read0: "read_statement ?ows = Some ([Match_Port ?q ?items], Some Accept)" by (rule read_port_statement[OF e1 q])
  have line4: "text_words (''    '' @ ''ip saddr '' @ cidr_set v4 @ '' '' @ ?open) = [[''ip'', ''saddr''] @ word_list (cidr_set v4) @ ?ows]"
    by (subst indented_line[of _ "''ip''" "''saddr'' # word_list (cidr_set v4) @ ?ows"])
       (use open1 cidr_set_line[OF el(1)] in \<open>simp_all add: source_words[of "cidr_set v4" ?open, simplified] open_words[simplified]\<close>)
  have line6: "text_words (''    '' @ ''ip6 saddr '' @ cidr_set v6 @ '' '' @ ?open) = [[''ip6'', ''saddr''] @ word_list (cidr_set v6) @ ?ows]"
    by (subst indented_line[of _ "''ip6''" "''saddr'' # word_list (cidr_set v6) @ ?ows"])
       (use open1 cidr_set_line[OF el(2)] in \<open>simp_all add: source_words[of "cidr_set v6" ?open, simplified] open_words[simplified]\<close>)
  have read4: "read_statement ([''ip'', ''saddr''] @ word_list (cidr_set v4) @ ?ows) = Some ([Match_Source v4, Match_Port ?q ?items], Some Accept)"
    if "v4 \<noteq> []" by (rule read_source_statement(1)[OF e1 q read_set_cidrs[OF that el(1)]])
  have read6: "read_statement ([''ip6'', ''saddr''] @ word_list (cidr_set v6) @ ?ows) = Some ([Match_Source6 v6, Match_Port ?q ?items], Some Accept)"
    if "v6 \<noteq> []" by (rule read_source_statement(2)[OF e1 q read_set_cidrs[OF that el(2)]])
  have body: "service_statements s = (let port = Match_Port ?q ?items
      in if v4 = [] \<and> v6 = [] then [([port], Some Accept)]
         else (if v4 \<noteq> [] then [([Match_Source v4, port], Some Accept)] else []) @
              (if v6 \<noteq> [] then [([Match_Source6 v6, port], Some Accept)] else []))"
    by (simp add: service_statements_def v4_def v6_def cs_def Let_def)
  have two: "text_words (''    '' @ a @ (nl @ ''    '') @ b) = text_words (''    '' @ a) @ text_words (''    '' @ b)" for a b
    using text_words_app[of "''    '' @ a" "''    '' @ b"] by (simp add: nl_def)
  have words: "text_words (''    '' @ renderInbound l) =
     (if v4 = [] \<and> v6 = [] then [?ows]
      else (if v4 \<noteq> [] then [[''ip'', ''saddr''] @ word_list (cidr_set v4) @ ?ows] else []) @
           (if v6 \<noteq> [] then [[''ip6'', ''saddr''] @ word_list (cidr_set v6) @ ?ows] else []))"
  proof -
    obtain t0 t4 t6 where t: "t0 = ?open" "t4 = ''ip saddr '' @ cidr_set v4 @ '' '' @ ?open" "t6 = ''ip6 saddr '' @ cidr_set v6 @ '' '' @ ?open"
      by blast
    have r: "renderInbound l = (if v4 = [] \<and> v6 = [] then t0
        else join (nl @ ''    '') ((if v4 \<noteq> [] then [t4] else []) @ (if v6 \<noteq> [] then [t6] else [])))"
      by (simp add: renderInbound_def e(2) t)
    show ?thesis
      unfolding r none[folded t(1), symmetric]
      using none[folded t(1)] line4[folded t(2)] line6[folded t(3)] two[of t4 t6]
      by (cases "v4 = []"; cases "v6 = []") (simp_all only: join.simps append.simps if_True if_False simp_thms)
  qed
  show ?thesis
    unfolding words body Let_def
    by (cases "v4 = []"; cases "v6 = []") (simp_all add: read0[simplified] read4[simplified] read6[simplified])
qed

section \<open>The whole ruleset\<close>

lemma inbounds_read:
  assumes "list_all2 (\<lambda>s l. inbound_of (service_to_rule s) = Inr l) ss ls"
    and "\<forall>s \<in> set ss. portOk (trim (svc_port s)) \<and> svc_protocol s \<in> {Tcp, Udp} \<and> (\<forall>c \<in> set (svc_sources s). element c)"
  shows "map_option_list read_statement (concat (map (\<lambda>l. text_words (''    '' @ renderInbound l)) ls)) =
      Some (concat (map service_statements ss)) \<and>
    [''}''] \<notin> set (concat (map (\<lambda>l. text_words (''    '' @ renderInbound l)) ls))"
  using assms
proof (induction rule: list_all2_induct)
  case (Cons s ss l ls)
  have "map_option_list read_statement (text_words (''    '' @ renderInbound l)) = Some (service_statements s)"
    "[''}''] \<notin> set (text_words (''    '' @ renderInbound l))"
    using inbound_read[OF Cons.hyps(1)] Cons.prems by auto
  with Cons show ?case by (simp add: map_option_list_app)
qed simp

definition ssh_words :: "fw_options \<Rightarrow> string list" where
  "ssh_words o1 = [''tcp'', ''dport'', show_nat (opt_ssh_port o1)] @
     word_list (drop 1 ('' accept comment '' @ [CHR 0x22] @
       (if opt_ssh_always o1 then ''vops: keep-ssh-open (not closable)'' else ''vops: keep-ssh-open'') @ [CHR 0x22]))"

lemma ssh_read:
  "text_words (ssh_line o1) = [ssh_words o1]"
  "read_statement (ssh_words o1) = Some ([Match_Port Tcp [show_nat (opt_ssh_port o1)]], Some Accept)"
  "ssh_words o1 \<noteq> [''}'']"
proof -
  let ?n = "show_nat (opt_ssh_port o1)"
  let ?c = "''accept comment '' @ [CHR 0x22] @
       (if opt_ssh_always o1 then ''vops: keep-ssh-open (not closable)'' else ''vops: keep-ssh-open'') @ [CHR 0x22]"
  have digits: "\<forall>c \<in> set ?n. is_digit c" using show_nat_digits by blast
  then have n: "CHR '' '' \<notin> set ?n" "CHR 0x0A \<notin> set ?n" "CHR ''{'' \<notin> set ?n" by (auto simp: is_digit_def)
  have line: "ssh_line o1 = ''    tcp dport'' @ CHR '' '' # (?n @ CHR '' '' # ?c)" by (simp add: ssh_line_def)
  have start: "word_list ''    tcp dport'' = [''tcp'', ''dport'']" by code_simp
  have words: "word_list (ssh_line o1) = ssh_words o1"
    unfolding line word_list_app start using n(1) by (simp add: word_list_word ssh_words_def)
  have "CHR 0x0A \<notin> set (ssh_line o1)" using n(2) by (simp add: line)
  then show "text_words (ssh_line o1) = [ssh_words o1]"
    using text_words_line[of "ssh_line o1"] unfolding words by (simp add: ssh_words_def)
  have verdict: "read_verdict (word_list ?c) = Some (Some Accept)"
    by (cases "opt_ssh_always o1"; simp only: if_True if_False; code_simp)
  obtain cw where cw: "cw = word_list ?c" by blast
  have shape: "ssh_words o1 = [''tcp'', ''dport''] @ [?n] @ cw" by (simp add: ssh_words_def cw)
  have no: "?n \<noteq> ''{''" using n(3) by auto
  have "read_statement cw = Some ([], Some Accept)" by (subst read_statement.simps) (simp only: cw verdict option.case)
  then show "read_statement (ssh_words o1) = Some ([Match_Port Tcp [?n]], Some Accept)"
    unfolding shape by (subst read_statement.simps) (simp add: read_verdict_def read_match_def read_set_def no)
  show "ssh_words o1 \<noteq> [''}'']" by (simp add: shape)
qed

definition policy_words :: "string \<Rightarrow> bool \<Rightarrow> string list" where
  "policy_words hook acc = [''type'', ''filter'', ''hook'', hook, ''priority'', ''0;'', ''policy'', if acc then ''accept;'' else ''drop;'']"

definition policy_of :: "bool \<Rightarrow> verdict" where
  "policy_of acc = (if acc then Accept else Drop)"

lemma read_policy_words: "read_policy hook (policy_words hook acc) = Some (policy_of acc)"
  by (simp add: read_policy_def policy_words_def policy_of_def)

definition prelude_statements :: "fw_rule list \<Rightarrow> fw_options \<Rightarrow> statement list" where
  "prelude_statements inbound o1 =
     [([Match_State [Ct_Established, Ct_Related]], Some Accept), ([Match_State [Ct_Invalid]], Some Drop), ([Match_Iif_Lo], Some Accept)] @
     (if opt_allow_ping o1 \<or> list_ex (\<lambda>r. rule_protocol r = Icmp) inbound
      then [([Match_Icmp], Some Accept), ([Match_Icmp6], Some Accept)] else []) @
     (if keep_ssh_line inbound o1 then [([Match_Port Tcp [show_nat (opt_ssh_port o1)]], Some Accept)] else [])"

definition output_statements :: "fw_options \<Rightarrow> statement list" where
  "output_statements o1 = (if opt_allow_outbound o1 then []
     else [([Match_State [Ct_Established, Ct_Related]], Some Accept), ([Match_Oif_Lo], Some Accept)])"

lemma policy_lines:
  "text_words (''    type filter hook input priority 0; policy '' @ (if acc then ''accept'' else ''drop'') @ '';'') = [policy_words ''input'' acc]"
  "text_words (''    type filter hook output priority 0; policy '' @ (if acc then ''accept'' else ''drop'') @ '';'') = [policy_words ''output'' acc]"
  by (cases acc; simp only: if_True if_False; code_simp)+

text \<open>The lines that are always the same, and how they read.\<close>

definition state_words :: "string list" where
  "state_words = [''ct'', ''state'', ''established,related'', ''accept'']"

definition invalid_words :: "string list" where
  "invalid_words = [''ct'', ''state'', ''invalid'', ''drop'']"

definition lo_words :: "string \<Rightarrow> string list" where
  "lo_words dev = [dev, [CHR 0x22] @ ''lo'' @ [CHR 0x22], ''accept'']"

definition ping_words :: "string list list" where
  "ping_words = [[''ip'', ''protocol'', ''icmp'', ''accept''], [''meta'', ''l4proto'', ''icmpv6'', ''accept'']]"

lemma fixed_lines:
  "text_words ''    ct state established,related accept'' = [state_words]"
  "text_words ''    ct state invalid drop'' = [invalid_words]"
  "text_words (''    iif '' @ [CHR 0x22] @ ''lo'' @ [CHR 0x22] @ '' accept'') = [lo_words ''iif'']"
  "text_words (''    oif '' @ [CHR 0x22] @ ''lo'' @ [CHR 0x22] @ '' accept'') = [lo_words ''oif'']"
  "text_words ''    ip protocol icmp accept'' @ text_words ''    meta l4proto icmpv6 accept'' = ping_words"
  by code_simp+

lemma fixed_reads:
  "read_statement state_words = Some ([Match_State [Ct_Established, Ct_Related]], Some Accept)"
  "read_statement invalid_words = Some ([Match_State [Ct_Invalid]], Some Drop)"
  "read_statement (lo_words ''iif'') = Some ([Match_Iif_Lo], Some Accept)"
  "read_statement (lo_words ''oif'') = Some ([Match_Oif_Lo], Some Accept)"
  "map_option_list read_statement ping_words = Some [([Match_Icmp], Some Accept), ([Match_Icmp6], Some Accept)]"
  "[''}''] \<notin> set (state_words # invalid_words # lo_words ''iif'' # lo_words ''oif'' # ping_words)"
  by code_simp+

lemma prelude_read:
  "\<exists>ws. concat (map text_words (input_prelude inbound o1)) = policy_words ''input'' (opt_policy_accept o1) # ws \<and>
     map_option_list read_statement ws = Some (prelude_statements inbound o1) \<and> [''}''] \<notin> set ws"
proof -
  let ?ping = "opt_allow_ping o1 \<or> list_ex (\<lambda>r. rule_protocol r = Icmp) inbound"
  let ?ws = "[state_words, invalid_words, lo_words ''iif''] @ (if ?ping then ping_words else []) @
    (if keep_ssh_line inbound o1 then [ssh_words o1] else [])"
  have "concat (map text_words (input_prelude inbound o1)) = policy_words ''input'' (opt_policy_accept o1) # ?ws"
    unfolding input_prelude_def
    by (simp only: list.map map_append if_distrib[of "map text_words"] concat_append concat.simps append_Nil2 append.simps(1) append_assoc
        policy_lines fixed_lines(1-3) ssh_read(1) if_distrib[of concat] fixed_lines(5)) simp
  moreover have "map_option_list read_statement ?ws = Some (prelude_statements inbound o1)"
    by (cases ?ping; cases "keep_ssh_line inbound o1") (simp_all add: map_option_list_app fixed_reads ssh_read(2) prelude_statements_def)
  moreover have "[''}''] \<notin> set ?ws" using fixed_reads(6) ssh_read(3)[of o1] by auto
  ultimately show ?thesis by blast
qed

lemma output_read:
  "\<exists>ws. concat (map text_words (output_chain o1)) = policy_words ''output'' (opt_allow_outbound o1) # ws \<and>
     map_option_list read_statement ws = Some (output_statements o1) \<and> [''}''] \<notin> set ws"
proof -
  let ?ws = "if opt_allow_outbound o1 then [] else [state_words, lo_words ''oif'']"
  have "concat (map text_words (output_chain o1)) = policy_words ''output'' (opt_allow_outbound o1) # ?ws"
    unfolding output_chain_def
    by (simp only: list.map map_append if_distrib[of "map text_words"] concat_append if_distrib[of concat] concat.simps
        append_Nil2 append.simps(1) append_assoc policy_lines fixed_lines(1,4)) simp
  moreover have "map_option_list read_statement ?ws = Some (output_statements o1)"
    by (simp add: fixed_reads output_statements_def)
  moreover have "[''}''] \<notin> set ?ws" using fixed_reads(6) by auto
  ultimately show ?thesis by blast
qed

definition head_words :: "string list list" where
  "head_words = [[''table'', ''inet'', TABLE], [''delete'', ''table'', ''inet'', TABLE], [''table'', ''inet'', TABLE, ''{'']]"

definition chain_words :: "string \<Rightarrow> string list" where
  "chain_words name = [''chain'', name, ''{'']"

lemma frame_lines:
  "concat (map text_words [''#!/usr/sbin/nft -f'', [], ''table inet '' @ TABLE, ''delete table inet '' @ TABLE, [],
      ''table inet '' @ TABLE @ '' {'', ''  chain input {'']) = head_words @ [chain_words ''input'']"
  "concat (map text_words [''  }'', ''  chain output {'']) = [[''}''], chain_words ''output'']"
  "concat (map text_words [''  }'', ''}'']) = [[''}''], [''}'']]"
  by code_simp+

lemma read_chain_words:
  assumes "map_option_list read_statement ws = Some rs" and "[''}''] \<notin> set ws"
  shows "read_chain name (chain_words name # policy_words name acc # ws @ [''}''] # rest) = Some ((policy_of acc, rs), rest)"
  using takeWhile_to[OF assms(2), of rest] assms(1) by (simp add: read_chain_def chain_words_def read_policy_words)

text \<open>The rendered text reads back as the two chains.\<close>

lemma rendering_read:
  assumes "list_all2 (\<lambda>s l. inbound_of (service_to_rule s) = Inr l) ss ls"
    and "\<forall>s \<in> set ss. portOk (trim (svc_port s)) \<and> svc_protocol s \<in> {Tcp, Udp} \<and> (\<forall>c \<in> set (svc_sources s). element c)"
  shows "read_ruleset (join nl (ruleset_lines inbound o1 ls) @ nl) =
    Some ((policy_of (opt_policy_accept o1), prelude_statements inbound o1 @ concat (map service_statements ss)),
          (policy_of (opt_allow_outbound o1), output_statements o1))"
proof -
  obtain ws where ws: "concat (map text_words (input_prelude inbound o1)) = policy_words ''input'' (opt_policy_accept o1) # ws"
    "map_option_list read_statement ws = Some (prelude_statements inbound o1)" "[''}''] \<notin> set ws"
    using prelude_read by blast
  obtain us where us: "concat (map text_words (output_chain o1)) = policy_words ''output'' (opt_allow_outbound o1) # us"
    "map_option_list read_statement us = Some (output_statements o1)" "[''}''] \<notin> set us"
    using output_read by blast
  obtain vs where v: "vs = concat (map (\<lambda>l. text_words (''    '' @ renderInbound l)) ls)" by blast
  have vs: "map_option_list read_statement vs = Some (concat (map service_statements ss))" "[''}''] \<notin> set vs"
    using inbounds_read[OF assms] unfolding v by blast+
  have body: "map_option_list read_statement (ws @ vs) = Some (prelude_statements inbound o1 @ concat (map service_statements ss))"
    "[''}''] \<notin> set (ws @ vs)" using ws(2,3) vs by (simp_all add: map_option_list_app)
  have "text_words (join nl (ruleset_lines inbound o1 ls) @ nl) = concat (map text_words (ruleset_lines inbound o1 ls))"
    by (rule text_words_lines) (simp add: ruleset_lines_def)
  also have "\<dots> = head_words @ [chain_words ''input''] @ (policy_words ''input'' (opt_policy_accept o1) # ws) @ vs @
      [[''}''], chain_words ''output''] @ (policy_words ''output'' (opt_allow_outbound o1) # us) @ [[''}''], [''}'']]"
    unfolding ruleset_lines_def map_append concat_append frame_lines ws(1) us(1) by (simp add: comp_def v)
  finally have words: "text_words (join nl (ruleset_lines inbound o1 ls) @ nl) = head_words @
      (chain_words ''input'' # policy_words ''input'' (opt_policy_accept o1) # (ws @ vs) @ [''}''] #
       (chain_words ''output'' # policy_words ''output'' (opt_allow_outbound o1) # us @ [''}''] # [[''}'']]))"
    by simp
  have "take 3 (head_words @ xs) = head_words" "drop 3 (head_words @ xs) = xs" for xs by (simp_all add: head_words_def)
  then show ?thesis
    unfolding read_ruleset_def Let_def words head_words_def[symmetric] read_chain_words[OF body]
    by (simp only: read_chain_words[OF body] read_chain_words[OF us(2,3)] option.case prod.case simp_thms if_True if_False)
qed

lemma run_accepting:
  "\<forall>st \<in> set rs. snd st = Some Accept \<Longrightarrow> run_statements in_cidr pkt rs pol = Accept \<longleftrightarrow>
     pol = Accept \<or> list_ex (\<lambda>(ms, v). list_all (fw_matches in_cidr pkt) ms) rs"
  by (induction rs) (auto split: if_splits)

lemma show_nat_item: "item_matches n (show_nat m) \<longleftrightarrow> n = m"
proof -
  have "all_digits (show_nat m)" using show_nat_digits by (auto simp: all_digits_def list_all_iff)
  moreover have "range_groups (show_nat m) = None"
    using calculation all_digits_no[of "show_nat m" "CHR ''-''"] by (simp add: range_groups_def split_on_no_sep)
  ultimately show ?thesis by (auto simp: item_matches_def)
qed

lemma source_element:
  assumes "cidrOk c" and "trim c = c" and "list_all source_char (trim c)" and "trim c \<noteq> []"
  shows "element c"
  using assms(2-4) by (auto simp: element_def list_all_iff source_char_def hex_colon_def is_digit_def in_range_def)

lemma input_verdict:
  assumes "opt_ssh_always o1" and "\<forall>r \<in> set inbound. rule_protocol r \<noteq> Icmp" and "policy_of (opt_policy_accept o1) = pol"
  shows "chain_verdict in_cidr (pol, prelude_statements inbound o1 @ concat (map service_statements ss)) pkt = Accept \<longleftrightarrow>
     pk_state pkt \<in> {Ct_Established, Ct_Related} \<or>
     pk_state pkt = Ct_New \<and> (opt_policy_accept o1 \<or> pk_iif_lo pkt \<or> pk_proto pkt = Icmp \<and> opt_allow_ping o1 \<or>
       pk_proto pkt = Tcp \<and> pk_port pkt = opt_ssh_port o1 \<or> (\<exists>s \<in> set ss. service_admits in_cidr s pkt))"
proof -
  let ?m = "\<lambda>(ms, v). list_all (fw_matches in_cidr pkt) ms"
  let ?ping = "if opt_allow_ping o1 then [([Match_Icmp], Some Accept), ([Match_Icmp6], Some Accept)] else []"
  let ?tail = "([Match_Iif_Lo], Some Accept) # ?ping @ [([Match_Port Tcp [show_nat (opt_ssh_port o1)]], Some Accept)] @
    concat (map service_statements ss)"
  have shape: "prelude_statements inbound o1 @ concat (map service_statements ss) =
      ([Match_State [Ct_Established, Ct_Related]], Some Accept) # ([Match_State [Ct_Invalid]], Some Drop) # ?tail"
    using assms(1,2) by (auto simp: prelude_statements_def keep_ssh_line_def list_ex_iff)
  have services: "list_ex ?m (concat (map service_statements ss)) \<longleftrightarrow> (\<exists>s \<in> set ss. service_admits in_cidr s pkt)"
    unfolding statements_admit[symmetric] by (induction ss) auto
  have ping: "list_ex ?m ?ping \<longleftrightarrow> opt_allow_ping o1 \<and> pk_proto pkt = Icmp" by (cases "pk_src pkt") auto
  have "list_ex ?m ?tail \<longleftrightarrow> pk_iif_lo pkt \<or> pk_proto pkt = Icmp \<and> opt_allow_ping o1 \<or>
      pk_proto pkt = Tcp \<and> pk_port pkt = opt_ssh_port o1 \<or> (\<exists>s \<in> set ss. service_admits in_cidr s pkt)"
  proof -
    have "list_ex ?m ?tail \<longleftrightarrow> pk_iif_lo pkt \<or> list_ex ?m ?ping \<or> (pk_proto pkt = Tcp \<and> item_matches (pk_port pkt) (show_nat (opt_ssh_port o1))) \<or>
        list_ex ?m (concat (map service_statements ss))"
      by simp
    then show ?thesis unfolding services ping show_nat_item by blast
  qed
  moreover have "\<forall>st \<in> set ?tail. snd st = Some Accept" using statements_accept by auto
  then have "run_statements in_cidr pkt ?tail pol = Accept \<longleftrightarrow> pol = Accept \<or> list_ex ?m ?tail" by (rule run_accepting)
  moreover have "pol = Accept \<longleftrightarrow> opt_policy_accept o1" using assms(3) by (auto simp: policy_of_def split: if_splits)
  ultimately show ?thesis
    unfolding chain_verdict_def shape fst_conv snd_conv run_statements.simps(2) option.case
    by (cases "pk_state pkt") simp_all
qed

lemma output_verdict:
  "chain_verdict in_cidr (policy_of (opt_allow_outbound o1), output_statements o1) pkt = Accept \<longleftrightarrow>
     opt_allow_outbound o1 \<or> pk_state pkt \<in> {Ct_Established, Ct_Related} \<or> pk_oif_lo pkt"
  by (auto simp: chain_verdict_def output_statements_def policy_of_def)


text \<open>
  A rule that names \<open>0.0.0.0/0\<close> is not what it says. Alone it becomes a line without a
  source, which lets IPv6 in as well; next to an IPv6 network it becomes a line for that
  network only, and every IPv4 address it names is shut out.
\<close>

theorem any_v4_source:
  assumes "rule_protocol r = Tcp" and "rule_port r = Some ''80''"
  shows "(rule_sources r = Some [''0.0.0.0/0''] \<longrightarrow>
      (\<exists>l. inbound_of r = Inr l \<and> renderInbound l = ''tcp dport 80 accept'')) \<and>
    (rule_sources r = Some [''0.0.0.0/0'', ''2001:db8::/32''] \<longrightarrow>
      (\<exists>l. inbound_of r = Inr l \<and> renderInbound l = ''ip6 saddr 2001:db8::/32 tcp dport 80 accept''))"
proof -
  have e: "portExpr (Some ''80'') = Inr ''80''" by code_simp
  show ?thesis
    using assms by (auto simp: inbound_of_def e splitCidrs_def any_cidr_def renderInbound_def cidr_set_def)
qed

text \<open>
  The validation trims a source, the renderer does not: a source with a line break at its end passes,
  and its line breaks in two, of which the second opens the port to everybody.
\<close>

definition broken_source :: fw_service where
  "broken_source = \<lparr>svc_id = ''x'', svc_label = ''x'', svc_protocol = Tcp, svc_port = ''80'', svc_enabled = True,
     svc_sources = [''10.0.0.1'' @ nl]\<rparr>"

theorem line_break_opens:
  "firstServiceError [broken_source] = None \<and>
   (case inbound_of (service_to_rule broken_source) of
      Inl m \<Rightarrow> False
    | Inr l \<Rightarrow> map_option_list read_statement (text_words (''    '' @ renderInbound l)) =
        Some [([Match_Source [''10.0.0.1'']], None), ([Match_Port Tcp [''80'']], Some Accept)])"
proof (rule conjI)
  have t: "trim ''80'' = ''80''" "split_ports ''80'' = [''80'']" "full_match PORT_SPEC ''80''"
    "v4_groups (trim (''10.0.0.1'' @ nl)) = Some ([''10'', ''0'', ''0'', ''1''], None)" by code_simp+
  have n: "read_nat ''80'' = 80" "read_nat ''10'' = 10" "read_nat ''0'' = 0" "read_nat ''1'' = 1" by code_simp+
  show "firstServiceError [broken_source] = None"
    by (simp add: broken_source_def service_error_def portOk_def cidrOk_def Let_def t[simplified] n)
  have l: "inbound_of (service_to_rule broken_source) =
      Inr \<lparr>il_proto = Tcp, il_port_expr = ''80'', il_v4 = [''10.0.0.1'' @ nl], il_v6 = []\<rparr>" by code_simp
  have w: "text_words (''    '' @ renderInbound \<lparr>il_proto = Tcp, il_port_expr = ''80'', il_v4 = [''10.0.0.1'' @ nl], il_v6 = []\<rparr>) =
      [[''ip'', ''saddr'', ''10.0.0.1''], [''tcp'', ''dport'', ''80'', ''accept'']]" by code_simp
  have "map_option_list read_statement [[''ip'', ''saddr'', ''10.0.0.1''], [''tcp'', ''dport'', ''80'', ''accept'']] =
      Some [([Match_Source [''10.0.0.1'']], None), ([Match_Port Tcp [''80'']], Some Accept)]" by code_simp
  then show "case inbound_of (service_to_rule broken_source) of
      Inl m \<Rightarrow> False
    | Inr l \<Rightarrow> map_option_list read_statement (text_words (''    '' @ renderInbound l)) =
        Some [([Match_Source [''10.0.0.1'']], None), ([Match_Port Tcp [''80'']], Some Accept)]"
    unfolding l sum.case w .
qed

end
