(* ===== verification/Authorized_Keys.thy ===== *)
theory Authorized_Keys
  imports Js_Regex
begin

text \<open>
  The transforms of a host's authorized_keys file (src/src/host-ops/authorized-keys.ts): how
  vops finds its own line by its tag, replaces and removes it, decides whether removing it is
  safe, and classifies the state of a key rotation.
\<close>

section \<open>Lines of the file\<close>

definition opsTag :: "string \<Rightarrow> string" where
  "opsTag profileId = ''vops-ops:'' @ profileId"

definition newline :: char where
  "newline = CHR 0x0A"

definition isKeyType :: "string \<Rightarrow> bool" where
  "isKeyType tok \<longleftrightarrow> starts_with tok ''ssh-'' \<or> starts_with tok ''ecdsa-sha2-'' \<or> starts_with tok ''sk-ssh-'' \<or>
     starts_with tok ''sk-ecdsa-''"

definition toLines :: "string \<Rightarrow> string list" where
  "toLines content =
     (let trimmed = rev (dropWhile (\<lambda>c. c = newline) (rev content))
      in if trimmed \<noteq> [] then split_on newline trimmed else [])"

definition fromLines :: "string list \<Rightarrow> string" where
  "fromLines lines = (if lines \<noteq> [] then join [newline] lines @ [newline] else [])"

text \<open>\<open>parts[n] ?? ''\<close>\<close>

definition field :: "nat \<Rightarrow> string list \<Rightarrow> string" where
  "field n parts = (if n < length parts then parts ! n else [])"

definition isKeyLine :: "string \<Rightarrow> bool" where
  "isKeyLine line =
     (let t = trim line
      in if t = [] \<or> starts_with t ''#'' then False
         else let parts = split_spaces t
              in if isKeyType (field 0 parts) then field 1 parts \<noteq> []
                 else if isKeyType (field 1 parts) then field 2 parts \<noteq> []
                 else False)"

definition isOpsLine :: "string \<Rightarrow> string \<Rightarrow> bool" where
  "isOpsLine line tag =
     (let t = trim line
      in if t = [] \<or> starts_with t ''#'' then False
         else ends_with t ('' '' @ tag) \<or> t = tag)"

section \<open>Transforms\<close>

definition upsertOpsLine :: "string \<Rightarrow> string \<Rightarrow> string \<Rightarrow> string \<times> bool" where
  "upsertOpsLine content line tag =
     (let lines = toLines content;
          alreadyIdentical = list_ex (\<lambda>l. trim l = trim line) lines;
          withoutOps = filter (\<lambda>l. \<not> isOpsLine l tag) lines
      in (fromLines (withoutOps @ [line]), \<not> alreadyIdentical))"

definition removeOpsLine :: "string \<Rightarrow> string \<Rightarrow> string \<times> nat" where
  "removeOpsLine content tag =
     (let lines = toLines content; kept = filter (\<lambda>l. \<not> isOpsLine l tag) lines
      in (fromLines kept, length lines - length kept))"

definition hasOtherAuthorizedKey :: "string \<Rightarrow> string \<Rightarrow> bool" where
  "hasOtherAuthorizedKey content tag = list_ex (\<lambda>l. isKeyLine l \<and> \<not> isOpsLine l tag) (toLines content)"

definition keyBlob :: "string \<Rightarrow> string" where
  "keyBlob publicKey = field 1 (split_spaces (trim publicKey))"

definition authorizesBlob :: "string \<Rightarrow> string \<Rightarrow> bool" where
  "authorizesBlob content data = list_ex (\<lambda>l. isKeyLine l \<and> includes_str l data) (toLines content)"

definition authorizesKeyData :: "string \<Rightarrow> string \<Rightarrow> bool" where
  "authorizesKeyData content publicKey =
     (let data = keyBlob publicKey in if data \<noteq> [] then authorizesBlob content data else False)"

datatype revoke_reason =
    User_Key_Remains | Other_Key_Remains | User_Key_Not_In_File | User_Key_Being_Removed | No_Verified_User_Key

definition assessRevokeSafety :: "string \<Rightarrow> string \<Rightarrow> string \<Rightarrow> string option \<Rightarrow> bool \<times> revoke_reason" where
  "assessRevokeSafety before after tag verifiedUserPublicKey =
     (let blob = keyBlob (case verifiedUserPublicKey of None \<Rightarrow> [] | Some k \<Rightarrow> k)
      in if blob \<noteq> [] \<and> authorizesBlob after blob then (True, User_Key_Remains)
         else if hasOtherAuthorizedKey after tag then (True, Other_Key_Remains)
         else if blob = [] then (False, No_Verified_User_Key)
         else if \<not> authorizesBlob before blob then (True, User_Key_Not_In_File)
         else (False, User_Key_Being_Removed))"

definition key_type_prefix :: "string \<Rightarrow> bool" where
  "key_type_prefix tok \<longleftrightarrow> starts_with tok ''ssh-'' \<or> starts_with tok ''ecdsa-'' \<or> starts_with tok ''sk-''"

definition extractOptions :: "string \<Rightarrow> string" where
  "extractOptions line =
     (let parts = split_spaces (trim line)
      in if parts = [] \<or> key_type_prefix (field 0 parts) then []
         else if key_type_prefix (field 1 parts) then field 0 parts else [])"

text \<open>A field the destructuring does not find prints as \<open>undefined\<close>.\<close>

definition field_text :: "nat \<Rightarrow> string list \<Rightarrow> string" where
  "field_text n parts = (if n < length parts then parts ! n else ''undefined'')"

definition buildOpsLine :: "string \<Rightarrow> string \<Rightarrow> string \<Rightarrow> string" where
  "buildOpsLine publicKey tag options =
     (let parts = split_spaces publicKey
      in trim (options @ '' '' @ field_text 0 parts @ '' '' @ field_text 1 parts @ '' '' @ tag))"

definition findOpsLine :: "string \<Rightarrow> string \<Rightarrow> string option" where
  "findOpsLine content tag = find (\<lambda>l. isOpsLine l tag) (toLines content)"

datatype rotate_state = Rot_Done | Rot_Mid | Rot_Old | Rot_Absent

definition classifyRotation :: "string \<Rightarrow> string \<Rightarrow> string \<Rightarrow> string \<Rightarrow> rotate_state" where
  "classifyRotation content canonicalTag tempTag nextPublicKey =
     (let canonical = findOpsLine content canonicalTag;
          parts = split_spaces nextPublicKey;
          nextData = (if 1 < length parts then parts ! 1 else [CHR 0x00])
      in if (case canonical of None \<Rightarrow> False | Some l \<Rightarrow> includes_str l nextData) then Rot_Done
         else if findOpsLine content tempTag \<noteq> None then Rot_Mid
         else if canonical \<noteq> None then Rot_Old
         else Rot_Absent)"

text \<open>\<open>swapToCanonical\<close> of vops-ops-rotation.service.ts.\<close>

definition swapToCanonical :: "string \<Rightarrow> string \<Rightarrow> string \<Rightarrow> string \<Rightarrow> string" where
  "swapToCanonical content canonicalTag tempTag newCanonicalLine =
     (let withoutTemp = fst (removeOpsLine content tempTag);
          withoutOld = fst (removeOpsLine withoutTemp canonicalTag)
      in fst (upsertOpsLine withoutOld newCanonicalLine canonicalTag))"

section \<open>Writing lines and reading them back\<close>

text \<open>Lines of a file: none holds a newline, and the last one is not empty.\<close>

definition file_lines :: "string list \<Rightarrow> bool" where
  "file_lines lines \<longleftrightarrow> list_all (\<lambda>l. newline \<notin> set l) lines \<and> (lines \<noteq> [] \<longrightarrow> last lines \<noteq> [])"

lemma join_snoc: "xs \<noteq> [] \<Longrightarrow> join sep (xs @ [y]) = join sep xs @ sep @ y"
proof (induction xs)
  case (Cons x xs)
  then show ?case by (cases xs) auto
qed simp

lemma last_join: "lines \<noteq> [] \<Longrightarrow> last lines \<noteq> [] \<Longrightarrow> newline \<notin> set (last lines) \<Longrightarrow>
    join [newline] lines \<noteq> [] \<and> last (join [newline] lines) \<noteq> newline"
proof (induction lines rule: rev_induct)
  case (snoc y ys)
  have y: "y \<noteq> []" "last y \<noteq> newline" using snoc.prems by (auto dest: last_in_set)
  show ?case
  proof (cases "ys = []")
    case False
    then have "join [newline] (ys @ [y]) = join [newline] ys @ newline # y" by (simp add: join_snoc)
    then show ?thesis using y by simp
  qed (use y in simp)
qed simp

lemma strip_end: "s \<noteq> [] \<Longrightarrow> last s \<noteq> c \<Longrightarrow> rev (dropWhile (\<lambda>x. x = c) (rev (s @ [c]))) = s"
  by (cases s rule: rev_cases) auto

lemma toLines_fromLines: "file_lines lines \<Longrightarrow> toLines (fromLines lines) = lines"
proof (cases "lines = []")
  case False
  assume wf: "file_lines lines"
  then have l: "join [newline] lines \<noteq> []" "last (join [newline] lines) \<noteq> newline"
    using last_join[of lines] False by (auto simp: file_lines_def list_all_iff)
  have "rev (dropWhile (\<lambda>c. c = newline) (rev (join [newline] lines @ [newline]))) = join [newline] lines"
    using l by (rule strip_end)
  moreover have "split_on newline (join [newline] lines) = lines"
    using wf False by (intro split_on_join) (auto simp: file_lines_def list_all_iff)
  ultimately show ?thesis using False l(1) by (simp add: toLines_def fromLines_def Let_def)
qed (simp add: toLines_def fromLines_def)

lemma split_on_last: "s \<noteq> [] \<Longrightarrow> last s \<noteq> c \<Longrightarrow> last (split_on c s) \<noteq> []"
proof (induction s)
  case (Cons a s)
  obtain y ys where yys: "split_on c s = y # ys" by (cases "split_on c s") auto
  show ?case
  proof (cases "s = []")
    case True
    then show ?thesis using Cons.prems by auto
  next
    case False
    then have "last (split_on c s) \<noteq> []" using Cons by auto
    then show ?thesis using yys by (auto split: if_splits)
  qed
qed simp

lemma file_lines_toLines: "file_lines (toLines content)"
proof -
  let ?t = "rev (dropWhile (\<lambda>c. c = newline) (rev content))"
  have "last ?t \<noteq> newline" if "?t \<noteq> []"
    using that hd_dropWhile[of "\<lambda>c. c = newline" "rev content"] by (simp add: last_rev)
  then show ?thesis
    using split_on_last[of ?t newline] split_on_parts[of _ newline ?t]
    by (auto simp: toLines_def file_lines_def Let_def list_all_iff)
qed

text \<open>Lines that are written and read back lose their blank tail only.\<close>

definition drop_blank_end :: "string list \<Rightarrow> string list" where
  "drop_blank_end ls = rev (dropWhile (\<lambda>l. l = []) (rev ls))"

definition one_line :: "string \<Rightarrow> bool" where
  "one_line l \<longleftrightarrow> newline \<notin> set l"

lemma toLines_newline: "toLines (s @ [newline]) = toLines s"
  by (simp add: toLines_def)

lemma toLines_fromLines_all: "list_all one_line ls \<Longrightarrow> toLines (fromLines ls) = drop_blank_end ls"
proof (induction ls rule: rev_induct)
  case (snoc y ys)
  show ?case
  proof (cases "y = []")
    case True
    have "fromLines (ys @ [y]) = fromLines ys @ [newline]"
      using True by (cases "ys = []") (auto simp: fromLines_def join_snoc)
    then show ?thesis using snoc True by (simp add: toLines_newline drop_blank_end_def)
  next
    case False
    then have "file_lines (ys @ [y])"
      using snoc.prems by (auto simp: file_lines_def one_line_def list_all_iff)
    then show ?thesis using False by (simp add: toLines_fromLines drop_blank_end_def)
  qed
qed (simp add: toLines_def fromLines_def drop_blank_end_def)

lemma toLines_one_line [simp]: "list_all one_line (toLines content)"
  using file_lines_toLines[of content] by (simp add: file_lines_def one_line_def list_all_iff)

lemma filter_one_line [simp]: "list_all one_line ls \<Longrightarrow> list_all one_line (filter P ls)"
  by (auto simp: list_all_iff)

lemma set_toLines_one_line: "l \<in> set (toLines content) \<Longrightarrow> one_line l"
  using toLines_one_line[of content] by (simp only: list_all_iff)

lemma set_drop_blank_end [dest]: "l \<in> set (drop_blank_end ls) \<Longrightarrow> l \<in> set ls"
  by (auto simp: drop_blank_end_def dest: set_dropWhileD)

lemma filter_drop_blank_end:
  assumes "\<not> P []"
  shows "filter P (drop_blank_end ls) = filter P ls"
proof -
  have "filter P (dropWhile (\<lambda>l. l = []) xs) = filter P xs" for xs
    using assms by (induction xs) auto
  then show ?thesis by (simp add: drop_blank_end_def flip: rev_filter)
qed

lemma blank_not_line [simp]: "\<not> isKeyLine []" "\<not> isOpsLine [] tag"
  by (simp_all add: isKeyLine_def isOpsLine_def trim_def trim_start_def trim_end_def)

section \<open>What the transforms keep\<close>

text \<open>The entries sshd reads, in the order of the file.\<close>

definition key_lines :: "string \<Rightarrow> string list" where
  "key_lines content = filter isKeyLine (toLines content)"

lemma toLines_remove:
  "toLines (fst (removeOpsLine c tag)) = drop_blank_end (filter (\<lambda>l. \<not> isOpsLine l tag) (toLines c))"
  by (simp add: removeOpsLine_def Let_def toLines_fromLines_all)

lemma isOpsLine_not_blank: "isOpsLine l tag \<Longrightarrow> l \<noteq> []"
  by auto

lemma toLines_upsert:
  assumes "isOpsLine line tag" "one_line line"
  shows "toLines (fst (upsertOpsLine c line tag)) = filter (\<lambda>l. \<not> isOpsLine l tag) (toLines c) @ [line]"
  using assms isOpsLine_not_blank[of line tag]
  by (simp add: upsertOpsLine_def Let_def toLines_fromLines_all drop_blank_end_def)

lemma key_lines_remove:
  "key_lines (fst (removeOpsLine c tag)) = filter (\<lambda>l. \<not> isOpsLine l tag) (key_lines c)"
  by (simp add: key_lines_def toLines_remove filter_drop_blank_end conj_commute)

lemma ops_lines_remove: "filter (\<lambda>l. isOpsLine l tag) (toLines (fst (removeOpsLine c tag))) = []"
  by (simp add: toLines_remove filter_drop_blank_end)

lemma find_filter: "find P xs = (case filter P xs of [] \<Rightarrow> None | x # _ \<Rightarrow> Some x)"
  by (induction xs) auto

text \<open>
  Removing the ops line drops the lines tagged with this profile and nothing else: every other
  entry stays, in its order and character for character, no tagged line is left, and the count that is
  reported is the number of lines that went.
\<close>

theorem remove_only_own_line:
  shows "key_lines (fst (removeOpsLine c tag)) = filter (\<lambda>l. \<not> isOpsLine l tag) (key_lines c)
     \<and> findOpsLine (fst (removeOpsLine c tag)) tag = None
     \<and> snd (removeOpsLine c tag) = length (filter (\<lambda>l. isOpsLine l tag) (toLines c))"
proof (intro conjI)
  show "snd (removeOpsLine c tag) = length (filter (\<lambda>l. isOpsLine l tag) (toLines c))"
    using sum_length_filter_compl[of "\<lambda>l. isOpsLine l tag" "toLines c"]
    by (simp add: removeOpsLine_def Let_def)
qed (simp_all add: key_lines_remove findOpsLine_def find_filter ops_lines_remove)

text \<open>
  Setting the ops line replaces whatever lines carried the tag by exactly the new one, at the end
  of the file, keeps every other line of the file as it was, and doing it twice changes nothing more.
\<close>

theorem upsert_replaces_own_line:
  assumes "isOpsLine line tag" "one_line line"
  shows "toLines (fst (upsertOpsLine c line tag)) = filter (\<lambda>l. \<not> isOpsLine l tag) (toLines c) @ [line]
     \<and> findOpsLine (fst (upsertOpsLine c line tag)) tag = Some line
     \<and> upsertOpsLine (fst (upsertOpsLine c line tag)) line tag = (fst (upsertOpsLine c line tag), False)"
proof (intro conjI)
  show "findOpsLine (fst (upsertOpsLine c line tag)) tag = Some line"
    using assms by (simp add: findOpsLine_def find_filter toLines_upsert)
  show "upsertOpsLine (fst (upsertOpsLine c line tag)) line tag = (fst (upsertOpsLine c line tag), False)"
    using assms toLines_upsert[OF assms, of c]
    by (simp add: upsertOpsLine_def[of "fst (upsertOpsLine c line tag)"] Let_def)
       (simp add: upsertOpsLine_def Let_def)
qed (use assms in \<open>simp add: toLines_upsert\<close>)

section \<open>The lockout guard\<close>

lemma authorizesBlob_key_lines: "authorizesBlob c data \<longleftrightarrow> (\<exists>l \<in> set (key_lines c). includes_str l data)"
  by (auto simp: authorizesBlob_def key_lines_def list_ex_iff)

lemma hasOther_key_lines: "hasOtherAuthorizedKey c tag \<longleftrightarrow> (\<exists>l \<in> set (key_lines c). \<not> isOpsLine l tag)"
  by (auto simp: hasOtherAuthorizedKey_def key_lines_def list_ex_iff)

text \<open>
  the guard before a revocation, on the file as the removal leaves it: it calls the removal safe
  exactly when some entry of the file is not tagged with this profile, so a key remains, or when the
  key that just opened a session is authorized by no entry of the file at all, so the removal cannot
  touch it. A profile whose verified key is the very line being removed is refused.
\<close>

theorem revoke_safety_exact:
  "fst (assessRevokeSafety c (fst (removeOpsLine c tag)) tag k) \<longleftrightarrow>
     (\<exists>l \<in> set (key_lines c). \<not> isOpsLine l tag)
     \<or> keyBlob (case k of None \<Rightarrow> [] | Some k \<Rightarrow> k) \<noteq> []
       \<and> (\<forall>l \<in> set (key_lines c). \<not> includes_str l (keyBlob (case k of None \<Rightarrow> [] | Some k \<Rightarrow> k)))"
proof -
  let ?b = "keyBlob (case k of None \<Rightarrow> [] | Some k \<Rightarrow> k)"
  let ?a = "fst (removeOpsLine c tag)"
  have o: "hasOtherAuthorizedKey ?a tag \<longleftrightarrow> (\<exists>l \<in> set (key_lines c). \<not> isOpsLine l tag)"
    by (auto simp: hasOther_key_lines key_lines_remove conj_commute)
  have a: "authorizesBlob ?a ?b \<Longrightarrow> \<exists>l \<in> set (key_lines c). \<not> isOpsLine l tag"
    by (auto simp: authorizesBlob_key_lines key_lines_remove conj_commute)
  show ?thesis
    using o a by (auto simp: assessRevokeSafety_def Let_def authorizesBlob_key_lines[of c])
qed

section \<open>Key rotation on the file\<close>

text \<open>
  The swap that ends a rotation leaves exactly one line for the profile, the new one: neither the
  temporary line nor the old one survives, every other entry is kept in order, and the file is
  classified as done for any next key whose base64 field the new line carries.
\<close>

lemma swap_finishes_rotation:
  assumes "isOpsLine line tag" "one_line line" "\<not> isOpsLine line temp"
    and "1 < length (split_spaces nextKey)" "includes_str line (split_spaces nextKey ! 1)"
  shows "key_lines (swapToCanonical c tag temp line) =
      filter (\<lambda>l. \<not> isOpsLine l tag \<and> \<not> isOpsLine l temp) (key_lines c) @ filter isKeyLine [line]
     \<and> filter (\<lambda>l. isOpsLine l tag \<or> isOpsLine l temp) (toLines (swapToCanonical c tag temp line)) = [line]
     \<and> classifyRotation (swapToCanonical c tag temp line) tag temp nextKey = Rot_Done"
proof -
  let ?t = "fst (removeOpsLine c temp)" and ?o = "fst (removeOpsLine (fst (removeOpsLine c temp)) tag)"
  have lines: "toLines (swapToCanonical c tag temp line) = filter (\<lambda>l. \<not> isOpsLine l tag) (toLines ?o) @ [line]"
    using assms(1,2) by (simp add: swapToCanonical_def Let_def toLines_upsert)
  have o: "set (toLines ?o) \<subseteq> {l. \<not> isOpsLine l tag \<and> \<not> isOpsLine l temp}"
  proof
    fix l assume l: "l \<in> set (toLines ?o)"
    then have t: "l \<in> set (toLines ?t)" "\<not> isOpsLine l tag"
      by (auto simp: toLines_remove[of "fst (removeOpsLine c temp)"])
    moreover have "\<not> isOpsLine l temp"
      using t(1) by (auto simp: toLines_remove)
    ultimately show "l \<in> {l. \<not> isOpsLine l tag \<and> \<not> isOpsLine l temp}" by simp
  qed
  have "filter isKeyLine (filter (\<lambda>l. \<not> isOpsLine l tag) (toLines ?o)) = key_lines ?o"
    using o by (auto simp: key_lines_def intro!: filter_cong)
  then have 1: "key_lines (swapToCanonical c tag temp line) =
      filter (\<lambda>l. \<not> isOpsLine l tag \<and> \<not> isOpsLine l temp) (key_lines c) @ filter isKeyLine [line]"
    by (simp add: key_lines_def[of "swapToCanonical c tag temp line"] lines key_lines_remove conj_commute)
  have e: "filter (\<lambda>l. isOpsLine l tag \<or> isOpsLine l temp) (filter (\<lambda>l. \<not> isOpsLine l tag) (toLines ?o)) = []"
    using o by (auto simp: filter_empty_conv)
  then have 2: "filter (\<lambda>l. isOpsLine l tag \<or> isOpsLine l temp) (toLines (swapToCanonical c tag temp line)) = [line]"
    using assms(1) by (simp add: lines)
  have "findOpsLine (swapToCanonical c tag temp line) tag = Some line"
    using assms(1) by (simp add: findOpsLine_def find_filter lines)
  then have 3: "classifyRotation (swapToCanonical c tag temp line) tag temp nextKey = Rot_Done"
    using assms(4,5) by (simp add: classifyRotation_def)
  show ?thesis using 1 2 3 by blast
qed

end
