(* ===== verification/Agent_Witnesses.thy ===== *)
theory Agent_Witnesses
  imports Demo_World Audit_Log Firewall_Services Nftables Authorized_Keys
begin

text \<open>
  Each property of the agent control plane and of the firewall and key files that has a
  hypothesis, applied at a concrete input at which the hypotheses hold.
\<close>

section \<open>Sessions\<close>

lemma authenticate_sound_witness:
  "ses_status demo_session = Active \<and> w_now session_world < lim_expires_at (ses_limits demo_session)"
  using authenticate_sound[OF demo_authenticate(1)] by blast

definition late_world :: world where
  "late_world = session_world\<lparr>w_now := 3601000\<rparr>"

lemma authenticate_expires_witness:
  "\<exists>w'. authenticate demo_lib (Some ''t'') late_world =
      (Inl (control Session_Expired ''The agent session has expired.'' Err_Denied True No_Detail), w') \<and>
    map_option ses_status (session_at ''s'' w') = Some Expired"
proof -
  have "sessions_wf late_world" using demo_sessions_wf(1) by (simp add: sessions_wf_def late_world_def)
  moreover have "session_of_token demo_lib ''t'' late_world = Some demo_session"
    using demo_token(1) by (simp add: session_of_token_def late_world_def)
  ultimately show ?thesis
    using authenticate_expires[of late_world demo_lib "''t''" demo_session]
    by (simp add: expired_at_def late_world_def)
qed

lemma demo_create: "\<exists>w'. create_session demo_lib Inr demo_input empty_world =
    (Inr (build_session demo_input ''/r'' (local_id ''ses'' 1) 1000, local_id ''vops_st'' 0), w')"
  by (simp add: create_session_def andThen_def action_simps sessionTokenValue_def Let_def saveSession_def
      demo_input_def empty_world_def)

lemma create_authenticate_witness:
  "\<exists>w'. authenticate demo_lib (Some (local_id ''vops_st'' 0)) w' =
     (Inr (redact_session (build_session demo_input ''/r'' (local_id ''ses'' 1) 1000)), w')"
  using create_authenticate[of demo_lib Inr demo_input empty_world] demo_create
  by (fastforce simp: empty_world_def)

lemma stopAll_stops_witness:
  "\<exists>us w'. stopAll demo_lib session_world = (Inr us, w') \<and> status_at ''s'' w' = Some Revoked"
proof -
  obtain us w' where w': "stopAll demo_lib session_world = (Inr us, w')"
      "\<forall>k s. session_at k session_world = Some s \<and> \<not> expired_at (w_now session_world) s \<and>
         ses_status s \<in> {Active, Paused} \<longrightarrow> status_at k w' = Some Revoked"
    using stopAll_stops[OF demo_sessions_wf(1), of demo_lib] by blast
  have "status_at ''s'' w' = Some Revoked" using w'(2) by (simp add: expired_at_def)
  then show ?thesis using w'(1) by blast
qed

definition revoked_world :: world where
  "revoked_world = session_world\<lparr>w_sessions := [(''s'', None, demo_session\<lparr>ses_status := Revoked\<rparr>)]\<rparr>"

lemma resume_revives_revoked_witness:
  "\<exists>u w'. resume_session demo_lib ''s'' revoked_world = (Inr u, w') \<and> status_at ''s'' w' = Some Active"
  by (rule resume_revives_revoked[where s = "demo_session\<lparr>ses_status := Revoked\<rparr>"])
     (simp_all add: sessions_wf_def revoked_world_def is_space_def session_at_def expired_at_def session_world_def
        empty_world_def)


definition demo_narrowing :: scope_narrowing where
  "demo_narrowing = \<lparr>narrow_capabilities = Some [''r''], narrow_targets = None, narrow_expires_at = None, narrow_max_spend = None\<rparr>"

lemma narrowed_refused_witness:
  "\<exists>d. evaluate demo_registry demo_stop \<lparr>req_session = narrowed demo_narrowing None demo_session, req_capability = ''r'',
      req_input = [], req_environment = Staging, req_approved_plan = Some demo_plan\<rparr> = Inr d \<and> dec_effect d = Deny"
proof -
  let ?req = "\<lparr>req_session = narrowed demo_narrowing None demo_session, req_capability = ''r'',
      req_input = [], req_environment = Staging, req_approved_plan = Some demo_plan\<rparr>"
  obtain d where d: "evaluate demo_registry demo_stop ?req = Inr d"
    by (simp add: evaluate_def demo_describe)
  have "dec_effect d = Deny"
    using narrowed_refused[of demo_narrowing "[''r'']" ?req None demo_session demo_registry demo_stop d] d
    by (simp add: demo_narrowing_def)
  then show ?thesis using d by blast
qed

lemma granted_after_narrowed_witness:
  "matches (perm_allow (ses_permissions (granted \<lparr>grant_capability = ''w'', grant_target = None, grant_environment = None\<rparr>
      demo_session))) ''w''"
  using granted_after_narrowed[of demo_session "\<lparr>grant_capability = ''w'', grant_target = None, grant_environment = None\<rparr>"]
  by (simp add: matches_def)

section \<open>Operations\<close>

lemma calls_follow_table_witness:
  "\<exists>s'. op_state_at ''q'' (fold (do_call demo_lib) [Cancel ''q'', Move ''q'' Op_Succeeded no_patch] operation_world) = Some s' \<and>
     op_steps Op_Running s'"
  by (rule calls_follow_table[OF demo_operations_wf]) (simp add: op_state_at_def demo_operation_def)

definition cancelled_world :: world where
  "cancelled_world = operation_world\<lparr>w_operations := [(''q'', 1, demo_operation\<lparr>op_state := Op_Cancelled\<rparr>)]\<rparr>"

lemma final_states_final_witness:
  "op_state_at ''q'' (fold (do_call demo_lib) [Move ''q'' Op_Running no_patch, Cancel ''q''] cancelled_world) = Some Op_Cancelled"
proof -
  have "operations_wf cancelled_world"
    by (auto simp: operations_wf_def operation_at_def row_get_def cancelled_world_def demo_operation_def is_space_def
        split: if_splits)
  moreover have "op_state_at ''q'' cancelled_world = Some Op_Cancelled"
    by (simp add: op_state_at_def operation_at_def row_get_def cancelled_world_def)
  ultimately show ?thesis using final_states_final by blast
qed

lemma same_state_drops_patch_witness:
  "transition demo_lib ''q'' Op_Running (no_patch\<lparr>pt_current_step := Some ''step_1''\<rparr>) operation_world =
     (Inr demo_operation, operation_world)"
  by (rule same_state_drops_patch) (simp_all add: demo_operation_def)

lemma requestCancel_effect_witness:
  "\<exists>u w'. requestCancel demo_lib ''q'' operation_world = (Inr u, w') \<and> fst (shouldCancel ''q'' w') = Inr True"
  using requestCancel_effect[OF demo_operations_wf demo_operation_at, of demo_lib] by (auto simp: demo_operation_def)

section \<open>Approvals\<close>

lemma approval_decided_once_witness:
  "map_option apr_status (approval_at ''a'' (snd (approve demo_lib ''a'' ''ok'' ''me'' approval_world))) = Some Approved"
  using approval_decided_once[where L = demo_lib and reason = "''ok''" and actor = "''me''", OF demo_approvals_wf demo_approval_at]
  by (simp add: demo_approval_def window_closed_def)

lemma scope_by_approval_only_witness:
  "\<exists>s'. session_at ''s'' (snd (approve demo_lib ''a'' ''ok'' ''me'' approval_world)) = Some s' \<and>
     matches (perm_allow (ses_permissions s')) ''w'' \<and> ses_status s' = Active"
  using scope_by_approval_only[where L = demo_lib and reason = "''ok''" and actor = "''me''" and c = "''w''" and s = demo_session and
      k = "''s''", OF demo_approvals_wf demo_approval_at]
  by (simp add: demo_approval_def window_closed_def nonempty_def is_space_def)

lemma one_open_request_witness:
  "\<exists>a w'. requestForPlan demo_lib demo_plan ''x'' plan_world = (Inr a, w') \<and>
     (\<exists>a'. requestForPlan demo_lib demo_plan ''y'' w' = (Inr a', w') \<and> apr_status a' = Pending)"
proof -
  obtain a w' where r: "requestForPlan demo_lib demo_plan ''x'' plan_world = (Inr a, w')"
    by (simp add: requestForPlan_def listApprovals_def newest_first_def andThen_def action_simps Let_def
        plan_world_def session_world_def empty_world_def)
  have "clean (plan_id demo_plan)" by (simp add: is_space_def)
  then show ?thesis using one_open_request[OF r, of "''y''"] r by blast
qed

section \<open>Plans\<close>

lemma create_plan_sound_witness:
  "\<exists>p w'. create_plan demo_lib demo_registry demo_session demo_plan_input session_world = (Inr p, w') \<and>
     plan_hash p = hashPlan demo_lib (planBody p) \<and> plan_at (plan_id p) w' = Some (redact_plan p)"
  using create_plan_sound[OF demo_create_plan[unfolded Let_def]] demo_create_plan by (metis (no_types, lifting))

definition unknown_plan_input :: plan_input where
  "unknown_plan_input = demo_plan_input\<lparr>pin_steps := [(''z'', None)]\<rparr>"

lemma refused_plan_not_stored_witness:
  "\<exists>e w'. create_plan demo_lib demo_registry demo_session unknown_plan_input session_world = (Inl e, w') \<and>
     w_plans w' = []"
proof -
  have "describe demo_registry ''z'' = Inl (Js_Error (''Unknown capability '' @ quoted ''z'' @ ''.''))"
    by (simp add: describe_def by_id_def demo_registry_def demo_read_def demo_write_def cap_def)
  then have r: "\<exists>e w'. create_plan demo_lib demo_registry demo_session unknown_plan_input session_world = (Inl e, w')"
    by (simp add: create_plan_def unknown_plan_input_def demo_plan_input_def andThen_def action_simps check_step_def)
  then obtain e w' where e: "create_plan demo_lib demo_registry demo_session unknown_plan_input session_world = (Inl e, w')"
    by blast
  show ?thesis using refused_plan_not_stored[OF e] e by (auto simp: session_world_def empty_world_def)
qed

lemma requireExecutable_sound_witness:
  "plan_status demo_plan = Plan_Approved \<and> plan_hash demo_plan = hashPlan demo_lib (planBody demo_plan)"
  using requireExecutable_sound[OF demo_executable] by blast

text \<open>A plan whose objective was rewritten after it was hashed.\<close>

definition edited_plan :: agent_plan where
  "edited_plan = demo_plan\<lparr>plan_objective := ''oo''\<rparr>"

definition edited_world :: world where
  "edited_world = session_world\<lparr>w_plans := [(''p'', 1, edited_plan)]\<rparr>"

lemma edited_length:
  "length (stableStringify demo_lib (planBody edited_plan)) \<noteq> length (stableStringify demo_lib (planBody demo_plan))"
  by code_simp

lemma hash_length:
  assumes "length (stableStringify demo_lib v) \<noteq> length (stableStringify demo_lib u)"
  shows "no_collision demo_lib v u" "canon (locale_le demo_lib) v \<noteq> canon (locale_le demo_lib) u"
  using assms by (auto simp: no_collision_def hashPlan_def demo_lib_def stableStringify_render)

lemma tampered_plan_refused_witness:
  "fst (requireExecutable demo_lib demo_registry ''p'' ''s'' edited_world) \<noteq> Inr edited_plan"
  using tampered_plan_refused[OF good_demo hash_length(1)[OF edited_length], of "''p''" edited_world "''s''" demo_registry]
    hash_length(2)[OF edited_length] demo_plan_hash
  by (simp add: plan_at_def row_get_def edited_world_def edited_plan_def)

text \<open>A plan created with a bearer token in its objective.\<close>

definition leaky_input :: plan_input where
  "leaky_input = demo_plan_input\<lparr>pin_objective := ''Bearer abcdefgh''\<rparr>"

definition leaky_plan :: agent_plan where
  "leaky_plan = build_plan demo_lib demo_registry demo_session leaky_input [demo_step] False (local_id ''plan'' 0) 1000"

lemma leaky_create: "create_plan demo_lib demo_registry demo_session leaky_input session_world =
   (Inr leaky_plan, logged demo_lib (plan_created demo_session leaky_plan) (put_plan leaky_plan (session_world\<lparr>w_next := 1\<rparr>)))"
  using demo_check_steps
  by (simp add: create_plan_def leaky_input_def demo_plan_input_def andThen_def action_simps plan_environment_for_def
      or_default_def Let_def session_world_def empty_world_def leaky_plan_def)

lemma leaky_length: "length (stableStringify demo_lib (redact None (planBody leaky_plan))) \<noteq>
    length (stableStringify demo_lib (planBody leaky_plan))"
  by code_simp

lemma redacted_plan_stale_witness:
  "\<exists>e w'. create_plan demo_lib demo_registry demo_session leaky_input session_world = (Inr leaky_plan, w') \<and>
     requireExecutable demo_lib demo_registry (plan_id leaky_plan) ''s'' w' = (Inl e, w')"
proof -
  have "clean (plan_hash leaky_plan)" by (simp add: leaky_plan_def build_plan_hash hashPlan_def demo_lib_def)
  then show ?thesis
    using redacted_plan_stale[OF good_demo hash_length(1)[OF leaky_length] leaky_create _ _ hash_length(2)[OF leaky_length]]
      leaky_create by (simp add: is_space_def)
qed

section \<open>Emergency stop, verdict and broker\<close>

lemma stop_persists_witness:
  "\<exists>v w'. activate demo_lib ''me'' ''r'' session_world = (Inr v, w') \<and> stop_active (w_safety (snd (onModuleInit w')))"
  using stop_persists[of demo_lib "''me''" "''r''" session_world] by (auto simp: demo_stop_def)

lemma verification_passed_iff_witness:
  "ver_status (summariseVerification [\<lparr>res_step = ''step_1'', res_capability = ''healthcheck.run'',
      res_output = JObj [(''status'', JStr ''degraded'')]\<rparr>]) \<noteq> Passed"
  unfolding verification_passed_iff by (simp add: reportStatus_def record_of_def text_field_def member_def)

definition refusing :: "executor \<Rightarrow> executor" where
  "refusing exec = (\<lambda>c input ctx w.
     if policy_allows demo_registry (w_safety w) (ctx_session ctx) (ctx_plan ctx) c input
     then exec c input ctx w else (Inl (Js_Error ''refused''), w))"

definition silent_executor :: executor where
  "silent_executor = (\<lambda>c input ctx. ret JNull)"

lemma executor_within_policy_witness:
  "executePlan demo_lib demo_registry silent_executor (Some ''t'') ''p'' plan_world =
   executePlan demo_lib demo_registry (refusing silent_executor) (Some ''t'') ''p'' plan_world"
  by (rule executor_within_policy) (simp add: refusing_def)

lemma stop_blocks_mutations_witness:
  "\<not> policy_allows demo_registry (demo_stop\<lparr>stop_active := True\<rparr>) demo_session demo_plan ''w'' []"
  by (rule stop_blocks_mutations[OF demo_describe(2)]) (simp_all add: demo_write_def cap_def)

lemma default_needs_approval_witness:
  "\<exists>d. evaluate (document_registry (\<lambda>i input. ([], input))) demo_stop
      \<lparr>req_session = demo_session\<lparr>ses_permissions := mergePermissions None\<rparr>, req_capability = ''server.harden'',
       req_input = [], req_environment = Staging, req_approved_plan = None\<rparr> = Inr d \<and> dec_effect d \<noteq> Allow"
proof -
  let ?R = "document_registry (\<lambda>i input. ([], input))"
  let ?req = "\<lparr>req_session = demo_session\<lparr>ses_permissions := mergePermissions None\<rparr>, req_capability = ''server.harden'',
       req_input = [], req_environment = Staging, req_approved_plan = None\<rparr>"
  have "map_sum (\<lambda>_. ()) cap_access (describe ?R ''server.harden'') = Inr Remote_Write" by code_simp
  then obtain c where c: "describe ?R ''server.harden'' = Inr c" "cap_access c = Remote_Write"
    by (cases "describe ?R ''server.harden''") auto
  obtain d where d: "evaluate ?R demo_stop ?req = Inr d" "dec_capability d = c"
    using c by (auto simp: evaluate_def decision_def Let_def split: option.splits)
  then show ?thesis
    using default_needs_approval[where req = ?req and stop = demo_stop and d = d, OF document_loads] c by auto
qed

section \<open>Firewall\<close>

definition web_service :: fw_service where
  "web_service = \<lparr>svc_id = ''port-tcp-81'', svc_label = ''Port 81'', svc_protocol = Tcp, svc_port = ''81'',
     svc_enabled = True, svc_sources = [''10.0.0.0/8'']\<rparr>"

lemma web_valid: "firstServiceError [web_service] = None"
  by code_simp

lemma services_roundtrip_witness: "rulesToServices (servicesToRules [web_service]) = [web_service]"
proof -
  have "canonical_service web_service" by code_simp
  then show ?thesis using services_roundtrip[of "[web_service]" "[]"] by simp
qed

lemma validated_services_witness: "list_all port_char (trim (svc_port web_service))"
  using validated_services[OF web_valid, of web_service] by (simp add: web_service_def)

definition new_packet :: "nat \<Rightarrow> bool \<Rightarrow> bool packet" where
  "new_packet port inside = \<lparr>pk_state = Ct_New, pk_iif_lo = False, pk_oif_lo = False, pk_proto = Tcp, pk_port = port, pk_src = V4 inside\<rparr>"


definition any_rule :: fw_rule where
  "any_rule = (service_to_rule web_service)\<lparr>rule_port := Some ''80'', rule_sources := Some [''0.0.0.0/0'']\<rparr>"

lemma any_v4_source_witness: "\<exists>l. inbound_of any_rule = Inr l \<and> renderInbound l = ''tcp dport 80 accept''"
  using any_v4_source[of any_rule] by (auto simp: any_rule_def service_to_rule_def web_service_def)

section \<open>Authorized keys\<close>

lemma upsert_replaces_own_line_witness:
  "toLines (fst (upsertOpsLine ''ssh-a B x'' ''ssh-a C T'' ''T'')) = [''ssh-a B x'', ''ssh-a C T'']"
proof -
  have h: "isOpsLine ''ssh-a C T'' ''T''" "one_line ''ssh-a C T''" by code_simp+
  have e: "filter (\<lambda>l. \<not> isOpsLine l ''T'') (toLines ''ssh-a B x'') = [''ssh-a B x'']" by code_simp
  show ?thesis using upsert_replaces_own_line[OF h, of "''ssh-a B x''"] e by simp
qed

lemma revoke_safety_exact_witness:
  "\<not> fst (assessRevokeSafety ''ssh-a B T'' (fst (removeOpsLine ''ssh-a B T'' ''T'')) ''T'' (Some ''ssh-a B me''))"
  unfolding revoke_safety_exact by code_simp

section \<open>The audit log\<close>

definition demo_event :: "string \<Rightarrow> new_event" where
  "demo_event s = \<lparr>ne_id = ''e'', ne_timestamp = 1000, ne_session = Some ''s'', ne_actor = ''user'', ne_operation = None,
     ne_type = ''t'', ne_capability = None, ne_target = None, ne_summary = s, ne_detail = JNull\<rparr>"

definition logged_world :: world where
  "logged_world = append_all demo_lib [demo_event ''a'', demo_event ''b''] empty_world"

lemma demo_event_stable:
  assumes "clean s" and "\<forall>r \<in> set rows. clean (row_hash r)"
  shows "stable_event demo_lib rows (demo_event s)" "clean (row_hash (log_row demo_lib (demo_event s) rows))"
  using assms
  by (cases rows; simp add: stable_event_def redact_event_def chain_event_def Let_def demo_event_def newest_hash_def demo_lib_def
      log_row_def is_space_def)+

lemma demo_stable: "stable_events demo_lib [demo_event ''a'', demo_event ''b''] empty_world"
    "stable_events demo_lib [demo_event ''a''] empty_world" "w_events empty_world = []"
  by (simp_all add: empty_world_def append_rows demo_event_stable is_space_def)


definition one_event_world :: world where
  "one_event_world = append_all demo_lib [demo_event ''a''] empty_world"

lemma last_hash_pins_log_witness:
  "map (\<lambda>e. canon (locale_le demo_lib) (event_payload e)) (chain (w_events one_event_world)) =
   map (\<lambda>e. canon (locale_le demo_lib) (event_payload e)) (chain (w_events (one_event_world\<lparr>w_now := 5\<rparr>)))"
proof -
  have one: "\<exists>e. chain (w_events one_event_world) = [e]"
    by (simp add: one_event_world_def append_rows chain_def empty_world_def)
  then have inj: "no_collisions demo_lib (chain (w_events one_event_world) @ chain (w_events (one_event_world\<lparr>w_now := 5\<rparr>)))"
    by (auto simp: no_collisions_def)
  have ok: "chain_valid (projr (fst (verifyEventChain demo_lib one_event_world)))"
    "chain_valid (projr (fst (verifyEventChain demo_lib (one_event_world\<lparr>w_now := 5\<rparr>))))"
    using append_all_ok[OF _ demo_stable(2)] chain_ok_Nil demo_stable(3)
    by (simp_all add: verify_valid_iff chain_ok_def one_event_world_def)
  show ?thesis using last_hash_pins_log[OF good_demo inj ok] by simp
qed

lemma pages_read_everything_witness:
  "read_pages None (Some 1) None [w_events one_event_world, w_events logged_world] = Some (entries (w_events one_event_world))"
proof -
  have "growing [w_events one_event_world, w_events logged_world]"
    by (simp add: one_event_world_def logged_world_def append_rows empty_world_def numbered_log_row[unfolded numbered.simps] log_row_def Let_def)
  moreover have "length (rows_of_session None (w_events one_event_world)) \<le> length [w_events logged_world]"
    by (simp add: one_event_world_def append_rows empty_world_def rows_of_session_def)
  ultimately show ?thesis
    using pages_read_everything[where sid = None and limit = "Some 1"] by (simp add: rows_of_session_def)
qed

end
