(* ===== verification/Host_Plane.thy ===== *)
theory Host_Plane
  imports Firewall_Services Redaction
begin

text \<open>
  What the host services share: the refusals they throw (agent-api/agent-envelope.ts,
  agent-http-errors.ts), the inventory's data (hosts/host.model.ts), the local state they read
  and write (files of the profile, inventory, audit table), the write gate
  (safety/host-write-gate.ts) and the one SSH primitive (lib/ssh-exec.ts) over the local
  \<open>ssh\<close> binary. The machine at the other end is a state \<open>'r\<close>; what \<open>ssh\<close> and
  \<open>ssh-keygen\<close> do is a parameter. How long the runner waits for a command is not an argument.
\<close>

section \<open>Refusals\<close>

datatype category =
    Cat_Validation | Cat_Input | Cat_Prerequisite | Cat_Approval | Cat_Auth | Cat_Unsupported | Cat_Operational

record agent_error =
  ae_code :: string
  ae_category :: category
  ae_message :: string
  ae_recoverable :: bool
  ae_suggested :: "string option"
  ae_documentation :: string

datatype exit_code =
    Exit_Success | Exit_Failure | Exit_Invalid_Input | Exit_Validation | Exit_Missing_Prerequisite
  | Exit_Approval_Required | Exit_Unsupported | Exit_Auth | Exit_Partial

fun exit_status :: "exit_code \<Rightarrow> nat" where
  "exit_status Exit_Success = 0"
| "exit_status Exit_Failure = 1"
| "exit_status Exit_Invalid_Input = 2"
| "exit_status Exit_Validation = 3"
| "exit_status Exit_Missing_Prerequisite = 4"
| "exit_status Exit_Approval_Required = 5"
| "exit_status Exit_Unsupported = 6"
| "exit_status Exit_Auth = 7"
| "exit_status Exit_Partial = 8"

definition docLink :: "string \<Rightarrow> string" where
  "docLink c = ''https://github.com/flui-cloud/vops/blob/main/docs/errors.md#'' @ lower c"

text \<open>\<open>agentError(code, category, message, extra)\<close>; no caller passes a path or a documentation link.\<close>

definition agentError :: "string \<Rightarrow> category \<Rightarrow> string \<Rightarrow> bool option \<Rightarrow> string option \<Rightarrow> agent_error" where
  "agentError c cat m rec suggested = \<lparr>ae_code = c, ae_category = cat, ae_message = m,
     ae_recoverable = (case rec of Some b \<Rightarrow> b | None \<Rightarrow> cat = Cat_Validation \<or> cat = Cat_Input),
     ae_suggested = nonempty suggested,
     ae_documentation = docLink c\<rparr>"

text \<open>What a host service can throw.\<close>

datatype failure =
    Bad_Request string
  | Forbidden string
  | Agent_Bad_Request agent_error exit_code
  | Plain_Error string

fun failure_message :: "failure \<Rightarrow> string" where
  "failure_message (Bad_Request m) = m"
| "failure_message (Forbidden m) = m"
| "failure_message (Agent_Bad_Request e x) = ae_message e"
| "failure_message (Plain_Error m) = m"

definition notFound :: "string \<Rightarrow> string \<Rightarrow> string \<Rightarrow> failure" where
  "notFound c m suggested = Agent_Bad_Request (agentError c Cat_Input m None (Some suggested)) Exit_Invalid_Input"

section \<open>The inventory\<close>

datatype os_family = Debian | Rhel | Alpine | Unknown_Os

record host_os =
  os_family :: os_family
  os_pretty :: string

datatype key_kind = Ops_Key | User_Key | No_Key

datatype key_source = Assigned | Default_Key

datatype conn_state = Ready | Unreachable | Conn_No_Key | Auth_Failed

record host_conn =
  conn_state :: conn_state
  conn_key_kind :: key_kind
  conn_key_name :: "string option"
  conn_public_key :: "string option"
  conn_key_source :: "key_source option"
  conn_reachable :: bool
  conn_has_key :: bool
  conn_authorized :: bool
  conn_message :: string
  conn_checked_at :: instant

record host_firewall =
  hfw_rules :: "fw_rule list"
  hfw_policy_accept :: bool
  hfw_applied_at :: instant

text \<open>A host; the two fields of the monitoring services are not kept.\<close>

record host =
  h_name :: string
  h_uid :: "string option"
  h_address :: string
  h_user :: string
  h_port :: nat
  h_user_key :: "string option"
  h_ops_installed :: bool
  h_provider :: "string option"
  h_provider_server :: "string option"
  h_os :: "host_os option"
  h_conn :: "host_conn option"
  h_ssh_managed :: "bool option"
  h_firewall :: "host_firewall option"
  h_tags :: "string list"
  h_added_at :: instant

section \<open>The state and its environment\<close>

text \<open>
  Local files by path, the hosts of \<open>hosts.json\<close>, the rows of the audit table (newest first),
  the supply of random identifiers, the clock, and the machines at the other end.
\<close>

record 'r plane =
  pl_now :: instant
  pl_next :: nat
  pl_files :: "(string \<times> string) list"
  pl_hosts :: "host list"
  pl_audit :: "(string \<times> json) list"
  pl_remote :: 'r

type_synonym ('r, 'a) hact = "('r plane, failure, 'a) action"

record exec_result =
  ex_code :: int
  ex_stdout :: string
  ex_stderr :: string

record server_dto =
  srv_id :: string
  srv_name :: string
  srv_public_ip :: "string option"

text \<open>
  What the services are built on: the profile directory, the switch \<open>VOPS_READONLY\<close>, the
  runner of local programs, the key generator (a file system to the one with the new pair, or a
  failure), and the provider package's two server calls.
\<close>

record 'r machine =
  mc_profile_dir :: string
  mc_readonly :: bool
  mc_runner :: "string \<Rightarrow> string list \<Rightarrow> string option \<Rightarrow> 'r \<Rightarrow> exec_result \<times> 'r"
  mc_keygen :: "string \<Rightarrow> string \<Rightarrow> (string \<times> string) list \<Rightarrow> (string \<times> string) list option"
  mc_provider_text :: "provider \<Rightarrow> string"
  mc_server_details :: "provider \<Rightarrow> string \<Rightarrow> 'r \<Rightarrow> (failure + server_dto option) \<times> 'r"
  mc_servers :: "provider \<Rightarrow> 'r \<Rightarrow> (failure + server_dto list) \<times> 'r"

definition clock :: "('r, instant) hact" where
  "clock = gets pl_now"

definition on_remote :: "('r \<Rightarrow> 'a \<times> 'r) \<Rightarrow> ('r, 'a) hact" where
  "on_remote f p = (case f (pl_remote p) of (x, r) \<Rightarrow> (Inr x, p\<lparr>pl_remote := r\<rparr>))"

definition on_remote_or_fail :: "('r \<Rightarrow> (failure + 'a) \<times> 'r) \<Rightarrow> ('r, 'a) hact" where
  "on_remote_or_fail f p = (case f (pl_remote p) of (x, r) \<Rightarrow> (x, p\<lparr>pl_remote := r\<rparr>))"

definition appendAudit :: "string \<Rightarrow> (string \<times> json) list \<Rightarrow> ('r, unit) hact" where
  "appendAudit what detail = modify (\<lambda>p. p\<lparr>pl_audit := (what, JObj detail) # pl_audit p\<rparr>)"

definition mint :: "('r, string) hact" where
  "mint = andThen (gets pl_next) (\<lambda>n. andThen (modify (\<lambda>p. p\<lparr>pl_next := Suc n\<rparr>)) (\<lambda>_. ret (show_nat n)))"

definition newHostUid :: "('r, string) hact" where
  "newHostUid = mint"

section \<open>Files\<close>

definition path_join :: "string \<Rightarrow> string \<Rightarrow> string" where
  "path_join d n = d @ ''/'' @ n"

definition exists_file :: "(string \<times> string) list \<Rightarrow> string \<Rightarrow> bool" where
  "exists_file fs p \<longleftrightarrow> map_of fs p \<noteq> None"

definition write_file :: "string \<Rightarrow> string \<Rightarrow> (string \<times> string) list \<Rightarrow> (string \<times> string) list" where
  "write_file p c fs = AList.update p c fs"

definition remove_file :: "string \<Rightarrow> (string \<times> string) list \<Rightarrow> (string \<times> string) list" where
  "remove_file p fs = AList.delete p fs"

text \<open>\<open>renameSync\<close> replaces a file that is in the way.\<close>

definition rename_file :: "string \<Rightarrow> string \<Rightarrow> (string \<times> string) list \<Rightarrow> (string \<times> string) list" where
  "rename_file a b fs = (case map_of fs a of None \<Rightarrow> fs | Some c \<Rightarrow> AList.update b c (AList.delete a fs))"

text \<open>The names in a directory: paths below it without a further slash.\<close>

definition read_dir :: "string \<Rightarrow> (string \<times> string) list \<Rightarrow> string list" where
  "read_dir d fs = filter (\<lambda>n. CHR ''/'' \<notin> set n)
     (map (\<lambda>p. drop (length d + 1) p) (filter (\<lambda>p. starts_with p (d @ ''/'')) (map fst fs)))"

text \<open>\<open>profileId()\<close>: read, or minted on first use.\<close>

definition profile_id_path :: "'r machine \<Rightarrow> string" where
  "profile_id_path M = path_join (mc_profile_dir M) ''profile-id''"

definition profileId :: "'r machine \<Rightarrow> ('r, string) hact" where
  "profileId M = andThen (gets (\<lambda>p. map_of (pl_files p) (profile_id_path M))) (\<lambda>c.
     case c of
       Some existing \<Rightarrow> if trim existing \<noteq> [] then ret (trim existing)
         else andThen mint (\<lambda>i. andThen (modify (\<lambda>p. p\<lparr>pl_files := write_file (profile_id_path M) (i @ nl) (pl_files p)\<rparr>)) (\<lambda>_. ret i))
     | None \<Rightarrow> andThen mint (\<lambda>i. andThen (modify (\<lambda>p. p\<lparr>pl_files := write_file (profile_id_path M) (i @ nl) (pl_files p)\<rparr>)) (\<lambda>_. ret i)))"

section \<open>The write gate\<close>

definition assertHostWritable :: "'r machine \<Rightarrow> host \<Rightarrow> ('r, unit) hact" where
  "assertHostWritable M h =
     (if mc_readonly M
      then throw (Bad_Request (''Refusing to modify '' @ quoted (h_name h) @ '': VOPS_READONLY=1 is set (read-only mode).''))
      else ret ())"

section \<open>SSH\<close>

record ssh_target =
  tgt_host :: host
  tgt_key :: string

definition port_of :: "host \<Rightarrow> nat" where
  "port_of h = (if h_port h = 0 then 22 else h_port h)"

definition login_of :: "host \<Rightarrow> string" where
  "login_of h = h_user h @ ''@'' @ h_address h"

definition knownHostsPath :: "'r machine \<Rightarrow> string" where
  "knownHostsPath M = path_join (mc_profile_dir M) ''known_hosts''"

definition commonOpts :: "'r machine \<Rightarrow> nat \<Rightarrow> string list" where
  "commonOpts M connectTimeoutSec =
     [''-o'', ''BatchMode=yes'', ''-o'', ''ConnectTimeout='' @ show_nat connectTimeoutSec,
      ''-o'', ''StrictHostKeyChecking=accept-new'', ''-o'', ''IdentitiesOnly=yes'', ''-o'', ''ControlPath=none'',
      ''-o'', ''UserKnownHostsFile='' @ knownHostsPath M]"

definition sshArgs :: "'r machine \<Rightarrow> ssh_target \<Rightarrow> nat \<Rightarrow> string list" where
  "sshArgs M t connectTimeoutSec =
     [''-i'', tgt_key t, ''-p'', show_nat (port_of (tgt_host t))] @ commonOpts M connectTimeoutSec @ [login_of (tgt_host t)]"

definition scpArgs :: "'r machine \<Rightarrow> ssh_target \<Rightarrow> string list" where
  "scpArgs M t = [''-i'', tgt_key t, ''-P'', show_nat (port_of (tgt_host t))] @ commonOpts M 10"

definition ssh_run_within :: "'r machine \<Rightarrow> ssh_target \<Rightarrow> string \<Rightarrow> nat \<Rightarrow> ('r, exec_result) hact" where
  "ssh_run_within M t command connectTimeoutSec =
     on_remote (mc_runner M ''ssh'' (sshArgs M t connectTimeoutSec @ [command]) None)"

definition ssh_run :: "'r machine \<Rightarrow> ssh_target \<Rightarrow> string \<Rightarrow> ('r, exec_result) hact" where
  "ssh_run M t command = ssh_run_within M t command 10"

definition runScript :: "'r machine \<Rightarrow> ssh_target \<Rightarrow> string \<Rightarrow> bool \<Rightarrow> ('r, exec_result) hact" where
  "runScript M t scriptBody sudo = on_remote (mc_runner M ''ssh''
     (sshArgs M t 10 @ [if sudo \<and> h_user (tgt_host t) \<noteq> ''root'' then ''sudo -n bash -s'' else ''bash -s'']) (Some scriptBody))"

definition show_code :: "int \<Rightarrow> string" where
  "show_code n = (if n < 0 then ''-'' @ show_nat (nat (- n)) else show_nat (nat n))"

definition single_quoted :: "string \<Rightarrow> string" where
  "single_quoted s = CHR 0x27 # s @ [CHR 0x27]"

text \<open>Text between double quotes.\<close>

definition dq :: "string \<Rightarrow> string" where
  "dq s = CHR 0x22 # s @ [CHR 0x22]"

definition put_command :: "string \<Rightarrow> string \<Rightarrow> string" where
  "put_command remotePath mode =
     ''set -e; d=$(dirname '' @ single_quoted remotePath @ ''); mkdir -p '' @ dq ''$d'' @ ''; '' @
     ''tmp=$(mktemp '' @ dq ''$d/.vops.XXXXXX'' @ ''); cat > '' @ dq ''$tmp'' @ ''; chmod '' @ mode @ '' '' @ dq ''$tmp'' @ ''; '' @
     ''mv '' @ dq ''$tmp'' @ '' '' @ single_quoted remotePath"

definition putFile :: "'r machine \<Rightarrow> ssh_target \<Rightarrow> string \<Rightarrow> string \<Rightarrow> string \<Rightarrow> ('r, unit) hact" where
  "putFile M t remotePath content mode =
     andThen (on_remote (mc_runner M ''ssh'' (sshArgs M t 10 @ [put_command remotePath mode]) (Some content))) (\<lambda>res.
     if ex_code res \<noteq> 0
     then throw (Plain_Error (''putFile '' @ remotePath @ '' failed (code '' @ show_code (ex_code res) @ ''): '' @ trim (ex_stderr res)))
     else ret ())"

definition putBinary :: "'r machine \<Rightarrow> ssh_target \<Rightarrow> string \<Rightarrow> string \<Rightarrow> ('r, unit) hact" where
  "putBinary M t localPath remotePath = (let staged = ''/tmp/.vops-bin.'' @ h_name (tgt_host t) in
     andThen (on_remote (mc_runner M ''scp'' (scpArgs M t @ [localPath, login_of (tgt_host t) @ '':'' @ staged]) None)) (\<lambda>scpRes.
     if ex_code scpRes \<noteq> 0
     then throw (Plain_Error (''scp '' @ remotePath @ '' failed (code '' @ show_code (ex_code scpRes) @ ''): '' @ trim (ex_stderr scpRes)))
     else andThen (ssh_run M t (''set -e; chmod 0755 '' @ single_quoted staged @ ''; mv '' @ single_quoted staged @ '' '' @
            single_quoted remotePath)) (\<lambda>mv.
       if ex_code mv \<noteq> 0
       then throw (Plain_Error (''install '' @ remotePath @ '' failed (code '' @ show_code (ex_code mv) @ ''): '' @ trim (ex_stderr mv)))
       else ret ())))"

end
