(* ===== verification/Ssh_Keys.thy ===== *)
theory Ssh_Keys
  imports Host_Plane
begin

text \<open>
  The local half of the SSH key store (src/src/ssh-keys/vops-ssh-keys.service.ts): keys as files
  of the profile's key directory, the reserved operations key with its rotation generations, the
  choice of a user's key and the ladder of operations keys. Registration at a provider and import
  are left out. A key's fingerprint is only shown, and is not kept.
\<close>

section \<open>Keys as files\<close>

record ssh_key =
  key_name :: string
  key_public :: string
  key_private_path :: string
  key_has_private :: bool
  key_imported :: bool
  key_is_ops :: bool

definition OPS_KEY_NAME :: string where
  "OPS_KEY_NAME = ''vops-ops''"

definition isOpsKeyName :: "string \<Rightarrow> bool" where
  "isOpsKeyName n \<longleftrightarrow> n = OPS_KEY_NAME \<or> starts_with n (OPS_KEY_NAME @ ''.'')"

definition keysDir :: "'r machine \<Rightarrow> string" where
  "keysDir M = path_join (mc_profile_dir M) ''keys''"

definition name_char :: "char \<Rightarrow> bool" where
  "name_char c \<longleftrightarrow> is_lower c \<or> is_upper c \<or> is_digit c \<or> c \<in> {CHR ''.'', CHR ''_'', CHR ''-''}"

definition assertKeyName :: "string \<Rightarrow> ('r, unit) hact" where
  "assertKeyName n = (if n \<noteq> [] \<and> list_all name_char n then ret ()
     else throw (Bad_Request ''Key name may only contain letters, digits, dot, dash and underscore.''))"

definition assertNotReserved :: "string \<Rightarrow> ('r, unit) hact" where
  "assertNotReserved n = (if isOpsKeyName n
     then throw (Bad_Request (quoted n @ '' is a reserved vops operations key name (managed lifecycle). Use 'vops host key install-ops' / 'vops ssh-key rotate-ops' instead.''))
     else ret ())"

definition pub_path :: "'r machine \<Rightarrow> string \<Rightarrow> string" where
  "pub_path M n = path_join (keysDir M) (n @ ''.pub'')"

definition priv_path :: "'r machine \<Rightarrow> string \<Rightarrow> string" where
  "priv_path M n = path_join (keysDir M) n"

definition ref_path :: "'r machine \<Rightarrow> string \<Rightarrow> string" where
  "ref_path M n = path_join (keysDir M) (n @ ''.path'')"

text \<open>\<open>read(name)\<close>: throws when the public half is not there.\<close>

definition key_of :: "'r machine \<Rightarrow> (string \<times> string) list \<Rightarrow> string \<Rightarrow> ssh_key option" where
  "key_of M fs n = map_option (\<lambda>pub.
     let priv = (case map_of fs (ref_path M n) of Some r \<Rightarrow> trim r | None \<Rightarrow> priv_path M n)
     in \<lparr>key_name = n, key_public = trim pub, key_private_path = priv, key_has_private = exists_file fs priv,
         key_imported = exists_file fs (ref_path M n), key_is_ops = isOpsKeyName n\<rparr>) (map_of fs (pub_path M n))"

definition read_key :: "'r machine \<Rightarrow> string \<Rightarrow> ('r, ssh_key) hact" where
  "read_key M n = andThen (gets (\<lambda>p. key_of M (pl_files p) n)) (\<lambda>k. case k of
       Some k \<Rightarrow> ret k
     | None \<Rightarrow> throw (Plain_Error (''ENOENT: no such file or directory, open '' @ quoted (pub_path M n))))"

text \<open>\<open>list()\<close>: the names of the directory that end in \<open>.pub\<close>.\<close>

definition pub_names :: "'r machine \<Rightarrow> (string \<times> string) list \<Rightarrow> string list" where
  "pub_names M fs = map (\<lambda>f. take (length f - 4) f) (filter (\<lambda>f. ends_with f ''.pub'') (read_dir (keysDir M) fs))"

definition keys_of :: "'r machine \<Rightarrow> (string \<times> string) list \<Rightarrow> ssh_key list" where
  "keys_of M fs = List.map_filter (key_of M fs) (pub_names M fs)"

definition list_keys :: "'r machine \<Rightarrow> ('r, ssh_key list) hact" where
  "list_keys M = gets (\<lambda>p. keys_of M (pl_files p))"

definition show_key :: "'r machine \<Rightarrow> string \<Rightarrow> ('r, ssh_key) hact" where
  "show_key M n = andThen (assertKeyName n) (\<lambda>_. andThen (gets (\<lambda>p. exists_file (pl_files p) (pub_path M n))) (\<lambda>there.
     if \<not> there then throw (Bad_Request (''SSH key '' @ quoted n @ '' not found.'')) else read_key M n))"

definition run_keygen :: "'r machine \<Rightarrow> string \<Rightarrow> string \<Rightarrow> ('r, unit) hact" where
  "run_keygen M path comment = andThen (gets (\<lambda>p. mc_keygen M path comment (pl_files p))) (\<lambda>fs. case fs of
       None \<Rightarrow> throw (Plain_Error ''Command failed: ssh-keygen'')
     | Some fs \<Rightarrow> modify (\<lambda>p. p\<lparr>pl_files := fs\<rparr>))"

definition create_key :: "'r machine \<Rightarrow> string \<Rightarrow> ('r, ssh_key) hact" where
  "create_key M n = andThen (assertKeyName n) (\<lambda>_. andThen (assertNotReserved n) (\<lambda>_.
     andThen (gets (\<lambda>p. exists_file (pl_files p) (priv_path M n))) (\<lambda>there.
     if there then throw (Bad_Request (''SSH key '' @ quoted n @ '' already exists.''))
     else andThen (run_keygen M (priv_path M n) (''vops-'' @ n)) (\<lambda>_. read_key M n))))"

definition remove_key :: "'r machine \<Rightarrow> string \<Rightarrow> ('r, unit) hact" where
  "remove_key M n = andThen (assertKeyName n) (\<lambda>_. andThen (assertNotReserved n) (\<lambda>_.
     modify (\<lambda>p. p\<lparr>pl_files := remove_file (ref_path M n) (remove_file (pub_path M n)
       (remove_file (priv_path M n) (pl_files p)))\<rparr>)))"

section \<open>The operations key\<close>

definition ensureKeyFile :: "'r machine \<Rightarrow> string \<Rightarrow> ('r, ssh_key) hact" where
  "ensureKeyFile M n = andThen (gets (\<lambda>p. exists_file (pl_files p) (pub_path M n))) (\<lambda>there.
     if there then read_key M n
     else andThen (profileId M) (\<lambda>i. andThen (run_keygen M (priv_path M n) (n @ '':'' @ i)) (\<lambda>_. read_key M n)))"

definition ensureOpsKey :: "'r machine \<Rightarrow> ('r, ssh_key) hact" where
  "ensureOpsKey M = ensureKeyFile M OPS_KEY_NAME"

definition NEXT_NAME :: string where
  "NEXT_NAME = OPS_KEY_NAME @ ''.next''"

definition PREV_NAME :: string where
  "PREV_NAME = OPS_KEY_NAME @ ''.prev''"

definition ensureNextOpsKey :: "'r machine \<Rightarrow> ('r, ssh_key) hact" where
  "ensureNextOpsKey M = ensureKeyFile M NEXT_NAME"

definition readOpsKey :: "'r machine \<Rightarrow> (string \<times> string) list \<Rightarrow> string \<Rightarrow> ssh_key option" where
  "readOpsKey M fs suffix = key_of M fs (OPS_KEY_NAME @ suffix)"

definition opsLadder :: "'r machine \<Rightarrow> (string \<times> string) list \<Rightarrow> string list" where
  "opsLadder M fs = map key_private_path (filter key_has_private
     (List.map_filter (readOpsKey M fs) [[], ''.next'', ''.prev'']))"

text \<open>The key and its public half are moved one after the other, each when it is there.\<close>

definition move_pair :: "'r machine \<Rightarrow> string \<Rightarrow> string \<Rightarrow> (string \<times> string) list \<Rightarrow> (string \<times> string) list" where
  "move_pair M a b fs = rename_file (pub_path M a) (pub_path M b) (rename_file (priv_path M a) (priv_path M b) fs)"

definition promoted :: "'r machine \<Rightarrow> (string \<times> string) list \<Rightarrow> (string \<times> string) list" where
  "promoted M fs = move_pair M NEXT_NAME OPS_KEY_NAME
     (if exists_file fs (priv_path M OPS_KEY_NAME) then move_pair M OPS_KEY_NAME PREV_NAME fs else fs)"

definition promoteNextOpsKey :: "'r machine \<Rightarrow> ('r, unit) hact" where
  "promoteNextOpsKey M = modify (\<lambda>p. p\<lparr>pl_files := promoted M (pl_files p)\<rparr>)"

definition opsKeyOptions :: "string option \<Rightarrow> string" where
  "opsKeyOptions fromCidr = join '','' ((case nonempty fromCidr of None \<Rightarrow> [] | Some c \<Rightarrow> [''from='' @ dq c]) @
     [''no-agent-forwarding'', ''no-X11-forwarding'', ''no-user-rc''])"

definition word_or_undefined :: "nat \<Rightarrow> string \<Rightarrow> string" where
  "word_or_undefined n s = (let parts = split_spaces s in if n < length parts then parts ! n else ''undefined'')"

definition opsAuthorizedKeysLine :: "'r machine \<Rightarrow> string option \<Rightarrow> ('r, string) hact" where
  "opsAuthorizedKeysLine M fromCidr = andThen (ensureOpsKey M) (\<lambda>k. andThen (profileId M) (\<lambda>i.
     ret (opsKeyOptions fromCidr @ '' '' @ word_or_undefined 0 (key_public k) @ '' '' @ word_or_undefined 1 (key_public k) @
          '' '' @ OPS_KEY_NAME @ '':'' @ i)))"

section \<open>Choosing the user's key\<close>

definition usable_user_keys :: "ssh_key list \<Rightarrow> ssh_key list" where
  "usable_user_keys ks = filter (\<lambda>k. key_has_private k \<and> \<not> key_is_ops k) ks"

definition usableUserKeys :: "'r machine \<Rightarrow> ('r, ssh_key list) hact" where
  "usableUserKeys M = andThen (list_keys M) (\<lambda>ks. ret (usable_user_keys ks))"

definition resolve_key :: "'r machine \<Rightarrow> string option \<Rightarrow> ('r, ssh_key) hact" where
  "resolve_key M keyName = (case nonempty keyName of
       Some n \<Rightarrow> show_key M n
     | None \<Rightarrow> andThen (usableUserKeys M) (\<lambda>us. case us of
           [k] \<Rightarrow> ret k
         | [] \<Rightarrow> throw (Bad_Request ''No usable SSH key found. Create or import one first.'')
         | _ \<Rightarrow> throw (Bad_Request (''Multiple SSH keys available ('' @ join '', '' (map key_name us) @ ''). Choose one with --key.''))))"

definition resolveUserKey :: "'r machine \<Rightarrow> string option \<Rightarrow> ('r, ssh_key option) hact" where
  "resolveUserKey M keyName = catching (andThen (resolve_key M keyName) (\<lambda>k. ret (Some k))) (\<lambda>_. ret None)"

definition keyPathFor :: "'r machine \<Rightarrow> string option \<Rightarrow> ('r, string option) hact" where
  "keyPathFor M keyName = catching (andThen (resolve_key M keyName) (\<lambda>k.
     ret (if key_has_private k then Some (key_private_path k) else None))) (\<lambda>_. ret None)"

text \<open>The operations key when it is usable.\<close>

definition find_ops :: "'r machine \<Rightarrow> ('r, ssh_key option) hact" where
  "find_ops M = andThen (list_keys M) (\<lambda>ks. ret (find (\<lambda>k. key_name k = OPS_KEY_NAME \<and> key_has_private k) ks))"


section \<open>Promotion of the next operations key\<close>

lemma map_rename:
  assumes "a \<noteq> b"
  shows "map_of (rename_file a b fs) x = (case map_of fs a of None \<Rightarrow> map_of fs x
    | Some c \<Rightarrow> if x = b then Some c else if x = a then None else map_of fs x)"
  using assms by (auto simp: rename_file_def update_conv delete_conv split: option.split)

lemma key_paths_apart [simp]:
  "priv_path M a = priv_path M b \<longleftrightarrow> a = b" "pub_path M a = pub_path M b \<longleftrightarrow> a = b"
  "priv_path M a = pub_path M b \<longleftrightarrow> a = b @ ''.pub''" "pub_path M b = priv_path M a \<longleftrightarrow> a = b @ ''.pub''"
  by (auto simp: priv_path_def pub_path_def path_join_def)

lemmas generations = OPS_KEY_NAME_def NEXT_NAME_def PREV_NAME_def

text \<open>
  Promotion, once it has run through with the next key's pair in place, makes that pair the
  operations key and leaves none behind under the next name; the pair it replaces, when there was
  one, is the previous key; and every other file of the profile is as it was.
\<close>

theorem promotion_completes:
  assumes "map_of fs (priv_path M NEXT_NAME) = Some npriv" and "map_of fs (pub_path M NEXT_NAME) = Some npub"
    and "map_of fs (priv_path M OPS_KEY_NAME) = Some priv" and "map_of fs (pub_path M OPS_KEY_NAME) = Some pub"
  shows "map_of (promoted M fs) = (map_of fs)(priv_path M OPS_KEY_NAME := Some npriv, pub_path M OPS_KEY_NAME := Some npub,
     priv_path M NEXT_NAME := None, pub_path M NEXT_NAME := None,
     priv_path M PREV_NAME := Some priv, pub_path M PREV_NAME := Some pub)"
  using assms by (auto simp: promoted_def move_pair_def exists_file_def map_rename fun_eq_iff generations)

definition promotion_moves :: "'r machine \<Rightarrow> (string \<times> string) list \<Rightarrow> (string \<times> string) list" where
  "promotion_moves M fs = (if exists_file fs (priv_path M OPS_KEY_NAME)
      then [(priv_path M OPS_KEY_NAME, priv_path M PREV_NAME), (pub_path M OPS_KEY_NAME, pub_path M PREV_NAME)] else []) @
     [(priv_path M NEXT_NAME, priv_path M OPS_KEY_NAME), (pub_path M NEXT_NAME, pub_path M OPS_KEY_NAME)]"

definition run_moves :: "(string \<times> string) list \<Rightarrow> (string \<times> string) list \<Rightarrow> (string \<times> string) list" where
  "run_moves moves fs = fold (\<lambda>(a, b). rename_file a b) moves fs"

lemma promoted_moves: "promoted M fs = run_moves (promotion_moves M fs) fs"
  by (simp add: promoted_def run_moves_def promotion_moves_def move_pair_def)

text \<open>
  C40: Promotion is not safe against a crash. Broken off between the two renames of the next pair and
  run again, it moves the new private key over the previous one: the operations key has a public
  half and no private one, and no generation of the key holds the old private key any more.
\<close>

theorem interrupted_promotion_loses_key:
  assumes "map_of fs (priv_path M NEXT_NAME) = Some npriv" and "map_of fs (pub_path M NEXT_NAME) = Some npub"
    and "map_of fs (priv_path M OPS_KEY_NAME) = Some priv" and "map_of fs (pub_path M OPS_KEY_NAME) = Some pub"
    and "fs' = run_moves (take 3 (promotion_moves M fs)) fs"
  shows "map_of (promoted M fs') (priv_path M OPS_KEY_NAME) = None
     \<and> map_of (promoted M fs') (pub_path M OPS_KEY_NAME) = Some npub
     \<and> map_of (promoted M fs') (priv_path M PREV_NAME) = Some npriv
     \<and> map_of (promoted M fs') (pub_path M PREV_NAME) = Some pub
     \<and> map_of (promoted M fs') (priv_path M NEXT_NAME) = None"
  using assms
  by (simp add: promoted_def move_pair_def run_moves_def promotion_moves_def exists_file_def map_rename generations)

end
