(* ===== verification/Host_Inventory.thy ===== *)
theory Host_Inventory
  imports Ssh_Keys
begin

text \<open>
  The SSH inventory (src/src/hosts/vops-hosts.service.ts) and what an SSH attempt says about a
  host (src/src/host-ops/ssh-conn.ts): adding, importing, adopting and removing hosts, the probe
  that looks for a key that opens the host, and the reading of /etc/os-release.
\<close>

section \<open>Reading an SSH attempt\<close>

text \<open>\<open>AUTH_RE\<close> is an alternation of texts.\<close>

definition auth_refused :: "string \<Rightarrow> bool" where
  "auth_refused err \<longleftrightarrow> list_ex (includes_str err) [''permission denied'', ''publickey'', ''authentication failed'',
     ''too many authentication'', ''host key verification failed'']"

definition ssh_reason :: "string \<Rightarrow> string" where
  "ssh_reason stderr = or_default
     (find (\<lambda>l. l \<noteq> [] \<and> \<not> starts_with l ''Warning:'') (map trim (split_on CHR 0x0A stderr))) ''unknown error''"

record ssh_outcome =
  out_reachable :: bool
  out_authorized :: bool
  out_reason :: string

definition sshOutcome :: "int \<Rightarrow> string \<Rightarrow> ssh_outcome" where
  "sshOutcome code stderr =
     (if code = 0 then \<lparr>out_reachable = True, out_authorized = True, out_reason = []\<rparr>
      else if auth_refused (lower stderr)
      then \<lparr>out_reachable = True, out_authorized = False, out_reason = ssh_reason stderr\<rparr>
      else \<lparr>out_reachable = False, out_authorized = False, out_reason = ssh_reason stderr\<rparr>)"

record derive_input =
  di_reachable :: bool
  di_has_key :: bool
  di_authorized :: bool
  di_key_kind :: key_kind
  di_host :: host
  di_reason :: "string option"
  di_key_name :: "string option"
  di_key_source :: "key_source option"

fun kind_text :: "key_kind \<Rightarrow> string" where
  "kind_text Ops_Key = ''ops''"
| "kind_text User_Key = ''user''"
| "kind_text No_Key = ''none''"

definition deriveConnState :: "derive_input \<Rightarrow> conn_state \<times> string" where
  "deriveConnState i =
     (let h = di_host i; place = h_user h @ ''@'' @ h_address h @ '':'' @ show_nat (port_of h) in
      if \<not> di_has_key i
      then (Conn_No_Key, ''No SSH key is assigned for this host. Assign one with `vops host key set <host> <key>` (or pick one in the dashboard) - its public half must then be authorized on the server.'')
      else if \<not> di_reachable i
      then (Unreachable, ''Can't reach '' @ place @ '' over SSH ('' @ or_default (nonempty (di_reason i)) ''no response'' @
            ''). The host must accept SSH from this machine - open the port/firewall to your IP, or run vops from a machine that can reach it.'')
      else if di_authorized i
      then (Ready, ''Reachable and authorized ('' @ kind_text (di_key_kind i) @ '' key).'')
      else let key = (case nonempty (di_key_name i) of Some n \<Rightarrow> quoted n | None \<Rightarrow> ''the '' @ kind_text (di_key_kind i) @ '' key'') in
      if di_key_source i = Some Default_Key
      then (Auth_Failed, ''Reached '' @ h_address h @ '' but '' @ key @ '' was refused - and it isn't assigned to this host, it's only the sole key vops has. Assign the right key for this host, or authorize this one on the server.'')
      else (Auth_Failed, ''Reached '' @ h_address h @ '' but '' @ key @ '' isn't authorized. Add its public half to the server (provider console, or ~/.ssh/authorized_keys), then re-check.''))"

lemma deriveConnState_ready: "fst (deriveConnState i) = Ready \<longleftrightarrow> di_has_key i \<and> di_reachable i \<and> di_authorized i"
  by (simp add: deriveConnState_def Let_def)

section \<open>/etc/os-release\<close>

definition strip_quotes :: "string \<Rightarrow> string" where
  "strip_quotes s =
     (let t = (if starts_with s [CHR 0x22] then tl s else s)
      in if t \<noteq> [] \<and> last t = CHR 0x22 then butlast t else t)"

definition field_char :: "char \<Rightarrow> bool" where
  "field_char c \<longleftrightarrow> is_upper c \<or> c = CHR ''_''"

definition release_field :: "string \<Rightarrow> (string \<times> string) option" where
  "release_field line =
     (let t = trim line; k = takeWhile field_char t; r = dropWhile field_char t
      in if k \<noteq> [] \<and> starts_with r ''='' \<and> CHR 0x0D \<notin> set r then Some (k, strip_quotes (tl r)) else None)"

text \<open>A later line of the same name replaces an earlier one.\<close>

definition release_fields :: "string \<Rightarrow> (string \<times> string) list" where
  "release_fields s = rev (List.map_filter release_field (split_on CHR 0x0A s))"

definition FAMILY_BY_ID :: "(string \<times> os_family) list" where
  "FAMILY_BY_ID = [(''debian'', Debian), (''ubuntu'', Debian), (''raspbian'', Debian), (''rhel'', Rhel), (''centos'', Rhel),
     (''fedora'', Rhel), (''rocky'', Rhel), (''almalinux'', Rhel), (''ol'', Rhel), (''alpine'', Alpine)]"

definition parseOsRelease :: "string \<Rightarrow> host_os" where
  "parseOsRelease s =
     (let fields = map_of (release_fields s);
          ids = filter (\<lambda>x. x \<noteq> []) ((case fields ''ID'' of Some i \<Rightarrow> [i] | None \<Rightarrow> []) @
                  (case fields ''ID_LIKE'' of Some l \<Rightarrow> split_spaces l | None \<Rightarrow> []));
          families = List.map_filter (\<lambda>i. map_of FAMILY_BY_ID (lower i)) ids
      in \<lparr>os_family = (case families of f # _ \<Rightarrow> f | [] \<Rightarrow> Unknown_Os),
          os_pretty = (case nonempty (fields ''PRETTY_NAME'') of Some n \<Rightarrow> n
                       | None \<Rightarrow> or_default (nonempty (fields ''NAME'')) ''unknown'')\<rparr>)"

section \<open>The inventory\<close>

definition list_hosts :: "('r, host list) hact" where
  "list_hosts = gets pl_hosts"

definition host_at :: "string \<Rightarrow> 'r plane \<Rightarrow> host option" where
  "host_at n p = find (\<lambda>h. h_name h = n) (pl_hosts p)"

definition get_host :: "string \<Rightarrow> ('r, host option) hact" where
  "get_host n = gets (host_at n)"

definition save_hosts :: "host list \<Rightarrow> ('r, unit) hact" where
  "save_hosts hs = modify (\<lambda>p. p\<lparr>pl_hosts := hs\<rparr>)"

definition show_host :: "string \<Rightarrow> ('r, host) hact" where
  "show_host n = andThen (get_host n) (\<lambda>h. case h of
       None \<Rightarrow> throw (notFound ''VOPS_HOST_NOT_FOUND'' (''Host '' @ quoted n @ '' not found.'')
                  ''List the inventory with `vops host list --json`.'')
     | Some h \<Rightarrow> ret h)"

definition remove_host :: "string \<Rightarrow> ('r, unit) hact" where
  "remove_host n = andThen list_hosts (\<lambda>hs.
     if \<not> list_ex (\<lambda>h. h_name h = n) hs then throw (Bad_Request (''Host '' @ quoted n @ '' not found.''))
     else save_hosts (filter (\<lambda>h. h_name h \<noteq> n) hs))"

definition put_host :: "host \<Rightarrow> 'r plane \<Rightarrow> 'r plane" where
  "put_host h p = p\<lparr>pl_hosts := map (\<lambda>x. if h_name x = h_name h then h else x) (pl_hosts p)\<rparr>"

definition update_host :: "host \<Rightarrow> ('r, unit) hact" where
  "update_host h = modify (put_host h)"

definition setUserKey :: "'r machine \<Rightarrow> string \<Rightarrow> string option \<Rightarrow> ('r, host) hact" where
  "setUserKey M n keyName = andThen (show_host n) (\<lambda>h. andThen (list_keys M) (\<lambda>ks.
     case nonempty keyName of
       Some k \<Rightarrow> if \<not> list_ex (\<lambda>x. key_name x = k) ks
         then throw (notFound ''VOPS_SSH_KEY_NOT_FOUND'' (''No local SSH key named '' @ quoted k @ ''.'')
                ''List the local keys with `vops ssh-key list --json`.'')
         else let h' = h\<lparr>h_user_key := Some k\<rparr> in andThen (update_host h') (\<lambda>_. ret h')
     | None \<Rightarrow> let h' = h\<lparr>h_user_key := None\<rparr> in andThen (update_host h') (\<lambda>_. ret h')))"

definition setSshManaged :: "string \<Rightarrow> bool \<Rightarrow> ('r, host) hact" where
  "setSshManaged n managed = andThen (show_host n) (\<lambda>h.
     let h' = h\<lparr>h_ssh_managed := Some managed\<rparr> in andThen (update_host h') (\<lambda>_. ret h'))"

definition assertHostName :: "string \<Rightarrow> ('r, unit) hact" where
  "assertHostName n = (if n \<noteq> [] \<and> list_all name_char n then ret ()
     else throw (Bad_Request ''Host name may only contain letters, digits, dot, dash and underscore.''))"

section \<open>Probing\<close>

record host_probe =
  pb_reachable :: bool
  pb_message :: "string option"
  pb_os :: "host_os option"

definition probeWith :: "'r machine \<Rightarrow> host \<Rightarrow> ssh_key \<Rightarrow> ('r, host \<times> host_probe \<times> ssh_outcome) hact" where
  "probeWith M h uk = andThen clock (\<lambda>t.
     andThen (ssh_run M \<lparr>tgt_host = h, tgt_key = key_private_path uk\<rparr> ''cat /etc/os-release 2>/dev/null || true'') (\<lambda>res.
     let out = sshOutcome (ex_code res) (ex_stderr res);
         (state, message) = deriveConnState \<lparr>di_reachable = out_reachable out, di_has_key = True,
            di_authorized = out_authorized out, di_key_kind = User_Key, di_host = h, di_reason = Some (out_reason out),
            di_key_name = None, di_key_source = None\<rparr>;
         h' = h\<lparr>h_conn := Some \<lparr>conn_state = state, conn_key_kind = User_Key, conn_key_name = Some (key_name uk),
            conn_public_key = Some (key_public uk), conn_key_source = None, conn_reachable = out_reachable out,
            conn_has_key = True, conn_authorized = out_authorized out, conn_message = message, conn_checked_at = t\<rparr>\<rparr>
     in if ex_code res \<noteq> 0
        then ret (h', \<lparr>pb_reachable = False, pb_message = Some (or_default (nonempty (Some (trim (ex_stderr res)))) ''unreachable'' @
               '' (added anyway)''), pb_os = None\<rparr>, out)
        else ret (h', \<lparr>pb_reachable = True, pb_message = None, pb_os = Some (parseOsRelease (ex_stdout res))\<rparr>, out)))"

definition no_key_probe :: "host \<Rightarrow> ('r, host \<times> host_probe) hact" where
  "no_key_probe h = andThen clock (\<lambda>t.
     let (state, message) = deriveConnState \<lparr>di_reachable = False, di_has_key = False, di_authorized = False,
           di_key_kind = No_Key, di_host = h, di_reason = None, di_key_name = None, di_key_source = None\<rparr>
     in ret (h\<lparr>h_conn := Some \<lparr>conn_state = state, conn_key_kind = No_Key, conn_key_name = None, conn_public_key = None,
          conn_key_source = None, conn_reachable = False, conn_has_key = False, conn_authorized = False,
          conn_message = message, conn_checked_at = t\<rparr>\<rparr>,
        \<lparr>pb_reachable = False, pb_message = Some (''no local key opens this host - assign one with `vops host key set '' @
          h_name h @ '' <key>` (added anyway)''), pb_os = None\<rparr>))"

text \<open>The loop over the candidate keys; a network failure ends it.\<close>

fun try_keys :: "'r machine \<Rightarrow> host \<Rightarrow> ssh_key list \<Rightarrow> ('r, host \<times> host_probe) hact" where
  "try_keys M h [] = no_key_probe h"
| "try_keys M h (k # ks) = andThen (probeWith M h k) (\<lambda>(h', pb, out).
     if pb_reachable pb then ret (h'\<lparr>h_user_key := Some (key_name k)\<rparr>, pb)
     else if \<not> out_reachable out then ret (h', pb)
     else try_keys M h' ks)"

definition probe_host :: "'r machine \<Rightarrow> host \<Rightarrow> ('r, host \<times> host_probe) hact" where
  "probe_host M h = andThen (resolveUserKey M (h_user_key h)) (\<lambda>pinned.
     case (case pinned of Some k \<Rightarrow> if key_has_private k then Some k else None | None \<Rightarrow> None) of
       Some k \<Rightarrow> andThen (probeWith M h k) (\<lambda>(h', pb, out). ret (h', pb))
     | None \<Rightarrow> if nonempty (h_user_key h) = None
         then andThen (usableUserKeys M) (try_keys M h)
         else no_key_probe h)"

definition with_os :: "host \<Rightarrow> host_probe \<Rightarrow> host" where
  "with_os h pb = (case pb_os pb of None \<Rightarrow> h | Some s \<Rightarrow> h\<lparr>h_os := Some s\<rparr>)"

section \<open>Adding hosts\<close>

record host_input =
  hi_address :: string
  hi_user :: "string option"
  hi_port :: "nat option"
  hi_user_key :: "string option"
  hi_tags :: "string list option"

definition add_host :: "'r machine \<Rightarrow> string \<Rightarrow> host_input \<Rightarrow> ('r, host \<times> host_probe) hact" where
  "add_host M n i = andThen (assertHostName n) (\<lambda>_. andThen (get_host n) (\<lambda>there.
     if there \<noteq> None then throw (Bad_Request (''Host '' @ quoted n @ '' already exists.''))
     else andThen newHostUid (\<lambda>uid. andThen clock (\<lambda>t.
       andThen (probe_host M \<lparr>h_name = n, h_uid = Some uid, h_address = hi_address i, h_user = or_default (hi_user i) ''root'',
          h_port = or_default (hi_port i) 22, h_user_key = hi_user_key i, h_ops_installed = False, h_provider = None,
          h_provider_server = None, h_os = None, h_conn = None, h_ssh_managed = None, h_firewall = None,
          h_tags = or_default (hi_tags i) [], h_added_at = t\<rparr>) (\<lambda>(h, pb).
       let h' = with_os h pb in
       andThen list_hosts (\<lambda>hs. andThen (save_hosts (hs @ [h'])) (\<lambda>_.
       andThen (appendAudit ''host.add'' [(''name'', JStr n), (''address'', JStr (h_address h'))]) (\<lambda>_.
       ret (h', pb)))))))))"

definition resolve_provider :: "'r machine \<Rightarrow> string \<Rightarrow> ('r, provider) hact" where
  "resolve_provider M n = (case resolveProvider (mc_provider_text M) n of
       Some pr \<Rightarrow> ret pr
     | None \<Rightarrow> throw (Bad_Request (''Unknown provider '' @ quoted n @ ''. Supported: '' @
          join '', '' (map (mc_provider_text M) COMPARE_PROVIDERS))))"

definition defaultSshUser :: "provider \<Rightarrow> string" where
  "defaultSshUser pr = (if pr = Ovh then ''ubuntu'' else ''root'')"

definition resolveProviderServer :: "'r machine \<Rightarrow> provider \<Rightarrow> string \<Rightarrow> ('r, server_dto) hact" where
  "resolveProviderServer M pr i =
     andThen (catching (on_remote_or_fail (mc_server_details M pr i)) (\<lambda>_. ret None)) (\<lambda>found.
     andThen (case found of Some s \<Rightarrow> ret (Some s)
              | None \<Rightarrow> andThen (on_remote_or_fail (mc_servers M pr)) (\<lambda>all. ret (find (\<lambda>s. srv_name s = i) all))) (\<lambda>server.
     case server of Some s \<Rightarrow> ret s
     | None \<Rightarrow> throw (Bad_Request (''Server '' @ quoted i @ '' not found on '' @ mc_provider_text M pr @ ''.''))))"

definition import_host :: "'r machine \<Rightarrow> string \<Rightarrow> string \<Rightarrow> ('r, host \<times> host_probe) hact" where
  "import_host M providerName i = andThen (resolve_provider M providerName) (\<lambda>pr.
     andThen (resolveProviderServer M pr i) (\<lambda>s.
     case nonempty (srv_public_ip s) of
       None \<Rightarrow> throw (Bad_Request (''Server '' @ quoted (srv_name s) @ '' has no public IP.''))
     | Some ip \<Rightarrow> andThen (get_host (srv_name s)) (\<lambda>there.
       if there \<noteq> None then throw (Bad_Request (''Host '' @ quoted (srv_name s) @ '' already exists.''))
       else andThen newHostUid (\<lambda>uid. andThen clock (\<lambda>t.
         andThen (probe_host M \<lparr>h_name = srv_name s, h_uid = Some uid, h_address = ip, h_user = defaultSshUser pr, h_port = 22,
            h_user_key = None, h_ops_installed = False, h_provider = Some (mc_provider_text M pr),
            h_provider_server = Some (srv_id s), h_os = None, h_conn = None, h_ssh_managed = None, h_firewall = None,
            h_tags = [], h_added_at = t\<rparr>) (\<lambda>(h, pb).
         let h' = with_os h pb in
         andThen list_hosts (\<lambda>hs. andThen (save_hosts (hs @ [h'])) (\<lambda>_.
         andThen (appendAudit ''host.import'' [(''provider'', JStr (mc_provider_text M pr)), (''name'', JStr (h_name h'))]) (\<lambda>_.
         ret (h', pb))))))))))"

definition ensureFromServer :: "'r machine \<Rightarrow> string \<Rightarrow> string \<Rightarrow> ('r, host) hact" where
  "ensureFromServer M providerName i = andThen (resolve_provider M providerName) (\<lambda>pr.
     let text = mc_provider_text M pr in
     andThen list_hosts (\<lambda>hs.
     case find (\<lambda>h. h_provider h = Some text \<and> (h_provider_server h = Some i \<or> h_name h = i)) hs of
       Some linked \<Rightarrow> ret linked
     | None \<Rightarrow> andThen (resolveProviderServer M pr i) (\<lambda>s. andThen (get_host (srv_name s)) (\<lambda>existing.
       case existing of
         Some e \<Rightarrow> let adopted = e\<lparr>h_provider := Some text, h_provider_server := Some (srv_id s)\<rparr> in
           andThen (if h_os adopted = None then andThen (probe_host M adopted) (\<lambda>(h, pb). ret (with_os h pb)) else ret adopted) (\<lambda>a.
           andThen (update_host a) (\<lambda>_.
           andThen (appendAudit ''host.adopt'' [(''provider'', JStr text), (''name'', JStr (h_name a))]) (\<lambda>_. ret a)))
       | None \<Rightarrow> andThen (import_host M text i) (\<lambda>(h, pb). ret h)))))"

section \<open>What an operation on the inventory leaves alone\<close>

text \<open>Steps that read the machine or the key files do not touch the list of hosts.\<close>

lemma wp_on_remote [wp_simps]:
  "wp (on_remote f) Q E p = Q (fst (f (pl_remote p))) (p\<lparr>pl_remote := snd (f (pl_remote p))\<rparr>)"
  by (simp add: wp_def on_remote_def split: prod.split)

lemma wp_on_remote_or_fail [wp_simps]: "wp (on_remote_or_fail f) Q E p =
   (case f (pl_remote p) of (Inr x, r) \<Rightarrow> Q x (p\<lparr>pl_remote := r\<rparr>) | (Inl e, r) \<Rightarrow> E e (p\<lparr>pl_remote := r\<rparr>))"
  by (simp add: wp_def on_remote_or_fail_def split: prod.split sum.split)

lemmas service_steps = clock_def list_hosts_def get_host_def save_hosts_def update_host_def appendAudit_def mint_def
  newHostUid_def list_keys_def usableUserKeys_def ssh_run_def ssh_run_within_def runScript_def

definition same_hosts :: "host list \<Rightarrow> 'r plane \<Rightarrow> bool" where
  "same_hosts hs p \<longleftrightarrow> pl_hosts p = hs"

lemma same_hosts_frame [simp]:
  "same_hosts hs (p\<lparr>pl_remote := r\<rparr>) = same_hosts hs p" "same_hosts hs (p\<lparr>pl_next := n\<rparr>) = same_hosts hs p"
  "same_hosts hs (p\<lparr>pl_files := fs\<rparr>) = same_hosts hs p" "same_hosts hs (p\<lparr>pl_audit := a\<rparr>) = same_hosts hs p"
  by (simp_all add: same_hosts_def)

lemma probeWith_hosts:
  assumes "same_hosts hs p"
  shows "wp (probeWith M h k) (\<lambda>x p'. same_hosts hs p' \<and> h_name (fst x) = h_name h) (\<lambda>e. same_hosts hs) p"
  using assms by (simp add: probeWith_def service_steps wp_simps Let_def split: prod.split)

lemma no_key_probe_hosts:
  assumes "same_hosts hs p"
  shows "wp (no_key_probe h) (\<lambda>x p'. same_hosts hs p' \<and> h_name (fst x) = h_name h) (\<lambda>e. same_hosts hs) p"
  using assms by (simp add: no_key_probe_def service_steps wp_simps Let_def split: prod.split)

lemma try_keys_hosts:
  assumes "same_hosts hs p"
  shows "wp (try_keys M h ks) (\<lambda>x p'. same_hosts hs p' \<and> h_name (fst x) = h_name h) (\<lambda>e. same_hosts hs) p"
  using assms
proof (induction ks arbitrary: h p)
  case (Cons k ks)
  have step: "wp ((\<lambda>(h', pb, out). if pb_reachable pb then ret (h'\<lparr>h_user_key := Some (key_name k)\<rparr>, pb)
     else if \<not> out_reachable out then ret (h', pb) else try_keys M h' ks) x)
       (\<lambda>x p'. same_hosts hs p' \<and> h_name (fst x) = h_name h) (\<lambda>e. same_hosts hs) p'"
    if "same_hosts hs p' \<and> h_name (fst x) = h_name h" for x p'
  proof -
    obtain h' pb out where x: "x = (h', pb, out)" by (cases x)
    then have "same_hosts hs p'" "h_name h' = h_name h" using that by auto
    then show ?thesis using Cons.IH[of p' h'] by (simp add: x wp_simps)
  qed
  show ?case
    unfolding try_keys.simps wp_andThen using probeWith_hosts[OF Cons.prems] by (rule wp_mono) (rule step)
qed (simp add: no_key_probe_hosts)

lemma resolveUserKey_hosts:
  assumes "same_hosts hs p"
  shows "wp (resolveUserKey M n) (\<lambda>x. same_hosts hs) (\<lambda>e. same_hosts hs) p"
  using assms
  by (simp add: resolveUserKey_def resolve_key_def show_key_def assertKeyName_def read_key_def service_steps wp_simps
      split: option.split list.split)

lemma probe_host_hosts:
  assumes "same_hosts hs p"
  shows "wp (probe_host M h) (\<lambda>x p'. same_hosts hs p' \<and> h_name (fst x) = h_name h) (\<lambda>e. same_hosts hs) p"
proof -
  let ?Q = "\<lambda>x p'. same_hosts hs p' \<and> h_name (fst x) = h_name h"
  have some: "wp (andThen (probeWith M h k) (\<lambda>(h', pb, out). ret (h', pb))) ?Q (\<lambda>e. same_hosts hs) p'"
    if "same_hosts hs p'" for k p'
    unfolding wp_andThen using probeWith_hosts[OF that] by (rule wp_mono) (auto simp: wp_simps)
  have none: "wp (if nonempty (h_user_key h) = None then andThen (usableUserKeys M) (try_keys M h) else no_key_probe h)
      ?Q (\<lambda>e. same_hosts hs) p'" if "same_hosts hs p'" for p'
    using try_keys_hosts[OF that] no_key_probe_hosts[OF that] by (simp add: service_steps wp_simps)
  have body: "wp (case (case x of Some k \<Rightarrow> if key_has_private k then Some k else None | None \<Rightarrow> None) of
       Some k \<Rightarrow> andThen (probeWith M h k) (\<lambda>(h', pb, out). ret (h', pb))
     | None \<Rightarrow> if nonempty (h_user_key h) = None then andThen (usableUserKeys M) (try_keys M h) else no_key_probe h)
     ?Q (\<lambda>e. same_hosts hs) p'" if "same_hosts hs p'" for x p'
    using some[OF that] none[OF that]
    by (cases "case x of Some k \<Rightarrow> if key_has_private k then Some k else None | None \<Rightarrow> None") simp_all
  show ?thesis
    unfolding probe_host_def wp_andThen using resolveUserKey_hosts[OF assms] by (rule wp_mono) (rule body)
qed

section \<open>Names stay unique\<close>

text \<open>The identity the rest of the program finds a host by.\<close>

definition names_unique :: "'r plane \<Rightarrow> bool" where
  "names_unique p \<longleftrightarrow> distinct (map h_name (pl_hosts p))"

lemma host_at_None: "host_at n p = None \<longleftrightarrow> n \<notin> h_name ` set (pl_hosts p)"
  by (auto simp: host_at_def find_None_iff)

lemma names_unique_frame [simp]:
  "names_unique (p\<lparr>pl_remote := r\<rparr>) = names_unique p" "names_unique (p\<lparr>pl_next := n\<rparr>) = names_unique p"
  "names_unique (p\<lparr>pl_files := fs\<rparr>) = names_unique p" "names_unique (p\<lparr>pl_audit := a\<rparr>) = names_unique p"
  by (simp_all add: names_unique_def)

lemma put_host_names: "map h_name (pl_hosts (put_host h p)) = map h_name (pl_hosts p)"
  by (simp add: put_host_def)

lemma names_unique_put [simp]: "names_unique (put_host h p) = names_unique p"
  by (simp add: names_unique_def put_host_names)

text \<open>What every operation that adds a host ends with.\<close>

lemma append_host_unique:
  assumes "names_unique p" and "host_at (h_name h) p = None"
  shows "wp (andThen (probe_host M h) (\<lambda>(h', pb). let h2 = with_os h' pb in
      andThen list_hosts (\<lambda>hs. andThen (save_hosts (hs @ [h2])) (\<lambda>_. andThen (appendAudit what (detail h2)) (\<lambda>_. ret (h2, pb))))))
    (\<lambda>x p'. names_unique p' \<and> pl_hosts p' = pl_hosts p @ [fst x] \<and> h_name (fst x) = h_name h)
    (\<lambda>e p'. names_unique p' \<and> pl_hosts p' = pl_hosts p) p"
proof -
  have new: "h_name h \<notin> h_name ` set (pl_hosts p)" using assms(2) by (simp add: host_at_None)
  have rest: "wp ((\<lambda>(h', pb). let h2 = with_os h' pb in andThen list_hosts (\<lambda>hs. andThen (save_hosts (hs @ [h2])) (\<lambda>_.
        andThen (appendAudit what (detail h2)) (\<lambda>_. ret (h2, pb))))) x)
      (\<lambda>x p'. names_unique p' \<and> pl_hosts p' = pl_hosts p @ [fst x] \<and> h_name (fst x) = h_name h)
      (\<lambda>e p'. names_unique p' \<and> pl_hosts p' = pl_hosts p) p'"
    if "same_hosts (pl_hosts p) p' \<and> h_name (fst x) = h_name h" for x p'
  proof -
    obtain h' pb where x: "x = (h', pb)" by (cases x)
    have "h_name (with_os h' pb) = h_name h" using that by (simp add: with_os_def x split: option.split)
    then show ?thesis
      using that assms(1) new by (auto simp: x service_steps wp_simps Let_def same_hosts_def names_unique_def)
  qed
  have "same_hosts (pl_hosts p) p" by (simp add: same_hosts_def)
  from probe_host_hosts[OF this] show ?thesis
    unfolding wp_andThen
  proof (rule wp_mono)
    fix e and p' :: "'a plane" assume "same_hosts (pl_hosts p) p'"
    then show "names_unique p' \<and> pl_hosts p' = pl_hosts p" using assms(1) by (simp add: same_hosts_def names_unique_def)
  qed (rule rest)
qed

lemma next_frame [simp]: "host_at n (p\<lparr>pl_next := k\<rparr>) = host_at n p" "host_at n (p\<lparr>pl_remote := r\<rparr>) = host_at n p"
  "host_at n (p\<lparr>pl_files := fs\<rparr>) = host_at n p" "host_at n (p\<lparr>pl_audit := a\<rparr>) = host_at n p"
  by (simp_all add: host_at_def)

lemma add_host_effect:
  assumes "names_unique p"
  shows "wp (add_host M n i)
    (\<lambda>x p'. names_unique p' \<and> pl_hosts p' = pl_hosts p @ [fst x] \<and> h_name (fst x) = n)
    (\<lambda>e p'. names_unique p' \<and> pl_hosts p' = pl_hosts p) p"
proof (cases "n \<noteq> [] \<and> list_all name_char n \<and> host_at n p = None")
  case True
  let ?h = "\<lparr>h_name = n, h_uid = Some (show_nat (pl_next p)), h_address = hi_address i, h_user = or_default (hi_user i) ''root'',
     h_port = or_default (hi_port i) 22, h_user_key = hi_user_key i, h_ops_installed = False, h_provider = None,
     h_provider_server = None, h_os = None, h_conn = None, h_ssh_managed = None, h_firewall = None,
     h_tags = or_default (hi_tags i) [], h_added_at = pl_now p\<rparr>"
  have "wp (add_host M n i) Q E p = wp (andThen (probe_host M ?h) (\<lambda>(h', pb). let h2 = with_os h' pb in
      andThen list_hosts (\<lambda>hs. andThen (save_hosts (hs @ [h2])) (\<lambda>_. andThen (appendAudit ''host.add''
        [(''name'', JStr n), (''address'', JStr (h_address h2))]) (\<lambda>_. ret (h2, pb))))))
      Q E (p\<lparr>pl_next := Suc (pl_next p)\<rparr>)" for Q E
    using True by (simp add: add_host_def assertHostName_def service_steps wp_simps)
  then show ?thesis
    using append_host_unique[of "p\<lparr>pl_next := Suc (pl_next p)\<rparr>" ?h] assms True by simp
next
  case False
  then show ?thesis
    using assms by (auto simp: add_host_def assertHostName_def service_steps wp_simps)
qed

lemma resolveProviderServer_hosts:
  assumes "same_hosts hs p"
  shows "wp (resolveProviderServer M pr i) (\<lambda>s. same_hosts hs) (\<lambda>e. same_hosts hs) p"
  using assms
  by (simp add: resolveProviderServer_def wp_simps split: prod.split sum.split option.split)

lemma same_hosts_unique: "names_unique p \<Longrightarrow> same_hosts (pl_hosts p) p' \<Longrightarrow> names_unique p'"
  by (simp add: same_hosts_def names_unique_def)

lemma import_host_effect:
  assumes "names_unique p"
  shows "wp (import_host M pn i)
    (\<lambda>x p'. names_unique p' \<and> pl_hosts p' = pl_hosts p @ [fst x])
    (\<lambda>e p'. names_unique p' \<and> pl_hosts p' = pl_hosts p) p"
proof -
  let ?Q = "\<lambda>x p'. names_unique p' \<and> pl_hosts p' = pl_hosts p @ [fst x]"
  let ?E = "\<lambda>e p'. names_unique p' \<and> pl_hosts p' = pl_hosts p"
  let ?body = "\<lambda>pr s. case nonempty (srv_public_ip s) of
       None \<Rightarrow> throw (Bad_Request (''Server '' @ quoted (srv_name s) @ '' has no public IP.''))
     | Some ip \<Rightarrow> andThen (get_host (srv_name s)) (\<lambda>there.
       if there \<noteq> None then throw (Bad_Request (''Host '' @ quoted (srv_name s) @ '' already exists.''))
       else andThen newHostUid (\<lambda>uid. andThen clock (\<lambda>t.
         andThen (probe_host M \<lparr>h_name = srv_name s, h_uid = Some uid, h_address = ip, h_user = defaultSshUser pr, h_port = 22,
            h_user_key = None, h_ops_installed = False, h_provider = Some (mc_provider_text M pr),
            h_provider_server = Some (srv_id s), h_os = None, h_conn = None, h_ssh_managed = None, h_firewall = None,
            h_tags = [], h_added_at = t\<rparr>) (\<lambda>(h, pb).
         let h' = with_os h pb in
         andThen list_hosts (\<lambda>hs. andThen (save_hosts (hs @ [h'])) (\<lambda>_.
         andThen (appendAudit ''host.import'' [(''provider'', JStr (mc_provider_text M pr)), (''name'', JStr (h_name h'))]) (\<lambda>_.
         ret (h', pb))))))))"
  have body: "wp (?body pr s) ?Q ?E p'" if same: "same_hosts (pl_hosts p) p'" for pr s p'
  proof (cases "nonempty (srv_public_ip s) = None \<or> host_at (srv_name s) p' \<noteq> None")
    case True
    then show ?thesis using same assms
      by (auto simp: service_steps wp_simps same_hosts_def names_unique_def split: option.split)
  next
    case False
    then obtain ip where ip: "nonempty (srv_public_ip s) = Some ip" and free: "host_at (srv_name s) p' = None" by auto
    let ?p = "p'\<lparr>pl_next := Suc (pl_next p')\<rparr>"
    let ?h = "\<lparr>h_name = srv_name s, h_uid = Some (show_nat (pl_next p')), h_address = ip, h_user = defaultSshUser pr, h_port = 22,
            h_user_key = None, h_ops_installed = False, h_provider = Some (mc_provider_text M pr),
            h_provider_server = Some (srv_id s), h_os = None, h_conn = None, h_ssh_managed = None, h_firewall = None,
            h_tags = [], h_added_at = pl_now p'\<rparr>"
    have run: "wp (?body pr s) ?Q ?E p' = wp (andThen (probe_host M ?h) (\<lambda>(h, pb). let h' = with_os h pb in
         andThen list_hosts (\<lambda>hs. andThen (save_hosts (hs @ [h'])) (\<lambda>_.
         andThen (appendAudit ''host.import'' [(''provider'', JStr (mc_provider_text M pr)), (''name'', JStr (h_name h'))]) (\<lambda>_.
         ret (h', pb)))))) ?Q ?E ?p"
      using ip free by (simp add: service_steps wp_simps)
    have u: "names_unique ?p" and hosts: "pl_hosts ?p = pl_hosts p"
      using same assms by (simp_all add: same_hosts_def names_unique_def)
    have f: "host_at (h_name ?h) ?p = None" using free by simp
    show ?thesis unfolding run by (rule wp_mono[OF append_host_unique[OF u f]]) (use hosts in auto)
  qed
  show ?thesis
  proof (cases "resolveProvider (mc_provider_text M) pn")
    case None
    then show ?thesis using assms by (simp add: import_host_def resolve_provider_def wp_simps)
  next
    case (Some pr)
    have "same_hosts (pl_hosts p) p" by (simp add: same_hosts_def)
    from resolveProviderServer_hosts[OF this] have "wp (andThen (resolveProviderServer M pr i) (?body pr)) ?Q ?E p"
      unfolding wp_andThen
    proof (rule wp_mono)
      fix e and p' :: "'a plane" assume "same_hosts (pl_hosts p) p'"
      then show "names_unique p' \<and> pl_hosts p' = pl_hosts p" using assms same_hosts_unique by (simp add: same_hosts_def)
    qed (rule body)
    then show ?thesis using Some by (simp add: import_host_def resolve_provider_def wp_simps)
  qed
qed

lemma ensureFromServer_effect:
  assumes "names_unique p"
  shows "wp (ensureFromServer M pn i) (\<lambda>h. names_unique) (\<lambda>e. names_unique) p"
proof (cases "resolveProvider (mc_provider_text M) pn")
  case None
  then show ?thesis using assms by (simp add: ensureFromServer_def resolve_provider_def wp_simps)
next
  case (Some pr)
  let ?text = "mc_provider_text M pr"
  have adopt: "wp (andThen (if h_os a = None then andThen (probe_host M a) (\<lambda>(h, pb). ret (with_os h pb)) else ret a) (\<lambda>a.
           andThen (update_host a) (\<lambda>_. andThen (appendAudit ''host.adopt'' [(''provider'', JStr ?text), (''name'', JStr (h_name a))])
             (\<lambda>_. ret a)))) (\<lambda>h. names_unique) (\<lambda>e. names_unique) p'" if u: "names_unique p'" for a p'
  proof -
    have "same_hosts (pl_hosts p') p'" by (simp add: same_hosts_def)
    from probe_host_hosts[OF this] have "wp (probe_host M a) (\<lambda>x. names_unique) (\<lambda>e. names_unique) p'"
      by (rule wp_mono) (use same_hosts_unique[OF u] in auto)
    then have "wp (andThen (probe_host M a) (\<lambda>(h, pb). ret (with_os h pb))) (\<lambda>x. names_unique) (\<lambda>e. names_unique) p'"
      unfolding wp_andThen by (rule wp_mono) (auto simp: wp_simps)
    then have pre: "wp (if h_os a = None then andThen (probe_host M a) (\<lambda>(h, pb). ret (with_os h pb)) else ret a)
        (\<lambda>x. names_unique) (\<lambda>e. names_unique) p'" using u by (simp add: wp_ret)
    show ?thesis by (subst wp_andThen, rule wp_mono[OF pre]) (simp_all add: service_steps wp_simps)
  qed
  have import_: "wp (andThen (import_host M ?text i) (\<lambda>(h, pb). ret h)) (\<lambda>h. names_unique) (\<lambda>e. names_unique) p'"
    if "names_unique p'" for p'
    unfolding wp_andThen using import_host_effect[OF that] by (rule wp_mono) (auto simp: wp_simps)
  let ?cont = "\<lambda>s. andThen (get_host (srv_name s)) (\<lambda>existing. case existing of
         Some e \<Rightarrow> let adopted = e\<lparr>h_provider := Some ?text, h_provider_server := Some (srv_id s)\<rparr> in
           andThen (if h_os adopted = None then andThen (probe_host M adopted) (\<lambda>(h, pb). ret (with_os h pb)) else ret adopted) (\<lambda>a.
           andThen (update_host a) (\<lambda>_.
           andThen (appendAudit ''host.adopt'' [(''provider'', JStr ?text), (''name'', JStr (h_name a))]) (\<lambda>_. ret a)))
       | None \<Rightarrow> andThen (import_host M ?text i) (\<lambda>(h, pb). ret h))"
  have cont: "wp (?cont s) (\<lambda>h. names_unique) (\<lambda>e. names_unique) p'" if u: "names_unique p'" for s p'
  proof (cases "host_at (srv_name s) p'")
    case None
    then show ?thesis using import_[OF u] by (simp add: get_host_def wp_andThen[of "gets f" for f] wp_gets)
  next
    case (Some e)
    show ?thesis
      unfolding get_host_def wp_andThen[of "gets f" for f] wp_gets Some option.case Let_def by (rule adopt[OF u])
  qed
  have "same_hosts (pl_hosts p) p" by (simp add: same_hosts_def)
  from resolveProviderServer_hosts[OF this]
  have "wp (andThen (resolveProviderServer M pr i) ?cont) (\<lambda>h. names_unique) (\<lambda>e. names_unique) p"
    unfolding wp_andThen[of "resolveProviderServer M pr i"]
    by (rule wp_mono) (rule cont, erule same_hosts_unique[OF assms], erule same_hosts_unique[OF assms])
  then have "wp (case find (\<lambda>h. h_provider h = Some ?text \<and> (h_provider_server h = Some i \<or> h_name h = i)) (pl_hosts p) of
       Some linked \<Rightarrow> ret linked | None \<Rightarrow> andThen (resolveProviderServer M pr i) ?cont) (\<lambda>h. names_unique) (\<lambda>e. names_unique) p"
    using assms by (cases "find (\<lambda>h. h_provider h = Some ?text \<and> (h_provider_server h = Some i \<or> h_name h = i)) (pl_hosts p)")
      (simp_all only: option.case wp_ret)
  then show ?thesis
    unfolding ensureFromServer_def resolve_provider_def Some option.case list_hosts_def wp_andThen[of "ret x" for x] wp_ret
      wp_andThen[of "gets f" for f] wp_gets Let_def[of ?text] .
qed

datatype inventory_call =
    Add_Host string host_input
  | Import_Host string string
  | Ensure_Server string string
  | Remove_Host string
  | Set_User_Key string "string option"
  | Set_Managed string bool

text \<open>One call; one that throws keeps the writes it made.\<close>

definition do_inventory :: "'r machine \<Rightarrow> inventory_call \<Rightarrow> 'r plane \<Rightarrow> 'r plane" where
  "do_inventory M c p = (case c of
       Add_Host n i \<Rightarrow> snd (add_host M n i p)
     | Import_Host pn i \<Rightarrow> snd (import_host M pn i p)
     | Ensure_Server pn i \<Rightarrow> snd (ensureFromServer M pn i p)
     | Remove_Host n \<Rightarrow> snd (remove_host n p)
     | Set_User_Key n k \<Rightarrow> snd (setUserKey M n k p)
     | Set_Managed n b \<Rightarrow> snd (setSshManaged n b p))"

lemma wp_names_unique: "wp m (\<lambda>x. names_unique) (\<lambda>e. names_unique) p \<Longrightarrow> names_unique (snd (m p))"
  by (simp add: wp_state)

lemma do_inventory_unique:
  assumes u: "names_unique p"
  shows "names_unique (do_inventory M c p)"
proof (cases c)
  case (Add_Host n i)
  have "wp (add_host M n i) (\<lambda>x. names_unique) (\<lambda>e. names_unique) p"
    using add_host_effect[OF u] by (rule wp_mono) auto
  then show ?thesis by (simp add: Add_Host do_inventory_def wp_names_unique)
next
  case (Import_Host pn i)
  have "wp (import_host M pn i) (\<lambda>x. names_unique) (\<lambda>e. names_unique) p"
    using import_host_effect[OF u] by (rule wp_mono) auto
  then show ?thesis by (simp add: Import_Host do_inventory_def wp_names_unique)
next
  case (Ensure_Server pn i)
  then show ?thesis using ensureFromServer_effect[OF u] by (simp add: do_inventory_def wp_names_unique)
next
  case (Remove_Host n)
  have "wp (remove_host n) (\<lambda>x. names_unique) (\<lambda>e. names_unique) p"
    using u by (simp add: remove_host_def service_steps wp_simps names_unique_def distinct_map_filter)
  then show ?thesis by (simp add: Remove_Host do_inventory_def wp_names_unique)
next
  case (Set_User_Key n k)
  have "wp (setUserKey M n k) (\<lambda>x. names_unique) (\<lambda>e. names_unique) p"
    using u by (simp add: setUserKey_def show_host_def service_steps wp_simps Let_def split: option.split)
  then show ?thesis by (simp add: Set_User_Key do_inventory_def wp_names_unique)
next
  case (Set_Managed n b)
  have "wp (setSshManaged n b) (\<lambda>x. names_unique) (\<lambda>e. names_unique) p"
    using u by (simp add: setSshManaged_def show_host_def service_steps wp_simps Let_def split: option.split)
  then show ?thesis by (simp add: Set_Managed do_inventory_def wp_names_unique)
qed

text \<open>
  C36: two hosts of the inventory never have the same name, whatever hosts are added, imported,
  adopted, removed or changed, in whatever order and with failing calls among them, and whatever
  the machines and the provider answer.
\<close>

theorem inventory_names_unique:
  assumes "names_unique p"
  shows "names_unique (fold (do_inventory M) cs p)"
  using assms by (induction cs arbitrary: p) (auto simp: do_inventory_unique)

lemma find_append: "find (\<lambda>x. h_name x = m) (hs @ [h]) =
    (case find (\<lambda>x. h_name x = m) hs of Some x \<Rightarrow> Some x | None \<Rightarrow> if h_name h = m then Some h else None)"
  by (induction hs) auto

text \<open>
  C37: a host that is added is found under its name, with the address and login it was given, and
  every other host is what it was; a name that is taken or holds a character outside the handle's
  alphabet is refused with the inventory unchanged.
\<close>

theorem add_host_contract:
  assumes "names_unique p"
  shows "(\<forall>h pb p'. add_host M n i p = (Inr (h, pb), p') \<longrightarrow> host_at n p = None \<and> host_at n p' = Some h \<and>
            (\<forall>m. m \<noteq> n \<longrightarrow> host_at m p' = host_at m p)) \<and>
    (host_at n p \<noteq> None \<or> \<not> list_all name_char n \<longrightarrow>
       (\<exists>e. fst (add_host M n i p) = Inl (Bad_Request e)) \<and> snd (add_host M n i p) = p)"
proof (intro conjI allI impI)
  fix h pb p' assume r: "add_host M n i p = (Inr (h, pb), p')"
  have e: "names_unique p'" "pl_hosts p' = pl_hosts p @ [h]" "h_name h = n"
    using wp_returns[OF add_host_effect[OF assms] r] by auto
  show free: "host_at n p = None" using e by (auto simp: names_unique_def host_at_None)
  have "host_at m (p'::'a plane) = (case host_at m p of Some x \<Rightarrow> Some x | None \<Rightarrow> if h_name h = m then Some h else None)" for m
    unfolding host_at_def e(2) by (rule find_append)
  then show "host_at n p' = Some h" and "\<And>m. m \<noteq> n \<Longrightarrow> host_at m p' = host_at m p"
    using free e(3) by (auto split: option.split)
next
  assume "host_at n p \<noteq> None \<or> \<not> list_all name_char n"
  then show "\<exists>e. fst (add_host M n i p) = Inl (Bad_Request e)" and "snd (add_host M n i p) = p"
    by (auto simp: add_host_def assertHostName_def andThen_def ret_def throw_def get_host_def gets_def)
qed

text \<open>The contract of \<open>update\<close> for the services that change a host they have read.\<close>

locale inventory =
  fixes put :: "'h \<Rightarrow> 'w \<Rightarrow> 'w"
    and get :: "string \<Rightarrow> 'w \<Rightarrow> 'h option"
    and ident :: "'h \<Rightarrow> string"
  assumes get_put: "get k (put h w) = (if k = ident h \<and> get k w \<noteq> None then Some h else get k w)"
begin

lemma read_back: "get (ident h) w \<noteq> None \<Longrightarrow> get (ident h) (put h w) = Some h"
  by (simp add: get_put)

lemma others_unchanged: "k \<noteq> ident h \<Longrightarrow> get k (put h w) = get k w"
  by (simp add: get_put)

lemma nothing_added: "get k (put h w) = None \<longleftrightarrow> get k w = None"
  by (auto simp: get_put)

end

lemma find_map_name: "find (\<lambda>x. h_name x = k) (map (\<lambda>x. if h_name x = h_name h then h else x) hs) =
    (if k = h_name h \<and> find (\<lambda>x. h_name x = k) hs \<noteq> None then Some h else find (\<lambda>x. h_name x = k) hs)"
  by (induction hs) auto

interpretation hosts: inventory put_host host_at h_name
  by unfold_locales (auto simp: host_at_def put_host_def find_map_name)

end
