(* ===== verification/Host_Access.thy ===== *)
theory Host_Access
  imports Host_Inventory Authorized_Keys
begin

text \<open>
  Reaching a host and managing the operations key on it: the connection check
  (src/src/host-ops/vops-host-conn.service.ts), the choice of the key (ssh-target.ts), the reading
  of authorized_keys over a session (remote-ak.ts) and the installation, revocation and status of
  the operations key (vops-host-keys.service.ts). The TCP probe is a parameter.
\<close>

section \<open>The connection\<close>

record resolved_key =
  rk_path :: "string option"
  rk_kind :: key_kind
  rk_name :: "string option"
  rk_public :: "string option"
  rk_source :: "key_source option"

definition resolveKey :: "'r machine \<Rightarrow> host \<Rightarrow> ('r, resolved_key) hact" where
  "resolveKey M h = andThen (if h_ops_installed h then find_ops M else ret None) (\<lambda>ops. case ops of
       Some k \<Rightarrow> ret \<lparr>rk_path = Some (key_private_path k), rk_kind = Ops_Key, rk_name = Some (key_name k),
                   rk_public = Some (key_public k), rk_source = Some Assigned\<rparr>
     | None \<Rightarrow> andThen (resolveUserKey M (h_user_key h)) (\<lambda>uk.
         case (case uk of Some k \<Rightarrow> if key_has_private k then Some k else None | None \<Rightarrow> None) of
           Some k \<Rightarrow> ret \<lparr>rk_path = Some (key_private_path k), rk_kind = User_Key, rk_name = Some (key_name k),
                       rk_public = Some (key_public k),
                       rk_source = Some (if nonempty (h_user_key h) \<noteq> None then Assigned else Default_Key)\<rparr>
         | None \<Rightarrow> ret \<lparr>rk_path = None, rk_kind = No_Key, rk_name = None, rk_public = None, rk_source = None\<rparr>))"

definition check_conn :: "'r machine \<Rightarrow> (string \<Rightarrow> nat \<Rightarrow> 'r \<Rightarrow> bool \<times> 'r) \<Rightarrow> string \<Rightarrow> ('r, host_conn) hact" where
  "check_conn M tcpProbe n = andThen (show_host n) (\<lambda>h. andThen (resolveKey M h) (\<lambda>rk.
     andThen (case nonempty (rk_path rk) of
         Some k \<Rightarrow> andThen (ssh_run_within M \<lparr>tgt_host = h, tgt_key = k\<rparr> ''true'' 6) (\<lambda>res.
            ret (sshOutcome (ex_code res) (ex_stderr res)))
       | None \<Rightarrow> andThen (on_remote (tcpProbe (h_address h) (port_of h))) (\<lambda>up.
            ret \<lparr>out_reachable = up, out_authorized = False, out_reason = []\<rparr>)) (\<lambda>out.
     andThen clock (\<lambda>t.
     let has = (nonempty (rk_path rk) \<noteq> None);
         (state, message) = deriveConnState \<lparr>di_reachable = out_reachable out, di_has_key = has,
            di_authorized = out_authorized out, di_key_kind = rk_kind rk, di_host = h, di_reason = Some (out_reason out),
            di_key_name = rk_name rk, di_key_source = rk_source rk\<rparr>;
         conn = \<lparr>conn_state = state, conn_key_kind = rk_kind rk, conn_key_name = rk_name rk, conn_public_key = rk_public rk,
            conn_key_source = rk_source rk, conn_reachable = out_reachable out, conn_has_key = has,
            conn_authorized = out_authorized out, conn_message = message, conn_checked_at = t\<rparr>
     in andThen (update_host (h\<lparr>h_conn := Some conn\<rparr>)) (\<lambda>_. ret conn)))))"

definition assertReady :: "'r machine \<Rightarrow> (string \<Rightarrow> nat \<Rightarrow> 'r \<Rightarrow> bool \<times> 'r) \<Rightarrow> string \<Rightarrow> ('r, host_conn) hact" where
  "assertReady M tcpProbe n = andThen (check_conn M tcpProbe n) (\<lambda>conn.
     if conn_state conn \<noteq> Ready then throw (Bad_Request (conn_message conn)) else ret conn)"

definition resolveSshTarget :: "'r machine \<Rightarrow> host \<Rightarrow> ('r, ssh_target) hact" where
  "resolveSshTarget M h = andThen (if h_ops_installed h then find_ops M else ret None) (\<lambda>ops. case ops of
       Some k \<Rightarrow> ret \<lparr>tgt_host = h, tgt_key = key_private_path k\<rparr>
     | None \<Rightarrow> andThen (keyPathFor M (h_user_key h)) (\<lambda>path. case nonempty path of
         Some k \<Rightarrow> ret \<lparr>tgt_host = h, tgt_key = k\<rparr>
       | None \<Rightarrow> throw (Bad_Request (''No usable key for host '' @ quoted (h_name h) @
            ''. Set a user key (vops host add --key) or install the ops key first.''))))"

section \<open>authorized_keys over a session\<close>

record ak_state =
  ak_home :: string
  ak_path :: string
  ak_content :: string

definition home_command :: string where
  "home_command = ''printf %s '' @ dq ''$HOME''"

definition read_command :: "string \<Rightarrow> string" where
  "read_command h = ''mkdir -p '' @ single_quoted (h @ ''/.ssh'') @ ''; chmod 700 '' @ single_quoted (h @ ''/.ssh'') @
     ''; cat '' @ single_quoted (h @ ''/.ssh/authorized_keys'') @ '' 2>/dev/null || true''"

text \<open>The exit code of the second command is not looked at.\<close>

definition readAuthorizedKeys :: "'r machine \<Rightarrow> ssh_target \<Rightarrow> ('r, ak_state) hact" where
  "readAuthorizedKeys M t = andThen (ssh_run M t home_command) (\<lambda>home.
     if ex_code home \<noteq> 0 \<or> trim (ex_stdout home) = []
     then throw (Bad_Request (''Cannot reach '' @ h_name (tgt_host t) @ '': '' @
            or_default (nonempty (Some (trim (ex_stderr home)))) ''connection failed''))
     else let h = trim (ex_stdout home) in
       andThen (ssh_run M t (read_command h)) (\<lambda>res.
       ret \<lparr>ak_home = h, ak_path = h @ ''/.ssh/authorized_keys'', ak_content = ex_stdout res\<rparr>))"

fun pickWorkingTarget :: "'r machine \<Rightarrow> host \<Rightarrow> string list \<Rightarrow> ('r, ssh_target option) hact" where
  "pickWorkingTarget M h [] = ret None"
| "pickWorkingTarget M h (k # ks) = andThen (ssh_run M \<lparr>tgt_host = h, tgt_key = k\<rparr> ''true'') (\<lambda>res.
     if ex_code res = 0 then ret (Some \<lparr>tgt_host = h, tgt_key = k\<rparr>) else pickWorkingTarget M h ks)"

section \<open>The operations key on a host\<close>

datatype install_result =
    Install_Preview string string string bool
  | Installed string bool

text \<open>Back out when the new key does not open a session; record it when it does.\<close>

definition settle_install :: "'r machine \<Rightarrow> host \<Rightarrow> ssh_target \<Rightarrow> ak_state \<Rightarrow> bool \<Rightarrow> exec_result \<Rightarrow> ('r, install_result) hact" where
  "settle_install M h userTarget state changed verify = (if ex_code verify \<noteq> 0
     then andThen (if changed then putFile M userTarget (ak_path state) (ak_content state) ''0600'' else ret ()) (\<lambda>_.
          throw (Bad_Request (''Ops key written but the verification session failed (rolled back): '' @
            or_default (nonempty (Some (trim (ex_stderr verify)))) ''auth failed'')))
     else andThen (update_host (h\<lparr>h_ops_installed := True\<rparr>)) (\<lambda>_.
          andThen (appendAudit ''host.key.install-ops'' [(''host'', JStr (h_name h))]) (\<lambda>_.
          ret (Installed (h_name h) (\<not> changed)))))"

definition write_ops_line :: "'r machine \<Rightarrow> host \<Rightarrow> ssh_target \<Rightarrow> ssh_key \<Rightarrow> string \<Rightarrow> string \<Rightarrow> bool \<Rightarrow>
    ('r, install_result) hact" where
  "write_ops_line M h userTarget opsKey line i dryRun = andThen (readAuthorizedKeys M userTarget) (\<lambda>state.
     let (content, changed) = upsertOpsLine (ak_content state) line (opsTag i) in
     if dryRun then ret (Install_Preview (h_name h) (ak_path state) line changed)
     else andThen (if changed then putFile M userTarget (ak_path state) content ''0600'' else ret ()) (\<lambda>_.
       andThen (ssh_run M \<lparr>tgt_host = h, tgt_key = key_private_path opsKey\<rparr> ''true'') (settle_install M h userTarget state changed)))"

definition install_with :: "'r machine \<Rightarrow> (string \<Rightarrow> nat \<Rightarrow> 'r \<Rightarrow> bool \<times> 'r) \<Rightarrow> host \<Rightarrow> string option \<Rightarrow> bool \<Rightarrow> string option \<Rightarrow>
    ('r, install_result) hact" where
  "install_with M tcpProbe h fromCidr dryRun path = (case nonempty path of
       None \<Rightarrow> throw (Bad_Request ''install-ops needs a usable local user key to bootstrap. Create/import one and set it: vops host add --key <name>.'')
     | Some userKeyPath \<Rightarrow>
       andThen (if dryRun then ret () else andThen (assertReady M tcpProbe (h_name h)) (\<lambda>_. ret ())) (\<lambda>_.
       andThen (ensureOpsKey M) (\<lambda>opsKey.
       andThen (opsAuthorizedKeysLine M fromCidr) (\<lambda>line.
       andThen (profileId M) (\<lambda>i.
       write_ops_line M h \<lparr>tgt_host = h, tgt_key = userKeyPath\<rparr> opsKey line i dryRun)))))"

definition installOps :: "'r machine \<Rightarrow> (string \<Rightarrow> nat \<Rightarrow> 'r \<Rightarrow> bool \<times> 'r) \<Rightarrow> string \<Rightarrow> string option \<Rightarrow> bool \<Rightarrow>
    ('r, install_result) hact" where
  "installOps M tcpProbe n fromCidr dryRun = andThen (show_host n) (\<lambda>h. andThen (assertHostWritable M h) (\<lambda>_.
     andThen (keyPathFor M (h_user_key h)) (install_with M tcpProbe h fromCidr dryRun)))"

definition opsTarget :: "'r machine \<Rightarrow> host \<Rightarrow> ('r, ssh_target) hact" where
  "opsTarget M h = andThen (find_ops M) (\<lambda>ops. case ops of
       None \<Rightarrow> throw (Bad_Request ''No local key available for this host (no user key set and no ops key present).'')
     | Some k \<Rightarrow> ret \<lparr>tgt_host = h, tgt_key = key_private_path k\<rparr>)"

definition revokeTarget :: "'r machine \<Rightarrow> host \<Rightarrow> ('r, ssh_target \<times> string option) hact" where
  "revokeTarget M h = andThen (resolveUserKey M (h_user_key h)) (\<lambda>userKey.
     case (case userKey of Some k \<Rightarrow> if key_has_private k then Some k else None | None \<Rightarrow> None) of
       Some k \<Rightarrow> andThen (ssh_run M \<lparr>tgt_host = h, tgt_key = key_private_path k\<rparr> ''true'') (\<lambda>chk.
         if ex_code chk = 0 then ret (\<lparr>tgt_host = h, tgt_key = key_private_path k\<rparr>, Some (key_public k))
         else andThen (opsTarget M h) (\<lambda>t. ret (t, None)))
     | None \<Rightarrow> andThen (opsTarget M h) (\<lambda>t. ret (t, None)))"

definition revokeRefusal :: "revoke_reason \<Rightarrow> string" where
  "revokeRefusal r = ''Refusing to revoke: '' @
     (if r = User_Key_Being_Removed
      then ''the only key that verified is the ops key itself, so removing its line would leave no way in. Give this host its own user key first (vops host key set <host> <key>)''
      else ''the ops key is the only working access and no user key verifies'') @ ''. Re-run with --force to override.''"

datatype revoke_result =
    Revoke_Preview string string nat bool
  | Revoked_Ops string nat

definition take_ops_line :: "'r machine \<Rightarrow> host \<Rightarrow> string \<Rightarrow> bool \<Rightarrow> bool \<Rightarrow> ssh_target \<times> string option \<Rightarrow>
    ('r, revoke_result) hact" where
  "take_ops_line M h i dryRun force tk = andThen (readAuthorizedKeys M (fst tk)) (\<lambda>state.
     let (content, removed) = removeOpsLine (ak_content state) (opsTag i);
         (safe, reason) = assessRevokeSafety (ak_content state) content (opsTag i) (snd tk) in
     if dryRun then ret (Revoke_Preview (h_name h) (ak_path state) removed safe)
     else if \<not> safe \<and> \<not> force then throw (Bad_Request (revokeRefusal reason))
     else andThen (if 0 < removed then putFile M (fst tk) (ak_path state) content ''0600'' else ret ()) (\<lambda>_.
       andThen (update_host (h\<lparr>h_ops_installed := False\<rparr>)) (\<lambda>_.
       andThen (appendAudit ''host.key.revoke-ops'' [(''host'', JStr (h_name h))]) (\<lambda>_.
       ret (Revoked_Ops (h_name h) removed)))))"

definition revokeOps :: "'r machine \<Rightarrow> string \<Rightarrow> bool \<Rightarrow> bool \<Rightarrow> ('r, revoke_result) hact" where
  "revokeOps M n dryRun force = andThen (show_host n) (\<lambda>h. andThen (assertHostWritable M h) (\<lambda>_.
     andThen (profileId M) (\<lambda>i. andThen (revokeTarget M h) (take_ops_line M h i dryRun force))))"

record key_status =
  ks_host :: string
  ks_path :: string
  ks_ops_tag_present :: bool
  ks_keys :: "(string \<times> bool \<times> bool) list"

definition readTarget :: "'r machine \<Rightarrow> host \<Rightarrow> ('r, ssh_target) hact" where
  "readTarget M h = andThen (keyPathFor M (h_user_key h)) (\<lambda>path. case nonempty path of
       Some k \<Rightarrow> ret \<lparr>tgt_host = h, tgt_key = k\<rparr>
     | None \<Rightarrow> opsTarget M h)"

text \<open>For each local key: its name, whether it is an operations key, whether the file authorizes it.\<close>

definition keyStatus :: "'r machine \<Rightarrow> string \<Rightarrow> ('r, key_status) hact" where
  "keyStatus M n = andThen (show_host n) (\<lambda>h. andThen (profileId M) (\<lambda>i. andThen (readTarget M h) (\<lambda>t.
     andThen (readAuthorizedKeys M t) (\<lambda>state. andThen (list_keys M) (\<lambda>ks.
     ret \<lparr>ks_host = n, ks_path = ak_path state, ks_ops_tag_present = includes_str (ak_content state) (opsTag i),
          ks_keys = map (\<lambda>k. (key_name k, key_is_ops k, authorizesKeyData (ak_content state) (key_public k))) ks\<rparr>)))))"

section \<open>What a host's key file keeps\<close>

text \<open>
  What is relied on of \<open>ssh\<close> and of the commands on the host. \<open>file r\<close> is the text of the login
  user's authorized_keys, \<open>home\<close> his home directory, and \<open>torn r\<close> says that some session with the host
  was cut off so far. Looking does not change the file; the home command prints \<open>home\<close>, or fails, or
  prints nothing; the reading command prints the file, unless it is cut off, and then nothing is known
  of its answer; a write puts its input there, or fails and leaves the file as it was, or is cut off.
  The key generator does not touch the profile's identifier.
\<close>

definition on_host :: "host \<Rightarrow> ssh_target \<Rightarrow> bool" where
  "on_host h t \<longleftrightarrow> login_of (tgt_host t) = login_of h \<and> port_of (tgt_host t) = port_of h"

definition keys_at :: "string \<Rightarrow> string" where
  "keys_at home = home @ ''/.ssh/authorized_keys''"

definition key_file_laws :: "'r machine \<Rightarrow> host \<Rightarrow> string \<Rightarrow> ('r \<Rightarrow> string) \<Rightarrow> ('r \<Rightarrow> bool) \<Rightarrow> bool" where
  "key_file_laws M h home file torn \<longleftrightarrow>
     (\<forall>t n args stdin r. on_host h t \<and> torn r \<longrightarrow> torn (snd (mc_runner M ''ssh'' (sshArgs M t n @ args) stdin r))) \<and>
     (\<forall>t n r. on_host h t \<longrightarrow> file (snd (mc_runner M ''ssh'' (sshArgs M t n @ [''true'']) None r)) = file r) \<and>
     (\<forall>t r. on_host h t \<longrightarrow>
        (let (x, r') = mc_runner M ''ssh'' (sshArgs M t 10 @ [home_command]) None r
         in file r' = file r \<and> (torn r' \<or> ex_code x \<noteq> 0 \<or> trim (ex_stdout x) \<in> {[], home}))) \<and>
     (\<forall>t r. on_host h t \<longrightarrow>
        (let (x, r') = mc_runner M ''ssh'' (sshArgs M t 10 @ [read_command home]) None r
         in file r' = file r \<and> (torn r' \<or> ex_stdout x = file r))) \<and>
     (\<forall>t content r. on_host h t \<longrightarrow>
        (let (x, r') = mc_runner M ''ssh'' (sshArgs M t 10 @ [put_command (keys_at home) ''0600'']) (Some content) r
         in torn r' \<or> file r' = content \<or> ex_code x \<noteq> 0 \<and> file r' = file r))"

lemma key_file_lawsD:
  assumes "key_file_laws M h home file torn" and "on_host h t"
  shows "mc_runner M ''ssh'' (sshArgs M t n @ args) stdin r = (x, r') \<Longrightarrow> torn r \<Longrightarrow> torn r'"
    and "mc_runner M ''ssh'' (sshArgs M t n @ [''true'']) None r = (x, r') \<Longrightarrow> file r' = file r"
    and "mc_runner M ''ssh'' (sshArgs M t 10 @ [home_command]) None r = (x, r') \<Longrightarrow>
      file r' = file r \<and> (torn r' \<or> ex_code x \<noteq> 0 \<or> trim (ex_stdout x) \<in> {[], home})"
    and "mc_runner M ''ssh'' (sshArgs M t 10 @ [read_command home]) None r = (x, r') \<Longrightarrow>
      file r' = file r \<and> (torn r' \<or> ex_stdout x = file r)"
    and "mc_runner M ''ssh'' (sshArgs M t 10 @ [put_command (keys_at home) ''0600'']) (Some content) r = (x, r') \<Longrightarrow>
      torn r' \<or> file r' = content \<or> ex_code x \<noteq> 0 \<and> file r' = file r"
proof -
  note laws = assms(1)[unfolded key_file_laws_def]
  show "torn r'" if "mc_runner M ''ssh'' (sshArgs M t n @ args) stdin r = (x, r')" "torn r"
    using laws[THEN conjunct1, rule_format, where t = t and r = r and n = n and args = args and stdin = stdin] assms(2) that by simp
  show "file r' = file r" if "mc_runner M ''ssh'' (sshArgs M t n @ [''true'']) None r = (x, r')"
    using laws[THEN conjunct2, THEN conjunct1, rule_format, OF assms(2), where n = n and r = r] that by simp
  show "file r' = file r \<and> (torn r' \<or> ex_code x \<noteq> 0 \<or> trim (ex_stdout x) \<in> {[], home})"
    if "mc_runner M ''ssh'' (sshArgs M t 10 @ [home_command]) None r = (x, r')"
    using laws[THEN conjunct2, THEN conjunct2, THEN conjunct1, rule_format, OF assms(2), of r] that by simp
  show "file r' = file r \<and> (torn r' \<or> ex_stdout x = file r)"
    if "mc_runner M ''ssh'' (sshArgs M t 10 @ [read_command home]) None r = (x, r')"
    using laws[THEN conjunct2, THEN conjunct2, THEN conjunct2, THEN conjunct1, rule_format, OF assms(2), of r] that by simp
  show "torn r' \<or> file r' = content \<or> ex_code x \<noteq> 0 \<and> file r' = file r"
    if "mc_runner M ''ssh'' (sshArgs M t 10 @ [put_command (keys_at home) ''0600'']) (Some content) r = (x, r')"
    using laws[THEN conjunct2, THEN conjunct2, THEN conjunct2, THEN conjunct2, rule_format, OF assms(2), where r = r and content = content] that by simp
qed

definition keygen_law :: "'r machine \<Rightarrow> bool" where
  "keygen_law M \<longleftrightarrow> (\<forall>path c fs fs'. mc_keygen M path c fs = Some fs' \<longrightarrow>
     map_of fs' (profile_id_path M) = map_of fs (profile_id_path M))"

text \<open>The entries of the file that are not this profile's.\<close>

definition others :: "string \<Rightarrow> string \<Rightarrow> string list" where
  "others tag c = filter (\<lambda>l. \<not> isOpsLine l tag) (key_lines c)"

lemma others_remove [simp]: "others tag (fst (removeOpsLine c tag)) = others tag c"
  by (simp add: others_def key_lines_remove)

lemma others_upsert [simp]:
  assumes "isOpsLine line tag" "one_line line"
  shows "others tag (fst (upsertOpsLine c line tag)) = others tag c"
proof -
  have "key_lines (fst (upsertOpsLine c line tag)) =
      filter (\<lambda>l. \<not> isOpsLine l tag) (key_lines c) @ filter isKeyLine [line]"
    using toLines_upsert[OF assms, of c] by (simp add: key_lines_def conj_commute)
  then show ?thesis using assms(1) by (simp add: others_def)
qed

text \<open>
  The profile is \<open>i\<close>, the inventory still has the host under its name with the same login, and the
  file on it is as \<open>K\<close> says, unless a session on it was cut off.
\<close>

definition steady :: "'r machine \<Rightarrow> string \<Rightarrow> host \<Rightarrow> ('r \<Rightarrow> string) \<Rightarrow> ('r \<Rightarrow> bool) \<Rightarrow> (string \<Rightarrow> bool) \<Rightarrow> 'r plane \<Rightarrow> bool" where
  "steady M i h file torn K p \<longleftrightarrow> i \<noteq> [] \<and> (\<exists>c. map_of (pl_files p) (profile_id_path M) = Some c \<and> trim c = i) \<and>
     (\<forall>h'. host_at (h_name h) p = Some h' \<longrightarrow> login_of h' = login_of h \<and> port_of h' = port_of h) \<and>
     (torn (pl_remote p) \<or> K (file (pl_remote p)))"

lemma steady_mono: "steady M i h file torn K p \<Longrightarrow> (\<And>x. K x \<Longrightarrow> K' x) \<Longrightarrow> steady M i h file torn K' p"
  by (auto simp: steady_def)

lemma steady_frame [simp]:
  "steady M i h file torn K (p\<lparr>pl_audit := a\<rparr>) = steady M i h file torn K p"
  "steady M i h file torn K (p\<lparr>pl_next := m\<rparr>) = steady M i h file torn K p"
  by (simp_all add: steady_def host_at_def)

lemma host_at_put: "host_at n (put_host x p) = (if h_name x = n then map_option (\<lambda>_. x) (host_at n p) else host_at n p)"
proof -
  have "find (\<lambda>h. h_name h = n) (map (\<lambda>y. if h_name y = h_name x then x else y) hs) =
      (if h_name x = n then map_option (\<lambda>_. x) (find (\<lambda>h. h_name h = n) hs) else find (\<lambda>h. h_name h = n) hs)" for hs
    by (induction hs) auto
  then show ?thesis by (simp add: host_at_def put_host_def)
qed

lemma steady_put [simp]:
  "login_of x = login_of h \<Longrightarrow> port_of x = port_of h \<Longrightarrow> steady M i h file torn K p \<Longrightarrow> steady M i h file torn K (put_host x p)"
  by (auto simp: steady_def host_at_put) (simp_all add: put_host_def)

lemma door_frame [simp]:
  "login_of (x\<lparr>h_conn := c\<rparr>) = login_of x" "port_of (x\<lparr>h_conn := c\<rparr>) = port_of x"
  "login_of (x\<lparr>h_ops_installed := b\<rparr>) = login_of x" "port_of (x\<lparr>h_ops_installed := b\<rparr>) = port_of x"
  by (simp_all add: login_of_def port_of_def)

lemma steady_remote: "steady M i h file torn K p \<Longrightarrow> (torn (pl_remote p) \<Longrightarrow> torn r) \<Longrightarrow> (K (file (pl_remote p)) \<Longrightarrow> torn r \<or> K' (file r)) \<Longrightarrow>
    steady M i h file torn K' (p\<lparr>pl_remote := r\<rparr>)"
  by (auto simp: steady_def host_at_def)

lemma profileId_steady: "steady M i h file torn K p \<Longrightarrow> wp (profileId M) (\<lambda>x p'. x = i \<and> p' = p) E p"
  by (auto simp: steady_def profileId_def wp_simps)

lemma show_host_steady:
  "wp (show_host n) (\<lambda>h p'. p' = p \<and> host_at n p = Some h) (\<lambda>e p'. p' = p) p"
  by (simp add: show_host_def get_host_def wp_simps split: option.split)

lemma writable_steady: "wp (assertHostWritable M h) (\<lambda>x p'. p' = p) (\<lambda>e p'. p' = p) p"
  by (simp add: assertHostWritable_def wp_simps)

lemma resolve_key_same: "wp (resolve_key M n) (\<lambda>x p'. p' = p) (\<lambda>e p'. p' = p) p"
  by (simp add: resolve_key_def show_key_def assertKeyName_def read_key_def service_steps wp_simps
      split: option.split list.split)

lemma keyPathFor_same: "wp (keyPathFor M n) (\<lambda>x p'. p' = p) (\<lambda>e p'. p' = p) p"
  unfolding keyPathFor_def wp_catching wp_andThen
  using resolve_key_same by (rule wp_mono) (simp_all add: wp_simps)

lemma resolveUserKey_same: "wp (resolveUserKey M n) (\<lambda>x p'. p' = p) (\<lambda>e p'. p' = p) p"
  unfolding resolveUserKey_def wp_catching wp_andThen
  using resolve_key_same by (rule wp_mono) (simp_all add: wp_simps)

lemma find_ops_same: "wp (find_ops M) (\<lambda>x p'. p' = p) (\<lambda>e p'. p' = p) p"
  by (simp add: find_ops_def service_steps wp_simps)

lemma ensureKeyFile_steady:
  assumes "keygen_law M" and "steady M i h file torn K p"
  shows "wp (ensureKeyFile M name) (\<lambda>k. steady M i h file torn K) (\<lambda>e. steady M i h file torn K) p"
proof -
  have pid: "wp (profileId M) (\<lambda>x p'. x = i \<and> p' = p) (\<lambda>e p'. False) p" by (rule profileId_steady[OF assms(2)])
  have gen: "wp (andThen (run_keygen M path c) (\<lambda>_. read_key M n)) (\<lambda>k. steady M i h file torn K) (\<lambda>e. steady M i h file torn K) p" for path c n
    using assms by (auto simp: run_keygen_def read_key_def wp_simps keygen_law_def steady_def split: option.split)
  have "wp (andThen (profileId M) (\<lambda>i. andThen (run_keygen M path (n @ '':'' @ i)) (\<lambda>_. read_key M n)))
      (\<lambda>k. steady M i h file torn K) (\<lambda>e. steady M i h file torn K) p" for path n
    by (subst wp_andThen, rule wp_mono[OF pid]) (use gen in auto)
  then show ?thesis
    using assms(2) by (simp add: ensureKeyFile_def read_key_def wp_andThen[of "gets f" for f] wp_gets wp_simps(1,2)
        split: option.split)
qed

lemma ensureOpsKey_steady:
  assumes "keygen_law M" and "steady M i h file torn K p"
  shows "wp (ensureOpsKey M) (\<lambda>k. steady M i h file torn K) (\<lambda>e. steady M i h file torn K) p"
  unfolding ensureOpsKey_def by (rule ensureKeyFile_steady[OF assms])

lemma split_spaces_from_no_space: "w \<in> set (split_spaces_from b s) \<Longrightarrow> c \<in> set w \<Longrightarrow> \<not> is_space c"
proof (induction b s arbitrary: w rule: split_spaces_from.induct)
  case (2 b x xs)
  then show ?case
    by (cases "split_spaces_from False xs") (fastforce split: if_splits)+
qed simp

lemma split_spaces_no_space: "w \<in> set (split_spaces s) \<Longrightarrow> c \<in> set w \<Longrightarrow> \<not> is_space c"
  unfolding split_spaces_def by (rule split_spaces_from_no_space)

lemma trim_no_space_ends:
  assumes "s \<noteq> []" "\<not> is_space (hd s)" "\<not> is_space (last s)"
  shows "trim s = s"
proof -
  have "trim_start s = s" using assms by (cases s) (simp_all add: trim_start_def)
  moreover have "trim_end s = s" using assms by (cases s rule: rev_cases) (simp_all add: trim_end_def)
  ultimately show ?thesis by (simp add: trim_def)
qed

definition solid :: "string \<Rightarrow> bool" where
  "solid s \<longleftrightarrow> s \<noteq> [] \<and> (\<forall>c \<in> set s. \<not> is_space c)"

lemma newline_is_space: "is_space newline"
  by (simp add: is_space_def newline_def)

lemma built_line_ops:
  assumes "solid i" and "\<not> is_space (hd pre)" and "hd pre \<noteq> CHR ''#''" and "pre \<noteq> []"
  shows "isOpsLine (pre @ '' '' @ opsTag i) (opsTag i)"
proof -
  let ?l = "pre @ '' '' @ opsTag i"
  have "last ?l = last i" using assms(1) by (simp add: opsTag_def solid_def)
  then have "trim ?l = ?l" using assms by (intro trim_no_space_ends) (auto simp: solid_def)
  moreover have "ends_with ?l ('' '' @ opsTag i)" by (auto simp: ends_with_iff)
  moreover have "\<not> starts_with ?l ''#''" using assms(3,4) by (cases pre) (auto simp: starts_with_def)
  ultimately show ?thesis using assms(4) by (simp add: isOpsLine_def)
qed

lemma options_head: "\<exists>c cs. opsKeyOptions f = c # cs \<and> \<not> is_space c \<and> c \<noteq> CHR ''#''"
proof (cases "nonempty f")
  case None
  then show ?thesis by (simp add: opsKeyOptions_def is_space_def)
next
  case (Some c)
  then show ?thesis by (simp add: opsKeyOptions_def is_space_def)
qed

definition no_newline :: "string option \<Rightarrow> bool" where
  "no_newline f \<longleftrightarrow> (case f of None \<Rightarrow> True | Some c \<Rightarrow> newline \<notin> set c)"

lemma options_one_line: "no_newline f \<Longrightarrow> newline \<notin> set (opsKeyOptions f)"
  by (cases f) (auto simp: opsKeyOptions_def no_newline_def nonempty_def newline_def dq_def)

lemma word_one_line: "newline \<notin> set (word_or_undefined n s)"
proof (cases "n < length (split_spaces s)")
  case True
  then show ?thesis
    using split_spaces_no_space[OF nth_mem[OF True], of newline] newline_is_space by (auto simp: word_or_undefined_def)
next
  case False
  then show ?thesis by (simp add: word_or_undefined_def newline_def)
qed

lemma opsTag_name: "opsTag i = OPS_KEY_NAME @ '':'' @ i"
  by (simp add: opsTag_def OPS_KEY_NAME_def)

lemma line_steady:
  assumes "keygen_law M" and "steady M i h file torn K p" and "solid i" and "no_newline f"
  shows "wp (opsAuthorizedKeysLine M f)
    (\<lambda>l p'. steady M i h file torn K p' \<and> isOpsLine l (opsTag i) \<and> one_line l) (\<lambda>e. steady M i h file torn K) p"
proof -
  have build: "wp (andThen (profileId M) (\<lambda>i. ret (opsKeyOptions f @ '' '' @ a @ '' '' @ b @ '' '' @ OPS_KEY_NAME @ '':'' @ i)))
      (\<lambda>l p'. steady M i h file torn K p' \<and> isOpsLine l (opsTag i) \<and> one_line l) (\<lambda>e. steady M i h file torn K) p'"
    if st: "steady M i h file torn K p'" and ab: "newline \<notin> set a" "newline \<notin> set b" for a b p'
  proof -
    obtain c cs where h: "opsKeyOptions f = c # cs" "\<not> is_space c" "c \<noteq> CHR ''#''" using options_head by blast
    have "isOpsLine ((opsKeyOptions f @ '' '' @ a @ '' '' @ b) @ '' '' @ opsTag i) (opsTag i)"
      by (rule built_line_ops) (use assms(3) h in auto)
    moreover have "one_line (opsKeyOptions f @ '' '' @ a @ '' '' @ b @ '' '' @ opsTag i)"
      using options_one_line[OF assms(4)] ab assms(3) newline_is_space
      by (auto simp: one_line_def opsTag_def solid_def newline_def)
    ultimately show ?thesis
      by (subst wp_andThen, intro wp_mono[OF profileId_steady[OF st, of "\<lambda>e p. False"]]) (use st in \<open>auto simp: wp_ret opsTag_name\<close>)
  qed
  show ?thesis
    unfolding opsAuthorizedKeysLine_def
    by (subst wp_andThen, rule wp_mono[OF ensureOpsKey_steady[OF assms(1,2)]]) (rule build, auto simp: word_one_line)
qed

lemma run_steady:
  assumes laws: "key_file_laws M h home file torn" and st: "steady M i h file torn K p" and t: "on_host h t"
  shows "wp (ssh_run_within M t ''true'' n) (\<lambda>x. steady M i h file torn K) (\<lambda>e. steady M i h file torn K) p"
proof -
  obtain x r' where run: "mc_runner M ''ssh'' (sshArgs M t n @ [''true'']) None (pl_remote p) = (x, r')" by fastforce
  show ?thesis
    using key_file_lawsD(1,2)[OF laws t run] run by (auto simp: ssh_run_within_def wp_on_remote intro!: steady_remote[OF st])
qed

text \<open>What was read is the file, or nothing is known any more.\<close>

lemma read_steady:
  assumes laws: "key_file_laws M h home file torn" and st: "steady M i h file torn K p" and t: "on_host h t"
  shows "wp (readAuthorizedKeys M t)
    (\<lambda>st. steady M i h file torn (\<lambda>x. K x \<and> K (ak_content st) \<and> ak_path st = keys_at home)) (\<lambda>e. steady M i h file torn K) p"
proof -
  let ?at = "\<lambda>res x. K x \<and> (ex_code res \<noteq> 0 \<or> trim (ex_stdout res) \<in> {[], home})"
  have first: "wp (ssh_run M t home_command) (\<lambda>res. steady M i h file torn (?at res)) E p" for E
  proof -
    obtain x r' where run: "mc_runner M ''ssh'' (sshArgs M t 10 @ [home_command]) None (pl_remote p) = (x, r')" by fastforce
    have "steady M i h file torn (?at x) (p\<lparr>pl_remote := r'\<rparr>)"
      using key_file_lawsD(1,3)[OF laws t run] by (intro steady_remote[OF st]) auto
    then show ?thesis using run by (simp add: ssh_run_def ssh_run_within_def wp_on_remote)
  qed
  have second: "wp (ssh_run M t (read_command d)) (\<lambda>res. steady M i h file torn (\<lambda>x. K x \<and> K (ex_stdout res) \<and> d = home)) E p'"
    if p': "steady M i h file torn (\<lambda>x. K x \<and> d = home) p'" for d E p'
  proof -
    obtain x r' where run: "mc_runner M ''ssh'' (sshArgs M t 10 @ [read_command d]) None (pl_remote p') = (x, r')" by fastforce
    have "steady M i h file torn (\<lambda>c. K c \<and> K (ex_stdout x) \<and> d = home) (p'\<lparr>pl_remote := r'\<rparr>)"
      using key_file_lawsD(1)[OF laws t run] key_file_lawsD(4)[OF laws t, of "pl_remote p'" x r'] run
      by (intro steady_remote[OF p']) auto
    then show ?thesis using run by (simp add: ssh_run_def ssh_run_within_def wp_on_remote)
  qed
  have rest: "wp (andThen (ssh_run M t (read_command d)) (\<lambda>res.
       ret \<lparr>ak_home = d, ak_path = d @ ''/.ssh/authorized_keys'', ak_content = ex_stdout res\<rparr>))
     (\<lambda>st. steady M i h file torn (\<lambda>x. K x \<and> K (ak_content st) \<and> ak_path st = keys_at home)) E p'"
    if "steady M i h file torn (\<lambda>x. K x \<and> d = home) p'" for d p' E
    by (subst wp_andThen, rule wp_mono[OF second[OF that]])
       (simp add: wp_ret, erule steady_mono, simp add: keys_at_def, assumption)
  show ?thesis
    unfolding readAuthorizedKeys_def Let_def
  proof (subst wp_andThen, rule wp_mono[OF first[of "\<lambda>e. steady M i h file torn K"]], rule wp_ifI)
    fix res p' m
    assume p': "steady M i h file torn (?at res) p'"
    show "wp (throw (Bad_Request m)) (\<lambda>st. steady M i h file torn (\<lambda>x. K x \<and> K (ak_content st) \<and> ak_path st = keys_at home))
      (\<lambda>e. steady M i h file torn K) p'"
      unfolding wp_throw by (rule steady_mono[OF p']) blast
    show "wp (andThen (ssh_run M t (read_command (trim (ex_stdout res)))) (\<lambda>r. ret \<lparr>ak_home = trim (ex_stdout res),
        ak_path = trim (ex_stdout res) @ ''/.ssh/authorized_keys'', ak_content = ex_stdout r\<rparr>))
      (\<lambda>st. steady M i h file torn (\<lambda>x. K x \<and> K (ak_content st) \<and> ak_path st = keys_at home))
      (\<lambda>e. steady M i h file torn K) p'" if "\<not> (ex_code res \<noteq> 0 \<or> trim (ex_stdout res) = [])"
      by (rule rest, rule steady_mono[OF p']) (use that in blast)
  qed assumption
qed

lemma put_steady:
  assumes laws: "key_file_laws M h home file torn" and st: "steady M i h file torn K p" and t: "on_host h t"
    and K: "\<And>x. K x \<Longrightarrow> K content \<and> path = keys_at home"
  shows "wp (putFile M t path content ''0600'') (\<lambda>x. steady M i h file torn K) (\<lambda>e. steady M i h file torn K) p"
proof -
  obtain x r' where run: "mc_runner M ''ssh'' (sshArgs M t 10 @ [put_command path ''0600'']) (Some content) (pl_remote p) = (x, r')"
    by fastforce
  have "steady M i h file torn K (p\<lparr>pl_remote := r'\<rparr>)"
    using key_file_lawsD(1)[OF laws t run] key_file_lawsD(5)[OF laws t, of content "pl_remote p" x r'] run K
    by (intro steady_remote[OF st]) auto
  then show ?thesis using run by (simp add: putFile_def wp_simps)
qed

lemma on_same_host: "on_host h \<lparr>tgt_host = h, tgt_key = k\<rparr>"
  by (simp add: on_host_def)

text \<open>The path \<open>keyPathFor\<close> answers, as a function of the files.\<close>

definition user_path :: "'r machine \<Rightarrow> string option \<Rightarrow> (string \<times> string) list \<Rightarrow> string option" where
  "user_path M n fs = (let usable = (\<lambda>k. if key_has_private k then Some (key_private_path k) else None) in
     case nonempty n of
       Some m \<Rightarrow> if m \<noteq> [] \<and> list_all name_char m \<and> exists_file fs (pub_path M m)
                then (case key_of M fs m of Some k \<Rightarrow> usable k | None \<Rightarrow> None) else None
     | None \<Rightarrow> (case usable_user_keys (keys_of M fs) of [k] \<Rightarrow> usable k | _ \<Rightarrow> None))"

lemma keyPathFor_eq: "wp (keyPathFor M n) (\<lambda>x p'. x = user_path M n (pl_files p) \<and> p' = p) (\<lambda>e p'. False) p"
  by (auto simp: keyPathFor_def resolve_key_def show_key_def assertKeyName_def read_key_def service_steps
      wp_simps user_path_def Let_def split: option.split list.split)

lemma resolveSshTarget_same:
  "wp (resolveSshTarget M h) (\<lambda>t p'. p' = p \<and> on_host h t) (\<lambda>e p'. p' = p \<and> (\<exists>m. e = Bad_Request m)) p"
proof -
  have ops: "wp (if h_ops_installed h then find_ops M else ret None) (\<lambda>x p'. p' = p) (\<lambda>e p'. p' = p \<and> (\<exists>m. e = Bad_Request m)) p"
    by (simp add: find_ops_def service_steps wp_simps)
  have user: "wp (andThen (keyPathFor M n) (\<lambda>path. case nonempty path of
         Some k \<Rightarrow> ret \<lparr>tgt_host = h, tgt_key = k\<rparr> | None \<Rightarrow> throw (Bad_Request m)))
      (\<lambda>t p'. p' = p \<and> on_host h t) (\<lambda>e p'. p' = p \<and> (\<exists>m. e = Bad_Request m)) p" for n m
    unfolding wp_andThen
    by (rule wp_mono[OF keyPathFor_eq]) (auto simp: wp_ret wp_throw on_same_host split: option.split)
  show ?thesis
    unfolding resolveSshTarget_def
    by (rule wp_seq[OF ops]) (auto simp: wp_ret on_same_host user split: option.split)
qed

text \<open>A step that leaves everything alone keeps whatever is known.\<close>

lemma wp_same:
  assumes "wp m (\<lambda>x p'. p' = p) (\<lambda>e p'. p' = p) p" and "I p"
  shows "wp m (\<lambda>x. I) (\<lambda>e. I) p"
  using assms(2) by (auto intro: wp_mono[OF assms(1)])

definition probe_law :: "(string \<Rightarrow> nat \<Rightarrow> 'r \<Rightarrow> bool \<times> 'r) \<Rightarrow> ('r \<Rightarrow> string) \<Rightarrow> ('r \<Rightarrow> bool) \<Rightarrow> bool" where
  "probe_law tcpProbe file torn \<longleftrightarrow> (\<forall>a n r. file (snd (tcpProbe a n r)) = file r \<and> (torn r \<longrightarrow> torn (snd (tcpProbe a n r))))"

lemma resolveKey_same: "wp (resolveKey M h) (\<lambda>x p'. p' = p) (\<lambda>e p'. p' = p) p"
proof -
  have user: "wp (andThen (resolveUserKey M n) (\<lambda>uk. case g uk of Some k \<Rightarrow> ret (a k) | None \<Rightarrow> ret b))
      (\<lambda>x p'. p' = p) (\<lambda>e p'. p' = p) p" for n g a and b :: resolved_key
    by (rule wp_seq[OF resolveUserKey_same]) (simp add: wp_ret split: option.split)
  have ops: "wp (if h_ops_installed h then find_ops M else ret None) (\<lambda>x p'. p' = p) (\<lambda>e p'. p' = p) p"
    by (simp add: find_ops_same wp_ret)
  show ?thesis
    unfolding resolveKey_def
    by (rule wp_seq[OF ops]) (auto simp: wp_ret user split: option.split)
qed

text \<open>Knowledge that the checks of a connection do not disturb.\<close>

definition checks_keep :: "'r machine \<Rightarrow> (string \<Rightarrow> nat \<Rightarrow> 'r \<Rightarrow> bool \<times> 'r) \<Rightarrow> host \<Rightarrow> ('r plane \<Rightarrow> bool) \<Rightarrow> bool" where
  "checks_keep M tcpProbe h I \<longleftrightarrow>
     (\<forall>p h'. I p \<and> host_at (h_name h) p = Some h' \<longrightarrow> login_of h' = login_of h \<and> port_of h' = port_of h) \<and>
     (\<forall>p t n. I p \<and> on_host h t \<longrightarrow>
        I (p\<lparr>pl_remote := snd (mc_runner M ''ssh'' (sshArgs M t n @ [''true'']) None (pl_remote p))\<rparr>)) \<and>
     (\<forall>p a n. I p \<longrightarrow> I (p\<lparr>pl_remote := snd (tcpProbe a n (pl_remote p))\<rparr>)) \<and>
     (\<forall>p0 p h' c. I p0 \<and> host_at (h_name h) p0 = Some h' \<and> I p \<longrightarrow> I (put_host (h'\<lparr>h_conn := c\<rparr>) p))"

lemma checks_keepD:
  assumes "checks_keep M tcpProbe h I"
  shows "I p \<Longrightarrow> host_at (h_name h) p = Some h' \<Longrightarrow> login_of h' = login_of h"
    and "I p \<Longrightarrow> host_at (h_name h) p = Some h' \<Longrightarrow> port_of h' = port_of h"
    and "I p \<Longrightarrow> on_host h t \<Longrightarrow> I (p\<lparr>pl_remote := snd (mc_runner M ''ssh'' (sshArgs M t n @ [''true'']) None (pl_remote p))\<rparr>)"
    and "I p \<Longrightarrow> I (p\<lparr>pl_remote := snd (tcpProbe a m (pl_remote p))\<rparr>)"
    and "I p0 \<Longrightarrow> host_at (h_name h) p0 = Some h' \<Longrightarrow> I p \<Longrightarrow> I (put_host (h'\<lparr>h_conn := c\<rparr>) p)"
  using assms unfolding checks_keep_def by blast+

lemma check_conn_keeps:
  assumes keep: "checks_keep M tcpProbe h I" and st: "I p"
  shows "wp (check_conn M tcpProbe (h_name h)) (\<lambda>x. I) (\<lambda>e. I) p"
proof -
  have probe: "wp (case nonempty (rk_path rk) of
         Some k \<Rightarrow> andThen (ssh_run_within M \<lparr>tgt_host = h', tgt_key = k\<rparr> ''true'' 6) (\<lambda>res. ret (f res))
       | None \<Rightarrow> andThen (on_remote (tcpProbe (h_address h') (port_of h'))) (\<lambda>up. ret (g up)))
       (\<lambda>x. I) (\<lambda>e. I) p'"
    if "I p'" and "on_host h \<lparr>tgt_host = h', tgt_key = []\<rparr>" for rk h' p' and f :: "exec_result \<Rightarrow> ssh_outcome" and g
  proof (cases "nonempty (rk_path rk)")
    case None
    then show ?thesis using that(1) checks_keepD(4)[OF keep] by (auto simp: wp_andThen wp_on_remote wp_ret)
  next
    case (Some k)
    have "on_host h \<lparr>tgt_host = h', tgt_key = k\<rparr>" using that(2) by (simp add: on_host_def)
    then have "wp (ssh_run_within M \<lparr>tgt_host = h', tgt_key = k\<rparr> ''true'' 6) (\<lambda>x. I) (\<lambda>e. I) p'"
      using that(1) checks_keepD(3)[OF keep] by (simp add: ssh_run_within_def wp_on_remote)
    then show ?thesis using Some
      by simp (rule wp_seq, assumption, simp add: wp_ret)
  qed
  have body: "wp (andThen (resolveKey M h') (f h')) (\<lambda>x. I) (\<lambda>e. I) p'"
    if "p' = p" and "\<And>rk. wp (f h' rk) (\<lambda>x. I) (\<lambda>e. I) p" for h' p' f
    using that st by (intro wp_seq[OF wp_mono[OF resolveKey_same]]) auto
  show ?thesis
    unfolding check_conn_def
  proof (rule wp_seq[OF wp_mono[OF show_host_steady]])
    fix h' p' assume "p' = p \<and> host_at (h_name h) p = Some h'"
    then have p: "p' = p" and h: "login_of h' = login_of h" "port_of h' = port_of h"
      and update: "\<And>p2 c. I p2 \<Longrightarrow> I (put_host (h'\<lparr>h_conn := c\<rparr>) p2)"
      using st checks_keepD(1,2,5)[OF keep, of p] by simp_all
    show "wp (andThen (resolveKey M h') (\<lambda>rk. andThen (case nonempty (rk_path rk) of
         Some k \<Rightarrow> andThen (ssh_run_within M \<lparr>tgt_host = h', tgt_key = k\<rparr> ''true'' 6) (\<lambda>res.
            ret (sshOutcome (ex_code res) (ex_stderr res)))
       | None \<Rightarrow> andThen (on_remote (tcpProbe (h_address h') (port_of h'))) (\<lambda>up.
            ret \<lparr>out_reachable = up, out_authorized = False, out_reason = []\<rparr>)) (\<lambda>out.
     andThen clock (\<lambda>t.
     let has = (nonempty (rk_path rk) \<noteq> None);
         (state, message) = deriveConnState \<lparr>di_reachable = out_reachable out, di_has_key = has,
            di_authorized = out_authorized out, di_key_kind = rk_kind rk, di_host = h', di_reason = Some (out_reason out),
            di_key_name = rk_name rk, di_key_source = rk_source rk\<rparr>;
         conn = \<lparr>conn_state = state, conn_key_kind = rk_kind rk, conn_key_name = rk_name rk, conn_public_key = rk_public rk,
            conn_key_source = rk_source rk, conn_reachable = out_reachable out, conn_has_key = has,
            conn_authorized = out_authorized out, conn_message = message, conn_checked_at = t\<rparr>
     in andThen (update_host (h'\<lparr>h_conn := Some conn\<rparr>)) (\<lambda>_. ret conn)))))
     (\<lambda>x. I) (\<lambda>e. I) p'"
    proof (rule body[OF p], rule wp_seq[OF probe])
      show "I p" by (rule st)
      show "on_host h \<lparr>tgt_host = h', tgt_key = []\<rparr>" using h by (simp add: on_host_def)
    qed (use h update in \<open>auto simp: wp_simps clock_def update_host_def Let_def split: prod.split\<close>)
  qed (use st in simp_all)
qed

lemma assertReady_keeps:
  assumes "checks_keep M tcpProbe h I" and "I p"
  shows "wp (assertReady M tcpProbe (h_name h)) (\<lambda>x. I) (\<lambda>e. I) p"
  unfolding assertReady_def by (rule wp_seq[OF check_conn_keeps[OF assms]]) (simp add: wp_ret wp_throw)

lemma steady_checks:
  assumes "key_file_laws M h home file torn" "probe_law tcpProbe file torn"
  shows "checks_keep M tcpProbe h (steady M i h file torn K)"
proof -
  have "steady M i h file torn K (p\<lparr>pl_remote := snd (mc_runner M ''ssh'' (sshArgs M t n @ [''true'']) None (pl_remote p))\<rparr>)"
    if st: "steady M i h file torn K p" and t: "on_host h t" for p t n
  proof -
    obtain x r' where run: "mc_runner M ''ssh'' (sshArgs M t n @ [''true'']) None (pl_remote p) = (x, r')" by fastforce
    show ?thesis using key_file_lawsD(1,2)[OF assms(1) t run] run by (auto intro!: steady_remote[OF st])
  qed
  moreover have "steady M i h file torn K (p\<lparr>pl_remote := snd (tcpProbe a n (pl_remote p))\<rparr>)" if st: "steady M i h file torn K p" for p a n
    using assms(2) by (auto simp: probe_law_def intro!: steady_remote[OF st])
  moreover have same: "login_of h' = login_of h" "port_of h' = port_of h"
    if "steady M i h file torn K p" "host_at (h_name h) p = Some h'" for p h'
    using that by (auto simp: steady_def)
  moreover have "steady M i h file torn K (put_host (h'\<lparr>h_conn := c\<rparr>) p)"
    if "steady M i h file torn K p0" "host_at (h_name h) p0 = Some h'" "steady M i h file torn K p" for p0 p h' c
    using that same[OF that(1,2)] by (intro steady_put) simp_all
  ultimately show ?thesis unfolding checks_keep_def by blast
qed

lemma assertReady_steady:
  assumes "key_file_laws M h home file torn" "probe_law tcpProbe file torn" "steady M i h file torn K p"
  shows "wp (assertReady M tcpProbe (h_name h)) (\<lambda>x. steady M i h file torn K) (\<lambda>e. steady M i h file torn K) p"
  by (rule assertReady_keeps[OF steady_checks[OF assms(1,2)] assms(3)])


lemma pathFor_steady: "steady M i h file torn K p \<Longrightarrow> wp (keyPathFor M n) (\<lambda>x. steady M i h file torn K) (\<lambda>e. steady M i h file torn K) p"
  by (rule wp_same[OF keyPathFor_same])

lemma userKey_steady: "steady M i h file torn K p \<Longrightarrow> wp (resolveUserKey M n) (\<lambda>x. steady M i h file torn K) (\<lambda>e. steady M i h file torn K) p"
  by (rule wp_same[OF resolveUserKey_same])

lemma findOps_steady: "steady M i h file torn K p \<Longrightarrow> wp (find_ops M) (\<lambda>x. steady M i h file torn K) (\<lambda>e. steady M i h file torn K) p"
  by (rule wp_same[OF find_ops_same])

lemma writable_through: "steady M i h file torn K p \<Longrightarrow> wp (assertHostWritable M x) (\<lambda>x. steady M i h file torn K) (\<lambda>e. steady M i h file torn K) p"
  by (rule wp_same[OF writable_steady])

lemma shown_steady:
  assumes "steady M i h file torn K p" and "host_at (h_name h) p = Some h"
  shows "wp (show_host (h_name h)) (\<lambda>x p'. x = h \<and> steady M i h file torn K p') (\<lambda>e. steady M i h file torn K) p"
  by (rule wp_mono[OF show_host_steady]) (use assms in auto)

lemma try_steady:
  assumes "key_file_laws M h home file torn" and "steady M i h file torn K p" and "on_host h t"
  shows "wp (ssh_run M t ''true'') (\<lambda>x. steady M i h file torn K) (\<lambda>e. steady M i h file torn K) p"
  unfolding ssh_run_def by (rule run_steady[OF assms])

lemma record_steady:
  assumes "steady M i h file torn K p" and "login_of x = login_of h" "port_of x = port_of h"
  shows "wp (andThen (update_host x) (\<lambda>_. andThen (appendAudit a d) (\<lambda>_. ret r))) (\<lambda>x. steady M i h file torn K)
    (\<lambda>e. steady M i h file torn K) p"
  using assms by (simp add: update_host_def appendAudit_def wp_simps)

lemma put_if_steady:
  assumes "key_file_laws M h home file torn" and "steady M i h file torn K p" and "on_host h t"
    and "\<And>x. b \<Longrightarrow> K x \<Longrightarrow> K content \<and> path = keys_at home"
  shows "wp (if b then putFile M t path content ''0600'' else ret ()) (\<lambda>x. steady M i h file torn K) (\<lambda>e. steady M i h file torn K) p"
  using assms by (simp add: put_steady wp_ret)

text \<open>The knowledge \<open>I\<close> outlives the step however it ends.\<close>

abbreviation through :: "('r plane \<Rightarrow> bool) \<Rightarrow> ('r, 'a) hact \<Rightarrow> 'r plane \<Rightarrow> bool" where
  "through I m p \<equiv> wp m (\<lambda>x. I) (\<lambda>e. I) p"

lemma wp_plain: "wp m Q0 (\<lambda>e. I) p \<Longrightarrow> (\<And>x p'. Q0 x p' \<Longrightarrow> I p') \<Longrightarrow> through I m p"
  by (rule wp_mono)

lemma settle_steady:
  assumes "key_file_laws M h home file torn" and "steady M i h file torn K p" and "on_host h t"
    and "\<And>x. K x \<Longrightarrow> K (ak_content (state :: ak_state)) \<and> ak_path state = keys_at home"
  shows "through (steady M i h file torn K) (settle_install M h t state changed verify) p"
  unfolding settle_install_def
  by (rule wp_ifI, rule wp_seq[OF put_if_steady[OF assms(1-3)]], rule assms(4), simp_all add: wp_throw record_steady[OF assms(2)])

lemma write_line_steady:
  assumes laws: "key_file_laws M h home file torn" and K: "K = (\<lambda>c. others (opsTag i) c = ks)"
    and st: "steady M i h file torn K p" and line: "isOpsLine line (opsTag i)" "one_line line" and t: "on_host h t"
  shows "through (steady M i h file torn K) (write_ops_line M h t opsKey line i dryRun) p"
  unfolding write_ops_line_def
proof (rule wp_seq[OF read_steady[OF laws st t]])
  fix state :: ak_state and p2
  let ?K = "\<lambda>x. K x \<and> K (ak_content state) \<and> ak_path state = keys_at home"
  assume p2: "steady M i h file torn ?K p2"
  obtain content changed where up: "upsertOpsLine (ak_content state) line (opsTag i) = (content, changed)" by fastforce
  have new: "?K x \<Longrightarrow> ?K content \<and> ak_path state = keys_at home" for x using others_upsert[OF line, of "ak_content state"] up unfolding K by simp
  have "through (steady M i h file torn ?K) (if dryRun then ret (Install_Preview (h_name h) (ak_path state) line changed)
     else andThen (if changed then putFile M t (ak_path state) content ''0600'' else ret ()) (\<lambda>_.
       andThen (ssh_run M \<lparr>tgt_host = h, tgt_key = key_private_path opsKey\<rparr> ''true'') (settle_install M h t state changed))) p2"
    by (rule wp_ifI, simp add: p2 wp_ret, rule wp_seq[OF put_if_steady[OF laws p2 t]], erule new,
        rule wp_seq[OF try_steady[OF laws _ on_same_host]], assumption,
        rule settle_steady[OF laws _ t], assumption, simp)
  then show "through (steady M i h file torn K) (let (content, changed) = upsertOpsLine (ak_content state) line (opsTag i) in
     if dryRun then ret (Install_Preview (h_name h) (ak_path state) line changed)
     else andThen (if changed then putFile M t (ak_path state) content ''0600'' else ret ()) (\<lambda>_.
       andThen (ssh_run M \<lparr>tgt_host = h, tgt_key = key_private_path opsKey\<rparr> ''true'') (settle_install M h t state changed))) p2"
    unfolding up Let_def prod.case by (rule wp_mono) (auto elim: steady_mono)
qed

lemma install_with_steady:
  assumes laws: "key_file_laws M h home file torn" "probe_law tcpProbe file torn" "keygen_law M"
    and i: "solid i" "no_newline fromCidr"
    and K: "K = (\<lambda>c. others (opsTag i) c = ks)" and st: "steady M i h file torn K p"
  shows "through (steady M i h file torn K) (install_with M tcpProbe h fromCidr dryRun path) p"
proof (cases "nonempty path")
  case None
  then show ?thesis using st by (simp add: install_with_def wp_throw)
next
  case (Some k)
  have ready: "through (steady M i h file torn K) (if dryRun then ret () else andThen (assertReady M tcpProbe (h_name h)) (\<lambda>_. ret ())) p"
    using wp_seq[OF assertReady_steady[OF laws(1,2) st], of "\<lambda>_. ret ()" "\<lambda>x. steady M i h file torn K"] st by (simp add: wp_if wp_ret)
  show ?thesis
    unfolding install_with_def Some option.case
    by (rule wp_seq[OF ready], rule wp_seq[OF ensureOpsKey_steady[OF laws(3)]], assumption,
        rule wp_seq[OF line_steady[OF laws(3) _ i]], assumption, elim conjE,
        rule wp_seq[OF profileId_steady], assumption, elim conjE, hypsubst,
        rule write_line_steady[OF laws(1) K _ _ _ on_same_host])
qed

lemma installOps_steady:
  assumes laws: "key_file_laws M h home file torn" "probe_law tcpProbe file torn" "keygen_law M"
    and i: "solid i" "no_newline fromCidr"
    and K: "K = (\<lambda>c. others (opsTag i) c = ks)" and st: "steady M i h file torn K p" and at: "host_at (h_name h) p = Some h"
  shows "through (steady M i h file torn K) (installOps M tcpProbe (h_name h) fromCidr dryRun) p"
  unfolding installOps_def
  by (rule wp_seq[OF shown_steady[OF st at]], elim conjE, hypsubst,
      rule wp_seq[OF writable_through], assumption, rule wp_seq[OF pathFor_steady], assumption,
      rule install_with_steady[OF laws i K])

lemma opsTarget_steady:
  assumes "steady M i h file torn K p"
  shows "wp (opsTarget M h) (\<lambda>t p'. steady M i h file torn K p' \<and> on_host h t) (\<lambda>e. steady M i h file torn K) p"
  unfolding opsTarget_def
  by (rule wp_seq[OF findOps_steady[OF assms]]) (auto simp: wp_throw wp_ret on_same_host split: option.split)

lemma revokeTarget_steady:
  assumes "key_file_laws M h home file torn" and "steady M i h file torn K p"
  shows "wp (revokeTarget M h) (\<lambda>tk p'. steady M i h file torn K p' \<and> on_host h (fst tk)) (\<lambda>e. steady M i h file torn K) p"
  unfolding revokeTarget_def
proof (rule wp_seq[OF userKey_steady[OF assms(2)]])
  fix uk :: "ssh_key option" and p' assume p': "steady M i h file torn K p'"
  have fall: "wp (andThen (opsTarget M h) (\<lambda>t. ret (t, None :: string option)))
      (\<lambda>tk p'. steady M i h file torn K p' \<and> on_host h (fst tk)) (\<lambda>e. steady M i h file torn K) p2"
    if "steady M i h file torn K p2" for p2
    by (rule wp_seq[OF opsTarget_steady[OF that]]) (simp add: wp_ret)
  have user: "wp (andThen (ssh_run M \<lparr>tgt_host = h, tgt_key = key_private_path k\<rparr> ''true'') (\<lambda>chk.
         if ex_code chk = 0 then ret (\<lparr>tgt_host = h, tgt_key = key_private_path k\<rparr>, Some (key_public k))
         else andThen (opsTarget M h) (\<lambda>t. ret (t, None))))
      (\<lambda>tk p'. steady M i h file torn K p' \<and> on_host h (fst tk)) (\<lambda>e. steady M i h file torn K) p'" for k
    by (rule wp_seq[OF try_steady[OF assms(1) p' on_same_host]]) (simp add: wp_if wp_ret fall on_same_host)
  show "wp (case (case uk of Some k \<Rightarrow> if key_has_private k then Some k else None | None \<Rightarrow> None) of
       Some k \<Rightarrow> andThen (ssh_run M \<lparr>tgt_host = h, tgt_key = key_private_path k\<rparr> ''true'') (\<lambda>chk.
         if ex_code chk = 0 then ret (\<lparr>tgt_host = h, tgt_key = key_private_path k\<rparr>, Some (key_public k))
         else andThen (opsTarget M h) (\<lambda>t. ret (t, None)))
     | None \<Rightarrow> andThen (opsTarget M h) (\<lambda>t. ret (t, None)))
      (\<lambda>tk p'. steady M i h file torn K p' \<and> on_host h (fst tk)) (\<lambda>e. steady M i h file torn K) p'"
    by (cases "case uk of Some k \<Rightarrow> if key_has_private k then Some k else None | None \<Rightarrow> None")
       (simp_all only: option.case user fall[OF p'])
qed

lemma take_line_steady:
  assumes laws: "key_file_laws M h home file torn" and K: "K = (\<lambda>c. others (opsTag i) c = ks)"
    and st: "steady M i h file torn K p" and t: "on_host h (fst tk)"
  shows "through (steady M i h file torn K) (take_ops_line M h i dryRun force tk) p"
  unfolding take_ops_line_def
proof (rule wp_seq[OF read_steady[OF laws st t]])
  fix state :: ak_state and p2
  let ?K = "\<lambda>x. K x \<and> K (ak_content state) \<and> ak_path state = keys_at home"
  assume p2: "steady M i h file torn ?K p2"
  obtain content removed where rm: "removeOpsLine (ak_content state) (opsTag i) = (content, removed)" by fastforce
  obtain safe reason where safe: "assessRevokeSafety (ak_content state) content (opsTag i) (snd tk) = (safe, reason)" by fastforce
  have new: "?K x \<Longrightarrow> ?K content \<and> ak_path state = keys_at home" for x using others_remove[of "opsTag i" "ak_content state"] rm unfolding K by simp
  have "through (steady M i h file torn ?K) (if dryRun then ret (Revoke_Preview (h_name h) (ak_path state) removed safe)
     else if \<not> safe \<and> \<not> force then throw (Bad_Request (revokeRefusal reason))
     else andThen (if 0 < removed then putFile M (fst tk) (ak_path state) content ''0600'' else ret ()) (\<lambda>_.
       andThen (update_host (h\<lparr>h_ops_installed := False\<rparr>)) (\<lambda>_.
       andThen (appendAudit ''host.key.revoke-ops'' [(''host'', JStr (h_name h))]) (\<lambda>_.
       ret (Revoked_Ops (h_name h) removed))))) p2"
    by (rule wp_ifI, simp add: p2 wp_ret, rule wp_ifI, simp add: p2 wp_throw,
        rule wp_seq[OF put_if_steady[OF laws p2 t]], erule new, rule record_steady) simp_all
  then show "through (steady M i h file torn K) (let (content, removed) = removeOpsLine (ak_content state) (opsTag i);
         (safe, reason) = assessRevokeSafety (ak_content state) content (opsTag i) (snd tk) in
     if dryRun then ret (Revoke_Preview (h_name h) (ak_path state) removed safe)
     else if \<not> safe \<and> \<not> force then throw (Bad_Request (revokeRefusal reason))
     else andThen (if 0 < removed then putFile M (fst tk) (ak_path state) content ''0600'' else ret ()) (\<lambda>_.
       andThen (update_host (h\<lparr>h_ops_installed := False\<rparr>)) (\<lambda>_.
       andThen (appendAudit ''host.key.revoke-ops'' [(''host'', JStr (h_name h))]) (\<lambda>_.
       ret (Revoked_Ops (h_name h) removed))))) p2"
    unfolding rm Let_def prod.case safe by (rule wp_mono) (auto elim: steady_mono)
qed

lemma revokeOps_steady:
  assumes laws: "key_file_laws M h home file torn"
    and K: "K = (\<lambda>c. others (opsTag i) c = ks)" and st: "steady M i h file torn K p" and at: "host_at (h_name h) p = Some h"
  shows "through (steady M i h file torn K) (revokeOps M (h_name h) dryRun force) p"
  unfolding revokeOps_def
  by (rule wp_seq[OF shown_steady[OF st at]], elim conjE, hypsubst,
      rule wp_seq[OF writable_through], assumption, rule wp_seq[OF profileId_steady], assumption, elim conjE, hypsubst,
      rule wp_seq[OF revokeTarget_steady[OF laws]], assumption, elim conjE, rule take_line_steady[OF laws K])


section \<open>Properties\<close>


lemma put_done:
  assumes laws: "key_file_laws M h home file torn" "on_host h t" and path: "torn (pl_remote p) \<or> path = keys_at home"
  shows "wp (putFile M t path content ''0600'') (\<lambda>x p'. torn (pl_remote p') \<or> file (pl_remote p') = content) (\<lambda>e p'. True) p"
proof -
  obtain x r' where run: "mc_runner M ''ssh'' (sshArgs M t 10 @ [put_command path ''0600'']) (Some content) (pl_remote p) = (x, r')"
    by fastforce
  then show ?thesis using key_file_lawsD(1)[OF laws run] key_file_lawsD(5)[OF laws, of content "pl_remote p" x r'] path
    by (auto simp: putFile_def wp_simps)
qed

lemma read_path:
  assumes laws: "key_file_laws M h home file torn" "on_host h t"
  shows "wp (readAuthorizedKeys M t) (\<lambda>st p'. torn (pl_remote p') \<or> ak_path st = keys_at home) (\<lambda>e p'. True) p"
proof -
  have run: "wp (ssh_run M t cmd) (\<lambda>res p'. (torn (pl_remote p) \<longrightarrow> torn (pl_remote p')) \<and>
      (cmd = home_command \<longrightarrow> torn (pl_remote p') \<or> ex_code res \<noteq> 0 \<or> trim (ex_stdout res) \<in> {[], home})) E p" for cmd E p
  proof -
    obtain x r' where run: "mc_runner M ''ssh'' (sshArgs M t 10 @ [cmd]) None (pl_remote p) = (x, r')" by fastforce
    then show ?thesis using key_file_lawsD(1)[OF laws run] key_file_lawsD(3)[OF laws, of "pl_remote p" x r']
      by (cases "cmd = home_command") (auto simp: ssh_run_def ssh_run_within_def wp_on_remote)
  qed
  have second: "wp (andThen (ssh_run M t (read_command d)) (\<lambda>res.
       ret \<lparr>ak_home = d, ak_path = d @ ''/.ssh/authorized_keys'', ak_content = ex_stdout res\<rparr>))
     (\<lambda>st p'. torn (pl_remote p') \<or> ak_path st = keys_at home) (\<lambda>e p'. True) p'" if "torn (pl_remote p') \<or> d = home" for d p'
    by (rule wp_seq[OF run]) (use that in \<open>auto simp: wp_ret keys_at_def\<close>)
  show ?thesis
    unfolding readAuthorizedKeys_def Let_def
    by (rule wp_seq[OF run], rule wp_ifI, simp add: wp_throw, rule second) auto
qed

text \<open>The user's key \<open>k\<close> for the host has just opened a session on it.\<close>

definition own_key_opens :: "'r machine \<Rightarrow> host \<Rightarrow> 'r plane \<Rightarrow> ssh_key \<Rightarrow> bool" where
  "own_key_opens M h p k \<longleftrightarrow> fst (resolveUserKey M (h_user_key h) p) = Inr (Some k) \<and> key_has_private k \<and>
     ex_code (fst (mc_runner M ''ssh'' (sshArgs M \<lparr>tgt_host = h, tgt_key = key_private_path k\<rparr> 10 @ [''true'']) None (pl_remote p))) = 0"

lemma opsTarget_same: "wp (opsTarget M h) (\<lambda>t p'. p' = p \<and> on_host h t) (\<lambda>e p'. p' = p) p"
  unfolding opsTarget_def
  by (rule wp_seq[OF find_ops_same]) (auto simp: wp_throw wp_ret on_same_host split: option.split)

lemma revokeTarget_verified:
  "wp (revokeTarget M h) (\<lambda>tk p'. \<forall>pub. snd tk = Some pub \<longrightarrow> (\<exists>k. own_key_opens M h p k \<and> pub = key_public k)) (\<lambda>e p'. True) p"
proof -
  have same: "snd (resolveUserKey M (h_user_key h) p) = p" using resolveUserKey_same[of M "h_user_key h" p]
    by (simp add: wp_def split: prod.splits sum.splits)
  have "wp (andThen (opsTarget M h) (\<lambda>t. ret (t, None :: string option))) (\<lambda>tk p'. snd tk = None) (\<lambda>e p'. True) p'" for p'
    by (rule wp_seq[OF wp_mono[OF opsTarget_same]], assumption) (simp_all add: wp_ret)
  then have fall: "wp (andThen (opsTarget M h) (\<lambda>t. ret (t, None :: string option))) (\<lambda>tk p'. \<forall>pub. snd tk = Some pub \<longrightarrow> P pub) (\<lambda>e p'. True) p'"
    for p' P
    by (rule wp_mono) simp_all
  show ?thesis
  proof (cases "fst (resolveUserKey M (h_user_key h) p)")
    case (Inl e)
    then have "resolveUserKey M (h_user_key h) p = (Inl e, p)" using same by (metis prod.collapse)
    then show ?thesis by (simp add: revokeTarget_def wp_def andThen_def)
  next
    case (Inr uk)
    then have run: "resolveUserKey M (h_user_key h) p = (Inr uk, p)" using same by (metis prod.collapse)
    let ?P = "\<lambda>pub. \<exists>k. own_key_opens M h p k \<and> pub = key_public k"
    have tried: "wp (andThen (ssh_run M \<lparr>tgt_host = h, tgt_key = key_private_path k\<rparr> ''true'') (\<lambda>chk.
         if ex_code chk = 0 then ret (\<lparr>tgt_host = h, tgt_key = key_private_path k\<rparr>, Some (key_public k))
         else andThen (opsTarget M h) (\<lambda>t. ret (t, None))))
       (\<lambda>tk p'. \<forall>pub. snd tk = Some pub \<longrightarrow> ?P pub) (\<lambda>e p'. True) p"
      if k: "uk = Some k" "key_has_private k" for k
    proof -
      let ?run = "mc_runner M ''ssh'' (sshArgs M \<lparr>tgt_host = h, tgt_key = key_private_path k\<rparr> 10 @ [''true'']) None (pl_remote p)"
      have "?P (key_public k)" if "ex_code (fst ?run) = 0" using that k Inr by (auto simp: own_key_opens_def)
      then show ?thesis
        unfolding ssh_run_def ssh_run_within_def
        by (subst wp_andThen, subst wp_on_remote, intro wp_ifI fall) (simp add: wp_ret)
    qed
    show ?thesis
    proof (cases "\<exists>k. uk = Some k \<and> key_has_private k")
      case True
      then obtain k where k: "uk = Some k" "key_has_private k" by blast
      show ?thesis using tried[OF k] run k by (simp add: revokeTarget_def wp_def andThen_def)
    next
      case False
      then have "(case uk of Some k \<Rightarrow> if key_has_private k then Some k else None | None \<Rightarrow> None) = None"
        by (cases uk) auto
      then show ?thesis using fall[where p'=p] run by (simp add: revokeTarget_def wp_def andThen_def)
    qed
  qed
qed

lemma wp_both: "wp m Q E p \<Longrightarrow> wp m Q' E' p \<Longrightarrow> wp m (\<lambda>x p'. Q x p' \<and> Q' x p') (\<lambda>e p'. E e p' \<and> E' e p') p"
  by (auto simp: wp_def split: prod.splits sum.splits)

text \<open>What a revocation that is done leaves, when \<open>c0\<close> was the file.\<close>

definition taken :: "string \<Rightarrow> string \<Rightarrow> string option \<Rightarrow> string \<Rightarrow> bool" where
  "taken c0 tag verified c \<longleftrightarrow> fst (assessRevokeSafety c0 (fst (removeOpsLine c0 tag)) tag verified) \<and>
     c = (if 0 < snd (removeOpsLine c0 tag) then fst (removeOpsLine c0 tag) else c0)"

lemma take_line_done:
  assumes laws: "key_file_laws M h home file torn" and st: "steady M i h file torn (\<lambda>c. c = c0) p" and t: "on_host h (fst tk)"
  shows "wp (take_ops_line M h i False False tk)
    (\<lambda>x p'. torn (pl_remote p') \<or> taken c0 (opsTag i) (snd tk) (file (pl_remote p'))) (\<lambda>e p'. True) p"
  unfolding take_ops_line_def
proof (rule wp_seq[OF wp_mono[OF read_steady[OF laws st t]]])
  fix state :: ak_state and p2 assume p2: "steady M i h file torn (\<lambda>x. x = c0 \<and> ak_content state = c0 \<and> ak_path state = keys_at home) p2"
  let ?Q = "\<lambda>p'. torn (pl_remote p') \<or> taken c0 (opsTag i) (snd tk) (file (pl_remote p'))"
  obtain content removed where rm: "removeOpsLine (ak_content state) (opsTag i) = (content, removed)" by fastforce
  obtain safe reason where safe: "assessRevokeSafety (ak_content state) content (opsTag i) (snd tk) = (safe, reason)" by fastforce
  have wrote: "wp (if 0 < removed then putFile M (fst tk) (ak_path state) content ''0600'' else ret ()) (\<lambda>x. ?Q) (\<lambda>e p'. True) p2" if "safe"
  proof (cases "torn (pl_remote p2)")
    case True
    then have "steady M i h file torn (\<lambda>_. False) p2" using p2 by (simp add: steady_def)
    from put_if_steady[OF laws this t] show ?thesis by (rule wp_mono) (simp_all add: steady_def)
  next
    case False
    then have c: "ak_content state = c0" "file (pl_remote p2) = c0" "ak_path state = keys_at home" using p2 by (simp_all add: steady_def)
    have "taken c0 (opsTag i) (snd tk) (if 0 < removed then content else c0)" using that safe rm unfolding taken_def c by simp
    then show ?thesis using put_done[OF laws t, of p2 "ak_path state" content] c(2,3)
      by (auto simp: wp_ret elim: wp_mono)
  qed
  show "wp (let (content, removed) = removeOpsLine (ak_content state) (opsTag i);
         (safe, reason) = assessRevokeSafety (ak_content state) content (opsTag i) (snd tk) in
     if False then ret (Revoke_Preview (h_name h) (ak_path state) removed safe)
     else if \<not> safe \<and> \<not> False then throw (Bad_Request (revokeRefusal reason))
     else andThen (if 0 < removed then putFile M (fst tk) (ak_path state) content ''0600'' else ret ()) (\<lambda>_.
       andThen (update_host (h\<lparr>h_ops_installed := False\<rparr>)) (\<lambda>_.
       andThen (appendAudit ''host.key.revoke-ops'' [(''host'', JStr (h_name h))]) (\<lambda>_.
       ret (Revoked_Ops (h_name h) removed))))) (\<lambda>x. ?Q) (\<lambda>e p'. True) p2"
    unfolding rm Let_def prod.case safe if_False
    by (rule wp_ifI, simp add: wp_throw, rule wp_seq[OF wrote])
       (simp_all add: update_host_def appendAudit_def wp_simps put_host_def)
qed simp


end
