(* ===== verification/Key_Rotation.thy ===== *)
theory Key_Rotation
  imports Host_Access
begin

text \<open>
  The rotation of the operations key over the fleet (src/src/host-ops/vops-ops-rotation.service.ts):
  per host the new line is appended under a temporary tag, tried, swapped in and tried again, and
  the new local key takes the old one's place when every host went through.
\<close>

section \<open>One host\<close>

datatype rotate_outcome = Rotated | Already | Planned | Rotation_Failed

record rotate_host_result =
  rh_host :: string
  rh_outcome :: rotate_outcome
  rh_message :: "string option"

definition rotate_state_text :: "rotate_state \<Rightarrow> string" where
  "rotate_state_text s = (case s of Rot_Done \<Rightarrow> ''done'' | Rot_Mid \<Rightarrow> ''mid'' | Rot_Old \<Rightarrow> ''old'' | Rot_Absent \<Rightarrow> ''absent'')"

definition outcome_of :: "host \<Rightarrow> rotate_outcome \<Rightarrow> string \<Rightarrow> rotate_host_result" where
  "outcome_of h out m = \<lparr>rh_host = h_name h, rh_outcome = out, rh_message = Some m\<rparr>"

text \<open>The options of the entry in use, or the ones a new entry gets.\<close>

definition line_options :: "string \<Rightarrow> string \<Rightarrow> string" where
  "line_options content canonicalTag = or_default
     (nonempty (Some (extractOptions (or_default (findOpsLine content canonicalTag) [])))) (opsKeyOptions None)"

text \<open>The new key opened a session: swap the lines and try again.\<close>

definition confirm_swap :: "'r machine \<Rightarrow> host \<Rightarrow> ssh_target \<Rightarrow> ak_state \<Rightarrow> exec_result \<Rightarrow> ('r, rotate_host_result) hact" where
  "confirm_swap M h session original reverify = (if ex_code reverify \<noteq> 0
     then andThen (putFile M session (ak_path original) (ak_content original) ''0600'') (\<lambda>_.
          ret (outcome_of h Rotation_Failed ''post-swap verify failed; restored old key''))
     else andThen (appendAudit ''host.key.rotate-ops'' [(''host'', JStr (h_name h))]) (\<lambda>_.
          ret \<lparr>rh_host = h_name h, rh_outcome = Rotated, rh_message = None\<rparr>))"

definition swap_line :: "'r machine \<Rightarrow> host \<Rightarrow> ssh_target \<Rightarrow> ssh_target \<Rightarrow> ak_state \<Rightarrow> string \<Rightarrow> string \<Rightarrow> string \<Rightarrow> string \<Rightarrow>
    exec_result \<Rightarrow> ('r, rotate_host_result) hact" where
  "swap_line M h session nextTarget original nextPub canonicalTag tempTag opts verify = (if ex_code verify \<noteq> 0
     then andThen (readAuthorizedKeys M session) (\<lambda>st.
          andThen (putFile M session (ak_path original) (fst (removeOpsLine (ak_content st) tempTag)) ''0600'') (\<lambda>_.
          ret (outcome_of h Rotation_Failed ''new key did not authenticate; temp line removed'')))
     else andThen (readAuthorizedKeys M session) (\<lambda>beforeSwap.
          andThen (putFile M session (ak_path beforeSwap)
            (swapToCanonical (ak_content beforeSwap) canonicalTag tempTag (buildOpsLine nextPub canonicalTag opts)) ''0600'') (\<lambda>_.
          andThen (ssh_run M nextTarget ''true'') (confirm_swap M h session original))))"

definition rotate_session :: "'r machine \<Rightarrow> host \<Rightarrow> string \<Rightarrow> string \<Rightarrow> string \<Rightarrow> string \<Rightarrow> bool \<Rightarrow> ssh_target \<Rightarrow>
    ('r, rotate_host_result) hact" where
  "rotate_session M h nextKeyPath nextPub canonicalTag tempTag dryRun session =
     andThen (readAuthorizedKeys M session) (\<lambda>original.
     let state = classifyRotation (ak_content original) canonicalTag tempTag nextPub;
         opts = line_options (ak_content original) canonicalTag;
         nextTarget = \<lparr>tgt_host = h, tgt_key = nextKeyPath\<rparr>;
         appended = fst (upsertOpsLine (ak_content original) (buildOpsLine nextPub tempTag opts) tempTag)
     in if state = Rot_Done then ret (outcome_of h Already ''already on the new key'')
        else if dryRun then ret (outcome_of h Planned (''would rotate (state='' @ rotate_state_text state @ '')''))
        else andThen (if state \<noteq> Rot_Mid then putFile M session (ak_path original) appended ''0600'' else ret ()) (\<lambda>_.
          andThen (ssh_run M nextTarget ''true'') (swap_line M h session nextTarget original nextPub canonicalTag tempTag opts)))"

definition rotateHost :: "'r machine \<Rightarrow> string \<Rightarrow> string \<Rightarrow> string \<Rightarrow> string \<Rightarrow> bool \<Rightarrow> host \<Rightarrow> ('r, rotate_host_result) hact" where
  "rotateHost M nextKeyPath nextPub canonicalTag tempTag dryRun h =
     andThen (keyPathFor M (h_user_key h)) (\<lambda>userKeyPath.
     andThen (gets (\<lambda>p. opsLadder M (pl_files p))) (\<lambda>ladder.
     andThen (pickWorkingTarget M h (ladder @ (case nonempty userKeyPath of Some k \<Rightarrow> [k] | None \<Rightarrow> []))) (\<lambda>session. case session of
       None \<Rightarrow> ret (outcome_of h Rotation_Failed ''no working ops/user key'')
     | Some t \<Rightarrow> rotate_session M h nextKeyPath nextPub canonicalTag tempTag dryRun t)))"

section \<open>The fleet\<close>

record rotation_report =
  rr_dry_run :: bool
  rr_promoted :: bool
  rr_failed :: "string list"
  rr_results :: "rotate_host_result list"

definition lock_path :: "'r machine \<Rightarrow> string" where
  "lock_path M = path_join (mc_profile_dir M) ''rotate-ops.lock''"

definition acquireLock :: "'r machine \<Rightarrow> ('r, string) hact" where
  "acquireLock M = andThen (gets (\<lambda>p. exists_file (pl_files p) (lock_path M))) (\<lambda>there.
     if there then throw (Bad_Request ''Another rotate-ops is in progress (rotate-ops.lock present). Remove it if stale.'')
     else andThen (modify (\<lambda>p. p\<lparr>pl_files := write_file (lock_path M) [] (pl_files p)\<rparr>)) (\<lambda>_. ret (lock_path M)))"

definition releaseLock :: "string \<Rightarrow> ('r, unit) hact" where
  "releaseLock lock = modify (\<lambda>p. p\<lparr>pl_files := remove_file lock (pl_files p)\<rparr>)"

fun rotate_hosts :: "'r machine \<Rightarrow> string \<Rightarrow> string \<Rightarrow> string \<Rightarrow> string \<Rightarrow> bool \<Rightarrow> host list \<Rightarrow> ('r, rotate_host_result list) hact" where
  "rotate_hosts M k pub tag temp dryRun [] = ret []"
| "rotate_hosts M k pub tag temp dryRun (h # hs) = andThen (rotateHost M k pub tag temp dryRun h) (\<lambda>x.
     andThen (rotate_hosts M k pub tag temp dryRun hs) (\<lambda>xs. ret (x # xs)))"

definition failed_hosts :: "rotate_host_result list \<Rightarrow> string list" where
  "failed_hosts results = map rh_host (filter (\<lambda>r. rh_outcome r = Rotation_Failed) results)"

definition rotate_locked :: "'r machine \<Rightarrow> ssh_key \<Rightarrow> string \<Rightarrow> string \<Rightarrow> bool \<Rightarrow> bool \<Rightarrow> host list \<Rightarrow> ('r, rotation_report) hact" where
  "rotate_locked M nxt tag temp dryRun force fleet =
     andThen (rotate_hosts M (key_private_path nxt) (key_public nxt) tag temp dryRun fleet) (\<lambda>results.
     let promote = (\<not> dryRun \<and> (failed_hosts results = [] \<or> force)) in
     andThen (if promote then promoteNextOpsKey M else ret ()) (\<lambda>_.
     ret \<lparr>rr_dry_run = dryRun, rr_promoted = promote, rr_failed = failed_hosts results, rr_results = results\<rparr>))"

text \<open>\<open>try ... finally\<close>: the last step runs however the first one ends.\<close>

definition finally_do :: "('r, 'a) hact \<Rightarrow> ('r, unit) hact \<Rightarrow> ('r, 'a) hact" where
  "finally_do m f = andThen (catching m (\<lambda>e. andThen f (\<lambda>_. throw e))) (\<lambda>x. andThen f (\<lambda>_. ret x))"

definition rotate_ops :: "'r machine \<Rightarrow> bool \<Rightarrow> bool \<Rightarrow> ('r, rotation_report) hact" where
  "rotate_ops M dryRun force = andThen list_hosts (\<lambda>all.
     let fleet = filter h_ops_installed all in
     if fleet = [] then throw (Bad_Request ''No hosts have the ops key installed. Nothing to rotate.'')
     else andThen (ensureNextOpsKey M) (\<lambda>nxt.
       andThen (profileId M) (\<lambda>i.
       andThen (acquireLock M) (\<lambda>lock.
       finally_do (rotate_locked M nxt (opsTag i) (opsTag i @ '':next'') dryRun force fleet) (releaseLock lock)))))"

section \<open>The lines a rotation writes\<close>

definition good_options :: "string \<Rightarrow> bool" where
  "good_options opts \<longleftrightarrow> opts \<noteq> [] \<and> \<not> is_space (hd opts) \<and> hd opts \<noteq> CHR ''#'' \<and> newline \<notin> set opts"

lemma first_word:
  assumes "s \<noteq> []" and "\<not> is_space (hd s)"
  shows "\<exists>w ws. split_spaces s = (hd s # w) # ws"
  using assms by (cases s) (auto simp: split_spaces_def split: list.split)

lemma built_options: "good_options (opsKeyOptions None)"
  using options_head[of None] options_one_line[of None] by (auto simp: good_options_def no_newline_def)

lemma extracted_options:
  assumes "findOpsLine content tag = Some l" and "extractOptions l \<noteq> []"
  shows "good_options (extractOptions l)"
proof -
  have "isOpsLine l tag" using assms(1) by (simp add: findOpsLine_def find_Some_iff) blast
  then have t: "trim l \<noteq> []" "\<not> starts_with (trim l) ''#''" by (auto simp: isOpsLine_def Let_def split: if_splits)
  have hd: "\<not> is_space (hd (trim l))"
  proof -
    have "trim_start l \<noteq> []" using t(1) by (auto simp: trim_def trim_end_def)
    then have "\<not> is_space (hd (trim_start l))" by (auto simp: trim_start_def dropWhile_eq_Nil_conv hd_dropWhile)
    moreover obtain e where "trim_start l = trim l @ e"
      using takeWhile_dropWhile_id[of is_space "rev (trim_start l)"] by (metis trim_def trim_end_def rev_append rev_rev_ident)
    ultimately show ?thesis using t(1) by simp
  qed
  obtain w ws where s: "split_spaces (trim l) = (hd (trim l) # w) # ws" using first_word[OF t(1) hd] by blast
  have e: "extractOptions l = hd (trim l) # w" using assms(2) s by (auto simp: extractOptions_def field_def Let_def split: if_splits)
  have "newline \<notin> set (hd (trim l) # w)"
    using split_spaces_no_space[of "hd (trim l) # w" "trim l" newline] newline_is_space s by auto
  moreover have "hd (trim l) \<noteq> CHR ''#''" using t by (cases "trim l") (auto simp: starts_with_def)
  ultimately show ?thesis using e hd by (simp add: good_options_def)
qed

lemma line_options_good: "good_options (line_options content tag)"
proof (cases "findOpsLine content tag")
  case None
  then show ?thesis by (simp add: line_options_def or_default_def nonempty_def extractOptions_def split_spaces_def
        trim_def trim_start_def trim_end_def field_def key_type_prefix_def starts_with_def built_options)
next
  case (Some l)
  then show ?thesis using built_options extracted_options[OF Some]
    by (simp add: line_options_def or_default_def nonempty_def)
qed

lemma built_rotation_line:
  assumes "good_options opts" and "solid j"
  shows "isOpsLine (buildOpsLine pub (opsTag j) opts) (opsTag j)" and "one_line (buildOpsLine pub (opsTag j) opts)"
    and "\<exists>pre. buildOpsLine pub (opsTag j) opts = pre @ '' '' @ opsTag j"
    and "trim (buildOpsLine pub (opsTag j) opts) = buildOpsLine pub (opsTag j) opts"
    and "1 < length (split_spaces pub) \<Longrightarrow> includes_str (buildOpsLine pub (opsTag j) opts) (split_spaces pub ! 1)"
proof -
  let ?pre = "opts @ '' '' @ field_text 0 (split_spaces pub) @ '' '' @ field_text 1 (split_spaces pub)"
  have ops: "isOpsLine (?pre @ '' '' @ opsTag j) (opsTag j)"
    using assms by (intro built_line_ops) (auto simp: good_options_def)
  have "last (?pre @ '' '' @ opsTag j) = last j" using assms(2) by (simp add: opsTag_def solid_def)
  then have "trim (?pre @ '' '' @ opsTag j) = ?pre @ '' '' @ opsTag j"
    using assms by (intro trim_no_space_ends) (auto simp: solid_def good_options_def)
  note trimmed = this
  then have b: "buildOpsLine pub (opsTag j) opts = ?pre @ '' '' @ opsTag j" by (simp add: buildOpsLine_def Let_def)
  have "newline \<notin> set (field_text n (split_spaces pub))" for n
    using word_one_line[of n pub] by (simp add: field_text_def word_or_undefined_def Let_def)
  then have "one_line (?pre @ '' '' @ opsTag j)"
    using assms newline_is_space by (auto simp: one_line_def good_options_def opsTag_def solid_def newline_def)
  then show "isOpsLine (buildOpsLine pub (opsTag j) opts) (opsTag j)" "one_line (buildOpsLine pub (opsTag j) opts)"
    "\<exists>pre. buildOpsLine pub (opsTag j) opts = pre @ '' '' @ opsTag j"
    "trim (buildOpsLine pub (opsTag j) opts) = buildOpsLine pub (opsTag j) opts"
    using ops b trimmed by auto
  show "includes_str (buildOpsLine pub (opsTag j) opts) (split_spaces pub ! 1)" if "1 < length (split_spaces pub)"
    unfolding b includes_str_iff
    by (rule exI[of _ "opts @ '' '' @ field_text 0 (split_spaces pub) @ '' ''"], rule exI[of _ "'' '' @ opsTag j"])
       (use that in \<open>simp add: field_text_def\<close>)
qed

text \<open>A line under the canonical tag is never one under the temporary tag.\<close>

lemma tags_apart:
  assumes "solid i" and "trim l = l" and "l = pre @ '' '' @ opsTag i"
  shows "\<not> isOpsLine l (opsTag (i @ '':next''))"
proof
  assume "isOpsLine l (opsTag (i @ '':next''))"
  then have "ends_with l ('' '' @ opsTag (i @ '':next'')) \<or> l = opsTag (i @ '':next'')"
    using assms(2) by (auto simp: isOpsLine_def Let_def split: if_splits)
  moreover have "l \<noteq> opsTag (i @ '':next'')"
  proof -
    have "CHR '' '' \<in> set l" using assms(3) by simp
    moreover have "CHR '' '' \<notin> set (opsTag (i @ '':next''))" using assms(1) by (auto simp: opsTag_def solid_def is_space_def)
    ultimately show ?thesis by metis
  qed
  ultimately obtain q where q: "pre @ CHR '' '' # opsTag i = q @ CHR '' '' # opsTag (i @ '':next'')"
    using assms(3) by (auto simp: ends_with_iff)
  have "is_space CHR '' ''" by (simp add: is_space_def)
  have apart: "takeWhile (\<lambda>c. \<not> is_space c) (rev (x @ CHR '' '' # t)) = rev t" if "\<forall>c \<in> set t. \<not> is_space c" for x t
    using that \<open>is_space CHR '' ''\<close> by (simp add: takeWhile_append)
  have "\<forall>c \<in> set (opsTag i). \<not> is_space c" "\<forall>c \<in> set (opsTag (i @ '':next'')). \<not> is_space c"
    using assms(1) by (auto simp: opsTag_def solid_def is_space_def)
  from apart[OF this(1), of pre, unfolded q] apart[OF this(2), of q]
  have "rev (opsTag i) = rev (opsTag (i @ '':next''))" by (rule trans[OF sym])
  then show False by (simp add: opsTag_def)
qed


section \<open>Nobody else's key is touched\<close>

text \<open>A session elsewhere does not touch the file of the host in question.\<close>

definition elsewhere_law :: "'r machine \<Rightarrow> host \<Rightarrow> ('r \<Rightarrow> string) \<Rightarrow> ('r \<Rightarrow> bool) \<Rightarrow> bool" where
  "elsewhere_law M h file torn \<longleftrightarrow> (\<forall>t args stdin r. \<not> on_host h t \<longrightarrow>
     (let r' = snd (mc_runner M ''ssh'' (sshArgs M t 10 @ args) stdin r) in file r' = file r \<and> (torn r \<longrightarrow> torn r')))"

lemma elsewhere_lawD:
  assumes "elsewhere_law M h file torn" and "\<not> on_host h t"
  shows "file (snd (mc_runner M ''ssh'' (sshArgs M t 10 @ args) stdin r)) = file r"
    and "torn r \<Longrightarrow> torn (snd (mc_runner M ''ssh'' (sshArgs M t 10 @ args) stdin r))"
  using assms unfolding elsewhere_law_def Let_def by blast+

definition fleet_laws :: "'r machine \<Rightarrow> host \<Rightarrow> string \<Rightarrow> ('r \<Rightarrow> string) \<Rightarrow> ('r \<Rightarrow> bool) \<Rightarrow> bool" where
  "fleet_laws M h home file torn \<longleftrightarrow> key_file_laws M h home file torn \<and> elsewhere_law M h file torn"

definition strangers :: "string \<Rightarrow> string \<Rightarrow> string \<Rightarrow> string list" where
  "strangers tag temp c = filter (\<lambda>l. \<not> isOpsLine l tag \<and> \<not> isOpsLine l temp) (key_lines c)"

lemma strangers_remove [simp]:
  "strangers tag temp (fst (removeOpsLine c tag)) = strangers tag temp c"
  "strangers tag temp (fst (removeOpsLine c temp)) = strangers tag temp c"
  by (auto simp: strangers_def key_lines_remove intro: filter_cong)

lemma strangers_upsert:
  assumes "isOpsLine line t" "one_line line" "t = tag \<or> t = temp"
  shows "strangers tag temp (fst (upsertOpsLine c line t)) = strangers tag temp c"
proof -
  have "key_lines (fst (upsertOpsLine c line t)) =
      filter (\<lambda>l. \<not> isOpsLine l t) (key_lines c) @ filter isKeyLine [line]"
    using toLines_upsert[OF assms(1,2), of c] by (simp add: key_lines_def conj_commute)
  then show ?thesis using assms(1,3) by (auto simp: strangers_def intro: filter_cong)
qed

lemma strangers_swap:
  assumes "isOpsLine line tag" "one_line line"
  shows "strangers tag temp (swapToCanonical c tag temp line) = strangers tag temp c"
  using assms by (simp add: swapToCanonical_def Let_def strangers_upsert)

lemma away_run:
  assumes "elsewhere_law M h file torn" and "steady M i h file torn K p" and "\<not> on_host h t"
  shows "through (steady M i h file torn K) (ssh_run M t cmd) p"
  unfolding ssh_run_def ssh_run_within_def wp_on_remote
  by (intro steady_remote[OF assms(2)]) (simp_all add: elsewhere_lawD[OF assms(1,3)])

lemma fleet_try:
  assumes "fleet_laws M h home file torn" and "steady M i h file torn K p"
  shows "through (steady M i h file torn K) (ssh_run M t ''true'') p"
  using assms try_steady away_run unfolding fleet_laws_def by (cases "on_host h t") blast+

text \<open>What a session with the host in question read, and where; of others nothing is said.\<close>

abbreviation as_read :: "host \<Rightarrow> string \<Rightarrow> ssh_target \<Rightarrow> ak_state \<Rightarrow> (string \<Rightarrow> bool) \<Rightarrow> bool" where
  "as_read h home t st K \<equiv> on_host h t \<longrightarrow> K (ak_content st) \<and> ak_path st = keys_at home"

lemma fleet_read:
  assumes "fleet_laws M h home file torn" and st: "steady M i h file torn K p"
  shows "wp (readAuthorizedKeys M t) (\<lambda>st. steady M i h file torn (\<lambda>x. K x \<and> as_read h home t st K))
    (\<lambda>e. steady M i h file torn K) p"
proof (cases "on_host h t")
  case True
  have "key_file_laws M h home file torn" using assms(1) by (simp add: fleet_laws_def)
  from read_steady[OF this st True] show ?thesis by (rule wp_mono) (auto elim: steady_mono)
next
  case False
  have e: "elsewhere_law M h file torn" using assms(1) by (simp add: fleet_laws_def)
  show ?thesis
    unfolding readAuthorizedKeys_def Let_def
    by (rule wp_seq[OF away_run[OF e st False]], rule wp_ifI, simp add: wp_throw,
        rule wp_seq[OF away_run[OF e _ False]], assumption) (simp add: wp_ret False)
qed

lemma fleet_put:
  assumes "fleet_laws M h home file torn" and "steady M i h file torn K p"
    and "\<And>x. on_host h t \<Longrightarrow> K x \<Longrightarrow> K content \<and> path = keys_at home"
  shows "through (steady M i h file torn K) (putFile M t path content ''0600'') p"
proof (cases "on_host h t")
  case True
  then show ?thesis using assms put_steady unfolding fleet_laws_def by blast
next
  case False
  have "elsewhere_law M h file torn" using assms(1) by (simp add: fleet_laws_def)
  note away = elsewhere_lawD[OF this False]
  show ?thesis by (auto simp: putFile_def wp_simps away intro!: steady_remote[OF assms(2)])
qed

lemma pick_steady:
  assumes "fleet_laws M h home file torn" and "steady M i h file torn K p"
  shows "through (steady M i h file torn K) (pickWorkingTarget M x ks) p"
  using assms(2)
proof (induction ks arbitrary: p)
  case (Cons k ks)
  show ?case
    unfolding pickWorkingTarget.simps
    by (rule wp_seq[OF fleet_try[OF assms(1) Cons.prems]], rule wp_ifI) (simp_all add: wp_ret Cons.IH)
qed (simp add: wp_ret)

lemma confirm_steady:
  assumes "fleet_laws M h home file torn" and "steady M i h file torn K p" and "\<And>x. K x \<Longrightarrow> as_read h home t original K"
  shows "through (steady M i h file torn K) (confirm_swap M x t original reverify) p"
  unfolding confirm_swap_def
  by (rule wp_ifI, rule wp_seq[OF fleet_put[OF assms(1,2)]], use assms(3) in blast)
     (use assms(2) in \<open>simp_all add: wp_ret wp_simps appendAudit_def\<close>)

lemma swap_steady:
  assumes laws: "fleet_laws M h home file torn"
    and K: "K = (\<lambda>c. strangers (opsTag j) (opsTag j @ '':next'') c = ks)" and j: "solid j" and opts: "good_options opts"
    and st: "steady M i h file torn (\<lambda>x. K x \<and> as_read h home t original K) p"
  shows "through (steady M i h file torn K)
    (swap_line M x t nextTarget original pub (opsTag j) (opsTag j @ '':next'') opts verify) p"
proof -
  note line = built_rotation_line[OF opts j, of pub]
  let ?R = "\<lambda>x. K x \<and> as_read h home t original K"
  let ?S = "\<lambda>st x. ?R x \<and> as_read h home t st ?R"
  have out: "through (steady M i h file torn K) m p'" if "through (steady M i h file torn (?S s)) m p'" for m p' s
    using that by (rule wp_mono) (erule steady_mono, blast)+
  have removed: "through (steady M i h file torn K) (andThen (putFile M t (ak_path original)
      (fst (removeOpsLine (ak_content s) (opsTag j @ '':next''))) ''0600'') (\<lambda>_. ret r)) p'"
    if "steady M i h file torn (?S s) p'" for p' and s :: ak_state and r :: rotate_host_result
    by (rule out, rule wp_seq[OF fleet_put[OF laws that]]) (auto simp: K wp_ret)
  have swapped: "through (steady M i h file torn K) (andThen (putFile M t (ak_path s)
      (swapToCanonical (ak_content s) (opsTag j) (opsTag j @ '':next'') (buildOpsLine pub (opsTag j) opts)) ''0600'')
      (\<lambda>_. andThen (ssh_run M nextTarget ''true'') (confirm_swap M x t original))) p'"
    if "steady M i h file torn (?S s) p'" for p' and s :: ak_state
    by (rule out, rule wp_seq[OF fleet_put[OF laws that]], simp add: K strangers_swap[OF line(1,2)],
        rule wp_seq[OF fleet_try[OF laws]], assumption, rule confirm_steady[OF laws], assumption, blast)
  have read: "wp (readAuthorizedKeys M t) (\<lambda>s. steady M i h file torn (?S s)) (\<lambda>e. steady M i h file torn K) p"
    by (rule wp_mono[OF fleet_read[OF laws st]], assumption, erule steady_mono, blast)
  show ?thesis
    unfolding swap_line_def
    by (rule wp_ifI) (rule wp_seq[OF read], rule removed, assumption, rule wp_seq[OF read], rule swapped)
qed

lemma session_steady:
  assumes laws: "fleet_laws M h home file torn" and st: "steady M i h file torn K p"
    and K: "K = (\<lambda>c. strangers (opsTag j) (opsTag j @ '':next'') c = ks)" and j: "solid j"
  shows "through (steady M i h file torn K) (rotate_session M x nk pub (opsTag j) (opsTag j @ '':next'') dryRun t) p"
  unfolding rotate_session_def Let_def
proof (rule wp_seq[OF fleet_read[OF laws st]])
  fix original :: ak_state and p2
  let ?R = "\<lambda>x. K x \<and> as_read h home t original K"
  assume p2: "steady M i h file torn ?R p2"
  let ?opts = "line_options (ak_content original) (opsTag j)"
  have temp: "opsTag j @ '':next'' = opsTag (j @ '':next'')" by (simp add: opsTag_def)
  have j2: "solid (j @ '':next'')" using j by (auto simp: solid_def is_space_def)
  note line = built_rotation_line[OF line_options_good[of "ak_content original" "opsTag j"] j2, of pub, folded temp]
  have put: "through (steady M i h file torn ?R) (if b then putFile M t (ak_path original) (fst (upsertOpsLine (ak_content original)
      (buildOpsLine pub (opsTag j @ '':next'') ?opts) (opsTag j @ '':next''))) ''0600'' else ret ()) p2" for b
    by (rule wp_ifI, rule fleet_put[OF laws p2]) (use p2 in \<open>simp_all add: wp_ret K strangers_upsert[OF line(1,2)]\<close>)
  have keep: "steady M i h file torn K p2" by (rule steady_mono[OF p2]) blast
  have put': "wp (if b then putFile M t (ak_path original) (fst (upsertOpsLine (ak_content original)
      (buildOpsLine pub (opsTag j @ '':next'') ?opts) (opsTag j @ '':next''))) ''0600'' else ret ())
      (\<lambda>_. steady M i h file torn ?R) (\<lambda>e. steady M i h file torn K) p2" for b
    by (rule wp_mono[OF put], assumption, erule steady_mono, blast)
  have try': "wp (ssh_run M n ''true'') (\<lambda>_. steady M i h file torn ?R) (\<lambda>e. steady M i h file torn K) p'"
    if "steady M i h file torn ?R p'" for n p'
    by (rule wp_mono[OF fleet_try[OF laws that]], assumption, erule steady_mono, blast)
  show "through (steady M i h file torn K)
     (if classifyRotation (ak_content original) (opsTag j) (opsTag j @ '':next'') pub = Rot_Done
        then ret (outcome_of x Already ''already on the new key'')
        else if dryRun then ret (outcome_of x Planned (''would rotate (state='' @
            rotate_state_text (classifyRotation (ak_content original) (opsTag j) (opsTag j @ '':next'') pub) @ '')''))
        else andThen (if classifyRotation (ak_content original) (opsTag j) (opsTag j @ '':next'') pub \<noteq> Rot_Mid
            then putFile M t (ak_path original) (fst (upsertOpsLine (ak_content original)
              (buildOpsLine pub (opsTag j @ '':next'') ?opts) (opsTag j @ '':next''))) ''0600'' else ret ()) (\<lambda>_.
          andThen (ssh_run M \<lparr>tgt_host = x, tgt_key = nk\<rparr> ''true'')
            (swap_line M x t \<lparr>tgt_host = x, tgt_key = nk\<rparr> original pub (opsTag j) (opsTag j @ '':next'') ?opts))) p2"
    by (rule wp_ifI, simp add: wp_ret keep, rule wp_ifI, simp add: wp_ret keep, rule wp_seq[OF put'],
        rule wp_seq[OF try'], assumption, rule swap_steady[OF laws K j line_options_good])
qed

lemma rotateHost_steady:
  assumes laws: "fleet_laws M h home file torn" and st: "steady M i h file torn K p"
    and K: "K = (\<lambda>c. strangers (opsTag j) (opsTag j @ '':next'') c = ks)" and j: "solid j"
  shows "through (steady M i h file torn K) (rotateHost M nk pub (opsTag j) (opsTag j @ '':next'') dryRun x) p"
  unfolding rotateHost_def
proof (rule wp_seq[OF pathFor_steady[OF st]], subst wp_andThen, subst wp_gets, rule wp_seq[OF pick_steady[OF laws]], assumption)
  fix session :: "ssh_target option" and p' assume "steady M i h file torn K p'"
  then show "through (steady M i h file torn K) (case session of
       None \<Rightarrow> ret (outcome_of x Rotation_Failed ''no working ops/user key'')
     | Some t \<Rightarrow> rotate_session M x nk pub (opsTag j) (opsTag j @ '':next'') dryRun t) p'"
    using session_steady[OF laws _ K j] by (cases session) (simp_all add: wp_ret)
qed

lemma rotate_hosts_steady:
  assumes laws: "fleet_laws M h home file torn" and st: "steady M i h file torn K p"
    and K: "K = (\<lambda>c. strangers (opsTag j) (opsTag j @ '':next'') c = ks)" and j: "solid j"
  shows "through (steady M i h file torn K) (rotate_hosts M nk pub (opsTag j) (opsTag j @ '':next'') dryRun xs) p"
  using st
proof (induction xs arbitrary: p)
  case (Cons x xs)
  show ?case
    unfolding rotate_hosts.simps
    by (rule wp_seq[OF rotateHost_steady[OF laws Cons.prems K j]], rule wp_seq[OF Cons.IH], assumption) (simp add: wp_ret)
qed (simp add: wp_ret)


lemma lock_steady:
  assumes "steady M i h file torn K p"
  shows "through (steady M i h file torn K) (acquireLock M) p"
proof -
  have "lock_path M \<noteq> profile_id_path M" by (simp add: lock_path_def profile_id_path_def path_join_def)
  then show ?thesis using assms by (auto simp: acquireLock_def wp_simps steady_def write_file_def update_conv)
qed

lemma ensureNext_steady:
  assumes "keygen_law M" and "steady M i h file torn K p"
  shows "through (steady M i h file torn K) (ensureNextOpsKey M) p"
  unfolding ensureNextOpsKey_def by (rule ensureKeyFile_steady[OF assms])

lemma wp_finally:
  fixes m :: "('r, 'a) hact"
  assumes "through I m p" and "\<And>p'. I p' \<Longrightarrow> through I f p'"
  shows "through I (finally_do m f) p"
proof -
  have fail: "wp (andThen f (\<lambda>_. throw e)) Q (\<lambda>e. I) p'" if "I p'" for e p' and Q :: "'a \<Rightarrow> 'r plane \<Rightarrow> bool"
    by (rule wp_seq[OF assms(2)[OF that]]) (simp add: wp_throw)
  have ok: "through I (andThen f (\<lambda>_. ret x)) p'" if "I p'" for x p'
    by (rule wp_seq[OF assms(2)[OF that]]) (simp add: wp_ret)
  have "wp (catching m (\<lambda>e. andThen f (\<lambda>_. throw e))) (\<lambda>x. wp (andThen f (\<lambda>_. ret x)) (\<lambda>x. I) (\<lambda>e. I)) (\<lambda>e. I) p"
    unfolding wp_catching by (rule wp_mono[OF assms(1)]) (rule ok, assumption, rule fail, assumption)
  then show ?thesis unfolding finally_do_def by (subst wp_andThen)
qed


lemma rotate_ops_keeps:
  assumes laws: "fleet_laws M h home file torn" "keygen_law M" and i: "solid i"
    and K: "K = (\<lambda>c. strangers (opsTag i) (opsTag i @ '':next'') c = ks)" and st: "steady M i h file torn K p"
  shows "through (\<lambda>p. torn (pl_remote p) \<or> K (file (pl_remote p))) (rotate_ops M dryRun force) p"
proof -
  let ?I = "\<lambda>p. torn (pl_remote p) \<or> K (file (pl_remote p))"
  have out: "steady M i h file torn K p' \<Longrightarrow> ?I p'" for p' by (simp add: steady_def)
  have hosts: "wp (rotate_hosts M nk pub (opsTag i) (opsTag i @ '':next'') dryRun xs) (\<lambda>x. steady M i h file torn K) (\<lambda>e. ?I) p'"
    if "steady M i h file torn K p'" for nk pub xs p'
    using rotate_hosts_steady[OF laws(1) that K i] by (rule wp_mono) (simp_all add: out)
  have promote: "through ?I (if b then promoteNextOpsKey M else ret ()) p'" if "steady M i h file torn K p'" for b p'
    using out[OF that] by (auto simp: promoteNextOpsKey_def wp_simps)
  have locked: "through ?I (rotate_locked M nxt (opsTag i) (opsTag i @ '':next'') dryRun force fleet) p'"
    if "steady M i h file torn K p'" for nxt fleet p'
    unfolding rotate_locked_def Let_def
    by (rule wp_seq[OF hosts[OF that]], rule wp_seq[OF promote], assumption) (simp add: wp_ret)
  have fin: "through ?I (finally_do (rotate_locked M nxt (opsTag i) (opsTag i @ '':next'') dryRun force fleet) (releaseLock lock)) p'"
    if "steady M i h file torn K p'" for nxt fleet lock p'
    by (rule wp_finally[OF locked[OF that]]) (simp add: releaseLock_def wp_simps)
  have nxt: "wp (ensureNextOpsKey M) (\<lambda>k. steady M i h file torn K) (\<lambda>e. ?I) p'" if "steady M i h file torn K p'" for p'
    using ensureNext_steady[OF laws(2) that] by (rule wp_mono) (simp_all add: out)
  have lock: "wp (acquireLock M) (\<lambda>k. steady M i h file torn K) (\<lambda>e. ?I) p'" if "steady M i h file torn K p'" for p'
    using lock_steady[OF that] by (rule wp_mono) (simp_all add: out)
  have fleet: "wp (list_hosts) (\<lambda>k. steady M i h file torn K) (\<lambda>e. ?I) p" using st by (simp add: list_hosts_def wp_simps)
  show ?thesis
    unfolding rotate_ops_def Let_def
    by (rule wp_seq[OF fleet], rule wp_ifI, simp add: wp_throw out, rule wp_seq[OF nxt], assumption,
        rule wp_seq[OF profileId_steady], assumption, elim conjE, hypsubst, rule wp_seq[OF lock], assumption, rule fin)
qed


section \<open>A host that went through\<close>

lemma wp_any: "wp m (\<lambda>x p'. True) (\<lambda>e p'. True) p"
  by simp

definition rotated_file :: "string \<Rightarrow> string \<Rightarrow> string \<Rightarrow> string \<Rightarrow> bool" where
  "rotated_file tag temp pub c \<longleftrightarrow> classifyRotation c tag temp pub = Rot_Done \<and>
     (\<exists>opts. filter (\<lambda>l. isOpsLine l tag \<or> isOpsLine l temp) (toLines c) = [buildOpsLine pub tag opts])"

text \<open>The file is as \<open>D\<close> says, unless a session was cut off.\<close>

abbreviation left_as :: "('r \<Rightarrow> string) \<Rightarrow> ('r \<Rightarrow> bool) \<Rightarrow> (string \<Rightarrow> bool) \<Rightarrow> 'r plane \<Rightarrow> bool" where
  "left_as file torn D p \<equiv> torn (pl_remote p) \<or> D (file (pl_remote p))"

lemma run_left:
  assumes "key_file_laws M h home file torn" and "on_host h t" and "left_as file torn D p"
  shows "wp (ssh_run M t ''true'') (\<lambda>x. left_as file torn D) (\<lambda>e p'. True) p"
proof -
  obtain x r' where run: "mc_runner M ''ssh'' (sshArgs M t 10 @ [''true'']) None (pl_remote p) = (x, r')" by fastforce
  show ?thesis using key_file_lawsD(1,2)[OF assms(1,2) run] assms(3) run
    by (auto simp: ssh_run_def ssh_run_within_def wp_simps)
qed

lemma confirm_done:
  assumes "left_as file torn D p"
  shows "wp (confirm_swap M x t original reverify) (\<lambda>r p'. rh_outcome r = Rotated \<longrightarrow> left_as file torn D p') (\<lambda>e p'. True) p"
  unfolding confirm_swap_def
  by (rule wp_ifI, rule wp_seq[OF wp_any])
     (use assms in \<open>simp_all add: wp_ret wp_simps appendAudit_def outcome_of_def\<close>)

lemma swapped_file:
  assumes "solid i" and "good_options opts" and "1 < length (split_spaces pub)"
  shows "rotated_file (opsTag i) (opsTag i @ '':next'') pub
    (swapToCanonical c (opsTag i) (opsTag i @ '':next'') (buildOpsLine pub (opsTag i) opts))"
proof -
  note line = built_rotation_line[OF assms(2,1), of pub]
  obtain pre where pre: "buildOpsLine pub (opsTag i) opts = pre @ '' '' @ opsTag i" using line(3) by blast
  have apart: "\<not> isOpsLine (buildOpsLine pub (opsTag i) opts) (opsTag i @ '':next'')"
    using tags_apart[OF assms(1) line(4) pre] by (simp add: opsTag_def)
  have data: "includes_str (buildOpsLine pub (opsTag i) opts) (split_spaces pub ! 1)"
    by (rule line(5)[OF assms(3)])
  show ?thesis
    using swap_finishes_rotation[OF line(1,2) apart assms(3) data, of c] by (auto simp: rotated_file_def)
qed


lemma swap_done:
  assumes laws: "key_file_laws M h home file torn" and t: "on_host h t" "on_host h nextTarget" and i: "solid i" and opts: "good_options opts"
    and pub: "1 < length (split_spaces pub)"
  shows "wp (swap_line M h t nextTarget original pub (opsTag i) (opsTag i @ '':next'') opts verify)
    (\<lambda>r p'. rh_outcome r = Rotated \<longrightarrow> left_as file torn (rotated_file (opsTag i) (opsTag i @ '':next'') pub) p') (\<lambda>e p'. True) p"
proof -
  let ?D = "left_as file torn (rotated_file (opsTag i) (opsTag i @ '':next'') pub)"
  have put: "wp (putFile M t path (swapToCanonical c (opsTag i) (opsTag i @ '':next'') (buildOpsLine pub (opsTag i) opts)) ''0600'')
      (\<lambda>x. ?D) (\<lambda>e p'. True) p'" if "torn (pl_remote p') \<or> path = keys_at home" for path c p'
    by (rule wp_mono[OF put_done[OF laws t(1) that]]) (use swapped_file[OF i opts pub] in auto)
  show ?thesis
    unfolding swap_line_def
    by (rule wp_ifI) (rule wp_seq[OF wp_any], rule wp_seq[OF wp_any], simp add: wp_ret outcome_of_def,
        rule wp_seq[OF read_path[OF laws t(1)]], rule wp_seq[OF put], assumption, rule wp_seq[OF run_left[OF laws t(2)]], assumption,
        rule confirm_done)
qed

lemma rotate_session_done:
  assumes laws: "key_file_laws M h home file torn" and t: "on_host h t" and i: "solid i" and pub: "1 < length (split_spaces pub)"
  shows "wp (rotate_session M h nk pub (opsTag i) (opsTag i @ '':next'') dryRun t)
    (\<lambda>r p'. rh_outcome r = Rotated \<longrightarrow> left_as file torn (rotated_file (opsTag i) (opsTag i @ '':next'') pub) p') (\<lambda>e p'. True) p"
  unfolding rotate_session_def Let_def
  by (rule wp_seq[OF wp_any], rule wp_ifI, simp add: wp_ret outcome_of_def, rule wp_ifI, simp add: wp_ret outcome_of_def,
      rule wp_seq[OF wp_any], rule wp_seq[OF wp_any], rule swap_done[OF laws t on_same_host i line_options_good pub])

lemma pick_on_host: "wp (pickWorkingTarget M h ks) (\<lambda>x p'. \<forall>t. x = Some t \<longrightarrow> tgt_host t = h) (\<lambda>e p'. True) p"
proof (induction ks arbitrary: p)
  case (Cons k ks)
  show ?case
    unfolding pickWorkingTarget.simps by (rule wp_seq[OF wp_any], rule wp_ifI) (simp_all add: wp_ret Cons.IH)
qed (simp add: wp_ret)

text \<open>
  A host reported as rotated was left, by the run that reported it, with exactly one line under
  the profile's tags, the new key's under the canonical tag, and its file is classified as done for
  the new key, so a repeated rotation passes it over, unless a session with it was cut off.
\<close>

theorem rotated_host_done:
  assumes "key_file_laws M h home file torn" and "solid i" and "1 < length (split_spaces pub)"
    and "rotateHost M nk pub (opsTag i) (opsTag i @ '':next'') dryRun h p = (Inr r, p')" and "rh_outcome r = Rotated"
    and "\<not> torn (pl_remote p')"
  shows "classifyRotation (file (pl_remote p')) (opsTag i) (opsTag i @ '':next'') pub = Rot_Done \<and>
    (\<exists>opts. filter (\<lambda>l. isOpsLine l (opsTag i) \<or> isOpsLine l (opsTag i @ '':next'')) (toLines (file (pl_remote p'))) =
       [buildOpsLine pub (opsTag i) opts])"
proof -
  let ?Q = "\<lambda>r p'. rh_outcome r = Rotated \<longrightarrow> left_as file torn (rotated_file (opsTag i) (opsTag i @ '':next'') pub) p'"
  have "wp (rotateHost M nk pub (opsTag i) (opsTag i @ '':next'') dryRun h) ?Q (\<lambda>e p'. True) p"
    unfolding rotateHost_def
  proof (rule wp_seq[OF wp_any], rule wp_seq[OF wp_any], rule wp_seq[OF pick_on_host])
    fix session :: "ssh_target option" and p2 assume s: "\<forall>t. session = Some t \<longrightarrow> tgt_host t = h"
    have "wp (rotate_session M h nk pub (opsTag i) (opsTag i @ '':next'') dryRun t) ?Q (\<lambda>e p'. True) p2" if "session = Some t" for t
      by (rule rotate_session_done[OF assms(1) _ assms(2,3)]) (use s that in \<open>simp add: on_host_def\<close>)
    then show "wp (case session of
       None \<Rightarrow> ret (outcome_of h Rotation_Failed ''no working ops/user key'')
     | Some t \<Rightarrow> rotate_session M h nk pub (opsTag i) (opsTag i @ '':next'') dryRun t) ?Q (\<lambda>e p'. True) p2"
      by (cases session) (simp_all add: wp_ret outcome_of_def)
  qed
  from wp_returns[OF this assms(4)] assms(5,6) show ?thesis by (simp add: rotated_file_def)
qed

end
