(* ===== verification/Ssh_Lockdown.thy ===== *)
theory Ssh_Lockdown
  imports Host_Access
begin

text \<open>
  Disabling password logins over SSH without locking anybody out: the scripts and the readings of
  their output (src/src/host-ops/ssh-lockdown.ts), the refusals (ssh-lockdown-refusal.ts) and the
  preflight, application and check of the change (vops-ssh-lockdown.service.ts). The local runner
  reports every failure as an exit code, so the handlers for a rejected run have nothing to catch.
\<close>

section \<open>Scripts\<close>

definition DROPIN :: string where
  "DROPIN = ''/etc/ssh/sshd_config.d/00-vops.conf''"

definition LEGACY_DROPIN :: string where
  "LEGACY_DROPIN = ''/etc/ssh/sshd_config.d/50-vops.conf''"

definition DEADMAN_UNIT :: string where
  "DEADMAN_UNIT = ''vops-sshd-deadman''"

definition REVERT_SCRIPT :: string where
  "REVERT_SCRIPT = ''/etc/vops/sshd-revert.sh''"

definition DEFAULT_DEADMAN_MINUTES :: nat where
  "DEFAULT_DEADMAN_MINUTES = 10"

text \<open>The pattern of an effective value is a plain word in the one directive there is.\<close>

record lockdown_directive =
  ld_key :: string
  ld_value :: string
  ld_effective :: string

definition PASSWORD_LOCKDOWN :: "lockdown_directive list" where
  "PASSWORD_LOCKDOWN = [\<lparr>ld_key = ''PasswordAuthentication'', ld_value = ''no'', ld_effective = ''no''\<rparr>]"

definition RELOAD :: string where
  "RELOAD = ''systemctl reload ssh 2>/dev/null || systemctl reload sshd 2>/dev/null || '' @
     ''service ssh reload 2>/dev/null || service sshd reload 2>/dev/null || '' @
     ''{ [ -f /run/sshd.pid ] && kill -HUP '' @ dq ''$(cat /run/sshd.pid)'' @ '' 2>/dev/null; } || '' @
     ''pkill -HUP -x sshd 2>/dev/null''"

definition stripKeys :: "lockdown_directive list \<Rightarrow> string" where
  "stripKeys directives = ''/^('' @ join ''|'' (map ld_key directives) @ '') /Id''"

definition set_line :: "lockdown_directive \<Rightarrow> string" where
  "set_line d = ''if grep -qiE '' @ single_quoted (''^'' @ ld_key d @ '' '') @ '' '' @ dq ''$F'' @ ''; then sed -i -E '' @
     single_quoted (''s|^'' @ ld_key d @ '' .*|'' @ ld_key d @ '' '' @ ld_value d @ ''|I'') @ '' '' @ dq ''$F'' @ ''; '' @
     ''else echo '' @ single_quoted (ld_key d @ '' '' @ ld_value d) @ '' >> '' @ dq ''$F'' @ ''; fi''"

definition lockdownScript :: "lockdown_directive list \<Rightarrow> nat \<Rightarrow> string" where
  "lockdownScript directives minutes = (let del = stripKeys directives in join nl ([
     ''set -e'',
     ''F='' @ single_quoted DROPIN,
     ''L='' @ single_quoted LEGACY_DROPIN,
     ''mkdir -p /etc/vops '' @ dq (''$(dirname '' @ dq ''$F'' @ '')''),
     ''cat > '' @ single_quoted REVERT_SCRIPT @ '' <<'' @ single_quoted ''VOPS_REVERT'',
     ''#!/bin/sh'',
     ''sed -i -E '' @ single_quoted del @ '' '' @ single_quoted DROPIN @ '' '' @ single_quoted LEGACY_DROPIN @ '' 2>/dev/null || true'',
     RELOAD @ '' || true'',
     ''VOPS_REVERT'',
     ''chmod +x '' @ single_quoted REVERT_SCRIPT,
     ''if command -v systemd-run >/dev/null 2>&1; then'',
     ''  systemctl stop '' @ DEADMAN_UNIT @ ''.timer 2>/dev/null || true'',
     ''  systemd-run --collect --on-active='' @ show_nat minutes @ ''min --unit='' @ DEADMAN_UNIT @ '' '' @
       single_quoted REVERT_SCRIPT @ '' >/dev/null 2>&1 && echo VOPS_DEADMAN=systemd'',
     ''else'',
     ''  nohup sh -c '' @ single_quoted (''sleep '' @ show_nat (minutes * 60) @ ''; '' @ REVERT_SCRIPT) @
       '' >/dev/null 2>&1 </dev/null & echo '' @ dq ''VOPS_DEADMAN=pid:$!'',
     ''fi'',
     ''touch '' @ dq ''$F'',
     ''grep -q '' @ single_quoted ''^# Managed by vops'' @ '' '' @ dq ''$F'' @ '' || sed -i '' @
       single_quoted ''1i # Managed by vops - remove this file to revert.'' @ '' '' @ dq ''$F'',
     ''[ -f '' @ dq ''$L'' @ '' ] && sed -i -E '' @ single_quoted del @ '' '' @ dq ''$L'' @ '' 2>/dev/null || true''] @
     map set_line directives @ [
     ''if ! sshd -t 2>/tmp/vops_sshd_err; then sed -i -E '' @ single_quoted del @ '' '' @ dq ''$F'' @
       '' 2>/dev/null || true; echo VOPS_SSHDT_FAIL >&2; cat /tmp/vops_sshd_err >&2; exit 3; fi'',
     ''if '' @ RELOAD @ ''; then echo VOPS_RELOAD_OK; else sed -i -E '' @ single_quoted del @ '' '' @ dq ''$F'' @
       '' 2>/dev/null || true; echo VOPS_RELOAD_FAIL >&2; exit 4; fi'',
     ''echo VOPS_APPLIED'',
     []]))"

definition cancel_lines :: "string option \<Rightarrow> string list" where
  "cancel_lines pid = [
     ''systemctl stop '' @ DEADMAN_UNIT @ ''.timer 2>/dev/null || true'',
     ''systemctl stop '' @ DEADMAN_UNIT @ ''.service 2>/dev/null || true'',
     ''systemctl reset-failed '' @ DEADMAN_UNIT @ ''.timer '' @ DEADMAN_UNIT @ ''.service 2>/dev/null || true''] @
     (case nonempty pid of Some n \<Rightarrow> [''kill '' @ n @ '' 2>/dev/null || true''] | None \<Rightarrow> []) @
     [''rm -f '' @ single_quoted REVERT_SCRIPT @ '' 2>/dev/null || true'',
      ''echo VOPS_DEADMAN_CANCELLED'']"

definition cancelDeadmanScript :: "string option \<Rightarrow> string" where
  "cancelDeadmanScript pid = join nl (cancel_lines pid @ [[]])"

definition revertNowScript :: "string option \<Rightarrow> string" where
  "revertNowScript pid = join nl [
     ''[ -x '' @ single_quoted REVERT_SCRIPT @ '' ] && '' @ single_quoted REVERT_SCRIPT @ '' || true'',
     trim_end (cancelDeadmanScript pid),
     ''echo VOPS_REVERTED'',
     []]"

definition lockdownProbeScript :: "nat \<Rightarrow> string" where
  "lockdownProbeScript days = join nl [
     ''if [ '' @ dq ''$(id -u)'' @ '' = 0 ]; then S='' @ dq [] @ ''; SUDO=root;'',
     ''elif sudo -n true 2>/dev/null; then S='' @ dq ''sudo -n '' @ ''; SUDO=ok;'',
     ''else S='' @ dq [] @ ''; SUDO=no; fi'',
     ''echo ===SUDO===; echo '' @ dq ''$SUDO'',
     ''echo ===SSHDT===; $S sshd -T 2>/dev/null || true'',
     ''echo ===PWLOGINS===; { $S journalctl --since '' @ single_quoted (''-'' @ show_nat days @ '' days'') @ '' -g '' @
       single_quoted ''Accepted password'' @ '' --no-pager 2>/dev/null; $S grep -h '' @ single_quoted ''Accepted password'' @
       '' /var/log/auth.log /var/log/secure 2>/dev/null; } || true'',
     ''echo ===ROOTAK===; $S test -s /root/.ssh/authorized_keys && echo ROOT_AK_PRESENT || echo ROOT_AK_ABSENT'',
     ''echo ===SYSTEMD===; command -v systemd-run >/dev/null 2>&1 && echo SYSTEMD_RUN || echo NO_SYSTEMD_RUN'',
     ''echo ===END==='',
     []]"

section \<open>Reading the host\<close>

text \<open>The first place of the text at which a pattern matches.\<close>

fun search_at :: "(string \<Rightarrow> 'a option) \<Rightarrow> string \<Rightarrow> 'a option" where
  "search_at f [] = f []"
| "search_at f (c # cs) = (case f (c # cs) of Some x \<Rightarrow> Some x | None \<Rightarrow> search_at f cs)"

definition after_prefix :: "string \<Rightarrow> string \<Rightarrow> string option" where
  "after_prefix p s = (if starts_with s p then Some (drop (length p) s) else None)"

definition password_login_at :: "string \<Rightarrow> string option" where
  "password_login_at s = (case after_prefix ''Accepted password for '' s of
       None \<Rightarrow> None
     | Some r \<Rightarrow> let u = takeWhile (\<lambda>c. \<not> is_space c) r
                in if \<not> starts_with r ''invalid '' \<and> u \<noteq> [] \<and> starts_with (drop (length u) r) '' from '' then Some u else None)"

definition count_user :: "string \<Rightarrow> (string \<times> nat) list \<Rightarrow> (string \<times> nat) list" where
  "count_user u counts = AList.update u (or_default (map_of counts u) 0 + 1) counts"

definition parsePasswordLogins :: "string \<Rightarrow> (string \<times> nat) list" where
  "parsePasswordLogins journal = sort_key (\<lambda>(u, n). - int n)
     (fold count_user (List.map_filter (search_at password_login_at) (split_on newline journal)) [])"

definition effective_in :: "string \<Rightarrow> string \<Rightarrow> string option" where
  "effective_in k line = (case split_spaces (trim line) of
       [] \<Rightarrow> None | lk # rest \<Rightarrow> if lower lk = k then Some (lower (join '' '' rest)) else None)"

definition sshdEffectiveValue :: "string \<Rightarrow> string \<Rightarrow> string option" where
  "sshdEffectiveValue sshdT key =
     (case List.map_filter (effective_in (lower key)) (split_on newline sshdT) of [] \<Rightarrow> None | v # _ \<Rightarrow> Some v)"

definition alreadyApplied :: "string \<Rightarrow> lockdown_directive list \<Rightarrow> bool" where
  "alreadyApplied sshdT directives \<longleftrightarrow> list_all (\<lambda>d. sshdEffectiveValue sshdT (ld_key d) = Some (ld_effective d)) directives"

definition parseDeadmanPid :: "string \<Rightarrow> string option" where
  "parseDeadmanPid stdout = search_at (\<lambda>s. case after_prefix ''VOPS_DEADMAN=pid:'' s of
       None \<Rightarrow> None | Some r \<Rightarrow> nonempty (Some (takeWhile is_digit r))) stdout"

datatype sudo_kind = Sudo_Root | Sudo_Ok | Sudo_No

record lockdown_signals =
  sig_sudo :: sudo_kind
  sig_sshdT :: string
  sig_password_logins :: "(string \<times> nat) list"
  sig_root_ak :: bool
  sig_systemd_run :: bool

definition probe_section :: "string \<Rightarrow> string \<Rightarrow> string \<Rightarrow> string" where
  "probe_section out m m' = (case (index_of out m, index_of out m') of
       (Some i, Some j) \<Rightarrow> trim (take (j - (i + length m)) (drop (i + length m) out))
     | _ \<Rightarrow> [])"

definition parseLockdownProbe :: "string \<Rightarrow> lockdown_signals" where
  "parseLockdownProbe out =
     (let sudoRaw = probe_section out ''===SUDO==='' ''===SSHDT===''
      in \<lparr>sig_sudo = (if sudoRaw = ''root'' then Sudo_Root else if sudoRaw = ''ok'' then Sudo_Ok else Sudo_No),
          sig_sshdT = probe_section out ''===SSHDT==='' ''===PWLOGINS==='',
          sig_password_logins = parsePasswordLogins (probe_section out ''===PWLOGINS==='' ''===ROOTAK===''),
          sig_root_ak = includes_str (probe_section out ''===ROOTAK==='' ''===SYSTEMD==='') ''ROOT_AK_PRESENT'',
          sig_systemd_run = (probe_section out ''===SYSTEMD==='' ''===END==='' = ''SYSTEMD_RUN'')\<rparr>)"


section \<open>Refusals\<close>

datatype lockdown_code = Not_Ready | No_Sudo | Sshd_Unreadable | No_User_Key | User_Key_Unverified | Password_Logins

record lockdown_refusal =
  lr_code :: lockdown_code
  lr_message :: string

record next_action =
  na_command :: string
  na_description :: string

definition connectionRemedy :: "string \<Rightarrow> next_action list" where
  "connectionRemedy host = [\<lparr>na_command = ''vops host status '' @ host @ '' --json'',
     na_description = ''Probe the host: which layer fails, and whether sudo works''\<rparr>]"

fun remedy_fix :: "lockdown_code \<Rightarrow> string" where
  "remedy_fix Not_Ready = ''restore vops's own SSH access to the host''"
| "remedy_fix No_Sudo = ''give the login user passwordless sudo, without which a failed change cannot be rolled back''"
| "remedy_fix Sshd_Unreadable = ''make the effective sshd config readable as root (`sudo sshd -T`)''"
| "remedy_fix No_User_Key = ''assign the key you log in with yourself, so disabling passwords cannot lock you out''"
| "remedy_fix User_Key_Unverified = ''repair your own key until it authenticates on its own''"
| "remedy_fix Password_Logins = ''give those accounts SSH keys, or have the user accept locking them out''"

fun remedy_next :: "lockdown_code \<Rightarrow> string \<Rightarrow> next_action list" where
  "remedy_next Not_Ready host = connectionRemedy host"
| "remedy_next No_Sudo host = connectionRemedy host"
| "remedy_next Sshd_Unreadable host = connectionRemedy host"
| "remedy_next No_User_Key host = [
     \<lparr>na_command = ''vops ssh-key list --json'', na_description = ''Find the local key you log in with''\<rparr>,
     \<lparr>na_command = ''vops host key set '' @ host @ '' <key> --json'', na_description = ''Pin that key to the host, then run this preview again''\<rparr>]"
| "remedy_next User_Key_Unverified host = [
     \<lparr>na_command = ''vops host key status '' @ host @ '' --json'',
      na_description = ''See which key vops uses and whether the host authorizes it''\<rparr>,
     \<lparr>na_command = ''vops ssh-key list --json'', na_description = ''Pick another local key if that one is gone''\<rparr>]"
| "remedy_next Password_Logins host = [
     \<lparr>na_command = ''vops host ssh-harden '' @ host @ '' --json'',
      na_description = ''Re-check once those accounts no longer log in with a password''\<rparr>]"

text \<open>\<open>[...new Set(xs)]\<close> and the filter that keeps the first action of each command.\<close>

fun first_by :: "('a \<Rightarrow> 'b) \<Rightarrow> 'b list \<Rightarrow> 'a list \<Rightarrow> 'a list" where
  "first_by f seen [] = []"
| "first_by f seen (x # xs) = (if f x \<in> set seen then first_by f seen xs else x # first_by f (f x # seen) xs)"

datatype lockdown_stage = Stage_Preview | Stage_Apply

definition suggestedAction :: "string \<Rightarrow> lockdown_refusal list \<Rightarrow> bool \<Rightarrow> lockdown_stage \<Rightarrow> string" where
  "suggestedAction host refusals overridable stage =
     (let fixes = first_by id [] (map (\<lambda>r. remedy_fix (lr_code r)) refusals);
          override = (if overridable then '' Only the user can decide to proceed regardless, accepting that those accounts lose access, with --override --yes.'' else []);
          lead = (case stage of
            Stage_Apply \<Rightarrow> ''Nothing was changed. Do not retry with --yes: '' @ join ''; '' fixes @ '', then preview again with `vops host ssh-harden '' @ host @ '' --json`.''
          | Stage_Preview \<Rightarrow> ''Do not retry unchanged and do not pass --yes: '' @ join ''; '' fixes @ '', then run this preview again.'')
      in lead @ override)"

definition SSH_HARDEN_REFUSED :: string where
  "SSH_HARDEN_REFUSED = ''VOPS_SSH_HARDEN_REFUSED''"

definition SSH_HARDEN_NOT_APPLIED :: string where
  "SSH_HARDEN_NOT_APPLIED = ''VOPS_SSH_HARDEN_NOT_APPLIED''"

definition SSH_HARDEN_ROLLED_BACK :: string where
  "SSH_HARDEN_ROLLED_BACK = ''VOPS_SSH_HARDEN_ROLLED_BACK''"

definition refusalError :: "string \<Rightarrow> lockdown_refusal list \<Rightarrow> bool \<Rightarrow> lockdown_stage \<Rightarrow> agent_error" where
  "refusalError host refusals overridable stage = agentError SSH_HARDEN_REFUSED Cat_Prerequisite
     (''Refusing to disable password login on '' @ quoted host @ '': '' @ join '' '' (map lr_message refusals))
     (Some False) (Some (suggestedAction host refusals overridable stage))"

definition refusalNextActions :: "string \<Rightarrow> lockdown_refusal list \<Rightarrow> next_action list" where
  "refusalNextActions host refusals = first_by na_command [] (concat (map (\<lambda>r. remedy_next (lr_code r) host) refusals))"

definition hardenBlocked :: "string \<Rightarrow> lockdown_refusal list \<Rightarrow> bool \<Rightarrow> failure" where
  "hardenBlocked host blocking overridable =
     Agent_Bad_Request (refusalError host blocking overridable Stage_Apply) Exit_Missing_Prerequisite"

definition hardenNotApplied :: "string \<Rightarrow> string \<Rightarrow> failure" where
  "hardenNotApplied host reason = Agent_Bad_Request (agentError SSH_HARDEN_NOT_APPLIED Cat_Operational
     (''SSH hardening was not applied on '' @ quoted host @ '' - nothing changed: '' @ reason) None
     (Some (''Password login is still on and the host is untouched, so there is nothing to undo. Read the reason, '' @
       ''fix it on the host, then preview again with `vops host ssh-harden '' @ host @ '' --json`.''))) Exit_Failure"

definition hardenRolledBack :: "string \<Rightarrow> string \<Rightarrow> failure" where
  "hardenRolledBack host reason = Agent_Bad_Request (agentError SSH_HARDEN_ROLLED_BACK Cat_Operational
     (''Hardening was applied on '' @ quoted host @ '' and then rolled back - the post-apply check failed ('' @ reason @
       ''). Password login is back on.'') None
     (Some (''Do not retry unchanged: the change took effect and was reverted, so the host is back to password login. '' @
       ''Confirm the state with `vops host status '' @ host @ '' --json` and `vops host ssh-harden '' @ host @ '' --json`, '' @
       ''and tell the user what failed the check before trying again.''))) Exit_Partial"

section \<open>Preflight\<close>

record lockdown_preflight =
  lp_host :: string
  lp_ok :: bool
  lp_already_hardened :: bool
  lp_user_key_verified :: bool
  lp_user_key_name :: "string option"
  lp_password_logins :: "(string \<times> nat) list"
  lp_refusals :: "lockdown_refusal list"
  lp_overridable :: bool
  lp_deadman_minutes :: nat

definition preflight_result :: "string \<Rightarrow> lockdown_refusal list \<Rightarrow> bool \<Rightarrow> bool \<Rightarrow> (string \<times> nat) list \<Rightarrow> string option \<Rightarrow>
    lockdown_preflight" where
  "preflight_result n refusals already verified logins keyName =
     \<lparr>lp_host = n, lp_ok = (refusals = []), lp_already_hardened = already, lp_user_key_verified = verified,
      lp_user_key_name = keyName, lp_password_logins = logins, lp_refusals = refusals,
      lp_overridable = (refusals \<noteq> [] \<and> list_all (\<lambda>r. lr_code r = Password_Logins) refusals),
      lp_deadman_minutes = DEFAULT_DEADMAN_MINUTES\<rparr>"

definition preflightRefusal :: "lockdown_preflight \<Rightarrow> (agent_error list \<times> next_action list) option" where
  "preflightRefusal pre = (if lp_already_hardened pre \<or> lp_refusals pre = [] then None
     else Some ([refusalError (lp_host pre) (lp_refusals pre) (lp_overridable pre) Stage_Preview],
                refusalNextActions (lp_host pre) (lp_refusals pre)))"

definition verifyUserKey :: "'r machine \<Rightarrow> host \<Rightarrow> ('r, bool) hact" where
  "verifyUserKey M h = andThen (keyPathFor M (h_user_key h)) (\<lambda>path. case nonempty path of
       None \<Rightarrow> ret False
     | Some k \<Rightarrow> andThen (ssh_run M \<lparr>tgt_host = h, tgt_key = k\<rparr> ''true'') (\<lambda>r. ret (ex_code r = 0)))"

definition lockdown_refusals :: "string \<Rightarrow> host \<Rightarrow> lockdown_signals \<Rightarrow> bool \<Rightarrow> lockdown_refusal list" where
  "lockdown_refusals n h signals verified =
     (if sig_sudo signals = Sudo_No then [\<lparr>lr_code = No_Sudo, lr_message = ''vops can't become root on '' @ quoted n @
        '' (sudo -n failed) - it couldn't apply or roll back safely.''\<rparr>] else []) @
     (if sig_sshdT signals = [] then [\<lparr>lr_code = Sshd_Unreadable, lr_message = ''Couldn't read the effective sshd config on '' @
        quoted n @ '' (needs root) - refusing to change what it can't verify.''\<rparr>] else []) @
     (if \<not> verified then [case nonempty (h_user_key h) of
          Some k \<Rightarrow> \<lparr>lr_code = User_Key_Unverified, lr_message = ''Your own SSH key didn't authenticate on '' @ quoted n @
            ''. Fix your key first - otherwise disabling passwords locks you out.''\<rparr>
        | None \<Rightarrow> \<lparr>lr_code = No_User_Key, lr_message = ''No personal SSH key is set for '' @ quoted n @
            ''. Add and verify your key before disabling password login.''\<rparr>] else []) @
     (if sig_password_logins signals \<noteq> [] then [\<lparr>lr_code = Password_Logins, lr_message = ''Recent password logins detected ('' @
        join '', '' (map (\<lambda>(u, c). u @ '' x'' @ show_nat c) (sig_password_logins signals)) @
        '') - disabling password auth locks these accounts out. Confirm to override.''\<rparr>] else [])"

definition inspect_host :: "'r machine \<Rightarrow> string \<Rightarrow> host \<Rightarrow> ('r, lockdown_preflight) hact" where
  "inspect_host M n h = andThen (resolveSshTarget M h) (\<lambda>t. andThen (runScript M t (lockdownProbeScript 14) False) (\<lambda>probe.
     let signals = parseLockdownProbe (ex_stdout probe);
         already = (sig_sshdT signals \<noteq> [] \<and> alreadyApplied (sig_sshdT signals) PASSWORD_LOCKDOWN)
     in andThen (verifyUserKey M h) (\<lambda>verified.
        ret (preflight_result n (lockdown_refusals n h signals verified) already verified
               (sig_password_logins signals) (h_user_key h)))))"

definition preflight :: "'r machine \<Rightarrow> (string \<Rightarrow> nat \<Rightarrow> 'r \<Rightarrow> bool \<times> 'r) \<Rightarrow> string \<Rightarrow> ('r, lockdown_preflight) hact" where
  "preflight M tcpProbe n = andThen (show_host n) (\<lambda>h.
     andThen (catching (andThen (assertReady M tcpProbe n) (\<lambda>_. ret True)) (\<lambda>_. ret False)) (\<lambda>ready.
     if \<not> ready then ret (preflight_result n [\<lparr>lr_code = Not_Ready, lr_message = ''vops can't reach '' @ quoted n @
            '' over SSH right now - fix the connection first.''\<rparr>] False False [] None)
     else inspect_host M n h))"

section \<open>Disabling password logins\<close>

record lockdown_result =
  lk_host :: string
  lk_applied :: bool
  lk_reverted :: bool
  lk_message :: string

definition cancel_deadman :: "'r machine \<Rightarrow> ssh_target \<Rightarrow> string option \<Rightarrow> ('r, unit) hact" where
  "cancel_deadman M t pid = andThen (runScript M t (cancelDeadmanScript pid) True) (\<lambda>_. ret ())"

text \<open>The reason when the change does not hold.\<close>

definition verifyApplied :: "'r machine \<Rightarrow> host \<Rightarrow> ('r, string option) hact" where
  "verifyApplied M h = andThen (keyPathFor M (h_user_key h)) (\<lambda>path.
     andThen (if nonempty path \<noteq> None then verifyUserKey M h else ret True) (\<lambda>login.
     if \<not> login then ret (Some ''your key no longer logs in'')
     else andThen (resolveSshTarget M h) (\<lambda>t. andThen (runScript M t (lockdownProbeScript 14) False) (\<lambda>probe.
       let sshdT = sig_sshdT (parseLockdownProbe (ex_stdout probe)) in
       if sshdT = [] \<or> \<not> alreadyApplied sshdT PASSWORD_LOCKDOWN then ret (Some ''the change didn't take effect'')
       else ret None))))"

definition settle_lockdown :: "'r machine \<Rightarrow> string \<Rightarrow> host \<Rightarrow> ssh_target \<Rightarrow> exec_result \<Rightarrow> ('r, lockdown_result) hact" where
  "settle_lockdown M n h t applied = (let pid = parseDeadmanPid (ex_stdout applied) in
     if ex_code applied \<noteq> 0 \<or> \<not> includes_str (ex_stdout applied) ''VOPS_APPLIED''
     then andThen (cancel_deadman M t pid) (\<lambda>_. throw (hardenNotApplied n
            (or_default (nonempty (Some (trim (ex_stderr applied)))) (''apply exited '' @ show_code (ex_code applied)))))
     else andThen (verifyApplied M h) (\<lambda>verify. case verify of
            Some reason \<Rightarrow> andThen (runScript M t (revertNowScript pid) True) (\<lambda>_. throw (hardenRolledBack n reason))
          | None \<Rightarrow> andThen (cancel_deadman M t pid) (\<lambda>_. andThen (appendAudit ''host.ssh.lockdown'' [(''host'', JStr n)]) (\<lambda>_.
              ret \<lparr>lk_host = n, lk_applied = True, lk_reverted = False,
                   lk_message = ''Password login disabled - key-only SSH from now on.''\<rparr>))))"

definition apply_lockdown :: "'r machine \<Rightarrow> string \<Rightarrow> host \<Rightarrow> bool \<Rightarrow> lockdown_preflight \<Rightarrow> ('r, lockdown_result) hact" where
  "apply_lockdown M n h override pre =
     (let blocking = filter (\<lambda>r. \<not> (override \<and> lr_code r = Password_Logins)) (lp_refusals pre) in
      if lp_already_hardened pre
      then ret \<lparr>lk_host = n, lk_applied = False, lk_reverted = False, lk_message = ''Already hardened - no change.''\<rparr>
      else if blocking \<noteq> [] then throw (hardenBlocked n blocking (lp_overridable pre))
      else andThen (resolveSshTarget M h) (\<lambda>t.
        andThen (runScript M t (lockdownScript PASSWORD_LOCKDOWN (lp_deadman_minutes pre)) True) (settle_lockdown M n h t)))"

definition disable_password_login :: "'r machine \<Rightarrow> (string \<Rightarrow> nat \<Rightarrow> 'r \<Rightarrow> bool \<times> 'r) \<Rightarrow> string \<Rightarrow> bool \<Rightarrow>
    ('r, lockdown_result) hact" where
  "disable_password_login M tcpProbe n override = andThen (show_host n) (\<lambda>h. andThen (assertHostWritable M h) (\<lambda>_.
     andThen (preflight M tcpProbe n) (apply_lockdown M n h override)))"


section \<open>What the steps leave alone\<close>

text \<open>
  What is relied on of the host's \<open>sshd\<close>, of which two things are seen: the text its \<open>sshd -T\<close> prints
  without the space around it, and which of the local keys open a session. The trial command, the
  probe, the connection attempt and the cancellation of the dead man's switch change neither. A trial
  that exits with 0 has opened a session with its key. What the probe shows between its marks is what
  \<open>sshd -T\<close> prints, or nothing. What the printed directives mean for somebody at the door is not
  assumed: match blocks and other authentication methods are \<open>sshd\<close>'s matter.
\<close>

type_synonym door = "string \<times> (string \<Rightarrow> bool)"

definition trial_law :: "'r machine \<Rightarrow> host \<Rightarrow> ('r \<Rightarrow> door) \<Rightarrow> bool" where
  "trial_law M h door \<longleftrightarrow> (\<forall>t n r. on_host h t \<longrightarrow>
     door (snd (mc_runner M ''ssh'' (sshArgs M t n @ [''true'']) None r)) = door r \<and>
     (ex_code (fst (mc_runner M ''ssh'' (sshArgs M t n @ [''true'']) None r)) = 0 \<longrightarrow> snd (door r) (tgt_key t)))"

definition shown_config :: "exec_result \<Rightarrow> string" where
  "shown_config x = sig_sshdT (parseLockdownProbe (ex_stdout x))"

definition sshd_laws :: "'r machine \<Rightarrow> (string \<Rightarrow> nat \<Rightarrow> 'r \<Rightarrow> bool \<times> 'r) \<Rightarrow> host \<Rightarrow> ('r \<Rightarrow> door) \<Rightarrow> bool" where
  "sshd_laws M tcpProbe h door \<longleftrightarrow> trial_law M h door \<and>
     (\<forall>a n r. door (snd (tcpProbe a n r)) = door r) \<and>
     (\<forall>t r. on_host h t \<longrightarrow>
        door (snd (mc_runner M ''ssh'' (sshArgs M t 10 @ [''bash -s'']) (Some (lockdownProbeScript 14)) r)) = door r \<and>
        shown_config (fst (mc_runner M ''ssh'' (sshArgs M t 10 @ [''bash -s'']) (Some (lockdownProbeScript 14)) r)) \<in> {[], fst (door r)}) \<and>
     (\<forall>t r pid sh. on_host h t \<longrightarrow>
        door (snd (mc_runner M ''ssh'' (sshArgs M t 10 @ [sh]) (Some (cancelDeadmanScript pid)) r)) = door r)"

text \<open>The printed configuration has the directive; the operator's own key opens.\<close>

definition hardened :: "string \<Rightarrow> bool" where
  "hardened config \<longleftrightarrow> alreadyApplied config PASSWORD_LOCKDOWN"

definition own_key_in :: "'r machine \<Rightarrow> host \<Rightarrow> (string \<times> string) list \<Rightarrow> door \<Rightarrow> bool" where
  "own_key_in M h fs d \<longleftrightarrow> (\<exists>k. nonempty (user_path M (h_user_key h) fs) = Some k \<and> snd d k)"

text \<open>The inventory's entry, the local files and the host's door are as given.\<close>

definition standing :: "host \<Rightarrow> (string \<times> string) list \<Rightarrow> ('r \<Rightarrow> door) \<Rightarrow> door \<Rightarrow> 'r plane \<Rightarrow> bool" where
  "standing h fs door d p \<longleftrightarrow> pl_files p = fs \<and> door (pl_remote p) = d \<and>
     (\<forall>h'. host_at (h_name h) p = Some h' \<longrightarrow> login_of h' = login_of h \<and> port_of h' = port_of h)"

lemma standing_checks:
  assumes "sshd_laws M tcpProbe h door"
  shows "checks_keep M tcpProbe h (standing h fs door d)"
  using assms by (auto simp: checks_keep_def standing_def sshd_laws_def trial_law_def host_at_put) (simp_all add: put_host_def)

lemma target_standing:
  assumes "standing h fs door d p"
  shows "wp (resolveSshTarget M h) (\<lambda>t p'. standing h fs door d p' \<and> on_host h t)
    (\<lambda>e p'. standing h fs door d p' \<and> (\<exists>m. e = Bad_Request m)) p"
  by (rule wp_mono[OF resolveSshTarget_same]) (use assms in auto)

lemma probe_standing:
  assumes "sshd_laws M tcpProbe h door" and "standing h fs door d p" and "on_host h t"
  shows "wp (runScript M t (lockdownProbeScript 14) False)
    (\<lambda>x p'. standing h fs door d p' \<and> shown_config x \<in> {[], fst d}) E p"
  using assms by (auto simp: runScript_def wp_on_remote sshd_laws_def standing_def)

lemma cancel_standing:
  assumes "sshd_laws M tcpProbe h door" and "standing h fs door d p" and "on_host h t"
  shows "wp (cancel_deadman M t pid) (\<lambda>x. standing h fs door d) E p"
  using assms by (auto simp: cancel_deadman_def runScript_def wp_simps wp_on_remote sshd_laws_def standing_def)

lemma user_key_standing:
  assumes "sshd_laws M tcpProbe h door" and "standing h fs door d p"
  shows "wp (verifyUserKey M h) (\<lambda>b p'. standing h fs door d p' \<and>
     (b \<longrightarrow> own_key_in M h fs d)) E p"
proof -
  have files: "pl_files p = fs" using assms(2) by (simp add: standing_def)
  have trial: "wp (ssh_run M \<lparr>tgt_host = h, tgt_key = k\<rparr> ''true'')
      (\<lambda>x p'. standing h fs door d p' \<and> (ex_code x = 0 \<longrightarrow> snd d k)) E p" for k
  proof -
    have "trial_law M h door" using assms(1) by (simp add: sshd_laws_def)
    note trial = this[unfolded trial_law_def, rule_format, OF on_same_host[of h k]]
    show ?thesis
      using assms(2) trial[where n = 10 and r = "pl_remote p"]
      by (auto simp: ssh_run_def ssh_run_within_def wp_on_remote standing_def)
  qed
  have path: "wp (keyPathFor M (h_user_key h)) (\<lambda>x p'. x = user_path M (h_user_key h) fs \<and> p' = p) E p"
    by (rule wp_mono[OF keyPathFor_eq]) (use files in auto)
  have step: "wp (case nonempty (user_path M (h_user_key h) fs) of
       None \<Rightarrow> ret False
     | Some k \<Rightarrow> andThen (ssh_run M \<lparr>tgt_host = h, tgt_key = k\<rparr> ''true'') (\<lambda>r. ret (ex_code r = 0)))
      (\<lambda>b p'. standing h fs door d p' \<and> (b \<longrightarrow> own_key_in M h fs d)) E p"
  proof (cases "nonempty (user_path M (h_user_key h) fs)")
    case None
    then show ?thesis using assms(2) by (simp add: wp_ret)
  next
    case (Some k)
    then show ?thesis by simp (rule wp_seq[OF trial], simp add: wp_ret own_key_in_def)
  qed
  show ?thesis
    unfolding verifyUserKey_def by (rule wp_seq[OF path]) (use step in simp)
qed


definition only_passwords :: "lockdown_refusal list \<Rightarrow> bool" where
  "only_passwords rs \<longleftrightarrow> list_all (\<lambda>r. lr_code r = Password_Logins) rs"

definition has_user_key :: "'r machine \<Rightarrow> host \<Rightarrow> (string \<times> string) list \<Rightarrow> bool" where
  "has_user_key M h fs \<longleftrightarrow> (\<exists>k. nonempty (user_path M (h_user_key h) fs) = Some k)"

lemma unverified_refused: "only_passwords (lockdown_refusals n h signals verified) \<Longrightarrow> verified"
  by (auto simp: only_passwords_def lockdown_refusals_def split: if_splits option.splits)

lemma inspect_standing:
  assumes laws: "sshd_laws M tcpProbe h door" and st: "standing h fs door d p"
  shows "wp (inspect_host M n h) (\<lambda>pre p'. standing h fs door d p' \<and> (only_passwords (lp_refusals pre) \<longrightarrow> has_user_key M h fs))
    (\<lambda>e. standing h fs door d) p"
proof -
  have t: "wp (resolveSshTarget M h) (\<lambda>t p'. standing h fs door d p' \<and> on_host h t) (\<lambda>e. standing h fs door d) p"
    by (rule wp_mono[OF target_standing[OF st]]) auto
  have fin: "wp (andThen (verifyUserKey M h) (\<lambda>verified. ret (preflight_result n (lockdown_refusals n h s verified) a verified l u)))
      (\<lambda>pre p'. standing h fs door d p' \<and> (only_passwords (lp_refusals pre) \<longrightarrow> has_user_key M h fs)) (\<lambda>e. standing h fs door d) p'"
    if "standing h fs door d p'" for s a l u p'
    by (rule wp_seq[OF user_key_standing[OF laws that]])
       (auto simp: wp_ret preflight_result_def has_user_key_def own_key_in_def dest: unverified_refused)
  show ?thesis
    unfolding inspect_host_def Let_def
    by (rule wp_seq[OF t], elim conjE, rule wp_seq[OF probe_standing[OF laws]], assumption, assumption, elim conjE, rule fin)
qed

lemma preflight_standing:
  assumes laws: "sshd_laws M tcpProbe h door" and st: "standing h fs door d p" and at: "host_at (h_name h) p = Some h"
  shows "wp (preflight M tcpProbe (h_name h))
    (\<lambda>pre p'. standing h fs door d p' \<and> (only_passwords (lp_refusals pre) \<longrightarrow> has_user_key M h fs)) (\<lambda>e. standing h fs door d) p"
proof -
  have ready: "wp (catching (andThen (assertReady M tcpProbe (h_name h)) (\<lambda>_. ret True)) (\<lambda>_. ret False))
      (\<lambda>b. standing h fs door d) (\<lambda>e. standing h fs door d) p"
    unfolding wp_catching wp_andThen
    by (rule wp_mono[OF assertReady_keeps[OF standing_checks[OF laws] st]]) (simp_all add: wp_ret)
  have shown: "wp (show_host (h_name h)) (\<lambda>x p'. x = h \<and> p' = p) (\<lambda>e. standing h fs door d) p"
    by (rule wp_mono[OF show_host_steady]) (use st at in auto)
  show ?thesis
    unfolding preflight_def
    by (rule wp_seq[OF shown], elim conjE, hypsubst, rule wp_seq[OF ready], rule wp_ifI,
        simp add: wp_ret preflight_result_def only_passwords_def, rule inspect_standing[OF laws])
qed

definition refused_by_preflight :: "failure \<Rightarrow> bool" where
  "refused_by_preflight e \<longleftrightarrow> (case e of Agent_Bad_Request x c \<Rightarrow> ae_code x = SSH_HARDEN_REFUSED | _ \<Rightarrow> False)"

lemma verify_standing:
  assumes laws: "sshd_laws M tcpProbe h door" and st: "standing h fs door d p" and key: "has_user_key M h fs"
  shows "wp (verifyApplied M h) (\<lambda>reason p'. reason = None \<longrightarrow> standing h fs door d p' \<and> hardened (fst d) \<and> own_key_in M h fs d)
    (\<lambda>e p'. \<not> refused_by_preflight e) p"
proof -
  have path: "wp (keyPathFor M (h_user_key h)) (\<lambda>x p'. nonempty x \<noteq> None \<and> p' = p) (\<lambda>e p'. \<not> refused_by_preflight e) p"
    by (rule wp_mono[OF keyPathFor_eq]) (use st key in \<open>auto simp: standing_def has_user_key_def\<close>)
  have probe: "wp (andThen (resolveSshTarget M h) (\<lambda>t. andThen (runScript M t (lockdownProbeScript 14) False) (\<lambda>probe.
       if sig_sshdT (parseLockdownProbe (ex_stdout probe)) = [] \<or>
          \<not> alreadyApplied (sig_sshdT (parseLockdownProbe (ex_stdout probe))) PASSWORD_LOCKDOWN
       then ret (Some ''the change didn't take effect'') else ret None)))
      (\<lambda>reason p'. reason = None \<longrightarrow> standing h fs door d p' \<and> hardened (fst d) \<and> own_key_in M h fs d) (\<lambda>e p'. \<not> refused_by_preflight e) p'"
    if "standing h fs door d p'" and "own_key_in M h fs d" for p'
    by (rule wp_seq[OF wp_mono[OF target_standing[OF that(1)]]], assumption, clarsimp simp: refused_by_preflight_def,
        elim conjE, rule wp_seq[OF probe_standing[OF laws]], assumption, assumption)
       (use that(2) in \<open>auto simp: wp_if wp_ret shown_config_def hardened_def\<close>)
  show ?thesis
    unfolding verifyApplied_def Let_def
  proof (rule wp_seq[OF path], elim conjE)
    fix x p' assume x: "nonempty x \<noteq> None" and p: "p' = p"
    show "wp (andThen (if nonempty x \<noteq> None then verifyUserKey M h else ret True) (\<lambda>login.
     if \<not> login then ret (Some ''your key no longer logs in'')
     else andThen (resolveSshTarget M h) (\<lambda>t. andThen (runScript M t (lockdownProbeScript 14) False) (\<lambda>probe.
       if sig_sshdT (parseLockdownProbe (ex_stdout probe)) = [] \<or>
          \<not> alreadyApplied (sig_sshdT (parseLockdownProbe (ex_stdout probe))) PASSWORD_LOCKDOWN
       then ret (Some ''the change didn't take effect'') else ret None))))
      (\<lambda>reason p'. reason = None \<longrightarrow> standing h fs door d p' \<and> hardened (fst d) \<and> own_key_in M h fs d) (\<lambda>e p'. \<not> refused_by_preflight e) p'"
      unfolding if_P[OF x] p
      by (rule wp_seq[OF user_key_standing[OF laws st]], rule wp_ifI, simp add: wp_ret, rule probe) auto
  qed
qed

lemma settle_standing:
  assumes laws: "sshd_laws M tcpProbe h door" and st: "standing h fs door d p" and key: "has_user_key M h fs" and t: "on_host h t"
  shows "wp (settle_lockdown M n h t applied)
    (\<lambda>x p'. lk_applied x \<and> hardened (fst (door (pl_remote p'))) \<and> own_key_in M h fs (door (pl_remote p'))) (\<lambda>e p'. \<not> refused_by_preflight e) p"
proof -
  have codes: "\<not> refused_by_preflight (hardenNotApplied n m)" "\<not> refused_by_preflight (hardenRolledBack n m)" for n m
    by (simp_all add: refused_by_preflight_def hardenNotApplied_def hardenRolledBack_def agentError_def
        SSH_HARDEN_REFUSED_def SSH_HARDEN_NOT_APPLIED_def SSH_HARDEN_ROLLED_BACK_def)
  have cancel: "wp (cancel_deadman M t pid) (\<lambda>x. standing h fs door d') E p'" if "standing h fs door d' p'" for pid p' d' and E
    by (rule cancel_standing[OF laws that t])
  have revert: "wp (andThen (runScript M t b True) (\<lambda>_. throw (hardenRolledBack n r))) Q (\<lambda>e p'. \<not> refused_by_preflight e) p'"
    for b r p' and Q :: "lockdown_result \<Rightarrow> 'a plane \<Rightarrow> bool"
    by (simp add: runScript_def wp_andThen wp_on_remote wp_throw codes)
  show ?thesis
    unfolding settle_lockdown_def Let_def
  proof (rule wp_ifI, rule wp_seq[OF cancel[OF st]], simp add: wp_throw codes, rule wp_seq[OF verify_standing[OF laws st key]])
    fix verify :: "string option" and p' assume v: "verify = None \<longrightarrow> standing h fs door d p' \<and> hardened (fst d) \<and> own_key_in M h fs d"
    show "wp (case verify of
            Some reason \<Rightarrow> andThen (runScript M t (revertNowScript (parseDeadmanPid (ex_stdout applied))) True) (\<lambda>_. throw (hardenRolledBack n reason))
          | None \<Rightarrow> andThen (cancel_deadman M t (parseDeadmanPid (ex_stdout applied))) (\<lambda>_. andThen (appendAudit ''host.ssh.lockdown'' [(''host'', JStr n)]) (\<lambda>_.
              ret \<lparr>lk_host = n, lk_applied = True, lk_reverted = False,
                   lk_message = ''Password login disabled - key-only SSH from now on.''\<rparr>)))
        (\<lambda>x p'. lk_applied x \<and> hardened (fst (door (pl_remote p'))) \<and> own_key_in M h fs (door (pl_remote p'))) (\<lambda>e p'. \<not> refused_by_preflight e) p'"
    proof (cases verify)
      case None
      then have d: "standing h fs door d p'" "hardened (fst d)" "own_key_in M h fs d" using v by auto
      show ?thesis
        unfolding None option.case
        by (rule wp_seq[OF cancel[OF d(1)]]) (use d in \<open>auto simp: wp_simps appendAudit_def standing_def\<close>)
    next
      case (Some r)
      then show ?thesis by (simp add: revert)
    qed
  qed
qed

lemma apply_standing:
  assumes laws: "sshd_laws M tcpProbe h door" and st: "standing h fs door d p"
    and key: "only_passwords (lp_refusals pre) \<longrightarrow> has_user_key M h fs"
  shows "wp (apply_lockdown M n h override pre)
    (\<lambda>x p'. if lk_applied x then hardened (fst (door (pl_remote p'))) \<and> own_key_in M h fs (door (pl_remote p')) else door (pl_remote p') = d)
    (\<lambda>e p'. refused_by_preflight e \<longrightarrow> door (pl_remote p') = d) p"
proof -
  let ?Q = "\<lambda>x p'. if lk_applied x then hardened (fst (door (pl_remote p'))) \<and> own_key_in M h fs (door (pl_remote p')) else door (pl_remote p') = d"
  let ?E = "\<lambda>e p'. refused_by_preflight e \<longrightarrow> door (pl_remote p') = d"
  have d: "door (pl_remote p) = d" using st by (simp add: standing_def)
  have run: "wp (andThen (runScript M t b s) (settle_lockdown M n h t)) ?Q ?E p'"
    if "standing h fs door d p'" and "on_host h t" and "has_user_key M h fs" for t b s p'
  proof -
    have "wp (runScript M t b s) (\<lambda>x p2. standing h fs door (door (pl_remote p2)) p2) ?E p'"
      using that(1) by (simp add: runScript_def wp_on_remote standing_def)
    then show ?thesis
      by (rule wp_seq) (rule wp_mono[OF settle_standing[OF laws _ that(3,2)]], assumption, auto)
  qed
  have go: "wp (andThen (resolveSshTarget M h) (\<lambda>t. andThen (runScript M t b s) (settle_lockdown M n h t))) ?Q ?E p"
    if "has_user_key M h fs" for b s
    by (rule wp_seq[OF wp_mono[OF target_standing[OF st]]], assumption, clarsimp simp: refused_by_preflight_def,
        elim conjE, rule run[OF _ _ that])
  have open_: "has_user_key M h fs" if "filter (\<lambda>r. \<not> (override \<and> lr_code r = Password_Logins)) (lp_refusals pre) = []"
    using that key by (auto simp: only_passwords_def list_all_iff filter_empty_conv)
  show ?thesis
    unfolding apply_lockdown_def Let_def
    by (rule wp_ifI, simp add: wp_ret d, rule wp_ifI, simp add: wp_throw d, rule go, rule open_, simp)
qed


section \<open>Properties\<close>

lemma disable_standing:
  assumes laws: "sshd_laws M tcpProbe h door" and at: "host_at (h_name h) p = Some h"
  shows "wp (disable_password_login M tcpProbe (h_name h) override)
    (\<lambda>x p'. if lk_applied x then hardened (fst (door (pl_remote p'))) \<and> own_key_in M h (pl_files p) (door (pl_remote p'))
       else door (pl_remote p') = door (pl_remote p))
    (\<lambda>e p'. refused_by_preflight e \<longrightarrow> door (pl_remote p') = door (pl_remote p)) p"
proof -
  let ?S = "standing h (pl_files p) door (door (pl_remote p))"
  let ?E = "\<lambda>e p'. refused_by_preflight e \<longrightarrow> door (pl_remote p') = door (pl_remote p)"
  have st: "?S p" using at by (simp add: standing_def)
  have out: "?S p' \<Longrightarrow> door (pl_remote p') = door (pl_remote p)" for p' by (simp add: standing_def)
  have shown: "wp (show_host (h_name h)) (\<lambda>x p'. x = h \<and> p' = p) ?E p"
    by (rule wp_mono[OF show_host_steady]) (use at in auto)
  have gate: "wp (assertHostWritable M h) (\<lambda>x p'. p' = p) ?E p"
    by (rule wp_mono[OF writable_steady]) auto
  have pre: "wp (preflight M tcpProbe (h_name h))
      (\<lambda>pre p'. ?S p' \<and> (only_passwords (lp_refusals pre) \<longrightarrow> has_user_key M h (pl_files p))) ?E p"
    by (rule wp_mono[OF preflight_standing[OF laws st at]]) (auto simp: out)
  show ?thesis
    unfolding disable_password_login_def
    by (rule wp_seq[OF shown], elim conjE, hypsubst, rule wp_seq[OF gate], hypsubst, rule wp_seq[OF pre], elim conjE,
        rule apply_standing[OF laws]) auto
qed


text \<open>
  A lockdown that is refused by the preflight, or finds the host hardened already, leaves the
  host's \<open>sshd\<close> as it was.
\<close>

theorem refused_lockdown_harmless:
  assumes "sshd_laws M tcpProbe h door" and "host_at (h_name h) p = Some h"
    and "disable_password_login M tcpProbe (h_name h) override p = (r, p')"
    and "case r of Inr x \<Rightarrow> \<not> lk_applied x | Inl e \<Rightarrow> refused_by_preflight e"
  shows "door (pl_remote p') = door (pl_remote p)"
  using disable_standing[OF assms(1,2), of override] assms(3,4) by (simp add: wp_def split: sum.splits)

text \<open>
  When the connection is lost under the script that makes the change, so that whether it took is
  unknown, the dead man's switch is cancelled all the same and the refusal tells that nothing
  changed.
\<close>

theorem lost_change_is_disarmed:
  assumes "ex_code applied \<noteq> 0"
  shows "settle_lockdown M n h t applied p =
    (Inl (hardenNotApplied n (or_default (nonempty (Some (trim (ex_stderr applied)))) (''apply exited '' @ show_code (ex_code applied)))),
     snd (runScript M t (cancelDeadmanScript (parseDeadmanPid (ex_stdout applied))) True p))"
  using assms by (simp add: settle_lockdown_def cancel_deadman_def andThen_def throw_def ret_def runScript_def on_remote_def
      Let_def split: prod.split)

end
