(* ===== verification/Host_Firewall.thy ===== *)
theory Host_Firewall
  imports Host_Access Nftables
begin

text \<open>
  The managed firewall of a host over SSH (src/src/host-ops/vops-host-firewall.service.ts, nft-exec.ts)
  and the detection of somebody else's (src/src/firewall/foreign-firewall.ts). The decoding of the
  rules another product leaves in its file, base64 of JSON, is a parameter.
\<close>

section \<open>Scripts\<close>

definition CONF :: string where
  "CONF = ''/etc/vops/firewall.nft''"

definition UNIT :: string where
  "UNIT = ''vops-firewall.service''"

definition UNIT_PATH :: string where
  "UNIT_PATH = ''/etc/systemd/system/vops-firewall.service''"

definition sudoPrefix :: "host \<Rightarrow> string" where
  "sudoPrefix h = (if h_user h \<noteq> [] \<and> h_user h \<noteq> ''root'' then ''sudo -n '' else [])"

definition find_nft_command :: string where
  "find_nft_command = ''command -v nft 2>/dev/null || (test -x /usr/sbin/nft && echo /usr/sbin/nft) || (test -x /sbin/nft && echo /sbin/nft) || true''"

definition resolveNftBin :: "'r machine \<Rightarrow> ssh_target \<Rightarrow> ('r, string) hact" where
  "resolveNftBin M t = andThen (ssh_run M t find_nft_command) (\<lambda>res.
     ret (trim (hd (split_on newline (trim (ex_stdout res))))))"

definition unitFile :: "string \<Rightarrow> string" where
  "unitFile nftBin = join nl [''[Unit]'', ''Description=vops host firewall'', ''DefaultDependencies=no'',
     ''Wants=network-pre.target'', ''Before=network-pre.target network.target'', ''[Service]'', ''Type=oneshot'',
     ''ExecStart='' @ nftBin @ '' -f '' @ CONF, ''RemainAfterExit=yes'', ''[Install]'', ''WantedBy=multi-user.target'', []]"

definition applyScript :: "string \<Rightarrow> string \<Rightarrow> string \<Rightarrow> string" where
  "applyScript sudo ruleset nftBin = join nl [
     ''set -e'',
     sudo @ ''mkdir -p /etc/vops'',
     sudo @ ''tee '' @ CONF @ '' >/dev/null <<'' @ single_quoted ''VOPS_NFT_EOF'',
     trim_end ruleset,
     ''VOPS_NFT_EOF'',
     sudo @ nftBin @ '' -f '' @ CONF,
     ''if command -v systemctl >/dev/null 2>&1; then'',
     ''  '' @ sudo @ ''tee '' @ UNIT_PATH @ '' >/dev/null <<'' @ single_quoted ''VOPS_UNIT_EOF'',
     unitFile nftBin,
     ''VOPS_UNIT_EOF'',
     ''  '' @ sudo @ ''systemctl daemon-reload || true'',
     ''  '' @ sudo @ ''systemctl enable '' @ UNIT @ '' >/dev/null 2>&1 || true'',
     ''  echo VOPS_PERSIST_SYSTEMD'',
     ''else'',
     ''  echo VOPS_PERSIST_NONE'',
     ''fi'',
     []]"

definition clearScript :: "string \<Rightarrow> string" where
  "clearScript sudo = join nl [
     ''set -e'',
     sudo @ ''rm -f '' @ CONF,
     sudo @ ''nft delete table inet '' @ TABLE @ '' 2>/dev/null || true'',
     ''if command -v systemctl >/dev/null 2>&1; then'',
     ''  '' @ sudo @ ''systemctl disable --now '' @ UNIT @ '' >/dev/null 2>&1 || true'',
     ''  '' @ sudo @ ''rm -f '' @ UNIT_PATH,
     ''  '' @ sudo @ ''systemctl daemon-reload || true'',
     ''fi'',
     []]"

definition probe_command :: "string \<Rightarrow> string" where
  "probe_command sudo = sudo @ ''nft list table inet '' @ TABLE @ '' >/dev/null 2>&1 && echo VOPS_ACTIVE; systemctl is-enabled '' @
     UNIT @ '' 2>/dev/null | grep -qx enabled && echo VOPS_PERSIST || true''"

section \<open>Status\<close>

record firewall_status =
  fs_host :: string
  fs_intended :: "host_firewall option"
  fs_active :: bool
  fs_persistent :: bool
  fs_ssh_port :: nat

definition probe_firewall :: "'r machine \<Rightarrow> host \<Rightarrow> ('r, bool \<times> bool) hact" where
  "probe_firewall M h = andThen (resolveSshTarget M h) (\<lambda>t. andThen (ssh_run M t (probe_command (sudoPrefix h))) (\<lambda>res.
     ret (includes_str (ex_stdout res) ''VOPS_ACTIVE'', includes_str (ex_stdout res) ''VOPS_PERSIST'')))"

definition probeable :: "host \<Rightarrow> bool" where
  "probeable h \<longleftrightarrow> (case h_conn h of Some c \<Rightarrow> conn_state c = Ready | None \<Rightarrow> False) \<or> h_ops_installed h \<or>
     nonempty (h_user_key h) \<noteq> None"

definition firewall_status :: "'r machine \<Rightarrow> string \<Rightarrow> ('r, firewall_status) hact" where
  "firewall_status M n = andThen (show_host n) (\<lambda>h.
     andThen (if probeable h then catching (probe_firewall M h) (\<lambda>_. ret (False, False)) else ret (False, False)) (\<lambda>pr.
     ret \<lparr>fs_host = n, fs_intended = h_firewall h, fs_active = fst pr, fs_persistent = snd pr, fs_ssh_port = h_port h\<rparr>))"

section \<open>Applying rules\<close>

definition ensureNft :: "'r machine \<Rightarrow> ssh_target \<Rightarrow> os_family \<Rightarrow> string \<Rightarrow> ('r, string) hact" where
  "ensureNft M t family sudo = andThen (resolveNftBin M t) (\<lambda>found.
     if found \<noteq> [] then ret found
     else andThen (ssh_run M t (if family = Rhel then sudo @ ''dnf install -y nftables''
            else sudo @ ''apt-get update -qq && '' @ sudo @ ''DEBIAN_FRONTEND=noninteractive apt-get install -y nftables'')) (\<lambda>res.
       andThen (resolveNftBin M t) (\<lambda>after.
       if after = [] then throw (Bad_Request (''nftables is not installed and could not be installed automatically: '' @
            or_default (nonempty (Some (trim (ex_stderr res)))) ''install failed''))
       else ret after)))"

definition isManagedSshRule :: "fw_rule \<Rightarrow> nat \<Rightarrow> bool" where
  "isManagedSshRule r sshPort \<longleftrightarrow> rule_direction r = Dir_In \<and> rule_protocol r = Tcp \<and>
     trim (or_default (rule_port r) []) = show_nat sshPort"

definition renderOpts :: "host \<Rightarrow> bool \<Rightarrow> fw_options" where
  "renderOpts h accept = default_options\<lparr>opt_policy_accept := accept, opt_ssh_always := True, opt_ssh_port := h_port h\<rparr>"

definition kept_rules :: "host \<Rightarrow> fw_rule list \<Rightarrow> fw_rule list" where
  "kept_rules h rules = filter (\<lambda>r. \<not> isManagedSshRule r (h_port h)) rules"

definition send_ruleset :: "'r machine \<Rightarrow> string \<Rightarrow> host \<Rightarrow> fw_rule list \<Rightarrow> bool \<Rightarrow> ssh_target \<Rightarrow> string \<Rightarrow> ('r, firewall_status) hact" where
  "send_ruleset M n h rules accept t nftBin = (case renderNftables (kept_rules h rules) (renderOpts h accept) of
       Inl m \<Rightarrow> throw (Plain_Error m)
     | Inr ruleset \<Rightarrow> andThen (runScript M t (applyScript (sudoPrefix h) ruleset nftBin) False) (\<lambda>res.
       if ex_code res \<noteq> 0
       then throw (Bad_Request (''Firewall apply failed: '' @
              or_default (nonempty (Some (trim (ex_stderr res)))) (''nft -f exited '' @ show_code (ex_code res))))
       else andThen clock (\<lambda>now.
         andThen (update_host (h\<lparr>h_firewall := Some \<lparr>hfw_rules = kept_rules h rules, hfw_policy_accept = accept,
                    hfw_applied_at = now\<rparr>\<rparr>)) (\<lambda>_.
         andThen (appendAudit ''host.firewall.apply'' [(''host'', JStr n), (''ruleCount'', JNum (of_nat (length rules))),
            (''policy'', JStr (if accept then ''accept'' else ''drop'')),
            (''persistent'', JBool (includes_str (ex_stdout res) ''VOPS_PERSIST_SYSTEMD''))]) (\<lambda>_.
         firewall_status M n)))))"

definition apply_firewall :: "'r machine \<Rightarrow> (string \<Rightarrow> nat \<Rightarrow> 'r \<Rightarrow> bool \<times> 'r) \<Rightarrow> string \<Rightarrow> fw_rule list \<Rightarrow> bool option \<Rightarrow>
    ('r, firewall_status) hact" where
  "apply_firewall M tcpProbe n rules accept = andThen (show_host n) (\<lambda>h. andThen (assertHostWritable M h) (\<lambda>_.
     andThen (assertReady M tcpProbe n) (\<lambda>_. andThen (resolveSshTarget M h) (\<lambda>t.
     andThen (ensureNft M t (case h_os h of Some os \<Rightarrow> os_family os | None \<Rightarrow> Debian) (sudoPrefix h)) (\<lambda>nftBin.
     send_ruleset M n h rules (or_default accept False) t nftBin)))))"

section \<open>Clearing them\<close>

definition forget_firewall :: "'r machine \<Rightarrow> string \<Rightarrow> host \<Rightarrow> ('r, unit) hact" where
  "forget_firewall M n h = andThen (catching (probe_firewall M h) (\<lambda>_. ret (False, False))) (\<lambda>pr.
     if fst pr then throw (Bad_Request (''Firewall clear did not remove the vops table on '' @ quoted n @
            '' - intent kept so you can retry.''))
     else andThen (update_host (h\<lparr>h_firewall := None\<rparr>)) (\<lambda>_.
       appendAudit ''host.firewall.clear'' [(''host'', JStr n)]))"

definition clear_firewall :: "'r machine \<Rightarrow> (string \<Rightarrow> nat \<Rightarrow> 'r \<Rightarrow> bool \<times> 'r) \<Rightarrow> string \<Rightarrow> ('r, unit) hact" where
  "clear_firewall M tcpProbe n = andThen (show_host n) (\<lambda>h. andThen (assertHostWritable M h) (\<lambda>_.
     if h_firewall h = None then throw (Bad_Request (''vops never applied a firewall to '' @ quoted n @
            '' - nothing to clear (its existing firewall, if any, is left untouched).''))
     else andThen (assertReady M tcpProbe n) (\<lambda>_. andThen (resolveSshTarget M h) (\<lambda>t.
       andThen (runScript M t (clearScript (sudoPrefix h)) False) (\<lambda>res.
       if ex_code res \<noteq> 0
       then throw (Bad_Request (''Firewall clear failed (nothing forgotten): '' @
              or_default (nonempty (Some (trim (ex_stderr res)))) (''clear script exited '' @ show_code (ex_code res))))
       else forget_firewall M n h)))))"

definition client_ip :: "'r machine \<Rightarrow> string \<Rightarrow> ('r, string option) hact" where
  "client_ip M n = andThen (show_host n) (\<lambda>h. if \<not> probeable h then ret None
     else catching (andThen (resolveSshTarget M h) (\<lambda>t. andThen (ssh_run M t (''echo '' @ dq ''$SSH_CONNECTION'')) (\<lambda>res.
       ret (parseClientIp (ex_stdout res))))) (\<lambda>_. ret None))"

section \<open>Somebody else's firewall\<close>

datatype foreign_source = Src_Flui | Src_Other

record foreign_firewall =
  ff_source :: foreign_source
  ff_active :: bool
  ff_persistent :: bool
  ff_rules :: "fw_rule list"
  ff_path :: "string option"

definition FLUI_RULESET_PATH :: string where
  "FLUI_RULESET_PATH = ''/etc/flui/flui-firewall.nft''"

definition FLUI_UNIT :: string where
  "FLUI_UNIT = ''flui-firewall.service''"

definition FLUI_TABLE :: string where
  "FLUI_TABLE = ''flui''"

definition FLUI_RULES_PREFIX :: string where
  "FLUI_RULES_PREFIX = ''# flui-rules-b64:''"

definition foreignProbeScript :: "string \<Rightarrow> string" where
  "foreignProbeScript sudo = join nl [
     ''echo '' @ single_quoted ''===VOPS_FLUI_FILE==='',
     sudo @ ''cat '' @ FLUI_RULESET_PATH @ '' 2>/dev/null || true'',
     ''echo '' @ single_quoted ''===VOPS_NFT_CHAINS==='',
     sudo @ ''nft list chains 2>/dev/null || true'',
     ''echo '' @ single_quoted ''===VOPS_FLUI_UNIT==='',
     ''systemctl is-enabled '' @ FLUI_UNIT @ '' 2>/dev/null || true'',
     ''echo '' @ single_quoted ''===VOPS_END==='',
     []]"

definition between :: "string \<Rightarrow> string \<Rightarrow> string \<Rightarrow> string" where
  "between out m m' = (case (index_of out m, index_of out m') of
       (Some i, Some j) \<Rightarrow> trim (take (j - (i + length m)) (drop (i + length m) out))
     | _ \<Rightarrow> [])"

record foreign_sections =
  sec_flui_file :: string
  sec_chains :: string
  sec_flui_unit :: string

definition parseForeignProbe :: "string \<Rightarrow> foreign_sections" where
  "parseForeignProbe out = \<lparr>sec_flui_file = between out ''===VOPS_FLUI_FILE==='' ''===VOPS_NFT_CHAINS==='',
     sec_chains = between out ''===VOPS_NFT_CHAINS==='' ''===VOPS_FLUI_UNIT==='',
     sec_flui_unit = between out ''===VOPS_FLUI_UNIT==='' ''===VOPS_END===''\<rparr>"

text \<open>The first line with the prefix decides; \<open>decode\<close> gives its array of rules, if it is one.\<close>

definition decodeFluiRules :: "(string \<Rightarrow> fw_rule list option) \<Rightarrow> string \<Rightarrow> fw_rule list option" where
  "decodeFluiRules decode text = (case find (\<lambda>l. starts_with l FLUI_RULES_PREFIX) (split_on newline text) of
       None \<Rightarrow> None | Some l \<Rightarrow> decode (trim (drop (length FLUI_RULES_PREFIX) l)))"

text \<open>\<open>/^table\s+\S+\s+(\S+)/\<close> on a trimmed line.\<close>

definition table_name :: "string \<Rightarrow> string option" where
  "table_name line = (if starts_with line ''table'' then
       let r = drop 5 line; r1 = dropWhile is_space r; r2 = dropWhile (\<lambda>c. \<not> is_space c) r1;
           r3 = dropWhile is_space r2; name = takeWhile (\<lambda>c. \<not> is_space c) r3
       in if r1 \<noteq> r \<and> r2 \<noteq> r1 \<and> r3 \<noteq> r2 \<and> name \<noteq> [] then Some name else None
     else None)"

text \<open>\<open>/policy\s+drop/\<close>\<close>

definition policy_drop :: re where
  "policy_drop = Seq (lit ''policy'') (Seq (plus (Cls is_space)) (lit ''drop''))"

fun input_drops :: "string option \<Rightarrow> string list \<Rightarrow> string list" where
  "input_drops cur [] = []"
| "input_drops cur (raw # ls) = (let line = trim raw in case table_name line of
       Some t \<Rightarrow> input_drops (Some t) ls
     | None \<Rightarrow> (case nonempty cur of
         Some t \<Rightarrow> (if includes_str line ''hook input'' \<and> re_test policy_drop line then [t] else []) @ input_drops cur ls
       | None \<Rightarrow> input_drops cur ls))"

definition parseInputDropTables :: "string \<Rightarrow> string list" where
  "parseInputDropTables nftChains = remdups (input_drops None (split_on newline nftChains))"

definition buildForeignFirewall :: "(string \<Rightarrow> fw_rule list option) \<Rightarrow> foreign_sections \<Rightarrow> foreign_firewall option" where
  "buildForeignFirewall decode s =
     (let dropTables = parseInputDropTables (sec_chains s); fluiRules = decodeFluiRules decode (sec_flui_file s)
      in if fluiRules \<noteq> None \<or> FLUI_TABLE \<in> set dropTables
         then Some \<lparr>ff_source = Src_Flui, ff_active = (FLUI_TABLE \<in> set dropTables),
                    ff_persistent = (trim (sec_flui_unit s) = ''enabled''), ff_rules = or_default fluiRules [],
                    ff_path = Some FLUI_RULESET_PATH\<rparr>
         else if list_ex (\<lambda>t. t \<noteq> TABLE) dropTables
         then Some \<lparr>ff_source = Src_Other, ff_active = True, ff_persistent = False, ff_rules = [], ff_path = None\<rparr>
         else None)"

definition detectForeign :: "'r machine \<Rightarrow> (string \<Rightarrow> fw_rule list option) \<Rightarrow> string \<Rightarrow> ('r, foreign_firewall option) hact" where
  "detectForeign M decode n = andThen (show_host n) (\<lambda>h. if \<not> probeable h then ret None
     else catching (andThen (resolveSshTarget M h) (\<lambda>t.
       andThen (runScript M t (foreignProbeScript (sudoPrefix h)) False) (\<lambda>res.
       ret (buildForeignFirewall decode (parseForeignProbe (ex_stdout res)))))) (\<lambda>_. ret None))"


section \<open>What a script does to the host's firewall\<close>

text \<open>
  A script seen from the file of the ruleset and the ruleset loaded last, \<open>(conf, loaded)\<close>. A line is a
  command; one that ends in a here-document has the lines up to its mark as input. \<open>tee\<close> writes its
  input to the file it names, a command that loads (\<open>loads w\<close>) with \<open>-f\<close> and the file loads what is in
  the file; the commands listed as inert do neither. A command under a condition may be skipped, so
  only inert ones are understood there. A script with any other command is not understood.
\<close>

type_synonym nft_state = "string option \<times> string option"

definition heredoc_mark :: "string \<Rightarrow> string option" where
  "heredoc_mark line = (case index_of line ''<<'' of
       None \<Rightarrow> None
     | Some i \<Rightarrow> (case drop (i + 2) line of [] \<Rightarrow> None | q # r \<Rightarrow> if q = CHR 0x27 then Some (takeWhile (\<lambda>c. c \<noteq> CHR 0x27) r) else None))"

fun shell_commands :: "string list \<Rightarrow> (string \<times> string option) list" where
  "shell_commands [] = []"
| "shell_commands (l # ls) = (case heredoc_mark l of
       None \<Rightarrow> (l, None) # shell_commands ls
     | Some m \<Rightarrow> (l, Some (concat (map (\<lambda>x. x @ nl) (takeWhile (\<lambda>x. x \<noteq> m) ls)))) # shell_commands (drop (Suc (length (takeWhile (\<lambda>x. x \<noteq> m) ls))) ls))"

definition unsudo :: "string list \<Rightarrow> string list" where
  "unsudo ws = (if take 2 ws = [''sudo'', ''-n''] then drop 2 ws else ws)"

definition inert_words :: "string list list" where
  "inert_words = [[''set'', ''-e''], [''mkdir'', ''-p'', ''/etc/vops''], [''systemctl'', ''daemon-reload'', ''||'', ''true''],
     [''systemctl'', ''enable'', UNIT, ''>/dev/null'', ''2>&1'', ''||'', ''true''], [''echo'', ''VOPS_PERSIST_SYSTEMD''],
     [''echo'', ''VOPS_PERSIST_NONE'']]"

definition condition_words :: "string list" where
  "condition_words = [''if'', ''command'', ''-v'', ''systemctl'', ''>/dev/null'', ''2>&1;'', ''then'']"

fun run_commands :: "(string \<Rightarrow> bool) \<Rightarrow> nat \<Rightarrow> (string \<times> string option) list \<Rightarrow> nft_state \<Rightarrow> nft_state option" where
  "run_commands loads depth [] st = (if depth = 0 then Some st else None)"
| "run_commands loads depth ((c, inp) # cs) st = (let ws = unsudo (word_list c) in
     if length ws = 3 \<and> loads (hd ws) \<and> tl ws = [''-f'', CONF]
     then (if depth = 0 then run_commands loads depth cs (fst st, fst st) else None)
     else if take 1 ws = [''tee''] \<and> take 1 (drop 2 ws) = [''>/dev/null''] \<and> inp \<noteq> None
     then (if ws ! 1 \<noteq> CONF then run_commands loads depth cs st
           else if depth = 0 then run_commands loads depth cs (inp, snd st) else None)
     else if ws = condition_words then run_commands loads (Suc depth) cs st
     else if ws = [''else''] \<and> 0 < depth then run_commands loads depth cs st
     else if ws = [''fi''] \<and> 0 < depth then run_commands loads (depth - 1) cs st
     else if ws = [] \<or> ws \<in> set inert_words then run_commands loads depth cs st
     else None)"

text \<open>With \<open>set -e\<close> as its first line a script that ends well has done every command outside a condition.\<close>

definition script_effect :: "(string \<Rightarrow> bool) \<Rightarrow> string \<Rightarrow> nft_state \<Rightarrow> nft_state option" where
  "script_effect loads script st = (let ls = split_on newline script in
     if hd ls = ''set -e'' then run_commands loads 0 (shell_commands ls) st else None)"

section \<open>The recorded intent and the table on the host\<close>

text \<open>
  What is relied on of the host, \<open>seen r\<close> being the text of the ruleset file and the ruleset loaded
  last: the probe changes neither; the search for \<open>nft\<close> answers nothing or a plain word that loads, if
  it is a command there at all; and a script that is understood and ends well has done what it says.
\<close>

definition heredoc_free :: "string \<Rightarrow> bool" where
  "heredoc_free text \<longleftrightarrow> ''VOPS_NFT_EOF'' \<notin> set (split_on newline (trim_end text))"

definition plain_word :: "string \<Rightarrow> bool" where
  "plain_word w \<longleftrightarrow> w \<noteq> [] \<and> list_all (\<lambda>c. is_digit c \<or> in_range CHR ''a'' CHR ''z'' c \<or> in_range CHR ''A'' CHR ''Z'' c \<or>
     c \<in> {CHR ''/'', CHR ''.'', CHR ''_'', CHR ''-''}) w"

definition first_line :: "exec_result \<Rightarrow> string" where
  "first_line x = trim (hd (split_on newline (trim (ex_stdout x))))"

definition nft_laws :: "'r machine \<Rightarrow> host \<Rightarrow> (string \<Rightarrow> bool) \<Rightarrow> ('r \<Rightarrow> nft_state) \<Rightarrow> bool" where
  "nft_laws M h loads seen \<longleftrightarrow>
     (\<forall>t r. on_host h t \<longrightarrow> seen (snd (mc_runner M ''ssh'' (sshArgs M t 10 @ [probe_command (sudoPrefix h)]) None r)) = seen r) \<and>
     (\<forall>t r. on_host h t \<longrightarrow> (let bin = first_line (fst (mc_runner M ''ssh'' (sshArgs M t 10 @ [find_nft_command]) None r))
        in bin = [] \<or> plain_word bin \<and> loads bin)) \<and>
     (\<forall>t r script st. on_host h t \<and> script_effect loads script (seen r) = Some st \<and>
        ex_code (fst (mc_runner M ''ssh'' (sshArgs M t 10 @ [''bash -s'']) (Some script) r)) = 0 \<longrightarrow>
        seen (snd (mc_runner M ''ssh'' (sshArgs M t 10 @ [''bash -s'']) (Some script) r)) = st)"

text \<open>What the applying script does.\<close>

lemma split_on_join_concat: "xs \<noteq> [] \<Longrightarrow> split_on c (join [c] xs) = concat (map (split_on c) xs)"
proof (induction "[c]" xs rule: join.induct)
  case (3 x y xs)
  then show ?case using split_on_app[of c x "join [c] (y # xs)"] by simp
qed simp_all

lemma lines_text: "concat (map (\<lambda>x. x @ nl) (split_on newline s)) = s @ nl"
proof (induction s)
  case (Cons a s)
  obtain y ys where "split_on newline s = y # ys" by (cases "split_on newline s") auto
  with Cons show ?case by (auto simp: nl_def newline_def)
qed simp

lemma trim_end_parts: "\<exists>e. s = trim_end s @ e"
  by (metis trim_end_def rev_append rev_rev_ident takeWhile_dropWhile_id)

lemma shell_plain: "heredoc_mark l = None \<Longrightarrow> shell_commands (l # ls) = (l, None) # shell_commands ls"
  by simp

lemma shell_here:
  assumes "heredoc_mark l = Some m" and "m \<notin> set body"
  shows "shell_commands (l # body @ m # ls) = (l, Some (concat (map (\<lambda>x. x @ nl) body))) # shell_commands ls"
  using assms takeWhile_to[OF assms(2), of ls] by simp

definition sudo_text :: "string \<Rightarrow> bool" where
  "sudo_text sudo \<longleftrightarrow> sudo \<in> {[], ''sudo -n ''}"

lemma sudo_text_cases:
  assumes "sudo_text sudo"
  obtains "sudo = []" | "sudo = ''sudo -n ''"
  using assms unfolding sudo_text_def by blast

definition after_load :: "string \<Rightarrow> string list" where
  "after_load sudo = [''  '' @ sudo @ ''systemctl daemon-reload || true'', ''  '' @ sudo @ ''systemctl enable '' @ UNIT @ '' >/dev/null 2>&1 || true'',
     ''  echo VOPS_PERSIST_SYSTEMD'', ''else'', ''  echo VOPS_PERSIST_NONE'', ''fi'', []]"

definition tee_conf :: "string \<Rightarrow> string" where
  "tee_conf sudo = sudo @ ''tee '' @ CONF @ '' >/dev/null <<'' @ single_quoted ''VOPS_NFT_EOF''"

definition tee_unit :: "string \<Rightarrow> string" where
  "tee_unit sudo = ''  '' @ sudo @ ''tee '' @ UNIT_PATH @ '' >/dev/null <<'' @ single_quoted ''VOPS_UNIT_EOF''"

definition systemd_line :: string where
  "systemd_line = ''if command -v systemctl >/dev/null 2>&1; then''"

lemma apply_parts:
  "applyScript sudo ruleset bin = join nl ([''set -e'', sudo @ ''mkdir -p /etc/vops'', tee_conf sudo, trim_end ruleset, ''VOPS_NFT_EOF'',
     sudo @ bin @ '' -f '' @ CONF, systemd_line, tee_unit sudo, unitFile bin, ''VOPS_UNIT_EOF''] @ after_load sudo)"
  by (simp add: applyScript_def tee_conf_def tee_unit_def systemd_line_def after_load_def)

lemma fixed_script_lines:
  assumes "sudo_text sudo"
  shows "split_on newline (sudo @ ''mkdir -p /etc/vops'') = [sudo @ ''mkdir -p /etc/vops'']"
    and "heredoc_mark (sudo @ ''mkdir -p /etc/vops'') = None"
    and "unsudo (word_list (sudo @ ''mkdir -p /etc/vops'')) = [''mkdir'', ''-p'', ''/etc/vops'']"
    and "split_on newline (tee_conf sudo) = [tee_conf sudo]"
    and "heredoc_mark (tee_conf sudo) = Some ''VOPS_NFT_EOF''"
    and "take 3 (unsudo (word_list (tee_conf sudo))) = [''tee'', CONF, ''>/dev/null'']"
    and "length (unsudo (word_list (tee_conf sudo))) = 4"
    and "split_on newline (tee_unit sudo) = [tee_unit sudo]"
    and "heredoc_mark (tee_unit sudo) = Some ''VOPS_UNIT_EOF''"
    and "take 3 (unsudo (word_list (tee_unit sudo))) = [''tee'', UNIT_PATH, ''>/dev/null'']"
    and "length (unsudo (word_list (tee_unit sudo))) = 4"
    and "concat (map (split_on newline) (after_load sudo)) = after_load sudo"
    and "shell_commands (after_load sudo) = map (\<lambda>l. (l, None)) (after_load sudo)"
    and "map (\<lambda>l. unsudo (word_list l)) (after_load sudo) = [[''systemctl'', ''daemon-reload'', ''||'', ''true''],
       [''systemctl'', ''enable'', UNIT, ''>/dev/null'', ''2>&1'', ''||'', ''true''], [''echo'', ''VOPS_PERSIST_SYSTEMD''], [''else''],
       [''echo'', ''VOPS_PERSIST_NONE''], [''fi''], []]"
  by (rule sudo_text_cases[OF assms]; hypsubst; code_simp)+

definition load_line :: "string \<Rightarrow> string \<Rightarrow> string" where
  "load_line sudo bin = sudo @ bin @ '' -f '' @ CONF"

lemma load_line_facts:
  assumes "sudo_text sudo" and "plain_word bin"
  shows "split_on newline (load_line sudo bin) = [load_line sudo bin]"
    and "heredoc_mark (load_line sudo bin) = None"
    and "unsudo (word_list (load_line sudo bin)) = [bin, ''-f'', CONF]"
proof -
  have c: "CHR '' '' \<notin> set bin" "newline \<notin> set bin" "CHR ''<'' \<notin> set bin" "bin \<noteq> []"
    using assms(2) by (auto simp: plain_word_def list_all_iff is_digit_def in_range_def newline_def)
  have s: "newline \<notin> set sudo" "CHR ''<'' \<notin> set sudo" using assms(1) by (auto simp: sudo_text_def newline_def)
  show "split_on newline (load_line sudo bin) = [load_line sudo bin]"
    using c(2) s(1) by (intro split_on_no_sep) (simp add: load_line_def CONF_def newline_def)
  have "CHR ''<'' \<notin> set (load_line sudo bin)" using c(3) s(2) by (simp add: load_line_def CONF_def)
  then have "\<not> includes_str (load_line sudo bin) ''<<''" by (auto simp: includes_str_iff)
  then show "heredoc_mark (load_line sudo bin) = None" by (simp add: heredoc_mark_def includes_str_def)
  have words: "word_list (bin @ '' -f '' @ CONF) = [bin, ''-f'', CONF]"
  proof -
    have "bin @ '' -f '' @ CONF = bin @ CHR '' '' # (''-f'' @ CHR '' '' # CONF)" by simp
    moreover have "CHR '' '' \<notin> set CONF" "CONF \<noteq> []" by (simp_all add: CONF_def)
    ultimately show ?thesis using c by (simp only: word_list_app) (simp add: word_list_word)
  qed
  from assms(1) show "unsudo (word_list (load_line sudo bin)) = [bin, ''-f'', CONF]"
  proof (cases rule: sudo_text_cases)
    case 1
    then show ?thesis using words by (simp add: load_line_def unsudo_def)
  next
    case 2
    have "load_line ''sudo -n '' bin = ''sudo'' @ CHR '' '' # (''-n'' @ CHR '' '' # (bin @ '' -f '' @ CONF))" by (simp add: load_line_def)
    then have "word_list (load_line ''sudo -n '' bin) = ''sudo'' # ''-n'' # [bin, ''-f'', CONF]"
      by (simp only: word_list_app words) (simp add: word_list_word)
    then show ?thesis unfolding 2 by (simp add: unsudo_def)
  qed
qed

lemma nl_newline: "nl = [newline]"
  by (simp add: nl_def newline_def)

lemma unit_lines:
  assumes "plain_word bin"
  shows "''VOPS_UNIT_EOF'' \<notin> set (split_on newline (unitFile bin))"
proof -
  have "newline \<notin> set bin" using assms by (auto simp: plain_word_def list_all_iff is_digit_def in_range_def newline_def)
  then have "split_on newline (unitFile bin) = [''[Unit]'', ''Description=vops host firewall'', ''DefaultDependencies=no'',
     ''Wants=network-pre.target'', ''Before=network-pre.target network.target'', ''[Service]'', ''Type=oneshot'',
     ''ExecStart='' @ bin @ '' -f '' @ CONF, ''RemainAfterExit=yes'', ''[Install]'', ''WantedBy=multi-user.target'', []]"
    unfolding unitFile_def nl_newline by (intro split_on_join) (auto simp: newline_def CONF_def)
  then show ?thesis by simp
qed

lemma systemd_facts:
  "split_on newline systemd_line = [systemd_line]" "heredoc_mark systemd_line = None"
  "unsudo (word_list systemd_line) = condition_words" "split_on newline ''set -e'' = [''set -e'']"
  "heredoc_mark ''set -e'' = None" "unsudo (word_list ''set -e'') = [''set'', ''-e'']"
  "split_on newline ''VOPS_NFT_EOF'' = [''VOPS_NFT_EOF'']" "split_on newline ''VOPS_UNIT_EOF'' = [''VOPS_UNIT_EOF'']"
  by code_simp+

text \<open>The applying script writes the ruleset to its file and loads it.\<close>

lemma apply_script_effect:
  assumes sudo: "sudo_text sudo" and bin: "plain_word bin" "loads bin" and free: "heredoc_free text"
  shows "script_effect loads (applyScript sudo text bin) st = Some (Some (trim_end text @ nl), Some (trim_end text @ nl))"
proof -
  let ?T = "split_on newline (trim_end text)" and ?U = "split_on newline (unitFile bin)"
  note lines = fixed_script_lines[OF sudo] and load = load_line_facts[OF sudo bin(1)]
  have "split_on newline (applyScript sudo text bin) = concat (map (split_on newline)
      ([''set -e'', sudo @ ''mkdir -p /etc/vops'', tee_conf sudo, trim_end text, ''VOPS_NFT_EOF'',
        load_line sudo bin, systemd_line, tee_unit sudo, unitFile bin, ''VOPS_UNIT_EOF''] @ after_load sudo))"
    unfolding apply_parts nl_newline load_line_def by (rule split_on_join_concat) simp
  also have "\<dots> = ''set -e'' # (sudo @ ''mkdir -p /etc/vops'') # tee_conf sudo # ?T @ ''VOPS_NFT_EOF'' #
      (load_line sudo bin # systemd_line # tee_unit sudo # ?U @ ''VOPS_UNIT_EOF'' # after_load sudo)"
    by (simp only: list.map map_append concat.simps concat_append lines load systemd_facts append.simps append_assoc append_Nil2)
  finally have split: "split_on newline (applyScript sudo text bin) = ''set -e'' # (sudo @ ''mkdir -p /etc/vops'') # tee_conf sudo #
      ?T @ ''VOPS_NFT_EOF'' # (load_line sudo bin # systemd_line # tee_unit sudo # ?U @ ''VOPS_UNIT_EOF'' # after_load sudo)" .
  have T: "concat (map (\<lambda>x. x @ nl) ?T) = trim_end text @ nl" by (rule lines_text)
  obtain u where u: "u = concat (map (\<lambda>x. x @ nl) ?U)" by blast
  have cmds: "shell_commands (split_on newline (applyScript sudo text bin)) =
      (''set -e'', None) # (sudo @ ''mkdir -p /etc/vops'', None) # (tee_conf sudo, Some (trim_end text @ nl)) #
      (load_line sudo bin, None) # (systemd_line, None) # (tee_unit sudo, Some u) # map (\<lambda>l. (l, None)) (after_load sudo)"
    unfolding split
    by (simp only: shell_plain[OF systemd_facts(5)] shell_plain[OF lines(2)] shell_here[OF lines(5) free[unfolded heredoc_free_def]] T
        shell_plain[OF load(2)] shell_plain[OF systemd_facts(2)] shell_here[OF lines(9) unit_lines[OF bin(1)]] u lines(13))
  obtain a where a: "unsudo (word_list (tee_conf sudo)) = [''tee'', CONF, ''>/dev/null'', a]"
    using lines(6,7) by (auto simp: length_Suc_conv eval_nat_numeral)
  obtain b where b: "unsudo (word_list (tee_unit sudo)) = [''tee'', UNIT_PATH, ''>/dev/null'', b]"
    using lines(10,11) by (auto simp: length_Suc_conv eval_nat_numeral)
  have paths: "UNIT_PATH \<noteq> CONF" by (simp add: UNIT_PATH_def CONF_def)
  have after: "run_commands loads (Suc 0) (map (\<lambda>l. (l, None)) (after_load sudo)) s = Some s" for s
    using lines(14) by (simp add: after_load_def Let_def inert_words_def condition_words_def)
  show ?thesis
    unfolding script_effect_def cmds Let_def
    by (simp add: split a b paths after systemd_facts(3,6) lines(3) load(3) bin inert_words_def condition_words_def Let_def
        del: shell_commands.simps)
qed

text \<open>The inventory has the host with the given door and recorded rules.\<close>

definition recorded :: "host \<Rightarrow> host_firewall option \<Rightarrow> 'r plane \<Rightarrow> bool" where
  "recorded h fw p \<longleftrightarrow> (\<exists>h'. host_at (h_name h) p = Some h' \<and> h_name h' = h_name h \<and> login_of h' = login_of h \<and>
     port_of h' = port_of h \<and> h_firewall h' = fw)"

lemma recorded_frame [simp]:
  "recorded h fw (p\<lparr>pl_remote := r\<rparr>) = recorded h fw p" "recorded h fw (p\<lparr>pl_audit := a\<rparr>) = recorded h fw p"
  "recorded h fw (p\<lparr>pl_files := fs\<rparr>) = recorded h fw p" "recorded h fw (p\<lparr>pl_next := k\<rparr>) = recorded h fw p"
  by (simp_all add: recorded_def)

lemma recorded_checks: "checks_keep M tcpProbe h (recorded h fw)"
  by (auto simp: checks_keep_def recorded_def host_at_put)

lemma run_recorded: "recorded h fw p \<Longrightarrow> through (recorded h fw) (ssh_run M t cmd) p"
  by (simp add: ssh_run_def ssh_run_within_def wp_on_remote)

lemma script_recorded: "recorded h fw p \<Longrightarrow> through (recorded h fw) (runScript M t body sudo) p"
  by (simp add: runScript_def wp_on_remote)

lemma target_recorded:
  "recorded h fw p \<Longrightarrow> wp (resolveSshTarget M h) (\<lambda>t p'. recorded h fw p' \<and> on_host h t) (\<lambda>e. recorded h fw) p"
  by (rule wp_mono[OF resolveSshTarget_same]) auto

lemma nft_recorded:
  assumes "nft_laws M h loads seen" and "recorded h fw p" and "on_host h t"
  shows "wp (resolveNftBin M t) (\<lambda>b p'. recorded h fw p' \<and> (b = [] \<or> plain_word b \<and> loads b)) (\<lambda>e. recorded h fw) p"
proof -
  have "first_line (fst (mc_runner M ''ssh'' (sshArgs M t 10 @ [find_nft_command]) None (pl_remote p))) = [] \<or>
      plain_word (first_line (fst (mc_runner M ''ssh'' (sshArgs M t 10 @ [find_nft_command]) None (pl_remote p)))) \<and>
      loads (first_line (fst (mc_runner M ''ssh'' (sshArgs M t 10 @ [find_nft_command]) None (pl_remote p))))"
    using assms(1)[unfolded nft_laws_def, THEN conjunct2, THEN conjunct1, rule_format, OF assms(3), of "pl_remote p"]
    by (simp add: Let_def)
  then show ?thesis
    using assms(2) by (auto simp: resolveNftBin_def ssh_run_def ssh_run_within_def wp_andThen wp_on_remote wp_ret first_line_def)
qed

lemma ensure_recorded:
  assumes "nft_laws M h loads seen" and "recorded h fw p" and "on_host h t"
  shows "wp (ensureNft M t fam sudo) (\<lambda>b p'. recorded h fw p' \<and> plain_word b \<and> loads b) (\<lambda>e. recorded h fw) p"
  unfolding ensureNft_def
  by (rule wp_seq[OF nft_recorded[OF assms]], elim conjE, rule wp_ifI, simp add: wp_ret, rule wp_seq[OF run_recorded], assumption,
      rule wp_seq[OF nft_recorded[OF assms(1) _ assms(3)]], assumption) (auto simp: wp_if wp_ret wp_throw)

lemma sudo_prefix: "sudo_text (sudoPrefix h)"
  by (simp add: sudo_text_def sudoPrefix_def)

lemma apply_script_loads:
  assumes laws: "nft_laws M h loads seen" and t: "on_host h t" and bin: "plain_word bin" "loads bin"
  shows "wp (runScript M t (applyScript (sudoPrefix h) text bin) False)
    (\<lambda>x p'. (ex_code x = 0 \<longrightarrow> heredoc_free text \<longrightarrow> snd (seen (pl_remote p')) = Some (trim_end text @ nl)) \<and> pl_hosts p' = pl_hosts p) (\<lambda>e p'. False) p"
proof -
  let ?s = "applyScript (sudoPrefix h) text bin"
  let ?run = "mc_runner M ''ssh'' (sshArgs M t 10 @ [''bash -s'']) (Some ?s) (pl_remote p)"
  have "seen (snd ?run) = (Some (trim_end text @ nl), Some (trim_end text @ nl))" if "ex_code (fst ?run) = 0" "heredoc_free text"
    using laws[unfolded nft_laws_def, THEN conjunct2, THEN conjunct2, rule_format, of t ?s "pl_remote p"] t that
      apply_script_effect[where loads = loads, OF sudo_prefix bin that(2)] by simp
  then show ?thesis by (simp add: runScript_def wp_on_remote)
qed

lemma probe_same:
  assumes "nft_laws M h loads seen" and "sudoPrefix x = sudoPrefix h" and "login_of x = login_of h" "port_of x = port_of h"
  shows "wp (probe_firewall M x) (\<lambda>r p'. pl_hosts p' = pl_hosts p \<and> seen (pl_remote p') = seen (pl_remote p))
    (\<lambda>e p'. pl_hosts p' = pl_hosts p \<and> seen (pl_remote p') = seen (pl_remote p)) p"
proof -
  have run: "wp (ssh_run M t (probe_command (sudoPrefix x))) (\<lambda>r p'. pl_hosts p' = pl_hosts p \<and> seen (pl_remote p') = seen (pl_remote p)) E p'"
    if "p' = p \<and> on_host x t" for t p' E
    using that assms by (auto simp: ssh_run_def ssh_run_within_def wp_on_remote nft_laws_def on_host_def)
  show ?thesis
    unfolding probe_firewall_def
    by (rule wp_seq[OF wp_mono[OF resolveSshTarget_same]], assumption, simp, rule wp_seq[OF run], assumption, simp add: wp_ret)
qed

lemma status_same:
  assumes "nft_laws M h loads seen" and "host_at n p = Some x" and "sudoPrefix x = sudoPrefix h" "login_of x = login_of h" "port_of x = port_of h"
  shows "wp (firewall_status M n) (\<lambda>s p'. pl_hosts p' = pl_hosts p \<and> seen (pl_remote p') = seen (pl_remote p)) (\<lambda>e p'. False) p"
proof -
  let ?Q = "\<lambda>s p'. pl_hosts p' = pl_hosts p \<and> seen (pl_remote p') = seen (pl_remote p)"
  have shown: "wp (show_host n) (\<lambda>y p'. y = x \<and> p' = p) (\<lambda>e p'. False) p"
    using assms(2) by (simp add: show_host_def get_host_def wp_simps)
  have probe: "wp (if probeable x then catching (probe_firewall M x) (\<lambda>_. ret (False, False)) else ret (False, False)) ?Q (\<lambda>e p'. False) p"
  proof (rule wp_ifI)
    show "wp (catching (probe_firewall M x) (\<lambda>_. ret (False, False))) ?Q (\<lambda>e p'. False) p"
      unfolding wp_catching by (rule wp_mono[OF probe_same[OF assms(1,3,4,5)]]) (simp_all add: wp_ret)
  qed (simp add: wp_ret)
  show ?thesis
    unfolding firewall_status_def
    by (rule wp_seq[OF shown], elim conjE, hypsubst, rule wp_seq[OF probe]) (simp add: wp_ret)
qed

definition recorded_and_loaded :: "host \<Rightarrow> fw_rule list \<Rightarrow> bool \<Rightarrow> ('r \<Rightarrow> nft_state) \<Rightarrow> 'r plane \<Rightarrow> bool" where
  "recorded_and_loaded h rules accept seen p \<longleftrightarrow> (\<exists>fw text. host_at (h_name h) p = Some (h\<lparr>h_firewall := Some fw\<rparr>) \<and>
     hfw_rules fw = kept_rules h rules \<and> hfw_policy_accept fw = accept \<and>
     renderNftables (hfw_rules fw) (renderOpts h accept) = Inr text \<and>
     (heredoc_free text \<longrightarrow> snd (seen (pl_remote p)) = Some text))"

text \<open>A rendering ends with the brace of its table and one line break.\<close>

lemma rendered_end:
  assumes "renderNftables rules o1 = Inr text"
  shows "trim_end text @ nl = text"
proof -
  have last: "\<exists>x. join nl (xs @ [''}'']) = x @ ''}''" for xs
    by (induction xs rule: join.induct[of "\<lambda>_ xs. \<exists>x. join nl (xs @ [''}'']) = x @ ''}''" nl]) auto
  obtain ls where "text = join nl (ruleset_lines (filter (\<lambda>r. rule_direction r = Dir_In) rules) o1 ls) @ nl"
    using assms by (auto simp: renderNftables_def Let_def split: sum.splits)
  moreover have "\<exists>xs. ruleset_lines inbound o1 ls = xs @ [''}'']" for inbound by (simp add: ruleset_lines_def)
  ultimately obtain x where "text = x @ ''}'' @ nl" using last by (metis append.assoc)
  then show ?thesis by (simp add: trim_end_def nl_def is_space_def)
qed

lemma send_done:
  assumes laws: "nft_laws M h loads seen" and st: "recorded h (h_firewall h) p" and t: "on_host h t"
    and bin: "plain_word bin" "loads bin"
  shows "wp (send_ruleset M (h_name h) h rules accept t bin) (\<lambda>x. recorded_and_loaded h rules accept seen)
    (\<lambda>e. recorded h (h_firewall h)) p"
proof (cases "renderNftables (kept_rules h rules) (renderOpts h accept)")
  case (Inl m)
  then show ?thesis using st by (simp add: send_ruleset_def wp_throw)
next
  case (Inr txt0)
  let ?new = "\<lambda>now. h\<lparr>h_firewall := Some \<lparr>hfw_rules = kept_rules h rules, hfw_policy_accept = accept, hfw_applied_at = now\<rparr>\<rparr>"
  have script: "wp (runScript M t (applyScript (sudoPrefix h) txt0 bin) False)
      (\<lambda>x p'. (ex_code x = 0 \<longrightarrow> heredoc_free txt0 \<longrightarrow> snd (seen (pl_remote p')) = Some txt0) \<and> recorded h (h_firewall h) p') (\<lambda>e. recorded h (h_firewall h)) p"
    using apply_script_loads[OF laws t bin] by (rule wp_mono) (use st rendered_end[OF Inr] in \<open>simp_all add: recorded_def host_at_def\<close>)
  have store_it: "wp (andThen clock (\<lambda>now. andThen (update_host (?new now)) (\<lambda>_. andThen (appendAudit w d) (\<lambda>_. firewall_status M (h_name h)))))
      (\<lambda>x. recorded_and_loaded h rules accept seen) (\<lambda>e. recorded h (h_firewall h)) p'"
    if p': "heredoc_free txt0 \<longrightarrow> snd (seen (pl_remote p')) = Some txt0" "recorded h (h_firewall h) p'" for w d p'
  proof -
    let ?p = "(put_host (?new (pl_now p')) p')\<lparr>pl_audit := (w, JObj d) # pl_audit p'\<rparr>"
    have at: "host_at (h_name h) ?p = Some (?new (pl_now p'))"
      using p'(2) by (auto simp: recorded_def host_at_put)
    have s: "sudoPrefix (?new (pl_now p')) = sudoPrefix h" "login_of (?new (pl_now p')) = login_of h" "port_of (?new (pl_now p')) = port_of h"
      by (simp_all add: sudoPrefix_def login_of_def port_of_def)
    have "wp (firewall_status M (h_name h)) (\<lambda>x. recorded_and_loaded h rules accept seen) (\<lambda>e. recorded h (h_firewall h)) ?p"
      by (rule wp_mono[OF status_same[OF laws at s]])
         (use at p'(1) Inr in \<open>auto simp: recorded_and_loaded_def host_at_def put_host_def\<close>)
    then show ?thesis by (simp add: wp_simps clock_def update_host_def appendAudit_def put_host_def)
  qed
  show ?thesis
    unfolding send_ruleset_def Inr sum.case
    by (rule wp_seq[OF script], elim conjE, rule wp_ifI, simp add: wp_throw, rule store_it) simp_all
qed

lemma apply_done:
  assumes laws: "nft_laws M h loads seen" and at: "host_at (h_name h) p = Some h"
  shows "wp (apply_firewall M tcpProbe (h_name h) rules accept) (\<lambda>x. recorded_and_loaded h rules (or_default accept False) seen)
    (\<lambda>e. recorded h (h_firewall h)) p"
proof -
  let ?I = "recorded h (h_firewall h)"
  have st: "?I p" using at by (simp add: recorded_def)
  have shown: "wp (show_host (h_name h)) (\<lambda>x p'. x = h \<and> p' = p) (\<lambda>e. ?I) p"
    by (rule wp_mono[OF show_host_steady]) (use at st in auto)
  have gate: "wp (assertHostWritable M h) (\<lambda>x. ?I) (\<lambda>e. ?I) p"
    by (rule wp_mono[OF writable_steady]) (use st in auto)
  show ?thesis
    unfolding apply_firewall_def
    by (rule wp_seq[OF shown], elim conjE, hypsubst, rule wp_seq[OF gate], rule wp_seq[OF assertReady_keeps[OF recorded_checks]],
        assumption, rule wp_seq[OF target_recorded], assumption, elim conjE, rule wp_seq[OF ensure_recorded[OF laws]], assumption,
        assumption, elim conjE, rule send_done[OF laws])
qed

section \<open>Properties\<close>

text \<open>
  C33: Rules that were applied are the ones the inventory records, less the explicit rules for SSH, and
  the ruleset loaded on the host is the text they render to, with SSH kept open, if no line of it is
  the mark the script ends the ruleset with; that the script of the application writes and loads just
  that text is read off the script. An application that fails leaves the recorded intent as it was.
\<close>

theorem applied_firewall_recorded:
  assumes "nft_laws M h loads seen" and "host_at (h_name h) p = Some h"
    and "apply_firewall M tcpProbe (h_name h) rules accept p = (r, p')"
  shows "case r of
      Inr s \<Rightarrow> (\<exists>fw text. host_at (h_name h) p' = Some (h\<lparr>h_firewall := Some fw\<rparr>) \<and> hfw_rules fw = kept_rules h rules \<and>
        renderNftables (hfw_rules fw) (renderOpts h (or_default accept False)) = Inr text \<and>
        (heredoc_free text \<longrightarrow> snd (seen (pl_remote p')) = Some text) \<and>
        opt_ssh_always (renderOpts h (or_default accept False)))
    | Inl e \<Rightarrow> (\<exists>h'. host_at (h_name h) p' = Some h' \<and> h_firewall h' = h_firewall h)"
  using apply_done[OF assms(1,2), of tcpProbe rules accept] assms(3)
  by (auto simp: wp_def recorded_and_loaded_def recorded_def renderOpts_def split: sum.splits)

text \<open>
  Clearing trusts a probe that was not answered. When the session of the check that follows the
  clearing script is lost, the recorded intent is dropped although the table may well be loaded.
\<close>

theorem lost_probe_forgets_firewall:
  assumes "resolveSshTarget M h p = (Inr t, p)"
    and "mc_runner M ''ssh'' (sshArgs M t 10 @ [probe_command (sudoPrefix h)]) None (pl_remote p) = (x, pl_remote p)"
    and "ex_code x = 255" and "ex_stdout x = []" and "host_at (h_name h) p = Some h"
  shows "\<exists>p'. forget_firewall M n h p = (Inr (), p') \<and> host_at (h_name h) p' = Some (h\<lparr>h_firewall := None\<rparr>) \<and>
    pl_remote p' = pl_remote p"
proof -
  have none: "\<not> includes_str [] ''VOPS_ACTIVE''" by (simp add: includes_str_iff)
  have probe: "probe_firewall M h p = (Inr (False, False), p)"
    using assms(1-4) by (simp add: probe_firewall_def andThen_def ssh_run_def ssh_run_within_def on_remote_def ret_def includes_str_iff)
  show ?thesis
    using host_at_put[of "h_name h" "h\<lparr>h_firewall := None\<rparr>" p] assms(5)
    by (simp add: forget_firewall_def andThen_def catching_def probe update_host_def appendAudit_def modify_def ret_def
        host_at_def put_host_def)
qed

end
