(* ===== verification/Server_Firewall.thy ===== *)
theory Server_Firewall
  imports Host_Firewall
begin

text \<open>
  Firewalls at a provider (src/src/firewall/vops-firewall.service.ts) behind the gates of
  src/src/safety (ownership.ts, approval-gate.ts, vops-write-gate.service.ts), and the one surface
  over both engines (src/src/firewall/vops-server-firewall.service.ts). The provider's firewall
  interface, and how it bills, are parameters: the interface acts on the same remote state as
  \<open>ssh\<close> does.
\<close>

section \<open>Gates\<close>

definition MANAGED_PREFIX :: string where
  "MANAGED_PREFIX = ''vops-''"

definition isVopsManaged :: "string option \<Rightarrow> (string \<times> string) list \<Rightarrow> bool" where
  "isVopsManaged n labels \<longleftrightarrow> (case n of Some m \<Rightarrow> starts_with m MANAGED_PREFIX | None \<Rightarrow> False) \<or>
     list_ex (\<lambda>(k, v). k = ''managed-by'' \<and> v = ''vops'') labels"

definition assertVopsManaged :: "string \<Rightarrow> string option \<Rightarrow> (string \<times> string) list \<Rightarrow> ('r, unit) hact" where
  "assertVopsManaged kind n labels = (if isVopsManaged n labels then ret ()
     else throw (Forbidden (''Refusing to modify/delete '' @ kind @ '' '' @ quoted (or_default n ''?'') @
       '': it was not created by vops. Destructive actions are limited to vops-managed resources (name starts with '' @
       quoted MANAGED_PREFIX @ '').'')))"

record approval_request =
  areq_operation :: string
  areq_target :: string
  areq_approved :: bool
  areq_consequence :: "string option"
  areq_suggested :: "string option"

definition approvalRequired :: "approval_request \<Rightarrow> agent_error" where
  "approvalRequired req = agentError ''VOPS_APPROVAL_REQUIRED'' Cat_Approval
     (areq_operation req @ '' on '' @ quoted (areq_target req) @ '' has not been approved.'' @
       (case nonempty (areq_consequence req) of Some c \<Rightarrow> '' '' @ c | None \<Rightarrow> []))
     (Some False) (Some (or_default (areq_suggested req)
       ''Show the user what this changes, then re-run with --yes once they agree.''))"

definition assertApprovedInService :: "approval_request \<Rightarrow> ('r, unit) hact" where
  "assertApprovedInService req = (if areq_approved req then ret ()
     else throw (Agent_Bad_Request (approvalRequired req) Exit_Approval_Required))"

text \<open>The gate for writes at a provider: the policy of vops admits hourly billing only.\<close>

definition evaluateProvider :: "string \<Rightarrow> bool \<times> string option" where
  "evaluateProvider billing = (let allowed = (billing = ''hourly'') in
     (allowed, if allowed then None else Some (''Writes refused: provider is '' @ billing @
        ''-billed. vops only manages hourly-billed providers (cost-control policy).'')))"

definition assertProviderWritable :: "(provider \<Rightarrow> string) \<Rightarrow> provider \<Rightarrow> ('r, unit) hact" where
  "assertProviderWritable billing pr = (case evaluateProvider (billing pr) of (allowed, reason) \<Rightarrow>
     if \<not> allowed then throw (Bad_Request (or_default reason ''Writes not allowed.'')) else ret ())"

section \<open>Firewalls at a provider\<close>

record edge_firewall =
  ef_id :: string
  ef_name :: string
  ef_rules :: "fw_rule list"
  ef_labels :: "(string \<times> string) list"
  ef_applied :: "string list"

record 'r edge =
  ed_billing :: "provider \<Rightarrow> string"
  ed_list :: "provider \<Rightarrow> 'r \<Rightarrow> (failure + edge_firewall list) \<times> 'r"
  ed_get :: "provider \<Rightarrow> string \<Rightarrow> 'r \<Rightarrow> (failure + edge_firewall option) \<times> 'r"
  ed_create :: "provider \<Rightarrow> string \<Rightarrow> (string \<times> string) list \<Rightarrow> fw_rule list \<Rightarrow> string list \<Rightarrow> 'r \<Rightarrow> (failure + string) \<times> 'r"
  ed_update :: "provider \<Rightarrow> string \<Rightarrow> fw_rule list \<Rightarrow> 'r \<Rightarrow> (failure + unit) \<times> 'r"
  ed_delete :: "provider \<Rightarrow> string \<Rightarrow> 'r \<Rightarrow> (failure + unit) \<times> 'r"
  ed_attach :: "provider \<Rightarrow> string \<Rightarrow> string list \<Rightarrow> 'r \<Rightarrow> (failure + unit) \<times> 'r"
  ed_detach :: "provider \<Rightarrow> string \<Rightarrow> string list \<Rightarrow> 'r \<Rightarrow> (failure + unit) \<times> 'r"

definition jprovider :: "'r machine \<Rightarrow> provider \<Rightarrow> string \<times> json" where
  "jprovider M pr = (''provider'', JStr (mc_provider_text M pr))"

definition list_firewalls :: "'r machine \<Rightarrow> 'r edge \<Rightarrow> string \<Rightarrow> ('r, edge_firewall list) hact" where
  "list_firewalls M E name = andThen (resolve_provider M name) (\<lambda>pr. on_remote_or_fail (ed_list E pr))"

definition show_firewall :: "'r machine \<Rightarrow> 'r edge \<Rightarrow> string \<Rightarrow> string \<Rightarrow> ('r, edge_firewall option) hact" where
  "show_firewall M E name i = andThen (resolve_provider M name) (\<lambda>pr. on_remote_or_fail (ed_get E pr i))"

text \<open>\<open>assertConfirmed\<close> asks for the approval of one operation.\<close>

definition assertConfirmed :: "bool \<Rightarrow> string \<Rightarrow> string \<Rightarrow> string \<Rightarrow> ('r, unit) hact" where
  "assertConfirmed yes operation target consequence = assertApprovedInService
     \<lparr>areq_operation = operation, areq_target = target, areq_approved = yes, areq_consequence = Some consequence,
      areq_suggested = Some ''Show the user what this changes, then re-run with --yes once they agree - or --dry-run to preview it.''\<rparr>"

text \<open>The flags are \<open>dryRun\<close> and \<open>yes\<close>; a dry run gives no firewall.\<close>

definition create_firewall :: "'r machine \<Rightarrow> 'r edge \<Rightarrow> string \<Rightarrow> string \<Rightarrow> fw_rule list \<Rightarrow> string list \<Rightarrow> bool \<Rightarrow> bool \<Rightarrow>
    ('r, bool \<times> edge_firewall option) hact" where
  "create_firewall M E provider n rules serverIds dryRun yes =
     andThen (resolve_provider M provider) (\<lambda>pr.
     andThen (assertProviderWritable (ed_billing E) pr) (\<lambda>_.
     andThen (appendAudit ''firewall.create.request'' [jprovider M pr, (''name'', JStr n), (''dryRun'', JBool dryRun)]) (\<lambda>_.
     if dryRun then ret (True, None)
     else andThen (assertConfirmed yes ''Create firewall'' n (''It is created on the '' @ mc_provider_text M pr @ '' account.'')) (\<lambda>_.
       andThen (on_remote_or_fail (ed_create E pr n [(''managed-by'', ''vops'')] rules serverIds)) (\<lambda>i.
       andThen (appendAudit ''firewall.created'' [jprovider M pr, (''firewallId'', JStr i)]) (\<lambda>_.
       andThen (show_firewall M E provider i) (\<lambda>created. ret (False, created))))))))"

definition assertManaged :: "'r machine \<Rightarrow> 'r edge \<Rightarrow> string \<Rightarrow> string \<Rightarrow> ('r, unit) hact" where
  "assertManaged M E name i = andThen (resolve_provider M name) (\<lambda>pr.
     andThen (on_remote_or_fail (ed_get E pr i)) (\<lambda>fw. case fw of
       None \<Rightarrow> throw (Bad_Request (''Firewall '' @ quoted i @ '' not found on '' @ name @ ''.''))
     | Some f \<Rightarrow> assertVopsManaged ''firewall'' (Some (ef_name f)) (ef_labels f)))"

definition update_rules :: "'r machine \<Rightarrow> 'r edge \<Rightarrow> string \<Rightarrow> string \<Rightarrow> fw_rule list \<Rightarrow> ('r, unit) hact" where
  "update_rules M E name i rules = andThen (resolve_provider M name) (\<lambda>pr.
     andThen (assertProviderWritable (ed_billing E) pr) (\<lambda>_.
     andThen (assertManaged M E name i) (\<lambda>_.
     andThen (appendAudit ''firewall.rules.update'' [jprovider M pr, (''firewallId'', JStr i),
         (''ruleCount'', JNum (of_nat (length rules)))]) (\<lambda>_.
     on_remote_or_fail (ed_update E pr i rules)))))"

definition delete_firewall :: "'r machine \<Rightarrow> 'r edge \<Rightarrow> string \<Rightarrow> string \<Rightarrow> bool \<Rightarrow> bool \<Rightarrow> ('r, bool) hact" where
  "delete_firewall M E name i dryRun yes = andThen (resolve_provider M name) (\<lambda>pr.
     andThen (assertProviderWritable (ed_billing E) pr) (\<lambda>_.
     andThen (appendAudit ''firewall.delete.request'' [jprovider M pr, (''firewallId'', JStr i), (''dryRun'', JBool dryRun)]) (\<lambda>_.
     if dryRun then ret True
     else andThen (assertConfirmed yes ''Delete firewall'' i ''Every server it protects loses its rules.'') (\<lambda>_.
       andThen (assertManaged M E name i) (\<lambda>_.
       andThen (on_remote_or_fail (ed_delete E pr i)) (\<lambda>_. ret False))))))"

definition attach_firewall :: "'r machine \<Rightarrow> 'r edge \<Rightarrow> string \<Rightarrow> string \<Rightarrow> string list \<Rightarrow> ('r, unit) hact" where
  "attach_firewall M E name i serverIds = andThen (resolve_provider M name) (\<lambda>pr.
     andThen (assertProviderWritable (ed_billing E) pr) (\<lambda>_.
     andThen (appendAudit ''firewall.apply'' [jprovider M pr, (''firewallId'', JStr i), (''serverIds'', JArr (map JStr serverIds))]) (\<lambda>_.
     on_remote_or_fail (ed_attach E pr i serverIds))))"

definition detach_firewall :: "'r machine \<Rightarrow> 'r edge \<Rightarrow> string \<Rightarrow> string \<Rightarrow> string list \<Rightarrow> ('r, unit) hact" where
  "detach_firewall M E name i serverIds = andThen (resolve_provider M name) (\<lambda>pr.
     andThen (assertProviderWritable (ed_billing E) pr) (\<lambda>_.
     andThen (appendAudit ''firewall.remove'' [jprovider M pr, (''firewallId'', JStr i), (''serverIds'', JArr (map JStr serverIds))]) (\<lambda>_.
     on_remote_or_fail (ed_detach E pr i serverIds))))"

section \<open>One surface per server\<close>

datatype ceded = Ceded_Flui | Ceded_Provider

datatype detected_source = Det_Flui | Det_Other | Det_Provider

record detected_view =
  dv_source :: detected_source
  dv_active :: bool
  dv_persistent :: bool
  dv_services :: "fw_service list"
  dv_path :: "string option"
  dv_firewall :: "string option"
  dv_name :: "string option"

record server_view =
  sv_host :: string
  sv_engine :: engine
  sv_services :: "fw_service list"
  sv_ssh_always :: bool
  sv_active :: bool
  sv_persistent :: bool
  sv_ssh_port :: nat
  sv_applied_at :: "instant option"
  sv_firewall :: "string option"
  sv_applied_to :: "string list option"
  sv_detected :: "detected_view option"
  sv_ceded :: "ceded option"

definition engine_of :: "'r machine \<Rightarrow> host \<Rightarrow> engine" where
  "engine_of M h = resolveFirewallEngine (mc_provider_text M) (h_provider h) (h_ssh_managed h)"

definition firewallName :: "host \<Rightarrow> string" where
  "firewallName h = MANAGED_PREFIX @ h_name h"

definition sameServer :: "string \<Rightarrow> string option \<Rightarrow> bool" where
  "sameServer a b \<longleftrightarrow> (case nonempty b of None \<Rightarrow> False
     | Some b \<Rightarrow> a \<noteq> [] \<and> last (split_on CHR '':'' a) = last (split_on CHR '':'' b))"

definition guardsHost :: "edge_firewall \<Rightarrow> host \<Rightarrow> bool" where
  "guardsHost fw h \<longleftrightarrow> nonempty (h_provider_server h) \<noteq> None \<and> list_ex (\<lambda>s. sameServer s (h_provider_server h)) (ef_applied fw)"

definition blank_view :: "host \<Rightarrow> engine \<Rightarrow> server_view" where
  "blank_view h e = \<lparr>sv_host = h_name h, sv_engine = e, sv_services = [], sv_ssh_always = False, sv_active = False,
     sv_persistent = False, sv_ssh_port = h_port h, sv_applied_at = None, sv_firewall = None, sv_applied_to = None,
     sv_detected = None, sv_ceded = None\<rparr>"

definition view_nftables :: "'r machine \<Rightarrow> string \<Rightarrow> ('r, server_view) hact" where
  "view_nftables M n = andThen (firewall_status M n) (\<lambda>s.
     ret \<lparr>sv_host = n, sv_engine = Nftables_Engine,
          sv_services = rulesToServices (case fs_intended s of Some fw \<Rightarrow> hfw_rules fw | None \<Rightarrow> []),
          sv_ssh_always = True, sv_active = fs_active s, sv_persistent = fs_persistent s, sv_ssh_port = fs_ssh_port s,
          sv_applied_at = map_option hfw_applied_at (fs_intended s), sv_firewall = None, sv_applied_to = None,
          sv_detected = None, sv_ceded = None\<rparr>)"

text \<open>What the listing of the provider's firewalls says of a host.\<close>

definition provider_view :: "host \<Rightarrow> edge_firewall list \<Rightarrow> server_view" where
  "provider_view h fws =
     (let fw = find (\<lambda>f. ef_name f = firewallName h) fws;
          applied = (case fw of Some f \<Rightarrow> guardsHost f h | None \<Rightarrow> False);
          base = (blank_view h Provider_Engine)\<lparr>sv_services := rulesToServices (case fw of Some f \<Rightarrow> ef_rules f | None \<Rightarrow> []),
            sv_active := applied, sv_persistent := applied, sv_firewall := map_option ef_id fw,
            sv_applied_to := map_option ef_applied fw\<rparr>
      in if applied then base
         else (case find (\<lambda>f. ef_name f \<noteq> firewallName h \<and> guardsHost f h) fws of
           None \<Rightarrow> base
         | Some g \<Rightarrow> base\<lparr>sv_detected := Some \<lparr>dv_source = Det_Provider, dv_active = True, dv_persistent = True,
               dv_services = rulesToServices (ef_rules g), dv_path = None, dv_firewall = Some (ef_id g), dv_name = Some (ef_name g)\<rparr>,
             sv_ceded := Some Ceded_Provider\<rparr>))"

definition host_firewalls :: "'r machine \<Rightarrow> 'r edge \<Rightarrow> host \<Rightarrow> ('r, edge_firewall list) hact" where
  "host_firewalls M E h = (case nonempty (h_provider h) of Some pr \<Rightarrow> list_firewalls M E pr | None \<Rightarrow> ret [])"

definition view_provider :: "'r machine \<Rightarrow> 'r edge \<Rightarrow> host \<Rightarrow> ('r, server_view) hact" where
  "view_provider M E h = andThen (host_firewalls M E h) (\<lambda>fws. ret (provider_view h fws))"

definition view_base :: "'r machine \<Rightarrow> 'r edge \<Rightarrow> string \<Rightarrow> host \<Rightarrow> ('r, server_view) hact" where
  "view_base M E n h = (case engine_of M h of
       Nftables_Engine \<Rightarrow> view_nftables M n
     | Provider_Engine \<Rightarrow> view_provider M E h
     | No_Engine \<Rightarrow> ret ((blank_view h No_Engine)\<lparr>sv_host := n\<rparr>))"

definition withDetected :: "server_view \<Rightarrow> foreign_firewall option \<Rightarrow> engine \<Rightarrow> server_view" where
  "withDetected view detected e = (case detected of
       None \<Rightarrow> view
     | Some d \<Rightarrow> if \<not> ff_active d \<and> sv_detected view \<noteq> None then view
       else let v = view\<lparr>sv_detected := Some \<lparr>dv_source = (case ff_source d of Src_Flui \<Rightarrow> Det_Flui | Src_Other \<Rightarrow> Det_Other),
                dv_active = ff_active d, dv_persistent = ff_persistent d, dv_services = rulesToServices (ff_rules d),
                dv_path = ff_path d, dv_firewall = None, dv_name = None\<rparr>\<rparr>
            in if e = Nftables_Engine \<and> ff_source d = Src_Flui \<and> ff_active d then v\<lparr>sv_ceded := Some Ceded_Flui\<rparr> else v)"

definition detect_or_none :: "'r machine \<Rightarrow> (string \<Rightarrow> fw_rule list option) \<Rightarrow> string \<Rightarrow> ('r, foreign_firewall option) hact" where
  "detect_or_none M decode n = catching (detectForeign M decode n) (\<lambda>_. ret None)"

definition get_server_firewall :: "'r machine \<Rightarrow> 'r edge \<Rightarrow> (string \<Rightarrow> fw_rule list option) \<Rightarrow> string \<Rightarrow> ('r, server_view) hact" where
  "get_server_firewall M E decode n = andThen (show_host n) (\<lambda>h. andThen (detect_or_none M decode n) (\<lambda>detected.
     andThen (view_base M E n h) (\<lambda>base. ret (withDetected base detected (engine_of M h)))))"

text \<open>A listing that fails counts as an empty one here.\<close>

definition findForeignProviderFirewall :: "'r machine \<Rightarrow> 'r edge \<Rightarrow> host \<Rightarrow> ('r, edge_firewall option) hact" where
  "findForeignProviderFirewall M E h = (if nonempty (h_provider h) = None \<or> nonempty (h_provider_server h) = None then ret None
     else andThen (catching (host_firewalls M E h) (\<lambda>_. ret [])) (\<lambda>fws.
       if list_ex (\<lambda>f. ef_name f = firewallName h \<and> guardsHost f h) fws then ret None
       else ret (find (\<lambda>f. ef_name f \<noteq> firewallName h \<and> guardsHost f h) fws)))"

definition findManagedFirewall :: "'r machine \<Rightarrow> 'r edge \<Rightarrow> host \<Rightarrow> ('r, edge_firewall option) hact" where
  "findManagedFirewall M E h = andThen (host_firewalls M E h) (\<lambda>fws. ret (find (\<lambda>f. ef_name f = firewallName h) fws))"

definition update_managed :: "'r machine \<Rightarrow> 'r edge \<Rightarrow> host \<Rightarrow> string \<Rightarrow> fw_rule list \<Rightarrow> edge_firewall \<Rightarrow> ('r, unit) hact" where
  "update_managed M E h pr rules f =
     andThen (update_rules M E pr (ef_id f) (filter (\<lambda>r. \<not> isServiceRule r) (ef_rules f) @ rules)) (\<lambda>_.
     case nonempty (h_provider_server h) of
       Some i \<Rightarrow> if list_ex (\<lambda>s. sameServer s (h_provider_server h)) (ef_applied f) then ret ()
                else attach_firewall M E pr (ef_id f) [i]
     | None \<Rightarrow> ret ())"

definition applyProvider :: "'r machine \<Rightarrow> 'r edge \<Rightarrow> host \<Rightarrow> fw_rule list \<Rightarrow> ('r, unit) hact" where
  "applyProvider M E h rules = (case nonempty (h_provider h) of
       None \<Rightarrow> throw (Bad_Request (''Host '' @ quoted (h_name h) @ '' has no provider firewall to manage.''))
     | Some pr \<Rightarrow> andThen (findManagedFirewall M E h) (\<lambda>existing. case existing of
         Some f \<Rightarrow> update_managed M E h pr rules f
       | None \<Rightarrow> andThen (create_firewall M E pr (firewallName h) rules
           (case nonempty (h_provider_server h) of Some i \<Rightarrow> [i] | None \<Rightarrow> []) False True) (\<lambda>_. ret ())))"

definition clearProvider :: "'r machine \<Rightarrow> 'r edge \<Rightarrow> host \<Rightarrow> ('r, unit) hact" where
  "clearProvider M E h = andThen (findManagedFirewall M E h) (\<lambda>fw. case (fw, nonempty (h_provider h)) of
       (Some f, Some pr) \<Rightarrow>
         (let ids = rev (remdups (rev (ef_applied f @ (case nonempty (h_provider_server h) of Some i \<Rightarrow> [i] | None \<Rightarrow> [])))) in
          andThen (if ids \<noteq> [] then detach_firewall M E pr (ef_id f) ids else ret ()) (\<lambda>_.
          andThen (delete_firewall M E pr (ef_id f) False True) (\<lambda>_. ret ())))
     | _ \<Rightarrow> throw (Bad_Request (''vops has no firewall on '' @ quoted (h_name h) @ '' to clear.'')))"

definition set_server_firewall :: "'r machine \<Rightarrow> 'r edge \<Rightarrow> (string \<Rightarrow> fw_rule list option) \<Rightarrow>
    (string \<Rightarrow> nat \<Rightarrow> 'r \<Rightarrow> bool \<times> 'r) \<Rightarrow> string \<Rightarrow> fw_service list \<Rightarrow> ('r, server_view) hact" where
  "set_server_firewall M E decode tcpProbe n services = andThen (show_host n) (\<lambda>h.
     case firstServiceError services of
       Some invalid \<Rightarrow> throw (Bad_Request invalid)
     | None \<Rightarrow> let rules = servicesToRules services in (case engine_of M h of
         Nftables_Engine \<Rightarrow> andThen (detect_or_none M decode n) (\<lambda>foreign.
           if (case foreign of Some f \<Rightarrow> ff_source f = Src_Flui \<and> ff_active f | None \<Rightarrow> False)
           then throw (Bad_Request (''flui manages the host firewall on '' @ quoted n @
                  '' (nftables). vops won't apply a second, stacking ruleset - edit these rules in flui, or remove flui's firewall first.''))
           else andThen (apply_firewall M tcpProbe n rules (Some False)) (\<lambda>_. view_nftables M n))
       | Provider_Engine \<Rightarrow> andThen (findForeignProviderFirewall M E h) (\<lambda>foreign. case foreign of
           Some f \<Rightarrow> throw (Bad_Request (quoted (ef_name f) @ '' already guards '' @ quoted n @ '' at '' @ or_default (h_provider h) [] @
                  '', and vops didn't create it. vops won't attach a second firewall to the same server - edit it where it's managed, or detach it first.''))
         | None \<Rightarrow> if \<not> rulesAllowPort rules (h_port h)
             then throw (Bad_Request (''This would remove SSH (port '' @ show_nat (h_port h) @
                  '') from the provider firewall and lock you out. Keep SSH allowed.''))
             else andThen (applyProvider M E h rules) (\<lambda>_. view_provider M E h))
       | No_Engine \<Rightarrow> throw (Bad_Request (''No firewall engine for '' @ quoted n @
           '': it has no native firewall and no SSH management to run nftables.''))))"

definition clear_server_firewall :: "'r machine \<Rightarrow> 'r edge \<Rightarrow> (string \<Rightarrow> nat \<Rightarrow> 'r \<Rightarrow> bool \<times> 'r) \<Rightarrow> string \<Rightarrow> ('r, unit) hact" where
  "clear_server_firewall M E tcpProbe n = andThen (show_host n) (\<lambda>h. case engine_of M h of
       Nftables_Engine \<Rightarrow> clear_firewall M tcpProbe n
     | Provider_Engine \<Rightarrow> clearProvider M E h
     | No_Engine \<Rightarrow> throw (Bad_Request (''No firewall engine for '' @ quoted n @ ''.'')))"


section \<open>Reading: a guarded server is never shown as open\<close>

lemma find_guard: "f \<in> set fws \<Longrightarrow> P f \<Longrightarrow> \<exists>g. find P fws = Some g \<and> P g"
  by (induction fws) auto

lemma provider_view_guarded:
  assumes "distinct (map ef_name fws)" and "f \<in> set fws" and "guardsHost f h"
  shows "sv_active (provider_view h fws) \<or> (\<exists>d. sv_detected (provider_view h fws) = Some d \<and> dv_active d)"
proof (cases "ef_name f = firewallName h")
  case True
  then obtain g where g: "find (\<lambda>f. ef_name f = firewallName h) fws = Some g" "ef_name g = firewallName h"
    using find_guard[OF assms(2), of "\<lambda>f. ef_name f = firewallName h"] by auto
  then have "g \<in> set fws" by (auto simp: find_Some_iff)
  then have "g = f" using assms(1,2) True g(2) unfolding distinct_map by (metis inj_onD)
  then show ?thesis using g(1) assms(3) by (simp add: provider_view_def)
next
  case False
  then obtain g where "find (\<lambda>f. ef_name f \<noteq> firewallName h \<and> guardsHost f h) fws = Some g"
    using find_guard[OF assms(2), of "\<lambda>f. ef_name f \<noteq> firewallName h \<and> guardsHost f h"] assms(3) by auto
  then show ?thesis by (auto simp: provider_view_def Let_def split: if_splits)
qed

text \<open>
  A server that some firewall at the provider guards, whoever made it, is never shown as
  unprotected: the view says that vops's own is active or shows an active one it detected, also when
  an inactive ruleset was found on the host.
\<close>

theorem guarded_never_open:
  assumes "distinct (map ef_name fws)" and "f \<in> set fws" and "guardsHost f h"
  shows "sv_active (withDetected (provider_view h fws) detected e) \<or>
    (\<exists>d. sv_detected (withDetected (provider_view h fws) detected e) = Some d \<and> dv_active d)"
  using provider_view_guarded[OF assms]
  by (auto simp: withDetected_def Let_def split: option.splits if_splits)

section \<open>Writing: only what vops made\<close>

text \<open>
  What is relied on of the provider, \<open>made r p i\<close> being the name, labels and rules of a firewall: looking,
  attaching and detaching leave these alone, creating keeps what there is, and an update or a deletion reaches
  the named firewall only.
\<close>

type_synonym 'r makings = "'r \<Rightarrow> provider \<Rightarrow> string \<Rightarrow> (string \<times> (string \<times> string) list \<times> fw_rule list) option"

definition edge_laws :: "'r edge \<Rightarrow> 'r makings \<Rightarrow> bool" where
  "edge_laws E made \<longleftrightarrow>
     (\<forall>pr r. made (snd (ed_list E pr r)) = made r) \<and>
     (\<forall>pr i r. made (snd (ed_get E pr i r)) = made r) \<and>
     (\<forall>pr i r f. fst (ed_get E pr i r) = Inr (Some f) \<longrightarrow> (\<exists>rs. made r pr i = Some (ef_name f, ef_labels f, rs))) \<and>
     (\<forall>pr n ls rs ids r pr' i v. made r pr' i = Some v \<longrightarrow> made (snd (ed_create E pr n ls rs ids r)) pr' i = Some v) \<and>
     (\<forall>pr i rs r pr' i'. (pr', i') \<noteq> (pr, i) \<longrightarrow> made (snd (ed_update E pr i rs r)) pr' i' = made r pr' i') \<and>
     (\<forall>pr i r pr' i'. (pr', i') \<noteq> (pr, i) \<longrightarrow> made (snd (ed_delete E pr i r)) pr' i' = made r pr' i') \<and>
     (\<forall>pr i ids r. made (snd (ed_attach E pr i ids r)) = made r) \<and>
     (\<forall>pr i ids r. made (snd (ed_detach E pr i ids r)) = made r)"

text \<open>Everybody else's firewalls are as they were in \<open>r0\<close>.\<close>

definition foreign_kept :: "'r makings \<Rightarrow> 'r \<Rightarrow> 'r plane \<Rightarrow> bool" where
  "foreign_kept made r0 p \<longleftrightarrow> (\<forall>pr i n ls rs. made r0 pr i = Some (n, ls, rs) \<and> \<not> isVopsManaged (Some n) ls \<longrightarrow>
     made (pl_remote p) pr i = Some (n, ls, rs))"

lemma foreign_frame [simp]: "foreign_kept made r0 (p\<lparr>pl_audit := a\<rparr>) = foreign_kept made r0 p"
  by (simp add: foreign_kept_def)

text \<open>After the ownership check the firewall is none of the foreign ones.\<close>

definition not_foreign :: "'r makings \<Rightarrow> 'r \<Rightarrow> provider \<Rightarrow> string \<Rightarrow> bool" where
  "not_foreign made r0 pr i \<longleftrightarrow> (\<forall>n ls rs. made r0 pr i = Some (n, ls, rs) \<longrightarrow> isVopsManaged (Some n) ls)"

abbreviation kept_through :: "'r makings \<Rightarrow> 'r \<Rightarrow> ('r, 'a) hact \<Rightarrow> 'r plane \<Rightarrow> bool" where
  "kept_through made r0 m p \<equiv> through (foreign_kept made r0) m p"

lemma edge_lawsD:
  assumes "edge_laws E made"
  shows "made (snd (ed_list E pr r)) = made r" and "made (snd (ed_get E pr i r)) = made r"
    and "made (snd (ed_attach E pr i ids r)) = made r" and "made (snd (ed_detach E pr i ids r)) = made r"
    and "fst (ed_get E pr i r) = Inr (Some f) \<Longrightarrow> \<exists>rs. made r pr i = Some (ef_name f, ef_labels f, rs)"
    and "made r pr' i' = Some v \<Longrightarrow> made (snd (ed_create E pr n ls rs ids r)) pr' i' = Some v"
    and "(pr', i') \<noteq> (pr, i) \<Longrightarrow> made (snd (ed_update E pr i rs r)) pr' i' = made r pr' i'"
    and "(pr', i') \<noteq> (pr, i) \<Longrightarrow> made (snd (ed_delete E pr i r)) pr' i' = made r pr' i'"
  using assms unfolding edge_laws_def by (cases v, simp del: prod.inject)+

lemma wp_or_fail: "wp (on_remote_or_fail f) Q E p \<longleftrightarrow> (case fst (f (pl_remote p)) of
    Inr x \<Rightarrow> Q x (p\<lparr>pl_remote := snd (f (pl_remote p))\<rparr>) | Inl e \<Rightarrow> E e (p\<lparr>pl_remote := snd (f (pl_remote p))\<rparr>))"
  unfolding wp_on_remote_or_fail by (cases "f (pl_remote p)") (auto split: sum.split)

lemma kept_resolve: "foreign_kept made r0 p \<Longrightarrow> kept_through made r0 (resolve_provider M n) p"
  by (simp add: resolve_provider_def wp_simps split: option.split)

lemma kept_gate: "foreign_kept made r0 p \<Longrightarrow> kept_through made r0 (assertProviderWritable b pr) p"
  by (simp add: assertProviderWritable_def wp_simps split: prod.split)

lemma kept_audit: "foreign_kept made r0 p \<Longrightarrow> kept_through made r0 (appendAudit w d) p"
  by (simp add: appendAudit_def wp_simps)

lemma kept_confirm: "foreign_kept made r0 p \<Longrightarrow> kept_through made r0 (assertConfirmed y a b c) p"
  by (simp add: assertConfirmed_def assertApprovedInService_def wp_simps)

lemma kept_remote:
  assumes "foreign_kept made r0 p"
    and "\<And>pr i v. made (pl_remote p) pr i = Some v \<Longrightarrow> \<not> not_foreign made r0 pr i \<Longrightarrow> made (snd (f (pl_remote p))) pr i = Some v"
  shows "kept_through made r0 (on_remote_or_fail f) p"
proof -
  have "foreign_kept made r0 (p\<lparr>pl_remote := snd (f (pl_remote p))\<rparr>)"
    using assms unfolding foreign_kept_def not_foreign_def by fastforce
  then show ?thesis by (simp add: wp_or_fail split: sum.split)
qed

lemma kept_remote_at:
  assumes "foreign_kept made r0 p" and "not_foreign made r0 pr i"
    and "\<And>pr' i'. (pr', i') \<noteq> (pr, i) \<Longrightarrow> made (snd (f (pl_remote p))) pr' i' = made (pl_remote p) pr' i'"
  shows "kept_through made r0 (on_remote_or_fail f) p"
proof (rule kept_remote[OF assms(1)])
  fix pr' i' v assume v: "made (pl_remote p) pr' i' = Some v" and "\<not> not_foreign made r0 pr' i'"
  then have "(pr', i') \<noteq> (pr, i)" using assms(2) by auto
  then show "made (snd (f (pl_remote p))) pr' i' = Some v" using v assms(3) by simp
qed

lemma kept_list:
  assumes "edge_laws E made" and "foreign_kept made r0 p"
  shows "kept_through made r0 (list_firewalls M E n) p"
  unfolding list_firewalls_def
  by (rule wp_seq[OF kept_resolve[OF assms(2)]], rule kept_remote) (simp_all add: edge_lawsD[OF assms(1)])

lemma kept_show:
  assumes "edge_laws E made" and "foreign_kept made r0 p"
  shows "kept_through made r0 (show_firewall M E n i) p"
  unfolding show_firewall_def
  by (rule wp_seq[OF kept_resolve[OF assms(2)]], rule kept_remote) (simp_all add: edge_lawsD[OF assms(1)])

lemma kept_create:
  assumes "edge_laws E made" and "foreign_kept made r0 p"
  shows "kept_through made r0 (create_firewall M E n m rules ids dryRun yes) p"
proof -
  have create: "kept_through made r0 (on_remote_or_fail (ed_create E pr m ls rules ids)) p'" if "foreign_kept made r0 p'" for pr ls p'
    by (rule kept_remote[OF that]) (simp add: edge_lawsD[OF assms(1)])
  show ?thesis
    unfolding create_firewall_def
    by (rule wp_seq[OF kept_resolve[OF assms(2)]], rule wp_seq[OF kept_gate], assumption, rule wp_seq[OF kept_audit], assumption,
        rule wp_ifI, simp add: wp_ret, rule wp_seq[OF kept_confirm], assumption, rule wp_seq[OF create], assumption,
        rule wp_seq[OF kept_audit], assumption, rule wp_seq[OF kept_show[OF assms(1)]], assumption) (simp add: wp_ret)
qed

lemma kept_attach:
  assumes "edge_laws E made" and "foreign_kept made r0 p"
  shows "kept_through made r0 (attach_firewall M E n i ids) p" and "kept_through made r0 (detach_firewall M E n i ids) p"
  unfolding attach_firewall_def detach_firewall_def
  by (rule wp_seq[OF kept_resolve[OF assms(2)]], rule wp_seq[OF kept_gate], assumption, rule wp_seq[OF kept_audit], assumption,
      rule kept_remote, assumption, simp add: edge_lawsD[OF assms(1)])+

lemma resolve_same: "wp (resolve_provider M n) (\<lambda>pr p'. p' = p \<and> resolveProvider (mc_provider_text M) n = Some pr) (\<lambda>e p'. p' = p) p"
  by (simp add: resolve_provider_def wp_simps split: option.split)

lemma managed_checked:
  assumes laws: "edge_laws E made" and st: "foreign_kept made r0 p" and pr: "resolveProvider (mc_provider_text M) n = Some pr"
  shows "wp (assertManaged M E n i) (\<lambda>x p'. foreign_kept made r0 p' \<and> not_foreign made r0 pr i) (\<lambda>e. foreign_kept made r0) p"
proof -
  have get: "wp (on_remote_or_fail (ed_get E pr i))
      (\<lambda>fw p'. foreign_kept made r0 p' \<and> (\<forall>f. fw = Some f \<longrightarrow> (\<exists>rs. made (pl_remote p) pr i = Some (ef_name f, ef_labels f, rs))))
      (\<lambda>e. foreign_kept made r0) p"
    using st edge_lawsD(5)[OF laws] by (auto simp: wp_or_fail foreign_kept_def edge_lawsD(2)[OF laws] split: sum.split)
  have own: "wp (case fw of None \<Rightarrow> throw (Bad_Request m)
     | Some f \<Rightarrow> assertVopsManaged k (Some (ef_name f)) (ef_labels f))
      (\<lambda>x p'. foreign_kept made r0 p' \<and> not_foreign made r0 pr i) (\<lambda>e. foreign_kept made r0) p'"
    if kept: "foreign_kept made r0 p'" and fw: "\<forall>f. fw = Some f \<longrightarrow> (\<exists>rs. made (pl_remote p) pr i = Some (ef_name f, ef_labels f, rs))"
    for fw m k p'
  proof (cases fw)
    case None
    then show ?thesis using kept by (simp add: wp_throw)
  next
    case (Some f)
    then obtain rs where f: "made (pl_remote p) pr i = Some (ef_name f, ef_labels f, rs)" using fw by blast
    have "not_foreign made r0 pr i" if "isVopsManaged (Some (ef_name f)) (ef_labels f)"
      unfolding not_foreign_def
    proof (intro allI impI, rule ccontr)
      fix n ls rs' assume "made r0 pr i = Some (n, ls, rs')" and "\<not> isVopsManaged (Some n) ls"
      then have "made (pl_remote p) pr i = Some (n, ls, rs')" using st by (simp add: foreign_kept_def)
      then show False using f that \<open>\<not> isVopsManaged (Some n) ls\<close> by simp
    qed
    then show ?thesis using Some kept by (simp add: assertVopsManaged_def wp_if wp_ret wp_throw)
  qed
  have resolved: "wp (resolve_provider M n) (\<lambda>x p'. x = pr \<and> p' = p) (\<lambda>e. foreign_kept made r0) p"
    by (rule wp_mono[OF resolve_same]) (use pr st in auto)
  show ?thesis
    unfolding assertManaged_def
    by (rule wp_seq[OF resolved], elim conjE, hypsubst, rule wp_seq[OF get], elim conjE, rule own)
qed


lemma kept_update:
  assumes laws: "edge_laws E made" and st: "foreign_kept made r0 p"
  shows "kept_through made r0 (update_rules M E n i rules) p"
proof -
  have update: "kept_through made r0 (on_remote_or_fail (ed_update E pr i rules)) p'"
    if "foreign_kept made r0 p'" and "not_foreign made r0 pr i" for pr p'
    by (rule kept_remote_at[OF that]) (rule edge_lawsD(7)[OF laws])
  have gate: "wp (assertProviderWritable b pr) (\<lambda>x. foreign_kept made r0) (\<lambda>e. foreign_kept made r0) p'"
    if "foreign_kept made r0 p'" for b pr p' by (rule kept_gate[OF that])
  show ?thesis
    unfolding update_rules_def
  proof (rule wp_seq[OF wp_mono[OF resolve_same]], assumption, use st in simp, elim conjE, hypsubst)
    fix pr assume pr: "resolveProvider (mc_provider_text M) n = Some pr"
    show "kept_through made r0 (andThen (assertProviderWritable (ed_billing E) pr) (\<lambda>_.
     andThen (assertManaged M E n i) (\<lambda>_.
     andThen (appendAudit ''firewall.rules.update'' [jprovider M pr, (''firewallId'', JStr i),
         (''ruleCount'', JNum (of_nat (length rules)))]) (\<lambda>_. on_remote_or_fail (ed_update E pr i rules))))) p"
      by (rule wp_seq[OF gate[OF st]], rule wp_seq[OF managed_checked[OF laws _ pr]], assumption, elim conjE,
          rule wp_seq[OF kept_audit], assumption, rule update)
  qed
qed

lemma kept_delete:
  assumes laws: "edge_laws E made" and st: "foreign_kept made r0 p"
  shows "kept_through made r0 (delete_firewall M E n i dryRun yes) p"
proof -
  have delete: "kept_through made r0 (on_remote_or_fail (ed_delete E pr i)) p'"
    if "foreign_kept made r0 p'" and "not_foreign made r0 pr i" for pr p'
    by (rule kept_remote_at[OF that]) (rule edge_lawsD(8)[OF laws])
  show ?thesis
    unfolding delete_firewall_def
  proof (rule wp_seq[OF wp_mono[OF resolve_same]], assumption, use st in simp, elim conjE, hypsubst)
    fix pr assume pr: "resolveProvider (mc_provider_text M) n = Some pr"
    show "kept_through made r0 (andThen (assertProviderWritable (ed_billing E) pr) (\<lambda>_.
     andThen (appendAudit ''firewall.delete.request'' [jprovider M pr, (''firewallId'', JStr i), (''dryRun'', JBool dryRun)]) (\<lambda>_.
     if dryRun then ret True
     else andThen (assertConfirmed yes ''Delete firewall'' i ''Every server it protects loses its rules.'') (\<lambda>_.
       andThen (assertManaged M E n i) (\<lambda>_. andThen (on_remote_or_fail (ed_delete E pr i)) (\<lambda>_. ret False)))))) p"
      by (rule wp_seq[OF kept_gate[OF st]], rule wp_seq[OF kept_audit], assumption, rule wp_ifI, simp add: wp_ret,
          rule wp_seq[OF kept_confirm], assumption, rule wp_seq[OF managed_checked[OF laws _ pr]], assumption, elim conjE,
          rule wp_seq[OF delete], assumption, assumption) (simp add: wp_ret)
  qed
qed

lemma kept_host_list:
  assumes "edge_laws E made" and "foreign_kept made r0 p"
  shows "kept_through made r0 (host_firewalls M E h) p"
  using kept_list[OF assms] assms(2) by (simp add: host_firewalls_def wp_ret split: option.split)

lemma kept_find:
  assumes "edge_laws E made" and "foreign_kept made r0 p"
  shows "kept_through made r0 (findManagedFirewall M E h) p"
  unfolding findManagedFirewall_def by (rule wp_seq[OF kept_host_list[OF assms]]) (simp add: wp_ret)

lemma kept_update_managed:
  assumes laws: "edge_laws E made" and st: "foreign_kept made r0 p"
  shows "kept_through made r0 (update_managed M E h pr rules f) p"
  unfolding update_managed_def
  by (rule wp_seq[OF kept_update[OF laws st]]) (auto simp: wp_ret kept_attach[OF laws] split: option.split)

lemma kept_apply:
  assumes laws: "edge_laws E made" and st: "foreign_kept made r0 p"
  shows "kept_through made r0 (applyProvider M E h rules) p"
proof -
  have create: "kept_through made r0 (andThen (create_firewall M E pr a rules b False True) (\<lambda>_. ret ())) p'"
    if "foreign_kept made r0 p'" for pr a b p'
    by (rule wp_seq[OF kept_create[OF laws that]]) (simp add: wp_ret)
  have go: "kept_through made r0 (andThen (findManagedFirewall M E h) (\<lambda>existing. case existing of
         Some f \<Rightarrow> update_managed M E h pr rules f
       | None \<Rightarrow> andThen (create_firewall M E pr a rules b False True) (\<lambda>_. ret ()))) p" for pr a b
    by (rule wp_seq[OF kept_find[OF laws st]]) (auto simp: create kept_update_managed[OF laws] split: option.split)
  show ?thesis using go st by (simp add: applyProvider_def wp_throw split: option.split)
qed

lemma kept_clear:
  assumes laws: "edge_laws E made" and st: "foreign_kept made r0 p"
  shows "kept_through made r0 (clearProvider M E h) p"
proof -
  have go: "kept_through made r0 (andThen (if ids \<noteq> [] then detach_firewall M E pr i ids else ret ()) (\<lambda>_.
          andThen (delete_firewall M E pr i False True) (\<lambda>_. ret ()))) p'" if p': "foreign_kept made r0 p'" for ids pr i p'
  proof -
    have "kept_through made r0 (if ids \<noteq> [] then detach_firewall M E pr i ids else ret ()) p'"
      using kept_attach(2)[OF laws p'] p' by (simp add: wp_ret)
    then show ?thesis
      by (rule wp_seq) (rule wp_seq[OF kept_delete[OF laws]], assumption, simp add: wp_ret)
  qed
  show ?thesis
    unfolding clearProvider_def Let_def
  proof (rule wp_seq[OF kept_find[OF laws st]])
    fix fw :: "edge_firewall option" and p' assume p': "foreign_kept made r0 p'"
    show "kept_through made r0 (case (fw, nonempty (h_provider h)) of
       (Some f, Some pr) \<Rightarrow>
          andThen (if rev (remdups (rev (ef_applied f @ (case nonempty (h_provider_server h) of Some i \<Rightarrow> [i] | None \<Rightarrow> [])))) \<noteq> []
            then detach_firewall M E pr (ef_id f)
              (rev (remdups (rev (ef_applied f @ (case nonempty (h_provider_server h) of Some i \<Rightarrow> [i] | None \<Rightarrow> [])))))
            else ret ()) (\<lambda>_. andThen (delete_firewall M E pr (ef_id f) False True) (\<lambda>_. ret ()))
     | _ \<Rightarrow> throw (Bad_Request (''vops has no firewall on '' @ quoted (h_name h) @ '' to clear.''))) p'"
      by (cases fw; cases "nonempty (h_provider h)") (simp_all only: prod.case option.case wp_throw p' go)
  qed
qed

lemma kept_view:
  assumes "edge_laws E made" and "foreign_kept made r0 p"
  shows "kept_through made r0 (view_provider M E h) p"
  unfolding view_provider_def by (rule wp_seq[OF kept_host_list[OF assms]]) (simp add: wp_ret)

lemma kept_foreign:
  assumes "edge_laws E made" and "foreign_kept made r0 p"
  shows "kept_through made r0 (findForeignProviderFirewall M E h) p"
proof -
  have listed: "kept_through made r0 (catching (host_firewalls M E h) (\<lambda>_. ret [])) p"
    unfolding wp_catching by (rule wp_mono[OF kept_host_list[OF assms]]) (simp_all add: wp_ret)
  show ?thesis
    unfolding findForeignProviderFirewall_def
    by (rule wp_ifI, simp add: wp_ret assms(2), rule wp_seq[OF listed]) (simp add: wp_if wp_ret)
qed


text \<open>
  C10: Whatever is asked of the provider's firewalls, creating, changing rules, deleting, or setting and
  clearing the firewall of a server, and however it ends, every firewall that vops did not make,
  by name or by label, keeps its name, its labels and its rules.
\<close>

theorem foreign_firewalls_kept:
  assumes "edge_laws E made" and "made (pl_remote p) pr i = Some (n, ls, rs)" and "\<not> isVopsManaged (Some n) ls"
  shows "made (pl_remote (snd (create_firewall M E pn m rules ids dryRun yes p))) pr i = Some (n, ls, rs) \<and>
    made (pl_remote (snd (update_rules M E pn j rules p))) pr i = Some (n, ls, rs) \<and>
    made (pl_remote (snd (delete_firewall M E pn j dryRun yes p))) pr i = Some (n, ls, rs) \<and>
    made (pl_remote (snd (applyProvider M E h rules p))) pr i = Some (n, ls, rs) \<and>
    made (pl_remote (snd (clearProvider M E h p))) pr i = Some (n, ls, rs)"
proof -
  have "foreign_kept made (pl_remote p) p" by (simp add: foreign_kept_def)
  note st = this
  have out: "foreign_kept made (pl_remote p) p' \<Longrightarrow> made (pl_remote p') pr i = Some (n, ls, rs)" for p'
    using assms(2,3) by (simp add: foreign_kept_def)
  show ?thesis
    using kept_create[OF assms(1) st, THEN wp_state[THEN iffD1]] kept_update[OF assms(1) st, THEN wp_state[THEN iffD1]]
      kept_delete[OF assms(1) st, THEN wp_state[THEN iffD1]] kept_apply[OF assms(1) st, THEN wp_state[THEN iffD1]]
      kept_clear[OF assms(1) st, THEN wp_state[THEN iffD1]]
    by (intro conjI out)
qed

text \<open>
  Detaching a firewall from servers asks nothing about who made it: with a provider vops may
  write to, the request for any firewall reaches the provider as it is.
\<close>

theorem detach_ignores_ownership:
  assumes "resolveProvider (mc_provider_text M) n = Some pr" and "ed_billing E pr = ''hourly''"
  shows "\<exists>a. detach_firewall M E n i ids p = on_remote_or_fail (ed_detach E pr i ids) (p\<lparr>pl_audit := a # pl_audit p\<rparr>)"
  by (rule exI[of _ "(''firewall.remove'', JObj [jprovider M pr, (''firewallId'', JStr i), (''serverIds'', JArr (map JStr ids))])"])
     (use assms in \<open>simp add: detach_firewall_def resolve_provider_def andThen_def ret_def assertProviderWritable_def
        evaluateProvider_def appendAudit_def modify_def\<close>)

text \<open>
  A rule set reaches a provider's firewall through the one surface only if it keeps the SSH port
  open, and only while no listed firewall of somebody else's guards the server: otherwise the request
  is refused and nothing at the provider changes.
\<close>

theorem provider_set_guarded:
  assumes "host_at n p = Some h" and "engine_of M h = Provider_Engine" and "firstServiceError services = None"
    and "findForeignProviderFirewall M E h p = (Inr foreign, p1)"
    and "foreign \<noteq> None \<or> \<not> rulesAllowPort (servicesToRules services) (h_port h)"
  shows "\<exists>m. set_server_firewall M E decode tcpProbe n services p = (Inl (Bad_Request m), p1)"
proof -
  have s: "show_host n p = (Inr h, p)"
    using assms(1) by (simp add: show_host_def get_host_def andThen_def gets_def ret_def)
  show ?thesis
    using assms(2-5) by (cases foreign) (auto simp: set_server_firewall_def s andThen_def throw_def Let_def)
qed

end
