(* ===== verification/Core_Executor.thy ===== *)
theory Core_Executor
  imports Action_Broker Server_Firewall "HOL-Library.List_Lexorder" "HOL-Library.Char_ord"
begin

text \<open>
  The executor of the capabilities (src/src/agent-control/core-action-executor.ts): which service
  a capability calls and with what, the checks of paths against the session's repository, the
  booking of the spend before a server is made. The services behind it, the file system and the
  conversions to numbers are parameters; they do not write the store of the agent's sessions, and
  may answer differently as it grows.
\<close>

section \<open>Paths\<close>

definition segments :: "string \<Rightarrow> string list" where
  "segments p = filter (\<lambda>s. s \<noteq> []) (split_on CHR ''/'' p)"

fun normal_from :: "string list \<Rightarrow> string list \<Rightarrow> string list" where
  "normal_from acc [] = acc"
| "normal_from acc (s # ss) = (if s = ''.'' then normal_from acc ss
     else if s = ''..'' then normal_from (butlast acc) ss
     else normal_from (acc @ [s]) ss)"

definition normal :: "string \<Rightarrow> string list" where
  "normal p = normal_from [] (segments p)"

definition path_text :: "string list \<Rightarrow> string" where
  "path_text ss = CHR ''/'' # join ''/'' ss"

text \<open>\<open>path.resolve(base, file)\<close> under an absolute base, and \<open>path.relative\<close>.\<close>

definition path_resolve :: "string \<Rightarrow> string \<Rightarrow> string" where
  "path_resolve base file = path_text (if starts_with file ''/'' then normal file else normal_from (normal base) (segments file))"

fun drop_common :: "string list \<Rightarrow> string list \<Rightarrow> string list \<times> string list" where
  "drop_common (a # as) (b # bs) = (if a = b then drop_common as bs else (a # as, b # bs))"
| "drop_common as bs = (as, bs)"

definition path_relative :: "string \<Rightarrow> string \<Rightarrow> string" where
  "path_relative a b = (case drop_common (normal a) (normal b) of (up, down) \<Rightarrow> join ''/'' (map (\<lambda>_. ''..'') up @ down))"

definition assertPathInside :: "string \<Rightarrow> string \<Rightarrow> exn + string" where
  "assertPathInside base candidate =
     (let relative = path_relative base candidate in
      if starts_with relative ''..'' \<or> starts_with relative ''/''
      then Inl (control Scope_Denied (''Path '' @ quoted candidate @ '' is outside the session repository.'') Err_Denied False No_Detail)
      else Inr candidate)"

definition assertRepoFile :: "session \<Rightarrow> string \<Rightarrow> exn + string" where
  "assertRepoFile s file = assertPathInside (ses_repo_path s) (path_resolve (ses_repo_path s) file)"

section \<open>Inputs\<close>

type_synonym input = "(string \<times> json) list"

fun js_text :: "host_lib \<Rightarrow> json \<Rightarrow> string" where
  "js_text L JNull = ''null''"
| "js_text L (JBool b) = (if b then ''true'' else ''false'')"
| "js_text L (JNum n) = num_text L n"
| "js_text L (JStr s) = s"
| "js_text L (JArr xs) = join '','' (map (\<lambda>x. if x = JNull then [] else js_text L x) xs)"
| "js_text L (JObj kvs) = ''[object Object]''"

definition text_of :: "host_lib \<Rightarrow> input \<Rightarrow> string \<Rightarrow> string" where
  "text_of L i k = (case map_of i k of None \<Rightarrow> ''undefined'' | Some v \<Rightarrow> js_text L v)"

fun truthy :: "json \<Rightarrow> bool" where
  "truthy JNull = False"
| "truthy (JBool b) = b"
| "truthy (JNum n) = (n \<noteq> 0)"
| "truthy (JStr s) = (s \<noteq> [])"
| "truthy (JArr xs) = True"
| "truthy (JObj kvs) = True"

definition set_in :: "input \<Rightarrow> string \<Rightarrow> bool" where
  "set_in i k \<longleftrightarrow> (case map_of i k of None \<Rightarrow> False | Some v \<Rightarrow> truthy v)"

text \<open>\<open>input.k ? String(input.k) : undefined\<close>, \<open>String(input.k ?? d)\<close> and \<open>Boolean\<close> when given.\<close>

definition opt_text :: "host_lib \<Rightarrow> input \<Rightarrow> string \<Rightarrow> string option" where
  "opt_text L i k = (if set_in i k then Some (text_of L i k) else None)"

definition text_or :: "host_lib \<Rightarrow> input \<Rightarrow> string \<Rightarrow> string \<Rightarrow> string" where
  "text_or L i k d = (case map_of i k of None \<Rightarrow> d | Some JNull \<Rightarrow> d | Some v \<Rightarrow> js_text L v)"

definition opt_bool :: "input \<Rightarrow> string \<Rightarrow> bool option" where
  "opt_bool i k = map_option truthy (map_of i k)"

definition texts :: "host_lib \<Rightarrow> input \<Rightarrow> string \<Rightarrow> string list option" where
  "texts L i k = (case map_of i k of Some (JArr xs) \<Rightarrow> Some (map (js_text L) xs) | _ \<Rightarrow> None)"

text \<open>The application and the host it runs on.\<close>

definition appRef :: "input \<Rightarrow> exn + (string \<times> string option)" where
  "appRef i = (case map_of i ''name'' of
       Some (JStr n) \<Rightarrow> if n \<noteq> [] then Inr (n, case map_of i ''host'' of Some (JStr h) \<Rightarrow> nonempty (Some h) | _ \<Rightarrow> None)
         else Inl (control Plan_Invalid ''An application name is required.'' Err_Failed False No_Detail)
     | _ \<Rightarrow> Inl (control Plan_Invalid ''An application name is required.'' Err_Failed False No_Detail))"

section \<open>Services\<close>

record provision_plan =
  pp_monthly :: "rat option"
  pp_hourly :: "rat option"
  pp_content :: json

record deploy_request =
  dr_project :: string
  dr_spec :: string
  dr_host :: string
  dr_image :: "string option"
  dr_name :: "string option"
  dr_domain :: "string option"
  dr_tls :: "bool option"
  dr_staging :: "bool option"
  dr_auth :: "string option"
  dr_public :: "bool option"

text \<open>An answer is read off the state of the agent's store, which grows with every step.\<close>

type_synonym 'a answer = "world \<Rightarrow> exn + 'a"

datatype entry_kind = Is_File | Is_Directory | Is_Other

record services =
  cs_number :: "json \<Rightarrow> rat option"
  cs_realpath :: "string \<Rightarrow> string answer"
  cs_entries :: "string \<Rightarrow> (string \<times> entry_kind) list answer"
  cs_read_file :: "string \<Rightarrow> string answer"
  cs_read_plan :: "string \<Rightarrow> provision_plan answer"
  cs_spec_generate :: "string \<Rightarrow> string \<Rightarrow> string \<Rightarrow> bool \<Rightarrow> json answer"
  cs_spec_validate :: "string \<Rightarrow> json answer"
  cs_catalog_list :: "string option \<Rightarrow> json answer"
  cs_catalog_describe :: "string \<Rightarrow> json answer"
  cs_catalog_compare :: "rat option option \<Rightarrow> rat option option \<Rightarrow> bool \<Rightarrow> (string \<times> json) list answer"
  cs_apps_install :: "string \<Rightarrow> string \<Rightarrow> string option \<Rightarrow> bool option \<Rightarrow> json answer"
  cs_apps_status :: "string \<Rightarrow> string option \<Rightarrow> json answer"
  cs_apps_restart :: "string \<Rightarrow> string option \<Rightarrow> json answer"
  cs_apps_logs :: "string \<Rightarrow> rat option \<Rightarrow> string option \<Rightarrow> string answer"
  cs_agent_plan :: "deploy_request \<Rightarrow> json answer"
  cs_agent_apply :: "string \<Rightarrow> string \<Rightarrow> json answer"
  cs_agent_verify :: "string \<Rightarrow> string option \<Rightarrow> json answer"
  cs_providers :: "json answer"
  cs_hosts :: "(string \<times> json) list answer"
  cs_host_show :: "string \<Rightarrow> json answer"
  cs_host_status :: "string \<Rightarrow> json answer"
  cs_servers :: "string \<Rightarrow> json answer"
  cs_server_show :: "string \<Rightarrow> string \<Rightarrow> json answer"
  cs_server_create :: "provision_plan \<Rightarrow> json answer"
  cs_server_delete :: "string \<Rightarrow> string \<Rightarrow> unit answer"
  cs_harden :: "string \<Rightarrow> string option \<Rightarrow> string list option \<Rightarrow> json answer"
  cs_firewall_get :: "string \<Rightarrow> (json \<times> fw_service list) answer"
  cs_firewall_set :: "string \<Rightarrow> fw_service list \<Rightarrow> json answer"

definition call :: "'a answer \<Rightarrow> 'a act" where
  "call f = andThen (gets f) (\<lambda>r. case r of Inl e \<Rightarrow> throw e | Inr x \<Rightarrow> ret x)"

definition ensure :: "exn + 'a \<Rightarrow> 'a act" where
  "ensure r = (case r of Inl e \<Rightarrow> throw e | Inr x \<Rightarrow> ret x)"


section \<open>Capabilities\<close>

definition assertRepository :: "host_lib \<Rightarrow> services \<Rightarrow> input \<Rightarrow> string \<Rightarrow> session \<Rightarrow> string act" where
  "assertRepository L S i k s = andThen (call (cs_realpath S (text_of L i k))) (\<lambda>requested.
     if requested \<noteq> ses_repo_path s
     then throw (control Scope_Denied (''Repository '' @ quoted requested @ '' is outside this session.'') Err_Denied False No_Detail)
     else ret requested)"

definition jstrs :: "string list \<Rightarrow> json" where
  "jstrs xs = JArr (map JStr xs)"

definition inspectRepository :: "services \<Rightarrow> string \<Rightarrow> json act" where
  "inspectRepository S repository = andThen (call (cs_entries S repository)) (\<lambda>names.
     let files = sort (map fst (filter (\<lambda>(n, k). k = Is_File) names));
         directories = sort (map fst (filter (\<lambda>(n, k). k = Is_Directory \<and> n \<noteq> ''.git'') names))
     in ret (JObj [(''repository'', JStr repository), (''name'', JStr (case rev (segments repository) of [] \<Rightarrow> [] | b # _ \<Rightarrow> b)),
          (''files'', jstrs files), (''directories'', jstrs directories),
          (''hasFluiSpec'', JBool (''flui.yaml'' \<in> set files \<or> ''flui.yml'' \<in> set files)),
          (''hasPackageJson'', JBool (''package.json'' \<in> set files))]))"

definition readSpec :: "host_lib \<Rightarrow> services \<Rightarrow> input \<Rightarrow> session \<Rightarrow> json act" where
  "readSpec L S i s = andThen (assertRepository L S i ''repository'' s) (\<lambda>repository.
     andThen (ensure (assertPathInside repository (path_resolve repository (text_or L i ''file'' ''flui.yaml'')))) (\<lambda>file.
     andThen (call (cs_read_file S file)) (\<lambda>yaml.
     ret (JObj [(''file'', JStr file), (''sha256'', JStr (sha256 L yaml)), (''yaml'', JStr yaml)]))))"

definition generateSpec :: "host_lib \<Rightarrow> services \<Rightarrow> input \<Rightarrow> session \<Rightarrow> json act" where
  "generateSpec L S i s = andThen (assertRepository L S i ''repository'' s) (\<lambda>repository.
     andThen (ensure (assertPathInside repository (path_resolve repository (text_or L i ''outputFile'' ''flui.yaml'')))) (\<lambda>out.
     call (cs_spec_generate S (text_of L i ''template'') (text_of L i ''name'') out (set_in i ''force''))))"

definition listCatalogByKind :: "services \<Rightarrow> string \<Rightarrow> json act" where
  "listCatalogByKind S kind = call (cs_catalog_list S
     (if kind = ''products'' then Some ''product'' else if kind = ''blocks'' then Some ''block'' else None))"

definition numberOrUndefined :: "services \<Rightarrow> input \<Rightarrow> string \<Rightarrow> rat option option" where
  "numberOrUndefined S i k = map_option (cs_number S) (map_of i k)"

definition compareProviders :: "host_lib \<Rightarrow> services \<Rightarrow> input \<Rightarrow> json act" where
  "compareProviders L S i = andThen (call (cs_catalog_compare S (numberOrUndefined S i ''minVcpu'')
       (numberOrUndefined S i ''minMemoryGiB'') (set_in i ''refresh''))) (\<lambda>rows.
     ret (JArr (map snd (case texts L i ''providers'' of
         Some ps \<Rightarrow> filter (\<lambda>(p, row). p \<in> set ps) rows | None \<Rightarrow> rows))))"

definition withinScope :: "session \<Rightarrow> (string \<times> json) list \<Rightarrow> (string \<times> json) list" where
  "withinScope s hosts = (if scope_targets (ses_scope s) = [] then hosts
     else filter (\<lambda>(n, h). n \<in> set (scope_targets (ses_scope s))) hosts)"

definition inspectTarget :: "services \<Rightarrow> string \<Rightarrow> json act" where
  "inspectTarget S target = andThen (call (cs_host_show S target)) (\<lambda>h. andThen (call (cs_host_status S target)) (\<lambda>st.
     ret (JObj [(''host'', h), (''status'', st)])))"

definition monthly_cost :: "provision_plan \<Rightarrow> rat" where
  "monthly_cost p = (case pp_monthly p of Some m \<Rightarrow> m | None \<Rightarrow> or_default (pp_hourly p) 0 * 730)"

definition provision :: "host_lib \<Rightarrow> services \<Rightarrow> input \<Rightarrow> session \<Rightarrow> json act" where
  "provision L S i s = andThen (ensure (assertRepoFile s (text_of L i ''planFile''))) (\<lambda>file.
     andThen (call (cs_read_plan S file)) (\<lambda>plan.
     andThen (commitProviderSpend L (ses_id s) (monthly_cost plan)) (\<lambda>_. call (cs_server_create S plan))))"

definition service_of :: "string \<Rightarrow> fw_service act" where
  "service_of token = (case parseServiceSpec token of Inl m \<Rightarrow> throw (Js_Error m) | Inr s \<Rightarrow> ret s)"

definition openFirewallPort :: "host_lib \<Rightarrow> services \<Rightarrow> input \<Rightarrow> json act" where
  "openFirewallPort L S i = andThen (call (cs_firewall_get S (text_of L i ''target''))) (\<lambda>cur.
     andThen (service_of (text_of L i ''service'')) (\<lambda>service.
     call (cs_firewall_set S (text_of L i ''target'') (filter (\<lambda>e. svc_id e \<noteq> svc_id service) (snd cur) @ [service]))))"

definition closeFirewallPort :: "host_lib \<Rightarrow> services \<Rightarrow> input \<Rightarrow> json act" where
  "closeFirewallPort L S i = andThen (call (cs_firewall_get S (text_of L i ''target''))) (\<lambda>cur.
     andThen (service_of (text_of L i ''service'')) (\<lambda>service.
     call (cs_firewall_set S (text_of L i ''target'')
       (filter (\<lambda>e. \<not> (svc_protocol e = svc_protocol service \<and> svc_port e = svc_port service)) (snd cur)))))"

definition readRecentLogs :: "services \<Rightarrow> input \<Rightarrow> json act" where
  "readRecentLogs S i = andThen (ensure (appRef i)) (\<lambda>(n, host).
     andThen (call (cs_apps_logs S n (cs_number S (case map_of i ''lines'' of Some v \<Rightarrow> if v = JNull then JNum 200 else v | None \<Rightarrow> JNum 200)) host)) (\<lambda>txt.
     ret (JObj ([(''name'', JStr n)] @ (case host of Some h \<Rightarrow> [(''host'', JStr h)] | None \<Rightarrow> []) @
       [(''lines'', jstrs (split_on (hd nl) txt))]))))"

definition planDeploy :: "host_lib \<Rightarrow> services \<Rightarrow> input \<Rightarrow> session \<Rightarrow> json act" where
  "planDeploy L S i s = andThen (assertRepository L S i ''projectDir'' s) (\<lambda>projectDir.
     andThen (ensure (assertRepoFile s (text_of L i ''spec''))) (\<lambda>spec.
     call (cs_agent_plan S \<lparr>dr_project = projectDir, dr_spec = spec, dr_host = text_of L i ''host'',
       dr_image = opt_text L i ''image'', dr_name = opt_text L i ''name'', dr_domain = opt_text L i ''domain'',
       dr_tls = opt_bool i ''tls'', dr_staging = opt_bool i ''staging'', dr_auth = opt_text L i ''auth'',
       dr_public = opt_bool i ''public''\<rparr>)))"

text \<open>Capabilities on the repository, on the inventory and its applications, and at the providers.\<close>

definition execute_repository :: "host_lib \<Rightarrow> services \<Rightarrow> string \<Rightarrow> input \<Rightarrow> session \<Rightarrow> json act option" where
  "execute_repository L S c i s =
     (if c = ''repository.inspect'' then Some (andThen (assertRepository L S i ''repository'' s) (inspectRepository S))
      else if c = ''flui_spec.read'' then Some (readSpec L S i s)
      else if c = ''flui_spec.generate'' then Some (generateSpec L S i s)
      else if c = ''flui_spec.validate'' then Some (andThen (ensure (assertRepoFile s (text_of L i ''file''))) (\<lambda>f. call (cs_spec_validate S f)))
      else if c = ''application.plan_deploy'' then Some (planDeploy L S i s)
      else if c = ''application.deploy'' then Some (andThen (assertRepository L S i ''projectDir'' s) (\<lambda>d.
        call (cs_agent_apply S d (text_of L i ''planId''))))
      else None)"

definition execute_application :: "host_lib \<Rightarrow> services \<Rightarrow> string \<Rightarrow> input \<Rightarrow> json act option" where
  "execute_application L S c i =
     (if c = ''catalog.list'' then Some (listCatalogByKind S (text_or L i ''kind'' ''all''))
      else if c = ''catalog.describe'' then Some (call (cs_catalog_describe S (text_of L i ''id'')))
      else if c = ''catalog.install'' then Some (call (cs_apps_install S (text_of L i ''catalog'') (text_of L i ''host'')
        (opt_text L i ''name'') (opt_bool i ''public'')))
      else if c = ''application.status'' then Some (andThen (ensure (appRef i)) (\<lambda>(n, h). call (cs_apps_status S n h)))
      else if c = ''application.restart'' then Some (andThen (ensure (appRef i)) (\<lambda>(n, h). call (cs_apps_restart S n h)))
      else if c = ''logs.read_recent'' then Some (readRecentLogs S i)
      else if c = ''healthcheck.run'' then Some (andThen (ensure (appRef i)) (\<lambda>(n, h). call (cs_agent_verify S n h)))
      else None)"

definition execute_target :: "host_lib \<Rightarrow> services \<Rightarrow> string \<Rightarrow> input \<Rightarrow> session \<Rightarrow> json act option" where
  "execute_target L S c i s =
     (if c = ''target.list'' then Some (andThen (call (cs_hosts S)) (\<lambda>hs. ret (JArr (map snd (withinScope s hs)))))
      else if c = ''target.inspect'' then Some (inspectTarget S (text_of L i ''target''))
      else if c = ''server.harden'' then Some (call (cs_harden S (text_of L i ''target'') (opt_text L i ''user'') (texts L i ''steps'')))
      else if c = ''firewall.inspect'' then Some (andThen (call (cs_firewall_get S (text_of L i ''target''))) (\<lambda>v. ret (fst v)))
      else if c = ''firewall.open_port'' then Some (openFirewallPort L S i)
      else if c = ''firewall.close_port'' then Some (closeFirewallPort L S i)
      else None)"

definition execute_provider :: "host_lib \<Rightarrow> services \<Rightarrow> string \<Rightarrow> input \<Rightarrow> session \<Rightarrow> json act option" where
  "execute_provider L S c i s =
     (if c = ''provider.list'' then Some (call (cs_providers S))
      else if c = ''provider.prices.compare'' then Some (compareProviders L S i)
      else if c = ''server.list'' then Some (call (cs_servers S (text_of L i ''provider'')))
      else if c = ''server.inspect'' then Some (call (cs_server_show S (text_of L i ''provider'') (text_of L i ''id'')))
      else if c = ''server.provision'' then Some (provision L S i s)
      else if c = ''server.destroy'' then Some (andThen (call (cs_server_delete S (text_of L i ''provider'') (text_of L i ''id''))) (\<lambda>_.
        ret (JObj ((''destroyed'', JBool True) # List.map_filter (\<lambda>k. map_option (\<lambda>v. (k, v)) (map_of i k)) [''provider'', ''id'']))))
      else None)"

definition core_execute :: "host_lib \<Rightarrow> services \<Rightarrow> executor" where
  "core_execute L S c i ctx = (let s = ctx_session ctx in
     case execute_repository L S c i s of Some m \<Rightarrow> m
     | None \<Rightarrow> (case execute_application L S c i of Some m \<Rightarrow> m
     | None \<Rightarrow> (case execute_target L S c i s of Some m \<Rightarrow> m
     | None \<Rightarrow> (case execute_provider L S c i s of Some m \<Rightarrow> m
     | None \<Rightarrow> throw (control Unsupported (''Capability '' @ quoted c @ '' has no executor.'') Err_Failed False No_Detail)))))"


section \<open>What the executor leaves to the broker\<close>

text \<open>A computation that writes nothing.\<close>

definition reads :: "'a act \<Rightarrow> bool" where
  "reads m \<longleftrightarrow> (\<forall>w. snd (m w) = w)"

named_theorems reads_intros \<open>rules for computations that write nothing\<close>

lemma reads_basic [reads_intros]:
  "reads (ret x)" "reads (throw e)" "reads (call f)" "reads (ensure r)" "reads (service_of t)"
  by (auto simp: reads_def call_def ensure_def service_of_def action_simps andThen_def split: sum.split)

lemma reads_andThen [reads_intros]: "reads m \<Longrightarrow> (\<And>x. reads (f x)) \<Longrightarrow> reads (andThen m f)"
  by (auto simp: reads_def andThen_def split: prod.split sum.split) (metis snd_conv)+

lemma reads_if [reads_intros]: "reads m \<Longrightarrow> reads n \<Longrightarrow> reads (if b then m else n)"
  by simp

lemma reads_case_prod [reads_intros]: "(\<And>a b. reads (f a b)) \<Longrightarrow> reads (case x of (a, b) \<Rightarrow> f a b)"
  by (cases x) simp

lemmas capability_defs = assertRepository_def inspectRepository_def readSpec_def generateSpec_def listCatalogByKind_def
  compareProviders_def inspectTarget_def openFirewallPort_def closeFirewallPort_def readRecentLogs_def planDeploy_def

lemma reads_capabilities [reads_intros]:
  "reads (assertRepository L S i k s)" "reads (inspectRepository S r)" "reads (listCatalogByKind S k)"
  "reads (compareProviders L S i)" "reads (inspectTarget S t)" "reads (openFirewallPort L S i)"
  "reads (closeFirewallPort L S i)" "reads (readRecentLogs S i)"
  by (auto simp: capability_defs Let_def intro!: reads_intros)

lemma reads_repository [reads_intros]: "reads (readSpec L S i s)" "reads (generateSpec L S i s)" "reads (planDeploy L S i s)"
  unfolding readSpec_def generateSpec_def planDeploy_def by (intro reads_intros)+

lemma reads_groups:
  "execute_repository L S c i s = Some m \<Longrightarrow> reads m"
  "execute_application L S c i = Some m \<Longrightarrow> reads m"
  "execute_target L S c i s = Some m \<Longrightarrow> reads m"
  "execute_provider L S c i s = Some m \<Longrightarrow> c \<noteq> ''server.provision'' \<Longrightarrow> reads m"
  unfolding execute_repository_def execute_application_def execute_target_def execute_provider_def
  by (auto split: if_splits intro!: reads_intros)

lemma provision_cases:
  "core_execute L S c i ctx = provision L S i (ctx_session ctx) \<or> reads (core_execute L S c i ctx)"
proof (cases "execute_repository L S c i (ctx_session ctx)")
  case (Some m)
  then show ?thesis using reads_groups(1)[OF Some] by (simp add: core_execute_def)
next
  case r: None
  show ?thesis
  proof (cases "execute_application L S c i")
    case (Some m)
    then show ?thesis using r reads_groups(2)[OF Some] by (simp add: core_execute_def)
  next
    case a: None
    show ?thesis
    proof (cases "execute_target L S c i (ctx_session ctx)")
      case (Some m)
      then show ?thesis using r a reads_groups(3)[OF Some] by (simp add: core_execute_def)
    next
      case t: None
      show ?thesis
      proof (cases "c = ''server.provision''")
        case True
        then show ?thesis using r a t by (simp add: core_execute_def execute_provider_def)
      next
        case False
        then show ?thesis using r a t reads_groups(4)[of L S c i "ctx_session ctx"]
          by (auto simp: core_execute_def Let_def reads_basic split: option.split)
      qed
    qed
  qed
qed

text \<open>The one write: the spend of the session, when the budget has room for it.\<close>

lemma commit_result:
  assumes "session_at k w = Some s0" and "sessions_wf w"
  shows "if lim_max_spend (ses_limits s0) < ses_spend s0 + max 0 m
    then (\<exists>e. commitProviderSpend L k m w = (Inl e, w))
    else (\<exists>s1 ev. ses_id s1 = k \<and> ses_spend s1 = ses_spend s0 + max 0 m \<and> ses_limits s1 = ses_limits s0 \<and>
      commitProviderSpend L k m w = (Inr s1, logged L ev (put_session s1 w)))"
  using assms sessions_wf_at[OF assms(2,1)]
  by (auto simp: commitProviderSpend_def update_session_def andThen_def action_simps Let_def logEvent_run)

lemma provision_result:
  assumes "session_at (ses_id s) w = Some s0" and "sessions_wf w"
    and "assertRepoFile s (text_of L i ''planFile'') = Inr file" and "cs_read_plan S file w = Inr plan"
  shows "if lim_max_spend (ses_limits s0) < ses_spend s0 + max 0 (monthly_cost plan)
    then (\<exists>e. provision L S i s w = (Inl e, w))
    else (\<exists>s1 ev. ses_id s1 = ses_id s \<and> ses_spend s1 = ses_spend s0 + max 0 (monthly_cost plan) \<and> ses_limits s1 = ses_limits s0 \<and>
      provision L S i s w = (cs_server_create S plan (logged L ev (put_session s1 w)), logged L ev (put_session s1 w)))"
proof -
  have p: "provision L S i s w = andThen (commitProviderSpend L (ses_id s) (monthly_cost plan)) (\<lambda>_. call (cs_server_create S plan)) w"
    using assms(3,4) by (simp add: provision_def andThen_def ensure_def call_def action_simps)
  have c: "call f v = (f v, v)" for f :: "json answer" and v by (simp add: call_def andThen_def action_simps split: sum.split)
  show ?thesis
    using commit_result[OF assms(1,2), of "monthly_cost plan" L] unfolding p
    by (auto simp: andThen_run c split: if_splits) (metis c)+
qed

text \<open>Without a session of that name, a file or a plan, nothing is written.\<close>

lemma provision_other:
  assumes "session_at (ses_id s) w = None \<or> (\<exists>e. assertRepoFile s (text_of L i ''planFile'') = Inl e) \<or>
    (\<exists>f e. assertRepoFile s (text_of L i ''planFile'') = Inr f \<and> cs_read_plan S f w = Inl e)"
  shows "\<exists>e. provision L S i s w = (Inl e, w)"
  using assms
  by (cases "assertRepoFile s (text_of L i ''planFile'')"; auto simp: provision_def andThen_def ensure_def call_def action_simps
      commitProviderSpend_def split: sum.split)

lemma core_frame:
  assumes wf: "sessions_wf w" and run: "core_execute L S c i ctx w = (r, w')"
  shows "sessions_wf w' \<and> (\<forall>k. operation_at k w' = operation_at k w) \<and> (\<forall>k. plan_at k w' = plan_at k w)"
proof (cases "reads (core_execute L S c i ctx)")
  case True
  then have "w' = w" using run by (auto simp: reads_def dest: spec[of _ w])
  then show ?thesis using wf by simp
next
  case False
  then have run: "provision L S i (ctx_session ctx) w = (r, w')" using provision_cases[of L S c i ctx] run by auto
  let ?s = "ctx_session ctx"
  consider (other) "session_at (ses_id ?s) w = None \<or> (\<exists>e. assertRepoFile ?s (text_of L i ''planFile'') = Inl e) \<or>
      (\<exists>f e. assertRepoFile ?s (text_of L i ''planFile'') = Inr f \<and> cs_read_plan S f w = Inl e)"
    | (booked) s0 f plan where "session_at (ses_id ?s) w = Some s0" "assertRepoFile ?s (text_of L i ''planFile'') = Inr f"
        "cs_read_plan S f w = Inr plan"
    by (cases "session_at (ses_id ?s) w"; cases "assertRepoFile ?s (text_of L i ''planFile'')")
       (auto, metis obj_sumE)
  then show ?thesis
  proof cases
    case other
    from provision_other[OF this] show ?thesis using run wf by auto
  next
    case booked
    have clean: "clean (ses_id ?s)" using sessions_wf_at[OF wf booked(1)] by simp
    show ?thesis
      using provision_result[OF booked(1) wf booked(2,3)] run wf clean
      by (auto simp: sessions_wf_put split: if_splits)
  qed
qed

lemma sessions_wf_elsewhere [simp]:
  "sessions_wf (put_operation q w) = sessions_wf w" "sessions_wf (put_plan p w) = sessions_wf w"
  "sessions_wf (w\<lparr>w_next := n\<rparr>) = sessions_wf w"
  by (simp_all add: sessions_wf_def put_operation_def put_plan_def)

interpretation core: framed_executor "core_execute L S" sessions_wf for L S
proof unfold_locales
  fix c i ctx w r w'
  assume "sessions_wf w" and "core_execute L S c i ctx w = (r, w')"
  then show "sessions_wf w' \<and> (\<forall>k. operation_at k w' = operation_at k w) \<and> (\<forall>k. plan_at k w' = plan_at k w)"
    by (rule core_frame)
qed (auto simp: sessions_wf_put dest: sessions_wf_at)


section \<open>Properties\<close>



lemma normal_parts: "list_all (\<lambda>s. s \<noteq> [] \<and> CHR ''/'' \<notin> set s \<and> s \<noteq> ''.'') (normal p)"
proof -
  have split: "x \<in> set (split_on CHR ''/'' q) \<Longrightarrow> CHR ''/'' \<notin> set x" for x q
    by (induction q arbitrary: x) (force split: if_splits list.splits)+
  have acc: "list_all (\<lambda>s. s \<noteq> [] \<and> CHR ''/'' \<notin> set s \<and> s \<noteq> ''.'') (normal_from acc ss)"
    if "list_all (\<lambda>s. s \<noteq> [] \<and> CHR ''/'' \<notin> set s \<and> s \<noteq> ''.'') acc" "list_all (\<lambda>s. s \<noteq> [] \<and> CHR ''/'' \<notin> set s) ss" for acc ss
    using that
  proof (induction ss arbitrary: acc)
    case (Cons s ss)
    have "list_all (\<lambda>s. s \<noteq> [] \<and> CHR ''/'' \<notin> set s \<and> s \<noteq> ''.'') (butlast acc)"
      using Cons.prems(1) by (auto simp: list_all_iff dest: in_set_butlastD)
    then show ?case using Cons by (cases "s = ''.''"; cases "s = ''..''") simp_all
  qed simp
  show ?thesis unfolding normal_def by (rule acc) (auto simp: segments_def list_all_iff dest: split)
qed

lemma drop_common_parts: "drop_common as bs = (up, down) \<Longrightarrow> \<exists>c. as = c @ up \<and> bs = c @ down"
proof (induction as bs rule: drop_common.induct)
  case (1 a as b bs)
  show ?case
  proof (cases "a = b")
    case True
    then obtain c where "as = c @ up" "bs = c @ down" using 1 by auto
    then show ?thesis using True by (intro exI[of _ "a # c"]) simp
  qed (use 1 in simp)
qed simp_all

lemma drop_common_prefix: "drop_common as (as @ t) = ([], t)"
  by (induction as) (cases t, simp_all)

lemma join_starts: "d \<noteq> [] \<Longrightarrow> CHR ''/'' \<notin> set d \<Longrightarrow> d \<noteq> ''.'' \<Longrightarrow> starts_with (join ''/'' (d # ds)) ''..'' \<longleftrightarrow> starts_with d ''..''"
  by (cases d; cases "tl d"; cases ds; auto simp: starts_with_def)

lemma join_ups: "starts_with (join ''/'' (''..'' # ss)) ''..''"
  by (cases ss) (simp_all add: starts_with_def)

text \<open>
  A path passes the check against the repository exactly when, without its \<open>.\<close> and \<open>..\<close> parts, it
  is the repository or lies below it, by a first name that does not begin with two dots.
\<close>

theorem path_inside_exact:
  "assertPathInside base candidate = Inr candidate \<longleftrightarrow>
     (\<exists>down. normal candidate = normal base @ down \<and> (\<forall>d ds. down = d # ds \<longrightarrow> \<not> starts_with d ''..''))"
proof -
  obtain up down where ud: "drop_common (normal base) (normal candidate) = (up, down)" by fastforce
  obtain c where split: "normal base = c @ up" "normal candidate = c @ down" using drop_common_parts[OF ud] by blast
  have parts: "list_all (\<lambda>s. s \<noteq> [] \<and> CHR ''/'' \<notin> set s \<and> s \<noteq> ''.'') down"
    using normal_parts[of candidate] split by (auto simp: list_all_iff)
  have rel: "path_relative base candidate = join ''/'' (map (\<lambda>_. ''..'') up @ down)"
    by (simp add: path_relative_def ud)
  show ?thesis
  proof (cases up)
    case (Cons u us)
    then have "starts_with (path_relative base candidate) ''..''"
      unfolding rel by (simp only: list.map append_Cons join_ups)
    moreover have False if "normal candidate = normal base @ t" for t
      using drop_common_prefix[of "normal base" t] ud Cons that by simp
    ultimately show ?thesis by (auto simp: assertPathInside_def Let_def)
  next
    case Nil
    then have d: "normal candidate = normal base @ down" using split by simp
    have "assertPathInside base candidate = Inr candidate \<longleftrightarrow> (\<forall>d ds. down = d # ds \<longrightarrow> \<not> starts_with d ''..'')"
    proof (cases down)
      case Nil
      then show ?thesis using \<open>up = []\<close> by (simp add: assertPathInside_def rel starts_with_def)
    next
      case (Cons d ds)
      then have "starts_with (join ''/'' (d # ds)) ''..'' \<longleftrightarrow> starts_with d ''..''" using parts by (intro join_starts) auto
      moreover have "\<not> starts_with (join ''/'' (d # ds)) ''/''" using parts Cons by (cases d; cases ds) (auto simp: starts_with_def)
      ultimately show ?thesis using \<open>up = []\<close> Cons by (simp add: assertPathInside_def rel del: join.simps)
    qed
    then show ?thesis using d by auto
  qed
qed

text \<open>
  An agent whose scope names targets is shown hosts of those names only, and all of them that the
  inventory has.
\<close>

theorem targets_within_scope:
  assumes "cs_hosts S w = Inr hosts" and "scope_targets (ses_scope (ctx_session ctx)) \<noteq> []"
  shows "core_execute L S ''target.list'' i ctx w =
    (Inr (JArr (map snd (filter (\<lambda>(n, h). n \<in> set (scope_targets (ses_scope (ctx_session ctx)))) hosts))), w)"
  using assms by (simp add: core_execute_def execute_repository_def execute_application_def execute_target_def
      withinScope_def call_def andThen_def action_simps)

end
