(* ===== verification/Ssh_Command.thy ===== *)
theory Ssh_Command
  imports Host_Plane
begin

text \<open>
  The interactive \<open>ssh\<close> command line and the one-liner shown for it (src/src/lib/ssh-exec.ts), with
  the reading a POSIX shell gives that line.
\<close>

record interactive_options =
  io_known_hosts :: string
  io_tty :: bool
  io_remote :: "string option"

definition buildInteractiveSshArgv :: "ssh_target \<Rightarrow> interactive_options \<Rightarrow> string list" where
  "buildInteractiveSshArgv t opts = [''-i'', tgt_key t, ''-p'', show_nat (port_of (tgt_host t)),
     ''-o'', ''StrictHostKeyChecking=accept-new'', ''-o'', ''IdentitiesOnly=yes'',
     ''-o'', ''UserKnownHostsFile='' @ io_known_hosts opts] @
     (if io_tty opts then [''-t''] else []) @ [login_of (tgt_host t)] @
     (case nonempty (io_remote opts) of Some r \<Rightarrow> [r] | None \<Rightarrow> [])"

definition bare_char :: "char \<Rightarrow> bool" where
  "bare_char c \<longleftrightarrow> is_lower c \<or> is_upper c \<or> is_digit c \<or> c \<in> set ''_@%+=:,./-''"

definition quote_char :: char where
  "quote_char = CHR 0x27"

definition backslash :: char where
  "backslash = CHR 0x5C"

definition shown_arg :: "string \<Rightarrow> string" where
  "shown_arg a = (if a \<noteq> [] \<and> list_all bare_char a then a
     else quote_char # concat (map (\<lambda>c. if c = quote_char then [quote_char, backslash, quote_char, quote_char] else [c]) a) @ [quote_char])"

definition displaySshCommand :: "string list \<Rightarrow> string" where
  "displaySshCommand argv = join '' '' (''ssh'' # map shown_arg argv)"

section \<open>How a shell reads a line\<close>

text \<open>
  Words of a line without operators and expansions: blanks separate, single quotes keep everything up
  to the next one, a backslash outside quotes keeps the next character. The second argument is the word being
  read, if one is.
\<close>

fun shell_words :: "bool \<Rightarrow> string option \<Rightarrow> string \<Rightarrow> string list option" where
  "shell_words True w [] = None"
| "shell_words False w [] = Some (case w of None \<Rightarrow> [] | Some v \<Rightarrow> [v])"
| "shell_words True w (c # cs) = (if c = quote_char then shell_words False w cs
     else shell_words True (Some (or_default w [] @ [c])) cs)"
| "shell_words False w (c # cs) =
     (if c = quote_char then shell_words True (Some (or_default w [])) cs
      else if c = backslash then (case cs of [] \<Rightarrow> None | d # ds \<Rightarrow> shell_words False (Some (or_default w [] @ [d])) ds)
      else if c = CHR '' '' then map_option (\<lambda>ws. (case w of None \<Rightarrow> [] | Some v \<Rightarrow> [v]) @ ws) (shell_words False None cs)
      else shell_words False (Some (or_default w [] @ [c])) cs)"

definition shell_reads :: "string \<Rightarrow> string list option" where
  "shell_reads line = shell_words False None line"

lemma bare_plain: "bare_char c \<Longrightarrow> c \<noteq> quote_char \<and> c \<noteq> backslash \<and> c \<noteq> CHR '' ''"
  by (auto simp: bare_char_def quote_char_def backslash_def is_lower_def is_upper_def in_range_def is_digit_def)

lemma read_bare:
  "list_all bare_char a \<Longrightarrow> shell_words False w (a @ rest) =
     (if a = [] then shell_words False w rest else shell_words False (Some (or_default w [] @ a)) rest)"
  by (induction a arbitrary: w) (auto simp: bare_plain or_default_def)

lemma read_quoted:
  "shell_words True (Some v) (concat (map (\<lambda>c. if c = quote_char then [quote_char, backslash, quote_char, quote_char] else [c]) a) @
      quote_char # rest) = shell_words False (Some (v @ a)) rest"
proof (induction a arbitrary: v)
  case (Cons c a)
  have "quote_char \<noteq> backslash" by (simp add: quote_char_def backslash_def)
  then show ?case using Cons.IH by (cases "c = quote_char") (auto simp: or_default_def)
qed simp

lemma read_shown: "shell_words False None (shown_arg a @ rest) = shell_words False (Some a) rest"
  by (simp add: shown_arg_def read_bare read_quoted or_default_def)

lemma read_line:
  "shell_words False None (join '' '' (map shown_arg (a # as))) = Some (a # as)"
proof (induction as arbitrary: a)
  case Nil
  show ?case using read_shown[of a "[]"] by simp
next
  case (Cons b as)
  have "CHR '' '' \<noteq> quote_char" "CHR '' '' \<noteq> backslash" by (simp_all add: quote_char_def backslash_def)
  then show ?case using Cons.IH[of b] by (simp add: read_shown)
qed

text \<open>
  C38: The command line shown to the user, pasted into a shell, runs \<open>ssh\<close> with exactly the arguments it was made
  from, whatever characters they hold.
\<close>

theorem shown_command_roundtrip: "shell_reads (displaySshCommand argv) = Some (''ssh'' # argv)"
proof -
  have "shown_arg ''ssh'' = ''ssh''" by code_simp
  then have "displaySshCommand argv = join '' '' (map shown_arg (''ssh'' # argv))"
    by (simp add: displaySshCommand_def)
  then show ?thesis by (simp only: shell_reads_def read_line)
qed

end
