(* ===== verification/Host_Witnesses.thy ===== *)
theory Host_Witnesses
  imports Demo_World Key_Rotation Ssh_Lockdown Server_Firewall Core_Executor Ssh_Command
begin

text \<open>
  One host, the local files of a profile and, for each kind of service, a small machine at the other
  end of the connection: the properties of the host services at these, with the laws of the machine
  shown to hold.
\<close>

section \<open>A host and its authorized keys\<close>

definition demo_host :: host where
  "demo_host = \<lparr>h_name = ''h'', h_uid = None, h_address = ''a'', h_user = ''root'', h_port = 22, h_user_key = Some ''me'',
     h_ops_installed = False, h_provider = None, h_provider_server = None, h_os = None, h_conn = None, h_ssh_managed = None,
     h_firewall = None, h_tags = [], h_added_at = 0\<rparr>"

definition ok_result :: "string \<Rightarrow> exec_result" where
  "ok_result out = \<lparr>ex_code = 0, ex_stdout = out, ex_stderr = []\<rparr>"

definition demo_machine :: "(string \<Rightarrow> string list \<Rightarrow> string option \<Rightarrow> 'r \<Rightarrow> exec_result \<times> 'r) \<Rightarrow> 'r machine" where
  "demo_machine run = \<lparr>mc_profile_dir = ''p'', mc_readonly = False, mc_runner = run, mc_keygen = (\<lambda>p c fs. None),
     mc_provider_text = (\<lambda>p. case p of Hetzner \<Rightarrow> ''hetzner'' | _ \<Rightarrow> ''x''), mc_server_details = (\<lambda>p i r. (Inr None, r)),
     mc_servers = (\<lambda>p r. (Inr [], r))\<rparr>"

definition demo_files :: "(string \<times> string) list" where
  "demo_files = [(''p/profile-id'', ''i''), (''p/keys/me'', ''k''), (''p/keys/me.pub'', ''ssh-a B me'')]"

definition demo_plane :: "'r \<Rightarrow> 'r plane" where
  "demo_plane r = \<lparr>pl_now = 0, pl_next = 0, pl_files = demo_files, pl_hosts = [demo_host], pl_audit = [], pl_remote = r\<rparr>"

text \<open>A call of \<open>ssh\<close> for this host, and a host that keeps one file: what is piped in is written, what is not read is the home.\<close>

definition for_demo :: "string list \<Rightarrow> bool" where
  "for_demo args \<longleftrightarrow> args ! 3 = show_nat 22 \<and> args ! 16 = ''root@a''"

definition key_box :: "string \<Rightarrow> string list \<Rightarrow> string option \<Rightarrow> string \<Rightarrow> exec_result \<times> string" where
  "key_box prog args stdin r = (if \<not> for_demo args then (ok_result [], r)
     else case stdin of Some c \<Rightarrow> (ok_result [], c)
     | None \<Rightarrow> (ok_result (if last args = home_command then ''/h'' else r), r))"

definition no_probe :: "string \<Rightarrow> nat \<Rightarrow> 'r \<Rightarrow> bool \<times> 'r" where
  "no_probe a n r = (True, r)"

lemma demo_login: "login_of demo_host = ''root@a''" "port_of demo_host = 22"
  by (simp_all add: login_of_def port_of_def demo_host_def)

lemma for_demo_args: "for_demo (sshArgs M t n @ xs) \<longleftrightarrow> on_host demo_host t"
  by (auto simp: for_demo_def sshArgs_def commonOpts_def on_host_def demo_login)

lemma demo_at: "host_at (h_name demo_host) (demo_plane r) = Some demo_host"
  by (simp add: host_at_def demo_plane_def)

lemma demo_profile: "map_of (pl_files (demo_plane r)) (profile_id_path (demo_machine run)) = Some ''i''" "trim ''i'' = ''i''" "solid ''i''"
  by code_simp+

lemma key_box_laws: "key_file_laws (demo_machine key_box) demo_host ''/h'' (\<lambda>r. r) (\<lambda>r. False)"
proof -
  have "trim ''/h'' = ''/h''" by code_simp
  then show ?thesis
    by (auto simp: key_file_laws_def demo_machine_def key_box_def for_demo_args ok_result_def home_command_def read_command_def)
qed

lemma key_box_fleet: "fleet_laws (demo_machine key_box) demo_host ''/h'' (\<lambda>r. r) (\<lambda>r. False)"
  using key_box_laws
  by (auto simp: fleet_laws_def elsewhere_law_def demo_machine_def key_box_def for_demo_args)

lemma key_box_others: "probe_law no_probe (\<lambda>r. r) (\<lambda>r. False)" "keygen_law (demo_machine run)" "no_newline None"
  by (simp_all add: probe_law_def no_probe_def keygen_law_def demo_machine_def no_newline_def)

text \<open>A profile that has its operations key.\<close>

definition ops_plane :: "'r \<Rightarrow> 'r plane" where
  "ops_plane r = (demo_plane r)\<lparr>pl_files := demo_files @ [(''p/keys/vops-ops'', ''k''), (''p/keys/vops-ops.pub'', ''ssh-a C'')]\<rparr>"

definition key_file :: string where
  "key_file = ''ssh-a C vops-ops:i'' @ nl @ ''ssh-a D other'' @ nl"




text \<open>
  A session that is cut off while it reads: the answer is empty, the exit code is not looked at, and
  the installation writes the file anew with its own line alone.
\<close>

definition cut_box :: "string \<Rightarrow> string list \<Rightarrow> string option \<Rightarrow> string \<Rightarrow> exec_result \<times> string" where
  "cut_box prog args stdin r = (if last args = read_command ''/h'' then (\<lparr>ex_code = 255, ex_stdout = [], ex_stderr = []\<rparr>, r)
     else key_box prog args stdin r)"

lemma cut_read_takes_others:
  "others (opsTag ''i'') key_file = [''ssh-a D other''] \<and>
   others (opsTag ''i'') (pl_remote (snd (installOps (demo_machine cut_box) no_probe ''h'' None False
     (ops_plane key_file)))) = []"
  by code_simp

text \<open>A rotation of the one entry of a short file.\<close>

definition one_entry :: string where
  "one_entry = ''x ssh-a C vops-ops:i''"

lemma rotated_host_done_witness:
  "classifyRotation (pl_remote (snd (rotateHost (demo_machine key_box) ''p/keys/n'' ''ssh-a E'' (opsTag ''i'') (opsTag ''i'' @ '':next'')
      False demo_host (demo_plane one_entry)))) (opsTag ''i'') (opsTag ''i'' @ '':next'') ''ssh-a E'' = Rot_Done"
proof -
  let ?r = "rotateHost (demo_machine key_box) ''p/keys/n'' ''ssh-a E'' (opsTag ''i'') (opsTag ''i'' @ '':next'') False demo_host
    (demo_plane one_entry)"
  have "case fst ?r of Inr x \<Rightarrow> rh_outcome x = Rotated | Inl e \<Rightarrow> False" by code_simp
  then obtain x p' where r: "?r = (Inr x, p')" "rh_outcome x = Rotated" by (cases ?r) (auto split: sum.splits)
  have "1 < length (split_spaces ''ssh-a E'')" by code_simp
  from rotated_host_done[OF key_box_laws demo_profile(3) this r] show ?thesis using r(1) by simp
qed

section \<open>The profile's key pairs\<close>

definition pair_files :: "(string \<times> string) list" where
  "pair_files = [(''p/keys/vops-ops.next'', ''n''), (''p/keys/vops-ops.next.pub'', ''N''),
     (''p/keys/vops-ops'', ''o''), (''p/keys/vops-ops.pub'', ''O'')]"

lemma pair_paths:
  "map_of pair_files (priv_path (demo_machine run) NEXT_NAME) = Some ''n''"
  "map_of pair_files (pub_path (demo_machine run) NEXT_NAME) = Some ''N''"
  "map_of pair_files (priv_path (demo_machine run) OPS_KEY_NAME) = Some ''o''"
  "map_of pair_files (pub_path (demo_machine run) OPS_KEY_NAME) = Some ''O''"
  by code_simp+

lemma promotion_completes_witness:
  "map_of (promoted (demo_machine key_box) pair_files) (priv_path (demo_machine key_box) OPS_KEY_NAME) = Some ''n'' \<and>
   map_of (promoted (demo_machine key_box) pair_files) (priv_path (demo_machine key_box) PREV_NAME) = Some ''o''"
proof -
  have "priv_path (demo_machine key_box) PREV_NAME = ''p/keys/vops-ops.prev''" "pub_path (demo_machine key_box) PREV_NAME = ''p/keys/vops-ops.prev.pub''"
    "priv_path (demo_machine key_box) NEXT_NAME = ''p/keys/vops-ops.next''" "pub_path (demo_machine key_box) NEXT_NAME = ''p/keys/vops-ops.next.pub''"
    "priv_path (demo_machine key_box) OPS_KEY_NAME = ''p/keys/vops-ops''" "pub_path (demo_machine key_box) OPS_KEY_NAME = ''p/keys/vops-ops.pub''"
    by code_simp+
  then show ?thesis
    using promotion_completes[OF pair_paths, of key_box] by simp
qed

lemma interrupted_promotion_loses_key_witness:
  "map_of (promoted (demo_machine key_box) (run_moves (take 3 (promotion_moves (demo_machine key_box) pair_files)) pair_files))
     (priv_path (demo_machine key_box) OPS_KEY_NAME) = None"
  using interrupted_promotion_loses_key[OF pair_paths refl, of key_box] by blast

section \<open>The inventory\<close>

definition demo_host_input :: host_input where
  "demo_host_input = \<lparr>hi_address = ''b'', hi_user = None, hi_port = None, hi_user_key = None, hi_tags = None\<rparr>"

definition demo_calls :: "inventory_call list" where
  "demo_calls = [Add_Host ''g'' demo_host_input, Add_Host ''h'' demo_host_input, Remove_Host ''x'', Set_Managed ''h'' True]"

lemma demo_names: "names_unique (demo_plane r)"
  by (simp add: names_unique_def demo_plane_def)

lemma inventory_names_unique_witness:
  "distinct (map h_name (pl_hosts (fold (do_inventory (demo_machine key_box)) demo_calls (demo_plane key_file))))"
  using inventory_names_unique[OF demo_names] unfolding names_unique_def .

lemma add_host_contract_witness:
  "snd (add_host (demo_machine key_box) ''h'' demo_host_input (demo_plane key_file)) = demo_plane key_file"
proof -
  have "host_at ''h'' (demo_plane key_file) \<noteq> None" by (simp add: host_at_def demo_plane_def demo_host_def)
  then show ?thesis
    using add_host_contract[OF demo_names, where n = "''h''" and M = "demo_machine key_box" and i = demo_host_input, THEN conjunct2, rule_format]
    by simp
qed

section \<open>Password logins\<close>

definition printed :: "bool \<Rightarrow> string" where
  "printed passwords = (if passwords then ''passwordauthentication yes'' else ''passwordauthentication no'')"

definition probe_text :: "bool \<Rightarrow> string" where
  "probe_text passwords = ''===SUDO==='' @ nl @ ''root'' @ nl @ ''===SSHDT==='' @ nl @ printed passwords @ nl @ ''===PWLOGINS==='' @ nl @
     ''===ROOTAK==='' @ nl @ ''===SYSTEMD==='' @ nl @ ''===END==='' @ nl"

text \<open>The two keys that open sessions; every other key is turned away.\<close>

definition lets_in :: "string \<Rightarrow> bool" where
  "lets_in k \<longleftrightarrow> k \<in> {''p/keys/me'', ''p/keys/vops-ops''}"

definition sshd_box :: "string \<Rightarrow> string list \<Rightarrow> string option \<Rightarrow> bool \<Rightarrow> exec_result \<times> bool" where
  "sshd_box prog args stdin r = (if \<not> for_demo args \<or> \<not> lets_in (args ! 1) then (\<lparr>ex_code = 255, ex_stdout = [], ex_stderr = []\<rparr>, r)
     else case stdin of
       Some c \<Rightarrow> if starts_with c ''if ['' then (ok_result (probe_text r), r)
         else if starts_with c ''set -e'' then (ok_result ''VOPS_APPLIED'', False)
         else if starts_with c ''[ -x'' then (ok_result [], True) else (ok_result [], r)
     | None \<Rightarrow> (ok_result [], r))"

lemma probe_prefix: "starts_with (lockdownProbeScript n) ''if [''"
  by (simp add: lockdownProbeScript_def starts_with_def)

lemma cancel_prefix:
  "\<not> starts_with (cancelDeadmanScript pid) ''if [''" "\<not> starts_with (cancelDeadmanScript pid) ''set -e''"
  "\<not> starts_with (cancelDeadmanScript pid) ''[ -x''"
  by (simp_all add: cancelDeadmanScript_def cancel_lines_def starts_with_def)

lemma probe_shows: "sig_sshdT (parseLockdownProbe (probe_text r)) = printed r" "sig_sshdT (parseLockdownProbe []) = []"
proof -
  have "sig_sshdT (parseLockdownProbe (probe_text True)) = printed True" "sig_sshdT (parseLockdownProbe (probe_text False)) = printed False"
    by code_simp+
  then show "sig_sshdT (parseLockdownProbe (probe_text r)) = printed r" by (cases r) simp_all
  show "sig_sshdT (parseLockdownProbe []) = []" by code_simp
qed

lemma key_arg: "(sshArgs M t n @ xs) ! Suc 0 = tgt_key t"
  by (simp add: sshArgs_def)

lemma sshd_box_laws: "sshd_laws (demo_machine sshd_box) no_probe demo_host (\<lambda>r. (printed r, lets_in))"
  by (auto simp: sshd_laws_def trial_law_def demo_machine_def sshd_box_def for_demo_args ok_result_def no_probe_def
      probe_prefix cancel_prefix shown_config_def probe_shows key_arg)


text \<open>Without a personal key the lockdown is refused.\<close>

definition keyless_plane :: "bool \<Rightarrow> bool plane" where
  "keyless_plane r = (demo_plane r)\<lparr>pl_files := [(''p/profile-id'', ''i''), (''p/keys/vops-ops'', ''k''), (''p/keys/vops-ops.pub'', ''ssh-a B'')],
     pl_hosts := [demo_host\<lparr>h_user_key := None, h_ops_installed := True\<rparr>]\<rparr>"

lemma refused_lockdown_harmless_witness:
  "pl_remote (snd (disable_password_login (demo_machine sshd_box) no_probe ''h'' True (keyless_plane True)))"
proof -
  let ?r = "disable_password_login (demo_machine sshd_box) no_probe ''h'' True (keyless_plane True)"
  let ?h = "demo_host\<lparr>h_user_key := None, h_ops_installed := True\<rparr>"
  have c: "case fst ?r of Inr x \<Rightarrow> \<not> lk_applied x | Inl e \<Rightarrow> refused_by_preflight e" by code_simp
  have at: "host_at (h_name ?h) (keyless_plane True) = Some ?h" by (simp add: host_at_def keyless_plane_def)
  have n: "h_name ?h = ''h''" by (simp add: demo_host_def)
  have same: "on_host ?h = on_host demo_host" by (rule ext) (simp add: on_host_def login_of_def port_of_def)
  have laws: "sshd_laws (demo_machine sshd_box) no_probe ?h (\<lambda>r. (printed r, lets_in))"
    using sshd_box_laws unfolding sshd_laws_def trial_law_def same .
  have p: "?r = (fst ?r, snd ?r)" by simp
  have "(\<lambda>r. (printed r, lets_in)) (pl_remote (snd ?r)) = (\<lambda>r. (printed r, lets_in)) (pl_remote (keyless_plane True))"
    using refused_lockdown_harmless[OF laws at, unfolded n, OF p c] .
  then show ?thesis by (simp add: keyless_plane_def demo_plane_def printed_def split: if_splits)
qed

lemma lost_change_is_disarmed_witness:
  "fst (settle_lockdown (demo_machine sshd_box) ''h'' demo_host \<lparr>tgt_host = demo_host, tgt_key = ''k''\<rparr>
      \<lparr>ex_code = 255, ex_stdout = [], ex_stderr = []\<rparr> (demo_plane True)) = Inl (hardenNotApplied ''h'' ''apply exited 255'')"
proof -
  have "or_default (nonempty (Some (trim []))) (''apply exited '' @ show_code 255) = ''apply exited 255''" by code_simp
  then show ?thesis by (simp add: lost_change_is_disarmed)
qed

end
