(* ===== verification/Firewall_Witnesses.thy ===== *)
theory Firewall_Witnesses
  imports Host_Witnesses
begin

text \<open>
  The properties of the firewalls of a host and of a provider, and of the executor of the core
  capabilities, at concrete machines, accounts and services.
\<close>

section \<open>The firewall of the host\<close>

text \<open>A host whose state is its ruleset file and the loaded ruleset, and that does what a script says.\<close>

definition nft_box :: "string \<Rightarrow> string list \<Rightarrow> string option \<Rightarrow> nft_state \<Rightarrow> exec_result \<times> nft_state" where
  "nft_box prog args stdin r = (if \<not> for_demo args then (ok_result [], r)
     else case stdin of
       Some c \<Rightarrow> (case script_effect (\<lambda>w. w = ''nft'') c r of
           Some st \<Rightarrow> (ok_result [], st) | None \<Rightarrow> (\<lparr>ex_code = 1, ex_stdout = [], ex_stderr = []\<rparr>, r))
     | None \<Rightarrow> (ok_result ''nft'', r))"

lemma nft_box_laws: "nft_laws (demo_machine nft_box) demo_host (\<lambda>w. w = ''nft'') (\<lambda>r. r)"
proof -
  have m: "mc_runner (demo_machine nft_box) = nft_box" by (simp add: demo_machine_def)
  have "first_line (ok_result ''nft'') = ''nft''" "plain_word ''nft''" by code_simp+
  then show ?thesis by (auto simp: nft_laws_def m for_demo_args nft_box_def)
qed

lemma applied_firewall_recorded_witness:
  "\<exists>fw text. host_at ''h'' (snd (apply_firewall (demo_machine nft_box) no_probe ''h'' [] None (demo_plane (None, None)))) =
     Some (demo_host\<lparr>h_firewall := Some fw\<rparr>) \<and> hfw_rules fw = [] \<and> renderNftables [] (renderOpts demo_host False) = Inr text \<and>
     snd (pl_remote (snd (apply_firewall (demo_machine nft_box) no_probe ''h'' [] None (demo_plane (None, None))))) = Some text"
proof -
  let ?r = "apply_firewall (demo_machine nft_box) no_probe ''h'' [] None (demo_plane (None, None))"
  have "\<not> isl (fst ?r)" by code_simp
  then obtain x p' where r: "?r = (Inr x, p')" by (cases ?r; cases "fst ?r") auto
  have n: "h_name demo_host = ''h''" by (simp add: demo_host_def)
  have free: "case renderNftables [] (renderOpts demo_host False) of Inl m \<Rightarrow> False | Inr text \<Rightarrow> heredoc_free text" by code_simp
  show ?thesis
    using applied_firewall_recorded[OF nft_box_laws demo_at, unfolded n, OF r] r free
    by (auto simp: kept_rules_def or_default_def)
qed

lemma lost_probe_forgets_firewall_witness:
  "\<exists>p'. forget_firewall (demo_machine (\<lambda>what args stdin r. (\<lparr>ex_code = 255, ex_stdout = [], ex_stderr = []\<rparr>, r))) ''h''
     (demo_host\<lparr>h_firewall := Some \<lparr>hfw_rules = [], hfw_policy_accept = False, hfw_applied_at = 0\<rparr>\<rparr>)
     ((demo_plane (Some ''ruleset''))\<lparr>pl_hosts := [demo_host\<lparr>h_firewall := Some \<lparr>hfw_rules = [], hfw_policy_accept = False, hfw_applied_at = 0\<rparr>\<rparr>]\<rparr>)
     = (Inr (), p') \<and> pl_remote p' = Some ''ruleset''"
proof -
  let ?h = "demo_host\<lparr>h_firewall := Some \<lparr>hfw_rules = [], hfw_policy_accept = False, hfw_applied_at = 0\<rparr>\<rparr>"
  let ?M = "demo_machine (\<lambda>what args stdin r. (\<lparr>ex_code = 255, ex_stdout = [], ex_stderr = []\<rparr>, r)) :: string option machine"
  let ?p = "(demo_plane (Some ''ruleset''))\<lparr>pl_hosts := [?h]\<rparr>"
  have "resolveSshTarget ?M ?h ?p = (Inr \<lparr>tgt_host = ?h, tgt_key = ''p/keys/me''\<rparr>, ?p)" by code_simp
  moreover have "host_at (h_name ?h) ?p = Some ?h" by (simp add: host_at_def)
  moreover have "h_name ?h = ''h''" "pl_remote ?p = Some ''ruleset''" by (simp_all add: demo_host_def demo_plane_def)
  ultimately show ?thesis
    using lost_probe_forgets_firewall[where M = ?M and h = ?h and p = ?p and n = "''h''"] by (force simp: demo_machine_def)
qed

section \<open>Firewalls at a provider\<close>

type_synonym account = "((provider \<times> string) \<times> edge_firewall) list"

definition edit_firewall :: "provider \<Rightarrow> string \<Rightarrow> (edge_firewall \<Rightarrow> edge_firewall) \<Rightarrow> account \<Rightarrow> (failure + unit) \<times> account" where
  "edit_firewall pr i f r = (case map_of r (pr, i) of None \<Rightarrow> (Inl (Bad_Request ''unknown''), r)
     | Some fw \<Rightarrow> (Inr (), AList.update (pr, i) (f fw) r))"

definition demo_edge :: "account edge" where
  "demo_edge = \<lparr>ed_billing = (\<lambda>pr. ''hourly''), ed_list = (\<lambda>pr r. (Inr (map snd (filter (\<lambda>((q, i), f). q = pr) r)), r)),
     ed_get = (\<lambda>pr i r. (Inr (map_of r (pr, i)), r)),
     ed_create = (\<lambda>pr n ls rs ids r. case map_of r (pr, n) of Some f \<Rightarrow> (Inl (Bad_Request ''taken''), r)
       | None \<Rightarrow> (Inr n, AList.update (pr, n) \<lparr>ef_id = n, ef_name = n, ef_rules = rs, ef_labels = ls, ef_applied = ids\<rparr> r)),
     ed_update = (\<lambda>pr i rs. edit_firewall pr i (\<lambda>f. f\<lparr>ef_rules := rs\<rparr>)),
     ed_delete = (\<lambda>pr i r. (Inr (), AList.delete (pr, i) r)),
     ed_attach = (\<lambda>pr i ids. edit_firewall pr i (\<lambda>f. f\<lparr>ef_applied := ef_applied f @ ids\<rparr>)),
     ed_detach = (\<lambda>pr i ids. edit_firewall pr i (\<lambda>f. f\<lparr>ef_applied := filter (\<lambda>x. x \<notin> set ids) (ef_applied f)\<rparr>))\<rparr>"

definition demo_made :: "account makings" where
  "demo_made r pr i = map_option (\<lambda>f. (ef_name f, ef_labels f, ef_rules f)) (map_of r (pr, i))"

lemma made_applied: "map_of r (pr, i) = Some f \<Longrightarrow> demo_made (AList.update (pr, i) (f\<lparr>ef_applied := ids\<rparr>) r) = demo_made r"
  by (intro ext) (simp add: demo_made_def AList.update_conv')

lemma demo_edge_laws: "edge_laws demo_edge demo_made"
  by (auto simp: edge_laws_def demo_edge_def edit_firewall_def made_applied split: option.splits)
    (auto simp: demo_made_def AList.update_conv' AList.delete_conv')

definition web_firewall :: edge_firewall where
  "web_firewall = \<lparr>ef_id = ''1'', ef_name = ''web'', ef_rules = [], ef_labels = [], ef_applied = [''7'']\<rparr>"

definition web_host :: host where
  "web_host = demo_host\<lparr>h_provider := Some ''hetzner'', h_provider_server := Some ''7''\<rparr>"

definition account_plane :: "account plane" where
  "account_plane = (demo_plane [((Hetzner, ''1''), web_firewall)])\<lparr>pl_hosts := [web_host]\<rparr>"

definition account_machine :: "account machine" where
  "account_machine = demo_machine (\<lambda>what args stdin r. (ok_result [], r))"

lemma account_foreign:
  "demo_made (pl_remote account_plane) Hetzner ''1'' = Some (''web'', [], [])" "\<not> isVopsManaged (Some ''web'') []"
  by code_simp+

lemma foreign_firewalls_kept_witness:
  "demo_made (pl_remote (snd (delete_firewall account_machine demo_edge ''hetzner'' ''1'' False True account_plane))) Hetzner ''1'' =
     Some (''web'', [], [])"
  using foreign_firewalls_kept[OF demo_edge_laws account_foreign] by blast

lemma guarded_never_open_witness:
  "\<exists>d. sv_detected (withDetected (provider_view web_host [web_firewall]) None Provider_Engine) = Some d \<and> dv_active d"
proof -
  have g: "guardsHost web_firewall web_host" "\<not> sv_active (withDetected (provider_view web_host [web_firewall]) None Provider_Engine)"
    by code_simp+
  then show ?thesis using guarded_never_open[of "[web_firewall]" web_firewall web_host None Provider_Engine] by simp
qed

lemma detach_ignores_ownership_witness:
  "map_of (pl_remote (snd (detach_firewall account_machine demo_edge ''hetzner'' ''1'' [''7''] account_plane))) (Hetzner, ''1'') =
     Some (web_firewall\<lparr>ef_applied := []\<rparr>)"
proof -
  have r: "resolveProvider (mc_provider_text account_machine) ''hetzner'' = Some Hetzner" by code_simp
  have b: "ed_billing demo_edge Hetzner = ''hourly''" by (simp add: demo_edge_def)
  obtain a where "detach_firewall account_machine demo_edge ''hetzner'' ''1'' [''7''] account_plane =
      on_remote_or_fail (ed_detach demo_edge Hetzner ''1'' [''7'']) (account_plane\<lparr>pl_audit := a # pl_audit account_plane\<rparr>)"
    using detach_ignores_ownership[OF r b] by blast
  then show ?thesis
    by (simp add: on_remote_or_fail_def demo_edge_def edit_firewall_def account_plane_def demo_plane_def web_firewall_def)
qed

lemma provider_set_guarded_witness:
  "pl_remote (snd (set_server_firewall account_machine demo_edge (\<lambda>s. None) no_probe ''h'' [] account_plane)) =
     [((Hetzner, ''1''), web_firewall)]"
proof -
  have f: "findForeignProviderFirewall account_machine demo_edge web_host account_plane = (Inr (Some web_firewall), account_plane)"
    by code_simp
  have h: "host_at ''h'' account_plane = Some web_host" "engine_of account_machine web_host = Provider_Engine"
    "firstServiceError [] = None"
    by code_simp+
  have "pl_remote account_plane = [((Hetzner, ''1''), web_firewall)]" by (simp add: account_plane_def demo_plane_def)
  then show ?thesis
    using provider_set_guarded[OF h f, where decode = "\<lambda>s. None" and tcpProbe = no_probe] by auto
qed

section \<open>The executor of the core capabilities\<close>

definition no_answer :: "'a answer" where
  "no_answer w = Inl (Js_Error ''none'')"

definition demo_services :: services where
  "demo_services = \<lparr>cs_number = (\<lambda>j. None), cs_realpath = (\<lambda>p w. Inr p), cs_entries = (\<lambda>p w. Inr []), cs_read_file = (\<lambda>p w. Inr []),
     cs_read_plan = (\<lambda>p w. Inr \<lparr>pp_monthly = Some 4, pp_hourly = None, pp_content = JNull\<rparr>),
     cs_spec_generate = (\<lambda>a b c d. no_answer), cs_spec_validate = (\<lambda>a. no_answer), cs_catalog_list = (\<lambda>a. no_answer),
     cs_catalog_describe = (\<lambda>a. no_answer), cs_catalog_compare = (\<lambda>a b c. no_answer), cs_apps_install = (\<lambda>a b c d. no_answer),
     cs_apps_status = (\<lambda>a b. no_answer), cs_apps_restart = (\<lambda>a b. no_answer), cs_apps_logs = (\<lambda>a b c. no_answer),
     cs_agent_plan = (\<lambda>a. no_answer), cs_agent_apply = (\<lambda>a b. no_answer), cs_agent_verify = (\<lambda>a b. no_answer),
     cs_providers = no_answer, cs_hosts = (\<lambda>w. Inr [(''h'', JNum 1), (''g'', JNum 2)]), cs_host_show = (\<lambda>a. no_answer),
     cs_host_status = (\<lambda>a. no_answer), cs_servers = (\<lambda>a. no_answer), cs_server_show = (\<lambda>a b. no_answer),
     cs_server_create = (\<lambda>p w. Inr (JStr ''made'')), cs_server_delete = (\<lambda>a b w. Inr ()), cs_harden = (\<lambda>a b c. no_answer),
     cs_firewall_get = (\<lambda>a. no_answer), cs_firewall_set = (\<lambda>a b. no_answer)\<rparr>"


definition demo_context :: exec_context where
  "demo_context = \<lparr>ctx_session = demo_session\<lparr>ses_scope := \<lparr>scope_projects = [], scope_targets = [''g''], scope_environments = []\<rparr>\<rparr>,
     ctx_plan = demo_plan, ctx_operation = ''q''\<rparr>"

lemma targets_within_scope_witness:
  "fst (core_execute demo_lib demo_services ''target.list'' [] demo_context session_world) = Inr (JArr [JNum 2])"
  using targets_within_scope[of demo_services session_world "[(''h'', JNum 1), (''g'', JNum 2)]" demo_context demo_lib "[]"]
  by (simp add: demo_services_def demo_context_def)

definition provision_context :: exec_context where
  "provision_context = \<lparr>ctx_session = demo_session, ctx_plan = demo_plan, ctx_operation = ''q''\<rparr>"


lemma path_inside_exact_witness: "assertPathInside ''/r'' ''/r/../x'' \<noteq> Inr ''/r/../x''"
proof -
  have "normal ''/r/../x'' = [''x'']" "normal ''/r'' = [''r'']" by code_simp+
  then show ?thesis by (simp add: path_inside_exact)
qed

end
