(* ===== verification/Remote_Store.thy ===== *)
theory Remote_Store
  imports Action_Broker
begin

text \<open>
  The data of the remote control plane (src/src/remote/remote-model.ts, remote-message.types.ts,
  remote-transport.types.ts) and its tables (remote-store.ts): paired devices, pairing sessions,
  the counters and message ids of the relay, signed commands with their nonces, and conditional
  intents. The state \<open>remote\<close> holds the agent control plane's \<open>world\<close> beside them.
\<close>

section \<open>Devices and pairings\<close>

datatype device_role = Viewer | Approver | Admin

datatype device_status = Dev_Pending | Dev_Active | Dev_Suspended | Dev_Revoked

text \<open>\<open>Some None\<close> for the end of a grant is a text that is not a date.\<close>

record restrictions =
  rs_projects :: "string list"
  rs_targets :: "string list"
  rs_environments :: "environment list"
  rs_max_risk :: risk
  rs_approval_kinds :: "string list"
  rs_max_spend :: rat
  rs_valid_until :: "instant option option"

record device =
  dv_id :: string
  dv_route :: string
  dv_label :: string
  dv_role :: device_role
  dv_status :: device_status
  dv_signing_key :: string
  dv_exchange_key :: string
  dv_key_id :: string
  dv_restrictions :: restrictions
  dv_paired_at :: instant
  dv_updated_at :: instant
  dv_last_seen_at :: "instant option"
  dv_revoked_at :: "instant option"
  dv_suspended_at :: "instant option"

datatype pairing_status = Pair_Pending | Hello_Received | Confirmed | Pair_Expired | Pair_Cancelled

record pairing =
  pg_id :: string
  pg_node :: string
  pg_challenge :: string
  pg_status :: pairing_status
  pg_created_at :: instant
  pg_expires_at :: instant
  pg_route :: "string option"
  pg_signing_key :: "string option"
  pg_exchange_key :: "string option"
  pg_signature :: "string option"
  pg_device :: "string option"

definition DEFAULT_DEVICE_RESTRICTIONS :: restrictions where
  "DEFAULT_DEVICE_RESTRICTIONS = \<lparr>rs_projects = [], rs_targets = [], rs_environments = [Development, Staging],
     rs_max_risk = Medium, rs_approval_kinds = [''plan'', ''operation''], rs_max_spend = 0, rs_valid_until = None\<rparr>"

fun role_text :: "device_role \<Rightarrow> string" where
  "role_text Viewer = ''viewer''"
| "role_text Approver = ''approver''"
| "role_text Admin = ''admin''"

fun device_status_text :: "device_status \<Rightarrow> string" where
  "device_status_text Dev_Pending = ''pending''"
| "device_status_text Dev_Active = ''active''"
| "device_status_text Dev_Suspended = ''suspended''"
| "device_status_text Dev_Revoked = ''revoked''"

fun pairing_status_text :: "pairing_status \<Rightarrow> string" where
  "pairing_status_text Pair_Pending = ''pending''"
| "pairing_status_text Hello_Received = ''hello_received''"
| "pairing_status_text Confirmed = ''confirmed''"
| "pairing_status_text Pair_Expired = ''expired''"
| "pairing_status_text Pair_Cancelled = ''cancelled''"

section \<open>Conditional intents\<close>

datatype intent_status =
    It_Active | It_Paused | It_Triggered | It_Executing | It_Succeeded | It_Failed | It_Expired | It_Revoked

fun intent_status_text :: "intent_status \<Rightarrow> string" where
  "intent_status_text It_Active = ''active''"
| "intent_status_text It_Paused = ''paused''"
| "intent_status_text It_Triggered = ''triggered''"
| "intent_status_text It_Executing = ''executing''"
| "intent_status_text It_Succeeded = ''succeeded''"
| "intent_status_text It_Failed = ''failed''"
| "intent_status_text It_Expired = ''expired''"
| "intent_status_text It_Revoked = ''revoked''"

record intent_trigger =
  tg_type :: string
  tg_provider :: string
  tg_server_type :: string
  tg_location :: "string option"

record intent_action =
  ac_capability :: string
  ac_input :: "(string \<times> json) list"
  ac_environment :: environment
  ac_target :: "string option"

text \<open>The expiry is what \<open>Date.parse\<close> makes of the text: none when it is not a date.\<close>

record intent_constraints =
  cn_expires_at :: "instant option"
  cn_max_executions :: rat
  cn_max_spend :: rat
  cn_failure_behavior :: string

record proposal =
  pp_id :: string
  pp_objective :: string
  pp_trigger :: intent_trigger
  pp_action :: intent_action
  pp_constraints :: intent_constraints

record intent =
  it_id :: string
  it_device :: string
  it_version :: int
  it_objective :: string
  it_status :: intent_status
  it_trigger :: intent_trigger
  it_action :: intent_action
  it_constraints :: intent_constraints
  it_session :: string
  it_plan :: string
  it_plan_hash :: string
  it_approval :: string
  it_executions :: nat
  it_created_at :: instant
  it_updated_at :: instant
  it_last_checked_at :: "instant option"
  it_matched_at :: "instant option"
  it_operation :: "string option"
  it_last_error :: "string option"

section \<open>Signed commands and their results\<close>

text \<open>
  A command as it comes out of the encrypted message, its fields of the declared types; an absent
  text is the empty text, which the code reads for it (\<open>?? ''\<close>). Of the parameters: how many there
  are, the decision, the reason when it is a text, and the proposal of an intent.
\<close>

record parameters =
  pa_count :: nat
  pa_decision :: string
  pa_reason :: "string option"
  pa_intent :: "proposal option"

record signed_payload =
  sp_protocol :: int
  sp_command :: string
  sp_device :: string
  sp_node :: string
  sp_type :: string
  sp_kind :: string
  sp_subject :: string
  sp_version :: int
  sp_plan_hash :: "string option"
  sp_issued_at :: "instant option"
  sp_expires_at :: "instant option"
  sp_nonce :: string
  sp_parameters :: parameters

record signed_command =
  sc_payload :: signed_payload
  sc_key :: string
  sc_signature :: string

record command_request =
  rq_id :: string
  rq_signed :: signed_command

datatype outcome =
    Done_Approval approval
  | Done_Operation operation
  | Done_Session session
  | Done_Stop emergency_stop "string list"
  | Done_Intent intent

record command_result =
  cr_type :: string
  cr_request :: string
  cr_command :: "string option"
  cr_state :: string
  cr_duplicate :: bool
  cr_result :: "outcome option"
  cr_error :: "(string \<times> string) option"
  cr_at :: instant

section \<open>Messages\<close>

record metadata =
  md_sender :: string
  md_recipient :: string
  md_channel :: string
  md_created_at :: instant
  md_expires_at :: instant
  md_key :: string
  md_sequence :: nat

datatype message =
    Command_Message command_result
  | Intent_Message intent
  | Node_Confirmation device
  | State_Message json

text \<open>What a device asks of the local assistant; the turns themselves are another component's.\<close>

datatype chat_request =
    User_Message string "string option" "string option" string
  | Cancel_Message string string "string option"

section \<open>The state\<close>

record remote =
  rm_world :: world
  rm_next :: nat
  rm_devices :: "(string \<times> device) list"
  rm_pairings :: "(string \<times> pairing) list"
  rm_outbound :: "(string \<times> nat) list"
  rm_inbound :: "(string \<times> int) list"
  rm_replay :: "(string \<times> instant option) list"
  rm_commands :: "(string \<times> command_result) list"
  rm_nonces :: "(string \<times> string) list"
  rm_intents :: "(string \<times> intent) list"
  rm_secrets :: "(string \<times> string) list"
  rm_checking :: bool
  rm_frames :: nat
  rm_sent :: "(metadata \<times> message) list"
  rm_chats :: "(device \<times> chat_request) list"

text \<open>
  What a method throws: an error of the agent services, or an error with a code of its own (a
  command error, an error of the database driver).
\<close>

datatype rexn = Agent exn | Coded string string

type_synonym 'a ract = "(remote, rexn, 'a) action"

definition plain :: "string \<Rightarrow> rexn" where
  "plain m = Agent (Js_Error m)"

fun message_of :: "rexn \<Rightarrow> string" where
  "message_of (Agent (Control e)) = err_message e"
| "message_of (Agent (Js_Error m)) = m"
| "message_of (Coded c m) = m"

text \<open>A call of a service of the agent control plane.\<close>

definition on_agent :: "'a act \<Rightarrow> 'a ract" where
  "on_agent m r = (case m (rm_world r) of
       (Inl e, w) \<Rightarrow> (Inl (Agent e), r\<lparr>rm_world := w\<rparr>)
     | (Inr x, w) \<Rightarrow> (Inr x, r\<lparr>rm_world := w\<rparr>))"

definition remote_clock :: "instant ract" where
  "remote_clock = gets (\<lambda>r. w_now (rm_world r))"

text \<open>
  The identifiers of the remote services, from a supply of their own that never repeats: the random
  part has 20 letters, those \<open>localId\<close> takes of a UUID.
\<close>

definition remote_id :: "string \<Rightarrow> nat \<Rightarrow> string" where
  "remote_id prefix n = prefix @ ''_'' @ replicate (20 - length (show_nat n)) CHR ''a'' @ show_nat n"

lemma remote_id_inj [simp]: "remote_id p m = remote_id p n \<longleftrightarrow> m = n"
proof
  have skip: "dropWhile (\<lambda>c. c = CHR ''a'') (replicate k CHR ''a'' @ show_nat n) = show_nat n" for k n
  proof -
    have "dropWhile (\<lambda>c. c = CHR ''a'') (show_nat n) = show_nat n"
    proof (cases "show_nat n")
      case (Cons c cs)
      then show ?thesis using show_nat_digits[of c n] by (auto simp: is_digit_def)
    qed simp
    then show ?thesis by (induction k) simp_all
  qed
  assume "remote_id p m = remote_id p n"
  then have "replicate (20 - length (show_nat m)) CHR ''a'' @ show_nat m = replicate (20 - length (show_nat n)) CHR ''a'' @ show_nat n"
    by (simp add: remote_id_def)
  then have "show_nat m = show_nat n" using skip by metis
  then show "m = n" by simp
qed simp

definition remoteId :: "string \<Rightarrow> string ract" where
  "remoteId prefix = andThen (gets rm_next) (\<lambda>n.
     andThen (modify (\<lambda>r. r\<lparr>rm_next := Suc n\<rparr>)) (\<lambda>_. ret (remote_id prefix n)))"

section \<open>Tables\<close>

text \<open>\<open>INSERT ... ON CONFLICT(id) DO UPDATE\<close>: a row that exists keeps its place.\<close>

definition put_row :: "string \<Rightarrow> 'r \<Rightarrow> (string \<times> 'r) list \<Rightarrow> (string \<times> 'r) list" where
  "put_row k x rows = (if k \<in> fst ` set rows then map (\<lambda>(k', x'). if k' = k then (k', x) else (k', x')) rows
     else rows @ [(k, x)])"

definition driver_error :: "string \<Rightarrow> rexn" where
  "driver_error m = Coded ''SQLITE_CONSTRAINT'' m"

text \<open>The upsert of a device conflicts on its id only: a second row for a route violates \<open>UNIQUE\<close>.\<close>

definition saveDevice :: "device \<Rightarrow> unit ract" where
  "saveDevice d = andThen (gets rm_devices) (\<lambda>rows.
     if \<exists>(k, d') \<in> set rows. k \<noteq> dv_id d \<and> dv_route d' = dv_route d
     then throw (driver_error ''UNIQUE constraint failed: remote_devices.route_id'')
     else modify (\<lambda>r. r\<lparr>rm_devices := put_row (dv_id d) d rows\<rparr>))"

definition getDevice :: "string \<Rightarrow> device option ract" where
  "getDevice i = gets (\<lambda>r. map_of (rm_devices r) i)"

definition getDeviceByRoute :: "string \<Rightarrow> device option ract" where
  "getDeviceByRoute route = gets (\<lambda>r. find (\<lambda>d. dv_route d = route) (map snd (rm_devices r)))"

definition listDevices :: "device list ract" where
  "listDevices = gets (\<lambda>r. sort_key (\<lambda>d. - dv_paired_at d) (map snd (rm_devices r)))"

definition savePairing :: "pairing \<Rightarrow> unit ract" where
  "savePairing p = modify (\<lambda>r. r\<lparr>rm_pairings := put_row (pg_id p) p (rm_pairings r)\<rparr>)"

definition getPairing :: "string \<Rightarrow> pairing option ract" where
  "getPairing i = gets (\<lambda>r. map_of (rm_pairings r) i)"

definition listPairings :: "pairing list ract" where
  "listPairings = gets (\<lambda>r. sort_key (\<lambda>p. - pg_created_at p) (map snd (rm_pairings r)))"

definition nextOutboundSequence :: "string \<Rightarrow> nat ract" where
  "nextOutboundSequence i = andThen (gets rm_outbound) (\<lambda>rows.
     let n = (case map_of rows i of None \<Rightarrow> 1 | Some k \<Rightarrow> Suc k) in
     andThen (modify (\<lambda>r. r\<lparr>rm_outbound := put_row i n rows\<rparr>)) (\<lambda>_. ret n))"

definition acceptInboundMessage :: "string \<Rightarrow> string \<Rightarrow> int \<Rightarrow> instant option \<Rightarrow> bool ract" where
  "acceptInboundMessage i messageId sequence expires = andThen (gets rm_replay) (\<lambda>rows.
     if messageId \<in> fst ` set rows then ret False
     else andThen (modify (\<lambda>r. r\<lparr>rm_replay := rows @ [(messageId, expires)],
            rm_inbound := put_row i (max (or_default (map_of (rm_inbound r) i) sequence) sequence) (rm_inbound r)\<rparr>))
          (\<lambda>_. ret True))"

text \<open>Rows whose expiry is past are deleted; nothing in the program asks for it.\<close>

definition pruneReplay :: "instant \<Rightarrow> unit ract" where
  "pruneReplay t = modify (\<lambda>r. r\<lparr>rm_replay := filter (\<lambda>(m, e). case e of Some e \<Rightarrow> t \<le> e | None \<Rightarrow> True) (rm_replay r)\<rparr>)"

text \<open>
  One batch of two inserts: the command id is unique in both tables, the nonce in its own; when
  either insert fails neither is made.
\<close>

definition rememberCommand :: "string \<Rightarrow> string \<Rightarrow> command_result \<Rightarrow> bool ract" where
  "rememberCommand commandId nonce c = andThen (gets (\<lambda>r. (rm_commands r, rm_nonces r))) (\<lambda>(commands, nonces).
     if commandId \<in> fst ` set commands \<or> nonce \<in> fst ` set nonces \<or> commandId \<in> snd ` set nonces then ret False
     else andThen (modify (\<lambda>r. r\<lparr>rm_commands := commands @ [(commandId, c)],
            rm_nonces := nonces @ [(nonce, commandId)]\<rparr>)) (\<lambda>_. ret True))"

definition saveCommandResult :: "string \<Rightarrow> command_result \<Rightarrow> unit ract" where
  "saveCommandResult commandId c = modify (\<lambda>r. r\<lparr>rm_commands :=
     map (\<lambda>(k, x). if k = commandId then (k, c) else (k, x)) (rm_commands r)\<rparr>)"

definition getCommand :: "string \<Rightarrow> command_result option ract" where
  "getCommand commandId = gets (\<lambda>r. map_of (rm_commands r) commandId)"

definition saveIntent :: "intent \<Rightarrow> unit ract" where
  "saveIntent x = modify (\<lambda>r. r\<lparr>rm_intents := put_row (it_id x) x (rm_intents r)\<rparr>)"

definition getIntent :: "string \<Rightarrow> intent option ract" where
  "getIntent i = gets (\<lambda>r. map_of (rm_intents r) i)"

definition listIntents :: "string option \<Rightarrow> intent list ract" where
  "listIntents d = gets (\<lambda>r. sort_key (\<lambda>x. - it_updated_at x)
     (filter (\<lambda>x. case nonempty d of None \<Rightarrow> True | Some i \<Rightarrow> it_device x = i) (map snd (rm_intents r))))"

section \<open>Reading what was written\<close>

lemma map_of_replaced: "map_of (map (\<lambda>(k', x'). if k' = k then (k', x) else (k', x')) rows) k' =
    (if k' = k then map_option (\<lambda>_. x) (map_of rows k) else map_of rows k')"
  by (induction rows) auto

lemma put_row_get: "map_of (put_row k x rows) k' = (if k' = k then Some x else map_of rows k')"
proof (cases "k \<in> fst ` set rows")
  case True
  then obtain y where "map_of rows k = Some y" by (cases "map_of rows k") (auto simp: map_of_eq_None_iff)
  with True show ?thesis by (simp add: put_row_def map_of_replaced)
next
  case False
  then have "map_of rows k = None" by (simp add: map_of_eq_None_iff)
  with False show ?thesis by (auto simp: put_row_def map_add_def split: option.split)
qed

lemma put_row_keys: "map fst (put_row k x rows) = (if k \<in> fst ` set rows then map fst rows else map fst rows @ [k])"
  by (induction rows) (auto simp: put_row_def)

lemma put_row_fst [simp]: "fst ` set (put_row k x rows) = insert k (fst ` set rows)"
  using arg_cong[OF put_row_keys[of k x rows], of set] by (auto split: if_splits)

lemma put_row_distinct: "distinct (map fst rows) \<Longrightarrow> distinct (map fst (put_row k x rows))"
  by (simp add: put_row_keys)

lemma put_rowE:
  assumes "(k', x') \<in> set (put_row k x rows)"
  obtains "k' = k" "x' = x" | "(k', x') \<in> set rows" "k' \<noteq> k"
  using assms by (cases "k \<in> fst ` set rows") (force simp: put_row_def split: if_splits)+

lemma put_row_mem: "(k, x) \<in> set (put_row k x rows)"
  by (rule map_of_SomeD) (simp add: put_row_get)

definition put_pairing :: "pairing \<Rightarrow> remote \<Rightarrow> remote" where
  "put_pairing p r = r\<lparr>rm_pairings := put_row (pg_id p) p (rm_pairings r)\<rparr>"

definition pairing_at :: "string \<Rightarrow> remote \<Rightarrow> pairing option" where
  "pairing_at i r = map_of (rm_pairings r) i"

definition put_intent :: "intent \<Rightarrow> remote \<Rightarrow> remote" where
  "put_intent x r = r\<lparr>rm_intents := put_row (it_id x) x (rm_intents r)\<rparr>"

definition intent_at :: "string \<Rightarrow> remote \<Rightarrow> intent option" where
  "intent_at i r = map_of (rm_intents r) i"

definition put_device :: "device \<Rightarrow> remote \<Rightarrow> remote" where
  "put_device d r = r\<lparr>rm_devices := put_row (dv_id d) d (rm_devices r)\<rparr>"

definition device_at :: "string \<Rightarrow> remote \<Rightarrow> device option" where
  "device_at i r = map_of (rm_devices r) i"

text \<open>The contract of the agent store holds of these tables, which are written as they are.\<close>

interpretation pairing_table: record_store put_pairing pairing_at pg_id "\<lambda>p. p"
  by unfold_locales (simp add: put_pairing_def pairing_at_def put_row_get)

interpretation intent_table: record_store put_intent intent_at it_id "\<lambda>x. x"
  by unfold_locales (simp add: put_intent_def intent_at_def put_row_get)

interpretation device_table: record_store put_device device_at dv_id "\<lambda>d. d"
  by unfold_locales (simp add: put_device_def device_at_def put_row_get)

section \<open>Running the store's methods\<close>

lemma wp_on_agent [wp_simps]: "wp (on_agent m) Q E r \<longleftrightarrow>
    wp m (\<lambda>x w. Q x (r\<lparr>rm_world := w\<rparr>)) (\<lambda>e w. E (Agent e) (r\<lparr>rm_world := w\<rparr>)) (rm_world r)"
  by (simp add: wp_def on_agent_def split: prod.split sum.split)

lemma keeps_on_agent: "(\<And>r w. P r \<Longrightarrow> P (r\<lparr>rm_world := w\<rparr>)) \<Longrightarrow> keeps P (on_agent m)"
  by (auto simp: keeps_def on_agent_def split: prod.split sum.split)

lemma on_agent_run:
  "m (rm_world r) = (Inl e, w) \<Longrightarrow> on_agent m r = (Inl (Agent e), r\<lparr>rm_world := w\<rparr>)"
  "m (rm_world r) = (Inr x, w) \<Longrightarrow> on_agent m r = (Inr x, r\<lparr>rm_world := w\<rparr>)"
  by (simp_all add: on_agent_def)

lemma remote_run [action_simps]:
  "remote_clock r = (Inr (w_now (rm_world r)), r)"
  "remoteId q r = (Inr (remote_id q (rm_next r)), r\<lparr>rm_next := Suc (rm_next r)\<rparr>)"
  "getDevice i r = (Inr (device_at i r), r)"
  "savePairing p r = (Inr (), put_pairing p r)"
  "getPairing i r = (Inr (pairing_at i r), r)"
  "saveIntent x r = (Inr (), put_intent x r)"
  "getIntent i r = (Inr (intent_at i r), r)"
  "getCommand c r = (Inr (map_of (rm_commands r) c), r)"
  by (simp_all add: remote_clock_def remoteId_def getDevice_def device_at_def savePairing_def put_pairing_def getPairing_def
      pairing_at_def saveIntent_def put_intent_def getIntent_def intent_at_def getCommand_def action_simps)

text \<open>
  What an action leaves alone: a part \<open>f\<close> of the state that it keeps at every value. A property of
  that part is then kept too.
\<close>

definition leaves :: "('w \<Rightarrow> 'b) \<Rightarrow> ('w, 'e, 'a) action \<Rightarrow> bool" where
  "leaves f m \<longleftrightarrow> (\<forall>w. f (snd (m w)) = f w)"

lemma leaves_keeps: "leaves f m \<longleftrightarrow> (\<forall>v. keeps (\<lambda>w. f w = v) m)"
  by (auto simp: leaves_def keeps_def)

lemma leavesI: "(\<And>v. keeps (\<lambda>w. f w = v) m) \<Longrightarrow> leaves f m"
  by (simp add: leaves_keeps)

lemma leavesD: "leaves f m \<Longrightarrow> m w = (x, w') \<Longrightarrow> f w' = f w"
  by (metis leaves_def snd_conv)

lemma leaves_keeps_part: "leaves f m \<Longrightarrow> keeps (\<lambda>w. P (f w)) m"
  by (simp add: leaves_def keeps_def)

end
