(* ===== verification/Remote_Messenger.thy ===== *)
theory Remote_Messenger
  imports Remote_Store
begin

text \<open>
  Messages to a device (src/src/remote/remote-messenger.ts) over the relay: what stands for the node's
  identity, the cipher, the relay's connection and the provider catalog is the record \<open>remote_env\<close>.
\<close>

section \<open>What the remote services rely on\<close>

text \<open>
  \<open>re_identity\<close>, \<open>re_encrypt\<close>, \<open>re_decrypt\<close>, \<open>re_verify\<close>, \<open>re_verify_pairing\<close>, \<open>re_key_id\<close>: the crypto
  service over the vault and libsodium, which may throw. \<open>re_enabled\<close>, \<open>re_announce\<close>, \<open>re_online\<close>: the
  configuration, the relay's answer to a new pairing, its reported state. \<open>re_link n\<close>: whether the
  relay is connected when the \<open>n\<close>-th frame is handed to it. \<open>re_snapshot\<close>: the state a device is shown. \<open>re_availability\<close>: the plans of a provider that match a name, with the
  places each is available at, from the catalog at an instant. \<open>re_resolve\<close>, \<open>re_registry\<close>,
  \<open>re_executor\<close>, \<open>re_lib\<close>: the parameters of the agent services.
\<close>

record plan_availability =
  av_id :: string
  av_name :: string
  av_everywhere :: bool
  av_locations :: "(string \<times> bool option) list"

record pairing_challenge =
  pc_pairing :: string
  pc_challenge :: string
  pc_route :: string
  pc_signing_key :: string
  pc_exchange_key :: string
  pc_expires_at :: instant

text \<open>
  An envelope as it arrives, its times as \<open>Date.parse\<close> reads them, and the object its text decodes to:
  a field has no value when it is not a text; the two optional fields may also be absent.
\<close>

record envelope =
  en_protocol :: int
  en_message :: string
  en_sender :: string
  en_recipient :: string
  en_channel :: string
  en_created_at :: "instant option"
  en_expires_at :: "instant option"
  en_key :: string
  en_sequence :: int
  en_ciphertext :: string

record plaintext =
  pt_type :: string
  pt_request :: "string option"
  pt_content :: "string option"
  pt_conversation :: "string option option"
  pt_provider :: "string option option"
  pt_target_request :: "string option"
  pt_command :: "signed_command option"

record remote_env =
  re_lib :: host_lib
  re_registry :: registry
  re_executor :: executor
  re_resolve :: "string \<Rightarrow> exn + string"
  re_workspace :: string
  re_identity :: "exn + string"
  re_encrypt :: "device \<Rightarrow> metadata \<Rightarrow> message \<Rightarrow> exn option"
  re_verify :: "signed_payload \<Rightarrow> string \<Rightarrow> string \<Rightarrow> exn + bool"
  re_verify_pairing :: "pairing_challenge \<Rightarrow> string \<Rightarrow> string \<Rightarrow> exn + bool"
  re_key_id :: "string \<Rightarrow> string \<Rightarrow> string"
  re_decrypt :: "device \<Rightarrow> envelope \<Rightarrow> exn + plaintext"
  re_enabled :: bool
  re_announce :: "string \<Rightarrow> instant \<Rightarrow> exn option"
  re_online :: "instant \<Rightarrow> bool"
  re_link :: "nat \<Rightarrow> bool"
  re_snapshot :: "device \<Rightarrow> remote \<Rightarrow> exn + json"
  re_availability :: "instant \<Rightarrow> string \<Rightarrow> string \<Rightarrow> exn + plan_availability list"

text \<open>A value a parameter computes, or the error it throws.\<close>

definition outside :: "exn + 'a \<Rightarrow> 'a ract" where
  "outside v = (case v of Inl e \<Rightarrow> throw (Agent e) | Inr x \<Rightarrow> ret x)"

definition ensureNodeIdentity :: "remote_env \<Rightarrow> string ract" where
  "ensureNodeIdentity E = outside (re_identity E)"

text \<open>\<open>encryptForDevice\<close> followed by \<open>relay.sendEnvelope\<close>, which throws when the socket is not open.\<close>

definition deliver :: "remote_env \<Rightarrow> device \<Rightarrow> metadata \<Rightarrow> message \<Rightarrow> unit ract" where
  "deliver E d md msg = (case re_encrypt E d md msg of
       Some e \<Rightarrow> throw (Agent e)
     | None \<Rightarrow> andThen (gets rm_frames) (\<lambda>n.
         andThen (modify (\<lambda>r. r\<lparr>rm_frames := Suc n\<rparr>)) (\<lambda>_.
         if re_link E n then modify (\<lambda>r. r\<lparr>rm_sent := (md, msg) # rm_sent r\<rparr>)
         else throw (plain ''The remote relay is not connected.''))))"

definition acknowledge :: "remote_env \<Rightarrow> unit ract" where
  "acknowledge E = andThen (gets rm_frames) (\<lambda>n.
     andThen (modify (\<lambda>r. r\<lparr>rm_frames := Suc n\<rparr>)) (\<lambda>_.
     if re_link E n then ret () else throw (plain ''The remote relay is not connected.'')))"

definition send_message :: "remote_env \<Rightarrow> device \<Rightarrow> string \<Rightarrow> message \<Rightarrow> int \<Rightarrow> unit ract" where
  "send_message E d channel msg ttl =
     (if dv_status d \<noteq> Dev_Active then throw (plain ''Cannot send to an inactive remote device.'')
      else andThen (ensureNodeIdentity E) (\<lambda>node. andThen remote_clock (\<lambda>t.
        andThen (nextOutboundSequence (dv_id d)) (\<lambda>n.
        deliver E d \<lparr>md_sender = node, md_recipient = dv_route d, md_channel = channel, md_created_at = t,
          md_expires_at = t + ttl, md_key = dv_key_id d, md_sequence = n\<rparr> msg))))"

text \<open>\<open>await p.catch(() => undefined)\<close>.\<close>

definition ignoring :: "('w, 'e, 'a) action \<Rightarrow> ('w, 'e, unit) action" where
  "ignoring m = catching (andThen m (\<lambda>_. ret ())) (\<lambda>_. ret ())"

section \<open>What sending touches\<close>

text \<open>The part of the state that only the handlers of the services change.\<close>

definition governed :: "remote \<Rightarrow> world \<times> nat \<times> (string \<times> device) list \<times> (string \<times> pairing) list \<times>
    (string \<times> command_result) list \<times> (string \<times> string) list \<times> (string \<times> intent) list \<times> (string \<times> string) list \<times>
    (string \<times> instant option) list \<times> bool" where
  "governed r = (rm_world r, rm_next r, rm_devices r, rm_pairings r, rm_commands r, rm_nonces r, rm_intents r,
     rm_secrets r, rm_replay r, rm_checking r)"

lemma keeps_outside [keeps_intros]: "keeps P (outside v)"
  by (cases v) (simp_all add: outside_def keeps_intros)

lemma keeps_remote_clock [keeps_intros]: "keeps P remote_clock"
  by (simp add: remote_clock_def keeps_intros)

lemma keeps_ignoring [keeps_intros]: "keeps P m \<Longrightarrow> keeps P (ignoring m)"
  unfolding ignoring_def by (intro keeps_intros)

lemma deliver_governed: "keeps (\<lambda>r. governed r = v) (deliver E d md msg)"
  unfolding deliver_def by (intro keeps_intros keeps_modify) (simp_all add: governed_def)

lemma send_governed: "keeps (\<lambda>r. governed r = v) (send_message E d channel msg ttl)"
  unfolding send_message_def ensureNodeIdentity_def nextOutboundSequence_def Let_def
  by (intro keeps_intros keeps_modify deliver_governed) (simp_all add: governed_def)

lemma send_leaves: "leaves governed (send_message E d channel msg ttl)"
  by (intro leavesI send_governed)

text \<open>Every property of the governed part, in the form the handlers' proofs use it.\<close>

lemma send_keeps:
  assumes "\<And>r r'. governed r' = governed r \<Longrightarrow> P r \<Longrightarrow> P r'"
  shows "keeps P (send_message E d channel msg ttl)"
proof (rule keepsI)
  fix r assume "P r"
  then show "P (snd (send_message E d channel msg ttl r))"
    using assms send_leaves[of E d channel msg ttl] unfolding leaves_def by blast
qed

end
