(* ===== verification/Intent_Service.thy ===== *)
theory Intent_Service
  imports Remote_Messenger Firewall_Services
begin

text \<open>
  Conditional intents (src/src/remote/intent.service.ts): a plan that an admin's device signs in advance
  and that runs once when a server type becomes available. The service keeps the session token of
  the intent among the secrets. The vault is taken as unlocked.
\<close>

section \<open>The view and the events of an intent\<close>

definition opt_time :: "string \<Rightarrow> instant option \<Rightarrow> (string \<times> json) list" where
  "opt_time k v = (case v of None \<Rightarrow> [] | Some t \<Rightarrow> [(k, JStr (iso_string t))])"

definition some_text :: "string \<Rightarrow> string option \<Rightarrow> (string \<times> json) list" where
  "some_text k v = opt_member k (nonempty v)"

definition trigger_json :: "intent_trigger \<Rightarrow> json" where
  "trigger_json g = JObj ([(''type'', JStr (tg_type g)), (''provider'', JStr (tg_provider g)),
     (''serverType'', JStr (tg_server_type g))] @ opt_member ''location'' (tg_location g))"

definition action_json :: "intent_action \<Rightarrow> json" where
  "action_json a = JObj ([(''capability'', JStr (ac_capability a)), (''input'', JObj (ac_input a)),
     (''environment'', JStr (environment_text (ac_environment a)))] @ opt_member ''target'' (ac_target a))"

definition constraints_json :: "intent_constraints \<Rightarrow> json" where
  "constraints_json c = JObj (opt_time ''expiresAt'' (cn_expires_at c) @
     [(''maxExecutions'', JNum (cn_max_executions c)), (''maxSpendEur'', JNum (cn_max_spend c)),
      (''failureBehavior'', JStr (cn_failure_behavior c))])"

definition publicIntent :: "intent \<Rightarrow> json" where
  "publicIntent x = JObj ([(''id'', JStr (it_id x)), (''device_id'', JStr (it_device x)),
     (''version'', JNum (of_int (it_version x))), (''objective'', JStr (it_objective x)),
     (''status'', JStr (intent_status_text (it_status x))), (''trigger'', trigger_json (it_trigger x)),
     (''action'', action_json (it_action x)), (''constraints'', constraints_json (it_constraints x)),
     (''plan_id'', JStr (it_plan x)), (''plan_hash'', JStr (it_plan_hash x)),
     (''execution_count'', JNum (of_nat (it_executions x))), (''created_at'', JStr (iso_string (it_created_at x))),
     (''updated_at'', JStr (iso_string (it_updated_at x)))] @ opt_time ''last_checked_at'' (it_last_checked_at x) @
     opt_time ''matched_at'' (it_matched_at x) @ some_text ''operation_id'' (it_operation x) @
     some_text ''last_error'' (it_last_error x))"

definition intent_event :: "intent \<Rightarrow> string \<Rightarrow> string \<Rightarrow> string \<Rightarrow> instant \<Rightarrow> new_event" where
  "intent_event x eventType summary i t = \<lparr>ne_id = i, ne_timestamp = t, ne_session = Some (it_session x),
     ne_actor = ''intent_watcher'', ne_operation = None, ne_type = eventType, ne_capability = None,
     ne_target = None, ne_summary = summary, ne_detail = publicIntent x\<rparr>"

definition log_intent :: "remote_env \<Rightarrow> intent \<Rightarrow> string \<Rightarrow> string \<Rightarrow> unit ract" where
  "log_intent E x eventType summary = on_agent (logEvent (re_lib E) (intent_event x eventType summary))"

section \<open>Checks of a proposal\<close>

definition MAX_INTENT_LIFETIME_MS :: int where
  "MAX_INTENT_LIFETIME_MS = 30 * 24 * 60 * 60000"

definition word_char :: "char \<Rightarrow> bool" where
  "word_char c \<longleftrightarrow> is_digit c \<or> is_upper c \<or> is_lower c \<or> c = CHR ''_'' \<or> c = CHR ''-''"

text \<open>\<open>/^<prefix>[A-Za-z0-9_-]{lo,hi}$/\<close>.\<close>

definition prefixed_id :: "string \<Rightarrow> nat \<Rightarrow> nat \<Rightarrow> string \<Rightarrow> bool" where
  "prefixed_id p lo hi s \<longleftrightarrow> starts_with s p \<and> list_all word_char (drop (length p) s) \<and>
     lo + length p \<le> length s \<and> length s \<le> hi + length p"

definition bounded :: "string \<Rightarrow> nat \<Rightarrow> bool" where
  "bounded s m \<longleftrightarrow> 0 < length s \<and> length s \<le> m"

definition validateProposal :: "instant \<Rightarrow> proposal \<Rightarrow> string option" where
  "validateProposal t p =
     (let g = pp_trigger p; a = pp_action p; c = pp_constraints p in
      if \<not> prefixed_id ''intent_'' 16 128 (pp_id p) then Some ''Intent ID is invalid.''
      else if trim (pp_objective p) = [] \<or> 500 < length (pp_objective p) then Some ''Intent objective is invalid.''
      else if tg_type g \<noteq> ''catalog.availability'' \<or> \<not> bounded (tg_provider g) 80 \<or> \<not> bounded (tg_server_type g) 120 \<or>
        (case tg_location g of None \<Rightarrow> False | Some l \<Rightarrow> \<not> bounded l 120)
      then Some ''Intent availability trigger is invalid.''
      else if \<not> bounded (ac_capability a) 120 then Some ''Intent action is invalid.''
      else case cn_expires_at c of None \<Rightarrow> Some ''Intent constraints are invalid.''
        | Some e \<Rightarrow> if e \<le> t \<or> MAX_INTENT_LIFETIME_MS < e - t \<or> cn_max_executions c \<noteq> 1 \<or> cn_max_spend c < 0 \<or>
              cn_failure_behavior c \<noteq> ''stop''
            then Some ''Intent constraints are invalid.'' else None)"

definition secretKey :: "string \<Rightarrow> string" where
  "secretKey i = ''vops-remote-intent-'' @ i"

definition sensitive_word :: "string list \<Rightarrow> string \<Rightarrow> bool" where
  "sensitive_word ws m \<longleftrightarrow> list_ex (\<lambda>w. includes_str (lower m) w) ws"

definition safeError :: "rexn \<Rightarrow> string" where
  "safeError e = (if sensitive_word [''token'', ''credential'', ''secret'', ''key''] (message_of e)
     then ''Intent failed inside the local control plane.'' else take 500 (message_of e))"

section \<open>Changing an intent\<close>

text \<open>\<open>update(intent, patch)\<close>: the argument has the patch applied; it is the caller's copy that is written.\<close>

definition update_intent :: "intent \<Rightarrow> intent ract" where
  "update_intent changed = andThen remote_clock (\<lambda>t.
     let x = changed\<lparr>it_version := it_version changed + 1, it_updated_at := t\<rparr> in
     andThen (saveIntent x) (\<lambda>_. ret x))"

definition notify_intent :: "remote_env \<Rightarrow> intent \<Rightarrow> unit ract" where
  "notify_intent E x = andThen (getDevice (it_device x)) (\<lambda>d. case d of
       None \<Rightarrow> ret ()
     | Some d \<Rightarrow> if dv_status d \<noteq> Dev_Active then ret ()
         else ignoring (send_message E d ''notification'' (Intent_Message x) (60 * 60000)))"

definition deactivate_intent :: "remote_env \<Rightarrow> intent \<Rightarrow> unit ract" where
  "deactivate_intent E x = andThen (ignoring (on_agent (revoke_session (re_lib E) (it_session x)))) (\<lambda>_.
     modify (\<lambda>r. r\<lparr>rm_secrets := filter (\<lambda>(k, v). k \<noteq> secretKey (it_id x)) (rm_secrets r)\<rparr>))"

text \<open>A change of status with its event; \<open>settle\<close> also ends the session and tells the device.\<close>

definition mark_intent :: "remote_env \<Rightarrow> intent \<Rightarrow> string \<Rightarrow> string \<Rightarrow> intent ract" where
  "mark_intent E changed eventType summary = andThen (update_intent changed) (\<lambda>x.
     andThen (log_intent E x eventType summary) (\<lambda>_. ret x))"

definition settle_intent :: "remote_env \<Rightarrow> intent \<Rightarrow> string \<Rightarrow> string \<Rightarrow> unit ract" where
  "settle_intent E changed eventType summary = andThen (mark_intent E changed eventType summary) (\<lambda>x.
     andThen (deactivate_intent E x) (\<lambda>_. notify_intent E x))"

section \<open>Creation\<close>

definition proposal_refusal :: "device \<Rightarrow> proposal \<Rightarrow> capability \<Rightarrow> string option" where
  "proposal_refusal d p c =
     (let rs = dv_restrictions d; a = pp_action p in
      if cap_enabled c \<noteq> Some True \<or> \<not> cap_supports_plan c \<or> cap_access c = Read
      then Some ''Intent action must be an enabled planned mutation.''
      else if cap_risk c = Destructive \<or> riskRank (rs_max_risk rs) < riskRank (cap_risk c)
      then Some ''Intent action risk exceeds the device grant.''
      else if ac_environment a \<notin> set (rs_environments rs)
      then Some ''Intent environment is outside the device grant.''
      else if (case nonempty (ac_target a) of None \<Rightarrow> False | Some t \<Rightarrow> rs_targets rs \<noteq> [] \<and> t \<notin> set (rs_targets rs))
      then Some ''Intent target is outside the device grant.''
      else if rs_max_spend rs < cn_max_spend (pp_constraints p)
      then Some ''Intent spending cap exceeds the device grant.''
      else None)"

definition intent_session_input :: "remote_env \<Rightarrow> device \<Rightarrow> proposal \<Rightarrow> session_input" where
  "intent_session_input E d p =
     (let a = pp_action p; ids = map cap_id (list_capabilities (re_registry E) True) in
      \<lparr>si_client = Other_Client, si_client_version = None,
       si_display_name = Some (''Conditional intent '' @ pp_id p), si_objective = pp_objective p,
       si_repository = re_workspace E, si_mode = Some Advisory,
       si_targets = Some (case nonempty (ac_target a) of Some t \<Rightarrow> [t] | None \<Rightarrow> rs_targets (dv_restrictions d)),
       si_environments = Some [ac_environment a],
       si_permissions = Some \<lparr>pi_allow = Some [], pi_allow_within = Some [ac_capability a],
         pi_require_approval = Some [], pi_deny = Some (filter (\<lambda>i. i \<noteq> ac_capability a) ids)\<rparr>,
       si_expires_minutes = Some (12 * 60), si_max_operations = Some 1,
       si_max_spend = Some (cn_max_spend (pp_constraints p))\<rparr>)"

definition intent_plan_input :: "proposal \<Rightarrow> plan_input" where
  "intent_plan_input p = (let a = pp_action p in
     \<lparr>pin_objective = pp_objective p, pin_environment = Some (ac_environment a), pin_target = ac_target a,
      pin_steps = [(ac_capability a, Some (ac_input a))],
      pin_success_criteria = Some [''The deterministic trigger matched within the approved intent window.''],
      pin_excluded_effects = Some [''No action outside the signed intent constraints is authorized.'']\<rparr>)"

text \<open>The session, the plan and its approval.\<close>

definition authorize_intent :: "remote_env \<Rightarrow> device \<Rightarrow> proposal \<Rightarrow> (session \<times> string \<times> agent_plan \<times> approval) ract" where
  "authorize_intent E d p = (let L = re_lib E in
     andThen (on_agent (create_session L (re_resolve E) (intent_session_input E d p))) (\<lambda>(s, token).
     andThen (on_agent (extendForConditionalIntent L (ses_id s) (cn_expires_at (pp_constraints p)))) (\<lambda>_.
     andThen (on_agent (broker_create_plan L (re_registry E) (Some token) (intent_plan_input p))) (\<lambda>(plan, a).
     case a of
       None \<Rightarrow> throw (plain ''Conditional intent action must produce an explicit plan approval.'')
     | Some a \<Rightarrow> andThen (on_agent (approve L (apr_id a) (''Pre-authorized by signed admin intent '' @ pp_id p @ ''.'')
           (''remote_device:'' @ dv_id d))) (\<lambda>_.
         ret (s, token, plan, a))))))"

definition build_intent :: "device \<Rightarrow> proposal \<Rightarrow> session \<Rightarrow> agent_plan \<Rightarrow> approval \<Rightarrow> instant \<Rightarrow> intent" where
  "build_intent d p s plan a t = \<lparr>it_id = pp_id p, it_device = dv_id d, it_version = 1, it_objective = pp_objective p,
     it_status = It_Active, it_trigger = pp_trigger p, it_action = pp_action p, it_constraints = pp_constraints p,
     it_session = ses_id s, it_plan = plan_id plan, it_plan_hash = plan_hash plan, it_approval = apr_id a,
     it_executions = 0, it_created_at = t, it_updated_at = t, it_last_checked_at = None, it_matched_at = None,
     it_operation = None, it_last_error = None\<rparr>"

definition activate_intent :: "remote_env \<Rightarrow> device \<Rightarrow> proposal \<Rightarrow> intent ract" where
  "activate_intent E d p = andThen (authorize_intent E d p) (\<lambda>(s, token, plan, a). andThen remote_clock (\<lambda>t.
     let x = build_intent d p s plan a t in
     andThen (saveIntent x) (\<lambda>_.
     andThen (modify (\<lambda>r. r\<lparr>rm_secrets := put_row (secretKey (it_id x)) token (rm_secrets r)\<rparr>)) (\<lambda>_.
     andThen (log_intent E x ''remote.intent.activated'' ''Activated a signed conditional intent.'') (\<lambda>_.
     ret x)))))"

definition create_intent :: "remote_env \<Rightarrow> device \<Rightarrow> proposal \<Rightarrow> intent ract" where
  "create_intent E d p = andThen remote_clock (\<lambda>t. case validateProposal t p of
       Some m \<Rightarrow> throw (plain m)
     | None \<Rightarrow> andThen (getIntent (pp_id p)) (\<lambda>known.
         if known \<noteq> None then throw (plain ''Intent ID already exists.'')
         else andThen (outside (describe (re_registry E) (ac_capability (pp_action p)))) (\<lambda>c.
           case proposal_refusal d p c of Some m \<Rightarrow> throw (plain m) | None \<Rightarrow> activate_intent E d p)))"

section \<open>Pausing and revoking\<close>

definition transition_intent :: "remote_env \<Rightarrow> string \<Rightarrow> string \<Rightarrow> intent_status \<Rightarrow> intent ract" where
  "transition_intent E i d st = andThen (getIntent i) (\<lambda>found.
     let unavailable = throw (plain ''Intent is unavailable to this device.'') in
     case found of None \<Rightarrow> unavailable
     | Some x \<Rightarrow>
         if it_device x \<noteq> d then unavailable
         else if it_status x \<notin> {It_Active, It_Paused} then
           (if it_status x = st then ret x
            else throw (plain (''Intent is '' @ intent_status_text (it_status x) @ '' and cannot become '' @
                   intent_status_text st @ ''.'')))
         else mark_intent E (x\<lparr>it_status := st\<rparr>) (''remote.intent.'' @ intent_status_text st)
                (''Conditional intent '' @ intent_status_text st @ ''.''))"

definition pause_intent :: "remote_env \<Rightarrow> string \<Rightarrow> string \<Rightarrow> intent ract" where
  "pause_intent E i d = transition_intent E i d It_Paused"

definition revoke_intent :: "remote_env \<Rightarrow> string \<Rightarrow> string \<Rightarrow> intent ract" where
  "revoke_intent E i d = andThen (transition_intent E i d It_Revoked) (\<lambda>x.
     andThen (deactivate_intent E x) (\<lambda>_. ret x))"

definition disable_intent :: "remote_env \<Rightarrow> bool \<Rightarrow> intent \<Rightarrow> unit ract" where
  "disable_intent E revoke x = (let st = (if revoke then It_Revoked else It_Paused) in
     andThen (mark_intent E (x\<lparr>it_status := st\<rparr>) (''remote.intent.'' @ intent_status_text st)
        (''Conditional intent '' @ intent_status_text st @ '' because its authorizing device was '' @
         (if revoke then ''revoked'' else ''suspended'') @ ''.'')) (\<lambda>x'.
     if revoke then deactivate_intent E x' else ret ()))"

definition disableForDevice :: "remote_env \<Rightarrow> string \<Rightarrow> bool \<Rightarrow> unit ract" where
  "disableForDevice E d revoke = andThen (listIntents None) (\<lambda>xs.
     andThen (for_each (disable_intent E revoke)
       (filter (\<lambda>x. it_device x = d \<and> (it_status x = It_Active \<or> it_status x = It_Paused)) xs)) (\<lambda>_. ret ()))"

section \<open>The watcher\<close>

text \<open>\<open>matched\<close>: a plan of the wanted name that is available everywhere, or in the wanted place.\<close>

definition trigger_matched :: "intent_trigger \<Rightarrow> plan_availability list \<Rightarrow> bool" where
  "trigger_matched g plans =
     (case find (\<lambda>p. lower (av_id p) = lower (tg_server_type g) \<or> lower (av_name p) = lower (tg_server_type g)) plans of
        None \<Rightarrow> False
      | Some p \<Rightarrow> av_everywhere p \<or> list_ex (\<lambda>(place, available). available = Some True \<and>
          (case nonempty (tg_location g) of None \<Rightarrow> True | Some l \<Rightarrow> lower place = lower l)) (av_locations p))"

definition failed_intent :: "intent \<Rightarrow> rexn \<Rightarrow> intent" where
  "failed_intent x e = x\<lparr>it_status := It_Failed, it_last_error := Some (safeError e)\<rparr>"

definition finish_run :: "remote_env \<Rightarrow> intent \<Rightarrow> operation \<Rightarrow> unit ract" where
  "finish_run E x q = (let succeeded = (op_state q = Op_Succeeded) in
     settle_intent E (x\<lparr>it_status := (if succeeded then It_Succeeded else It_Failed), it_executions := 1,
         it_operation := Some (op_id q),
         it_last_error := (case op_error q of Some e \<Rightarrow> Some (operr_message e) | None \<Rightarrow> it_last_error x)\<rparr>)
       (if succeeded then ''remote.intent.succeeded'' else ''remote.intent.failed'')
       (''Conditional intent execution '' @ op_state_text (op_state q) @ ''.''))"

text \<open>
  The body of \<open>try\<close> is the run and the writing of its result; \<open>executing\<close> is assigned once the
  result is written, so what the handler of a throw patches depends on how far the body came. The
  writes and events of the model do not throw, so only the run does.
\<close>

definition execute_intent :: "remote_env \<Rightarrow> intent \<Rightarrow> unit ract" where
  "execute_intent E x = andThen (gets (\<lambda>r. nonempty (map_of (rm_secrets r) (secretKey (it_id x))))) (\<lambda>token.
     case token of
       None \<Rightarrow> throw (plain ''Intent execution credential is unavailable.'')
     | Some token \<Rightarrow> andThen (update_intent (x\<lparr>it_status := It_Executing\<rparr>)) (\<lambda>executing.
         andThen (catching
             (andThen (on_agent (executePlan (re_lib E) (re_registry E) (re_executor E) (Some token) (it_plan x)))
               (\<lambda>q. ret (Inr q)))
             (\<lambda>e. ret (Inl e))) (\<lambda>ran. case ran of
           Inr q \<Rightarrow> finish_run E executing q
         | Inl e \<Rightarrow> settle_intent E ((failed_intent executing e)\<lparr>it_executions := 1\<rparr>)
             ''remote.intent.failed'' ''Conditional intent execution failed.'')))"

text \<open>
  \<open>evaluate\<close> in the two halves around the catalog's answer: \<open>answered_intent\<close> works on the copy of the
  intent that was read before the catalog was asked, whatever happened to the stored one since.
\<close>

definition act_on_answer :: "remote_env \<Rightarrow> intent \<Rightarrow> instant \<Rightarrow> bool \<Rightarrow> unit ract" where
  "act_on_answer E x t matched = andThen (update_intent (x\<lparr>it_last_checked_at := Some t\<rparr>)) (\<lambda>checked.
     if \<not> matched then ret ()
     else andThen (mark_intent E (checked\<lparr>it_status := It_Triggered, it_matched_at := Some t\<rparr>)
            ''remote.intent.matched'' ''Conditional intent trigger matched.'') (execute_intent E))"

definition answered_intent :: "remote_env \<Rightarrow> intent \<Rightarrow> instant \<Rightarrow> exn + plan_availability list \<Rightarrow> unit ract" where
  "answered_intent E x t answer =
     catching (andThen (outside answer) (\<lambda>plans. act_on_answer E x t (trigger_matched (it_trigger x) plans)))
       (\<lambda>e. settle_intent E (failed_intent x e) ''remote.intent.failed'' ''Conditional intent evaluation failed.'')"

definition evaluate_intent :: "remote_env \<Rightarrow> intent \<Rightarrow> instant \<Rightarrow> unit ract" where
  "evaluate_intent E x t =
     answered_intent E x t (re_availability E t (tg_provider (it_trigger x)) (tg_server_type (it_trigger x)))"

text \<open>An expiry that is not a date compares as false: such an intent does not expire.\<close>

definition check_intent :: "remote_env \<Rightarrow> instant \<Rightarrow> intent \<Rightarrow> unit ract" where
  "check_intent E t x =
     (if (case cn_expires_at (it_constraints x) of None \<Rightarrow> False | Some e \<Rightarrow> e \<le> t)
      then settle_intent E (x\<lparr>it_status := It_Expired\<rparr>) ''remote.intent.expired'' ''Conditional intent expired.''
      else evaluate_intent E x t)"

definition tick :: "remote_env \<Rightarrow> unit ract" where
  "tick E = andThen (gets rm_checking) (\<lambda>busy.
     if busy then ret ()
     else andThen (modify (\<lambda>r. r\<lparr>rm_checking := True\<rparr>)) (\<lambda>_.
       andThen (catching (andThen remote_clock (\<lambda>t. andThen (listIntents None) (\<lambda>xs.
           andThen (for_each (check_intent E t) (filter (\<lambda>x. it_status x = It_Active) xs)) (\<lambda>_. ret (Inr ())))))
         (\<lambda>e. ret (Inl e))) (\<lambda>out.
       andThen (modify (\<lambda>r. r\<lparr>rm_checking := False\<rparr>)) (\<lambda>_.
       case out of Inl e \<Rightarrow> throw e | Inr _ \<Rightarrow> ret ()))))"

section \<open>What the service leaves alone\<close>

text \<open>The tables of the other remote services; the watcher and the intents' operations keep them.\<close>

definition desk :: "remote \<Rightarrow> nat \<times> (string \<times> device) list \<times> (string \<times> pairing) list \<times>
    (string \<times> command_result) list \<times> (string \<times> string) list \<times> (string \<times> instant option) list" where
  "desk r = (rm_next r, rm_devices r, rm_pairings r, rm_commands r, rm_nonces r, rm_replay r)"

lemma desk_simps [simp]:
  "desk (r\<lparr>rm_world := w\<rparr>) = desk r" "desk (r\<lparr>rm_secrets := ss\<rparr>) = desk r" "desk (r\<lparr>rm_checking := b\<rparr>) = desk r"
  "desk (put_intent x r) = desk r" "desk (r\<lparr>rm_intents := xs\<rparr>) = desk r" "desk (r\<lparr>rm_chats := cs\<rparr>) = desk r"
  by (simp_all add: desk_def put_intent_def)

lemma reads_keep [keeps_intros]:
  "keeps P (getDevice i)" "keeps P (getIntent i)" "keeps P (listIntents o1)" "keeps P (getDeviceByRoute i)"
  "keeps P (getPairing i)" "keeps P (getCommand i)" "keeps P listPairings" "keeps P listDevices"
  by (simp_all add: getDevice_def getIntent_def listIntents_def getDeviceByRoute_def getPairing_def getCommand_def
      listPairings_def listDevices_def keeps_intros)

text \<open>
  The primitive steps of the service are writes of the agent's world, of an intent, of the secrets and
  of the watcher's flag, and messages. What these keep, every operation keeps: an operation stores a
  secret only for an intent it has just added under a new id.
\<close>

locale intent_frame =
  fixes P :: "remote \<Rightarrow> bool"
  assumes world: "P r \<Longrightarrow> P (r\<lparr>rm_world := w\<rparr>)"
    and put: "P r \<Longrightarrow> P (put_intent x r)"
    and forget: "P r \<Longrightarrow> P (r\<lparr>rm_secrets := filter f (rm_secrets r)\<rparr>)"
    and learn: "P r \<Longrightarrow> intent_at (it_id x) r = None \<Longrightarrow>
      P ((put_intent x r)\<lparr>rm_secrets := put_row (secretKey (it_id x)) token (rm_secrets r)\<rparr>)"
    and flag: "P r \<Longrightarrow> P (r\<lparr>rm_checking := b\<rparr>)"
    and messages: "governed r' = governed r \<Longrightarrow> P r \<Longrightarrow> P r'"
begin

lemma send [keeps_intros]: "keeps P (send_message E d channel msg ttl)"
  by (rule send_keeps) (rule messages)

lemma agent [keeps_intros]: "keeps P (on_agent m)"
  by (rule keeps_on_agent) (rule world)

lemma update [keeps_intros]: "keeps P (update_intent x)"
  unfolding update_intent_def Let_def saveIntent_def put_intent_def[symmetric]
  by (intro keeps_intros keeps_modify put)

lemma deactivate [keeps_intros]: "keeps P (deactivate_intent E x)"
  unfolding deactivate_intent_def by (intro keeps_intros keeps_modify forget)

lemma notify [keeps_intros]: "keeps P (notify_intent E x)"
  unfolding notify_intent_def by (intro keeps_intros)

lemma mark [keeps_intros]: "keeps P (mark_intent E x ty sm)"
  unfolding mark_intent_def log_intent_def by (intro keeps_intros)

lemma settle [keeps_intros]: "keeps P (settle_intent E x ty sm)"
  unfolding settle_intent_def by (intro keeps_intros)

lemma execute [keeps_intros]: "keeps P (execute_intent E x)"
  unfolding execute_intent_def finish_run_def Let_def by (intro keeps_intros)

lemma answered [keeps_intros]: "keeps P (answered_intent E x t answer)"
  unfolding answered_intent_def act_on_answer_def by (intro keeps_intros)

lemma ticking [keeps_intros]: "keeps P (tick E)"
  unfolding tick_def check_intent_def evaluate_intent_def by (intro keeps_intros keeps_modify flag)

lemma change [keeps_intros]: "keeps P (transition_intent E i d st)" "keeps P (pause_intent E i d)" "keeps P (revoke_intent E i d)"
  unfolding pause_intent_def revoke_intent_def transition_intent_def Let_def by (intro keeps_intros)+

lemma disable [keeps_intros]: "keeps P (disableForDevice E d revoke)"
  unfolding disableForDevice_def disable_intent_def Let_def by (intro keeps_intros)

lemma authorize: "keeps (\<lambda>r. P r \<and> intent_at i r = None) (authorize_intent E d p)"
  unfolding authorize_intent_def Let_def case_prod_beta
  by (intro keeps_intros keeps_on_agent) (simp_all add: world intent_at_def)

lemma create [keeps_intros]: "keeps P (create_intent E d p)"
proof -
  have "wp (activate_intent E d p) (\<lambda>_. P) (\<lambda>_. P) r" if "P r" and "intent_at (pp_id p) r = None" for r
  proof -
    let ?Q = "\<lambda>r. P r \<and> intent_at (pp_id p) r = None"
    have "wp (authorize_intent E d p) (\<lambda>_. ?Q) (\<lambda>_. ?Q) r"
      using authorize that unfolding keeps_wp by blast
    then have auth: "wp (authorize_intent E d p) (\<lambda>_. ?Q) (\<lambda>_. P) r" by (rule wp_mono) auto
    show ?thesis
      unfolding activate_intent_def
    proof (rule wp_seq[OF auth], elim conjE)
      fix x :: "session \<times> string \<times> agent_plan \<times> approval" and r' :: remote
      assume "P r'" and none: "intent_at (pp_id p) r' = None"
      obtain s token plan a where x: "x = (s, token, plan, a)" by (cases x)
      let ?y = "build_intent d p s plan a (w_now (rm_world r'))"
      have "P ((put_intent ?y r')\<lparr>rm_secrets := put_row (secretKey (it_id ?y)) token (rm_secrets r')\<rparr>)"
        using \<open>P r'\<close> none by (intro learn) (simp_all add: build_intent_def)
      then have "wp (andThen (log_intent E ?y ty sm) (\<lambda>_. ret ?y)) (\<lambda>_. P) (\<lambda>_. P)
          ((put_intent ?y r')\<lparr>rm_secrets := put_row (secretKey (it_id ?y)) token (rm_secrets r')\<rparr>)" for ty sm
        unfolding log_intent_def by (rule keeps_wp[THEN iffD1, rule_format, rotated]) (intro keeps_intros agent)
      then show "wp (case x of (s, token, plan, a) \<Rightarrow> andThen remote_clock (\<lambda>t.
          let x = build_intent d p s plan a t in
          andThen (saveIntent x) (\<lambda>_.
          andThen (modify (\<lambda>r. r\<lparr>rm_secrets := put_row (secretKey (it_id x)) token (rm_secrets r)\<rparr>)) (\<lambda>_.
          andThen (log_intent E x ''remote.intent.activated'' ''Activated a signed conditional intent.'') (\<lambda>_.
          ret x))))) (\<lambda>_. P) (\<lambda>_. P) r'"
        unfolding x prod.case remote_clock_def saveIntent_def Let_def put_intent_def[symmetric]
          wp_andThen[of "gets _"] wp_gets wp_andThen[of "modify _"] wp_modify
        by (simp add: put_intent_def)
    qed
  qed
  then show ?thesis
    unfolding keeps_wp create_intent_def remote_clock_def getIntent_def intent_at_def
    by (auto simp: wp_andThen wp_gets wp_throw wp_ret outside_def intent_at_def split: option.split sum.split)
qed

end

interpretation desk_frame: intent_frame "\<lambda>r. desk r = v" for v
  by unfold_locales (simp_all add: governed_def desk_def put_intent_def)

lemmas send_desk = desk_frame.send
lemmas disable_desk = desk_frame.disable

text \<open>An intent that is stored and whose session token is gone stays so: it can never run again.\<close>

definition spent :: "string \<Rightarrow> remote \<Rightarrow> bool" where
  "spent i r \<longleftrightarrow> intent_at i r \<noteq> None \<and> map_of (rm_secrets r) (secretKey i) = None"

lemma secretKey_inj [simp]: "secretKey i = secretKey j \<longleftrightarrow> i = j"
  by (simp add: secretKey_def)

lemma map_of_filter_none: "map_of xs k = None \<Longrightarrow> map_of (filter f xs) k = None"
  by (induction xs) (auto split: if_splits)

interpretation spent_frame: intent_frame "spent i" for i
  by unfold_locales (auto simp: spent_def governed_def intent_at_def put_intent_def put_row_get map_of_filter_none split: if_splits)

section \<open>Stopping the intents of a device\<close>

definition intents_wf :: "remote \<Rightarrow> bool" where
  "intents_wf r \<longleftrightarrow> distinct (map fst (rm_intents r)) \<and> (\<forall>(k, x) \<in> set (rm_intents r). it_id x = k)"

definition live_intent :: "intent \<Rightarrow> bool" where
  "live_intent x \<longleftrightarrow> it_status x = It_Active \<or> it_status x = It_Paused"

lemma intents_wf_at: "intents_wf r \<Longrightarrow> intent_at k r = Some x \<Longrightarrow> it_id x = k"
  by (auto simp: intents_wf_def intent_at_def dest!: map_of_SomeD)

lemma intents_wf_put: "intents_wf r \<Longrightarrow> intents_wf (put_intent x r)"
  by (auto simp: intents_wf_def put_intent_def put_row_distinct elim!: put_rowE)

lemma intent_frames [simp]:
  "intent_at i (r\<lparr>rm_world := w\<rparr>) = intent_at i r" "intent_at i (r\<lparr>rm_secrets := ss\<rparr>) = intent_at i r"
  "rm_secrets (put_intent x r) = rm_secrets r" "rm_world (put_intent x r) = rm_world r"
  by (simp_all add: intent_at_def put_intent_def)

definition bumped :: "intent \<Rightarrow> instant \<Rightarrow> intent" where
  "bumped x t = x\<lparr>it_version := it_version x + 1, it_updated_at := t\<rparr>"

lemma bumped_sel [simp]: "it_id (bumped x t) = it_id x" "it_device (bumped x t) = it_device x"
  "it_status (bumped x t) = it_status x" "it_plan (bumped x t) = it_plan x" "it_session (bumped x t) = it_session x"
  "it_executions (bumped x t) = it_executions x" "it_trigger (bumped x t) = it_trigger x"
  by (simp_all add: bumped_def)

lemma update_intent_run [action_simps]:
  "update_intent x r = (Inr (bumped x (w_now (rm_world r))), put_intent (bumped x (w_now (rm_world r))) r)"
  by (simp add: update_intent_def bumped_def Let_def andThen_def action_simps)

lemma log_intent_run [action_simps]:
  "log_intent E x ty sm r = (Inr (), r\<lparr>rm_world := logged (re_lib E) (intent_event x ty sm) (rm_world r)\<rparr>)"
  by (simp add: log_intent_def on_agent_run(2)[OF logEvent_run])

lemma mark_intent_run:
  obtains w where "mark_intent E x ty sm r = (Inr (bumped x (w_now (rm_world r))),
      (put_intent (bumped x (w_now (rm_world r))) r)\<lparr>rm_world := w\<rparr>)"
    and "\<And>i. session_at i w = session_at i (rm_world r)" and "w_plans w = w_plans (rm_world r)"
    and "w_operations w = w_operations (rm_world r)" and "w_approvals w = w_approvals (rm_world r)"
    and "w_now w = w_now (rm_world r)" and "w_safety w = w_safety (rm_world r)"
proof -
  define y where "y = bumped x (w_now (rm_world r))"
  define w where "w = logged (re_lib E) (intent_event y ty sm) (rm_world r)"
  have "mark_intent E x ty sm r = (Inr y, (put_intent y r)\<lparr>rm_world := w\<rparr>)"
    unfolding mark_intent_def
    by (simp add: andThen_run(2)[OF update_intent_run] andThen_run(2)[OF log_intent_run] run_action y_def w_def)
  then show thesis by (rule that[of w, folded y_def]) (simp_all add: w_def)
qed

lemma ignoring_run: "\<exists>r'. ignoring m r = (Inr (), r') \<and> r' = snd (m r)"
  by (cases "m r"; cases "fst (m r)") (auto simp: ignoring_def catching_def andThen_def ret_def)

lemma snd_on_agent: "snd (on_agent m r) = r\<lparr>rm_world := snd (m (rm_world r))\<rparr>"
  by (simp add: on_agent_def split: prod.split sum.split)

lemma deactivate_intent_run:
  "\<exists>w. deactivate_intent E x r = (Inr (), r\<lparr>rm_world := w,
     rm_secrets := filter (\<lambda>(k, v). k \<noteq> secretKey (it_id x)) (rm_secrets r)\<rparr>)"
proof -
  let ?m = "on_agent (revoke_session (re_lib E) (it_session x))"
  have "ignoring ?m r = (Inr (), snd (?m r))" using ignoring_run[of ?m r] by simp
  then show ?thesis
    unfolding deactivate_intent_def snd_on_agent by (subst andThen_run(2), assumption) (simp add: run_action, blast)
qed

lemma disable_intent_run:
  obtains y r' where "disable_intent E rv x r = (Inr (), r')" and "it_id y = it_id x" and "it_device y = it_device x"
    and "it_status y = (if rv then It_Revoked else It_Paused)"
    and "\<And>k. intent_at k r' = (if k = it_id x then Some y else intent_at k r)"
    and "intents_wf r \<Longrightarrow> intents_wf r'"
proof -
  define y where "y = bumped (x\<lparr>it_status := (if rv then It_Revoked else It_Paused)\<rparr>) (w_now (rm_world r))"
  obtain w where m: "\<And>ty sm. \<exists>w. mark_intent E (x\<lparr>it_status := (if rv then It_Revoked else It_Paused)\<rparr>) ty sm r =
      (Inr y, (put_intent y r)\<lparr>rm_world := w\<rparr>)"
    unfolding y_def by (metis mark_intent_run)
  have put: "intent_at k (put_intent y r) = (if k = it_id x then Some y else intent_at k r)" for k
    by (simp add: intent_table.get_put y_def)
  have wf: "intents_wf (put_intent y r)" if "intents_wf r" using that by (rule intents_wf_put)
  let ?ok = "\<lambda>r'. disable_intent E rv x r = (Inr (), r') \<and> (\<forall>k. intent_at k r' = intent_at k (put_intent y r)) \<and>
      rm_intents r' = rm_intents (put_intent y r)"
  have "\<exists>r'. ?ok r'"
  proof (cases rv)
    case True
    obtain w1 where "mark_intent E (x\<lparr>it_status := It_Revoked\<rparr>) (''remote.intent.'' @ intent_status_text It_Revoked)
        (''Conditional intent '' @ intent_status_text It_Revoked @ '' because its authorizing device was '' @ ''revoked'' @ ''.'') r =
        (Inr y, (put_intent y r)\<lparr>rm_world := w1\<rparr>)" using m True by auto
    then show ?thesis using True deactivate_intent_run[of E y "(put_intent y r)\<lparr>rm_world := w1\<rparr>"]
      by (auto simp: disable_intent_def andThen_run(2))
  next
    case False
    obtain w1 where "mark_intent E (x\<lparr>it_status := It_Paused\<rparr>) (''remote.intent.'' @ intent_status_text It_Paused)
        (''Conditional intent '' @ intent_status_text It_Paused @ '' because its authorizing device was '' @ ''suspended'' @ ''.'') r =
        (Inr y, (put_intent y r)\<lparr>rm_world := w1\<rparr>)" using m False by auto
    then show ?thesis using False by (auto simp: disable_intent_def andThen_run(2) action_simps)
  qed
  then obtain r' where "?ok r'" by blast
  then show thesis using that[of r' y] put wf by (auto simp: y_def intents_wf_def)
qed

lemma disable_each:
  assumes "\<forall>x \<in> set xs. it_device x = d"
  shows "\<exists>ys r'. for_each (disable_intent E rv) xs r = (Inr ys, r') \<and>
    (\<forall>k. k \<notin> it_id ` set xs \<longrightarrow> intent_at k r' = intent_at k r) \<and>
    (\<forall>k \<in> it_id ` set xs. \<exists>y. intent_at k r' = Some y \<and> it_device y = d \<and>
       it_status y = (if rv then It_Revoked else It_Paused)) \<and> (intents_wf r \<longrightarrow> intents_wf r')"
  using assms
proof (induction xs arbitrary: r)
  case Nil
  then show ?case by (simp add: action_simps)
next
  case (Cons x xs)
  obtain y r1 where one: "disable_intent E rv x r = (Inr (), r1)" "it_device y = it_device x"
      "it_status y = (if rv then It_Revoked else It_Paused)"
      "\<And>k. intent_at k r1 = (if k = it_id x then Some y else intent_at k r)" "intents_wf r \<Longrightarrow> intents_wf r1"
    using disable_intent_run[of E rv x r] by metis
  obtain ys r' where rest: "for_each (disable_intent E rv) xs r1 = (Inr ys, r')"
      "\<forall>k. k \<notin> it_id ` set xs \<longrightarrow> intent_at k r' = intent_at k r1"
      "\<forall>k \<in> it_id ` set xs. \<exists>y. intent_at k r' = Some y \<and> it_device y = d \<and>
         it_status y = (if rv then It_Revoked else It_Paused)" "intents_wf r1 \<longrightarrow> intents_wf r'"
    using Cons by force
  have "for_each (disable_intent E rv) (x # xs) r = (Inr (() # ys), r')"
    by (simp add: andThen_run(2)[where m = "disable_intent E rv x", OF one(1)]
        andThen_run(2)[where m = "for_each (disable_intent E rv) xs", OF rest(1)] run_action)
  moreover have "\<exists>z. intent_at (it_id x) r' = Some z \<and> it_device z = d \<and> it_status z = (if rv then It_Revoked else It_Paused)"
    using one(2-4) rest(2,3) Cons.prems by (cases "it_id x \<in> it_id ` set xs") auto
  ultimately show ?case using one(4,5) rest(2-4) by (intro exI[of _ "() # ys"] exI[of _ r']) simp
qed

lemma disableForDevice_stops:
  assumes "intents_wf r"
  shows "\<exists>r'. disableForDevice E d rv r = (Inr (), r') \<and> intents_wf r' \<and>
    (\<forall>k y. intent_at k r' = Some y \<and> it_device y = d \<longrightarrow> it_status y \<noteq> It_Active \<and> (rv \<longrightarrow> it_status y \<noteq> It_Paused)) \<and>
    (\<forall>k x. intent_at k r = Some x \<and> it_device x \<noteq> d \<longrightarrow> intent_at k r' = Some x)"
proof -
  let ?xs = "filter (\<lambda>x. it_device x = d \<and> (it_status x = It_Active \<or> it_status x = It_Paused))
      (sort_key (\<lambda>x. - it_updated_at x) (map snd (rm_intents r)))"
  obtain ys r' where run: "for_each (disable_intent E rv) ?xs r = (Inr ys, r')"
      "\<forall>k. k \<notin> it_id ` set ?xs \<longrightarrow> intent_at k r' = intent_at k r"
      "\<forall>k \<in> it_id ` set ?xs. \<exists>y. intent_at k r' = Some y \<and> it_device y = d \<and>
         it_status y = (if rv then It_Revoked else It_Paused)" "intents_wf r \<longrightarrow> intents_wf r'"
    using disable_each[of ?xs d E rv r] by auto
  have ids: "k \<in> it_id ` set ?xs \<longleftrightarrow> (\<exists>x. intent_at k r = Some x \<and> it_device x = d \<and> live_intent x)" for k
  proof
    assume "k \<in> it_id ` set ?xs"
    then obtain x where x: "x \<in> set ?xs" "it_id x = k" by blast
    then obtain k' where "(k', x) \<in> set (rm_intents r)" by auto
    then have "intent_at k r = Some x" using assms x(2) by (auto simp: intents_wf_def intent_at_def)
    then show "\<exists>x. intent_at k r = Some x \<and> it_device x = d \<and> live_intent x"
      using x(1) by (auto simp: live_intent_def)
  next
    assume "\<exists>x. intent_at k r = Some x \<and> it_device x = d \<and> live_intent x"
    then obtain x where x: "intent_at k r = Some x" "it_device x = d" "live_intent x" by blast
    then have "(k, x) \<in> set (rm_intents r)" and "it_id x = k"
      using intents_wf_at[OF assms x(1)] by (auto simp: intent_at_def dest: map_of_SomeD)
    then have "x \<in> set ?xs" using x by (force simp: live_intent_def)
    then show "k \<in> it_id ` set ?xs" using \<open>it_id x = k\<close> by blast
  qed
  have "disableForDevice E d rv r = (Inr (), r')"
    by (simp add: disableForDevice_def listIntents_def nonempty_def action_simps andThen_run(2)[where m = "for_each _ _", OF run(1)])
  moreover have "it_status y \<noteq> It_Active \<and> (rv \<longrightarrow> it_status y \<noteq> It_Paused)"
    if "intent_at k r' = Some y" and "it_device y = d" for k y
  proof (cases "k \<in> it_id ` set ?xs")
    case True
    then show ?thesis using run(3) that(1) by (auto split: if_splits)
  next
    case False
    then have "intent_at k r = Some y" using run(2) that(1) by simp
    then show ?thesis using False ids[of k] that(2) by (auto simp: live_intent_def)
  qed
  moreover have "intent_at k r' = Some x" if "intent_at k r = Some x" and "it_device x \<noteq> d" for k x
    using ids[of k] run(2) that by auto
  ultimately show ?thesis using run(4) assms by blast
qed

text \<open>
  An answer of the catalog that comes after an intent was paused, and does not match, writes the copy of
  the intent that was read before: it is active again.
\<close>

lemma stale_answer_reactivates:
  assumes "\<not> trigger_matched (it_trigger x) plans" and "it_status x = It_Active"
  shows "map_option it_status (intent_at (it_id x) (snd (answered_intent E x t (Inr plans) r))) = Some It_Active"
  using assms
  by (simp add: answered_intent_def act_on_answer_def catching_def outside_def andThen_ret
      andThen_run(2)[where m = "update_intent _", OF update_intent_run] run_action intent_table.get_put)

end
