(* ===== verification/Device_Registry.thy ===== *)
theory Device_Registry
  imports Intent_Service
begin

text \<open>
  The registry of paired devices (src/src/remote/device-registry.ts): registration with the
  restrictions of a role, and the status changes, which also stop the intents of the device. The
  relay is told of a new status; a failure there is ignored and leaves the state as it is.
\<close>

section \<open>Restrictions and labels\<close>

record restrictions_input =
  ri_projects :: "string list option"
  ri_targets :: "string list option"
  ri_environments :: "environment list option"
  ri_max_risk :: "risk option"
  ri_approval_kinds :: "string list option"
  ri_max_spend :: "rat option"
  ri_valid_until :: "instant option option"

definition no_restrictions :: restrictions_input where
  "no_restrictions = \<lparr>ri_projects = None, ri_targets = None, ri_environments = None, ri_max_risk = None,
     ri_approval_kinds = None, ri_max_spend = None, ri_valid_until = None\<rparr>"

fun role_baseline :: "device_role \<Rightarrow> restrictions" where
  "role_baseline Viewer = DEFAULT_DEVICE_RESTRICTIONS\<lparr>rs_max_risk := Read_Only, rs_approval_kinds := []\<rparr>"
| "role_baseline Approver = DEFAULT_DEVICE_RESTRICTIONS"
| "role_baseline Admin = DEFAULT_DEVICE_RESTRICTIONS\<lparr>rs_environments := [Development, Staging, Production]\<rparr>"

definition normalizeRestrictions :: "device_role \<Rightarrow> restrictions_input \<Rightarrow> restrictions" where
  "normalizeRestrictions role i = (let b = role_baseline role in
     \<lparr>rs_projects = or_default (ri_projects i) (rs_projects b),
      rs_targets = or_default (ri_targets i) (rs_targets b),
      rs_environments = or_default (ri_environments i) (rs_environments b),
      rs_max_risk = (if role = Viewer then Read_Only else or_default (ri_max_risk i) (rs_max_risk b)),
      rs_approval_kinds = (if role = Viewer then [] else or_default (ri_approval_kinds i) (rs_approval_kinds b)),
      rs_max_spend = max 0 (or_default (ri_max_spend i) (rs_max_spend b)),
      rs_valid_until = ri_valid_until i\<rparr>)"

text \<open>The restrictions of a device as the input of another call: every field is there.\<close>

definition as_input :: "restrictions \<Rightarrow> restrictions_input" where
  "as_input rs = \<lparr>ri_projects = Some (rs_projects rs), ri_targets = Some (rs_targets rs),
     ri_environments = Some (rs_environments rs), ri_max_risk = Some (rs_max_risk rs),
     ri_approval_kinds = Some (rs_approval_kinds rs), ri_max_spend = Some (rs_max_spend rs),
     ri_valid_until = rs_valid_until rs\<rparr>"

definition cleanLabel :: "string \<Rightarrow> rexn + string" where
  "cleanLabel label = (let v = filter (\<lambda>c. 32 \<le> (of_char c :: nat)) (trim label) in
     if v = [] \<or> 80 < length v then Inl (plain ''Device label must be between 1 and 80 characters.'') else Inr v)"

section \<open>Operations\<close>

definition device_event :: "device \<Rightarrow> string \<Rightarrow> string \<Rightarrow> string \<Rightarrow> instant \<Rightarrow> new_event" where
  "device_event d eventType summary i t = \<lparr>ne_id = i, ne_timestamp = t, ne_session = None, ne_actor = ''local_user'',
     ne_operation = None, ne_type = eventType, ne_capability = None, ne_target = None, ne_summary = summary,
     ne_detail = JObj [(''deviceId'', JStr (dv_id d)), (''label'', JStr (dv_label d)),
       (''role'', JStr (role_text (dv_role d))), (''status'', JStr (device_status_text (dv_status d)))]\<rparr>"

definition log_device :: "remote_env \<Rightarrow> device \<Rightarrow> string \<Rightarrow> string \<Rightarrow> unit ract" where
  "log_device E d eventType summary = on_agent (logEvent (re_lib E) (device_event d eventType summary))"

record registration =
  rg_route :: string
  rg_label :: string
  rg_role :: device_role
  rg_signing_key :: string
  rg_exchange_key :: string
  rg_key_id :: string
  rg_restrictions :: "restrictions_input option"

definition build_device :: "registration \<Rightarrow> string \<Rightarrow> string \<Rightarrow> instant \<Rightarrow> device" where
  "build_device g i label t = \<lparr>dv_id = i, dv_route = rg_route g, dv_label = label, dv_role = rg_role g,
     dv_status = Dev_Active, dv_signing_key = rg_signing_key g, dv_exchange_key = rg_exchange_key g,
     dv_key_id = rg_key_id g,
     dv_restrictions = normalizeRestrictions (rg_role g) (or_default (rg_restrictions g) no_restrictions),
     dv_paired_at = t, dv_updated_at = t, dv_last_seen_at = None, dv_revoked_at = None, dv_suspended_at = None\<rparr>"

definition registered :: "remote_env \<Rightarrow> device \<Rightarrow> device ract" where
  "registered E d = andThen (saveDevice d) (\<lambda>_.
     andThen (log_device E d ''remote.device.paired'' (''Paired remote device '' @ quoted (dv_label d) @ ''.'')) (\<lambda>_. ret d))"

definition register_device :: "remote_env \<Rightarrow> registration \<Rightarrow> device ract" where
  "register_device E g = andThen (getDeviceByRoute (rg_route g)) (\<lambda>existing.
     if (case existing of None \<Rightarrow> False | Some d \<Rightarrow> dv_status d \<noteq> Dev_Revoked)
     then throw (plain ''This device route is already paired.'')
     else andThen remote_clock (\<lambda>t. andThen (remoteId ''device'') (\<lambda>i.
       case cleanLabel (rg_label g) of Inl e \<Rightarrow> throw e | Inr label \<Rightarrow>
       registered E (build_device g i label t))))"

definition get_device :: "string \<Rightarrow> device ract" where
  "get_device i = andThen (getDevice i) (\<lambda>d. case d of
       None \<Rightarrow> throw (plain (''Remote device '' @ quoted i @ '' was not found.''))
     | Some d \<Rightarrow> ret d)"

text \<open>An end of the grant that is not a date compares as false.\<close>

definition grant_over :: "instant \<Rightarrow> device \<Rightarrow> bool" where
  "grant_over t d = (case rs_valid_until (dv_restrictions d) of Some (Some e) \<Rightarrow> e \<le> t | _ \<Rightarrow> False)"

definition getActiveByRoute :: "string \<Rightarrow> device ract" where
  "getActiveByRoute route = andThen (getDeviceByRoute route) (\<lambda>found.
     let inactive = throw (plain ''Remote device is not active.'') in
     case found of None \<Rightarrow> inactive
     | Some d \<Rightarrow> if dv_status d \<noteq> Dev_Active then inactive
         else andThen remote_clock (\<lambda>t. if grant_over t d then throw (plain ''Remote device grant expired.'') else ret d))"

definition touch_device :: "string \<Rightarrow> device ract" where
  "touch_device i = andThen (get_device i) (\<lambda>d. andThen remote_clock (\<lambda>t.
     let d' = d\<lparr>dv_last_seen_at := Some t, dv_updated_at := t\<rparr> in
     andThen (saveDevice d') (\<lambda>_. ret d')))"

definition with_status :: "device_status \<Rightarrow> device \<Rightarrow> instant \<Rightarrow> device" where
  "with_status st d t = d\<lparr>dv_status := st, dv_updated_at := t,
     dv_revoked_at := (if st = Dev_Revoked then Some t else dv_revoked_at d),
     dv_suspended_at := (if st = Dev_Suspended then Some t else dv_suspended_at d)\<rparr>"

definition setStatus :: "remote_env \<Rightarrow> string \<Rightarrow> device_status \<Rightarrow> device ract" where
  "setStatus E i st = andThen (get_device i) (\<lambda>d.
     if dv_status d = Dev_Revoked \<and> st \<noteq> Dev_Revoked then throw (plain ''A revoked device cannot be resumed.'')
     else andThen remote_clock (\<lambda>t.
       let d' = with_status st d t in
       andThen (saveDevice d') (\<lambda>_.
       andThen (if st = Dev_Suspended \<or> st = Dev_Revoked then disableForDevice E i (st = Dev_Revoked) else ret ()) (\<lambda>_.
       andThen (log_device E d' (''remote.device.'' @ device_status_text st)
          (''Remote device '' @ device_status_text st @ ''.'')) (\<lambda>_.
       ret d')))))"

definition suspend_device :: "remote_env \<Rightarrow> string \<Rightarrow> device ract" where
  "suspend_device E i = setStatus E i Dev_Suspended"

definition resume_device :: "remote_env \<Rightarrow> string \<Rightarrow> device ract" where
  "resume_device E i = setStatus E i Dev_Active"

definition revoke_device :: "remote_env \<Rightarrow> string \<Rightarrow> device ract" where
  "revoke_device E i = setStatus E i Dev_Revoked"

definition setRole :: "remote_env \<Rightarrow> string \<Rightarrow> device_role \<Rightarrow> device ract" where
  "setRole E i role = andThen (get_device i) (\<lambda>d.
     if dv_status d = Dev_Revoked then throw (plain ''A revoked device cannot receive a new role.'')
     else andThen remote_clock (\<lambda>t.
       let d' = d\<lparr>dv_role := role, dv_restrictions := normalizeRestrictions role (as_input (dv_restrictions d)),
            dv_updated_at := t\<rparr> in
       andThen (saveDevice d') (\<lambda>_.
       andThen (log_device E d' ''remote.device.role_changed''
          (''Changed remote device role to '' @ role_text role @ ''.'')) (\<lambda>_.
       ret d'))))"

section \<open>The table of devices\<close>

text \<open>
  What every operation keeps: a device under its own id, which comes from the supply, one device
  for a route, and viewers that can neither act nor approve.
\<close>

definition viewer_restricted :: "device \<Rightarrow> bool" where
  "viewer_restricted d \<longleftrightarrow> (dv_role d = Viewer \<longrightarrow>
     rs_max_risk (dv_restrictions d) = Read_Only \<and> rs_approval_kinds (dv_restrictions d) = [])"

definition devices_wf :: "remote \<Rightarrow> bool" where
  "devices_wf r \<longleftrightarrow> distinct (map fst (rm_devices r)) \<and>
     (\<forall>(k, d) \<in> set (rm_devices r). dv_id d = k \<and> (\<exists>n<rm_next r. k = remote_id ''device'' n) \<and> viewer_restricted d) \<and>
     inj_on (\<lambda>(k, d). dv_route d) (set (rm_devices r))"

definition revoked :: "string \<Rightarrow> remote \<Rightarrow> bool" where
  "revoked i r \<longleftrightarrow> (\<exists>d. device_at i r = Some d \<and> dv_status d = Dev_Revoked)"

definition dev_inv :: "bool \<Rightarrow> string \<Rightarrow> remote \<Rightarrow> bool" where
  "dev_inv b i r \<longleftrightarrow> devices_wf r \<and> (b \<longrightarrow> revoked i r)"

lemma dev_inv_desk: "desk r' = desk r \<Longrightarrow> dev_inv b i r \<Longrightarrow> dev_inv b i r'"
  by (auto simp: desk_def dev_inv_def devices_wf_def revoked_def device_at_def)

lemma keeps_dev_inv: "(\<And>v. keeps (\<lambda>r. desk r = v) m) \<Longrightarrow> keeps (dev_inv b i) m"
  unfolding keeps_def by (metis dev_inv_desk)

lemma dev_inv_world [simp]: "dev_inv b i (r\<lparr>rm_world := w\<rparr>) = dev_inv b i r"
  by (simp add: dev_inv_def devices_wf_def revoked_def device_at_def)

lemma devices_wf_at: "devices_wf r \<Longrightarrow> device_at i r = Some d \<Longrightarrow>
    (i, d) \<in> set (rm_devices r) \<and> dv_id d = i \<and> (\<exists>n<rm_next r. i = remote_id ''device'' n) \<and> viewer_restricted d"
  by (auto simp: devices_wf_def device_at_def dest!: map_of_SomeD)

lemma wp_saveDevice: "wp (saveDevice d) Q E r \<longleftrightarrow>
    (if \<exists>(k, d') \<in> set (rm_devices r). k \<noteq> dv_id d \<and> dv_route d' = dv_route d
     then E (driver_error ''UNIQUE constraint failed: remote_devices.route_id'') r
     else Q () (put_device d r))"
  by (simp add: saveDevice_def put_device_def wp_simps)

lemma put_device_wf:
  assumes wf: "devices_wf r" and own: "\<exists>n<rm_next r. dv_id d = remote_id ''device'' n" and v: "viewer_restricted d"
    and free: "\<not> (\<exists>(k, d') \<in> set (rm_devices r). k \<noteq> dv_id d \<and> dv_route d' = dv_route d)"
  shows "devices_wf (put_device d r)"
proof -
  have rows: "distinct (map fst (rm_devices r))"
    "\<And>k x. (k, x) \<in> set (rm_devices r) \<Longrightarrow> dv_id x = k \<and> (\<exists>n<rm_next r. k = remote_id ''device'' n) \<and> viewer_restricted x"
    using wf unfolding devices_wf_def by blast+
  have inj: "inj_on (\<lambda>(k, d). dv_route d) (set (rm_devices r))" using wf by (simp add: devices_wf_def)
  have old: "k = k' \<and> x = x'" if "(k, x) \<in> set (rm_devices r)" and "(k', x') \<in> set (rm_devices r)"
      and "dv_route x = dv_route x'" for k x k' x'
    using inj_onD[OF inj, of "(k, x)" "(k', x')"] that by simp
  have other: "dv_route x \<noteq> dv_route d" if "(k, x) \<in> set (rm_devices r)" and "k \<noteq> dv_id d" for k x
    using free that by blast
  have routes: "k = k' \<and> x = x'" if "(k, x) \<in> set (put_row (dv_id d) d (rm_devices r))"
      and "(k', x') \<in> set (put_row (dv_id d) d (rm_devices r))" and eq: "dv_route x = dv_route x'" for k x k' x'
    using that(1)
  proof (rule put_rowE)
    assume kx: "k = dv_id d" "x = d"
    show "k = k' \<and> x = x'" using that(2) by (rule put_rowE) (use kx eq other[of k' x'] in auto)
  next
    assume kx: "(k, x) \<in> set (rm_devices r)" "k \<noteq> dv_id d"
    show "k = k' \<and> x = x'" using that(2) by (rule put_rowE) (use kx eq other[of k x] old[of k x k' x'] in simp_all)
  qed
  have each: "dv_id x = k \<and> (\<exists>n<rm_next r. k = remote_id ''device'' n) \<and> viewer_restricted x"
    if "(k, x) \<in> set (put_row (dv_id d) d (rm_devices r))" for k x
    using that by (rule put_rowE) (use own v rows(2)[of k x] in auto)
  have "inj_on (\<lambda>(k, x). dv_route x) (set (put_row (dv_id d) d (rm_devices r)))"
    by (rule inj_onI) (clarsimp, drule (2) routes, simp)
  moreover have "\<forall>(k, x) \<in> set (put_row (dv_id d) d (rm_devices r)).
      dv_id x = k \<and> (\<exists>n<rm_next r. k = remote_id ''device'' n) \<and> viewer_restricted x"
    using each by blast
  ultimately show ?thesis
    unfolding devices_wf_def put_device_def using put_row_distinct[OF rows(1)] by simp
qed

lemma saveDevice_inv:
  assumes "dev_inv b i r" and "\<exists>n<rm_next r. dv_id d = remote_id ''device'' n" and "viewer_restricted d"
    and "b \<Longrightarrow> dv_id d = i \<Longrightarrow> dv_status d = Dev_Revoked"
  shows "wp (saveDevice d) (\<lambda>_. dev_inv b i) (\<lambda>_. dev_inv b i) r"
  using assms put_device_wf[of r d]
  by (auto simp: wp_saveDevice dev_inv_def revoked_def device_table.get_put)

lemma normalized_viewer [simp]: "viewer_restricted (d\<lparr>dv_role := role, dv_restrictions := normalizeRestrictions role x, dv_updated_at := t\<rparr>)"
  by (simp add: viewer_restricted_def normalizeRestrictions_def)

lemma built_viewer [simp]: "viewer_restricted (build_device g i label t)"
  by (simp add: viewer_restricted_def build_device_def normalizeRestrictions_def)

lemma built_sel [simp]: "dv_id (build_device g i label t) = i" "dv_route (build_device g i label t) = rg_route g"
  "dv_role (build_device g i label t) = rg_role g" "dv_status (build_device g i label t) = Dev_Active"
  "dv_signing_key (build_device g i label t) = rg_signing_key g"
  "dv_exchange_key (build_device g i label t) = rg_exchange_key g" "dv_label (build_device g i label t) = label"
  by (simp_all add: build_device_def)

section \<open>Every operation keeps the table\<close>

lemma log_device_keeps [keeps_intros]: "keeps (dev_inv b i) (log_device E d ty sm)"
  unfolding log_device_def by (rule keeps_on_agent) simp

lemma wp_keeps: "keeps P m \<Longrightarrow> P r \<Longrightarrow> wp m (\<lambda>_. P) (\<lambda>_. P) r"
  by (simp add: keeps_wp)

lemma devices_wf_next: "devices_wf r \<Longrightarrow> devices_wf (r\<lparr>rm_next := Suc (rm_next r)\<rparr>)"
  by (simp add: devices_wf_def less_Suc_eq) blast

lemma dev_inv_next: "dev_inv b i r \<Longrightarrow> dev_inv b i (r\<lparr>rm_next := Suc (rm_next r)\<rparr>)"
  using devices_wf_next[of r] by (simp add: dev_inv_def revoked_def device_at_def)

lemma dev_inv_fresh:
  assumes "dev_inv b i r" and b
  shows "i \<noteq> remote_id ''device'' (rm_next r)"
proof -
  obtain d where "devices_wf r" and "device_at i r = Some d" using assms by (auto simp: dev_inv_def revoked_def)
  then obtain n where "n < rm_next r" and "i = remote_id ''device'' n" using devices_wf_at by blast
  then show ?thesis by simp
qed

lemma save_log_inv:
  assumes "dev_inv b i r" and "\<exists>n<rm_next r. dv_id d = remote_id ''device'' n" and "viewer_restricted d"
    and "b \<Longrightarrow> dv_id d = i \<Longrightarrow> dv_status d = Dev_Revoked" and "\<And>u. keeps (dev_inv b i) (rest u)"
  shows "wp (andThen (saveDevice d) rest) (\<lambda>_. dev_inv b i) (\<lambda>_. dev_inv b i) r"
  by (rule wp_seq[OF saveDevice_inv[OF assms(1-4)]]) (auto intro: wp_keeps assms(5))

lemma keepsI_wp: "(\<And>r. P r \<Longrightarrow> wp m (\<lambda>_. P) (\<lambda>_. P) r) \<Longrightarrow> keeps P m"
  by (simp add: keeps_wp)

lemma register_keeps [keeps_intros]: "keeps (dev_inv b i) (register_device E g)"
proof (rule keepsI_wp)
  fix r assume inv: "dev_inv b i r"
  have step: "wp (registered E (build_device g (remote_id ''device'' (rm_next r)) label t))
      (\<lambda>_. dev_inv b i) (\<lambda>_. dev_inv b i) (r\<lparr>rm_next := Suc (rm_next r)\<rparr>)" for label t
    unfolding registered_def using dev_inv_fresh[OF inv] by (intro save_log_inv dev_inv_next[OF inv] keeps_intros) auto
  show "wp (register_device E g) (\<lambda>_. dev_inv b i) (\<lambda>_. dev_inv b i) r"
    unfolding register_device_def getDeviceByRoute_def remote_clock_def remoteId_def
    by (cases "cleanLabel (rg_label g)") (simp_all add: wp_andThen wp_gets wp_throw wp_modify wp_ret inv dev_inv_next step)
qed

lemma saved_keeps:
  assumes "\<And>r d. dev_inv b i r \<Longrightarrow> device_at i' r = Some d \<Longrightarrow> ok d \<Longrightarrow> dv_id (f d t) = dv_id d \<and>
      viewer_restricted (f d t) \<and> (dv_status d = Dev_Revoked \<longrightarrow> dv_status (f d t) = Dev_Revoked)"
    and "\<And>u. keeps (dev_inv b i) (rest u)" and "dev_inv b i r" and "device_at i' r = Some d" and "ok d"
  shows "wp (andThen (saveDevice (f d t)) rest) (\<lambda>_. dev_inv b i) (\<lambda>_. dev_inv b i) r"
proof (rule save_log_inv[OF assms(3)])
  have f: "dv_id (f d t) = dv_id d \<and> viewer_restricted (f d t) \<and> (dv_status d = Dev_Revoked \<longrightarrow> dv_status (f d t) = Dev_Revoked)"
    using assms by blast
  have own: "dv_id d = i'" "\<exists>n<rm_next r. i' = remote_id ''device'' n"
    using devices_wf_at[of r i' d] assms(3,4) by (auto simp: dev_inv_def)
  show "\<exists>n<rm_next r. dv_id (f d t) = remote_id ''device'' n" using f own by simp
  show "viewer_restricted (f d t)" using f by simp
  show "dv_status (f d t) = Dev_Revoked" if "b" and "dv_id (f d t) = i"
    using that f own assms(3,4) by (auto simp: dev_inv_def revoked_def)
  show "keeps (dev_inv b i) (rest u)" for u by (rule assms(2))
qed

lemma disable_keeps [keeps_intros]: "keeps (dev_inv b i) (disableForDevice E d rv)"
  by (rule keeps_dev_inv) (rule disable_desk)

lemma viewer_restricted_cong: "viewer_restricted d \<Longrightarrow> dv_role d' = dv_role d \<Longrightarrow> dv_restrictions d' = dv_restrictions d \<Longrightarrow>
    viewer_restricted d'"
  by (simp add: viewer_restricted_def)

lemma dev_inv_viewer: "dev_inv b i r \<Longrightarrow> device_at k r = Some d \<Longrightarrow> viewer_restricted d"
  using devices_wf_at by (auto simp: dev_inv_def)

lemma wp_get_device: "wp (get_device k) Q E r \<longleftrightarrow> (case device_at k r of
     None \<Rightarrow> E (plain (''Remote device '' @ quoted k @ '' was not found.'')) r | Some d \<Rightarrow> Q d r)"
  by (simp add: get_device_def getDevice_def device_at_def wp_simps split: option.split)

lemma touch_keeps [keeps_intros]: "keeps (dev_inv b i) (touch_device k)"
proof (rule keepsI_wp)
  fix r assume inv: "dev_inv b i r"
  show "wp (touch_device k) (\<lambda>_. dev_inv b i) (\<lambda>_. dev_inv b i) r"
  proof (cases "device_at k r")
    case None
    then show ?thesis using inv by (simp add: touch_device_def wp_andThen wp_get_device)
  next
    case (Some d)
    have "wp (andThen (saveDevice (d\<lparr>dv_last_seen_at := Some t, dv_updated_at := t\<rparr>)) rest)
        (\<lambda>_. dev_inv b i) (\<lambda>_. dev_inv b i) r" if "\<And>u. keeps (dev_inv b i) (rest u)"
      for t and rest :: "unit \<Rightarrow> device ract"
      by (rule saved_keeps[where f = "\<lambda>d t. d\<lparr>dv_last_seen_at := Some t, dv_updated_at := t\<rparr>" and ok = "\<lambda>_. True",
            OF _ that inv Some TrueI])
        (auto intro: viewer_restricted_cong dest: dev_inv_viewer)
    then show ?thesis
      by (simp add: touch_device_def remote_clock_def Let_def wp_andThen[of "get_device k"] wp_get_device Some
          wp_andThen[of "gets _"] wp_gets keeps_intros)
  qed
qed

lemma setRole_keeps [keeps_intros]: "keeps (dev_inv b i) (setRole E k role)"
proof (rule keepsI_wp)
  fix r assume inv: "dev_inv b i r"
  show "wp (setRole E k role) (\<lambda>_. dev_inv b i) (\<lambda>_. dev_inv b i) r"
  proof (cases "device_at k r")
    case None
    then show ?thesis using inv by (simp add: setRole_def wp_andThen wp_get_device)
  next
    case (Some d)
    let ?f = "\<lambda>d t. d\<lparr>dv_role := role, dv_restrictions := normalizeRestrictions role (as_input (dv_restrictions d)),
        dv_updated_at := t\<rparr>"
    have "wp (andThen (saveDevice (?f d t)) rest) (\<lambda>_. dev_inv b i) (\<lambda>_. dev_inv b i) r"
      if "\<And>u. keeps (dev_inv b i) (rest u)" for t and rest :: "unit \<Rightarrow> device ract"
      by (rule saved_keeps[where f = ?f and ok = "\<lambda>_. True", OF _ that inv Some TrueI]) auto
    then show ?thesis using inv
      by (simp add: setRole_def remote_clock_def Let_def wp_andThen[of "get_device k"] wp_get_device Some wp_throw
          wp_andThen[of "gets _"] wp_gets keeps_intros)
  qed
qed

lemma with_status_sel [simp]: "dv_status (with_status st d t) = st" "dv_id (with_status st d t) = dv_id d"
  "dv_role (with_status st d t) = dv_role d" "dv_restrictions (with_status st d t) = dv_restrictions d"
  "dv_route (with_status st d t) = dv_route d"
  by (simp_all add: with_status_def)

lemma setStatus_keeps [keeps_intros]: "keeps (dev_inv b i) (setStatus E k st)"
proof (rule keepsI_wp)
  fix r assume inv: "dev_inv b i r"
  show "wp (setStatus E k st) (\<lambda>_. dev_inv b i) (\<lambda>_. dev_inv b i) r"
  proof (cases "device_at k r")
    case None
    then show ?thesis using inv by (simp add: setStatus_def wp_andThen wp_get_device)
  next
    case (Some d)
    have step: "wp (andThen (saveDevice (with_status st d t)) rest) (\<lambda>_. dev_inv b i) (\<lambda>_. dev_inv b i) r"
      if "\<And>u. keeps (dev_inv b i) (rest u)" and "\<not> (dv_status d = Dev_Revoked \<and> st \<noteq> Dev_Revoked)"
      for t and rest :: "unit \<Rightarrow> device ract"
      by (rule saved_keeps[where f = "with_status st" and ok = "\<lambda>d. \<not> (dv_status d = Dev_Revoked \<and> st \<noteq> Dev_Revoked)",
            OF _ that(1) inv Some that(2)])
        (auto intro: viewer_restricted_cong dest: dev_inv_viewer)
    show ?thesis
      unfolding setStatus_def remote_clock_def Let_def wp_andThen[of "get_device k"] wp_get_device Some option.case
      by (rule wp_ifI, simp add: wp_throw inv, simp only: wp_andThen[of "gets _"] wp_gets, rule step)
        (intro keeps_intros, assumption)
  qed
qed

lemma status_keeps [keeps_intros]:
  "keeps (dev_inv b i) (suspend_device E k)" "keeps (dev_inv b i) (resume_device E k)"
  "keeps (dev_inv b i) (revoke_device E k)"
  by (simp_all add: suspend_device_def resume_device_def revoke_device_def setStatus_keeps)

section \<open>Revoking a device\<close>

text \<open>Whatever the relay does: the stored device is revoked and none of its intents can run any more.\<close>

lemma revoke_device_run:
  assumes "devices_wf r" and "intents_wf r" and "device_at i r = Some d"
  shows "\<exists>d' r'. revoke_device E i r = (Inr d', r') \<and> device_at i r' = Some d' \<and> dv_status d' = Dev_Revoked \<and>
    (\<forall>k x. intent_at k r' = Some x \<and> it_device x = i \<longrightarrow> it_status x \<noteq> It_Active \<and> it_status x \<noteq> It_Paused) \<and>
    (\<forall>k x. intent_at k r = Some x \<and> it_device x \<noteq> i \<longrightarrow> intent_at k r' = Some x)"
proof -
  let ?d = "with_status Dev_Revoked d (w_now (rm_world r))"
  have own: "(i, d) \<in> set (rm_devices r)" "dv_id d = i" using devices_wf_at[OF assms(1,3)] by auto
  have free: "\<not> (\<exists>(k, d') \<in> set (rm_devices r). k \<noteq> dv_id ?d \<and> dv_route d' = dv_route ?d)"
  proof
    assume "\<exists>(k, d') \<in> set (rm_devices r). k \<noteq> dv_id ?d \<and> dv_route d' = dv_route ?d"
    then obtain k d' where k: "(k, d') \<in> set (rm_devices r)" "k \<noteq> i" "dv_route d' = dv_route d" using own by auto
    then have "(k, d') = (i, d)" using assms(1) own(1) by (auto simp: devices_wf_def inj_on_def)
    then show False using k(2) by simp
  qed
  have save: "saveDevice ?d r = (Inr (), put_device ?d r)"
    using free by (auto simp: saveDevice_def put_device_def action_simps)
  have wf: "intents_wf (put_device ?d r)" and same: "intent_at k (put_device ?d r) = intent_at k r" for k
    using assms(2) by (simp_all add: intents_wf_def put_device_def intent_at_def)
  obtain r1 where off: "disableForDevice E i True (put_device ?d r) = (Inr (), r1)"
      and none: "\<And>k y. intent_at k r1 = Some y \<Longrightarrow> it_device y = i \<Longrightarrow> it_status y \<noteq> It_Active \<and> it_status y \<noteq> It_Paused"
      and others: "\<And>k x. intent_at k r = Some x \<Longrightarrow> it_device x \<noteq> i \<Longrightarrow> intent_at k r1 = Some x"
    using disableForDevice_stops[OF wf, of E i True] same by auto
  have "desk r1 = desk (put_device ?d r)" using keepsD[OF disable_desk _ off] by blast
  then have at: "device_at i r1 = Some ?d" using own(2)
    by (simp add: desk_def device_at_def put_device_def put_row_get)
  have "get_device i r = (Inr d, r)" using assms(3) by (simp add: get_device_def andThen_def action_simps)
  moreover have "log_device E ?d ty sm r1 = (Inr (), r1\<lparr>rm_world := logged (re_lib E) (device_event ?d ty sm) (rm_world r1)\<rparr>)" for ty sm
    by (simp add: log_device_def on_agent_run(2)[OF logEvent_run])
  ultimately have "\<exists>w. revoke_device E i r = (Inr ?d, r1\<lparr>rm_world := w\<rparr>)"
    using save off by (simp add: revoke_device_def setStatus_def Let_def andThen_def action_simps) blast
  then show ?thesis using at none others by (auto simp: device_at_def)
qed

text \<open>
  A role is changed over the restrictions of the old one, every field of which is set: an approver that
  becomes an admin keeps the approver's environments, a viewer that becomes one still cannot act.
\<close>

lemma promoted_keeps_restrictions:
  "role \<noteq> Viewer \<Longrightarrow> 0 \<le> rs_max_spend rs \<Longrightarrow> normalizeRestrictions role (as_input rs) = rs"
  by (simp add: normalizeRestrictions_def as_input_def)

text \<open>
  A revoked route may pair again as far as the registry's check goes, but the row of the revoked device
  still holds the route, so the new device is never stored.
\<close>

lemma revoked_route_stays_taken:
  assumes "devices_wf r" and "device_at i r = Some d" and "dv_status d = Dev_Revoked" and "dv_route d = rg_route g"
  shows "\<exists>e r'. register_device E g r = (Inl e, r') \<and> rm_devices r' = rm_devices r"
proof -
  have row: "(i, d) \<in> set (rm_devices r)" "dv_id d = i" using devices_wf_at[OF assms(1,2)] by auto
  have found: "find (\<lambda>d. dv_route d = rg_route g) (map snd (rm_devices r)) = Some d"
  proof -
    obtain d' where d': "find (\<lambda>d. dv_route d = rg_route g) (map snd (rm_devices r)) = Some d'"
      using row assms(4) by (cases "find (\<lambda>d. dv_route d = rg_route g) (map snd (rm_devices r))") (force dest: find_NoneD)+
    then obtain k where "(k, d') \<in> set (rm_devices r)" "dv_route d' = dv_route d"
      using assms(4) by (auto dest!: find_SomeD)
    then have "d' = d" using row assms(1) by (auto simp: devices_wf_def inj_on_def)
    then show ?thesis using d' by simp
  qed
  have own: "i \<noteq> remote_id ''device'' (rm_next r)"
    using dev_inv_fresh[of True i r] assms(1-3) by (simp add: dev_inv_def revoked_def)
  have clash: "\<exists>(k, d') \<in> set (rm_devices r). k \<noteq> remote_id ''device'' (rm_next r) \<and> dv_route d' = rg_route g"
    using row own assms(4) by force
  have "wp (register_device E g) (\<lambda>_ _. False) (\<lambda>_ r'. rm_devices r' = rm_devices r) r"
    unfolding register_device_def getDeviceByRoute_def remote_clock_def remoteId_def registered_def
    using clash
    by (cases "cleanLabel (rg_label g)")
      (simp_all add: wp_andThen wp_gets wp_throw wp_modify wp_ret wp_saveDevice found assms(3))
  then show ?thesis by (cases "register_device E g r") (auto simp: wp_def split: sum.splits)
qed

end
