(* ===== verification/Device_Pairing.thy ===== *)
theory Device_Pairing
  imports Device_Registry
begin

text \<open>
  Pairing a device (src/src/remote/pairing.service.ts): a short-lived session with a challenge, the
  device's signed answer to it, and the local confirmation that registers the device. The link and
  the image shown to the user, and the text of the node's confirmation, are left out.
\<close>

definition PAIRING_TTL_MS :: int where
  "PAIRING_TTL_MS = 10 * 60000"

definition pairing_event :: "string \<Rightarrow> string \<Rightarrow> json \<Rightarrow> string \<Rightarrow> instant \<Rightarrow> new_event" where
  "pairing_event eventType summary detail i t = \<lparr>ne_id = i, ne_timestamp = t, ne_session = None, ne_actor = ''vops'',
     ne_operation = None, ne_type = eventType, ne_capability = None, ne_target = None, ne_summary = summary,
     ne_detail = detail\<rparr>"

definition log_pairing :: "remote_env \<Rightarrow> string \<Rightarrow> string \<Rightarrow> json \<Rightarrow> unit ract" where
  "log_pairing E eventType summary detail = on_agent (logEvent (re_lib E) (pairing_event eventType summary detail))"

definition create_pairing :: "remote_env \<Rightarrow> pairing ract" where
  "create_pairing E =
     (if \<not> re_enabled E then throw (plain ''Enable remote transport before pairing a device.'')
      else andThen (ensureNodeIdentity E) (\<lambda>node. andThen remote_clock (\<lambda>t.
        andThen (remoteId ''pair'') (\<lambda>i. andThen (remoteId ''challenge'') (\<lambda>c.
        let p = \<lparr>pg_id = i, pg_node = node, pg_challenge = c, pg_status = Pair_Pending, pg_created_at = t,
             pg_expires_at = t + PAIRING_TTL_MS, pg_route = None, pg_signing_key = None, pg_exchange_key = None,
             pg_signature = None, pg_device = None\<rparr> in
        case re_announce E i (pg_expires_at p) of Some e \<Rightarrow> throw (Agent e) | None \<Rightarrow>
        andThen (savePairing p) (\<lambda>_.
        andThen (log_pairing E ''remote.pairing.created'' ''Created a short-lived remote pairing session.''
          (JObj [(''pairingId'', JStr i), (''expiresAt'', JStr (iso_string (pg_expires_at p)))])) (\<lambda>_.
        ret p)))))))"

definition requireLive :: "string \<Rightarrow> pairing_status \<Rightarrow> pairing ract" where
  "requireLive i expected = andThen (getPairing i) (\<lambda>found. case found of
       None \<Rightarrow> throw (plain (''Pairing '' @ quoted i @ '' was not found.''))
     | Some p \<Rightarrow> andThen remote_clock (\<lambda>t.
         if pg_expires_at p \<le> t
         then andThen (savePairing (p\<lparr>pg_status := Pair_Expired\<rparr>)) (\<lambda>_. throw (plain ''Pairing session expired.''))
         else if pg_status p \<noteq> expected
         then throw (plain (''Pairing '' @ quoted i @ '' is '' @ pairing_status_text (pg_status p) @ ''; expected '' @
                pairing_status_text expected @ ''.''))
         else ret p))"

record hello_frame =
  hl_pairing :: string
  hl_route :: string
  hl_signing_key :: string
  hl_exchange_key :: string
  hl_signature :: string

text \<open>The payload the device signs: the challenge bound to the route and the keys it offers.\<close>

definition challenge_of :: "pairing \<Rightarrow> string \<Rightarrow> string \<Rightarrow> string \<Rightarrow> pairing_challenge" where
  "challenge_of p route signing exchange = \<lparr>pc_pairing = pg_id p, pc_challenge = pg_challenge p, pc_route = route,
     pc_signing_key = signing, pc_exchange_key = exchange, pc_expires_at = pg_expires_at p\<rparr>"

definition handleHello :: "remote_env \<Rightarrow> hello_frame \<Rightarrow> unit ract" where
  "handleHello E f = andThen (requireLive (hl_pairing f) Pair_Pending) (\<lambda>p.
     andThen (outside (re_verify_pairing E (challenge_of p (hl_route f) (hl_signing_key f) (hl_exchange_key f))
       (hl_signature f) (hl_signing_key f))) (\<lambda>valid.
     if \<not> valid
     then andThen (log_pairing E ''remote.pairing.rejected'' ''Rejected invalid device proof during pairing.''
            (JObj [(''pairingId'', JStr (pg_id p))])) (\<lambda>_.
          throw (plain ''Device proof did not match the pairing challenge.''))
     else andThen (savePairing (p\<lparr>pg_status := Hello_Received, pg_route := Some (hl_route f),
            pg_signing_key := Some (hl_signing_key f), pg_exchange_key := Some (hl_exchange_key f),
            pg_signature := Some (hl_signature f)\<rparr>)) (\<lambda>_.
          log_pairing E ''remote.pairing.hello_received'' ''A remote device is waiting for local confirmation.''
            (JObj [(''pairingId'', JStr (pg_id p)), (''deviceRouteId'', JStr (hl_route f))]))))"

record confirmation =
  cf_label :: string
  cf_role :: device_role
  cf_restrictions :: "restrictions_input option"

definition announce_device :: "remote_env \<Rightarrow> device \<Rightarrow> unit ract" where
  "announce_device E d = andThen (ensureNodeIdentity E) (\<lambda>node. andThen remote_clock (\<lambda>t.
     andThen (nextOutboundSequence (dv_id d)) (\<lambda>n.
     deliver E d \<lparr>md_sender = node, md_recipient = dv_route d, md_channel = ''key_management'', md_created_at = t,
       md_expires_at = t + 5 * 60000, md_key = dv_key_id d, md_sequence = n\<rparr> (Node_Confirmation d))))"

definition pairing_registration :: "remote_env \<Rightarrow> pairing \<Rightarrow> confirmation \<Rightarrow> registration option" where
  "pairing_registration E p i =
     (case (nonempty (pg_route p), nonempty (pg_signing_key p), nonempty (pg_exchange_key p)) of
        (Some route, Some signing, Some exchange) \<Rightarrow> Some \<lparr>rg_route = route, rg_label = cf_label i, rg_role = cf_role i,
          rg_signing_key = signing, rg_exchange_key = exchange, rg_key_id = re_key_id E signing exchange,
          rg_restrictions = cf_restrictions i\<rparr>
      | _ \<Rightarrow> None)"

definition confirm_pairing :: "remote_env \<Rightarrow> string \<Rightarrow> confirmation \<Rightarrow> (pairing \<times> device) ract" where
  "confirm_pairing E i input = andThen remote_clock (\<lambda>t.
     if \<not> re_online E t then throw (plain ''The relay must be connected to confirm a device.'')
     else andThen (requireLive i Hello_Received) (\<lambda>p. case pairing_registration E p input of
         None \<Rightarrow> throw (plain ''Pairing has no verified device identity.'')
       | Some g \<Rightarrow> andThen (register_device E g) (\<lambda>d.
           andThen (announce_device E d) (\<lambda>_.
           let confirmed = p\<lparr>pg_status := Confirmed, pg_device := Some (dv_id d)\<rparr> in
           andThen (savePairing confirmed) (\<lambda>_.
           andThen (log_pairing E ''remote.pairing.confirmed'' (''Confirmed remote device '' @ quoted (dv_label d) @ ''.'')
             (JObj [(''pairingId'', JStr i), (''deviceId'', JStr (dv_id d)), (''role'', JStr (role_text (dv_role d)))])) (\<lambda>_.
           ret (confirmed, d)))))))"

definition list_pairings :: "pairing list ract" where
  "list_pairings = andThen listPairings (\<lambda>rows. andThen remote_clock (\<lambda>t.
     andThen (for_each (\<lambda>p. savePairing (p\<lparr>pg_status := Pair_Expired\<rparr>))
       (filter (\<lambda>p. pg_status p \<in> {Pair_Pending, Hello_Received} \<and> pg_expires_at p \<le> t) rows)) (\<lambda>_.
     listPairings)))"

section \<open>What pairing keeps\<close>

definition outer :: "remote \<Rightarrow> (string \<times> pairing) list \<times> (string \<times> command_result) list \<times> (string \<times> string) list \<times>
    (string \<times> instant option) list" where
  "outer r = (rm_pairings r, rm_commands r, rm_nonces r, rm_replay r)"

lemma outer_desk: "desk r' = desk r \<Longrightarrow> outer r' = outer r"
  by (simp add: desk_def outer_def)

lemma keeps_outer: "(\<And>v. keeps (\<lambda>r. desk r = v) m) \<Longrightarrow> keeps (\<lambda>r. outer r = v) m"
  unfolding keeps_def by (metis outer_desk)

lemma outer_simps [simp]: "outer (r\<lparr>rm_world := w\<rparr>) = outer r" "outer (r\<lparr>rm_next := n\<rparr>) = outer r"
  "outer (r\<lparr>rm_devices := ds\<rparr>) = outer r"
  by (simp_all add: outer_def)

lemma saveDevice_outer [keeps_intros]: "keeps (\<lambda>r. outer r = v) (saveDevice d)"
  unfolding saveDevice_def by (intro keeps_intros keeps_modify) simp

lemma agent_outer [keeps_intros]: "keeps (\<lambda>r. outer r = v) (on_agent m)"
  by (rule keeps_on_agent) simp

lemma remoteId_outer [keeps_intros]: "keeps (\<lambda>r. outer r = v) (remoteId p)"
  unfolding remoteId_def by (intro keeps_intros keeps_modify) simp

lemma registry_outer [keeps_intros]:
  "keeps (\<lambda>r. outer r = v) (register_device E g)" "keeps (\<lambda>r. outer r = v) (touch_device i)"
  "keeps (\<lambda>r. outer r = v) (setStatus E i st)" "keeps (\<lambda>r. outer r = v) (setRole E i role)"
  unfolding register_device_def registered_def log_device_def touch_device_def get_device_def setStatus_def setRole_def Let_def
  by (intro keeps_intros keeps_outer disable_desk)+

lemma announce_outer [keeps_intros]: "keeps (\<lambda>r. desk r = v) (announce_device E d)"
proof -
  have "keeps (\<lambda>r. desk r = v) (deliver E d md msg)" for md msg
    unfolding deliver_def by (intro keeps_intros keeps_modify) (simp_all add: desk_def)
  then show ?thesis
    unfolding announce_device_def ensureNodeIdentity_def nextOutboundSequence_def Let_def
    by (intro keeps_intros keeps_modify) (simp_all add: desk_def)
qed

lemma remoteId_dev [keeps_intros]: "keeps (dev_inv b i) (remoteId p)"
  unfolding remoteId_def by (rule keepsI_wp) (simp add: wp_simps dev_inv_next)

lemma pairing_row_dev [simp]: "dev_inv b i (put_pairing p r) = dev_inv b i r"
  by (simp add: dev_inv_def devices_wf_def revoked_def device_at_def put_pairing_def)

lemma savePairing_dev [keeps_intros]: "keeps (dev_inv b i) (savePairing p)"
  unfolding savePairing_def put_pairing_def[symmetric] by (rule keeps_modify) simp

lemma log_pairing_dev [keeps_intros]: "keeps (dev_inv b i) (log_pairing E ty sm detail)"
  unfolding log_pairing_def by (rule keeps_on_agent) simp

lemma requireLive_dev [keeps_intros]: "keeps (dev_inv b i) (requireLive k st)"
  unfolding requireLive_def by (intro keeps_intros)

lemma pairing_dev [keeps_intros]:
  "keeps (dev_inv b i) (create_pairing E)" "keeps (dev_inv b i) (handleHello E f)"
  "keeps (dev_inv b i) (confirm_pairing E k c)" "keeps (dev_inv b i) list_pairings"
  unfolding create_pairing_def ensureNodeIdentity_def Let_def handleHello_def confirm_pairing_def list_pairings_def
  by (intro keeps_intros keeps_dev_inv[OF announce_outer])+

section \<open>Every device has proved its key\<close>

text \<open>
  \<open>V\<close> is the check of a device's answer. A pairing that reached its hello carries an answer that
  passed, and so does, for its route and keys, every device of the table.
\<close>

type_synonym proof_check = "pairing_challenge \<Rightarrow> string \<Rightarrow> string \<Rightarrow> exn + bool"

definition proved :: "proof_check \<Rightarrow> string \<Rightarrow> string \<Rightarrow> string \<Rightarrow> bool" where
  "proved V route signing exchange \<longleftrightarrow> (\<exists>c sig. V c sig signing = Inr True \<and> pc_route c = route \<and>
     pc_signing_key c = signing \<and> pc_exchange_key c = exchange)"

definition pairing_ok :: "proof_check \<Rightarrow> pairing \<Rightarrow> bool" where
  "pairing_ok V p \<longleftrightarrow> (pg_status p = Hello_Received \<longrightarrow> (\<exists>route signing exchange.
     pg_route p = Some route \<and> pg_signing_key p = Some signing \<and> pg_exchange_key p = Some exchange \<and>
     proved V route signing exchange))"

definition device_ok :: "proof_check \<Rightarrow> device \<Rightarrow> bool" where
  "device_ok V d \<longleftrightarrow> proved V (dv_route d) (dv_signing_key d) (dv_exchange_key d)"

definition all_proved :: "proof_check \<Rightarrow> remote \<Rightarrow> bool" where
  "all_proved V r \<longleftrightarrow> (\<forall>(k, p) \<in> set (rm_pairings r). pairing_ok V p) \<and> (\<forall>(k, d) \<in> set (rm_devices r). device_ok V d)"

lemma all_proved_desk: "desk r' = desk r \<Longrightarrow> all_proved V r \<Longrightarrow> all_proved V r'"
  by (simp add: desk_def all_proved_def)

lemma keeps_all_proved: "(\<And>v. keeps (\<lambda>r. desk r = v) m) \<Longrightarrow> keeps (all_proved V) m"
  unfolding keeps_def by (metis all_proved_desk)

lemma all_proved_simps [simp]: "all_proved V (r\<lparr>rm_world := w\<rparr>) = all_proved V r"
  "all_proved V (r\<lparr>rm_next := n\<rparr>) = all_proved V r"
  by (simp_all add: all_proved_def)

lemma all_proved_put:
  "all_proved V r \<Longrightarrow> device_ok V d \<Longrightarrow> all_proved V (put_device d r)"
  "all_proved V r \<Longrightarrow> pairing_ok V p \<Longrightarrow> all_proved V (put_pairing p r)"
  by (auto simp: all_proved_def put_device_def put_pairing_def elim!: put_rowE)

lemma all_proved_device: "all_proved V r \<Longrightarrow> device_at i r = Some d \<Longrightarrow> device_ok V d"
  by (auto simp: all_proved_def device_at_def dest!: map_of_SomeD)

lemma all_proved_pairing: "all_proved V r \<Longrightarrow> pairing_at i r = Some p \<Longrightarrow> pairing_ok V p"
  by (auto simp: all_proved_def pairing_at_def dest!: map_of_SomeD)

lemma device_ok_cong: "device_ok V d \<Longrightarrow> dv_route d' = dv_route d \<Longrightarrow> dv_signing_key d' = dv_signing_key d \<Longrightarrow>
    dv_exchange_key d' = dv_exchange_key d \<Longrightarrow> device_ok V d'"
  by (simp add: device_ok_def)

lemma saved_proved:
  assumes "all_proved V r" and "device_ok V d" and "\<And>u. keeps (all_proved V) (rest u)"
  shows "wp (andThen (saveDevice d) rest) (\<lambda>_. all_proved V) (\<lambda>_. all_proved V) r"
  using assms all_proved_put(1)[OF assms(1,2)] by (auto simp: wp_andThen wp_saveDevice keeps_wp)

lemma agent_proved [keeps_intros]: "keeps (all_proved V) (on_agent m)"
  by (rule keeps_on_agent) simp

lemma get_device_proved:
  assumes "\<And>d. device_at k r = Some d \<Longrightarrow> device_ok V d \<Longrightarrow> wp (rest d) (\<lambda>_. all_proved V) (\<lambda>_. all_proved V) r"
    and "all_proved V r"
  shows "wp (andThen (get_device k) rest) (\<lambda>_. all_proved V) (\<lambda>_. all_proved V) r"
  using assms all_proved_device[OF assms(2)] by (auto simp: wp_andThen wp_get_device split: option.split)

lemma with_status_keys [simp]: "dv_signing_key (with_status st d t) = dv_signing_key d"
  "dv_exchange_key (with_status st d t) = dv_exchange_key d"
  by (simp_all add: with_status_def)

lemma registry_proved [keeps_intros]:
  "keeps (all_proved V) (touch_device i)" "keeps (all_proved V) (setStatus E i st)" "keeps (all_proved V) (setRole E i role)"
proof -
  show "keeps (all_proved V) (touch_device i)"
    unfolding touch_device_def remote_clock_def Let_def
    by (intro keepsI_wp get_device_proved; simp only: wp_andThen[of "gets _"] wp_gets)
      (intro saved_proved keeps_intros; simp add: device_ok_def)
  show "keeps (all_proved V) (setStatus E i st)"
    unfolding setStatus_def remote_clock_def log_device_def Let_def
    by (intro keepsI_wp get_device_proved wp_ifI; simp only: wp_throw wp_andThen[of "gets _"] wp_gets)
      (intro saved_proved keeps_intros keeps_all_proved[OF disable_desk]; simp add: device_ok_def)
  show "keeps (all_proved V) (setRole E i role)"
    unfolding setRole_def remote_clock_def log_device_def Let_def
    by (intro keepsI_wp get_device_proved wp_ifI; simp only: wp_throw wp_andThen[of "gets _"] wp_gets)
      (intro saved_proved keeps_intros; simp add: device_ok_def)
qed


lemma requireLive_run:
  assumes "requireLive i st r = (Inr p, r')"
  shows "r' = r \<and> pairing_at i r = Some p \<and> pg_status p = st \<and> w_now (rm_world r) < pg_expires_at p"
  using assms unfolding requireLive_def
  by (auto simp: action_simps elim!: andThen_InrE split: option.splits if_splits)

lemma wp_savePairing: "wp (savePairing p) Q E r \<longleftrightarrow> Q () (put_pairing p r)"
  by (simp add: savePairing_def put_pairing_def wp_simps)

lemma requireLive_proved [keeps_intros]: "keeps (all_proved V) (requireLive i st)"
proof (rule keepsI_wp)
  fix r assume ok: "all_proved V r"
  have "pairing_ok V (p\<lparr>pg_status := Pair_Expired\<rparr>)" for p by (simp add: pairing_ok_def)
  then show "wp (requireLive i st) (\<lambda>_. all_proved V) (\<lambda>_. all_proved V) r"
    using ok all_proved_put(2)[OF ok]
    by (auto simp: requireLive_def getPairing_def remote_clock_def wp_savePairing wp_simps split: option.split)
qed

lemma hello_proved [keeps_intros]:
  assumes "re_verify_pairing E = V"
  shows "keeps (all_proved V) (handleHello E f)"
proof (rule keepsI_wp)
  fix r assume ok: "all_proved V r"
  let ?P = "\<lambda>_. all_proved V"
  have "wp (requireLive (hl_pairing f) Pair_Pending) ?P ?P r" using requireLive_proved ok by (rule wp_keeps)
  then show "wp (handleHello E f) ?P ?P r"
    unfolding handleHello_def
  proof (rule wp_seq)
    fix p r' assume ok': "all_proved V r'"
    let ?v = "V (challenge_of p (hl_route f) (hl_signing_key f) (hl_exchange_key f)) (hl_signature f) (hl_signing_key f)"
    have "proved V (hl_route f) (hl_signing_key f) (hl_exchange_key f)" if "?v = Inr True"
      unfolding proved_def using that
      by (intro exI[of _ "challenge_of p (hl_route f) (hl_signing_key f) (hl_exchange_key f)"] exI[of _ "hl_signature f"])
        (simp add: challenge_of_def)
    then show "wp (andThen (outside (re_verify_pairing E (challenge_of p (hl_route f) (hl_signing_key f) (hl_exchange_key f))
       (hl_signature f) (hl_signing_key f))) (\<lambda>valid.
     if \<not> valid
     then andThen (log_pairing E ''remote.pairing.rejected'' ''Rejected invalid device proof during pairing.''
            (JObj [(''pairingId'', JStr (pg_id p))])) (\<lambda>_.
          throw (plain ''Device proof did not match the pairing challenge.''))
     else andThen (savePairing (p\<lparr>pg_status := Hello_Received, pg_route := Some (hl_route f),
            pg_signing_key := Some (hl_signing_key f), pg_exchange_key := Some (hl_exchange_key f),
            pg_signature := Some (hl_signature f)\<rparr>)) (\<lambda>_.
          log_pairing E ''remote.pairing.hello_received'' ''A remote device is waiting for local confirmation.''
            (JObj [(''pairingId'', JStr (pg_id p)), (''deviceRouteId'', JStr (hl_route f))])))) ?P ?P r'"
      unfolding assms log_pairing_def wp_andThen[of "outside _"]
      by (cases ?v) (auto simp: outside_def wp_ret wp_throw ok' wp_andThen[of "savePairing _"] wp_savePairing pairing_ok_def
          intro!: wp_keeps[where P = "all_proved V"] keeps_intros all_proved_put(2))
  qed
qed

lemma register_proved:
  assumes "proved V (rg_route g) (rg_signing_key g) (rg_exchange_key g)"
  shows "keeps (all_proved V) (register_device E g)"
proof (rule keepsI_wp)
  fix r assume ok: "all_proved V r"
  have "wp (registered E (build_device g i label t)) (\<lambda>_. all_proved V) (\<lambda>_. all_proved V) (r\<lparr>rm_next := n\<rparr>)" for i label t n
    unfolding registered_def log_device_def using ok assms
    by (intro saved_proved keeps_intros) (simp_all add: device_ok_def)
  then show "wp (register_device E g) (\<lambda>_. all_proved V) (\<lambda>_. all_proved V) r"
    unfolding register_device_def getDeviceByRoute_def remote_clock_def remoteId_def using ok
    by (cases "cleanLabel (rg_label g)") (simp_all add: wp_andThen wp_gets wp_throw wp_modify wp_ret)
qed

lemma pairing_registration_sel:
  assumes "pairing_registration E p c = Some g"
  shows "pg_route p = Some (rg_route g) \<and> pg_signing_key p = Some (rg_signing_key g) \<and>
    pg_exchange_key p = Some (rg_exchange_key g) \<and> rg_role g = cf_role c \<and> rg_label g = cf_label c"
  using assms by (auto simp: pairing_registration_def nonempty_def split: option.splits if_splits)

lemma confirm_proved [keeps_intros]: "keeps (all_proved V) (confirm_pairing E i c)"
proof (rule keepsI_wp)
  fix r assume ok: "all_proved V r"
  let ?P = "\<lambda>_. all_proved V"
  have confirmed: "pairing_ok V (p\<lparr>pg_status := Confirmed, pg_device := x\<rparr>)" for p x by (simp add: pairing_ok_def)
  have live: "wp (requireLive i Hello_Received) (\<lambda>p r'. all_proved V r' \<and> pairing_ok V p \<and> pg_status p = Hello_Received) ?P r"
    unfolding wp_def using requireLive_run[of i Hello_Received r] keepsD[OF requireLive_proved ok] all_proved_pairing[OF ok]
    by (auto split: prod.split sum.split)
  have rest: "wp (andThen (register_device E g) (\<lambda>d.
           andThen (announce_device E d) (\<lambda>_.
           andThen (savePairing (p\<lparr>pg_status := Confirmed, pg_device := Some (dv_id d)\<rparr>)) (\<lambda>_.
           andThen (log_pairing E (ty d) (sm d) (detail d)) (\<lambda>_. ret (x d)))))) ?P ?P r'"
    if "all_proved V r'" and "pairing_ok V p" and "pg_status p = Hello_Received" and "pairing_registration E p c = Some g"
    for p g r' ty sm detail and x :: "device \<Rightarrow> pairing \<times> device"
  proof -
    have "proved V (rg_route g) (rg_signing_key g) (rg_exchange_key g)"
      using that(2,3) pairing_registration_sel[OF that(4)] by (auto simp: pairing_ok_def)
    moreover have "keeps (all_proved V) (savePairing (p\<lparr>pg_status := Confirmed, pg_device := Some (dv_id d)\<rparr>))" for d
      using all_proved_put(2)[OF _ confirmed] by (auto simp: keeps_wp wp_savePairing)
    ultimately show ?thesis
      unfolding log_pairing_def
      by (intro wp_keeps[where P = "all_proved V"] keeps_intros register_proved keeps_all_proved[OF announce_outer] that(1))
  qed
  show "wp (confirm_pairing E i c) ?P ?P r"
    unfolding confirm_pairing_def remote_clock_def Let_def wp_andThen[of "gets _"] wp_gets
  proof (rule wp_ifI, simp add: wp_throw ok, rule wp_seq[OF live], elim conjE)
    fix p r' assume p: "all_proved V r'" "pairing_ok V p" "pg_status p = Hello_Received"
    show "wp (case pairing_registration E p c of None \<Rightarrow> throw (plain ''Pairing has no verified device identity.'')
       | Some g \<Rightarrow> andThen (register_device E g) (\<lambda>d.
           andThen (announce_device E d) (\<lambda>_.
           andThen (savePairing (p\<lparr>pg_status := Confirmed, pg_device := Some (dv_id d)\<rparr>)) (\<lambda>_.
           andThen (log_pairing E ''remote.pairing.confirmed'' (''Confirmed remote device '' @ quoted (dv_label d) @ ''.'')
             (JObj [(''pairingId'', JStr i), (''deviceId'', JStr (dv_id d)), (''role'', JStr (role_text (dv_role d)))])) (\<lambda>_.
           ret (p\<lparr>pg_status := Confirmed, pg_device := Some (dv_id d)\<rparr>, d)))))) ?P ?P r'"
    proof (cases "pairing_registration E p c")
      case None
      then show ?thesis using p by (simp add: wp_throw)
    next
      case (Some g)
      show ?thesis unfolding Some option.case by (rule rest[OF p Some])
    qed
  qed
qed

lemma other_pairings_proved [keeps_intros]:
  "keeps (all_proved V) (create_pairing E)" "keeps (all_proved V) list_pairings"
proof -
  have save: "keeps (all_proved V) (savePairing p)" if "pg_status p \<noteq> Hello_Received" for p
    using that all_proved_put(2)[of V _ p] by (auto simp: keeps_wp wp_savePairing pairing_ok_def)
  have rid: "keeps (all_proved V) (remoteId p)" for p
    unfolding remoteId_def by (intro keeps_intros keeps_modify) simp
  show "keeps (all_proved V) (create_pairing E)"
    unfolding create_pairing_def ensureNodeIdentity_def log_pairing_def Let_def
    by (intro keeps_intros rid save) simp
  show "keeps (all_proved V) list_pairings"
    unfolding list_pairings_def by (intro keeps_intros save) simp
qed

section \<open>What a confirmation does\<close>

lemma register_run:
  assumes "register_device E g r = (Inr d, r')"
  shows "dv_id d = remote_id ''device'' (rm_next r) \<and> dv_status d = Dev_Active \<and> dv_role d = rg_role g \<and>
    dv_route d = rg_route g \<and> dv_signing_key d = rg_signing_key g \<and> dv_exchange_key d = rg_exchange_key g \<and>
    dv_restrictions d = normalizeRestrictions (rg_role g) (or_default (rg_restrictions g) no_restrictions) \<and>
    device_at (dv_id d) r' = Some d \<and> rm_pairings r' = rm_pairings r"
proof -
  let ?Q = "\<lambda>d r'. dv_id d = remote_id ''device'' (rm_next r) \<and> dv_status d = Dev_Active \<and> dv_role d = rg_role g \<and>
    dv_route d = rg_route g \<and> dv_signing_key d = rg_signing_key g \<and> dv_exchange_key d = rg_exchange_key g \<and>
    dv_restrictions d = normalizeRestrictions (rg_role g) (or_default (rg_restrictions g) no_restrictions) \<and>
    device_at (dv_id d) r' = Some d \<and> rm_pairings r' = rm_pairings r"
  have log: "wp (log_device E d ty sm) (\<lambda>_ r'. rm_devices r' = rm_devices s \<and> rm_pairings r' = rm_pairings s) (\<lambda>_ _. True) s"
    for d ty sm s
    by (simp add: wp_def log_device_def on_agent_run(2)[OF logEvent_run])
  have reg: "wp (registered E (build_device g (remote_id ''device'' (rm_next r)) label t)) ?Q (\<lambda>_ _. True)
      (r\<lparr>rm_next := n\<rparr>)" for label t n
    unfolding registered_def wp_andThen wp_saveDevice wp_ret
    by (auto simp: put_device_def device_at_def put_row_get build_device_def intro!: wp_mono[OF log])
  have "wp (register_device E g) ?Q (\<lambda>_ _. True) r"
    unfolding register_device_def getDeviceByRoute_def remote_clock_def remoteId_def using reg
    by (cases "cleanLabel (rg_label g)") (simp_all add: wp_andThen wp_gets wp_throw wp_modify wp_ret)
  from wp_returns[OF this assms] show ?thesis .
qed

lemma confirm_run:
  assumes proved: "all_proved V r" and wf: "devices_wf r"
    and run: "confirm_pairing E i c r = (Inr (p', d), r')"
  shows "\<exists>p. pairing_at i r = Some p \<and> pg_status p = Hello_Received \<and> w_now (rm_world r) < pg_expires_at p \<and>
    device_ok V d \<and> dv_status d = Dev_Active \<and> dv_role d = cf_role c \<and>
    pg_route p = Some (dv_route d) \<and> pg_signing_key p = Some (dv_signing_key d) \<and> device_at (dv_id d) r = None \<and>
    device_at (dv_id d) r' = Some d \<and> pg_device p' = Some (dv_id d) \<and> pg_status p' = Confirmed"
proof -
  obtain p r1 where live: "requireLive i Hello_Received r = (Inr p, r1)"
      and then1: "(case pairing_registration E p c of None \<Rightarrow> throw (plain ''Pairing has no verified device identity.'')
       | Some g \<Rightarrow> andThen (register_device E g) (\<lambda>d.
           andThen (announce_device E d) (\<lambda>_.
           andThen (savePairing (p\<lparr>pg_status := Confirmed, pg_device := Some (dv_id d)\<rparr>)) (\<lambda>_.
           andThen (log_pairing E ''remote.pairing.confirmed'' (''Confirmed remote device '' @ quoted (dv_label d) @ ''.'')
             (JObj [(''pairingId'', JStr i), (''deviceId'', JStr (dv_id d)), (''role'', JStr (role_text (dv_role d)))])) (\<lambda>_.
           ret (p\<lparr>pg_status := Confirmed, pg_device := Some (dv_id d)\<rparr>, d)))))) r1 = (Inr (p', d), r')"
    using run unfolding confirm_pairing_def remote_clock_def Let_def
    by (auto simp: action_simps elim!: andThen_InrE split: if_splits)
  have p: "r1 = r" "pairing_at i r = Some p" "pg_status p = Hello_Received" "w_now (rm_world r) < pg_expires_at p"
    using requireLive_run[OF live] by auto
  obtain g where g: "pairing_registration E p c = Some g"
    using then1 by (cases "pairing_registration E p c") (auto simp: run_action)
  obtain r2 r3 u where reg: "register_device E g r = (Inr d, r2)" and ann: "announce_device E d r2 = (Inr u, r3)"
      and p': "p' = p\<lparr>pg_status := Confirmed, pg_device := Some (dv_id d)\<rparr>"
      and last: "rm_devices r' = rm_devices r3"
    using then1 unfolding p(1) g option.case log_pairing_def
    by (auto simp: run_action on_agent_run(2)[OF logEvent_run] savePairing_def elim!: andThen_InrE)
  have "desk r3 = desk r2" using keepsD[OF announce_outer _ ann] by blast
  then have "rm_devices r3 = rm_devices r2" by (simp add: desk_def)
  moreover have "device_at (dv_id d) r2 = Some d" using register_run[OF reg] by blast
  ultimately have "device_at (dv_id d) r' = Some d" using last by (simp add: device_at_def)
  moreover have "device_at (dv_id d) r = None"
  proof (rule ccontr)
    assume "device_at (dv_id d) r \<noteq> None"
    then obtain n where "n < rm_next r" and n: "dv_id d = remote_id ''device'' n"
      using devices_wf_at[OF wf] by blast
    moreover have "dv_id d = remote_id ''device'' (rm_next r)" using register_run[OF reg] by blast
    ultimately show False by (metis remote_id_inj less_irrefl)
  qed
  moreover have "device_ok V d"
    using register_run[OF reg] pairing_registration_sel[OF g] all_proved_pairing[OF proved p(2)] p(3)
    by (auto simp: pairing_ok_def device_ok_def)
  ultimately show ?thesis
    using p p' register_run[OF reg] pairing_registration_sel[OF g] by auto
qed

text \<open>
  The device is registered before its confirmation is sent: when the relay drops the connection in
  between, the call fails, the device stays active, and confirming again is refused.
\<close>

lemma confirm_not_atomic:
  assumes "confirm_pairing E i c r = (Inl e, r')" and "requireLive i Hello_Received r = (Inr p, r)"
    and "re_online E (w_now (rm_world r))" and "pairing_registration E p c = Some g"
    and "register_device E g r = (Inr d, r1)"
  shows "device_at (dv_id d) r' = Some d \<and> dv_status d = Dev_Active \<and> pg_status p = Hello_Received"
proof -
  have "requireLive i Hello_Received r = (Inr p, r)" by (rule assms(2))
  then have "(case pairing_registration E p c of None \<Rightarrow> throw (plain ''Pairing has no verified device identity.'')
       | Some g \<Rightarrow> andThen (register_device E g) (\<lambda>d.
           andThen (announce_device E d) (\<lambda>_.
           andThen (savePairing (p\<lparr>pg_status := Confirmed, pg_device := Some (dv_id d)\<rparr>)) (\<lambda>_.
           andThen (log_pairing E ''remote.pairing.confirmed'' (''Confirmed remote device '' @ quoted (dv_label d) @ ''.'')
             (JObj [(''pairingId'', JStr i), (''deviceId'', JStr (dv_id d)), (''role'', JStr (role_text (dv_role d)))])) (\<lambda>_.
           ret (p\<lparr>pg_status := Confirmed, pg_device := Some (dv_id d)\<rparr>, d)))))) r = (Inl e, r')"
    using assms(1,3) unfolding confirm_pairing_def remote_clock_def Let_def
    by (simp add: run_action andThen_ret andThen_run(2)[where m = "requireLive _ _"])
  then have "announce_device E d r1 = (Inl e, r')"
    unfolding assms(4) option.case andThen_run(2)[where m = "register_device E g", OF assms(5)]
    by (auto simp: run_action savePairing_def log_pairing_def on_agent_run(2)[OF logEvent_run] elim!: andThen_InlE)
  then have "desk r' = desk r1" using keepsD[OF announce_outer] by blast
  then have "rm_devices r' = rm_devices r1" by (simp add: desk_def)
  moreover have "device_at (dv_id d) r1 = Some d" and "dv_status d = Dev_Active" using register_run[OF assms(5)] by blast+
  ultimately show ?thesis using requireLive_run[OF assms(2)] by (simp add: device_at_def)
qed

end
