(* ===== verification/Remote_Command.thy ===== *)
theory Remote_Command
  imports Device_Pairing
begin

text \<open>
  Signed commands of a device (src/src/remote/remote-command.handler.ts): the checks of a command, its
  reservation by command id and nonce, its execution on the services, and the stored result. The
  conversion of a result to JSON and back changes nothing.
\<close>

section \<open>Checks\<close>

definition CLOCK_SKEW_MS :: int where
  "CLOCK_SKEW_MS = 30000"

definition MAX_COMMAND_LIFETIME_MS :: int where
  "MAX_COMMAND_LIFETIME_MS = 5 * 60000"

definition COMMAND_TYPES :: "string list" where
  "COMMAND_TYPES = [''approval.decision'', ''operation.cancel_request'', ''operation.rollback_request'',
     ''agent.pause_request'', ''agent.resume_request'', ''agent.revoke_request'', ''agents.stop_all_request'',
     ''notification.dismiss_request'', ''intent.create_request'', ''intent.pause_request'', ''intent.revoke_request'']"

definition ADMIN_ONLY :: "string list" where
  "ADMIN_ONLY = [''agents.stop_all_request'', ''intent.create_request'', ''intent.pause_request'', ''intent.revoke_request'']"

definition commandError :: "string \<Rightarrow> string \<Rightarrow> rexn" where
  "commandError c m = Coded c m"

definition invalid_command :: "string \<Rightarrow> rexn option" where
  "invalid_command m = Some (commandError ''VOPS_REMOTE_COMMAND_INVALID'' m)"

definition hash_char :: "char \<Rightarrow> bool" where
  "hash_char c \<longleftrightarrow> is_digit c \<or> c \<in> set ''abcdef''"

definition validateSignedCommandShape :: "signed_command \<Rightarrow> rexn option" where
  "validateSignedCommandShape sc = (let p = sc_payload sc in
     if sp_protocol p \<noteq> 1 \<or> sp_type p \<notin> set COMMAND_TYPES
     then invalid_command ''Signed command protocol or type is unsupported.''
     else if \<not> prefixed_id ''cmd_'' 16 128 (sp_command p) then invalid_command ''Command ID is invalid.''
     else if \<not> prefixed_id ''device_'' 16 128 (sp_device p) then invalid_command ''Device ID is invalid.''
     else if \<not> prefixed_id ''node_'' 16 128 (sp_node p) then invalid_command ''Control-node ID is invalid.''
     else if \<not> prefixed_id ''key_'' 8 96 (sc_key sc) \<or> \<not> prefixed_id [] 80 128 (sc_signature sc)
     then invalid_command ''Command signature encoding is invalid.''
     else if \<not> prefixed_id [] 16 128 (sp_nonce p) then invalid_command ''Command nonce is invalid.''
     else if length (sp_subject p) < 1 \<or> 160 < length (sp_subject p) \<or> 2 ^ 53 - 1 < sp_version p \<or> sp_version p < 0
     then invalid_command ''Command subject is invalid.''
     else if 32 < pa_count (sp_parameters p) then invalid_command ''Command has too many parameters.''
     else case nonempty (sp_plan_hash p) of
         Some h \<Rightarrow> if list_all hash_char h \<and> length h = 64 then None else invalid_command ''Plan hash is invalid.''
       | None \<Rightarrow> None)"

definition validateCommandTime :: "instant \<Rightarrow> signed_payload \<Rightarrow> rexn option" where
  "validateCommandTime t p = (case (sp_issued_at p, sp_expires_at p) of
       (Some issued, Some expires) \<Rightarrow>
         if expires \<le> issued then invalid_command ''Command timestamps are invalid.''
         else if t + CLOCK_SKEW_MS < issued \<or> expires < t - CLOCK_SKEW_MS
         then Some (commandError ''VOPS_REMOTE_COMMAND_EXPIRED'' ''Command is expired or materially from the future.'')
         else if MAX_COMMAND_LIFETIME_MS < expires - issued
         then Some (commandError ''VOPS_REMOTE_COMMAND_EXPIRED'' ''Command lifetime exceeds five minutes.'')
         else None
     | _ \<Rightarrow> invalid_command ''Command timestamps are invalid.'')"

definition authorizeRole :: "device \<Rightarrow> signed_payload \<Rightarrow> rexn option" where
  "authorizeRole d p =
     (if dv_role d = Viewer then Some (commandError ''VOPS_REMOTE_ROLE_DENIED'' ''Viewer devices cannot send commands.'')
      else if sp_type p \<in> set ADMIN_ONLY \<and> dv_role d \<noteq> Admin
      then Some (commandError ''VOPS_REMOTE_ROLE_DENIED'' ''This command requires an admin device.'') else None)"

text \<open>A check that may throw.\<close>

definition guard_with :: "rexn option \<Rightarrow> unit ract" where
  "guard_with v = (case v of Some e \<Rightarrow> throw e | None \<Rightarrow> ret ())"

definition requireSubject :: "signed_payload \<Rightarrow> string \<Rightarrow> rexn option" where
  "requireSubject p kind = (if sp_kind p \<noteq> kind then invalid_command (''Command subject must be '' @ kind @ ''.'') else None)"

definition requireVersion :: "signed_payload \<Rightarrow> int \<Rightarrow> rexn option" where
  "requireVersion p v = (if sp_version p \<noteq> v
     then Some (commandError ''VOPS_REMOTE_COMMAND_STALE'' ''Command subject changed after it was displayed.'') else None)"

definition scope_denied :: "string \<Rightarrow> rexn option" where
  "scope_denied m = Some (commandError ''VOPS_REMOTE_SCOPE_DENIED'' m)"

definition requireDeviceScope :: "device \<Rightarrow> string option \<Rightarrow> environment \<Rightarrow> risk \<Rightarrow> rexn option" where
  "requireDeviceScope d target env risk = (let rs = dv_restrictions d in
     if (case nonempty target of None \<Rightarrow> False | Some t \<Rightarrow> rs_targets rs \<noteq> [] \<and> t \<notin> set (rs_targets rs))
     then scope_denied (''Target '' @ quoted (the target) @ '' is outside the device grant.'')
     else if env \<notin> set (rs_environments rs)
     then scope_denied (''Environment '' @ quoted (environment_text env) @ '' is outside the device grant.'')
     else if riskRank (rs_max_risk rs) < riskRank risk
     then scope_denied (''Risk '' @ quoted (risk_text risk) @ '' exceeds the device grant.'')
     else None)"

definition requireProjectScope :: "device \<Rightarrow> string \<Rightarrow> rexn option" where
  "requireProjectScope d project = (let ps = rs_projects (dv_restrictions d) in
     if ps \<noteq> [] \<and> project \<notin> set ps
     then scope_denied (''Project '' @ quoted project @ '' is outside the device grant.'') else None)"

definition commandReason :: "signed_payload \<Rightarrow> string" where
  "commandReason p = (case pa_reason (sp_parameters p) of Some x \<Rightarrow> take 500 (trim x) | None \<Rightarrow> [])"

definition safeCommandId :: "string \<Rightarrow> string option" where
  "safeCommandId i = (if prefixed_id ''cmd_'' 16 128 i then Some i else None)"

fun remoteCommandCode :: "rexn \<Rightarrow> string" where
  "remoteCommandCode (Agent (Control e)) = error_code_text (err_code e)"
| "remoteCommandCode (Agent (Js_Error m)) = ''VOPS_REMOTE_COMMAND_REJECTED''"
| "remoteCommandCode (Coded c m) = c"

definition safeCommandError :: "rexn \<Rightarrow> string" where
  "safeCommandError e = (if sensitive_word [''token'', ''credential'', ''secret'', ''private key''] (message_of e)
     then ''Remote command was rejected by the local control plane.'' else take 500 (message_of e))"

definition verify_command :: "remote_env \<Rightarrow> device \<Rightarrow> signed_command \<Rightarrow> device ract" where
  "verify_command E from_device sc = (let p = sc_payload sc in
     andThen (guard_with (validateSignedCommandShape sc)) (\<lambda>_.
     andThen (getActiveByRoute (dv_route from_device)) (\<lambda>d.
     andThen (ensureNodeIdentity E) (\<lambda>node.
     if dv_id d \<noteq> sp_device p \<or> sp_node p \<noteq> node
     then throw (commandError ''VOPS_REMOTE_COMMAND_BINDING'' ''Command identity binding failed.'')
     else if sc_key sc \<noteq> dv_key_id d
     then throw (commandError ''VOPS_REMOTE_COMMAND_KEY'' ''Command signing key is not current.'')
     else andThen (outside (re_verify E p (sc_signature sc) (dv_signing_key d))) (\<lambda>ok.
       if \<not> ok then throw (commandError ''VOPS_REMOTE_COMMAND_SIGNATURE'' ''Command signature is invalid.'')
       else andThen remote_clock (\<lambda>t.
         andThen (guard_with (validateCommandTime t p)) (\<lambda>_.
         andThen (guard_with (authorizeRole d p)) (\<lambda>_. ret d))))))))"

section \<open>Execution\<close>

definition decision_refusal :: "device \<Rightarrow> signed_payload \<Rightarrow> approval \<Rightarrow> instant \<Rightarrow> rexn option" where
  "decision_refusal d p a t =
     (case requireVersion p (apr_requested_at a) of Some e \<Rightarrow> Some e | None \<Rightarrow>
      if apr_status a \<noteq> Pending
      then Some (commandError ''VOPS_REMOTE_COMMAND_STALE'' (''Approval is already '' @ approval_status_text (apr_status a) @ ''.''))
      else if apr_expires_at a \<le> t then Some (commandError ''VOPS_REMOTE_COMMAND_EXPIRED'' ''Approval expired.'')
      else if (case sp_expires_at p of None \<Rightarrow> False | Some e \<Rightarrow> apr_expires_at a < e)
      then Some (commandError ''VOPS_REMOTE_COMMAND_EXPIRED'' ''Command outlives the authoritative approval.'')
      else if nonempty (apr_plan a) = None \<or> nonempty (sp_plan_hash p) = None
      then Some (commandError ''VOPS_REMOTE_PLAN_HASH'' ''Approval decision requires an exact plan hash.'')
      else None)"

definition plan_refusal :: "remote_env \<Rightarrow> device \<Rightarrow> signed_payload \<Rightarrow> approval \<Rightarrow> agent_plan \<Rightarrow> rexn option" where
  "plan_refusal E d p a plan =
     (if Some (plan_hash plan) \<noteq> sp_plan_hash p
      then Some (commandError ''VOPS_REMOTE_PLAN_HASH'' ''Plan changed after it was displayed.'')
      else if \<not> pv_valid (validate_plan (re_lib E) (re_registry E) plan) \<or> plan_status plan \<noteq> Plan_Awaiting
      then Some (commandError ''VOPS_REMOTE_COMMAND_STALE'' ''Plan is no longer approval-eligible.'')
      else case requireDeviceScope d (plan_target plan) (plan_environment plan) (apr_risk a) of Some e \<Rightarrow> Some e
      | None \<Rightarrow> if ''plan'' \<notin> set (rs_approval_kinds (dv_restrictions d))
          then scope_denied ''This device cannot approve plans.'' else None)"

definition decideApproval :: "remote_env \<Rightarrow> device \<Rightarrow> signed_payload \<Rightarrow> outcome ract" where
  "decideApproval E d p = andThen (guard_with (requireSubject p ''approval'')) (\<lambda>_.
     andThen (on_agent (getApproval (sp_subject p))) (\<lambda>found. case found of
       None \<Rightarrow> throw (commandError ''VOPS_REMOTE_APPROVAL_NOT_FOUND'' ''Approval was not found.'')
     | Some a \<Rightarrow> andThen remote_clock (\<lambda>t.
         andThen (guard_with (decision_refusal d p a t)) (\<lambda>_.
         andThen (on_agent (get_plan (the (apr_plan a)))) (\<lambda>plan.
         andThen (guard_with (plan_refusal E d p a plan)) (\<lambda>_.
         let verdict = pa_decision (sp_parameters p); reason = commandReason p;
             said = (\<lambda>v. if reason = [] then v @ '' by remote device '' @ dv_label d @ ''.'' else reason);
             actor = ''remote_device:'' @ dv_id d in
         if verdict = ''approve''
         then andThen (on_agent (approve (re_lib E) (apr_id a) (said ''Approved'') actor)) (\<lambda>x. ret (Done_Approval x))
         else if verdict = ''deny''
         then andThen (on_agent (deny (re_lib E) (apr_id a) (said ''Denied'') actor)) (\<lambda>x. ret (Done_Approval x))
         else throw (commandError ''VOPS_REMOTE_COMMAND_INVALID'' ''Approval decision must be approve or deny.'')))))))"

definition requirePlanScope :: "device \<Rightarrow> string \<Rightarrow> unit ract" where
  "requirePlanScope d i = andThen (on_agent (get_plan i)) (\<lambda>plan.
     guard_with (requireDeviceScope d (plan_target plan) (plan_environment plan) (highest_risk (plan_steps plan))))"

definition command_operation :: "device \<Rightarrow> signed_payload \<Rightarrow> operation ract" where
  "command_operation d p = andThen (guard_with (requireSubject p ''operation'')) (\<lambda>_.
     andThen (on_agent (get_operation (sp_subject p))) (\<lambda>q.
     andThen (guard_with (requireVersion p (op_updated_at q))) (\<lambda>_.
     andThen (requirePlanScope d (op_plan q)) (\<lambda>_. ret q))))"

definition cancel_operation :: "remote_env \<Rightarrow> device \<Rightarrow> signed_payload \<Rightarrow> outcome ract" where
  "cancel_operation E d p = andThen (command_operation d p) (\<lambda>q.
     andThen (on_agent (requestCancel (re_lib E) (op_id q))) (\<lambda>x. ret (Done_Operation x)))"

definition rollback_operation :: "remote_env \<Rightarrow> device \<Rightarrow> signed_payload \<Rightarrow> outcome ract" where
  "rollback_operation E d p = andThen (command_operation d p) (\<lambda>q.
     if \<not> op_rollback_available q
     then throw (commandError ''VOPS_REMOTE_ROLLBACK_UNAVAILABLE'' ''This operation has no rollback contract.'')
     else if op_state q \<noteq> Op_Succeeded \<and> op_state q \<noteq> Op_Failed
     then throw (commandError ''VOPS_REMOTE_COMMAND_STALE''
            (''Operation is '' @ op_state_text (op_state q) @ '', not rollback-eligible.''))
     else andThen (on_agent (transition (re_lib E) (op_id q) Op_Rollback_Requested no_patch)) (\<lambda>x. ret (Done_Operation x)))"

definition command_session :: "remote_env \<Rightarrow> device \<Rightarrow> signed_payload \<Rightarrow> outcome ract" where
  "command_session E d p = andThen (guard_with (requireSubject p ''agent_session'')) (\<lambda>_.
     andThen (on_agent (show_session (sp_subject p))) (\<lambda>s.
     andThen (guard_with (requireVersion p (ses_updated_at s))) (\<lambda>_.
     andThen (guard_with (requireProjectScope d (ses_repo_name s))) (\<lambda>_.
     andThen (on_agent ((if sp_type p = ''agent.pause_request'' then pause_session
        else if sp_type p = ''agent.resume_request'' then resume_session
        else revoke_session) (re_lib E) (ses_id s))) (\<lambda>x. ret (Done_Session x))))))"

definition stop_everything :: "remote_env \<Rightarrow> device \<Rightarrow> signed_payload \<Rightarrow> outcome ract" where
  "stop_everything E d p = andThen (guard_with (requireSubject p ''control_node'')) (\<lambda>_.
     andThen (on_agent (activate (re_lib E) (''remote_device:'' @ dv_id d) (commandReason p))) (\<lambda>_.
     andThen (on_agent (stopAll (re_lib E))) (\<lambda>ss.
     andThen (on_agent current) (\<lambda>v. ret (Done_Stop v (map ses_id ss))))))"

definition propose_intent :: "remote_env \<Rightarrow> device \<Rightarrow> signed_payload \<Rightarrow> outcome ract" where
  "propose_intent E d p = andThen (guard_with (requireSubject p ''intent'')) (\<lambda>_.
     andThen (guard_with (requireVersion p 0)) (\<lambda>_.
     let mismatch = throw (commandError ''VOPS_REMOTE_COMMAND_INVALID'' ''Signed intent subject does not match its proposal.'') in
     case pa_intent (sp_parameters p) of None \<Rightarrow> mismatch
     | Some x \<Rightarrow> if pp_id x \<noteq> sp_subject p then mismatch
         else andThen (create_intent E d x) (\<lambda>y. ret (Done_Intent y))))"

definition change_intent :: "remote_env \<Rightarrow> device \<Rightarrow> signed_payload \<Rightarrow> outcome ract" where
  "change_intent E d p = andThen (guard_with (requireSubject p ''intent'')) (\<lambda>_.
     andThen (getIntent (sp_subject p)) (\<lambda>found.
     let denied = throw (commandError ''VOPS_REMOTE_SCOPE_DENIED'' ''Intent is unavailable to this device.'') in
     case found of None \<Rightarrow> denied
     | Some x \<Rightarrow> if it_device x \<noteq> dv_id d then denied
         else andThen (guard_with (requireVersion p (it_version x))) (\<lambda>_.
           andThen (if sp_type p = ''intent.pause_request'' then pause_intent E (it_id x) (dv_id d)
                    else revoke_intent E (it_id x) (dv_id d)) (\<lambda>y. ret (Done_Intent y)))))"

definition execute_command :: "remote_env \<Rightarrow> device \<Rightarrow> signed_payload \<Rightarrow> outcome ract" where
  "execute_command E d p =
     (if sp_type p = ''approval.decision'' then decideApproval E d p
      else if sp_type p = ''operation.cancel_request'' then cancel_operation E d p
      else if sp_type p = ''operation.rollback_request'' then rollback_operation E d p
      else if starts_with (sp_type p) ''agent.'' then command_session E d p
      else if sp_type p = ''agents.stop_all_request'' then stop_everything E d p
      else if sp_type p = ''intent.create_request'' then propose_intent E d p
      else if sp_type p = ''intent.pause_request'' \<or> sp_type p = ''intent.revoke_request'' then change_intent E d p
      else throw (commandError ''VOPS_REMOTE_COMMAND_UNSUPPORTED'' (''Command '' @ quoted (sp_type p) @ '' is not enabled yet.'')))"

section \<open>Handling a request\<close>

definition command_event :: "device \<Rightarrow> signed_payload \<Rightarrow> string \<Rightarrow> string \<Rightarrow> string \<Rightarrow> instant \<Rightarrow> new_event" where
  "command_event d p eventType summary i t = \<lparr>ne_id = i, ne_timestamp = t, ne_session = None,
     ne_actor = ''remote_device:'' @ dv_id d, ne_operation = None, ne_type = eventType, ne_capability = None,
     ne_target = None, ne_summary = summary,
     ne_detail = JObj (opt_member ''commandId'' (safeCommandId (sp_command p)) @ [(''commandType'', JStr (sp_type p)),
       (''subject'', JObj [(''kind'', JStr (sp_kind p)), (''id'', JStr (sp_subject p)),
         (''version'', JNum (of_int (sp_version p)))])])\<rparr>"

definition log_command :: "remote_env \<Rightarrow> device \<Rightarrow> signed_payload \<Rightarrow> string \<Rightarrow> string \<Rightarrow> unit ract" where
  "log_command E d p eventType summary = on_agent (logEvent (re_lib E) (command_event d p eventType summary))"

definition send_result :: "remote_env \<Rightarrow> device \<Rightarrow> command_result \<Rightarrow> unit ract" where
  "send_result E d c = send_message E d ''remote_command'' (Command_Message c) (5 * 60000)"

definition received_result :: "command_request \<Rightarrow> instant \<Rightarrow> command_result" where
  "received_result q t = \<lparr>cr_type = ''command.received'', cr_request = rq_id q,
     cr_command = Some (sp_command (sc_payload (rq_signed q))), cr_state = ''received'', cr_duplicate = False,
     cr_result = None, cr_error = None, cr_at = t\<rparr>"

definition completed_result :: "command_request \<Rightarrow> outcome \<Rightarrow> instant \<Rightarrow> command_result" where
  "completed_result q x t = \<lparr>cr_type = ''command.completed'', cr_request = rq_id q,
     cr_command = Some (sp_command (sc_payload (rq_signed q))), cr_state = ''executed'', cr_duplicate = False,
     cr_result = Some x, cr_error = None, cr_at = t\<rparr>"

definition rejected_result :: "command_request \<Rightarrow> rexn \<Rightarrow> instant \<Rightarrow> command_result" where
  "rejected_result q e t = \<lparr>cr_type = ''command.rejected'', cr_request = rq_id q,
     cr_command = safeCommandId (sp_command (sc_payload (rq_signed q))), cr_state = ''rejected'', cr_duplicate = False,
     cr_result = None, cr_error = Some (remoteCommandCode e, safeCommandError e), cr_at = t\<rparr>"

definition send_duplicate :: "remote_env \<Rightarrow> device \<Rightarrow> command_request \<Rightarrow> command_result \<Rightarrow> unit ract" where
  "send_duplicate E d q previous = send_result E d (previous\<lparr>cr_request := rq_id q, cr_duplicate := True\<rparr>)"

definition run_command :: "remote_env \<Rightarrow> device \<Rightarrow> command_request \<Rightarrow> unit ract" where
  "run_command E d q = (let p = sc_payload (rq_signed q) in
     andThen remote_clock (\<lambda>t.
     andThen (send_result E d (received_result q t)) (\<lambda>_.
     andThen (log_command E d p ''remote.command.received'' ''Accepted a signed remote command.'') (\<lambda>_.
     andThen (execute_command E d p) (\<lambda>x.
     andThen remote_clock (\<lambda>t'.
     andThen (saveCommandResult (sp_command p) (completed_result q x t')) (\<lambda>_.
     andThen (send_result E d (completed_result q x t')) (\<lambda>_.
     log_command E d p ''remote.command.completed'' ''Completed a signed remote command.''))))))))"

definition accept_command :: "remote_env \<Rightarrow> device \<Rightarrow> command_request \<Rightarrow> unit ract" where
  "accept_command E from_device q = (let p = sc_payload (rq_signed q) in
     andThen (verify_command E from_device (rq_signed q)) (\<lambda>d.
     andThen (getCommand (sp_command p)) (\<lambda>previous. case previous of
       Some c \<Rightarrow> send_duplicate E d q c
     | None \<Rightarrow> andThen remote_clock (\<lambda>t.
         andThen (rememberCommand (sp_command p) (sp_nonce p) (received_result q t)) (\<lambda>reserved.
         if reserved then run_command E d q
         else andThen (getCommand (sp_command p)) (\<lambda>duplicate. case duplicate of
             Some c \<Rightarrow> send_duplicate E d q c
           | None \<Rightarrow> throw (commandError ''VOPS_REMOTE_COMMAND_REPLAYED'' ''Command ID or nonce was already used.'')))))))"

definition reject_command :: "remote_env \<Rightarrow> device \<Rightarrow> command_request \<Rightarrow> rexn \<Rightarrow> unit ract" where
  "reject_command E from_device q e = andThen remote_clock (\<lambda>t.
     let c = rejected_result q e t in
     andThen (case cr_command c of
         Some i \<Rightarrow> andThen (getCommand i) (\<lambda>existing. if existing \<noteq> None then saveCommandResult i c else ret ())
       | None \<Rightarrow> ret ()) (\<lambda>_.
     andThen (ignoring (send_result E from_device c)) (\<lambda>_.
     log_command E from_device (sc_payload (rq_signed q)) ''remote.command.rejected'' ''Rejected a signed remote command.'')))"

definition handle_command :: "remote_env \<Rightarrow> device \<Rightarrow> command_request \<Rightarrow> unit ract" where
  "handle_command E from_device q = catching (accept_command E from_device q) (reject_command E from_device q)"

section \<open>What the parts leave alone\<close>

text \<open>What a command is there to change: the agent's tables, the emergency stop, devices, pairings and intents.\<close>

definition controlled :: "remote \<Rightarrow> _" where
  "controlled r = ((w_sessions (rm_world r), w_plans (rm_world r), w_approvals (rm_world r), w_operations (rm_world r)),
     (w_safety (rm_world r), w_setting (rm_world r)), (rm_devices r, rm_pairings r, rm_intents r, rm_secrets r))"

lemma controlled_simps [simp]:
  "controlled (r\<lparr>rm_commands := cs\<rparr>) = controlled r" "controlled (r\<lparr>rm_nonces := ns\<rparr>) = controlled r"
  "controlled (r\<lparr>rm_world := logged L mk (rm_world r)\<rparr>) = controlled r"
  by (simp_all add: controlled_def)

lemma send_controlled [keeps_intros]: "keeps (\<lambda>r. controlled r = v) (send_message E d channel msg ttl)"
  by (rule send_keeps) (simp add: governed_def controlled_def)

lemma keeps_log:
  assumes "\<And>r L mk. P r \<Longrightarrow> P (r\<lparr>rm_world := logged L mk (rm_world r)\<rparr>)"
  shows "keeps P (on_agent (logEvent L mk))"
  using assms by (auto simp: keeps_def on_agent_run(2)[OF logEvent_run])

lemma result_controlled [keeps_intros]: "keeps (\<lambda>r. controlled r = v) (saveCommandResult i c)"
  unfolding saveCommandResult_def by (intro keeps_modify) simp

lemma log_command_controlled [keeps_intros]: "keeps (\<lambda>r. controlled r = v) (log_command E d p ty sm)"
  unfolding log_command_def by (intro keeps_log) simp

lemma duplicate_controlled [keeps_intros]: "keeps (\<lambda>r. controlled r = v) (send_duplicate E d q c)"
  unfolding send_duplicate_def send_result_def by (intro keeps_intros)

lemma reject_controlled [keeps_intros]: "keeps (\<lambda>r. controlled r = v) (reject_command E d q e)"
  unfolding reject_command_def send_result_def Let_def by (intro keeps_intros)

lemma keeps_guard [keeps_intros]: "keeps P (guard_with v)"
  unfolding guard_with_def by (intro keeps_intros)

lemma active_keeps [keeps_intros]: "keeps P (getActiveByRoute route)"
  unfolding getActiveByRoute_def Let_def by (intro keeps_intros)

lemma verify_keeps [keeps_intros]: "keeps P (verify_command E d sc)"
  unfolding verify_command_def ensureNodeIdentity_def Let_def by (intro keeps_intros)

lemma execute_command_desk [keeps_intros]: "keeps (\<lambda>r. desk r = v) (execute_command E d p)"
  unfolding execute_command_def decideApproval_def cancel_operation_def rollback_operation_def command_operation_def
    requirePlanScope_def command_session_def stop_everything_def propose_intent_def change_intent_def Let_def
  by (intro keeps_intros)

section \<open>What a verified command is\<close>

lemma guard_run: "guard_with v r = (Inr u, r') \<longleftrightarrow> v = None \<and> r' = r"
  by (cases v) (auto simp: guard_with_def run_action)

lemma outside_run: "outside v r = (Inr x, r') \<longleftrightarrow> v = Inr x \<and> r' = r"
  by (cases v) (auto simp: outside_def run_action)

lemma active_run:
  assumes "getActiveByRoute route r = (Inr d, r')"
  shows "r' = r \<and> d \<in> snd ` set (rm_devices r) \<and> dv_route d = route \<and> dv_status d = Dev_Active \<and>
    \<not> grant_over (w_now (rm_world r)) d"
  using assms unfolding getActiveByRoute_def getDeviceByRoute_def Let_def
  by (auto simp: run_action remote_run dest!: find_SomeD elim!: andThen_InrE split: option.splits if_splits)

definition in_time :: "instant \<Rightarrow> signed_payload \<Rightarrow> bool" where
  "in_time t p \<longleftrightarrow> (\<exists>issued expires. sp_issued_at p = Some issued \<and> sp_expires_at p = Some expires \<and> issued < expires \<and>
     issued \<le> t + 30000 \<and> t - 30000 \<le> expires \<and> expires - issued \<le> 300000)"

lemma validateCommandTime_iff: "validateCommandTime t p = None \<longleftrightarrow> in_time t p"
  by (auto simp: validateCommandTime_def in_time_def invalid_command_def CLOCK_SKEW_MS_def MAX_COMMAND_LIFETIME_MS_def
      split: option.splits if_splits)

lemma authorizeRole_iff: "authorizeRole d p = None \<longleftrightarrow> dv_role d \<noteq> Viewer \<and> (sp_type p \<in> set ADMIN_ONLY \<longrightarrow> dv_role d = Admin)"
  by (auto simp: authorizeRole_def)

definition verified :: "remote_env \<Rightarrow> signed_command \<Rightarrow> device \<Rightarrow> remote \<Rightarrow> bool" where
  "verified E sc d r \<longleftrightarrow> (let p = sc_payload sc in
     d \<in> snd ` set (rm_devices r) \<and> dv_id d = sp_device p \<and> dv_status d = Dev_Active \<and>
     \<not> grant_over (w_now (rm_world r)) d \<and> re_identity E = Inr (sp_node p) \<and> sc_key sc = dv_key_id d \<and>
     re_verify E p (sc_signature sc) (dv_signing_key d) = Inr True \<and> in_time (w_now (rm_world r)) p \<and>
     dv_role d \<noteq> Viewer \<and> (sp_type p \<in> set ADMIN_ONLY \<longrightarrow> dv_role d = Admin))"

lemma snd_member: "x \<in> snd ` A \<longleftrightarrow> (\<exists>k. (k, x) \<in> A)"
  by force

lemma verify_run:
  assumes "verify_command E from_device sc r = (Inr d, r')"
  shows "r' = r \<and> verified E sc d r \<and> validateSignedCommandShape sc = None"
proof -
  have "r' = r" using keepsD[OF verify_keeps[of "\<lambda>s. s = r"] refl assms] .
  moreover have "verified E sc d r \<and> validateSignedCommandShape sc = None"
    using assms unfolding verify_command_def ensureNodeIdentity_def Let_def
    by (auto simp: verified_def snd_member Let_def guard_run outside_run run_action remote_run validateCommandTime_iff authorizeRole_iff
        dest!: active_run elim!: andThen_InrE split: if_splits) blast+
  ultimately show ?thesis by blast
qed

section \<open>Reservation\<close>

text \<open>A command id and a nonce that were used once stay in the tables.\<close>

definition used :: "string \<Rightarrow> string \<Rightarrow> remote \<Rightarrow> bool" where
  "used c n r \<longleftrightarrow> c \<in> fst ` set (rm_commands r) \<and> n \<in> fst ` set (rm_nonces r)"

lemma used_desk: "desk r' = desk r \<Longrightarrow> used c n r \<Longrightarrow> used c n r'"
  by (simp add: desk_def used_def)

lemma keeps_used: "(\<And>v. keeps (\<lambda>r. desk r = v) m) \<Longrightarrow> keeps (used c n) m"
  unfolding keeps_def by (metis used_desk)

lemma used_world [simp]: "used c n (r\<lparr>rm_world := w\<rparr>) = used c n r"
  by (simp add: used_def)

lemma result_used [keeps_intros]: "keeps (used c n) (saveCommandResult i x)"
proof -
  have "fst ` set (map (\<lambda>(k, y). if k = i then (k, x) else (k, y)) rows) = fst ` set rows" for rows :: "(string \<times> command_result) list"
    by (induction rows) auto
  then show ?thesis unfolding saveCommandResult_def by (intro keeps_modify) (simp add: used_def)
qed

lemma log_command_used [keeps_intros]: "keeps (used c n) (log_command E d p ty sm)"
  unfolding log_command_def by (intro keeps_log) simp

lemma send_used [keeps_intros]: "keeps (used c n) (send_message E d channel msg ttl)"
  by (rule keeps_used) (rule send_desk)

lemma remember_used [keeps_intros]: "keeps (used c n) (rememberCommand i m x)"
  by (rule keepsI_wp) (auto simp: rememberCommand_def used_def wp_simps)

lemma run_command_used [keeps_intros]: "keeps (used c n) (run_command E d q)"
  unfolding run_command_def send_result_def Let_def
  by (intro keeps_intros keeps_used[OF execute_command_desk])

lemma reject_used [keeps_intros]: "keeps (used c n) (reject_command E d q e)"
  unfolding reject_command_def send_result_def Let_def by (intro keeps_intros)

lemma handle_used [keeps_intros]: "keeps (used c n) (handle_command E d q)"
  unfolding handle_command_def accept_command_def send_duplicate_def send_result_def Let_def by (intro keeps_intros)

lemma remember_run:
  "rememberCommand i n x r = (Inr True, r') \<Longrightarrow> i \<notin> fst ` set (rm_commands r) \<and> n \<notin> fst ` set (rm_nonces r) \<and> used i n r'"
  "rememberCommand i n x r = (Inr False, r') \<Longrightarrow> r' = r"
  by (auto simp: rememberCommand_def used_def run_action andThen_def split: if_splits)

lemma remember_total: "\<exists>b r'. rememberCommand i n x r = (Inr b, r')"
  by (auto simp: rememberCommand_def run_action andThen_def split: if_splits)

text \<open>
  Where a command changes something it was verified, its id and its nonce were new, and they are
  used from then on.
\<close>

lemma reject_ends:
  assumes "accept_command E from_device q r = (Inl e, r1)" and "controlled r1 = controlled r"
  shows "controlled (snd (handle_command E from_device q r)) = controlled r"
proof -
  obtain x r2 where rej: "reject_command E from_device q e r1 = (x, r2)" by fastforce
  then have "controlled r2 = controlled r1" using keepsD[OF reject_controlled refl] by blast
  then show ?thesis using assms rej by (simp add: handle_command_def catching_run)
qed

lemma unchanged_ends:
  assumes "snd (accept_command E from_device q r) = r1" and "controlled r1 = controlled r"
  shows "controlled (snd (handle_command E from_device q r)) = controlled r"
proof (cases "accept_command E from_device q r")
  case (Pair x r')
  then show ?thesis
    using assms reject_ends[of E from_device q r] by (cases x) (auto simp: handle_command_def catching_run)
qed

lemma command_effect:
  assumes "controlled (snd (handle_command E from_device q r)) \<noteq> controlled r"
  shows "\<exists>d. verified E (rq_signed q) d r \<and> dv_route d = dv_route from_device \<and>
    sp_command (sc_payload (rq_signed q)) \<notin> fst ` set (rm_commands r) \<and>
    sp_nonce (sc_payload (rq_signed q)) \<notin> fst ` set (rm_nonces r) \<and>
    used (sp_command (sc_payload (rq_signed q))) (sp_nonce (sc_payload (rq_signed q))) (snd (handle_command E from_device q r))"
proof -
  let ?p = "sc_payload (rq_signed q)"
  have changed: "controlled (snd (accept_command E from_device q r)) \<noteq> controlled r"
    using assms unchanged_ends by blast
  obtain v r0 where ver: "verify_command E from_device (rq_signed q) r = (v, r0)" by fastforce
  have r0: "r0 = r" using keepsD[OF verify_keeps[of "\<lambda>s. s = r"] refl ver] .
  show ?thesis
  proof (cases v)
    case (Inl e)
    then show ?thesis using changed ver r0 by (simp add: accept_command_def Let_def andThen_run)
  next
    case (Inr d)
    then have ok: "verified E (rq_signed q) d r" using verify_run ver by blast
    have route: "dv_route d = dv_route from_device"
      using ver Inr unfolding verify_command_def ensureNodeIdentity_def Let_def
      by (auto simp: guard_run outside_run run_action dest!: active_run elim!: andThen_InrE split: if_splits)
    define rest where "rest = andThen (getCommand (sp_command ?p)) (\<lambda>previous. case previous of
       Some c \<Rightarrow> send_duplicate E d q c
     | None \<Rightarrow> andThen remote_clock (\<lambda>t.
         andThen (rememberCommand (sp_command ?p) (sp_nonce ?p) (received_result q t)) (\<lambda>reserved.
         if reserved then run_command E d q
         else andThen (getCommand (sp_command ?p)) (\<lambda>duplicate. case duplicate of
             Some c \<Rightarrow> send_duplicate E d q c
           | None \<Rightarrow> throw (commandError ''VOPS_REMOTE_COMMAND_REPLAYED'' ''Command ID or nonce was already used.'')))))"
    have acc: "accept_command E from_device q r = rest r"
      unfolding accept_command_def Let_def rest_def using ver Inr r0 by (simp add: andThen_run(2)[where m = "verify_command _ _ _"])
    have new: "map_of (rm_commands r) (sp_command ?p) = None"
    proof (rule ccontr)
      assume "map_of (rm_commands r) (sp_command ?p) \<noteq> None"
      then obtain c where "rest r = send_duplicate E d q c r"
        unfolding rest_def by (auto simp: andThen_def remote_run)
      moreover have "controlled (snd (send_duplicate E d q c r)) = controlled r"
        using duplicate_controlled[of "controlled r" E d q c] by (simp add: keeps_def)
      ultimately show False using changed acc by simp
    qed
    obtain b r1 where mem: "rememberCommand (sp_command ?p) (sp_nonce ?p) (received_result q (w_now (rm_world r))) r = (Inr b, r1)"
      using remember_total by blast
    have rest: "rest r = (if b then run_command E d q r1 else throw (commandError ''VOPS_REMOTE_COMMAND_REPLAYED''
        ''Command ID or nonce was already used.'') r)"
    proof (cases b)
      case True
      then show ?thesis unfolding rest_def using new mem by (simp add: andThen_def remote_run)
    next
      case False
      then have "r1 = r" using mem remember_run(2)[of _ _ _ r r1] by simp
      then show ?thesis unfolding rest_def using new mem False by (simp add: andThen_def remote_run)
    qed
    have b by (rule ccontr) (use rest changed acc in \<open>simp add: run_action\<close>)
    have mem': "rememberCommand (sp_command ?p) (sp_nonce ?p) (received_result q (w_now (rm_world r))) r = (Inr True, r1)"
      using mem \<open>b\<close> by simp
    have free: "sp_command ?p \<notin> fst ` set (rm_commands r)" "sp_nonce ?p \<notin> fst ` set (rm_nonces r)"
        and used1: "used (sp_command ?p) (sp_nonce ?p) r1"
      using remember_run(1)[OF mem'] by blast+
    have "used (sp_command ?p) (sp_nonce ?p) (snd (accept_command E from_device q r))"
      using rest acc \<open>b\<close> run_command_used used1 by (simp add: keeps_def)
    then have "used (sp_command ?p) (sp_nonce ?p) (snd (handle_command E from_device q r))"
      using reject_used[of "sp_command ?p" "sp_nonce ?p" E from_device q]
      by (cases "accept_command E from_device q r"; cases "fst (accept_command E from_device q r)")
        (auto simp: handle_command_def catching_run keeps_def)
    then show ?thesis using ok route free by blast
  qed
qed

section \<open>Decisions on approvals\<close>

lemma requireDeviceScope_iff: "requireDeviceScope d target env k = None \<longleftrightarrow>
    (\<forall>t. nonempty target = Some t \<longrightarrow> rs_targets (dv_restrictions d) = [] \<or> t \<in> set (rs_targets (dv_restrictions d))) \<and>
    env \<in> set (rs_environments (dv_restrictions d)) \<and> riskRank k \<le> riskRank (rs_max_risk (dv_restrictions d))"
  by (auto simp: requireDeviceScope_def scope_denied_def Let_def split: option.splits)

definition in_device_scope :: "device \<Rightarrow> agent_plan \<Rightarrow> risk \<Rightarrow> bool" where
  "in_device_scope d plan k \<longleftrightarrow> requireDeviceScope d (plan_target plan) (plan_environment plan) k = None"

lemma nonempty_Some: "nonempty v = Some x \<longleftrightarrow> v = Some x \<and> x \<noteq> []"
  by (auto simp: nonempty_def split: option.splits if_splits)

lemma decision_refusal_none:
  assumes "decision_refusal d p a t = None"
  shows "sp_version p = apr_requested_at a \<and> apr_status a = Pending \<and> t < apr_expires_at a \<and>
    (\<exists>i. apr_plan a = Some i \<and> i \<noteq> []) \<and>
    (\<forall>e. sp_expires_at p = Some e \<longrightarrow> e \<le> apr_expires_at a)"
  using assms
  by (auto simp: decision_refusal_def requireVersion_def nonempty_def split: option.splits if_splits)

lemma plan_refusal_none:
  assumes "plan_refusal E d p a plan = None"
  shows "sp_plan_hash p = Some (plan_hash plan) \<and> hashPlan (re_lib E) (planBody plan) = plan_hash plan \<and>
    plan_status plan = Plan_Awaiting \<and> in_device_scope d plan (apr_risk a) \<and> ''plan'' \<in> set (rs_approval_kinds (dv_restrictions d))"
  using assms
  by (auto simp: plan_refusal_def in_device_scope_def scope_denied_def validate_plan_def Let_def split: option.splits if_splits)

lemma decide_world:
  assumes "approvals_wf w" and "approval_at i w = Some a" and "apr_status a = Pending" and "w_now w < apr_expires_at a"
    and "decide L i st reason actor w = (v, w')" and "st \<noteq> Approval_Expired"
  shows "\<forall>k. map_option apr_status (approval_at k w') = (if k = i then Some st else map_option apr_status (approval_at k w))"
  using decide_open[OF assms(1-3), of st L reason actor] assms(4,5) by (simp add: window_closed_def)

text \<open>
  A decision that goes through is on a pending approval of the version that was shown, before it and
  the command expire, and on the stored plan with exactly the signed hash, which is the hash of the
  plan's present content; the plan is in the device's scope. That approval, and no other, is decided.
\<close>

lemma decision_effect:
  assumes wf: "approvals_wf (rm_world r)" and run: "decideApproval E d p r = (Inr x, r')"
  shows "\<exists>a i plan. approval_at (sp_subject p) (rm_world r) = Some a \<and> apr_status a = Pending \<and>
    sp_version p = apr_requested_at a \<and> w_now (rm_world r) < apr_expires_at a \<and> apr_plan a = Some i \<and>
    plan_at i (rm_world r) = Some plan \<and> sp_plan_hash p = Some (plan_hash plan) \<and>
    hashPlan (re_lib E) (planBody plan) = plan_hash plan \<and> plan_status plan = Plan_Awaiting \<and>
    in_device_scope d plan (apr_risk a) \<and> ''plan'' \<in> set (rs_approval_kinds (dv_restrictions d)) \<and>
    (\<forall>k. map_option apr_status (approval_at k (rm_world r')) = (if k = sp_subject p
       then Some (if pa_decision (sp_parameters p) = ''approve'' then Approved else Denied)
       else map_option apr_status (approval_at k (rm_world r))))"
proof -
  have get: "on_agent (getApproval i) r = (Inr (approval_at i (rm_world r)), r)" for i
    by (simp add: on_agent_def action_simps)
  have plan: "on_agent (get_plan i) r = (Inr plan, r1) \<longleftrightarrow> plan_at i (rm_world r) = Some plan \<and> r1 = r" for i plan r1
    by (cases "plan_at i (rm_world r)") (auto simp: on_agent_def action_simps)
  obtain a where a: "approval_at (sp_subject p) (rm_world r) = Some a"
    using run unfolding decideApproval_def
    by (cases "approval_at (sp_subject p) (rm_world r)") (auto simp: guard_run get run_action elim!: andThen_InrE)
  obtain plan where ok: "decision_refusal d p a (w_now (rm_world r)) = None"
      "plan_at (the (apr_plan a)) (rm_world r) = Some plan" "plan_refusal E d p a plan = None"
      and acts: "\<exists>st reason actor y. st = (if pa_decision (sp_parameters p) = ''approve'' then Approved else Denied) \<and>
        on_agent (decide (re_lib E) (apr_id a) st reason actor) r = (Inr y, r')"
    using run a unfolding decideApproval_def approve_def deny_def Let_def
    by (auto simp: guard_run get plan remote_run run_action elim!: andThen_InrE split: if_splits) blast+
  have id: "apr_id a = sp_subject p" using approvals_wf_at[OF wf a] by simp
  obtain st reason actor y where st: "st = (if pa_decision (sp_parameters p) = ''approve'' then Approved else Denied)"
      and "on_agent (decide (re_lib E) (apr_id a) st reason actor) r = (Inr y, r')" using acts by blast
  then have dec: "decide (re_lib E) (sp_subject p) st reason actor (rm_world r) = (Inr y, rm_world r')"
    unfolding id by (auto simp: on_agent_def split: prod.splits sum.splits)
  have "st \<noteq> Approval_Expired" using st by simp
  then show ?thesis
    using a ok(2) decision_refusal_none[OF ok(1)] plan_refusal_none[OF ok(3)]
      decide_world[OF wf a _ _ dec] st by auto
qed

section \<open>Results\<close>

lemma wp_ignoring: "wp (ignoring m) Q E r \<longleftrightarrow> Q () (snd (m r))"
  using ignoring_run[of m r] by (auto simp: wp_def)

text \<open>The handler always returns: whatever a command throws becomes a stored and sent refusal.\<close>

lemma handle_returns: "\<exists>r'. handle_command E d q r = (Inr (), r')"
proof -
  have log: "wp (log_command E d p ty sm) (\<lambda>_ _. True) (\<lambda>_ _. False) s" for p ty sm s
    by (simp add: wp_def log_command_def on_agent_run(2)[OF logEvent_run])
  have "wp (reject_command E d q e) (\<lambda>_ _. True) (\<lambda>_ _. False) s" for e s
    unfolding reject_command_def remote_clock_def getCommand_def saveCommandResult_def Let_def
    by (simp add: wp_andThen wp_gets wp_ignoring wp_modify wp_ret wp_if log split: option.split)
  then have "wp (handle_command E d q) (\<lambda>_ _. True) (\<lambda>_ _. False) r"
    unfolding handle_command_def wp_catching by (rule_tac wp_mono[OF wp_true]) auto
  then show ?thesis by (cases "handle_command E d q r") (auto simp: wp_def split: sum.splits)
qed

text \<open>
  A request that carries the id of a command that was executed, but does not verify, replaces the stored
  result of that command by its own refusal.
\<close>

lemma refusal_overwrites_result:
  assumes "verify_command E d (rq_signed q) r = (Inl e, r)" and "(sp_command (sc_payload (rq_signed q)), c) \<in> set (rm_commands r)"
    and "safeCommandId (sp_command (sc_payload (rq_signed q))) = Some i"
  shows "map_of (rm_commands (snd (handle_command E d q r))) i = Some (rejected_result q e (w_now (rm_world r)))"
proof -
  have i: "sp_command (sc_payload (rq_signed q)) = i" using assms(3) by (simp add: safeCommandId_def split: if_splits)
  let ?c = "rejected_result q e (w_now (rm_world r))"
  have "accept_command E d q r = (Inl e, r)"
    using assms(1) by (simp add: accept_command_def Let_def andThen_run(1))
  then have "handle_command E d q r = reject_command E d q e r" by (simp add: handle_command_def catching_run)
  moreover have "map_of (rm_commands r) i \<noteq> None" using weak_map_of_SomeI[OF assms(2)] i by auto
  moreover have "map_of (map (\<lambda>(k, x). if k = i then (k, ?c) else (k, x)) (rm_commands r)) i = Some ?c"
    using \<open>map_of (rm_commands r) i \<noteq> None\<close> by (auto simp: map_of_replaced)
  moreover have "rm_commands (snd (send_result E d x s)) = rm_commands s" for x s
    using send_desk[of "desk s" E d "''remote_command''" "Command_Message x" "5 * 60000"]
    by (simp add: send_result_def keeps_def desk_def)
  moreover have "wp (log_command E d p ty sm) (\<lambda>_ s. map_of (rm_commands s) i = v) (\<lambda>_ _. False) s \<longleftrightarrow>
      map_of (rm_commands s) i = v" for p ty sm s v
    by (simp add: wp_def log_command_def on_agent_run(2)[OF logEvent_run])
  moreover have "cr_command ?c = Some i" using assms(3) by (simp add: rejected_result_def)
  ultimately have "wp (reject_command E d q e) (\<lambda>_ s. map_of (rm_commands s) i = Some ?c) (\<lambda>_ _. False) r"
    unfolding reject_command_def remote_clock_def getCommand_def saveCommandResult_def Let_def
    by (auto simp: wp_andThen wp_gets wp_ignoring wp_modify wp_ret)
  then show ?thesis using \<open>handle_command E d q r = _\<close>
    by (cases "reject_command E d q e r") (auto simp: wp_def split: sum.splits)
qed

end
