(* ===== verification/Remote_Gateway.thy ===== *)
theory Remote_Gateway
  imports Remote_Command
begin

text \<open>
  The entry of the remote control plane (src/src/remote/remote-gateway.ts, the parser of
  remote-message.types.ts): an envelope from the relay is checked, decrypted, acknowledged, refused
  when its id was seen, and handed to the service it is for. Chat turns are another component's; they
  are recorded as handed over.
\<close>

section \<open>The payload\<close>

datatype inbound =
    Sync_Request string
  | Chat_User string string "string option" "string option"
  | Chat_Cancel string string "string option"
  | Command_Frame command_request

definition control_char :: "char \<Rightarrow> bool" where
  "control_char c \<longleftrightarrow> (let n = (of_char c :: nat) in n \<le> 8 \<or> n = 11 \<or> n = 12 \<or> 14 \<le> n \<and> n \<le> 31)"

definition boundedString :: "string option \<Rightarrow> string \<Rightarrow> nat \<Rightarrow> string + string" where
  "boundedString v field m = (case v of
       None \<Rightarrow> Inl (''Remote '' @ field @ '' must be between 1 and '' @ show_nat m @ '' characters.'')
     | Some x \<Rightarrow> if length x < 1 \<or> m < length x
         then Inl (''Remote '' @ field @ '' must be between 1 and '' @ show_nat m @ '' characters.'')
         else if list_ex control_char x then Inl (''Remote '' @ field @ '' contains unsupported control characters.'')
         else Inr x)"

text \<open>\<open>value ? boundedString(value, ...) : absent\<close>.\<close>

definition optional_field :: "string option option \<Rightarrow> string \<Rightarrow> nat \<Rightarrow> string + string option" where
  "optional_field v field m = (if v = None \<or> v = Some (Some []) then Inr None
     else (case boundedString (the v) field m of Inl e \<Rightarrow> Inl e | Inr y \<Rightarrow> Inr (Some y)))"

definition PROVIDERS :: "string list" where
  "PROVIDERS = [''codex'', ''claude-code'', ''opencode'', ''antigravity'', ''openai-compatible'']"

definition parseProvider :: "string option option \<Rightarrow> string + string option" where
  "parseProvider v = (case optional_field v ''provider'' 80 of
       Inr (Some x) \<Rightarrow> if x \<in> set PROVIDERS then Inr (Some x) else Inl (''Unsupported remote provider '' @ quoted x @ ''.'')
     | r \<Rightarrow> r)"

definition parse_user_message :: "string \<Rightarrow> plaintext \<Rightarrow> string + inbound" where
  "parse_user_message request x = (case boundedString (pt_content x) ''content'' 8000 of
       Inl e \<Rightarrow> Inl e
     | Inr raw \<Rightarrow> let content = trim raw in
         if content = [] then Inl ''Remote chat content cannot be empty.''
         else case parseProvider (pt_provider x) of Inl e \<Rightarrow> Inl e
         | Inr provider \<Rightarrow> case optional_field (pt_conversation x) ''conversation_id'' 128 of Inl e \<Rightarrow> Inl e
         | Inr conversation \<Rightarrow> Inr (Chat_User request content provider conversation))"

definition parse_cancel :: "string \<Rightarrow> plaintext \<Rightarrow> string + inbound" where
  "parse_cancel request x = (case boundedString (pt_target_request x) ''target_request_id'' 128 of
       Inl e \<Rightarrow> Inl e
     | Inr target \<Rightarrow> case optional_field (pt_conversation x) ''conversation_id'' 128 of Inl e \<Rightarrow> Inl e
       | Inr conversation \<Rightarrow> Inr (Chat_Cancel request target conversation))"

definition parseRemoteInboundPayload :: "plaintext \<Rightarrow> string + inbound" where
  "parseRemoteInboundPayload x = (case boundedString (pt_request x) ''request_id'' 128 of
       Inl e \<Rightarrow> Inl e
     | Inr request \<Rightarrow>
         if pt_type x = ''sync.request'' then Inr (Sync_Request request)
         else if pt_type x = ''chat.user_message'' then parse_user_message request x
         else if pt_type x = ''chat.cancel'' then parse_cancel request x
         else if pt_type x = ''remote.command'' then
           (case pt_command x of None \<Rightarrow> Inl ''Remote signed_command must be an object.''
            | Some sc \<Rightarrow> Inr (Command_Frame \<lparr>rq_id = request, rq_signed = sc\<rparr>))
         else Inl (''Unsupported remote payload type '' @ quoted (pt_type x) @ ''.''))"

section \<open>The envelope\<close>

definition CHANNELS :: "string list" where
  "CHANNELS = [''presence'', ''notification'', ''state_sync'', ''chat_request'', ''chat_stream'', ''approval'',
     ''remote_command'', ''delivery_ack'', ''key_management'']"

fun bad_field :: "(string \<times> string) list \<Rightarrow> string option" where
  "bad_field [] = None"
| "bad_field ((field, v) # fs) = (if length v < 3 \<or> 160 < length v
     then Some (''Remote envelope '' @ field @ '' is invalid.'') else bad_field fs)"

definition validateEnvelope :: "instant \<Rightarrow> envelope \<Rightarrow> string option" where
  "validateEnvelope t e =
     (if en_protocol e \<noteq> 1 then Some ''Unsupported remote envelope protocol.''
      else case bad_field [(''message_id'', en_message e), (''sender_id'', en_sender e),
          (''recipient_id'', en_recipient e), (''key_id'', en_key e)] of Some m \<Rightarrow> Some m
      | None \<Rightarrow>
      if en_channel e \<notin> set CHANNELS then Some ''Remote envelope channel is invalid.''
      else if 2 ^ 53 - 1 < en_sequence e \<or> en_sequence e < 1 then Some ''Remote envelope sequence is invalid.''
      else if length (en_ciphertext e) < 32 \<or> 512000 < length (en_ciphertext e)
      then Some ''Remote envelope ciphertext length is invalid.''
      else case (en_created_at e, en_expires_at e) of
        (Some created, Some expires) \<Rightarrow>
          if expires \<le> created then Some ''Remote envelope timestamps are invalid.''
          else if t + 2 * 60000 < created \<or> expires \<le> t then Some ''Remote envelope is expired or from the future.''
          else if 15 * 60000 < expires - created then Some ''Remote envelope lifetime exceeds the accepted window.''
          else None
      | _ \<Rightarrow> Some ''Remote envelope timestamps are invalid.'')"

section \<open>Handling\<close>

definition gateway_event :: "string \<Rightarrow> string \<Rightarrow> json \<Rightarrow> string \<Rightarrow> instant \<Rightarrow> new_event" where
  "gateway_event eventType summary detail i t = \<lparr>ne_id = i, ne_timestamp = t, ne_session = None,
     ne_actor = ''remote_gateway'', ne_operation = None, ne_type = eventType, ne_capability = None, ne_target = None,
     ne_summary = summary, ne_detail = detail\<rparr>"

definition log_gateway :: "remote_env \<Rightarrow> string \<Rightarrow> string \<Rightarrow> json \<Rightarrow> unit ract" where
  "log_gateway E eventType summary detail = on_agent (logEvent (re_lib E) (gateway_event eventType summary detail))"

definition hand_over :: "device \<Rightarrow> chat_request \<Rightarrow> unit ract" where
  "hand_over d c = modify (\<lambda>r. r\<lparr>rm_chats := (d, c) # rm_chats r\<rparr>)"

definition dispatch :: "remote_env \<Rightarrow> device \<Rightarrow> string \<Rightarrow> inbound \<Rightarrow> unit ract" where
  "dispatch E d channel x = (case x of
       Sync_Request q \<Rightarrow>
         if channel \<noteq> ''state_sync'' then throw (plain ''Remote sync request used the wrong encrypted channel.'')
         else andThen (gets (re_snapshot E d)) (\<lambda>v. andThen (outside v) (\<lambda>snapshot.
           send_message E d ''state_sync'' (State_Message snapshot) (2 * 60000)))
     | Chat_User q content provider conversation \<Rightarrow>
         if channel \<noteq> ''chat_request'' then throw (plain ''Remote chat request used the wrong encrypted channel.'')
         else hand_over d (User_Message q provider conversation content)
     | Chat_Cancel q target conversation \<Rightarrow>
         if channel \<noteq> ''chat_request'' then throw (plain ''Remote chat cancellation used the wrong encrypted channel.'')
         else hand_over d (Cancel_Message q target conversation)
     | Command_Frame q \<Rightarrow>
         if channel \<noteq> ''remote_command'' then throw (plain ''Remote command used the wrong encrypted channel.'')
         else handle_command E d q)"

text \<open>The sender: an active device whose current key the envelope is for, and what it says.\<close>

definition open_envelope :: "remote_env \<Rightarrow> envelope \<Rightarrow> (device \<times> inbound) ract" where
  "open_envelope E e = andThen remote_clock (\<lambda>t. case validateEnvelope t e of Some m \<Rightarrow> throw (plain m) | None \<Rightarrow>
     andThen (ensureNodeIdentity E) (\<lambda>node.
     if en_recipient e \<noteq> node then throw (plain ''Remote envelope is addressed to a different control node.'')
     else andThen (getActiveByRoute (en_sender e)) (\<lambda>d.
       if en_key e \<noteq> dv_key_id d
       then throw (plain ''Remote envelope key binding does not match the paired device.'')
       else andThen (outside (re_decrypt E d e)) (\<lambda>text.
         case parseRemoteInboundPayload text of Inl m \<Rightarrow> throw (plain m) | Inr x \<Rightarrow> ret (d, x)))))"

definition accept_envelope :: "remote_env \<Rightarrow> envelope \<Rightarrow> unit ract" where
  "accept_envelope E e = andThen (open_envelope E e) (\<lambda>(d, x).
     andThen (acceptInboundMessage (dv_id d) (en_message e) (en_sequence e) (en_expires_at e)) (\<lambda>fresh.
     andThen (acknowledge E) (\<lambda>_.
     if \<not> fresh
     then log_gateway E ''remote.message.replayed'' ''Rejected a replayed remote message.''
            (JObj [(''deviceId'', JStr (dv_id d)), (''messageId'', JStr (en_message e))])
     else andThen (touch_device (dv_id d)) (\<lambda>_. dispatch E d (en_channel e) x))))"

definition refuse_envelope :: "remote_env \<Rightarrow> envelope \<Rightarrow> rexn \<Rightarrow> unit ract" where
  "refuse_envelope E e err = andThen (ignoring (acknowledge E)) (\<lambda>_.
     log_gateway E ''remote.message.rejected'' ''Rejected a remote encrypted message.''
       (JObj [(''senderId'', JStr (take 160 (en_sender e))), (''messageId'', JStr (take 160 (en_message e))),
              (''reason'', JStr (take 240 (message_of err)))]))"

definition handleEnvelope :: "remote_env \<Rightarrow> envelope \<Rightarrow> unit ract" where
  "handleEnvelope E e = catching (accept_envelope E e) (refuse_envelope E e)"

section \<open>What an envelope can do\<close>

definition served :: "remote \<Rightarrow> _" where
  "served r = (controlled r, rm_chats r, rm_commands r, rm_nonces r)"

definition in_window :: "instant \<Rightarrow> envelope \<Rightarrow> bool" where
  "in_window t e \<longleftrightarrow> (\<exists>created expires. en_created_at e = Some created \<and> en_expires_at e = Some expires \<and>
     created < expires \<and> created \<le> t + 120000 \<and> t < expires \<and> expires - created \<le> 900000)"

lemma validateEnvelope_window: "validateEnvelope t e = None \<Longrightarrow> in_window t e \<and> 1 \<le> en_sequence e \<and> en_sequence e < 2 ^ 53 \<and>
    length (en_ciphertext e) \<in> {32..512000} \<and> en_channel e \<in> set CHANNELS"
  by (auto simp: validateEnvelope_def in_window_def split: option.splits if_splits)

lemma send_served [keeps_intros]: "keeps (\<lambda>r. served r = v) (send_message E d channel msg ttl)"
proof -
  have "rm_chats (snd (send_message E d channel msg ttl r)) = rm_chats r" for r
  proof -
    have "keeps (\<lambda>r. rm_chats r = v) (send_message E d channel msg ttl)" for v
      unfolding send_message_def deliver_def ensureNodeIdentity_def nextOutboundSequence_def Let_def
      by (intro keeps_intros keeps_modify) simp_all
    then show ?thesis by (simp add: keeps_def)
  qed
  moreover have "controlled (snd (send_message E d channel msg ttl r)) = controlled r" for r
    using send_controlled[of "controlled r" E d channel msg ttl] by (simp add: keeps_def)
  moreover have "desk (snd (send_message E d channel msg ttl r)) = desk r" for r
    using send_desk[of "desk r" E d channel msg ttl] by (simp add: keeps_def)
  ultimately show ?thesis unfolding keeps_def served_def desk_def by simp
qed

lemma log_gateway_served [keeps_intros]: "keeps (\<lambda>r. served r = v) (log_gateway E ty sm detail)"
  unfolding log_gateway_def by (intro keeps_log) (simp add: served_def)

lemma acknowledge_served [keeps_intros]: "keeps (\<lambda>r. served r = v) (acknowledge E)"
  unfolding acknowledge_def by (intro keeps_intros keeps_modify) (simp add: served_def controlled_def)

lemma refuse_served: "keeps (\<lambda>r. served r = v) (refuse_envelope E e err)"
  unfolding refuse_envelope_def by (intro keeps_intros)

lemma open_keeps [keeps_intros]: "keeps P (open_envelope E e)"
  unfolding open_envelope_def ensureNodeIdentity_def by (intro keeps_intros)

text \<open>The sender of an envelope that was opened.\<close>

definition sent_by :: "remote_env \<Rightarrow> envelope \<Rightarrow> device \<Rightarrow> remote \<Rightarrow> bool" where
  "sent_by E e d r \<longleftrightarrow> d \<in> snd ` set (rm_devices r) \<and> dv_route d = en_sender e \<and> dv_status d = Dev_Active \<and>
     \<not> grant_over (w_now (rm_world r)) d \<and> en_key e = dv_key_id d \<and> re_identity E = Inr (en_recipient e) \<and>
     in_window (w_now (rm_world r)) e \<and> (\<exists>x. re_decrypt E d e = Inr x)"

lemma open_run:
  assumes "open_envelope E e r = (Inr (d, x), r')"
  shows "r' = r \<and> sent_by E e d r"
proof -
  have "r' = r" using keepsD[OF open_keeps[of "\<lambda>s. s = r"] refl assms] .
  moreover have "sent_by E e d r"
    using assms unfolding open_envelope_def ensureNodeIdentity_def
    by (auto simp: sent_by_def snd_member outside_run run_action remote_run dest!: active_run validateEnvelope_window
        elim!: andThen_InrE split: option.splits sum.splits if_splits) blast?
  ultimately show ?thesis by blast
qed

definition seen :: "string \<Rightarrow> remote \<Rightarrow> bool" where
  "seen m r \<longleftrightarrow> m \<in> fst ` set (rm_replay r)"

lemma accept_run:
  obtains b r1 where "acceptInboundMessage i m s x r = (Inr b, r1)" and "b \<longleftrightarrow> \<not> seen m r" and "seen m r1"
    and "served r1 = served r" and "rm_frames r1 = rm_frames r"
proof (cases "seen m r")
  case True
  then show thesis
    by (intro that[of False r]) (simp_all add: acceptInboundMessage_def seen_def andThen_def run_action)
next
  case False
  let ?r1 = "r\<lparr>rm_replay := rm_replay r @ [(m, x)],
      rm_inbound := put_row i (max (or_default (map_of (rm_inbound r) i) s) s) (rm_inbound r)\<rparr>"
  have "acceptInboundMessage i m s x r = (Inr True, ?r1)"
    using False by (simp add: acceptInboundMessage_def seen_def andThen_def run_action)
  then show thesis by (rule that[of True ?r1]) (use False in \<open>simp_all add: seen_def served_def controlled_def\<close>)
qed

text \<open>What happens after the envelope was opened.\<close>

lemma opened_run:
  assumes "open_envelope E e r = (Inr (d, x), r)"
    and "acceptInboundMessage (dv_id d) (en_message e) (en_sequence e) (en_expires_at e) r = (Inr b, r1)"
  shows "accept_envelope E e r = andThen (acknowledge E) (\<lambda>_.
     if \<not> b then log_gateway E ''remote.message.replayed'' ''Rejected a replayed remote message.''
            (JObj [(''deviceId'', JStr (dv_id d)), (''messageId'', JStr (en_message e))])
     else andThen (touch_device (dv_id d)) (\<lambda>_. dispatch E d (en_channel e) x)) r1"
  using assms unfolding accept_envelope_def
  by (simp add: andThen_run(2)[where m = "open_envelope E e"] andThen_run(2)[where m = "acceptInboundMessage _ _ _ _"])

lemma handle_envelope_cases:
  assumes "served (snd (accept_envelope E e r)) = served r"
  shows "served (snd (handleEnvelope E e r)) = served r"
proof (cases "accept_envelope E e r")
  case (Pair v r1)
  then show ?thesis
    using assms refuse_served[of "served r1" E e] by (cases v) (auto simp: handleEnvelope_def catching_run keeps_def)
qed

lemma envelope_effect:
  assumes "served (snd (handleEnvelope E e r)) \<noteq> served r"
  shows "\<exists>d. sent_by E e d r \<and> \<not> seen (en_message e) r"
proof -
  have changed: "served (snd (accept_envelope E e r)) \<noteq> served r" using assms handle_envelope_cases by blast
  obtain v r0 where op: "open_envelope E e r = (v, r0)" by fastforce
  have r0: "r0 = r" using keepsD[OF open_keeps[of "\<lambda>s. s = r"] refl op] .
  show ?thesis
  proof (cases v)
    case (Inl err)
    then show ?thesis using changed op r0 by (simp add: accept_envelope_def andThen_run)
  next
    case (Inr dx)
    then obtain d x where op': "open_envelope E e r = (Inr (d, x), r)" using op r0 by (cases dx) simp
    obtain b r1 where acc: "acceptInboundMessage (dv_id d) (en_message e) (en_sequence e) (en_expires_at e) r = (Inr b, r1)"
        and b: "b \<longleftrightarrow> \<not> seen (en_message e) r" and same: "served r1 = served r"
      using accept_run by metis
    have b
    proof (rule ccontr)
      assume "\<not> b"
      then have "accept_envelope E e r = andThen (acknowledge E) (\<lambda>_. log_gateway E ''remote.message.replayed''
          ''Rejected a replayed remote message.''
          (JObj [(''deviceId'', JStr (dv_id d)), (''messageId'', JStr (en_message e))])) r1"
        using opened_run[OF op' acc] by simp
      moreover have "keeps (\<lambda>r. served r = served r1) (andThen (acknowledge E) (\<lambda>_. log_gateway E ty sm detail))" for ty sm detail
        by (intro keeps_intros)
      ultimately show False using changed same by (simp add: keeps_def)
    qed
    then show ?thesis using b open_run[OF op'] by blast
  qed
qed

text \<open>
  A message whose acknowledgement cannot be sent is recorded as seen and not handed on; what the relay
  delivers again is then refused as a replay, so the message is lost.
\<close>

lemma unacknowledged_message_lost:
  assumes "open_envelope E e r = (Inr (d, x), r)" and "\<not> re_link E (rm_frames r)"
  shows "served (snd (handleEnvelope E e r)) = served r \<and> seen (en_message e) (snd (handleEnvelope E e r))"
proof -
  obtain b r1 where acc: "acceptInboundMessage (dv_id d) (en_message e) (en_sequence e) (en_expires_at e) r = (Inr b, r1)"
      and same: "served r1 = served r" "seen (en_message e) r1" "rm_frames r1 = rm_frames r"
    using accept_run by metis
  have ack: "acknowledge E r1 = (Inl (plain ''The remote relay is not connected.''), r1\<lparr>rm_frames := Suc (rm_frames r1)\<rparr>)"
    using assms(2) same(3) by (simp add: acknowledge_def andThen_def run_action)
  then have acc': "accept_envelope E e r = (Inl (plain ''The remote relay is not connected.''), r1\<lparr>rm_frames := Suc (rm_frames r1)\<rparr>)"
    unfolding opened_run[OF assms(1) acc] by (rule andThen_run(1))
  then have "served (snd (accept_envelope E e r)) = served r" using same(1) by (simp add: served_def controlled_def)
  moreover have "keeps (seen m) (refuse_envelope E e err)" for m err
    unfolding refuse_envelope_def acknowledge_def log_gateway_def
    by (intro keeps_intros keeps_modify keeps_log) (simp_all add: seen_def)
  then have "seen (en_message e) (snd (refuse_envelope E e err (r1\<lparr>rm_frames := n\<rparr>)))" for err n
    using same(2) by (simp add: keeps_def seen_def)
  ultimately show ?thesis
    using handle_envelope_cases[of E e r] acc' by (simp add: handleEnvelope_def catching_run)
qed

end
