(* ===== verification/Remote_Run.thy ===== *)
theory Remote_Run
  imports Remote_Gateway
begin

text \<open>
  The remote control plane as a whole: the calls that can reach a node (from the local user, the relay,
  the watcher's timer and the rest of the program) as steps on its state, in any order and number, and
  what holds in every state they lead to. The services outside (the environment of a call) may answer
  differently at every step; only the check of a pairing answer is fixed.
\<close>

section \<open>Calls\<close>

text \<open>
  \<open>Answer\<close> is the second half of an evaluation, with any copy of an intent at all, which covers the
  one that was read before the catalog was asked; \<open>Elsewhere\<close> is whatever the agent API and the clock
  did in between.
\<close>

datatype remote_call =
    Create_Pairing | Hello hello_frame | Confirm string confirmation | List_Pairings
  | Suspend string | Resume string | Revoke string | Set_Role string device_role
  | Tick | Answer intent instant "exn + plan_availability list"
  | Envelope envelope | Command device command_request
  | Elsewhere world | Restart

definition remote_step :: "remote_env \<Rightarrow> remote_call \<Rightarrow> remote \<Rightarrow> remote" where
  "remote_step E c r = (case c of
       Create_Pairing \<Rightarrow> snd (create_pairing E r)
     | Hello f \<Rightarrow> snd (handleHello E f r)
     | Confirm i f \<Rightarrow> snd (confirm_pairing E i f r)
     | List_Pairings \<Rightarrow> snd (list_pairings r)
     | Suspend i \<Rightarrow> snd (suspend_device E i r)
     | Resume i \<Rightarrow> snd (resume_device E i r)
     | Revoke i \<Rightarrow> snd (revoke_device E i r)
     | Set_Role i role \<Rightarrow> snd (setRole E i role r)
     | Tick \<Rightarrow> snd (tick E r)
     | Answer x t answer \<Rightarrow> snd (answered_intent E x t answer r)
     | Envelope e \<Rightarrow> snd (handleEnvelope E e r)
     | Command d q \<Rightarrow> snd (handle_command E d q r)
     | Elsewhere w \<Rightarrow> r\<lparr>rm_world := w\<rparr>
     | Restart \<Rightarrow> r\<lparr>rm_checking := False\<rparr>)"

inductive later :: "proof_check \<Rightarrow> remote \<Rightarrow> remote \<Rightarrow> bool" for V where
  now: "later V r r"
| step: "later V r r' \<Longrightarrow> re_verify_pairing E = V \<Longrightarrow> later V r (remote_step E c r')"

definition untouched :: "remote \<Rightarrow> bool" where
  "untouched r \<longleftrightarrow> rm_devices r = [] \<and> rm_pairings r = [] \<and> rm_intents r = [] \<and> rm_commands r = [] \<and>
     rm_nonces r = [] \<and> rm_replay r = []"

definition reached :: "proof_check \<Rightarrow> remote \<Rightarrow> bool" where
  "reached V r \<longleftrightarrow> (\<exists>r0. untouched r0 \<and> later V r0 r)"

lemma later_trans: "later V r' r'' \<Longrightarrow> later V r r' \<Longrightarrow> later V r r''"
  by (induction rule: later.induct) (auto intro: later.step)

section \<open>What every call keeps\<close>

text \<open>A property that the parts of the calls keep is kept by every call, so it holds from then on.\<close>

locale call_frame =
  fixes V :: proof_check and P :: "remote \<Rightarrow> bool"
  assumes world: "P r \<Longrightarrow> P (r\<lparr>rm_world := w\<rparr>)"
    and flag: "P r \<Longrightarrow> P (r\<lparr>rm_checking := b\<rparr>)"
    and chats: "P r \<Longrightarrow> P (r\<lparr>rm_chats := cs\<rparr>)"
    and frames: "P r \<Longrightarrow> P (r\<lparr>rm_frames := n\<rparr>)"
    and send: "keeps P (send_message E d channel msg ttl)"
    and execute: "keeps P (execute_command E d p)"
    and remember: "keeps P (rememberCommand i nonce y)"
    and result: "keeps P (saveCommandResult i y)"
    and inbound: "keeps P (acceptInboundMessage i k s x)"
    and registry: "keeps P (touch_device i)" "keeps P (setStatus E i st)" "keeps P (setRole E i role)"
    and pairing: "keeps P (create_pairing E)" "keeps P (confirm_pairing E i f)" "keeps P list_pairings"
    and hello: "re_verify_pairing E = V \<Longrightarrow> keeps P (handleHello E h)"
    and watcher: "keeps P (tick E)" "keeps P (answered_intent E z t answer)"
begin

lemma agent: "keeps P (on_agent m)"
  by (rule keeps_on_agent) (rule world)

lemma command [keeps_intros]: "keeps P (handle_command E d q)"
  unfolding handle_command_def accept_command_def reject_command_def run_command_def send_duplicate_def send_result_def
    log_command_def Let_def
  by (intro keeps_intros agent send execute remember result)

lemma dispatched [keeps_intros]: "keeps P (dispatch E d channel x)"
  unfolding dispatch_def hand_over_def by (cases x) (auto intro!: keeps_intros keeps_modify send chats)

lemma delivered: "keeps P (andThen (acknowledge E) (\<lambda>_. if \<not> b then log_gateway E ty sm detail
     else andThen (touch_device i) (\<lambda>_. dispatch E d channel x)))"
  unfolding acknowledge_def log_gateway_def by (intro keeps_intros keeps_modify agent registry frames)

lemma refused: "keeps P (refuse_envelope E e err)"
  unfolding refuse_envelope_def acknowledge_def log_gateway_def by (intro keeps_intros keeps_modify agent frames)

lemma envelope [keeps_intros]: "keeps P (handleEnvelope E e)"
  unfolding handleEnvelope_def accept_envelope_def case_prod_beta
  by (intro keeps_intros delivered refused inbound)

lemma call: "re_verify_pairing E = V \<Longrightarrow> P r \<Longrightarrow> P (remote_step E c r)"
  using command envelope registry pairing hello watcher world flag
  by (cases c) (auto simp: remote_step_def suspend_device_def resume_device_def revoke_device_def keeps_def)

lemma lasts: "later V r r' \<Longrightarrow> P r \<Longrightarrow> P r'"
  by (induction rule: later.induct) (auto intro: call)

end

text \<open>
  Two kinds of properties are kept: those of the tables of devices, pairings, commands and messages,
  which the watcher and the execution of a command leave alone, and those of the intents.
\<close>

locale table_frame =
  fixes V :: proof_check and P :: "remote \<Rightarrow> bool"
  assumes tables: "desk r' = desk r \<Longrightarrow> P r \<Longrightarrow> P r'"
    and remembered: "keeps P (rememberCommand i nonce y)"
    and stored: "keeps P (saveCommandResult i y)"
    and accepted: "keeps P (acceptInboundMessage i k s x)"
    and touched: "keeps P (touch_device i)"
    and status: "keeps P (setStatus E i st)"
    and role: "keeps P (setRole E i role)"
    and created: "keeps P (create_pairing E)"
    and confirmed: "keeps P (confirm_pairing E i f)"
    and listed: "keeps P list_pairings"
    and greeted: "re_verify_pairing E = V \<Longrightarrow> keeps P (handleHello E h)"
begin

lemma by_desk: "(\<And>v. keeps (\<lambda>r. desk r = v) m) \<Longrightarrow> keeps P m"
  unfolding keeps_def using tables by blast

end

lemma desk_frames [simp]: "desk (r\<lparr>rm_frames := n\<rparr>) = desk r"
  by (simp add: desk_def)

sublocale table_frame \<subseteq> call_frame V P
proof unfold_locales
  show "keeps P (send_message E d channel msg ttl)" for E d channel msg ttl by (rule by_desk) (rule send_desk)
  show "keeps P (execute_command E d p)" for E d p by (rule by_desk) (rule execute_command_desk)
  show "keeps P (tick E)" for E by (rule by_desk) (rule desk_frame.ticking)
  show "keeps P (answered_intent E z t answer)" for E z t answer by (rule by_desk) (rule desk_frame.answered)
qed (rule remembered stored accepted touched status role created confirmed listed greeted |
    assumption | erule tables[rotated], simp)+

locale intents_frame = intent_frame P for P :: "remote \<Rightarrow> bool" +
  assumes rows: "rm_intents r' = rm_intents r \<Longrightarrow> rm_secrets r' = rm_secrets r \<Longrightarrow> P r \<Longrightarrow> P r'"
begin

lemma by_rows: "(\<And>v. keeps (\<lambda>r. (rm_intents r, rm_secrets r) = v) m) \<Longrightarrow> keeps P m"
  unfolding keeps_def using rows by blast

lemma commanded: "keeps P (execute_command E d p)"
  unfolding execute_command_def decideApproval_def cancel_operation_def rollback_operation_def command_operation_def
    requirePlanScope_def command_session_def stop_everything_def propose_intent_def change_intent_def Let_def
  by (intro keeps_intros)

lemma tables: "keeps P (rememberCommand i nonce y)" "keeps P (saveCommandResult i y)" "keeps P (acceptInboundMessage i k s x)"
  "keeps P (saveDevice d)" "keeps P (savePairing g)" "keeps P (remoteId prefix)" "keeps P (nextOutboundSequence i)"
  "keeps P (deliver E d md msg)"
  unfolding rememberCommand_def saveCommandResult_def acceptInboundMessage_def saveDevice_def savePairing_def remoteId_def
    nextOutboundSequence_def deliver_def Let_def case_prod_beta
  by (rule by_rows; intro keeps_intros keeps_modify; simp)+

lemma registering [keeps_intros]: "keeps P (touch_device i)" "keeps P (setStatus E i st)" "keeps P (setRole E i role)"
    "keeps P (register_device E g)"
  unfolding touch_device_def get_device_def setStatus_def setRole_def register_device_def registered_def log_device_def Let_def
  by (intro keeps_intros tables)+

lemma pairings: "keeps P (create_pairing E)" "keeps P (confirm_pairing E i f)" "keeps P list_pairings" "keeps P (handleHello E h)"
  unfolding create_pairing_def confirm_pairing_def list_pairings_def handleHello_def requireLive_def announce_device_def
    ensureNodeIdentity_def log_pairing_def Let_def
  by (intro keeps_intros tables)+

end

sublocale intents_frame \<subseteq> calls: call_frame V P for V
  by unfold_locales
    (rule commanded tables registering pairings send ticking answered world flag | assumption | (erule rows[rotated 2]; simp))+

lemma command_rows:
  "keeps (\<lambda>r. (rm_next r, rm_devices r, rm_pairings r) = v) (rememberCommand k nonce y)"
  "keeps (\<lambda>r. (rm_next r, rm_devices r, rm_pairings r) = v) (saveCommandResult k y)"
  "keeps (\<lambda>r. (rm_next r, rm_devices r, rm_pairings r) = v) (acceptInboundMessage j k s x)"
  unfolding rememberCommand_def saveCommandResult_def acceptInboundMessage_def case_prod_beta
  by (intro keeps_intros keeps_modify; simp)+

lemma keeps_view: "(\<And>v. keeps (\<lambda>r. f r = v) m) \<Longrightarrow> (\<And>r r'. f r' = f r \<Longrightarrow> P r \<Longrightarrow> P r') \<Longrightarrow> keeps P m"
  unfolding keeps_def by blast

lemma dev_inv_rows: "(rm_next r', rm_devices r', rm_pairings r') = (rm_next r, rm_devices r, rm_pairings r) \<Longrightarrow>
    dev_inv b i r \<Longrightarrow> dev_inv b i r'"
  unfolding dev_inv_def devices_wf_def revoked_def device_at_def prod.inject by (elim conjE) (simp only: simp_thms)

lemma command_rows_dev:
  "keeps (dev_inv b i) (rememberCommand k nonce y)" "keeps (dev_inv b i) (saveCommandResult k y)"
  "keeps (dev_inv b i) (acceptInboundMessage j k' s x)"
  by (rule keeps_view[where f = "\<lambda>r. (rm_next r, rm_devices r, rm_pairings r)"];
      (rule command_rows | erule (1) dev_inv_rows))+

interpretation device_frame: table_frame V "dev_inv b i" for V b i
  by unfold_locales (rule command_rows_dev touch_keeps setStatus_keeps setRole_keeps pairing_dev | erule (1) dev_inv_desk)+

lemma command_rows_proved:
  "keeps (all_proved V) (rememberCommand k nonce y)" "keeps (all_proved V) (saveCommandResult k y)"
  "keeps (all_proved V) (acceptInboundMessage j k' s x)"
  by (rule keeps_view[where f = "\<lambda>r. (rm_next r, rm_devices r, rm_pairings r)"];
      (rule command_rows | simp add: all_proved_def))+

interpretation proof_frame: table_frame V "all_proved V" for V
  by unfold_locales
    (rule command_rows_proved registry_proved other_pairings_proved confirm_proved hello_proved | assumption | erule (1) all_proved_desk)+

text \<open>What was used or seen once: the calls on devices and pairings leave these tables alone.\<close>

abbreviation "history r \<equiv> (rm_commands r, rm_nonces r, rm_replay r)"

lemma pairing_notes:
  "keeps (\<lambda>r. history r = v) (create_pairing E)" "keeps (\<lambda>r. history r = v) (confirm_pairing E i f)"
  "keeps (\<lambda>r. history r = v) list_pairings" "keeps (\<lambda>r. history r = v) (handleHello E h)"
  "keeps (\<lambda>r. history r = v) (touch_device j)" "keeps (\<lambda>r. history r = v) (setStatus E j st)"
  "keeps (\<lambda>r. history r = v) (setRole E j role)"
proof -
  let ?P = "\<lambda>r. history r = v"
  have outer: "keeps ?P m" if "\<And>v. keeps (\<lambda>r. outer r = v) m" for m :: "'a ract"
    using that by (rule keeps_view) (simp add: outer_def)
  note reg = outer[OF registry_outer(1)] outer[OF registry_outer(2)] outer[OF registry_outer(3)] outer[OF registry_outer(4)]
  show "keeps ?P (touch_device j)" "keeps ?P (setStatus E j st)" "keeps ?P (setRole E j role)" by (rule reg)+
  have steps: "keeps ?P (savePairing g)" "keeps ?P (remoteId prefix)" "keeps ?P (log_pairing E ty sm detail)" for g prefix ty sm detail
    unfolding savePairing_def log_pairing_def by (intro keeps_modify outer[OF remoteId_outer] keeps_on_agent; simp)+
  have ann: "keeps ?P (announce_device E d)" for d by (rule outer[OF keeps_outer[OF announce_outer]])
  show "keeps ?P (create_pairing E)" "keeps ?P (confirm_pairing E i f)" "keeps ?P list_pairings" "keeps ?P (handleHello E h)"
    unfolding create_pairing_def confirm_pairing_def list_pairings_def handleHello_def requireLive_def
      ensureNodeIdentity_def Let_def
    by (intro keeps_intros steps ann reg)+
qed

lemma used_notes: "history r' = history r \<Longrightarrow> used c n r \<Longrightarrow> used c n r'"
  by (simp add: used_def)

lemma seen_notes: "history r' = history r \<Longrightarrow> seen m r \<Longrightarrow> seen m r'"
  by (simp add: seen_def)

lemma accepted_used: "keeps (used c n) (acceptInboundMessage i k s x)"
  unfolding acceptInboundMessage_def by (intro keeps_intros keeps_modify) (simp add: used_def)

lemma rows_seen: "keeps (seen m) (rememberCommand i nonce y)" "keeps (seen m) (saveCommandResult i y)"
  "keeps (seen m) (acceptInboundMessage i k s x)"
proof -
  show "keeps (seen m) (rememberCommand i nonce y)" "keeps (seen m) (saveCommandResult i y)"
    unfolding rememberCommand_def saveCommandResult_def case_prod_beta
    by (intro keeps_intros keeps_modify; simp add: seen_def)+
  show "keeps (seen m) (acceptInboundMessage i k s x)"
    using accept_run[of i k s x] by (auto simp: keeps_def acceptInboundMessage_def seen_def run_action andThen_def)
qed

interpretation used_frame: table_frame V "used c n" for V c n
  by unfold_locales
    (rule remember_used result_used accepted_used | erule (1) used_desk | (rule keeps_view[where f = history], rule pairing_notes, erule (1) used_notes))+

interpretation seen_frame: table_frame V "seen m" for V m
  by unfold_locales
    (rule rows_seen | (rule keeps_view[where f = history], rule pairing_notes, erule (1) seen_notes) | simp add: desk_def seen_def)+

interpretation spent_run: intents_frame "spent i" for i
  by unfold_locales (simp add: spent_def intent_at_def)

interpretation wf_run: intents_frame intents_wf
  by unfold_locales
    (auto simp: governed_def intents_wf_put, auto simp: intents_wf_def put_intent_def put_row_distinct elim!: put_rowE)

section \<open>In every state\<close>

lemma untouched_start: "untouched r \<Longrightarrow> devices_wf r \<and> all_proved V r \<and> intents_wf r"
  by (simp add: untouched_def devices_wf_def all_proved_def intents_wf_def)

lemma reached_inv: "reached V r \<Longrightarrow> devices_wf r \<and> all_proved V r \<and> intents_wf r"
  unfolding reached_def using untouched_start device_frame.lasts[of _ _ _ False] proof_frame.lasts wf_run.calls.lasts
  by (auto simp: dev_inv_def)

lemma devices_wf_row: "devices_wf r \<Longrightarrow> d \<in> snd ` set (rm_devices r) \<Longrightarrow> device_at (dv_id d) r = Some d"
  by (auto simp: devices_wf_def device_at_def)

section \<open>An intent runs once\<close>

text \<open>What a run of a plan can change and the bookkeeping of an intent cannot.\<close>

definition ran :: "remote \<Rightarrow> _" where
  "ran r = (w_plans (rm_world r), w_operations (rm_world r), w_approvals (rm_world r))"

lemma ran_simps [simp]:
  "ran (put_intent x r) = ran r" "ran (r\<lparr>rm_secrets := ss\<rparr>) = ran r"
  "ran (r\<lparr>rm_world := logged L mk (rm_world r)\<rparr>) = ran r"
  by (simp_all add: ran_def put_intent_def)

lemma revoke_session_ran: "keeps (\<lambda>w. (w_plans w, w_operations w, w_approvals w) = v) (revoke_session L i)"
  unfolding keeps_def revoke_session_def
proof (intro allI impI)
  fix w :: world assume v: "(w_plans w, w_operations w, w_approvals w) = v"
  show "(w_plans (snd (set_session_status L i Revoked w)), w_operations (snd (set_session_status L i Revoked w)),
      w_approvals (snd (set_session_status L i Revoked w))) = v"
  proof (cases "session_at i w")
    case None
    then show ?thesis using v by (simp add: set_session_status_def andThen_def action_simps)
  next
    case (Some s)
    then show ?thesis using v by (simp add: set_session_status_run Let_def put_session_def)
  qed
qed

lemma update_ran [keeps_intros]: "keeps (\<lambda>r. ran r = v) (update_intent x)"
  by (simp add: keeps_def update_intent_run)

lemma log_intent_ran [keeps_intros]: "keeps (\<lambda>r. ran r = v) (log_intent E x ty sm)"
  by (simp add: keeps_def log_intent_run)

lemma send_ran [keeps_intros]: "keeps (\<lambda>r. ran r = v) (send_message E d channel msg ttl)"
  by (rule send_keeps) (simp add: governed_def ran_def)

lemma deactivate_ran [keeps_intros]: "keeps (\<lambda>r. ran r = v) (deactivate_intent E x)"
proof -
  have "keeps (\<lambda>r. ran r = v) (on_agent (revoke_session (re_lib E) i))" for i
    using revoke_session_ran[of v "re_lib E" i] by (simp add: keeps_def ran_def snd_on_agent)
  then show ?thesis unfolding deactivate_intent_def by (intro keeps_intros keeps_modify; simp add: ran_def)
qed

lemma settle_ran [keeps_intros]: "keeps (\<lambda>r. ran r = v) (settle_intent E x ty sm)"
  unfolding settle_intent_def mark_intent_def notify_intent_def by (intro keeps_intros)

text \<open>Settling ends an intent: its token is gone.\<close>

lemma deactivate_spends:
  "intent_at (it_id x) r \<noteq> None \<Longrightarrow> spent (it_id x) (snd (deactivate_intent E x r))"
  using deactivate_intent_run[of E x r]
  by (auto simp: spent_def intent_at_def map_of_eq_None_iff)

lemma notify_returns: "\<exists>r'. notify_intent E x r = (Inr (), r')"
proof (cases "device_at (it_device x) r")
  case None
  then show ?thesis by (simp add: notify_intent_def andThen_def remote_run run_action)
next
  case (Some d)
  then show ?thesis using ignoring_run[of "send_message E d ''notification'' (Intent_Message x) (60 * 60000)" r]
    by (auto simp: notify_intent_def andThen_def remote_run run_action)
qed

lemma settle_spends: "\<exists>r'. settle_intent E x ty sm r = (Inr (), r') \<and> spent (it_id x) r'"
proof -
  let ?y = "bumped x (w_now (rm_world r))"
  obtain w where m: "mark_intent E x ty sm r = (Inr ?y, (put_intent ?y r)\<lparr>rm_world := w\<rparr>)" using mark_intent_run by metis
  let ?r1 = "(put_intent ?y r)\<lparr>rm_world := w\<rparr>"
  obtain r2 where d: "deactivate_intent E ?y ?r1 = (Inr (), r2)" using deactivate_intent_run by metis
  have "spent (it_id x) r2" using deactivate_spends[of ?y ?r1 E] d by (simp add: intent_table.get_put)
  moreover obtain r3 where n: "notify_intent E ?y r2 = (Inr (), r3)" using notify_returns by metis
  ultimately have "spent (it_id x) r3" using keepsD[OF spent_frame.notify _ n] by blast
  then show ?thesis
    using m d n unfolding settle_intent_def by (simp add: andThen_run(2))
qed

lemma execute_spends:
  "(\<exists>e. execute_intent E x r = (Inl e, r)) \<or>
   nonempty (map_of (rm_secrets r) (secretKey (it_id x))) \<noteq> None \<and> spent (it_id x) (snd (execute_intent E x r))"
proof (cases "nonempty (map_of (rm_secrets r) (secretKey (it_id x)))")
  case None
  then show ?thesis by (simp add: execute_intent_def andThen_def run_action)
next
  case (Some token)
  let ?x = "bumped (x\<lparr>it_status := It_Executing\<rparr>) (w_now (rm_world r))"
  let ?r1 = "put_intent ?x r"
  let ?run = "catching (andThen (on_agent (executePlan (re_lib E) (re_registry E) (re_executor E) (Some token) (it_plan x)))
      (\<lambda>q. ret (Inr q))) (\<lambda>e. ret (Inl e))"
  obtain v r2 where run: "?run ?r1 = (Inr v, r2)"
    by (cases "on_agent (executePlan (re_lib E) (re_registry E) (re_executor E) (Some token) (it_plan x)) ?r1";
        cases "fst (on_agent (executePlan (re_lib E) (re_registry E) (re_executor E) (Some token) (it_plan x)) ?r1)")
      (auto simp: catching_def andThen_def ret_def)
  have "execute_intent E x r = (case v of Inr q \<Rightarrow> finish_run E ?x q
      | Inl e \<Rightarrow> settle_intent E ((failed_intent ?x e)\<lparr>it_executions := 1\<rparr>)
             ''remote.intent.failed'' ''Conditional intent execution failed.'') r2"
    unfolding execute_intent_def using Some
    by (simp only: option.case andThen_ret andThen_run(2)[where m = "update_intent _", OF update_intent_run] andThen_run(2)[where m = ?run, OF run])
  moreover have "spent (it_id x) (snd (settle_intent E z ty sm r2))" if "it_id z = it_id x" for z ty sm
    using settle_spends[of E z ty sm r2] that by auto
  ultimately show ?thesis using Some
    by (auto simp: finish_run_def Let_def failed_intent_def split: sum.split)
qed

lemma answer_effect:
  "ran (snd (answered_intent E x t answer r)) = ran r \<or>
   \<not> spent (it_id x) r \<and> spent (it_id x) (snd (answered_intent E x t answer r))"
proof -
  let ?stop = "\<lambda>e. settle_intent E (failed_intent x e) ''remote.intent.failed'' ''Conditional intent evaluation failed.''"
  have ended: "ran (snd (?stop e s)) = ran s" for e s
    using settle_ran[of "ran s" E "failed_intent x e"] by (simp add: keeps_def)
  show ?thesis
  proof (cases "\<exists>plans. answer = Inr plans \<and> trigger_matched (it_trigger x) plans")
    case False
    then show ?thesis
      using ended by (auto simp: answered_intent_def outside_def act_on_answer_def catching_def andThen_def run_action
          update_intent_run split: sum.splits)
  next
    case True
    then obtain plans where plans: "answer = Inr plans" "trigger_matched (it_trigger x) plans" by blast
    let ?x1 = "bumped (x\<lparr>it_last_checked_at := Some t\<rparr>) (w_now (rm_world r))"
    let ?r1 = "put_intent ?x1 r"
    let ?c = "?x1\<lparr>it_status := It_Triggered, it_matched_at := Some t\<rparr>"
    obtain w where m: "mark_intent E ?c ''remote.intent.matched'' ''Conditional intent trigger matched.'' ?r1 =
        (Inr (bumped ?c (w_now (rm_world ?r1))), (put_intent (bumped ?c (w_now (rm_world ?r1))) ?r1)\<lparr>rm_world := w\<rparr>)"
        and w: "w_plans w = w_plans (rm_world ?r1)" "w_operations w = w_operations (rm_world ?r1)"
          "w_approvals w = w_approvals (rm_world ?r1)"
      using mark_intent_run by metis
    let ?x2 = "bumped ?c (w_now (rm_world ?r1))" and ?r2 = "(put_intent (bumped ?c (w_now (rm_world ?r1))) ?r1)\<lparr>rm_world := w\<rparr>"
    have same: "ran ?r2 = ran r" using w by (simp add: ran_def put_intent_def)
    have id: "it_id ?x2 = it_id x" by simp
    have "answered_intent E x t answer r = catching (execute_intent E ?x2) ?stop ?r2"
      unfolding answered_intent_def act_on_answer_def plans(1)
      using plans(2) by (simp add: catching_def outside_def andThen_ret andThen_run(2)[where m = "update_intent _", OF update_intent_run] andThen_run(2)[where m = "mark_intent _ _ _ _", OF m])
    moreover have "map_of (rm_secrets ?r2) (secretKey (it_id x)) = map_of (rm_secrets r) (secretKey (it_id x))" by simp
    ultimately show ?thesis
    proof (cases "\<exists>e. execute_intent E ?x2 ?r2 = (Inl e, ?r2)")
      case True
      then show ?thesis using \<open>answered_intent E x t answer r = _\<close> ended same by (auto simp: catching_def)
    next
      case False
      then have "nonempty (map_of (rm_secrets ?r2) (secretKey (it_id x))) \<noteq> None"
          and sp: "spent (it_id x) (snd (execute_intent E ?x2 ?r2))"
        using execute_spends[of E ?x2 ?r2] id by metis+
      then have "\<not> spent (it_id x) r" by (auto simp: spent_def nonempty_def)
      moreover have "spent (it_id x) (snd (?stop e s))" for e s
        using settle_spends[of E "failed_intent x e"] by (auto simp: failed_intent_def) (metis snd_conv)
      ultimately show ?thesis using \<open>answered_intent E x t answer r = _\<close> sp
        by (cases "execute_intent E ?x2 ?r2"; cases "fst (execute_intent E ?x2 ?r2)") (auto simp: catching_def)
    qed
  qed
qed

section \<open>What the whole guarantees\<close>

lemma envelope_seen:
  assumes "served (snd (handleEnvelope E e r)) \<noteq> served r"
  shows "seen (en_message e) (snd (handleEnvelope E e r))"
proof -
  have changed: "served (snd (accept_envelope E e r)) \<noteq> served r" using assms handle_envelope_cases by blast
  obtain v r0 where op: "open_envelope E e r = (v, r0)" by fastforce
  have r0: "r0 = r" using keepsD[OF open_keeps[of "\<lambda>s. s = r"] refl op] .
  obtain d x where op': "open_envelope E e r = (Inr (d, x), r)"
    using changed op r0 by (cases v) (auto simp: accept_envelope_def andThen_run)
  obtain b r1 where acc: "acceptInboundMessage (dv_id d) (en_message e) (en_sequence e) (en_expires_at e) r = (Inr b, r1)"
      and "seen (en_message e) r1"
    using accept_run by metis
  then have "seen (en_message e) (snd (accept_envelope E e r))"
    unfolding opened_run[OF op' acc] using seen_frame.delivered by (simp add: keeps_def)
  then show ?thesis
    using seen_frame.refused[of "en_message e" E e]
    by (cases "accept_envelope E e r"; cases "fst (accept_envelope E e r)") (auto simp: handleEnvelope_def catching_run keeps_def)
qed



text \<open>
  C6: A signed command takes effect at most once: after a request that changed what the remote control
  governs, no request with the command's id or nonce, whoever sends it and whenever, changes it again.
\<close>
theorem command_once:
  assumes "controlled (snd (handle_command E d q r)) \<noteq> controlled r" and "later V (snd (handle_command E d q r)) r'"
    and "sp_command (sc_payload (rq_signed q')) = sp_command (sc_payload (rq_signed q)) \<or>
      sp_nonce (sc_payload (rq_signed q')) = sp_nonce (sc_payload (rq_signed q))"
  shows "controlled (snd (handle_command E' d' q' r')) = controlled r'"
proof -
  have "used (sp_command (sc_payload (rq_signed q))) (sp_nonce (sc_payload (rq_signed q))) r'"
    using command_effect[OF assms(1)] used_frame.lasts[OF assms(2)] by blast
  then show ?thesis using command_effect[of E' d' q' r'] assms(3) unfolding used_def by metis
qed

text \<open>
  C15: An encrypted message is served at most once: what the relay delivers again under the same
  message id, in this run or a later one, changes nothing and is not handed on.
\<close>
theorem message_once:
  assumes "served (snd (handleEnvelope E e r)) \<noteq> served r" and "later V (snd (handleEnvelope E e r)) r'"
    and "en_message e' = en_message e"
  shows "served (snd (handleEnvelope E' e' r')) = served r'"
  using seen_frame.lasts[OF assms(2) envelope_seen[OF assms(1)]] envelope_effect[of E' e' r'] assms(3) by metis

text \<open>
  C12: A conditional intent runs its plan at most once: after an answer of the catalog that made it run,
  no later answer does, even to a check that still holds the intent as it was before.
\<close>
theorem intent_runs_once:
  assumes "ran (snd (answered_intent E x t answer r)) \<noteq> ran r" and "later V (snd (answered_intent E x t answer r)) r'"
    and "it_id y = it_id x"
  shows "ran (snd (answered_intent E' y t' answer' r')) = ran r'"
  using answer_effect[of E x t answer r] spent_run.calls.lasts[OF assms(2)] answer_effect[of E' y t' answer' r'] assms(1,3)
  by metis

text \<open>
  C16: An intent that was revoked never runs its plan, although a check that was under way may still
  write it back as active.
\<close>
theorem revoked_intent_never_runs:
  assumes "reached V r" and "revoke_intent E i d r = (Inr x, r1)" and "later V r1 r'" and "it_id y = i"
  shows "ran (snd (answered_intent E' y t answer r')) = ran r'"
proof -
  have wf: "intents_wf r" using reached_inv[OF assms(1)] by blast
  obtain z r0 where tr: "transition_intent E i d It_Revoked r = (Inr z, r0)" and off: "deactivate_intent E z r0 = (Inr (), r1)"
    using assms(2) unfolding revoke_intent_def by (auto simp: run_action elim!: andThen_InrE)
  have "it_id z = i \<and> intent_at i r0 \<noteq> None"
  proof -
    obtain x0 where x0: "intent_at i r = Some x0"
      using tr unfolding transition_intent_def Let_def
      by (cases "intent_at i r") (auto simp: andThen_def remote_run run_action)
    have id: "it_id x0 = i" using intents_wf_at[OF wf x0] .
    obtain w where m: "\<And>ty sm. \<exists>w. mark_intent E (x0\<lparr>it_status := It_Revoked\<rparr>) ty sm r =
        (Inr (bumped (x0\<lparr>it_status := It_Revoked\<rparr>) (w_now (rm_world r))),
         (put_intent (bumped (x0\<lparr>it_status := It_Revoked\<rparr>) (w_now (rm_world r))) r)\<lparr>rm_world := w\<rparr>)"
      by (metis mark_intent_run)
    have "(z = x0 \<and> r0 = r) \<or> (\<exists>ty sm. mark_intent E (x0\<lparr>it_status := It_Revoked\<rparr>) ty sm r = (Inr z, r0))"
      using tr x0 unfolding transition_intent_def Let_def
      by (auto simp: andThen_def remote_run run_action split: if_splits)
    then show ?thesis
    proof (elim disjE exE)
      assume "z = x0 \<and> r0 = r" then show ?thesis using id x0 by simp
    next
      fix ty sm assume run: "mark_intent E (x0\<lparr>it_status := It_Revoked\<rparr>) ty sm r = (Inr z, r0)"
      from m[of ty sm] show ?thesis using run id by (auto simp: intent_table.get_put)
    qed
  qed
  then have "spent i r1" using deactivate_spends[of z r0 E] off by auto
  then have "spent i r'" using spent_run.calls.lasts[OF assms(3)] by blast
  then show ?thesis using answer_effect[of E' y t answer r'] assms(4) by blast
qed

text \<open>
  C5: A request that changes anything the remote control governs carries a command that an active
  device of the table, whose grant is not over and which is no viewer, signed for this node with its
  key, within its five minutes; the commands of an admin need an admin; and it is a new one.
\<close>
theorem command_authorized:
  assumes "controlled (snd (handle_command E from_device q r)) \<noteq> controlled r" and "p = sc_payload (rq_signed q)"
  shows "\<exists>d. d \<in> snd ` set (rm_devices r) \<and> dv_id d = sp_device p \<and> dv_route d = dv_route from_device \<and>
    dv_status d = Dev_Active \<and> \<not> grant_over (w_now (rm_world r)) d \<and> re_identity E = Inr (sp_node p) \<and>
    re_verify E p (sc_signature (rq_signed q)) (dv_signing_key d) = Inr True \<and> in_time (w_now (rm_world r)) p \<and>
    dv_role d \<noteq> Viewer \<and> (sp_type p \<in> set ADMIN_ONLY \<longrightarrow> dv_role d = Admin) \<and>
    sp_command p \<notin> fst ` set (rm_commands r) \<and> sp_nonce p \<notin> fst ` set (rm_nonces r)"
  using command_effect[OF assms(1)] unfolding verified_def Let_def assms(2) by blast

text \<open>
  C11: A remote decision that goes through is on a pending approval in the version that was shown, before
  it expires, and on the stored plan whose hash was signed and is the hash of the plan's present content;
  the plan is within what the device may approve. That approval, and no other, is decided, as asked.
\<close>
theorem decision_bound:
  assumes "approvals_wf (rm_world r)" and "decideApproval E d p r = (Inr x, r')"
  shows "\<exists>a i plan. approval_at (sp_subject p) (rm_world r) = Some a \<and> apr_status a = Pending \<and>
    sp_version p = apr_requested_at a \<and> w_now (rm_world r) < apr_expires_at a \<and> apr_plan a = Some i \<and>
    plan_at i (rm_world r) = Some plan \<and> sp_plan_hash p = Some (plan_hash plan) \<and>
    hashPlan (re_lib E) (planBody plan) = plan_hash plan \<and> plan_status plan = Plan_Awaiting \<and>
    (\<forall>t. nonempty (plan_target plan) = Some t \<longrightarrow> rs_targets (dv_restrictions d) = [] \<or> t \<in> set (rs_targets (dv_restrictions d))) \<and>
    plan_environment plan \<in> set (rs_environments (dv_restrictions d)) \<and>
    riskRank (apr_risk a) \<le> riskRank (rs_max_risk (dv_restrictions d)) \<and>
    ''plan'' \<in> set (rs_approval_kinds (dv_restrictions d)) \<and>
    (\<forall>k. map_option apr_status (approval_at k (rm_world r')) = (if k = sp_subject p
       then Some (if pa_decision (sp_parameters p) = ''approve'' then Approved else Denied)
       else map_option apr_status (approval_at k (rm_world r))))"
  using decision_effect[OF assms] unfolding in_device_scope_def requireDeviceScope_iff by blast

text \<open>
  C17: Revoking a device always succeeds, whatever the relay does: the stored device is revoked, none of
  its intents is left active or paused, and the intents of the other devices are as they were.
\<close>
theorem revocation_stops_intents:
  assumes "reached V r" and "device_at i r = Some d"
  shows "\<exists>d' r'. revoke_device E i r = (Inr d', r') \<and> device_at i r' = Some d' \<and> dv_status d' = Dev_Revoked \<and>
    (\<forall>k x. intent_at k r' = Some x \<and> it_device x = i \<longrightarrow> it_status x \<noteq> It_Active \<and> it_status x \<noteq> It_Paused) \<and>
    (\<forall>k x. intent_at k r = Some x \<and> it_device x \<noteq> i \<longrightarrow> intent_at k r' = Some x)"
  using reached_inv[OF assms(1)] assms(2) by (intro revoke_device_run) blast+

text \<open>
  C18: A confirmed pairing was live and past its hello, and makes a new, active device with the confirmed
  role whose route and keys are those of the checked answer.
\<close>
theorem confirmation_registers:
  assumes "reached V r" and "confirm_pairing E i c r = (Inr (p', d), r')"
  shows "\<exists>p. pairing_at i r = Some p \<and> pg_status p = Hello_Received \<and> w_now (rm_world r) < pg_expires_at p \<and>
    (\<exists>ch sig. V ch sig (dv_signing_key d) = Inr True \<and> pc_route ch = dv_route d \<and> pc_exchange_key ch = dv_exchange_key d) \<and>
    dv_status d = Dev_Active \<and> dv_role d = cf_role c \<and> pg_route p = Some (dv_route d) \<and>
    pg_signing_key p = Some (dv_signing_key d) \<and> device_at (dv_id d) r = None \<and> device_at (dv_id d) r' = Some d \<and>
    pg_device p' = Some (dv_id d) \<and> pg_status p' = Confirmed"
  using confirm_run[of V r E i c p' d r'] reached_inv[OF assms(1)] assms(2) unfolding device_ok_def proved_def by blast

end
