(* ===== verification/Remote_Witnesses.thy ===== *)
theory Remote_Witnesses
  imports Demo_World Remote_Run
begin

text \<open>
  The properties of the remote control at work on a small node: a relay that is connected, a check of
  signatures that compares texts, one paired administrator, one conditional intent.
\<close>

definition demo_check :: proof_check where
  "demo_check = (\<lambda>c sig key. Inr (sig = key))"

definition demo_env :: remote_env where
  "demo_env = \<lparr>re_lib = demo_lib, re_registry = demo_registry, re_executor = (\<lambda>c input ctx. ret JNull), re_resolve = Inr,
     re_workspace = ''/r'', re_identity = Inr ''node_aaaaaaaaaaaaaaaaaaaa'', re_encrypt = (\<lambda>d md msg. None),
     re_verify = (\<lambda>p sig key. Inr (sig = replicate 80 (hd key))), re_verify_pairing = demo_check,
     re_key_id = (\<lambda>signing exchange. ''key_aaaaaaaa''), re_decrypt = (\<lambda>d e. Inr \<lparr>pt_type = ''chat.user_message'',
       pt_request = Some ''request'', pt_content = Some ''hello'', pt_conversation = None, pt_provider = None,
       pt_target_request = None, pt_command = None\<rparr>),
     re_enabled = True, re_announce = (\<lambda>i t. None), re_online = (\<lambda>t. True), re_link = (\<lambda>n. True),
     re_snapshot = (\<lambda>d r. Inr JNull), re_availability = (\<lambda>t provider server. Inr [])\<rparr>"

definition empty_node :: remote where
  "empty_node = \<lparr>rm_world = plan_world, rm_next = 0, rm_devices = [], rm_pairings = [], rm_outbound = [],
     rm_inbound = [], rm_replay = [], rm_commands = [], rm_nonces = [], rm_intents = [], rm_secrets = [],
     rm_checking = False, rm_frames = 0, rm_sent = [], rm_chats = []\<rparr>"

definition demo_hello :: hello_frame where
  "demo_hello = \<lparr>hl_pairing = remote_id ''pair'' 0, hl_route = ''route'', hl_signing_key = ''key'',
     hl_exchange_key = ''exchange'', hl_signature = ''key''\<rparr>"

definition greeted_node :: remote where
  "greeted_node = remote_step demo_env (Hello demo_hello) (remote_step demo_env Create_Pairing empty_node)"

definition demo_confirmation :: confirmation where
  "demo_confirmation = \<lparr>cf_label = ''phone'', cf_role = Admin, cf_restrictions = None\<rparr>"

definition paired_node :: remote where
  "paired_node = remote_step demo_env (Confirm (remote_id ''pair'' 0) demo_confirmation) greeted_node"

lemma demo_proof: "re_verify_pairing demo_env = demo_check"
  by (simp add: demo_env_def)

lemma nodes_reached: "reached demo_check empty_node" "reached demo_check greeted_node" "reached demo_check paired_node"
proof -
  have "later demo_check empty_node empty_node" by (rule later.now)
  then have "later demo_check empty_node greeted_node" and "later demo_check empty_node paired_node"
    unfolding paired_node_def greeted_node_def by (blast intro: later.step demo_proof)+
  moreover have "untouched empty_node" by (simp add: untouched_def empty_node_def)
  ultimately show "reached demo_check empty_node" "reached demo_check greeted_node" "reached demo_check paired_node"
    unfolding reached_def using later.now by blast+
qed

abbreviation "demo_id \<equiv> remote_id ''device'' 2"

lemma remote_log_run:
  "log_pairing E ty sm detail r = (Inr (), r\<lparr>rm_world := logged (re_lib E) (pairing_event ty sm detail) (rm_world r)\<rparr>)"
  "log_device E d ty sm r = (Inr (), r\<lparr>rm_world := logged (re_lib E) (device_event d ty sm) (rm_world r)\<rparr>)"
  "log_command E d p ty sm r = (Inr (), r\<lparr>rm_world := logged (re_lib E) (command_event d p ty sm) (rm_world r)\<rparr>)"
  "log_gateway E ty sm detail r = (Inr (), r\<lparr>rm_world := logged (re_lib E) (gateway_event ty sm detail) (rm_world r)\<rparr>)"
  by (simp_all add: log_pairing_def log_device_def log_command_def log_gateway_def on_agent_run(2)[OF logEvent_run])

lemmas tables_eval = put_pairing_def pairing_at_def put_device_def device_at_def put_intent_def intent_at_def put_row_def

definition hello_pairing :: pairing where
  "hello_pairing = \<lparr>pg_id = remote_id ''pair'' 0, pg_node = ''node_aaaaaaaaaaaaaaaaaaaa'',
     pg_challenge = remote_id ''challenge'' 1, pg_status = Hello_Received, pg_created_at = 1000,
     pg_expires_at = 1000 + PAIRING_TTL_MS, pg_route = Some ''route'', pg_signing_key = Some ''key'',
     pg_exchange_key = Some ''exchange'', pg_signature = Some ''key'', pg_device = None\<rparr>"

lemma greeted: "\<exists>w. greeted_node = empty_node\<lparr>rm_world := w, rm_next := 2, rm_pairings := [(remote_id ''pair'' 0, hello_pairing)]\<rparr> \<and>
    w_now w = 1000"
  unfolding greeted_node_def remote_step_def remote_call.case create_pairing_def handleHello_def requireLive_def
  by (simp add: demo_env_def empty_node_def demo_hello_def ensureNodeIdentity_def outside_def Let_def andThen_def
      action_simps remote_log_run remoteId_def PAIRING_TTL_MS_def demo_check_def challenge_of_def tables_eval hello_pairing_def)

definition admin_device :: device where
  "admin_device = \<lparr>dv_id = demo_id, dv_route = ''route'', dv_label = ''phone'', dv_role = Admin, dv_status = Dev_Active,
     dv_signing_key = ''key'', dv_exchange_key = ''exchange'', dv_key_id = ''key_aaaaaaaa'',
     dv_restrictions = normalizeRestrictions Admin no_restrictions, dv_paired_at = 1000, dv_updated_at = 1000,
     dv_last_seen_at = None, dv_revoked_at = None, dv_suspended_at = None\<rparr>"

lemma demo_label: "cleanLabel ''phone'' = Inr ''phone''"
  by code_simp

lemma confirmed: "\<exists>r'. confirm_pairing demo_env (remote_id ''pair'' 0) demo_confirmation greeted_node =
     (Inr (hello_pairing\<lparr>pg_status := Confirmed, pg_device := Some demo_id\<rparr>, admin_device), r') \<and>
   rm_devices r' = [(demo_id, admin_device)] \<and> rm_next r' = 3 \<and> w_now (rm_world r') = 1000"
proof -
  obtain w where w: "greeted_node = empty_node\<lparr>rm_world := w, rm_next := 2, rm_pairings := [(remote_id ''pair'' 0, hello_pairing)]\<rparr>"
      "w_now w = 1000" using greeted by blast
  show ?thesis
    unfolding w(1) confirm_pairing_def getDeviceByRoute_def saveDevice_def nextOutboundSequence_def requireLive_def register_device_def registered_def announce_device_def
    using w(2) demo_label
    by (simp add: demo_env_def empty_node_def demo_confirmation_def hello_pairing_def ensureNodeIdentity_def outside_def Let_def
      andThen_def action_simps remote_log_run remoteId_def PAIRING_TTL_MS_def tables_eval pairing_registration_def nonempty_def
      build_device_def admin_device_def or_default_def deliver_def)
qed

section \<open>Pairing and devices\<close>

lemma confirmation_registers_witness:
  "\<exists>ch sig. demo_check ch sig ''key'' = Inr True \<and> pc_route ch = ''route'' \<and> pc_exchange_key ch = ''exchange''"
  using confirmed confirmation_registers[OF nodes_reached(2), of demo_env "remote_id ''pair'' 0" demo_confirmation]
  by (auto simp: admin_device_def)

lemma paired: "rm_devices paired_node = [(demo_id, admin_device)]" "device_at demo_id paired_node = Some admin_device"
proof -
  show "rm_devices paired_node = [(demo_id, admin_device)]"
    using confirmed by (auto simp: paired_node_def remote_step_def)
  then show "device_at demo_id paired_node = Some admin_device" by (simp add: device_at_def)
qed


lemma revocation_stops_intents_witness:
  "\<exists>d' r'. revoke_device demo_env demo_id paired_node = (Inr d', r') \<and> device_at demo_id r' = Some d' \<and> dv_status d' = Dev_Revoked"
  using revocation_stops_intents[OF nodes_reached(3) paired(2), of demo_env] by blast

definition revoked_node :: remote where
  "revoked_node = remote_step demo_env (Revoke demo_id) paired_node"

lemma revoked_reached: "reached demo_check revoked_node"
  using nodes_reached(3) later.step[of demo_check _ paired_node demo_env] unfolding reached_def revoked_node_def
  by (auto simp: demo_proof)

definition pause_command :: signed_command where
  "pause_command = \<lparr>sc_payload = \<lparr>sp_protocol = 1, sp_command = ''cmd_aaaaaaaaaaaaaaaaaaaa'', sp_device = demo_id,
       sp_node = ''node_aaaaaaaaaaaaaaaaaaaa'', sp_type = ''intent.pause_request'', sp_kind = ''intent'', sp_subject = ''intent'',
       sp_version = 1, sp_plan_hash = None, sp_issued_at = Some 1000, sp_expires_at = Some 61000,
       sp_nonce = ''nonce_aaaaaaaaaaaaaaaaaaaa'', sp_parameters = \<lparr>pa_count = 0, pa_decision = [], pa_reason = None,
         pa_intent = None\<rparr>\<rparr>,
     sc_key = ''key_aaaaaaaa'', sc_signature = replicate 80 CHR ''k''\<rparr>"

definition pause_request :: command_request where
  "pause_request = \<lparr>rq_id = ''request'', rq_signed = pause_command\<rparr>"


section \<open>Commands, messages and intents\<close>

definition demo_intent :: intent where
  "demo_intent = \<lparr>it_id = ''intent'', it_device = demo_id, it_version = 1, it_objective = ''o'', it_status = It_Active,
     it_trigger = \<lparr>tg_type = ''catalog.availability'', tg_provider = ''p'', tg_server_type = ''m'', tg_location = None\<rparr>,
     it_action = \<lparr>ac_capability = ''w'', ac_input = [], ac_environment = Staging, ac_target = None\<rparr>,
     it_constraints = \<lparr>cn_expires_at = Some 90000, cn_max_executions = 1, cn_max_spend = 0, cn_failure_behavior = ''stop''\<rparr>,
     it_session = ''s'', it_plan = ''p'', it_plan_hash = [], it_approval = [], it_executions = 0, it_created_at = 1000,
     it_updated_at = 1000, it_last_checked_at = None, it_matched_at = None, it_operation = None, it_last_error = None\<rparr>"

definition control_node :: remote where
  "control_node = empty_node\<lparr>rm_devices := [(demo_id, admin_device)], rm_intents := [(''intent'', demo_intent)],
     rm_secrets := [(secretKey ''intent'', ''t'')]\<rparr>"

lemma demo_shape: "validateSignedCommandShape pause_command = None"
  by code_simp

lemma demo_grant: "rs_valid_until (dv_restrictions admin_device) = None"
  by (simp add: admin_device_def normalizeRestrictions_def no_restrictions_def)

lemma admin_sel: "dv_id admin_device = demo_id" "dv_route admin_device = ''route''" "dv_status admin_device = Dev_Active"
  "dv_role admin_device = Admin" "dv_key_id admin_device = ''key_aaaaaaaa''" "dv_signing_key admin_device = ''key''"
  by (simp_all add: admin_device_def)

lemma env_sel: "re_identity demo_env = Inr ''node_aaaaaaaaaaaaaaaaaaaa''" "re_lib demo_env = demo_lib"
  "re_verify demo_env p sig key = Inr (sig = replicate 80 (hd key))" "re_registry demo_env = demo_registry"
  "re_executor demo_env = (\<lambda>c input ctx. ret JNull)" "re_link demo_env n" "re_encrypt demo_env d md msg = None"
  by (simp_all add: demo_env_def)

lemma pause_sel: "sp_device (sc_payload pause_command) = demo_id" "sp_node (sc_payload pause_command) = ''node_aaaaaaaaaaaaaaaaaaaa''"
  "sc_key pause_command = ''key_aaaaaaaa''" "sc_signature pause_command = replicate 80 CHR ''k''"
  "sp_type (sc_payload pause_command) = ''intent.pause_request''" "sp_kind (sc_payload pause_command) = ''intent''"
  "sp_subject (sc_payload pause_command) = ''intent''" "sp_version (sc_payload pause_command) = 1"
  "sp_issued_at (sc_payload pause_command) = Some 1000" "sp_expires_at (sc_payload pause_command) = Some 61000"
  by (simp_all add: pause_command_def)

lemma control_sel: "w_now (rm_world control_node) = 1000" "rm_devices control_node = [(demo_id, admin_device)]"
  "rm_intents control_node = [(''intent'', demo_intent)]" "rm_commands control_node = []" "rm_nonces control_node = []"
  "rm_secrets control_node = [(secretKey ''intent'', ''t'')]" "rm_world control_node = plan_world" "rm_replay control_node = []"
  by (simp_all add: control_node_def empty_node_def plan_world_def session_world_def empty_world_def)

lemma demo_checked: "validateCommandTime 1000 (sc_payload pause_command) = None" "authorizeRole admin_device (sc_payload pause_command) = None"
  by (simp_all add: validateCommandTime_iff authorizeRole_iff in_time_def pause_sel admin_sel)

lemma demo_verified: "verify_command demo_env admin_device pause_command control_node = (Inr admin_device, control_node)"
  using demo_shape demo_grant demo_checked
  by (simp add: verify_command_def getActiveByRoute_def getDeviceByRoute_def guard_with_def ensureNodeIdentity_def outside_def
      andThen_def action_simps Let_def control_sel grant_over_def admin_sel env_sel pause_sel remote_clock_def)

lemma demo_send: "\<exists>n f s. send_message demo_env admin_device channel msg ttl r = (Inr (), r\<lparr>rm_outbound := n, rm_frames := f, rm_sent := s\<rparr>)"
  by (simp add: send_message_def deliver_def ensureNodeIdentity_def nextOutboundSequence_def env_sel admin_sel
      outside_def andThen_def action_simps Let_def) blast

lemma intent_sel: "it_id demo_intent = ''intent''" "it_device demo_intent = demo_id" "it_version demo_intent = 1"
  "it_status demo_intent = It_Active" "it_plan demo_intent = ''p''"
  by (simp_all add: demo_intent_def)

lemma demo_change:
  assumes "intent_at ''intent'' r = Some demo_intent"
  shows "\<exists>y r'. execute_command demo_env admin_device (sc_payload pause_command) r = (Inr y, r') \<and>
    map_option it_status (intent_at ''intent'' r') = Some It_Paused"
proof -
  have get: "getIntent ''intent'' r = (Inr (Some demo_intent), r)" using assms by (simp add: getIntent_def intent_at_def action_simps)
  obtain ty sm where "execute_command demo_env admin_device (sc_payload pause_command) r =
      andThen (mark_intent demo_env (demo_intent\<lparr>it_status := It_Paused\<rparr>) ty sm) (\<lambda>y. ret (Done_Intent y)) r"
    by (simp add: execute_command_def pause_sel starts_with_def change_intent_def requireSubject_def requireVersion_def guard_with_def
        get admin_sel intent_sel pause_intent_def transition_intent_def Let_def andThen_def run_action)
  moreover obtain w where "mark_intent demo_env (demo_intent\<lparr>it_status := It_Paused\<rparr>) ty sm r =
      (Inr (bumped (demo_intent\<lparr>it_status := It_Paused\<rparr>) (w_now (rm_world r))),
       (put_intent (bumped (demo_intent\<lparr>it_status := It_Paused\<rparr>) (w_now (rm_world r))) r)\<lparr>rm_world := w\<rparr>)"
    by (metis mark_intent_run)
  ultimately show ?thesis by (simp add: andThen_run run_action intent_table.get_put intent_sel)
qed

lemma demo_paused: "map_option it_status (intent_at ''intent'' (snd (handle_command demo_env admin_device pause_request control_node))) = Some It_Paused"
proof -
  let ?Q = "\<lambda>r. map_option it_status (intent_at ''intent'' r) = Some It_Paused"
  let ?q = "pause_request" and ?p = "sc_payload pause_command"
  have low: "keeps ?Q m" if "\<And>v. keeps (\<lambda>r. rm_intents r = v) m" for m :: "'a ract"
    using that by (rule keeps_view) (simp add: intent_at_def)
  have parts: "keeps ?Q (saveCommandResult i c)" "keeps ?Q (send_result E d c)" "keeps ?Q (log_command E d p ty sm)" for i c E d p ty sm
    unfolding saveCommandResult_def send_result_def log_command_def
    by (intro low keeps_modify send_keeps keeps_on_agent; simp add: governed_def)+
  have run: "?Q (snd (run_command demo_env admin_device ?q r))" if r: "intent_at ''intent'' r = Some demo_intent" for r
  proof -
    obtain r1 where s: "send_result demo_env admin_device (received_result ?q (w_now (rm_world r))) r = (Inr (), r1)"
        and same: "intent_at ''intent'' r1 = Some demo_intent"
      using demo_send[of "''remote_command''" "Command_Message (received_result ?q (w_now (rm_world r)))" "5 * 60000" r] r
      by (auto simp: send_result_def intent_at_def)
    let ?r2 = "r1\<lparr>rm_world := logged demo_lib (command_event admin_device ?p ''remote.command.received'' ''Accepted a signed remote command.'') (rm_world r1)\<rparr>"
    obtain y r3 where x: "execute_command demo_env admin_device ?p ?r2 = (Inr y, r3)" and q: "?Q r3"
      using demo_change[of ?r2] same by (auto simp: intent_at_def)
    have "run_command demo_env admin_device ?q r = andThen remote_clock (\<lambda>t'.
       andThen (saveCommandResult (sp_command ?p) (completed_result ?q y t')) (\<lambda>_.
       andThen (send_result demo_env admin_device (completed_result ?q y t')) (\<lambda>_.
       log_command demo_env admin_device ?p ''remote.command.completed'' ''Completed a signed remote command.''))) r3"
      unfolding run_command_def Let_def pause_request_def command_request.simps remote_clock_def andThen_ret
      using s x by (simp add: andThen_run(2)[where m = "send_result _ _ _"] andThen_run(2)[where m = "execute_command _ _ _"]
          andThen_run(2)[where m = "log_command _ _ _ _ _", OF remote_log_run(3)] env_sel pause_request_def)
    moreover have "keeps ?Q (andThen remote_clock (\<lambda>t'.
       andThen (saveCommandResult (sp_command ?p) (completed_result ?q y t')) (\<lambda>_.
       andThen (send_result demo_env admin_device (completed_result ?q y t')) (\<lambda>_.
       log_command demo_env admin_device ?p ''remote.command.completed'' ''Completed a signed remote command.''))))"
      by (intro keeps_intros parts)
    ultimately show ?thesis using q by (simp add: keeps_def)
  qed
  have rej: "keeps ?Q (reject_command E d q e)" for E d q e
  proof -
    have "keeps ?Q (ignoring (send_result E d c))" for c by (intro keeps_intros parts)
    then show ?thesis unfolding reject_command_def Let_def by (intro keeps_intros parts)
  qed
  let ?r = "control_node\<lparr>rm_commands := [(sp_command ?p, received_result ?q 1000)], rm_nonces := [(sp_nonce ?p, sp_command ?p)]\<rparr>"
  have "accept_command demo_env admin_device ?q control_node = run_command demo_env admin_device ?q ?r"
    unfolding accept_command_def Let_def pause_request_def command_request.simps andThen_run(2)[where m = "verify_command _ _ _", OF demo_verified]
    by (simp add: getCommand_def remote_clock_def rememberCommand_def andThen_def run_action control_sel)
  moreover have "intent_at ''intent'' ?r = Some demo_intent" by (simp add: intent_at_def control_sel)
  ultimately have "?Q (snd (accept_command demo_env admin_device ?q control_node))" using run by metis
  then show ?thesis using rej
    by (cases "accept_command demo_env admin_device ?q control_node"; cases "fst (accept_command demo_env admin_device ?q control_node)")
      (auto simp: handle_command_def catching_run keeps_def)
qed

lemma demo_effect: "controlled (snd (handle_command demo_env admin_device pause_request control_node)) \<noteq> controlled control_node"
  using demo_paused by (auto simp: controlled_def intent_at_def control_sel intent_sel)

lemma command_authorized_witness:
  "\<exists>d. d \<in> snd ` set (rm_devices control_node) \<and> dv_id d = demo_id \<and> dv_status d = Dev_Active \<and> dv_role d \<noteq> Viewer \<and>
     in_time 1000 (sc_payload pause_command)"
  using command_authorized[OF demo_effect refl] by (auto simp: control_sel pause_request_def pause_sel)

lemma command_once_witness:
  "let r = snd (handle_command demo_env admin_device pause_request control_node) in
   controlled (snd (handle_command demo_env admin_device pause_request r)) = controlled r"
  using command_once[OF demo_effect later.now, of pause_request demo_env admin_device] by (simp add: Let_def)

definition demo_envelope :: envelope where
  "demo_envelope = \<lparr>en_protocol = 1, en_message = ''message'', en_sender = ''route'', en_recipient = ''node_aaaaaaaaaaaaaaaaaaaa'',
     en_channel = ''chat_request'', en_created_at = Some 1000, en_expires_at = Some 61000, en_key = ''key_aaaaaaaa'',
     en_sequence = 1, en_ciphertext = replicate 32 CHR ''c''\<rparr>"

lemma demo_open: "open_envelope demo_env demo_envelope control_node =
   (Inr (admin_device, Chat_User ''request'' ''hello'' None None), control_node)"
proof -
  have "validateEnvelope 1000 demo_envelope = None" by (simp add: validateEnvelope_def demo_envelope_def CHANNELS_def)
  moreover have "parseRemoteInboundPayload \<lparr>pt_type = ''chat.user_message'', pt_request = Some ''request'', pt_content = Some ''hello'',
      pt_conversation = None, pt_provider = None, pt_target_request = None, pt_command = None\<rparr> =
      Inr (Chat_User ''request'' ''hello'' None None)" by code_simp
  moreover have "re_decrypt demo_env d e = Inr \<lparr>pt_type = ''chat.user_message'', pt_request = Some ''request'', pt_content = Some ''hello'',
      pt_conversation = None, pt_provider = None, pt_target_request = None, pt_command = None\<rparr>" for d e by (simp add: demo_env_def)
  moreover have "en_recipient demo_envelope = ''node_aaaaaaaaaaaaaaaaaaaa''" "en_sender demo_envelope = ''route''"
      "en_key demo_envelope = ''key_aaaaaaaa''" by (simp_all add: demo_envelope_def)
  ultimately show ?thesis using demo_grant
    by (simp add: open_envelope_def remote_clock_def getActiveByRoute_def getDeviceByRoute_def ensureNodeIdentity_def outside_def
        andThen_def run_action Let_def control_sel grant_over_def admin_sel env_sel)
qed

lemma demo_served: "rm_chats (snd (handleEnvelope demo_env demo_envelope control_node)) = [(admin_device, User_Message ''request'' None None ''hello'')]"
proof -
  obtain b r1 where acc: "acceptInboundMessage (dv_id admin_device) (en_message demo_envelope) (en_sequence demo_envelope)
      (en_expires_at demo_envelope) control_node = (Inr b, r1)" and b: "b"
      and same: "rm_devices r1 = [(demo_id, admin_device)]" "rm_chats r1 = []"
    by (simp add: acceptInboundMessage_def andThen_def run_action control_sel) (simp add: control_node_def empty_node_def)
  have channel: "en_channel demo_envelope = ''chat_request''" by (simp add: demo_envelope_def)
  let ?r2 = "r1\<lparr>rm_frames := Suc (rm_frames r1)\<rparr>"
  have ack: "acknowledge demo_env r1 = (Inr (), ?r2)" by (simp add: acknowledge_def andThen_def run_action env_sel)
  have "get_device demo_id ?r2 = (Inr admin_device, ?r2)"
    using same by (simp add: get_device_def andThen_def remote_run run_action device_at_def)
  then have touch: "\<exists>d r3. touch_device demo_id ?r2 = (Inr d, r3) \<and> rm_chats r3 = []"
    using same by (simp add: touch_device_def andThen_run(2)[where m = "get_device _"] remote_clock_def andThen_ret Let_def saveDevice_def
        andThen_def run_action admin_sel)
  have "accept_envelope demo_env demo_envelope control_node = hand_over admin_device (User_Message ''request'' None None ''hello'')
      (snd (touch_device demo_id ?r2))"
    unfolding opened_run[OF demo_open acc] andThen_run(2)[where m = "acknowledge _", OF ack]
    using b touch channel by (auto simp: admin_sel dispatch_def andThen_run(2))
  then show ?thesis using touch by (auto simp: handleEnvelope_def catching_def hand_over_def run_action)
qed

lemma message_once_witness:
  "let r = snd (handleEnvelope demo_env demo_envelope control_node) in
   served (snd (handleEnvelope demo_env demo_envelope r)) = served r"
proof -
  have "rm_chats control_node = []" by (simp add: control_node_def empty_node_def)
  then have "served (snd (handleEnvelope demo_env demo_envelope control_node)) \<noteq> served control_node"
    using demo_served by (simp add: served_def)
  from message_once[OF this later.now, of demo_envelope demo_env] show ?thesis by (simp add: Let_def)
qed

text \<open>The executor of the node keeps the tables of the agent, so what it runs ends.\<close>

interpretation silent: framed_executor "\<lambda>c input ctx. ret JNull" sessions_wf
  by unfold_locales
    (auto simp: sessions_wf_put ret_def dest: sessions_wf_at, simp_all add: sessions_wf_def put_operation_def put_plan_def)

lemma demo_run:
  assumes "w = logged demo_lib mk plan_world"
  shows "map_option plan_status (plan_at ''p'' (snd (executePlan demo_lib demo_registry (\<lambda>c input ctx. ret JNull) (Some ''t'') ''p'' w)))
    \<in> {Some Plan_Succeeded, Some Plan_Failed}"
proof -
  have tables: "w_sessions w = w_sessions plan_world" "w_plans w = w_plans plan_world" "w_now w = w_now plan_world"
    "plan_at i w = plan_at i plan_world" "session_at i w = session_at i plan_world" for i
    using assms by simp_all
  have at: "plan_at ''p'' w = Some demo_plan" "session_at (ses_id demo_session) w \<noteq> None" using tables by simp_all
  have "session_of_token demo_lib ''t'' w = Some demo_session"
    using demo_token(2) tables(1) by (simp add: session_of_token_def)
  then have auth: "authenticate demo_lib (Some ''t'') w = (Inr demo_session, w)"
    using tables(3) by (simp add: authenticate_def nonempty_def andThen_def action_simps expired_at_def)
  have exec: "requireExecutable demo_lib demo_registry ''p'' ''s'' w = (Inr demo_plan, w)"
    using demo_plan_hash at(1)
    by (simp add: requireExecutable_def andThen_def action_simps validate_plan_def Let_def flat_map_def demo_step_def demo_validate)
  let ?m = "start_operation demo_lib demo_registry (\<lambda>c input ctx. ret JNull) demo_session demo_plan"
  obtain v w' where run: "?m w = (v, w')" by fastforce
  have wf: "sessions_wf w" using demo_sessions_wf(2) assms silent.I_logged by simp
  have "executePlan demo_lib demo_registry (\<lambda>c input ctx. ret JNull) (Some ''t'') ''p'' w = (v, w')"
    using run by (simp add: executePlan_def executePlanForSession_def andThen_run(2)[where m = "authenticate _ _", OF auth]
        andThen_run(2)[where m = "requireExecutable _ _ _ _", OF exec] get_plan_run at andThen_def[where m = "get_plan _"] andThen_ret)
  moreover have "map_option plan_status (plan_at ''p'' w') \<in> {Some Plan_Succeeded, Some Plan_Failed}"
    using silent.start_ends[OF wf at(2) _ _ _ run, of demo_plan] at(1) by (cases v) (auto simp: is_space_def)
  ultimately show ?thesis by simp
qed

definition demo_plans :: "plan_availability list" where
  "demo_plans = [\<lparr>av_id = ''m'', av_name = ''M'', av_everywhere = True, av_locations = []\<rparr>]"

lemma demo_execute:
  assumes "rm_world r = logged demo_lib mk plan_world" and "rm_secrets r = rm_secrets control_node"
    and "it_id x = ''intent''" and "it_plan x = ''p''"
  shows "ran (snd (execute_intent demo_env x r)) \<noteq> ran control_node"
proof -
  let ?x = "bumped (x\<lparr>it_status := It_Executing\<rparr>) (w_now (rm_world r))"
  let ?r1 = "put_intent ?x r"
  let ?m = "executePlan demo_lib demo_registry (\<lambda>c input ctx. ret JNull) (Some ''t'') ''p''"
  let ?run = "catching (andThen (on_agent ?m) (\<lambda>q. ret (Inr q))) (\<lambda>e. ret (Inl e))"
  obtain v r2 where run: "?run ?r1 = (Inr v, r2)" and w2: "rm_world r2 = snd (?m (rm_world r))"
    by (cases "?m (rm_world r)"; cases "fst (?m (rm_world r))") (auto simp: catching_def andThen_def run_action on_agent_def)
  have "nonempty (map_of (rm_secrets r) (secretKey (it_id x))) = Some ''t''"
    using assms by (simp add: control_sel nonempty_def)
  then have ex: "execute_intent demo_env x r = (case v of Inr q \<Rightarrow> finish_run demo_env ?x q
      | Inl e \<Rightarrow> settle_intent demo_env ((failed_intent ?x e)\<lparr>it_executions := 1\<rparr>)
             ''remote.intent.failed'' ''Conditional intent execution failed.'') r2"
    unfolding execute_intent_def using assms(4)
    by (simp only: option.case andThen_ret andThen_run(2)[where m = "update_intent _", OF update_intent_run]
        andThen_run(2)[where m = ?run, OF run] env_sel)
  have settled: "ran (snd (settle_intent demo_env z ty sm r2)) = ran r2" for z ty sm
    using settle_ran[of "ran r2" demo_env z ty sm] by (simp add: keeps_def)
  have "ran (snd (execute_intent demo_env x r)) = ran r2"
    unfolding ex using settled by (auto simp: finish_run_def Let_def split: sum.split)
  moreover have "plan_at ''p'' (rm_world r2) \<noteq> plan_at ''p'' plan_world"
    using demo_run[OF assms(1)] w2 by auto
  then have "ran r2 \<noteq> ran control_node" by (auto simp: ran_def control_sel plan_at_def row_get_def)
  ultimately show ?thesis by simp
qed

lemma demo_ran: "ran (snd (answered_intent demo_env demo_intent 1000 (Inr demo_plans) control_node)) \<noteq> ran control_node"
proof -
  have matched: "trigger_matched (it_trigger demo_intent) demo_plans" by code_simp
  let ?x1 = "bumped (demo_intent\<lparr>it_last_checked_at := Some 1000\<rparr>) (w_now (rm_world control_node))"
  let ?r1 = "put_intent ?x1 control_node"
  let ?c = "?x1\<lparr>it_status := It_Triggered, it_matched_at := Some 1000\<rparr>"
  let ?x2 = "bumped ?c (w_now (rm_world ?r1))"
  let ?ty = "''remote.intent.matched''" and ?sm = "''Conditional intent trigger matched.''"
  let ?r2 = "(put_intent ?x2 ?r1)\<lparr>rm_world := logged demo_lib (intent_event ?x2 ?ty ?sm) plan_world\<rparr>"
  have m: "mark_intent demo_env ?c ?ty ?sm ?r1 = (Inr ?x2, ?r2)"
    unfolding mark_intent_def
    by (simp add: andThen_run(2)[OF update_intent_run] andThen_run(2)[OF log_intent_run] run_action env_sel control_sel)
  have answer: "answered_intent demo_env demo_intent 1000 (Inr demo_plans) control_node =
      catching (execute_intent demo_env ?x2) (\<lambda>e. settle_intent demo_env (failed_intent demo_intent e) ''remote.intent.failed''
        ''Conditional intent evaluation failed.'') ?r2"
    unfolding answered_intent_def act_on_answer_def using matched
    by (simp add: catching_def outside_def andThen_ret andThen_run(2)[where m = "update_intent _", OF update_intent_run]
        andThen_run(2)[where m = "mark_intent _ _ _ _", OF m])
  have ends: "ran (snd (execute_intent demo_env ?x2 ?r2)) \<noteq> ran control_node"
    by (rule demo_execute) (simp_all add: intent_sel)
  show ?thesis
  proof (cases "execute_intent demo_env ?x2 ?r2")
    case (Pair v r3)
    have "ran (snd (settle_intent demo_env z ty sm r3)) = ran r3" for z ty sm
      using settle_ran[of "ran r3" demo_env z ty sm] by (simp add: keeps_def)
    then show ?thesis using Pair ends unfolding answer by (cases v) (simp_all add: catching_run)
  qed
qed

lemma intent_runs_once_witness:
  "let r = snd (answered_intent demo_env demo_intent 1000 (Inr demo_plans) control_node) in
   ran (snd (answered_intent demo_env demo_intent 1000 (Inr demo_plans) r)) = ran r"
  using intent_runs_once[OF demo_ran later.now, of demo_intent demo_env] by (simp add: Let_def)

definition intent_node :: remote where
  "intent_node = remote_step demo_env (Answer demo_intent 1000 (Inr [])) paired_node"

lemma intent_reached: "reached demo_check intent_node"
  using nodes_reached(3) later.step[of demo_check _ paired_node demo_env] unfolding reached_def intent_node_def
  by (auto simp: demo_proof)

lemma demo_revoke: "\<exists>x r1. revoke_intent demo_env ''intent'' demo_id intent_node = (Inr x, r1)"
proof -
  let ?x = "bumped (demo_intent\<lparr>it_last_checked_at := Some 1000\<rparr>) (w_now (rm_world paired_node))"
  have "\<not> trigger_matched (it_trigger demo_intent) []" by code_simp
  then have node: "intent_node = put_intent ?x paired_node"
    by (simp add: intent_node_def remote_step_def answered_intent_def act_on_answer_def catching_def outside_def andThen_ret
        andThen_run(2)[where m = "update_intent _", OF update_intent_run] run_action)
  then have get: "getIntent ''intent'' intent_node = (Inr (Some ?x), intent_node)"
    using intent_table.get_put[of "''intent''" ?x paired_node] by (simp add: getIntent_def run_action intent_at_def intent_sel)
  obtain ty sm where tr: "transition_intent demo_env ''intent'' demo_id It_Revoked intent_node =
      mark_intent demo_env (?x\<lparr>it_status := It_Revoked\<rparr>) ty sm intent_node"
    by (simp add: transition_intent_def Let_def andThen_run(2)[where m = "getIntent _", OF get] intent_sel)
  obtain y r0 where m: "mark_intent demo_env (?x\<lparr>it_status := It_Revoked\<rparr>) ty sm intent_node = (Inr y, r0)"
    by (metis mark_intent_run)
  obtain r1 where "deactivate_intent demo_env y r0 = (Inr (), r1)" using deactivate_intent_run by metis
  then show ?thesis
    by (simp add: revoke_intent_def andThen_run(2)[where m = "transition_intent _ _ _ _", OF tr[unfolded m]] andThen_run(2) run_action)
qed

lemma revoked_intent_never_runs_witness:
  "\<exists>x r. revoke_intent demo_env ''intent'' demo_id intent_node = (Inr x, r) \<and>
     ran (snd (answered_intent demo_env demo_intent 1000 (Inr demo_plans) r)) = ran r"
proof -
  obtain x r where run: "revoke_intent demo_env ''intent'' demo_id intent_node = (Inr x, r)" using demo_revoke by blast
  from revoked_intent_never_runs[OF intent_reached run later.now, of demo_intent demo_env] run show ?thesis
    by (auto simp: intent_sel)
qed

section \<open>A decision\<close>

definition awaiting_plan :: agent_plan where
  "awaiting_plan = demo_plan\<lparr>plan_status := Plan_Awaiting\<rparr>"

definition shown_approval :: approval where
  "shown_approval = demo_approval\<lparr>apr_plan := Some ''p'', apr_capability := None\<rparr>"

definition decision_node :: remote where
  "decision_node = control_node\<lparr>rm_world := session_world\<lparr>w_plans := [(''p'', 1, awaiting_plan)],
     w_approvals := [(''a'', 1, shown_approval)]\<rparr>\<rparr>"

definition trusted_device :: device where
  "trusted_device = admin_device\<lparr>dv_restrictions := (normalizeRestrictions Admin no_restrictions)\<lparr>rs_max_risk := High\<rparr>\<rparr>"

definition approve_payload :: signed_payload where
  "approve_payload = (sc_payload pause_command)\<lparr>sp_type := ''approval.decision'', sp_kind := ''approval'', sp_subject := ''a'',
     sp_version := 1000, sp_plan_hash := Some (plan_hash demo_plan),
     sp_parameters := \<lparr>pa_count = 1, pa_decision = ''approve'', pa_reason = None, pa_intent = None\<rparr>\<rparr>"

lemma decision_wf: "approvals_wf (rm_world decision_node)"
  by (auto simp: approvals_wf_def approval_at_def row_get_def decision_node_def shown_approval_def demo_approval_def is_space_def
      split: if_splits)

lemma demo_decision: "\<exists>x r'. decideApproval demo_env trusted_device approve_payload decision_node = (Inr x, r')"
proof -
  have at: "approval_at ''a'' (rm_world decision_node) = Some shown_approval" "plan_at ''p'' (rm_world decision_node) = Some awaiting_plan"
      "w_now (rm_world decision_node) = 1000"
    by (simp_all add: decision_node_def approval_at_def plan_at_def row_get_def)
  have pay: "sp_kind approve_payload = ''approval''" "sp_subject approve_payload = ''a''" "sp_version approve_payload = 1000"
      "sp_plan_hash approve_payload = Some (plan_hash demo_plan)" "sp_expires_at approve_payload = Some 61000"
      "pa_decision (sp_parameters approve_payload) = ''approve''"
    by (simp_all add: approve_payload_def pause_sel)
  have hash: "plan_hash demo_plan \<noteq> []"
    unfolding demo_plan_hash by (simp add: hashPlan_def demo_lib_def)
  have open_now: "decision_refusal trusted_device approve_payload shown_approval 1000 = None"
    using hash by (simp add: decision_refusal_def requireVersion_def pay shown_approval_def demo_approval_def nonempty_def)
  have plan: "plan_refusal demo_env trusted_device approve_payload shown_approval awaiting_plan = None"
  proof -
    have "pv_valid (validate_plan demo_lib demo_registry awaiting_plan)"
      using demo_plan_hash by (simp add: awaiting_plan_def validate_plan_def Let_def flat_map_def demo_step_def demo_validate)
    moreover have "plan_hash awaiting_plan = plan_hash demo_plan" "plan_status awaiting_plan = Plan_Awaiting"
        "plan_target awaiting_plan = None" "plan_environment awaiting_plan = Staging"
      by (simp_all add: awaiting_plan_def demo_plan_def build_plan_def Let_def demo_plan_input_def plan_environment_for_def nonempty_def or_default_def)
    moreover have "rs_environments (dv_restrictions trusted_device) = [Development, Staging, Production]"
        "rs_max_risk (dv_restrictions trusted_device) = High" "rs_targets (dv_restrictions trusted_device) = []"
        "rs_approval_kinds (dv_restrictions trusted_device) = [''plan'', ''operation'']"
      by (simp_all add: trusted_device_def normalizeRestrictions_def no_restrictions_def or_default_def DEFAULT_DEVICE_RESTRICTIONS_def)
    ultimately show ?thesis
      by (simp add: plan_refusal_def pay env_sel requireDeviceScope_def nonempty_def shown_approval_def demo_approval_def)
  qed
  have approve: "\<exists>y w'. approve demo_lib ''a'' reason actor (rm_world decision_node) = (Inr y, w')" for reason actor
    using decide_settles[OF at(1), of Approved demo_lib reason actor]
    by (simp add: approve_def shown_approval_def demo_approval_def window_closed_def at(3) nonempty_def grants_scope_def settled_def andThen_ret andThen_run run_action logEvent_run)
  have got: "on_agent (getApproval ''a'') decision_node = (Inr (Some shown_approval), decision_node)"
      "on_agent (get_plan (the (apr_plan shown_approval))) decision_node = (Inr awaiting_plan, decision_node)"
    using at by (simp_all add: on_agent_def action_simps shown_approval_def)
  let ?said = "if commandReason approve_payload = [] then ''Approved'' @ '' by remote device '' @ dv_label trusted_device @ ''.''
      else commandReason approve_payload"
  let ?do = "on_agent (approve demo_lib (apr_id shown_approval) ?said (''remote_device:'' @ dv_id trusted_device))"
  have id: "apr_id shown_approval = ''a''" by (simp add: shown_approval_def demo_approval_def)
  obtain y w' where "approve demo_lib ''a'' ?said (''remote_device:'' @ dv_id trusted_device) (rm_world decision_node) = (Inr y, w')"
    using approve by blast
  then have y: "?do decision_node = (Inr y, decision_node\<lparr>rm_world := w'\<rparr>)" unfolding id by (simp add: on_agent_def)
  have "decideApproval demo_env trusted_device approve_payload decision_node = andThen ?do (\<lambda>x. ret (Done_Approval x)) decision_node"
    unfolding decideApproval_def pay andThen_run(2)[where m = "on_agent (getApproval _)", OF got(1)]
    by (simp add: requireSubject_def guard_with_def pay andThen_ret andThen_run(2)[where m = "on_agent (getApproval _)", OF got(1)]
        remote_clock_def at(3) open_now andThen_run(2)[where m = "on_agent (get_plan _)", OF got(2)] plan Let_def env_sel)
  then show ?thesis using y by (simp add: andThen_run run_action)
qed

lemma decision_bound_witness:
  "\<exists>a plan. approval_at ''a'' (rm_world decision_node) = Some a \<and> apr_status a = Pending \<and>
     plan_at ''p'' (rm_world decision_node) = Some plan \<and> plan_status plan = Plan_Awaiting"
proof -
  obtain x r' where "decideApproval demo_env trusted_device approve_payload decision_node = (Inr x, r')"
    using demo_decision by blast
  from decision_bound[OF decision_wf this] show ?thesis
    by (auto simp: approve_payload_def decision_node_def approval_at_def row_get_def shown_approval_def)
qed

end
