(* ===== verification/App_Model.thy ===== *)
theory App_Model
  imports Host_Access
begin

text \<open>
  The data of deployed applications (src/src/apps/app.model.ts) and the readings of a host's answers
  (src/src/apps/app-parse.ts, splitSections of src/src/host-ops/status-battery.ts): the facts the
  preflight gathers, the outcome of pulling images, of starting units and of the smoke test.
\<close>

section \<open>The plan of an application\<close>

datatype port_protocol = Http_Port | Tcp_Port

record port_route =
  pr_path :: string
  pr_strip :: bool

record app_port =
  ap_name :: string
  ap_container :: nat
  ap_expose :: bool
  ap_protocol :: port_protocol
  ap_route :: "port_route option"

record app_volume =
  av_name :: string
  av_volume :: string
  av_mount :: string

record app_env =
  en_name :: string
  en_value :: string
  en_required :: bool
  en_group :: "string option"

datatype secret_format = Base64url | Hex_Format

text \<open>A secret made on the host (its length and alphabet) or with a known value.\<close>

record app_secret =
  sec_name :: string
  sec_target :: string
  sec_generate :: "(nat \<times> secret_format) option"
  sec_value :: "string option"
  sec_optional :: bool
  sec_group :: "string option"

datatype health_type = Health_Http | Health_Tcp | Health_Exec

record app_health =
  hl_type :: health_type
  hl_path :: "string option"
  hl_port :: "nat option"
  hl_command :: "string list option"
  hl_headers :: "(string \<times> string) list"
  hl_delay :: "string option"
  hl_interval :: "string option"
  hl_timeout :: "string option"
  hl_retries :: "nat option"

record app_component =
  cm_name :: string
  cm_container :: string
  cm_image :: string
  cm_env :: "app_env list"
  cm_secrets :: "app_secret list"
  cm_ports :: "app_port list"
  cm_volumes :: "app_volume list"
  cm_cpu :: "string option"
  cm_memory :: "string option"
  cm_health :: "app_health option"
  cm_depends :: "string list"
  cm_command :: "string list option"

datatype smoke_type = Smoke_Http | Smoke_Tcp | Smoke_Script | Smoke_Skip

record smoke_plan =
  sm_type :: smoke_type
  sm_path :: "string option"
  sm_status :: "nat option"
  sm_timeout :: "nat option"
  sm_retries :: "nat option"
  sm_reason :: "string option"

datatype app_kind = Standalone | Composed | Application_Kind

record domain_plan =
  dp_tls :: bool
  dp_dns_challenge :: bool
  dp_staging :: bool

datatype access_mode = Access_Credentials | First_Visit | No_Access

datatype auth_mode = Auth_Oidc | Auth_Proxy | Auth_Native | Auth_None

datatype exposure = Exposure_Public | Exposure_Internal

datatype part_kind = Part_Value | Part_User_Set | Part_Generated

record access_part =
  pt_kind :: part_kind
  pt_value :: "string option"
  pt_secret :: "string option"
  pt_env :: "string option"

record access_plan =
  acc_mode :: access_mode
  acc_path :: string
  acc_username :: "access_part option"
  acc_password :: "access_part option"
  acc_note :: "string option"

record post_step =
  ps_name :: string
  ps_component :: string
  ps_command :: "string list"
  ps_needs_fqdn :: bool

record app_plan =
  an_name :: string
  an_app :: string
  an_display :: string
  an_kind :: app_kind
  an_pod :: "string option"
  an_components :: "app_component list"
  an_primary :: string
  an_smoke :: "smoke_plan option"
  an_domain :: "domain_plan option"
  an_needs_domain :: bool
  an_access :: "access_plan option"
  an_auth :: "auth_mode option"
  an_exposure :: "exposure option"
  an_post :: "post_step list"
  an_warnings :: "string list"

section \<open>Bindings and installs\<close>

record ingress_route =
  ir_component :: string
  ir_container :: nat
  ir_path :: string
  ir_strip :: bool

record ingress_binding =
  ib_hostname :: string
  ib_tls :: bool
  ib_direct :: bool
  ib_routes :: "ingress_route list"

record published_port =
  pp_host :: nat
  pp_container :: nat
  pp_bind :: string

datatype reach = Reach_Ingress | Reach_Public | Reach_Loopback

record app_endpoint =
  ep_component :: string
  ep_port :: nat
  ep_url :: string
  ep_reach :: "reach option"

record dns_record =
  dr_provider :: string
  dr_zone :: string
  dr_zone_name :: string
  dr_record :: string
  dr_name :: string

record gate_state =
  gt_user :: string
  gt_secret :: string
  gt_hash :: string

record app_route =
  rt_component :: string
  rt_container :: nat
  rt_host_port :: nat
  rt_path :: string
  rt_strip :: bool

record ingress_state =
  is_hostname :: string
  is_tls :: bool
  is_staging :: bool
  is_component :: string
  is_host_port :: nat
  is_routes :: "app_route list"
  is_direct :: bool
  is_resolver :: string
  is_route_file :: string
  is_dns :: "dns_record option"
  is_auth :: "gate_state option"
  is_attached_at :: instant

datatype publish_intent = Loopback | Public

datatype install_status = Installing | Deployed | Install_Failed | Install_Removed

record install_component =
  ic_name :: string
  ic_container :: string
  ic_image :: string
  ic_published :: "published_port list"

record install =
  in_name :: string
  in_app :: string
  in_display :: string
  in_host :: string
  in_kind :: app_kind
  in_pod :: "string option"
  in_primary :: string
  in_components :: "install_component list"
  in_units :: "(string \<times> string) list"
  in_secrets :: "string list"
  in_volumes :: "string list"
  in_endpoints :: "app_endpoint list"
  in_ingress :: "ingress_state option"
  in_access :: "access_plan option"
  in_publish :: "publish_intent option"
  in_status :: install_status
  in_created_at :: instant
  in_updated_at :: instant

text \<open>What \<open>installSummary\<close> shows of an install, and the mark of a list for a host that is gone.\<close>

record install_summary =
  su_name :: string
  su_app :: string
  su_display :: string
  su_host :: string
  su_kind :: app_kind
  su_status :: install_status
  su_endpoints :: "app_endpoint list"
  su_ingress :: "(string \<times> bool \<times> bool) option"
  su_access :: "access_plan option"
  su_host_missing :: bool
  su_updated_at :: instant

definition installSummary :: "install \<Rightarrow> install_summary" where
  "installSummary i = \<lparr>su_name = in_name i, su_app = in_app i, su_display = in_display i, su_host = in_host i,
     su_kind = in_kind i, su_status = in_status i, su_endpoints = in_endpoints i,
     su_ingress = map_option (\<lambda>s. (is_hostname s, is_tls s, is_staging s)) (in_ingress i),
     su_access = in_access i, su_host_missing = False, su_updated_at = in_updated_at i\<rparr>"

section \<open>Reading what a host answers\<close>

definition lines_of :: "string \<Rightarrow> string list" where
  "lines_of s = split_on newline s"

text \<open>\<open>s.split('\n').map(trim).filter(Boolean)\<close>.\<close>

definition text_lines :: "string \<Rightarrow> string list" where
  "text_lines s = filter (\<lambda>l. l \<noteq> []) (map trim (lines_of s))"

text \<open>\<open>splitSections\<close>: the text after each line that starts with the mark, by the name on that line.\<close>

definition section_step :: "string \<Rightarrow> string \<times> (string \<times> string) list \<Rightarrow> string \<times> (string \<times> string) list" where
  "section_step line = (\<lambda>(current, out).
     if starts_with line ''@@'' then (let k = trim (drop 2 line) in (k, AList.update k [] out))
     else if current \<noteq> []
     then (let old = or_default (map_of out current) [] in
           (current, AList.update current (old @ (if old \<noteq> [] then nl else []) @ line) out))
     else (current, out))"

definition splitSections :: "string \<Rightarrow> (string \<times> string) list" where
  "splitSections stdout = map (\<lambda>(k, v). (k, trim v)) (snd (fold section_step (lines_of stdout) ([], [])))"

definition section_of :: "string \<Rightarrow> string \<Rightarrow> string" where
  "section_of stdout k = trim (or_default (map_of (splitSections stdout) k) [])"

definition has_section :: "string \<Rightarrow> string \<Rightarrow> bool" where
  "has_section stdout k \<longleftrightarrow> map_of (splitSections stdout) k \<noteq> None"

text \<open>\<open>Number.parseInt(s, 10) || 0\<close>, for a text without a minus sign.\<close>

definition parse_count :: "string \<Rightarrow> nat" where
  "parse_count s = read_nat (takeWhile is_digit (let t = trim_start s in if starts_with t ''+'' then tl t else t))"

text \<open>The text before and after the last occurrence of a character.\<close>

definition last_split :: "char \<Rightarrow> string \<Rightarrow> (string \<times> string) option" where
  "last_split c s = (if c \<in> set s
     then Some (rev (tl (dropWhile (\<lambda>x. x \<noteq> c) (rev s))), rev (takeWhile (\<lambda>x. x \<noteq> c) (rev s)))
     else None)"

text \<open>\<open>\d{1,4}\<close>, and the text of the first match of a pattern.\<close>

fun up_to :: "nat \<Rightarrow> re \<Rightarrow> re" where
  "up_to 0 r = Eps"
| "up_to (Suc n) r = opt (Seq r (up_to n r))"

definition first_match :: "re \<Rightarrow> string \<Rightarrow> string option" where
  "first_match r s = map_option (\<lambda>(p, q). take (length (snd p) - length (snd q)) (snd p)) (search_from r [] s)"

definition four_digits :: re where
  "four_digits = Seq (Cls is_digit) (up_to 3 (Cls is_digit))"

definition extractVersion :: "string \<Rightarrow> string option" where
  "extractVersion raw = first_match
     (Seq four_digits (Seq (lit ''.'') (Seq four_digits (Seq (lit ''.'') four_digits)))) raw"

record host_facts =
  hf_podman :: "string option"
  hf_quadlet :: "string option"
  hf_k3s :: bool
  hf_selinux :: bool
  hf_arch :: string
  hf_ports :: "nat list"
  hf_free_kb :: nat
  hf_networks :: "string list"

definition parsePorts :: "string \<Rightarrow> nat list" where
  "parsePorts text = uniq (List.map_filter (\<lambda>addr. case last_split CHR '':'' addr of
       None \<Rightarrow> None
     | Some (_, p) \<Rightarrow> let n = parse_count p in if n > 0 then Some n else None) (text_lines text))"

definition parsePreflight :: "string \<Rightarrow> host_facts" where
  "parsePreflight stdout = (let podmanRaw = section_of stdout ''podman'' in
     \<lparr>hf_podman = (if podmanRaw \<noteq> [] \<and> podmanRaw \<noteq> ''MISSING'' then extractVersion podmanRaw else None),
      hf_quadlet = nonempty (Some (section_of stdout ''quadlet'')),
      hf_k3s = (section_of stdout ''k3s'' = ''active''),
      hf_selinux = (section_of stdout ''selinux'' = ''yes''),
      hf_arch = section_of stdout ''arch'',
      hf_ports = parsePorts (section_of stdout ''ports''),
      hf_free_kb = parse_count (section_of stdout ''diskkb''),
      hf_networks = text_lines (section_of stdout ''networks'')\<rparr>)"

definition supportsPod :: "string option \<Rightarrow> bool" where
  "supportsPod version = (case nonempty version of None \<Rightarrow> False
     | Some v \<Rightarrow> parse_count (hd (split_on CHR ''.'' v)) \<ge> 5)"

text \<open>The images that failed; none of it counts unless the script ran to its end.\<close>

definition parsePullOutput :: "string \<Rightarrow> bool \<times> string list" where
  "parsePullOutput stdout =
     (has_section stdout ''pull'' \<and> has_section stdout ''done'',
      map (drop (length ''failed '')) (filter (\<lambda>l. starts_with l ''failed '') (text_lines (section_of stdout ''pull''))))"

record deploy_outcome =
  do_ok :: bool
  do_started :: "(string \<times> string) list"
  do_error :: "string option"

definition started_line :: "string \<Rightarrow> (string \<times> string) list \<Rightarrow> (string \<times> string) list" where
  "started_line line out = (case last_split CHR ''='' line of
       Some (s, state) \<Rightarrow> if s \<noteq> [] then AList.update s (trim state) out else out
     | None \<Rightarrow> out)"

definition parseDeployOutput :: "string \<Rightarrow> string list \<Rightarrow> deploy_outcome" where
  "parseDeployOutput stdout services =
     (if has_section stdout ''error''
      then \<lparr>do_ok = False, do_started = [],
            do_error = Some (or_default (nonempty (Some (section_of stdout ''error''))) ''unknown error'')\<rparr>
      else let started = fold started_line (lines_of (section_of stdout ''started'')) [];
               bad = filter (\<lambda>sv. map_of started sv \<noteq> Some ''active'') services;
               which = or_default (nonempty (Some (join '', '' bad))) ''deploy aborted'';
               diag = section_of stdout ''diag''
           in if \<not> has_section stdout ''ok'' \<or> bad \<noteq> []
              then \<lparr>do_ok = False, do_started = started,
                    do_error = Some (''services not active: '' @ which @ (if diag \<noteq> [] then nl @ diag else []))\<rparr>
              else \<lparr>do_ok = True, do_started = started, do_error = None\<rparr>)"

record smoke_outcome =
  so_ok :: bool
  so_detail :: string

definition probed :: "nat option \<Rightarrow> string" where
  "probed port = (case port of None \<Rightarrow> [] | Some p \<Rightarrow> '' on 127.0.0.1:'' @ show_nat p)"

definition parseHttpSmoke :: "string \<Rightarrow> nat \<Rightarrow> nat option \<Rightarrow> smoke_outcome" where
  "parseHttpSmoke stdout expect port = (let raw = section_of stdout ''http''; code = parse_count raw in
     \<lparr>so_ok = (code = expect \<or> (code \<ge> 200 \<and> code < 400)),
      so_detail = ''HTTP '' @ or_default (nonempty (Some raw)) ''000'' @ probed port @ '' (want '' @ show_nat expect @ '' or 2xx/3xx)''\<rparr>)"

definition parseTcpSmoke :: "string \<Rightarrow> nat option \<Rightarrow> smoke_outcome" where
  "parseTcpSmoke stdout port = (let state = section_of stdout ''tcp'' in
     \<lparr>so_ok = (state = ''open''), so_detail = ''TCP '' @ or_default (nonempty (Some state)) ''closed'' @ probed port\<rparr>)"

record unit_status =
  us_service :: string
  us_active :: string
  us_sub :: string

definition unit_line :: "string \<Rightarrow> unit_status option" where
  "unit_line l = (let p = split_on CHR ''|'' l in if field 0 p = [] then None
     else Some \<lparr>us_service = field 0 p, us_active = field 1 p, us_sub = field 2 p\<rparr>)"

definition parseStatusOutput :: "string \<Rightarrow> unit_status list \<times> string list" where
  "parseStatusOutput stdout =
     (List.map_filter unit_line (lines_of (section_of stdout ''units'')), text_lines (section_of stdout ''containers''))"

section \<open>Choosing a host port\<close>

definition ALLOC_BASE :: nat where
  "ALLOC_BASE = 20000"

definition ALLOC_TOP :: nat where
  "ALLOC_TOP = 20999"

text \<open>The port of the container when it is free and allowed, else the first free one of the range.\<close>

definition allocatePort :: "nat \<Rightarrow> nat list \<Rightarrow> bool \<Rightarrow> bool \<Rightarrow> failure + nat" where
  "allocatePort containerPort used coexistence forceHigh =
     (if \<not> forceHigh \<and> containerPort \<ge> (if coexistence then 1024 else 1) \<and> containerPort \<notin> set used
      then Inr containerPort
      else case find (\<lambda>p. p \<notin> set used) [ALLOC_BASE..<Suc ALLOC_TOP] of
             Some p \<Rightarrow> Inr p
           | None \<Rightarrow> Inl (Plain_Error ''No free host port available in the allocation range.''))"

end
