(* ===== verification/Quadlet_Render.thy ===== *)
theory Quadlet_Render
  imports App_Model
begin

text \<open>
  The unit files of an application: src/src/apps/quadlet-render.ts, and the health timers of
  src/src/apps/health-timer.ts.
\<close>

definition START_TIMEOUT_SEC :: nat where
  "START_TIMEOUT_SEC = 300"

definition section_lines :: "string \<Rightarrow> string list \<Rightarrow> string list" where
  "section_lines n ls = [''['' @ n @ '']''] @ ls @ [[]]"

definition publish_line :: "published_port \<Rightarrow> string" where
  "publish_line p = ''PublishPort='' @ pp_bind p @ '':'' @ show_nat (pp_host p) @ '':'' @ show_nat (pp_container p)"

definition ports_of :: "(string \<times> published_port list) list \<Rightarrow> string \<Rightarrow> published_port list" where
  "ports_of ports n = or_default (map_of ports n) []"

definition opt_line :: "string \<Rightarrow> string option \<Rightarrow> string list" where
  "opt_line p v = (case nonempty v of None \<Rightarrow> [] | Some x \<Rightarrow> [p @ x])"

section \<open>Health probes\<close>

text \<open>
  The patterns of the renderer: \<open>/[\s'"]/\<close>, \<open>/^[\w./:=@-]+$/\<close> and \<open>/\s+/g\<close>.
\<close>

definition needs_quotes :: "string \<Rightarrow> bool" where
  "needs_quotes s \<longleftrightarrow> list_ex (\<lambda>c. is_space c \<or> c = CHR 0x27 \<or> c = CHR 0x22) s"

definition plain_arg :: "string \<Rightarrow> bool" where
  "plain_arg s \<longleftrightarrow> s \<noteq> [] \<and> list_all (\<lambda>c. is_word c \<or> c \<in> set ''./:=@-'') s"

definition one_spaced :: "string \<Rightarrow> string" where
  "one_spaced s = trim (join '' '' (split_spaces s))"

definition headerToken :: "string \<Rightarrow> string \<Rightarrow> string" where
  "headerToken n v = (let joined = n @ '':'' @ trim v in
     if needs_quotes joined then single_quoted (filter (\<lambda>c. c \<noteq> CHR 0x27) joined) else joined)"

text \<open>The port a probe asks: the declared one, the first exposed one, the first one; 0 counts as none.\<close>

definition probe_port :: "app_health \<Rightarrow> app_component \<Rightarrow> nat option" where
  "probe_port h co = (case hl_port h of
       Some p \<Rightarrow> Some p
     | None \<Rightarrow> (case find ap_expose (cm_ports co) of
         Some p \<Rightarrow> Some (ap_container p)
       | None \<Rightarrow> map_option ap_container (find (\<lambda>_. True) (cm_ports co))))"

definition http_probe :: "app_health \<Rightarrow> nat \<Rightarrow> string" where
  "http_probe h port =
     (let declared = or_default (hl_path h) [];
          path = (if starts_with declared ''/'' then declared else ''/'' @ declared);
          url = ''http://127.0.0.1:'' @ show_nat port @ path;
          headers = map (\<lambda>(n, v). headerToken n v) (hl_headers h);
          curl = [''curl'', ''-fsS'', ''-o'', ''/dev/null'', ''--max-time'', ''3''] @ map (\<lambda>t. ''-H '' @ t) headers @ [url];
          wget = [''wget'', ''-q'', ''-O'', ''/dev/null'', ''-T'', ''3''] @ map (\<lambda>t. ''--header '' @ t) headers @ [url]
      in ''command -v curl >/dev/null && exec '' @ join '' '' curl @ ''; command -v wget >/dev/null && exec '' @
         join '' '' wget @ ''; exit 0'')"

definition healthCommand :: "app_health \<Rightarrow> app_component \<Rightarrow> string" where
  "healthCommand h co = (if hl_type h = Health_Exec then join '' '' (or_default (hl_command h) [])
     else (case probe_port h co of
         None \<Rightarrow> []
       | Some port \<Rightarrow> if port = 0 then []
           else if hl_type h = Health_Tcp
           then ''command -v nc >/dev/null && exec nc -z 127.0.0.1 '' @ show_nat port @ ''; exit 0''
           else http_probe h port))"

definition probeCommand :: "app_component \<Rightarrow> string" where
  "probeCommand co = (case cm_health co of None \<Rightarrow> [] | Some h \<Rightarrow> healthCommand h co)"

definition healthLines :: "app_component \<Rightarrow> string list" where
  "healthLines co = (case cm_health co of None \<Rightarrow> []
     | Some h \<Rightarrow> let cmd = probeCommand co in if cmd = [] then []
         else [''HealthCmd='' @ cmd] @ opt_line ''HealthStartPeriod='' (hl_delay h) @ opt_line ''HealthInterval='' (hl_interval h) @
              opt_line ''HealthTimeout='' (hl_timeout h) @
              (case hl_retries h of Some n \<Rightarrow> if n = 0 then [] else [''HealthRetries='' @ show_nat n] | None \<Rightarrow> []))"

text \<open>The duration \<open>/^\d+(ms|s|m|h)$/\<close>, and the timer that runs the probe.\<close>

definition is_duration :: "string \<Rightarrow> bool" where
  "is_duration s = full_match (Seq (plus (Cls is_digit)) (alts [lit ''ms'', lit ''s'', lit ''m'', lit ''h''])) s"

definition duration :: "string option \<Rightarrow> string option" where
  "duration v = (case v of None \<Rightarrow> None
     | Some x \<Rightarrow> let t = trim x in if t \<noteq> [] \<and> is_duration t then Some t else None)"

definition healthTimerUnit :: "string \<Rightarrow> string" where
  "healthTimerUnit container = container @ ''-health.timer''"

definition healthServiceUnit :: "string \<Rightarrow> string" where
  "healthServiceUnit container = container @ ''-health.service''"

definition renderHealthUnits :: "string \<Rightarrow> app_health option \<Rightarrow> (string \<times> string) list" where
  "renderHealthUnits container health =
     (let interval = or_default (duration (Option.bind health hl_interval)) ''30s'';
          first = or_default (duration (Option.bind health hl_delay)) interval;
          service = join nl [''[Unit]'', ''Description=vops health probe '' @ container, [], ''[Service]'', ''Type=oneshot'',
            ''ExecStart=-/bin/sh -c '' @ dq (''exec podman healthcheck run '' @ container), []];
          timer = join nl [''[Unit]'', ''Description=vops health timer '' @ container, ''BindsTo='' @ container @ ''.service'',
            ''After='' @ container @ ''.service'', [], ''[Timer]'', ''OnActiveSec='' @ first, ''OnUnitInactiveSec='' @ interval,
            ''AccuracySec=1s'', [], ''[Install]'', ''WantedBy='' @ container @ ''.service'', []]
      in [(healthServiceUnit container, service), (healthTimerUnit container, timer)])"

section \<open>Units\<close>

definition renderPod :: "app_plan \<Rightarrow> string \<Rightarrow> (string \<times> published_port list) list \<Rightarrow> string" where
  "renderPod plan pod ports = join nl
     (section_lines ''Unit'' [''Description=vops pod '' @ pod] @
      section_lines ''Pod'' ([''PodName='' @ pod] @ flat_map (\<lambda>c. map publish_line (ports_of ports (cm_name c))) (an_components plan)) @
      section_lines ''Install'' [''WantedBy=default.target''])"

definition renderVolume :: "string \<Rightarrow> string" where
  "renderVolume n = join nl (section_lines ''Unit'' [''Description=vops volume '' @ n] @ section_lines ''Volume'' [''VolumeName='' @ n])"

definition component_at :: "app_plan \<Rightarrow> string \<Rightarrow> app_component option" where
  "component_at plan n = find (\<lambda>c. cm_name c = n) (an_components plan)"

definition afterDeps :: "app_plan \<Rightarrow> app_component \<Rightarrow> string list" where
  "afterDeps plan co = List.map_filter (\<lambda>dep.
     map_option (\<lambda>t. ''After='' @ cm_container t @ ''.service'') (component_at plan dep)) (cm_depends co)"

definition execLines :: "string list \<Rightarrow> string list" where
  "execLines command = (case command of
       [] \<Rightarrow> [''Entrypoint=undefined'']
     | entry # args \<Rightarrow> [''Entrypoint='' @ entry] @
         (let q = map (\<lambda>a. if plain_arg a then a else single_quoted (one_spaced a)) args in
          if q = [] then [] else [''Exec='' @ join '' '' q]))"

definition podmanArgs :: "app_component \<Rightarrow> string list" where
  "podmanArgs co = (let args = opt_line ''--memory='' (cm_memory co) @ opt_line ''--cpus='' (cm_cpu co) in
     if args = [] then [] else [''PodmanArgs='' @ join '' '' args])"

definition env_line :: "app_env \<Rightarrow> string" where
  "env_line e = ''Environment='' @ en_name e @ ''='' @ en_value e"

definition secret_line :: "app_secret \<Rightarrow> string" where
  "secret_line s = ''Secret=source='' @ sec_name s @ '',type=env,target='' @ sec_target s"

definition renderContainer :: "app_plan \<Rightarrow> app_component \<Rightarrow> bool \<Rightarrow> (string \<times> published_port list) list \<Rightarrow> string" where
  "renderContainer plan co selinux ports =
     (let container = [''ContainerName='' @ cm_container co, ''Image='' @ cm_image co] @
            (case nonempty (an_pod plan) of Some pod \<Rightarrow> [''Pod='' @ pod @ ''.pod'']
               | None \<Rightarrow> map publish_line (ports_of ports (cm_name co))) @
            map env_line (cm_env co) @ map secret_line (cm_secrets co) @
            map (\<lambda>v. ''Volume='' @ av_volume v @ ''.volume:'' @ av_mount v @ (if selinux then '':Z'' else [])) (cm_volumes co) @
            (case cm_command co of Some c \<Rightarrow> execLines c | None \<Rightarrow> []) @ healthLines co @ podmanArgs co
      in join nl (section_lines ''Unit'' ([''Description=vops app '' @ an_name plan @ '' / '' @ cm_name co] @ afterDeps plan co) @
           section_lines ''Container'' container @
           section_lines ''Service'' [''Restart=always'', ''RestartSec=5'', ''TimeoutStartSec='' @ show_nat START_TIMEOUT_SEC] @
           section_lines ''Install'' [''WantedBy=default.target'']))"

text \<open>Each secret once, by name: the first entry that holds its material, else the last one.\<close>

definition keep_secret :: "app_secret \<Rightarrow> (string \<times> app_secret) list \<Rightarrow> (string \<times> app_secret) list" where
  "keep_secret s byName = (case map_of byName (sec_name s) of
       Some e \<Rightarrow> if sec_generate e = None \<and> sec_value e = None then AList.update (sec_name s) s byName else byName
     | None \<Rightarrow> AList.update (sec_name s) s byName)"

definition dedupeSecrets :: "app_plan \<Rightarrow> app_secret list" where
  "dedupeSecrets plan = map snd (fold keep_secret (flat_map cm_secrets (an_components plan)) [])"

record rendered =
  rd_units :: "(string \<times> string) list"
  rd_health :: "(string \<times> string) list"
  rd_secrets :: "app_secret list"

definition render_volumes :: "app_component \<Rightarrow> (string \<times> string) list \<Rightarrow> (string \<times> string) list" where
  "render_volumes co = fold (\<lambda>v. AList.update (av_volume v @ ''.volume'') (renderVolume (av_volume v))) (cm_volumes co)"

definition render_component :: "app_plan \<Rightarrow> bool \<Rightarrow> (string \<times> published_port list) list \<Rightarrow> app_component \<Rightarrow>
    (string \<times> string) list \<Rightarrow> (string \<times> string) list" where
  "render_component plan selinux ports co units =
     AList.update (cm_container co @ ''.container'') (renderContainer plan co selinux ports) (render_volumes co units)"

definition render_health :: "app_component \<Rightarrow> (string \<times> string) list \<Rightarrow> (string \<times> string) list" where
  "render_health co health = (if probeCommand co = [] then health
     else fold (\<lambda>(n, u). AList.update n u) (renderHealthUnits (cm_container co) (cm_health co)) health)"

definition renderDeploy :: "app_plan \<Rightarrow> bool \<Rightarrow> (string \<times> published_port list) list \<Rightarrow> rendered" where
  "renderDeploy plan selinux ports =
     (let start = (case nonempty (an_pod plan) of Some pod \<Rightarrow> [(pod @ ''.pod'', renderPod plan pod ports)] | None \<Rightarrow> [])
      in \<lparr>rd_units = fold (render_component plan selinux ports) (an_components plan) start,
          rd_health = fold render_health (an_components plan) [],
          rd_secrets = dedupeSecrets plan\<rparr>)"

section \<open>What the units say\<close>

text \<open>Deduplication keeps one entry per name, and every name.\<close>

lemma keep_secret_names: "fst ` set (keep_secret s byName) = insert (sec_name s) (fst ` set byName)"
  unfolding keep_secret_def by (auto split: option.split simp: dom_update dest: map_of_SomeD intro: rev_image_eqI)

lemma keep_secret_distinct: "distinct (map fst byName) \<Longrightarrow> distinct (map fst (keep_secret s byName))"
  unfolding keep_secret_def by (auto split: option.split intro: distinct_update)

lemma keep_secret_keyed:
  assumes "\<forall>k s. map_of byName k = Some s \<longrightarrow> sec_name s = k"
  shows "\<forall>k s. map_of (keep_secret x byName) k = Some s \<longrightarrow> sec_name s = k"
  using assms unfolding keep_secret_def by (auto simp: update_conv' split: option.split)

lemma keep_secrets:
  "distinct (map fst byName) \<Longrightarrow> \<forall>k s. map_of byName k = Some s \<longrightarrow> sec_name s = k \<Longrightarrow>
   distinct (map fst (fold keep_secret ss byName)) \<and>
   (\<forall>k s. map_of (fold keep_secret ss byName) k = Some s \<longrightarrow> sec_name s = k) \<and>
   fst ` set (fold keep_secret ss byName) = sec_name ` set ss \<union> fst ` set byName"
proof (induction ss arbitrary: byName)
  case (Cons s ss)
  show ?case
    using Cons.IH[of "keep_secret s byName"] keep_secret_distinct[OF Cons.prems(1)] keep_secret_keyed[OF Cons.prems(2)]
    by (simp add: keep_secret_names)
qed simp

lemma keyed_names:
  assumes "distinct (map fst kvs)" and "\<forall>k s. map_of kvs k = Some s \<longrightarrow> sec_name s = k"
  shows "map sec_name (map snd kvs) = map fst kvs"
proof -
  have "sec_name v = k" if "(k, v) \<in> set kvs" for k v
    using assms that by simp
  then show ?thesis by (auto simp: comp_def intro!: map_cong[OF refl])
qed

lemma dedupeSecrets_names:
  "distinct (map sec_name (dedupeSecrets plan))"
  "sec_name ` set (dedupeSecrets plan) = sec_name ` (\<Union>c \<in> set (an_components plan). set (cm_secrets c))"
proof -
  let ?ss = "flat_map cm_secrets (an_components plan)" and ?k = "fold keep_secret (flat_map cm_secrets (an_components plan)) []"
  have k: "distinct (map fst ?k)" "\<forall>k s. map_of ?k k = Some s \<longrightarrow> sec_name s = k" "fst ` set ?k = sec_name ` set ?ss"
    using keep_secrets[of "[]" ?ss] by auto
  have names: "map sec_name (dedupeSecrets plan) = map fst ?k"
    unfolding dedupeSecrets_def by (rule keyed_names[OF k(1,2)])
  show "distinct (map sec_name (dedupeSecrets plan))" unfolding names by (rule k(1))
  have "set (map sec_name (dedupeSecrets plan)) = sec_name ` set ?ss" unfolding names using k(3) by simp
  then show "sec_name ` set (dedupeSecrets plan) = sec_name ` (\<Union>c \<in> set (an_components plan). set (cm_secrets c))"
    by (simp add: flat_map_def)
qed

end
