(* ===== verification/App_Scripts.thy ===== *)
theory App_Scripts
  imports Quadlet_Render
begin

text \<open>
  The shell scripts of src/src/apps/app-scripts.ts, run on a host over SSH, and the probe that names
  the volumes and secrets already there (src/src/apps/app-data-guard.ts).
\<close>

definition SYSTEM_UNIT_DIR :: string where
  "SYSTEM_UNIT_DIR = ''/etc/systemd/system''"

definition appUnitDir :: "string \<Rightarrow> string" where
  "appUnitDir app = ''/etc/containers/systemd/vops/'' @ app"

text \<open>A word in single quotes, every quote in it written \<open>'\''\<close>.\<close>

definition shq :: "string \<Rightarrow> string" where
  "shq v = CHR 0x27 # flat_map (\<lambda>c. if c = CHR 0x27 then [CHR 0x27, CHR 0x5C, CHR 0x27, CHR 0x27] else [c]) v @ [CHR 0x27]"

definition heredoc :: "string \<Rightarrow> string \<Rightarrow> nat \<Rightarrow> string" where
  "heredoc path content i = (let tag = ''VOPS_UNIT_EOF_'' @ show_nat i in
     (''cat > '' @ shq path @ '' <<'' @ single_quoted tag) @ nl @ content @ nl @ tag)"

definition buildPreflightScript :: string where
  "buildPreflightScript = join nl [
     ''set +e'',
     (''echo '' @ single_quoted ''@@podman''),
     ''command -v podman >/dev/null 2>&1 && podman --version 2>/dev/null || echo MISSING'',
     (''echo '' @ single_quoted ''@@quadlet''),
     (''for g in /usr/local/lib/systemd/system-generators/podman-system-generator /usr/lib/systemd/system-generators/podman-system-generator /usr/local/libexec/podman/quadlet /usr/libexec/podman/quadlet; do test -x '' @ dq ''$g'' @ '' && { echo '' @ dq ''$g'' @ ''; break; }; done; true''),
     (''echo '' @ single_quoted ''@@k3s''),
     ''systemctl is-active k3s 2>/dev/null || systemctl is-active k3s-server 2>/dev/null || echo inactive'',
     (''echo '' @ single_quoted ''@@selinux''),
     ''if command -v selinuxenabled >/dev/null 2>&1 && selinuxenabled; then echo yes; else echo no; fi'',
     (''echo '' @ single_quoted ''@@arch''),
     ''uname -m'',
     (''echo '' @ single_quoted ''@@ports''),
     (''ss -ltnH 2>/dev/null | awk '' @ single_quoted ''{print $4}'' @ '' || netstat -ltn 2>/dev/null | awk '' @ single_quoted ''NR>2{print $4}''),
     (''echo '' @ single_quoted ''@@diskkb''),
     (''df -Pk /var 2>/dev/null | awk '' @ single_quoted ''NR==2{print $4}''),
     (''echo '' @ single_quoted ''@@networks''),
     (''podman network ls --format '' @ single_quoted ''{{.Name}}'' @ '' 2>/dev/null''),
     (''echo '' @ single_quoted ''@@done'')]"

section \<open>Deploying\<close>

record secret_material =
  mt_name :: string
  mt_generate :: "(nat \<times> secret_format) option"
  mt_value :: "string option"

record registry_login =
  rl_host :: string
  rl_user :: string
  rl_token :: string

record deploy_input =
  dpi_dir :: string
  dpi_units :: "(string \<times> string) list"
  dpi_health :: "(string \<times> string) list"
  dpi_secrets :: "secret_material list"
  dpi_services :: "string list"
  dpi_prereq :: "string list"
  dpi_generator :: string
  dpi_registry :: "registry_login option"

definition prereqServiceNames :: "string option \<Rightarrow> string list \<Rightarrow> string list" where
  "prereqServiceNames pod volumes = map (\<lambda>v. v @ ''-volume.service'') volumes @
     (case nonempty pod of Some p \<Rightarrow> [p @ ''-pod.service''] | None \<Rightarrow> [])"

definition registryLogin :: "registry_login option \<Rightarrow> string list" where
  "registryLogin r = (case r of None \<Rightarrow> [] | Some l \<Rightarrow> [
     (''printf %s '' @ shq (rl_token l) @ '' | podman login '' @ shq (rl_host l) @ '' -u '' @ shq (rl_user l) @ '' --password-stdin >/dev/null 2>&1 || '') @
     (''{ echo '' @ single_quoted ''@@error'' @ ''; echo '' @ dq (''podman login '' @ rl_host l @ '' failed (check the token scope: it needs read access to packages)'') @ ''; exit 5; }'')])"

definition ensureSecret :: "secret_material \<Rightarrow> string" where
  "ensureSecret s = (let n = shq (mt_name s);
       create = (case mt_generate s of
           Some (len, f) \<Rightarrow> (''LC_ALL=C tr -dc '' @ single_quoted ((if f = Hex_Format then ''a-f0-9'' else ''a-zA-Z0-9'')) @ '' </dev/urandom | head -c '' @ show_nat len @ '' | podman secret create '' @ n @ '' - >/dev/null 2>&1'')
         | None \<Rightarrow> (''printf %s '' @ shq (or_default (mt_value s) []) @ '' | podman secret create '' @ n @ '' - >/dev/null 2>&1''))
     in (''podman secret inspect '' @ n @ '' >/dev/null 2>&1 || { '' @ create @ ''; }''))"

definition diagLine :: "string \<Rightarrow> string" where
  "diagLine s = (let q = shq s in
     (''if [ '' @ dq (''$(systemctl is-active '' @ q @ '' 2>/dev/null)'') @ '' != active ]; then '') @
     (''R=$(systemctl show -p Result --value '' @ q @ '' 2>/dev/null); echo '' @ dq (''### '' @ s @ '' (result=${R:-unknown})'') @ ''; '') @
     (''[ '' @ dq ''$R'' @ '' = timeout ] && echo '' @ dq (s @ '' never signalled readiness within TimeoutStartSec='' @ show_nat START_TIMEOUT_SEC @ ''s'') @ ''; '') @
     (''journalctl -u '' @ q @ '' -n 12 --no-pager 2>&1 | tail -12; fi''))"

text \<open>The units, numbered from \<open>n\<close>.\<close>

definition unit_files :: "string \<Rightarrow> nat \<Rightarrow> (string \<times> string) list \<Rightarrow> string list" where
  "unit_files dir n files = map (\<lambda>((name, content), i). heredoc (dir @ ''/'' @ name) content i) (zip files [n..<n + length files])"

definition dry_run_lines :: "deploy_input \<Rightarrow> string list" where
  "dry_run_lines input = (let dir = shq (dpi_dir input); gen = shq (dpi_generator input) in
     [(''DRY=$(QUADLET_UNIT_DIRS='' @ dir @ '' '' @ gen @ '' --dryrun 2>&1) || { echo '' @ single_quoted ''@@error'' @ ''; echo '' @ dq ''quadlet dry-run failed'' @ ''; echo '' @ dq ''$DRY'' @ ''; exit 3; }'')] @
     map (\<lambda>s. (''echo '' @ dq ''$DRY'' @ '' | grep -q '' @ shq s @ '' || { echo '' @ single_quoted ''@@error'' @ ''; echo '' @ dq (''quadlet skipped '' @ s @ '' (bad unit)'') @ ''; echo '' @ dq ''$DRY'' @ ''; exit 4; }'')) (dpi_services input))"

definition start_lines :: "deploy_input \<Rightarrow> string list" where
  "start_lines input = (let timers = filter (\<lambda>n. ends_with n ''.timer'') (map fst (dpi_health input)) in
     map (\<lambda>p. (''systemctl reset-failed '' @ shq p @ '' 2>/dev/null; systemctl restart '' @ shq p @ '' >/dev/null 2>&1'')) (dpi_prereq input) @
     [(''echo '' @ single_quoted ''@@started'')] @
     map (\<lambda>s. (''systemctl reset-failed '' @ shq s @ '' 2>/dev/null; systemctl restart '' @ shq s @ '' >/dev/null 2>&1; '') @
          (''echo '' @ dq (s @ ''=$(systemctl is-active '' @ shq s @ '' 2>/dev/null)''))) (dpi_services input) @
     map (\<lambda>t. (''systemctl enable '' @ shq t @ '' >/dev/null 2>&1; systemctl restart '' @ shq t @ '' >/dev/null 2>&1'')) timers)"

definition buildDeployScript :: "deploy_input \<Rightarrow> string" where
  "buildDeployScript input = join nl (
     [''set -e'', (''mkdir -p '' @ shq (dpi_dir input))] @
     unit_files (dpi_dir input) 0 (dpi_units input) @
     unit_files SYSTEM_UNIT_DIR (length (dpi_units input)) (dpi_health input) @
     registryLogin (dpi_registry input) @
     [''set +e''] @ map ensureSecret (dpi_secrets input) @ [''set -e''] @
     dry_run_lines input @
     [''systemctl daemon-reload'', ''set +e''] @
     start_lines input @
     [(''echo '' @ single_quoted ''@@diag'')] @ map diagLine (dpi_prereq input @ dpi_services input) @ [(''echo '' @ single_quoted ''@@ok'')])"

section \<open>Pulling images\<close>

definition pullBudgetSeconds :: "nat \<Rightarrow> nat" where
  "pullBudgetSeconds imageCount = min 2400 (600 * max 1 imageCount)"

definition buildPullScript :: "string list \<Rightarrow> registry_login option \<Rightarrow> string" where
  "buildPullScript declared registry = (let images = uniq declared in join nl (
     [''set +e''] @ registryLogin registry @ [
     (''deadline=$(( $(date +%s) + '' @ show_nat (pullBudgetSeconds (length images)) @ '' ))''),
     ''TMO=; command -v timeout >/dev/null 2>&1 && TMO=1'',
     ''vops_pull() {'',
     (''  if podman image exists '' @ dq ''$1'' @ ''; then echo '' @ dq ''local $1'' @ ''; return; fi''),
     ''  left=$(( deadline - $(date +%s) ))'',
     (''  [ '' @ dq ''$left'' @ '' -lt 5 ] && left=5''),
     (''  if [ -n '' @ dq ''$TMO'' @ '' ]; then timeout '' @ dq ''$left'' @ '' podman pull -q '' @ dq ''$1'' @ '' >/dev/null 2>&1;''),
     (''  else podman pull -q '' @ dq ''$1'' @ '' >/dev/null 2>&1; fi''),
     (''  if [ $? -eq 0 ]; then echo '' @ dq ''pulled $1'' @ ''; else echo '' @ dq ''failed $1'' @ ''; fi''),
     ''}'',
     (''echo '' @ single_quoted ''@@pull'')] @
     map (\<lambda>img. (''vops_pull '' @ shq img)) images @ [(''echo '' @ single_quoted ''@@done'')]))"

section \<open>Removing\<close>

record remove_input =
  rmi_dir :: string
  rmi_services :: "string list"
  rmi_prereq :: "string list"
  rmi_containers :: "string list"
  rmi_pod :: "string option"
  rmi_secrets :: "string list"
  rmi_volumes :: "string list"
  rmi_purge :: bool

definition boundedStop :: "string \<Rightarrow> string" where
  "boundedStop s = (let q = shq s in
     (''if command -v timeout >/dev/null 2>&1; then timeout 12 systemctl stop '' @ q @ ''; else systemctl stop '' @ q @ ''; fi >/dev/null 2>&1; '') @
     (''systemctl kill -s SIGKILL '' @ q @ '' >/dev/null 2>&1; systemctl reset-failed '' @ q @ '' 2>/dev/null''))"

definition healthTeardown :: "string \<Rightarrow> string list" where
  "healthTeardown container = (let timer = healthTimerUnit container;
       paths = map (\<lambda>u. shq (SYSTEM_UNIT_DIR @ ''/'' @ u)) [timer, healthServiceUnit container]
     in [(''systemctl disable --now '' @ shq timer @ '' >/dev/null 2>&1''), (''rm -f '' @ join '' '' paths)])"

definition buildRemoveScript :: "remove_input \<Rightarrow> string" where
  "buildRemoveScript i = join nl (
     [''set +e''] @ map boundedStop (rev (rmi_services i) @ rmi_prereq i) @ flat_map healthTeardown (rmi_containers i) @
     [(''rm -rf '' @ shq (rmi_dir i)), ''systemctl daemon-reload''] @
     (case nonempty (rmi_pod i) of Some p \<Rightarrow> [(''podman pod rm -f '' @ shq p @ '' >/dev/null 2>&1'')] | None \<Rightarrow> []) @
     map (\<lambda>c. (''podman rm -f '' @ shq c @ '' >/dev/null 2>&1'')) (rmi_containers i) @
     (if rmi_purge i then map (\<lambda>s. (''podman secret rm '' @ shq s @ '' >/dev/null 2>&1'')) (rmi_secrets i) else []) @
     (if rmi_purge i then map (\<lambda>v. (''podman volume rm '' @ shq v @ '' >/dev/null 2>&1'')) (rmi_volumes i) else []) @
     [(''echo '' @ single_quoted ''@@removed''), if rmi_purge i then ''echo purged'' else ''echo kept-data''])"

section \<open>Watching\<close>

definition statusTrailerLines :: "string \<Rightarrow> string list \<Rightarrow> string list" where
  "statusTrailerLines app services = [(''echo '' @ single_quoted ''@@units'')] @
     map (\<lambda>s. (''echo '' @ dq (s @ ''|$(systemctl is-active '' @ shq s @ '' 2>/dev/null)|$(systemctl show -p SubState --value '' @ shq s @ '' 2>/dev/null)''))) services @
     [(''echo '' @ single_quoted ''@@containers''),
      (''podman ps -a --filter name=vops-'' @ app @ ''- --format '' @ single_quoted ''{{.Names}}|{{.Status}}|{{.Image}}'' @ '' 2>/dev/null'')]"

definition buildStatusScript :: "string \<Rightarrow> string list \<Rightarrow> string" where
  "buildStatusScript app services = join nl ([''set +e''] @ statusTrailerLines app services)"

definition buildRestartScript :: "string \<Rightarrow> string list \<Rightarrow> string" where
  "buildRestartScript app services = join nl ([''set +e''] @
     map (\<lambda>s. (''systemctl restart '' @ shq s @ '' >/dev/null 2>&1'')) services @ [''sleep 1''] @ statusTrailerLines app services)"

definition deadlineLoopHead :: "nat \<Rightarrow> string list" where
  "deadlineLoopHead budget = [(''deadline=$(( $(date +%s) + '' @ show_nat (max 1 budget) @ '' ))''), ''while :; do'']"

definition deadlineLoopTail :: "string list" where
  "deadlineLoopTail = [(''  [ '' @ dq ''$(date +%s)'' @ '' -ge '' @ dq ''$deadline'' @ '' ] && break''), ''  sleep 5'', ''done'']"

definition buildSmokeHttpScript :: "nat \<Rightarrow> string \<Rightarrow> nat \<Rightarrow> nat \<Rightarrow> string" where
  "buildSmokeHttpScript port path expect budget = (let p = (if starts_with path ''/'' then path else ''/'' @ path) in join nl (
     [''set +e'', (''echo '' @ single_quoted ''@@http'')] @ deadlineLoopHead budget @ [
     (''  code=$(curl -s -o /dev/null -w '' @ single_quoted ''%{http_code}'' @ '' --max-time 5 http://127.0.0.1:'' @ show_nat port @ p @ '' 2>/dev/null)''),
     (''  case '' @ dq ''$code'' @ '' in '' @ show_nat expect @ ''|2??|3??) echo '' @ dq ''$code'' @ ''; exit 0;; esac'')] @ deadlineLoopTail @
     [(''echo '' @ dq ''${code:-000}'')]))"

definition buildSmokeTcpScript :: "nat \<Rightarrow> nat \<Rightarrow> string" where
  "buildSmokeTcpScript port budget = join nl (
     [''set +e'', (''echo '' @ single_quoted ''@@tcp'')] @ deadlineLoopHead budget @ [
     (''  if timeout 3 bash -c '' @ dq (''echo > /dev/tcp/127.0.0.1/'' @ show_nat port) @ '' 2>/dev/null; then echo open; exit 0; fi'')] @
     deadlineLoopTail @ [''echo closed''])"

definition buildLogsScript :: "string \<Rightarrow> nat \<Rightarrow> string" where
  "buildLogsScript container n = (''podman logs --tail '' @ show_nat (max 1 (min 2000 n)) @ '' '' @ shq container @ '' 2>&1 || true'')"

definition buildDiagScript :: "string \<Rightarrow> string \<Rightarrow> string" where
  "buildDiagScript app primaryContainer = join nl [
     ''set +e'',
     (''echo '' @ single_quoted ''@@ps''),
     (''podman ps -a --filter name=vops-'' @ app @ ''- --format '' @ single_quoted ''{{.Names}} | {{.Status}} | {{.Ports}}'' @ '' 2>&1''),
     (''echo '' @ single_quoted ''@@log''),
     (''podman logs --tail 25 '' @ shq primaryContainer @ '' 2>&1 | tail -25'')]"

section \<open>What was there before\<close>

text \<open>Whether the probe came to its end, and the volumes and secrets it found.\<close>

record host_data =
  hd_ran :: bool
  hd_volumes :: "string list"
  hd_secrets :: "string list"

definition UNPROBED_DATA :: host_data where
  "UNPROBED_DATA = \<lparr>hd_ran = False, hd_volumes = [], hd_secrets = []\<rparr>"

definition buildDataProbeScript :: "string list \<Rightarrow> string list \<Rightarrow> string" where
  "buildDataProbeScript volumes secrets = join nl (
     [''set +e'', (''echo '' @ single_quoted ''@@existing'')] @
     map (\<lambda>v. (''podman volume inspect '' @ shq v @ '' >/dev/null 2>&1 && printf '' @ single_quoted (''volume %s'' @ [CHR 0x5C] @ ''n'') @ '' '' @ shq v)) volumes @
     map (\<lambda>s. (''podman secret inspect '' @ shq s @ '' >/dev/null 2>&1 && printf '' @ single_quoted (''secret %s'' @ [CHR 0x5C] @ ''n'') @ '' '' @ shq s)) secrets @
     [(''echo '' @ single_quoted ''@@done'')])"

definition probe_lines :: "string \<Rightarrow> string list option" where
  "probe_lines stdout = (case index_of stdout ''@@existing'' of
       None \<Rightarrow> None
     | Some start \<Rightarrow> (case index_of (drop (Suc start) stdout) ''@@done'' of
         None \<Rightarrow> None
       | Some k \<Rightarrow> let upto = Suc start + k;
                       from = (case index_of (drop start stdout) nl of None \<Rightarrow> 0 | Some n \<Rightarrow> Suc (start + n))
                   in Some (text_lines (take (upto - from) (drop from stdout)))))"

definition named_lines :: "string list \<Rightarrow> string \<Rightarrow> string list" where
  "named_lines ls p = map (\<lambda>l. trim (drop (length p) l)) (filter (\<lambda>l. starts_with l p) ls)"

definition parseDataProbe :: "string \<Rightarrow> host_data" where
  "parseDataProbe stdout = (case probe_lines stdout of
       None \<Rightarrow> UNPROBED_DATA
     | Some ls \<Rightarrow> \<lparr>hd_ran = True, hd_volumes = named_lines ls ''volume '', hd_secrets = named_lines ls ''secret ''\<rparr>)"

text \<open>What this run brought into existence: the volumes and the secrets a rollback may remove.\<close>

definition dataCreatedInRun :: "string list \<Rightarrow> string list \<Rightarrow> host_data \<Rightarrow> string list \<times> string list" where
  "dataCreatedInRun volumes secrets pre = (if \<not> hd_ran pre then ([], [])
     else (filter (\<lambda>v. v \<notin> set (hd_volumes pre)) volumes, filter (\<lambda>s. s \<notin> set (hd_secrets pre)) secrets))"

definition reusedDataNote :: "host_data \<Rightarrow> string" where
  "reusedDataNote pre = (if hd_volumes pre = [] \<and> hd_secrets pre = [] then []
     else (let what = join '', '' (map (\<lambda>v. ''volume '' @ v) (hd_volumes pre) @ map (\<lambda>s. ''secret '' @ s) (hd_secrets pre));
               commands = join '' && ''
                 ((if hd_volumes pre \<noteq> [] then [''podman volume rm '' @ join '' '' (hd_volumes pre)] else []) @
                  (if hd_secrets pre \<noteq> [] then [''podman secret rm '' @ join '' '' (hd_secrets pre)] else []))
           in ''This install reused app data that was already on the host and was not created by it: '' @ what @ ''. '' @
              (''A datadir left by an earlier install carries that install'' @ [CHR 0x27] @ ''s credentials, so the app can fail '') @
              ''on every retry with no other sign of why. To start from a clean datadir, run on the host: '' @
              (''sudo sh -c '' @ single_quoted commands @ '' - that DELETES the data.'')))"

end
