(* ===== verification/Deploy_Plan.thy ===== *)
theory Deploy_Plan
  imports App_Scripts
begin

text \<open>
  Binding the plan of an application to a host (src/src/apps/app-plan.ts): the choice of host ports
  around the ports in use and the ports other installs own, the origin the environment refers to,
  the units, and the order in which they start.
\<close>

section \<open>Ports\<close>

record host_plan =
  hp_dir :: string
  hp_coexistence :: bool
  hp_ports :: "(string \<times> published_port list) list"
  hp_units :: "(string \<times> string) list"
  hp_health :: "(string \<times> string) list"
  hp_secrets :: "app_secret list"
  hp_services :: "string list"
  hp_prereq :: "string list"
  hp_volumes :: "string list"
  hp_pod :: "string option"
  hp_endpoints :: "app_endpoint list"

text \<open>The ports the ledger accounts for: this application's, by component, and those of the others.\<close>

record reservations =
  rv_own :: "(string \<times> published_port list) list"
  rv_others :: "nat list"

record bind_ctx =
  bc_coexistence :: bool
  bc_address :: string
  bc_ingress :: "ingress_binding option"
  bc_publish :: publish_intent
  bc_own :: "(string \<times> nat) list"

definition PUBLISH_BIND :: string where
  "PUBLISH_BIND = ''0.0.0.0''"

definition LOOPBACK_BIND :: string where
  "LOOPBACK_BIND = ''127.0.0.1''"

definition portKey :: "string \<Rightarrow> nat \<Rightarrow> string" where
  "portKey c p = c @ ''#'' @ show_nat p"

definition ownPorts :: "(string \<times> published_port list) list \<Rightarrow> (string \<times> nat) list" where
  "ownPorts previous = fold (\<lambda>(k, h). AList.update k h)
     (flat_map (\<lambda>(c, ports). map (\<lambda>p. (portKey c (pp_container p), pp_host p)) ports) previous) []"

definition keptPort :: "bind_ctx \<Rightarrow> string \<Rightarrow> app_port \<Rightarrow> nat option" where
  "keptPort ctx c p = (case map_of (bc_own ctx) (portKey c (ap_container p)) of
       None \<Rightarrow> None
     | Some port \<Rightarrow> if bc_ingress ctx \<noteq> None \<and> (port = 80 \<or> port = 443) then None
         else if bc_coexistence ctx \<and> port < 1024 then None else Some port)"

definition routeFor :: "string \<Rightarrow> app_port \<Rightarrow> ingress_binding option \<Rightarrow> ingress_route option" where
  "routeFor c p ingress = (case ingress of None \<Rightarrow> None
     | Some i \<Rightarrow> find (\<lambda>r. ir_component r = c \<and> ir_container r = ap_container p) (ib_routes i))"

definition reachFor :: "bool \<Rightarrow> bool \<Rightarrow> reach" where
  "reachFor routed isPublic = (if routed then Reach_Ingress else if isPublic then Reach_Public else Reach_Loopback)"

definition endpointUrl :: "ingress_route option \<Rightarrow> app_port \<Rightarrow> nat \<Rightarrow> bind_ctx \<Rightarrow> bool \<Rightarrow> string" where
  "endpointUrl route p h ctx isPublic = (case (route, bc_ingress ctx) of
       (Some r, Some i) \<Rightarrow> (if ib_tls i then ''https'' else ''http'') @ ''://'' @ ib_hostname i @
          (if ir_path r = ''/'' then [] else ir_path r)
     | _ \<Rightarrow> (if ap_protocol p = Http_Port then ''http'' else ''tcp'') @ ''://'' @
          (if isPublic then bc_address ctx else LOOPBACK_BIND) @ '':'' @ show_nat h)"

definition is_public :: "bind_ctx \<Rightarrow> string \<Rightarrow> app_port \<Rightarrow> bool" where
  "is_public ctx c p \<longleftrightarrow> bc_publish ctx = Public \<or>
     routeFor c p (bc_ingress ctx) \<noteq> None \<and> (case bc_ingress ctx of Some i \<Rightarrow> ib_direct i | None \<Rightarrow> False)"

text \<open>One exposed port: the binding, its endpoint, and the ports in use afterwards.\<close>

definition bindExposedPort :: "bind_ctx \<Rightarrow> nat list \<Rightarrow> string \<Rightarrow> app_port \<Rightarrow>
    failure + (published_port \<times> app_endpoint) \<times> nat list" where
  "bindExposedPort ctx used c p =
     (let route = routeFor c p (bc_ingress ctx); public = is_public ctx c p;
          bound = (\<lambda>h. (\<lparr>pp_host = h, pp_container = ap_container p, pp_bind = (if public then PUBLISH_BIND else LOOPBACK_BIND)\<rparr>,
             \<lparr>ep_component = c, ep_port = h, ep_url = endpointUrl route p h ctx public,
              ep_reach = Some (reachFor (route \<noteq> None) public)\<rparr>))
      in case keptPort ctx c p of
           Some h \<Rightarrow> Inr (bound h, used)
         | None \<Rightarrow> (case allocatePort (ap_container p) used (bc_coexistence ctx) (route \<noteq> None) of
             Inl e \<Rightarrow> Inl e
           | Inr h \<Rightarrow> Inr (bound h, h # used)))"

fun bind_ports :: "bind_ctx \<Rightarrow> nat list \<Rightarrow> string \<Rightarrow> app_port list \<Rightarrow>
    failure + (published_port \<times> app_endpoint) list \<times> nat list" where
  "bind_ports ctx used c [] = Inr ([], used)"
| "bind_ports ctx used c (p # ps) =
     (if \<not> ap_expose p then bind_ports ctx used c ps
      else (case bindExposedPort ctx used c p of
          Inl e \<Rightarrow> Inl e
        | Inr (b, used') \<Rightarrow> (case bind_ports ctx used' c ps of
            Inl e \<Rightarrow> Inl e
          | Inr (bs, u) \<Rightarrow> Inr (b # bs, u))))"

fun bind_components :: "bind_ctx \<Rightarrow> nat list \<Rightarrow> app_component list \<Rightarrow>
    failure + (string \<times> (published_port \<times> app_endpoint) list) list" where
  "bind_components ctx used [] = Inr []"
| "bind_components ctx used (c # cs) =
     (case bind_ports ctx used (cm_name c) (cm_ports c) of
        Inl e \<Rightarrow> Inl e
      | Inr (bs, u) \<Rightarrow> (case bind_components ctx u cs of
          Inl e \<Rightarrow> Inl e
        | Inr rest \<Rightarrow> Inr ((cm_name c, bs) # rest)))"

text \<open>The ports in use: what listens, what this and the other installs own, 80 and 443 beside an ingress.\<close>

definition ports_taken :: "host_facts \<Rightarrow> ingress_binding option \<Rightarrow> reservations \<Rightarrow> nat list" where
  "ports_taken facts ingress rv = hf_ports facts @ map snd (ownPorts (rv_own rv)) @ rv_others rv @
     (if ingress \<noteq> None then [80, 443] else [])"

section \<open>The origin of the application\<close>

definition token :: "string \<Rightarrow> re" where
  "token n = Seq (lit ''{{'') (Seq (up_to 8 (Cls is_space)) (Seq (lit n) (Seq (up_to 8 (Cls is_space)) (lit ''}}''))))"

definition loopbackAuthority :: "app_plan \<Rightarrow> (string \<times> published_port list) list \<Rightarrow> string" where
  "loopbackAuthority plan ports =
     (let http = Option.bind (component_at plan (an_primary plan))
                   (\<lambda>c. find (\<lambda>p. ap_expose p \<and> ap_protocol p = Http_Port) (cm_ports c));
          published = ports_of ports (an_primary plan);
          pub = (case find (\<lambda>p. map_option ap_container http = Some (pp_container p)) published of
                   Some p \<Rightarrow> Some p | None \<Rightarrow> find (\<lambda>_. True) published)
      in case pub of Some p \<Rightarrow> LOOPBACK_BIND @ '':'' @ show_nat (pp_host p) | None \<Rightarrow> LOOPBACK_BIND)"

definition resolve_origin :: "string \<Rightarrow> string \<Rightarrow> string \<Rightarrow> string" where
  "resolve_origin scheme authority v =
     replace_all (token ''app.scheme'') Eps (\<lambda>_. scheme)
       (replace_all (opt (alts [lit ''https://'', lit ''http://''])) (token ''app.domain'')
          (\<lambda>written. if written \<noteq> [] then scheme @ ''://'' @ authority else authority) v)"

definition substituteAppDomain :: "app_plan \<Rightarrow> ingress_binding option \<Rightarrow> (string \<times> published_port list) list \<Rightarrow> app_plan" where
  "substituteAppDomain plan ingress ports =
     (let scheme = (case ingress of Some i \<Rightarrow> if ib_tls i then ''https'' else ''http'' | None \<Rightarrow> ''http'');
          authority = (case ingress of Some i \<Rightarrow> ib_hostname i | None \<Rightarrow> loopbackAuthority plan ports);
          comps = map (\<lambda>c. c\<lparr>cm_env := map (\<lambda>e. e\<lparr>en_value := resolve_origin scheme authority (en_value e)\<rparr>) (cm_env c)\<rparr>)
                    (an_components plan);
          note = (if ingress = None \<and> an_needs_domain plan
            then [''No --domain given -> '' @ an_name plan @ '' is configured for http://'' @ authority @
                  '' (loopback only). Run `vops app expose '' @ an_name plan @ '' --domain <host>` to give it a public hostname.'']
            else [])
      in plan\<lparr>an_components := comps, an_warnings := an_warnings plan @ note\<rparr>)"

section \<open>The order of the services\<close>

text \<open>
  Rounds over the components that remain: those none of whose dependencies remain, or all of them
  when there are none such.
\<close>

definition ready_names :: "(string \<times> string list) list \<Rightarrow> string list" where
  "ready_names remaining = map fst (filter (\<lambda>(n, deps). list_all (\<lambda>d. d \<notin> fst ` set remaining) deps) remaining)"

definition next_batch :: "(string \<times> string list) list \<Rightarrow> string list" where
  "next_batch remaining = (if ready_names remaining \<noteq> [] then ready_names remaining else map fst remaining)"

lemma next_batch_some: "remaining \<noteq> [] \<Longrightarrow> next_batch remaining \<noteq> [] \<and> set (next_batch remaining) \<subseteq> fst ` set remaining"
  by (auto simp: next_batch_def ready_names_def)

lemma batch_shrinks:
  assumes "remaining \<noteq> []"
  shows "length (filter (\<lambda>(n, deps). n \<notin> set (next_batch remaining)) remaining) < length remaining"
proof -
  obtain n where "n \<in> set (next_batch remaining)" using next_batch_some[OF assms] by (cases "next_batch remaining") auto
  then obtain deps where "(n, deps) \<in> set remaining" using next_batch_some[OF assms] by auto
  with \<open>n \<in> set (next_batch remaining)\<close> show ?thesis by (auto intro!: length_filter_less)
qed

function order_from :: "(string \<times> string list) list \<Rightarrow> string list" where
  "order_from remaining = (if remaining = [] then []
     else next_batch remaining @ order_from (filter (\<lambda>(n, deps). n \<notin> set (next_batch remaining)) remaining))"
  by pat_completeness auto
termination
  by (relation "measure length") (use batch_shrinks in auto)

declare order_from.simps [simp del]

definition dependency_map :: "app_plan \<Rightarrow> (string \<times> string list) list" where
  "dependency_map plan = fold (\<lambda>c. AList.update (cm_name c) (uniq (cm_depends c))) (an_components plan) []"

definition unit_of :: "app_plan \<Rightarrow> string \<Rightarrow> string" where
  "unit_of plan n = (case component_at plan n of Some c \<Rightarrow> cm_container c | None \<Rightarrow> []) @ ''.service''"

definition orderServices :: "app_plan \<Rightarrow> string list" where
  "orderServices plan = map (unit_of plan) (order_from (dependency_map plan))"

section \<open>The plan on the host\<close>

definition planHostDeploy :: "app_plan \<Rightarrow> host_facts \<Rightarrow> string \<Rightarrow> ingress_binding option \<Rightarrow> publish_intent \<Rightarrow> reservations \<Rightarrow>
    failure + host_plan \<times> app_plan" where
  "planHostDeploy plan0 facts hostAddress ingress publish rv =
     (let ctx = \<lparr>bc_coexistence = hf_k3s facts, bc_address = hostAddress, bc_ingress = ingress, bc_publish = publish,
                 bc_own = ownPorts (rv_own rv)\<rparr>
      in case bind_components ctx (ports_taken facts ingress rv) (an_components plan0) of
           Inl e \<Rightarrow> Inl e
         | Inr bound \<Rightarrow>
             (let ports = fold (\<lambda>(n, bs). AList.update n (map fst bs)) bound [];
                  plan = substituteAppDomain plan0 ingress ports;
                  rendered = renderDeploy plan (hf_selinux facts) ports;
                  volumes = flat_map (\<lambda>c. map av_volume (cm_volumes c)) (an_components plan)
              in Inr (\<lparr>hp_dir = appUnitDir (an_name plan), hp_coexistence = hf_k3s facts, hp_ports = ports,
                       hp_units = rd_units rendered, hp_health = rd_health rendered, hp_secrets = rd_secrets rendered,
                       hp_services = orderServices plan, hp_prereq = prereqServiceNames (an_pod plan) volumes,
                       hp_volumes = volumes, hp_pod = an_pod plan,
                       hp_endpoints = flat_map (\<lambda>(n, bs). map snd bs) bound\<rparr>, plan)))"

section \<open>What the order keeps\<close>

lemma order_from_unfold:
  "remaining \<noteq> [] \<Longrightarrow> order_from remaining =
     next_batch remaining @ order_from (filter (\<lambda>(n, deps). n \<notin> set (next_batch remaining)) remaining)"
  by (subst order_from.simps) simp

lemma order_from_Nil [simp]: "order_from [] = []"
  by (subst order_from.simps) simp

lemma order_from_set: "set (order_from remaining) = fst ` set remaining"
proof (induction remaining rule: order_from.induct)
  case (1 remaining)
  show ?case
  proof (cases "remaining = []")
    case False
    let ?rest = "filter (\<lambda>(n, deps). n \<notin> set (next_batch remaining)) remaining"
    have "fst ` set remaining = set (next_batch remaining) \<union> fst ` set ?rest"
      using next_batch_some[OF False] by force
    then show ?thesis using 1 False by (simp add: order_from_unfold)
  qed simp
qed

lemma next_batch_distinct: "distinct (map fst remaining) \<Longrightarrow> distinct (next_batch remaining)"
  by (auto simp: next_batch_def ready_names_def intro: distinct_map_filter)

lemma order_from_distinct: "distinct (map fst remaining) \<Longrightarrow> distinct (order_from remaining)"
proof (induction remaining rule: order_from.induct)
  case (1 remaining)
  show ?case
  proof (cases "remaining = []")
    case False
    let ?rest = "filter (\<lambda>(n, deps). n \<notin> set (next_batch remaining)) remaining"
    have "distinct (map fst ?rest)" using 1(2) by (rule distinct_map_filter)
    moreover have "set (next_batch remaining) \<inter> fst ` set ?rest = {}" by auto
    ultimately show ?thesis using 1 False next_batch_distinct[OF 1(2)]
      by (simp add: order_from_unfold order_from_set)
  qed simp
qed

text \<open>A rank that falls along the dependencies: without cycles, some component is always ready.\<close>

definition ranked :: "(string \<Rightarrow> nat) \<Rightarrow> (string \<times> string list) list \<Rightarrow> bool" where
  "ranked rank remaining \<longleftrightarrow> (\<forall>(n, deps) \<in> set remaining. \<forall>d \<in> set deps. d \<in> fst ` set remaining \<longrightarrow> rank d < rank n)"

lemma ranked_ready:
  assumes "ranked rank remaining" and "remaining \<noteq> []"
  shows "ready_names remaining \<noteq> []"
proof -
  let ?ranks = "(rank \<circ> fst) ` set remaining"
  have "Min ?ranks \<in> ?ranks" using assms(2) by (intro Min_in) auto
  then obtain x where x0: "x \<in> set remaining" "rank (fst x) = Min ?ranks" by auto
  have "rank (fst x) \<le> rank (fst y)" if "y \<in> set remaining" for y
    unfolding x0(2) using that by (intro Min_le) auto
  with x0 have x: "x \<in> set remaining" "\<forall>y \<in> set remaining. rank (fst x) \<le> rank (fst y)" by auto
  obtain n deps where nd: "x = (n, deps)" by (cases x)
  have "d \<notin> fst ` set remaining" if d: "d \<in> set deps" for d
  proof
    assume there: "d \<in> fst ` set remaining"
    then obtain y where y: "y \<in> set remaining" "fst y = d" by auto
    have "rank d < rank n" using assms(1) x(1) d there unfolding ranked_def nd by blast
    moreover have "rank n \<le> rank d" using x(2) y by (auto simp: nd)
    ultimately show False by simp
  qed
  then have "(n, deps) \<in> set (filter (\<lambda>(n, deps). list_all (\<lambda>d. d \<notin> fst ` set remaining) deps) remaining)"
    using x(1) by (simp add: nd list_all_iff)
  then have "n \<in> set (ready_names remaining)" unfolding ready_names_def set_map by (rule rev_image_eqI) simp
  then show ?thesis by auto
qed

text \<open>\<open>d\<close> stands before \<open>n\<close> in the list.\<close>

definition before :: "string \<Rightarrow> string \<Rightarrow> string list \<Rightarrow> bool" where
  "before d n xs \<longleftrightarrow> (\<exists>us vs. xs = us @ n # vs \<and> d \<in> set us)"

lemma before_append: "before d n ys \<Longrightarrow> before d n (xs @ ys)"
  unfolding before_def by (metis Un_iff append.assoc set_append)

lemma before_split: "d \<in> set xs \<Longrightarrow> n \<in> set ys \<Longrightarrow> before d n (xs @ ys)"
  unfolding before_def by (metis Un_iff append.assoc set_append split_list)

lemma order_from_before:
  "ranked rank remaining \<Longrightarrow> distinct (map fst remaining) \<Longrightarrow> (n, deps) \<in> set remaining \<Longrightarrow> d \<in> set deps \<Longrightarrow>
   d \<in> fst ` set remaining \<Longrightarrow> before d n (order_from remaining)"
proof (induction remaining rule: order_from.induct)
  case (1 remaining)
  then have some: "remaining \<noteq> []" by auto
  let ?rest = "filter (\<lambda>(n, deps). n \<notin> set (next_batch remaining)) remaining"
  have batch: "next_batch remaining = ready_names remaining"
    using ranked_ready[OF "1.prems"(1) some] by (simp add: next_batch_def)
  have "deps' = deps" if "(n, deps') \<in> set remaining" for deps'
    using "1.prems"(2,3) that by (metis eq_key_imp_eq_value)
  then have n: "n \<notin> set (next_batch remaining)"
    using "1.prems"(4,5) by (auto simp: batch ready_names_def list_all_iff)
  then have in_rest: "(n, deps) \<in> set ?rest" using "1.prems"(3) by auto
  show ?case
  proof (cases "d \<in> set (next_batch remaining)")
    case True
    moreover have "n \<in> set (order_from ?rest)" using in_rest by (force simp: order_from_set)
    ultimately show ?thesis using some by (simp add: order_from_unfold before_split)
  next
    case False
    have "ranked rank ?rest" using "1.prems"(1) by (fastforce simp: ranked_def)
    moreover have "distinct (map fst ?rest)" using "1.prems"(2) by (rule distinct_map_filter)
    moreover have "d \<in> fst ` set ?rest" using "1.prems"(5) False by force
    ultimately have "before d n (order_from ?rest)" using 1(1)[OF some] in_rest "1.prems"(4) by blast
    then show ?thesis using some by (simp add: order_from_unfold before_append)
  qed
qed

lemma dependency_map_keys:
  "distinct (map fst (dependency_map plan))" "fst ` set (dependency_map plan) = cm_name ` set (an_components plan)"
proof -
  have "distinct (map fst kvs) \<Longrightarrow>
      distinct (map fst (fold (\<lambda>c. AList.update (cm_name c) (uniq (cm_depends c))) cs kvs)) \<and>
      fst ` set (fold (\<lambda>c. AList.update (cm_name c) (uniq (cm_depends c))) cs kvs) = cm_name ` set cs \<union> fst ` set kvs"
    for cs :: "app_component list" and kvs
  proof (induction cs arbitrary: kvs)
    case (Cons c cs)
    have "distinct (map fst (AList.update (cm_name c) (uniq (cm_depends c)) kvs))"
      using Cons.prems by (rule distinct_update)
    then show ?case using Cons.IH by (simp add: dom_update)
  qed simp
  from this[of "[]" "an_components plan"]
  show "distinct (map fst (dependency_map plan))" "fst ` set (dependency_map plan) = cm_name ` set (an_components plan)"
    by (auto simp: dependency_map_def)
qed

lemma update_fresh: "k \<notin> fst ` set kvs \<Longrightarrow> AList.update k v kvs = kvs @ [(k, v)]"
  by (induction kvs) auto

lemma fold_update_fresh:
  "distinct (map key xs) \<Longrightarrow> key ` set xs \<inter> fst ` set kvs = {} \<Longrightarrow>
   fold (\<lambda>x. AList.update (key x) (val x)) xs kvs = kvs @ map (\<lambda>x. (key x, val x)) xs"
proof (induction xs arbitrary: kvs)
  case (Cons x xs)
  then have "key ` set xs \<inter> fst ` set (kvs @ [(key x, val x)]) = {}" by auto
  with Cons show ?case by (auto simp: update_fresh)
qed simp

lemma dependency_map_list:
  "distinct (map cm_name (an_components plan)) \<Longrightarrow>
   dependency_map plan = map (\<lambda>c. (cm_name c, uniq (cm_depends c))) (an_components plan)"
  unfolding dependency_map_def
  using fold_update_fresh[where key = cm_name and val = "\<lambda>c. uniq (cm_depends c)" and kvs = "[]"] by simp

definition component_names :: "app_plan \<Rightarrow> string set" where
  "component_names plan = cm_name ` set (an_components plan)"

text \<open>
  C24: Every component is started once, whatever the dependencies say; when they have no cycle, a
  component starts after all the components it depends on.
\<close>

theorem start_order:
  assumes names: "distinct (map cm_name (an_components plan))"
  shows "\<exists>ns. orderServices plan = map (unit_of plan) ns \<and> distinct ns \<and> set ns = component_names plan \<and>
     (\<forall>rank :: string \<Rightarrow> nat.
        (\<forall>c \<in> set (an_components plan). \<forall>d \<in> set (cm_depends c) \<inter> component_names plan. rank d < rank (cm_name c)) \<longrightarrow>
        (\<forall>c \<in> set (an_components plan). \<forall>d \<in> set (cm_depends c) \<inter> component_names plan. before d (cm_name c) ns))"
proof (intro exI conjI allI impI ballI)
  let ?m = "dependency_map plan"
  show "orderServices plan = map (unit_of plan) (order_from ?m)" by (simp add: orderServices_def)
  show "distinct (order_from ?m)" by (rule order_from_distinct[OF dependency_map_keys(1)])
  show "set (order_from ?m) = component_names plan"
    by (simp add: order_from_set dependency_map_keys(2) component_names_def)
  fix rank :: "string \<Rightarrow> nat" and c d
  assume rank: "\<forall>c \<in> set (an_components plan). \<forall>d \<in> set (cm_depends c) \<inter> component_names plan. rank d < rank (cm_name c)"
    and c: "c \<in> set (an_components plan)" and d: "d \<in> set (cm_depends c) \<inter> component_names plan"
  have "ranked rank ?m"
    using rank unfolding ranked_def dependency_map_keys(2) by (auto simp: dependency_map_list[OF names] component_names_def)
  then show "before d (cm_name c) (order_from ?m)"
  proof (rule order_from_before[OF _ dependency_map_keys(1)])
    show "(cm_name c, uniq (cm_depends c)) \<in> set ?m" using c by (auto simp: dependency_map_list[OF names])
    show "d \<in> fst ` set ?m" using d unfolding dependency_map_keys(2) by (simp add: component_names_def)
  qed (use d in simp)
qed

section \<open>What the ports keep\<close>

lemma portKey_digits: "takeWhile (\<lambda>x. x \<noteq> CHR ''#'') (rev (portKey c p)) = rev (show_nat p)"
proof -
  have "\<forall>x \<in> set (show_nat p). x \<noteq> CHR ''#''" using show_nat_digits[of "CHR ''#''" p] by auto
  then show ?thesis by (simp add: portKey_def takeWhile_append)
qed

lemma portKey_inj [simp]: "portKey c p = portKey c' p' \<longleftrightarrow> c = c' \<and> p = p'"
proof
  assume eq: "portKey c p = portKey c' p'"
  then have "rev (show_nat p) = rev (show_nat p')" using portKey_digits by metis
  then have "p = p'" by simp
  with eq show "c = c' \<and> p = p'" by (simp add: portKey_def)
qed simp

lemma allocatePort_cases:
  assumes "allocatePort q used coexistence high = Inr h"
  shows "h \<notin> set used \<and> (ALLOC_BASE \<le> h \<and> h \<le> ALLOC_TOP \<or> \<not> high \<and> h = q \<and> (if coexistence then 1024 else 1) \<le> h)"
proof (cases "\<not> high \<and> (if coexistence then 1024 else 1) \<le> q \<and> q \<notin> set used")
  case True
  then show ?thesis using assms by (simp add: allocatePort_def)
next
  case False
  then have "find (\<lambda>p. p \<notin> set used) [ALLOC_BASE..<Suc ALLOC_TOP] = Some h"
    using assms unfolding allocatePort_def by (auto simp del: upt_Suc split: option.splits)
  from find_SomeD[OF this] show ?thesis by (auto simp del: upt_Suc)
qed

lemma allocatePort_ok:
  assumes "allocatePort q used coexistence high = Inr h"
  shows "h \<notin> set used" and "coexistence \<Longrightarrow> 1024 \<le> h" and "1 \<le> h" and "h = q \<or> 20000 \<le> h \<and> h \<le> 20999"
  using allocatePort_cases[OF assms] by (auto simp: ALLOC_BASE_def ALLOC_TOP_def split: if_splits)

text \<open>A binding kept from the previous install, and a binding that is new.\<close>

definition kept_binding :: "bind_ctx \<Rightarrow> string \<Rightarrow> published_port \<Rightarrow> bool" where
  "kept_binding ctx c b \<longleftrightarrow> map_of (bc_own ctx) (portKey c (pp_container b)) = Some (pp_host b)"

definition host_allowed :: "bind_ctx \<Rightarrow> nat \<Rightarrow> bool" where
  "host_allowed ctx h \<longleftrightarrow> (bc_coexistence ctx \<longrightarrow> 1024 \<le> h) \<and> (bc_ingress ctx \<noteq> None \<longrightarrow> h \<noteq> 80 \<and> h \<noteq> 443)"

definition bind_text :: "bind_ctx \<Rightarrow> string \<Rightarrow> app_port \<Rightarrow> string" where
  "bind_text ctx c p = (if is_public ctx c p then PUBLISH_BIND else LOOPBACK_BIND)"

definition bound_well :: "bind_ctx \<Rightarrow> nat list \<Rightarrow> string \<Rightarrow> app_port list \<Rightarrow> published_port \<times> app_endpoint \<Rightarrow> bool" where
  "bound_well ctx used c ps = (\<lambda>(b, e). pp_host b = ep_port e \<and> ep_component e = c \<and> host_allowed ctx (pp_host b) \<and>
     (\<exists>p \<in> set ps. ap_expose p \<and> pp_container b = ap_container p \<and> pp_bind b = bind_text ctx c p) \<and>
     (kept_binding ctx c b \<or> pp_host b \<notin> set used))"

definition ingress_ports_used :: "bind_ctx \<Rightarrow> nat list \<Rightarrow> bool" where
  "ingress_ports_used ctx used \<longleftrightarrow> bc_ingress ctx \<noteq> None \<longrightarrow> 80 \<in> set used \<and> 443 \<in> set used"

lemma keptPort_ok:
  assumes "keptPort ctx c p = Some h"
  shows "map_of (bc_own ctx) (portKey c (ap_container p)) = Some h \<and> host_allowed ctx h"
  using assms by (auto simp: keptPort_def host_allowed_def split: option.splits if_splits)

lemma bindExposedPort_ok:
  assumes run: "bindExposedPort ctx used c p = Inr (x, u)" and "ap_expose p" and "p \<in> set ps" and i: "ingress_ports_used ctx used"
  shows "bound_well ctx used c ps x \<and> pp_container (fst x) = ap_container p \<and> set used \<subseteq> set u \<and>
    (kept_binding ctx c (fst x) \<or> pp_host (fst x) \<in> set u)"
proof (cases "keptPort ctx c p")
  case (Some h)
  note k = keptPort_ok[OF Some]
  show ?thesis
    using run assms(2,3) k
    by (auto simp: bindExposedPort_def Some Let_def bound_well_def kept_binding_def bind_text_def)
next
  case None
  obtain h where h: "allocatePort (ap_container p) used (bc_coexistence ctx) (routeFor c p (bc_ingress ctx) \<noteq> None) = Inr h"
    using run by (auto simp: bindExposedPort_def None Let_def split: sum.splits)
  note a = allocatePort_ok[OF h]
  have "host_allowed ctx h" using a i by (auto simp: host_allowed_def ingress_ports_used_def)
  then show ?thesis
    using run assms(2,3) a(1) h
    by (auto simp: bindExposedPort_def None Let_def bound_well_def bind_text_def)
qed

lemma bound_well_mono:
  "bound_well ctx used' c ps x \<Longrightarrow> set used \<subseteq> set used' \<Longrightarrow> set ps \<subseteq> set qs \<Longrightarrow> bound_well ctx used c qs x"
  by (auto simp: bound_well_def)

lemma ingress_ports_mono: "ingress_ports_used ctx used \<Longrightarrow> set used \<subseteq> set used' \<Longrightarrow> ingress_ports_used ctx used'"
  by (auto simp: ingress_ports_used_def)

text \<open>The hosts of the new bindings in a list of bindings.\<close>

definition new_hosts :: "bind_ctx \<Rightarrow> (string \<times> published_port \<times> app_endpoint) list \<Rightarrow> nat list" where
  "new_hosts ctx xs = map (\<lambda>(c, b, e). pp_host b) (filter (\<lambda>(c, b, e). \<not> kept_binding ctx c b) xs)"

lemma new_hosts_append [simp]: "new_hosts ctx (xs @ ys) = new_hosts ctx xs @ new_hosts ctx ys"
  by (simp add: new_hosts_def)

lemma bind_ports_ok:
  "bind_ports ctx used c ps = Inr (bs, u) \<Longrightarrow> ingress_ports_used ctx used \<Longrightarrow>
   (\<forall>x \<in> set bs. bound_well ctx used c ps x) \<and>
   map (\<lambda>x. pp_container (fst x)) bs = map ap_container (filter ap_expose ps) \<and> set used \<subseteq> set u \<and>
   distinct (new_hosts ctx (map (Pair c) bs)) \<and> set (new_hosts ctx (map (Pair c) bs)) \<subseteq> set u - set used"
proof (induction ctx used c ps arbitrary: bs u rule: bind_ports.induct)
  case (1 ctx used c)
  then show ?case by (simp add: new_hosts_def)
next
  case (2 ctx used c p ps)
  show ?case
  proof (cases "ap_expose p")
    case False
    then have "bind_ports ctx used c ps = Inr (bs, u)" using "2.prems" by simp
    from "2.IH"(1)[OF False this "2.prems"(2)] show ?thesis
      using False by (auto intro: bound_well_mono)
  next
    case True
    then obtain x u' bs' where x: "bindExposedPort ctx used c p = Inr (x, u')"
      and rest: "bind_ports ctx u' c ps = Inr (bs', u)" and bs: "bs = x # bs'"
      using "2.prems" by (auto split: sum.splits)
    note ok = bindExposedPort_ok[OF x True _ "2.prems"(2), of "p # ps"]
    have IH: "(\<forall>x \<in> set bs'. bound_well ctx u' c ps x) \<and>
        map (\<lambda>x. pp_container (fst x)) bs' = map ap_container (filter ap_expose ps) \<and> set u' \<subseteq> set u \<and>
        distinct (new_hosts ctx (map (Pair c) bs')) \<and> set (new_hosts ctx (map (Pair c) bs')) \<subseteq> set u - set u'"
      by (rule "2.IH"(2)[OF _ x refl rest ingress_ports_mono[OF "2.prems"(2)]]) (use True ok in auto)
    have one: "new_hosts ctx (map (Pair c) bs) = (if kept_binding ctx c (fst x) then [] else [pp_host (fst x)]) @ new_hosts ctx (map (Pair c) bs')"
      by (cases x) (simp add: bs new_hosts_def)
    have well: "\<forall>y \<in> set bs. bound_well ctx used c (p # ps) y"
      using ok IH unfolding bs by (auto intro: bound_well_mono)
    have fresh: "\<not> kept_binding ctx c (fst x) \<Longrightarrow> pp_host (fst x) \<in> set u' - set used"
      using ok by (cases x) (auto simp: bound_well_def)
    show ?thesis
      using well IH ok fresh True unfolding one by (auto simp: bs)
  qed
qed

text \<open>All bindings with their components, and the ports a plan exposes.\<close>

definition all_bound :: "(string \<times> (published_port \<times> app_endpoint) list) list \<Rightarrow> (string \<times> published_port \<times> app_endpoint) list" where
  "all_bound bound = flat_map (\<lambda>(c, bs). map (Pair c) bs) bound"

definition exposed_keys :: "app_component list \<Rightarrow> (string \<times> nat) list" where
  "exposed_keys cs = flat_map (\<lambda>c. map (\<lambda>p. (cm_name c, ap_container p)) (filter ap_expose (cm_ports c))) cs"

lemma all_bound_simps [simp]: "all_bound [] = []" "all_bound ((c, bs) # rest) = map (Pair c) bs @ all_bound rest"
  by (simp_all add: all_bound_def flat_map_def)

lemma exposed_keys_simps [simp]:
  "exposed_keys [] = []"
  "exposed_keys (c # cs) = map (\<lambda>p. (cm_name c, ap_container p)) (filter ap_expose (cm_ports c)) @ exposed_keys cs"
  by (simp_all add: exposed_keys_def flat_map_def)

definition all_well :: "bind_ctx \<Rightarrow> nat list \<Rightarrow> app_component list \<Rightarrow> (string \<times> published_port \<times> app_endpoint) list \<Rightarrow> bool" where
  "all_well ctx used cs xs \<longleftrightarrow> (\<forall>(c, x) \<in> set xs. \<exists>k \<in> set cs. cm_name k = c \<and> bound_well ctx used c (cm_ports k) x)"

lemma bind_components_ok:
  "bind_components ctx used cs = Inr bound \<Longrightarrow> ingress_ports_used ctx used \<Longrightarrow>
   all_well ctx used cs (all_bound bound) \<and> map (\<lambda>(c, b, e). (c, pp_container b)) (all_bound bound) = exposed_keys cs \<and>
   distinct (new_hosts ctx (all_bound bound)) \<and> set (new_hosts ctx (all_bound bound)) \<inter> set used = {}"
proof (induction ctx used cs arbitrary: bound rule: bind_components.induct)
  case (1 ctx used)
  then show ?case by (simp add: all_well_def new_hosts_def)
next
  case (2 ctx used c cs)
  obtain bs u rest where b: "bind_ports ctx used (cm_name c) (cm_ports c) = Inr (bs, u)"
    and r: "bind_components ctx u cs = Inr rest" and bound: "bound = (cm_name c, bs) # rest"
    using "2.prems"(1) by (auto split: sum.splits)
  note ok = bind_ports_ok[OF b "2.prems"(2)]
  have sub: "set used \<subseteq> set u" using ok by simp
  have IH: "all_well ctx u cs (all_bound rest) \<and> map (\<lambda>(c, b, e). (c, pp_container b)) (all_bound rest) = exposed_keys cs \<and>
      distinct (new_hosts ctx (all_bound rest)) \<and> set (new_hosts ctx (all_bound rest)) \<inter> set u = {}"
    by (rule "2.IH"[OF b refl r ingress_ports_mono[OF "2.prems"(2) sub]])
  have "all_well ctx used (c # cs) (all_bound bound)"
    using ok IH bound_well_mono[OF _ sub subset_refl] unfolding all_well_def bound by fastforce
  moreover have "map (\<lambda>(c, b, e). (c, pp_container b)) (map (Pair (cm_name c)) bs) =
      map (\<lambda>p. (cm_name c, ap_container p)) (filter ap_expose (cm_ports c))"
  proof -
    have "map (\<lambda>(c, b, e). (c, pp_container b)) (map (Pair (cm_name c)) bs) = map (Pair (cm_name c)) (map (\<lambda>x. pp_container (fst x)) bs)"
      by (simp add: case_prod_beta)
    then show ?thesis using ok by simp
  qed
  ultimately show ?case using ok IH sub unfolding bound by auto
qed

text \<open>The values of a previous install's ports.\<close>

definition own_hosts :: "reservations \<Rightarrow> nat set" where
  "own_hosts rv = snd ` set (ownPorts (rv_own rv))"

lemma ownPorts_hosts: "own_hosts rv \<subseteq> {pp_host p | c ps p. (c, ps) \<in> set (rv_own rv) \<and> p \<in> set ps}"
proof -
  have "snd ` set (fold (\<lambda>(k, h). AList.update k h) xs kvs) \<subseteq> snd ` set xs \<union> snd ` set kvs" for xs and kvs :: "(string \<times> nat) list"
  proof (induction xs arbitrary: kvs)
    case (Cons x xs)
    obtain k h where x: "x = (k, h)" by force
    have "snd ` set (AList.update k h kvs) \<subseteq> insert h (snd ` set kvs)" by (induction kvs) auto
    then have "snd ` set xs \<union> snd ` set (AList.update k h kvs) \<subseteq> snd ` set (x # xs) \<union> snd ` set kvs" using x by auto
    with Cons.IH[of "AList.update k h kvs"] show ?case unfolding x fold_Cons comp_apply prod.case by (rule order_trans)
  qed simp
  from this[where kvs = "[]"] show ?thesis unfolding own_hosts_def ownPorts_def by (fastforce simp: flat_map_def)
qed

lemma kept_own: "kept_binding ctx c b \<Longrightarrow> bc_own ctx = ownPorts (rv_own rv) \<Longrightarrow> pp_host b \<in> own_hosts rv"
  by (auto simp: kept_binding_def own_hosts_def dest!: map_of_SomeD intro: rev_image_eqI)

text \<open>One host port per key, when no previous port is held twice.\<close>

definition own_once :: "reservations \<Rightarrow> bool" where
  "own_once rv \<longleftrightarrow> (\<forall>k k' h. map_of (ownPorts (rv_own rv)) k = Some h \<longrightarrow> map_of (ownPorts (rv_own rv)) k' = Some h \<longrightarrow> k = k')"

lemma distinct_by_parts:
  "distinct (map f (filter P xs)) \<Longrightarrow> distinct (map f (filter (\<lambda>x. \<not> P x) xs)) \<Longrightarrow>
   (\<And>x y. x \<in> set xs \<Longrightarrow> y \<in> set xs \<Longrightarrow> P x \<Longrightarrow> \<not> P y \<Longrightarrow> f x \<noteq> f y) \<Longrightarrow> distinct (map f xs)"
proof (induction xs)
  case (Cons x xs)
  then have "distinct (map f xs)" by (auto split: if_splits)
  moreover have "f x \<noteq> f y" if "y \<in> set xs" for y
    using Cons.prems that by (cases "P x"; cases "P y") fastforce+
  ultimately show ?case by auto
qed simp

lemma hosts_distinct:
  assumes keys: "distinct (map (\<lambda>(c, b, e). (c, pp_container b)) xs)" and new: "distinct (new_hosts ctx xs)"
    and apart: "set (new_hosts ctx xs) \<inter> own_hosts rv = {}"
    and own: "bc_own ctx = ownPorts (rv_own rv)" and once: "own_once rv"
  shows "distinct (map (\<lambda>(c, b, e). pp_host b) xs)"
proof (rule distinct_by_parts[where P = "\<lambda>(c, b, e). kept_binding ctx c b"])
  let ?kept = "filter (\<lambda>(c, b, e). kept_binding ctx c b) xs" and ?key = "\<lambda>(c, b, e). (c, pp_container b)"
  have "distinct (map ?key ?kept)" using keys by (rule distinct_map_filter)
  moreover have "?key x = ?key y" if "x \<in> set ?kept" "y \<in> set ?kept" "(\<lambda>(c, b, e). pp_host b) x = (\<lambda>(c, b, e). pp_host b) y" for x y
  proof -
    obtain c b e c' b' e' where xy: "x = (c, b, e)" "y = (c', b', e')" by (metis prod_cases3)
    have "map_of (ownPorts (rv_own rv)) (portKey c (pp_container b)) = Some (pp_host b)"
      "map_of (ownPorts (rv_own rv)) (portKey c' (pp_container b')) = Some (pp_host b)"
      using that by (simp_all add: xy kept_binding_def own)
    with once have "portKey c (pp_container b) = portKey c' (pp_container b')" unfolding own_once_def by blast
    then show ?thesis by (simp add: xy)
  qed
  ultimately show "distinct (map (\<lambda>(c, b, e). pp_host b) ?kept)"
    unfolding distinct_map inj_on_def by blast
  show "distinct (map (\<lambda>(c, b, e). pp_host b) (filter (\<lambda>x. \<not> (case x of (c, b, e) \<Rightarrow> kept_binding ctx c b)) xs))"
    using new by (simp add: new_hosts_def case_prod_unfold)
  fix x y
  assume xy: "x \<in> set xs" "y \<in> set xs" "(\<lambda>(c, b, e). kept_binding ctx c b) x" "\<not> (\<lambda>(c, b, e). kept_binding ctx c b) y"
  have "(\<lambda>(c, b, e). pp_host b) x \<in> own_hosts rv" using xy(3) kept_own[OF _ own] by (cases x) auto
  moreover have "(\<lambda>(c, b, e). pp_host b) y \<in> set (new_hosts ctx xs)" using xy(2,4) by (force simp: new_hosts_def)
  ultimately show "(\<lambda>(c, b, e). pp_host b) x \<noteq> (\<lambda>(c, b, e). pp_host b) y" using apart by auto
qed

lemma port_map_bound:
  "map_of (fold (\<lambda>(n, bs). AList.update n (map fst bs)) bound kvs) n = Some ps \<Longrightarrow>
   (\<exists>bs. (n, bs) \<in> set bound \<and> ps = map fst bs) \<or> map_of kvs n = Some ps"
proof (induction bound arbitrary: kvs)
  case (Cons x xs)
  obtain m bs where x: "x = (m, bs)" by force
  show ?case using Cons.IH[of "AList.update m (map fst bs) kvs"] Cons.prems
    by (auto simp: x update_conv' split: if_splits)
qed simp

lemma ports_of_bound:
  assumes "p \<in> set (ports_of (fold (\<lambda>(n, bs). AList.update n (map fst bs)) bound []) n)"
  obtains e where "(n, p, e) \<in> set (all_bound bound)"
proof -
  obtain ps where ps: "map_of (fold (\<lambda>(n, bs). AList.update n (map fst bs)) bound []) n = Some ps" "p \<in> set ps"
    using assms by (cases "map_of (fold (\<lambda>(n, bs). AList.update n (map fst bs)) bound []) n")
      (auto simp: ports_of_def or_default_def)
  then obtain bs where bs: "(n, bs) \<in> set bound" "ps = map fst bs" using port_map_bound[OF ps(1)] by auto
  then obtain e where "(p, e) \<in> set bs" using ps(2) by auto
  with bs(1) have "(n, p, e) \<in> set (all_bound bound)" by (auto simp: all_bound_def flat_map_def)
  with that show thesis .
qed

definition bind_ctx_of :: "host_facts \<Rightarrow> string \<Rightarrow> ingress_binding option \<Rightarrow> publish_intent \<Rightarrow> reservations \<Rightarrow> bind_ctx" where
  "bind_ctx_of facts hostAddress ingress publish rv = \<lparr>bc_coexistence = hf_k3s facts, bc_address = hostAddress,
     bc_ingress = ingress, bc_publish = publish, bc_own = ownPorts (rv_own rv)\<rparr>"

lemma planHostDeploy_bound:
  assumes "planHostDeploy plan facts hostAddress ingress publish rv = Inr (hp, plan')"
  obtains bound where
    "bind_components (bind_ctx_of facts hostAddress ingress publish rv) (ports_taken facts ingress rv) (an_components plan) = Inr bound"
    "hp_endpoints hp = map (\<lambda>(c, b, e). e) (all_bound bound)"
    "hp_ports hp = fold (\<lambda>(n, bs). AList.update n (map fst bs)) bound []"
    "plan' = substituteAppDomain plan ingress (hp_ports hp)"
    "hp_volumes hp = flat_map (\<lambda>c. map av_volume (cm_volumes c)) (an_components plan')"
    "hp_secrets hp = dedupeSecrets plan'"
proof -
  obtain bound where b: "bind_components (bind_ctx_of facts hostAddress ingress publish rv) (ports_taken facts ingress rv)
      (an_components plan) = Inr bound"
    using assms by (auto simp: planHostDeploy_def bind_ctx_of_def Let_def split: sum.splits)
  have "flat_map (\<lambda>(n, bs). map snd bs) bound = map (\<lambda>(c, b, e). e) (all_bound bound)"
    by (induction bound) (auto simp: flat_map_def)
  then show thesis
    using that[OF b] assms b by (auto simp: planHostDeploy_def bind_ctx_of_def Let_def renderDeploy_def)
qed

lemma bound_one:
  assumes b: "bind_components (bind_ctx_of facts hostAddress ingress publish rv) (ports_taken facts ingress rv) (an_components plan) = Inr bound"
    and x: "(c, x, e) \<in> set (all_bound bound)"
  shows "ep_port e = pp_host x \<and> host_allowed (bind_ctx_of facts hostAddress ingress publish rv) (pp_host x) \<and>
      (pp_host x \<in> own_hosts rv \<or> pp_host x \<notin> set (ports_taken facts ingress rv)) \<and>
      (\<exists>p. pp_container x = ap_container p \<and> pp_bind x = bind_text (bind_ctx_of facts hostAddress ingress publish rv) c p)"
proof -
  let ?ctx = "bind_ctx_of facts hostAddress ingress publish rv"
  have "ingress_ports_used ?ctx (ports_taken facts ingress rv)" by (auto simp: ingress_ports_used_def ports_taken_def bind_ctx_of_def)
  note ok = bind_components_ok[OF b this]
  have own: "bc_own ?ctx = ownPorts (rv_own rv)" by (simp add: bind_ctx_of_def)
  show ?thesis using ok x kept_own[OF _ own] unfolding all_well_def bound_well_def by force
qed

text \<open>What holds of each endpoint, and of each binding, on its own.\<close>

lemma endpoint_chosen:
  assumes run: "planHostDeploy plan facts hostAddress ingress publish rv = Inr (hp, plan')" and e: "e \<in> set (hp_endpoints hp)"
  shows "(ep_port e \<in> own_hosts rv \<or> ep_port e \<notin> set (hf_ports facts) \<union> set (rv_others rv)) \<and>
       (hf_k3s facts \<longrightarrow> 1024 \<le> ep_port e) \<and> (ingress \<noteq> None \<longrightarrow> ep_port e \<noteq> 80 \<and> ep_port e \<noteq> 443)"
proof -
  obtain bound where b: "bind_components (bind_ctx_of facts hostAddress ingress publish rv) (ports_taken facts ingress rv)
      (an_components plan) = Inr bound"
    and eps: "hp_endpoints hp = map (\<lambda>(c, b, e). e) (all_bound bound)"
    using run by (rule planHostDeploy_bound)
  obtain c x where x: "(c, x, e) \<in> set (all_bound bound)" using e unfolding eps by auto
  show ?thesis using bound_one[OF b x] by (auto simp: host_allowed_def bind_ctx_of_def ports_taken_def)
qed

lemma binding_chosen:
  assumes run: "planHostDeploy plan facts hostAddress ingress publish rv = Inr (hp, plan')" and p: "p \<in> set (ports_of (hp_ports hp) n)"
  shows "pp_host p \<in> ep_port ` set (hp_endpoints hp) \<and> pp_bind p \<in> {''0.0.0.0'', ''127.0.0.1''} \<and>
       (pp_bind p = ''0.0.0.0'' \<longrightarrow> publish = Public \<or>
          (\<exists>i. ingress = Some i \<and> ib_direct i \<and>
             (\<exists>r \<in> set (ib_routes i). ir_component r = n \<and> ir_container r = pp_container p)))"
proof -
  let ?ctx = "bind_ctx_of facts hostAddress ingress publish rv"
  obtain bound where b: "bind_components ?ctx (ports_taken facts ingress rv) (an_components plan) = Inr bound"
    and eps: "hp_endpoints hp = map (\<lambda>(c, b, e). e) (all_bound bound)"
    and ports: "hp_ports hp = fold (\<lambda>(n, bs). AList.update n (map fst bs)) bound []"
    using run by (rule planHostDeploy_bound)
  obtain e where e: "(n, p, e) \<in> set (all_bound bound)"
    using p unfolding ports by (rule ports_of_bound)
  obtain q where q: "pp_container p = ap_container q" "pp_bind p = bind_text ?ctx n q" using bound_one[OF b e] by auto
  have "is_public ?ctx n q \<Longrightarrow> publish = Public \<or> (\<exists>i. ingress = Some i \<and> ib_direct i \<and>
           (\<exists>r \<in> set (ib_routes i). ir_component r = n \<and> ir_container r = pp_container p))"
    unfolding is_public_def q(1)
    by (auto simp: bind_ctx_of_def routeFor_def split: option.splits dest!: find_SomeD)
  moreover have "pp_host p \<in> ep_port ` set (hp_endpoints hp)"
  proof (rule rev_image_eqI)
    show "e \<in> set (hp_endpoints hp)" using e unfolding eps set_map by (rule rev_image_eqI) simp
  qed (use bound_one[OF b e] in simp)
  moreover have "pp_bind p = (if is_public ?ctx n q then ''0.0.0.0'' else ''127.0.0.1'')"
    unfolding q(2) bind_text_def PUBLISH_BIND_def LOOPBACK_BIND_def ..
  ultimately show ?thesis by (cases "is_public ?ctx n q") auto
qed

lemma endpoints_apart:
  assumes run: "planHostDeploy plan facts hostAddress ingress publish rv = Inr (hp, plan')"
    and "own_once rv" and "distinct (exposed_keys (an_components plan))"
  shows "distinct (map ep_port (hp_endpoints hp))"
proof -
  let ?ctx = "bind_ctx_of facts hostAddress ingress publish rv" and ?used = "ports_taken facts ingress rv"
  obtain bound where b: "bind_components ?ctx ?used (an_components plan) = Inr bound"
    and eps: "hp_endpoints hp = map (\<lambda>(c, b, e). e) (all_bound bound)"
    using run by (rule planHostDeploy_bound)
  have "ingress_ports_used ?ctx ?used" by (auto simp: ingress_ports_used_def ports_taken_def bind_ctx_of_def)
  note ok = bind_components_ok[OF b this]
  have own: "bc_own ?ctx = ownPorts (rv_own rv)" by (simp add: bind_ctx_of_def)
  have "map ep_port (hp_endpoints hp) = map (\<lambda>(c, b, e). pp_host b) (all_bound bound)"
    unfolding eps using bound_one[OF b] by (force simp: case_prod_unfold)
  moreover have "set (new_hosts ?ctx (all_bound bound)) \<inter> own_hosts rv = {}"
    using ok by (auto simp: ports_taken_def own_hosts_def)
  ultimately show ?thesis
    using hosts_distinct[of "all_bound bound" ?ctx rv] ok own assms(2,3) by simp
qed

text \<open>
  C23: The host ports chosen for an application are its own from before or free: not in use on the
  host and not owned by another install. Beside k3s they are above 1023, beside an ingress not 80 or
  443; they differ from each other; and a port is bound on every address only when the install is
  public or the ingress keeps the port directly reachable.
\<close>

theorem ports_well_chosen:
  assumes run: "planHostDeploy plan facts hostAddress ingress publish rv = Inr (hp, plan')"
  shows "(\<forall>e \<in> set (hp_endpoints hp).
       (ep_port e \<in> own_hosts rv \<or> ep_port e \<notin> set (hf_ports facts) \<union> set (rv_others rv)) \<and>
       (hf_k3s facts \<longrightarrow> 1024 \<le> ep_port e) \<and> (ingress \<noteq> None \<longrightarrow> ep_port e \<noteq> 80 \<and> ep_port e \<noteq> 443)) \<and>
     (own_once rv \<and> distinct (exposed_keys (an_components plan)) \<longrightarrow> distinct (map ep_port (hp_endpoints hp))) \<and>
     (\<forall>n. \<forall>p \<in> set (ports_of (hp_ports hp) n).
       pp_host p \<in> ep_port ` set (hp_endpoints hp) \<and> pp_bind p \<in> {''0.0.0.0'', ''127.0.0.1''} \<and>
       (pp_bind p = ''0.0.0.0'' \<longrightarrow> publish = Public \<or>
          (\<exists>i. ingress = Some i \<and> ib_direct i \<and>
             (\<exists>r \<in> set (ib_routes i). ir_component r = n \<and> ir_container r = pp_container p))))"
  using endpoint_chosen[OF run] binding_chosen[OF run] endpoints_apart[OF run] by blast

end
