(* ===== verification/App_Support.thy ===== *)
theory App_Support
  imports Deploy_Plan
begin

text \<open>
  The decisions of a deployment that touch nothing: src/src/apps/app-deploy-support.ts,
  app-deploy-view.ts, the login gate of ingress-auth.ts, the host names of ingress-hostname.ts with
  resolveBinding of vops-ingress.service.ts, and the post-install steps of post-install.ts.
\<close>

section \<open>Texts\<close>

text \<open>\<open>s.split(sep)\<close> for a separator of any length.\<close>

function split_text :: "string \<Rightarrow> string \<Rightarrow> string list" where
  "split_text sep s = (if sep = [] then [s] else (case index_of s sep of
       None \<Rightarrow> [s]
     | Some i \<Rightarrow> take i s # split_text sep (drop (i + length sep) s)))"
  by pat_completeness auto

lemma index_of_bound: "index_of s p = Some i \<Longrightarrow> i + length p \<le> length s"
proof (induction s arbitrary: i)
  case (Cons c cs)
  then show ?case by (auto simp: starts_with_iff split: if_splits) (metis length_append length_Cons le_add1)
qed (auto split: if_splits)

termination split_text
  by (relation "measure (\<lambda>(sep, s). length s)") (auto dest!: index_of_bound simp flip: length_greater_0_conv)

declare split_text.simps [simp del]

section \<open>Readiness and inputs\<close>

definition readiness :: "host_facts \<Rightarrow> string list" where
  "readiness f = (case nonempty (hf_podman f) of
       None \<Rightarrow> [''podman is not installed. Run `vops app setup <host>` to install podman 5.'']
     | Some v \<Rightarrow> (if supportsPod (Some v) then []
         else [''podman '' @ v @ '' is too old (need >=5.0 for pods). Run `vops app setup <host>` to install podman 5.'']) @
         (if nonempty (hf_quadlet f) = None then [''the Quadlet systemd generator was not found on PATH.''] else []))"

definition httpPrimary :: "app_plan \<Rightarrow> bool" where
  "httpPrimary plan = (case component_at plan (an_primary plan) of None \<Rightarrow> False
     | Some c \<Rightarrow> list_ex (\<lambda>p. ap_expose p \<and> ap_protocol p = Http_Port) (cm_ports c))"

definition set_secret :: "(string \<times> string) list \<Rightarrow> app_secret \<Rightarrow> app_secret" where
  "set_secret given s = (case map_of given (sec_target s) of
       Some v \<Rightarrow> if sec_generate s = None then s\<lparr>sec_value := Some v\<rparr> else s
     | None \<Rightarrow> s)"

definition set_env :: "(string \<times> string) list \<Rightarrow> app_env \<Rightarrow> app_env" where
  "set_env given e = (case map_of given (en_name e) of Some v \<Rightarrow> e\<lparr>en_value := v\<rparr> | None \<Rightarrow> e)"

definition applyOverrides :: "app_plan \<Rightarrow> (string \<times> string) list \<Rightarrow> app_plan" where
  "applyOverrides plan given = plan\<lparr>an_components := map (\<lambda>c. c\<lparr>cm_secrets := map (set_secret given) (cm_secrets c),
     cm_env := map (set_env given) (cm_env c)\<rparr>) (an_components plan)\<rparr>"

definition provided_secret :: "app_secret \<Rightarrow> bool" where
  "provided_secret s \<longleftrightarrow> sec_generate s \<noteq> None \<or> nonempty (sec_value s) \<noteq> None"

definition plan_secrets :: "app_plan \<Rightarrow> app_secret list" where
  "plan_secrets plan = flat_map cm_secrets (an_components plan)"

definition provided_names :: "app_plan \<Rightarrow> string list" where
  "provided_names plan = map sec_name (filter provided_secret (plan_secrets plan))"

definition pruneUnsetOptional :: "app_plan \<Rightarrow> app_plan" where
  "pruneUnsetOptional plan =
     (let drop = map sec_name (filter (\<lambda>s. sec_optional s \<and> sec_name s \<notin> set (provided_names plan)) (plan_secrets plan))
      in plan\<lparr>an_components := map (\<lambda>c. c\<lparr>cm_secrets := filter (\<lambda>s. sec_name s \<notin> set drop) (cm_secrets c)\<rparr>) (an_components plan)\<rparr>)"

text \<open>The groups of inputs in order of first mention: their keys, and whether one is filled.\<close>

definition group_members :: "app_plan \<Rightarrow> (string \<times> string \<times> bool) list" where
  "group_members plan =
     List.map_filter (\<lambda>s. map_option (\<lambda>g. (g, sec_target s, nonempty (sec_value s) \<noteq> None)) (nonempty (sec_group s))) (plan_secrets plan) @
     List.map_filter (\<lambda>e. map_option (\<lambda>g. (g, en_name e, en_value e \<noteq> [])) (nonempty (en_group e)))
       (flat_map cm_env (an_components plan))"

definition unfilled_group :: "app_plan \<Rightarrow> (string \<times> string list) option" where
  "unfilled_group plan = (let ms = group_members plan in
     map_option (\<lambda>g. (g, uniq (map (\<lambda>(_, k, _). k) (filter (\<lambda>(g', _). g' = g) ms))))
       (find (\<lambda>g. \<not> list_ex (\<lambda>(g', _, filled). g' = g \<and> filled) ms) (uniq (map fst ms))))"

definition assertSecretsSatisfied :: "app_plan \<Rightarrow> failure option" where
  "assertSecretsSatisfied plan =
     (let missingSecrets = filter (\<lambda>s. sec_generate s = None \<and> nonempty (sec_value s) = None \<and> \<not> sec_optional s \<and>
                                    sec_name s \<notin> set (provided_names plan)) (plan_secrets plan);
          missingEnv = filter (\<lambda>e. en_required e \<and> en_value e = []) (flat_map cm_env (an_components plan));
          targets = uniq (map sec_target missingSecrets @ map en_name missingEnv);
          flags = (\<lambda>sep ts. join sep (map (\<lambda>t. ''--set '' @ t @ ''=...'') ts))
      in if targets \<noteq> [] then Some (Bad_Request (''Missing required inputs: pass '' @ flags '' '' targets))
         else map_option (\<lambda>(g, keys). Bad_Request (''Missing required input group '' @ dq g @
                '': provide at least one of '' @ flags '' | '' keys)) (unfilled_group plan))"

text \<open>A part of the login that is an environment variable, read again after the overrides.\<close>

definition refresh_part :: "app_plan \<Rightarrow> access_part \<Rightarrow> access_part" where
  "refresh_part plan pt = (case nonempty (pt_env pt) of
       Some n \<Rightarrow> if pt_kind pt = Part_Value
         then (case find (\<lambda>e. en_name e = n) (flat_map cm_env (an_components plan)) of
                 Some e \<Rightarrow> pt\<lparr>pt_value := Some (en_value e)\<rparr> | None \<Rightarrow> pt)
         else pt
     | None \<Rightarrow> pt)"

definition refreshAccessValues :: "app_plan \<Rightarrow> app_plan" where
  "refreshAccessValues plan = plan\<lparr>an_access := map_option (\<lambda>a. a\<lparr>acc_username := map_option (refresh_part plan) (acc_username a),
     acc_password := map_option (refresh_part plan) (acc_password a)\<rparr>) (an_access plan)\<rparr>"

section \<open>The record of an install\<close>

definition toMaterial :: "app_secret \<Rightarrow> secret_material" where
  "toMaterial s = \<lparr>mt_name = sec_name s, mt_generate = sec_generate s, mt_value = sec_value s\<rparr>"

definition toInstall :: "app_plan \<Rightarrow> host \<Rightarrow> host_plan \<Rightarrow> install option \<Rightarrow> instant \<Rightarrow> install" where
  "toInstall plan h hp prev now = \<lparr>in_name = an_name plan, in_app = an_app plan, in_display = an_display plan,
     in_host = h_name h, in_kind = an_kind plan, in_pod = hp_pod hp, in_primary = an_primary plan,
     in_components = map (\<lambda>c. \<lparr>ic_name = cm_name c, ic_container = cm_container c, ic_image = cm_image c,
        ic_published = ports_of (hp_ports hp) (cm_name c)\<rparr>) (an_components plan),
     in_units = hp_units hp, in_secrets = map sec_name (hp_secrets hp),
     in_volumes = flat_map (\<lambda>c. map av_volume (cm_volumes c)) (an_components plan), in_endpoints = hp_endpoints hp,
     in_ingress = None, in_access = an_access plan, in_publish = None, in_status = Deployed,
     in_created_at = (case prev of Some p \<Rightarrow> in_created_at p | None \<Rightarrow> now), in_updated_at = now\<rparr>"

text \<open>The login block with the address it is reached at.\<close>

definition strip_slashes :: "string \<Rightarrow> string" where
  "strip_slashes s = rev (dropWhile (\<lambda>c. c = CHR ''/'') (rev s))"

definition accessView :: "access_plan option \<Rightarrow> app_endpoint list \<Rightarrow> string \<Rightarrow> (string \<times> bool) option \<Rightarrow>
    (access_plan \<times> string option) option" where
  "accessView access endpoints primary ingress = map_option (\<lambda>a.
     (let base = (case ingress of
            Some (hostname, tls) \<Rightarrow> Some ((if tls then ''https'' else ''http'') @ ''://'' @ hostname)
          | None \<Rightarrow> map_option ep_url (case find (\<lambda>e. ep_component e = primary) endpoints of
                      Some e \<Rightarrow> Some e | None \<Rightarrow> find (\<lambda>_. True) endpoints))
      in case nonempty base of
           None \<Rightarrow> (a, None)
         | Some b \<Rightarrow> (a, Some (strip_slashes b @ (if acc_path a = ''/'' then [] else acc_path a))))) access"

definition ingressHostPorts :: "ingress_state option \<Rightarrow> nat list" where
  "ingressHostPorts s = (case s of None \<Rightarrow> [] | Some i \<Rightarrow> is_host_port i # map rt_host_port (is_routes i))"

text \<open>\<open>s.replace(a, b)\<close> with texts: the first occurrence.\<close>

definition replace_first :: "string \<Rightarrow> string \<Rightarrow> string \<Rightarrow> string" where
  "replace_first a b s = (case index_of s a of None \<Rightarrow> s | Some i \<Rightarrow> take i s @ b @ drop (i + length a) s)"

definition flipBind :: "(string \<times> string) list \<Rightarrow> nat list \<Rightarrow> (string \<times> string) list" where
  "flipBind units hostPorts = map (\<lambda>(n, content). (n, fold (\<lambda>p c.
     replace_first (''PublishPort=127.0.0.1:'' @ show_nat p @ '':'') (''PublishPort=0.0.0.0:'' @ show_nat p @ '':'') c) hostPorts content)) units"

definition applyIngressScheme :: "app_endpoint list \<Rightarrow> ingress_state \<Rightarrow> app_endpoint list" where
  "applyIngressScheme endpoints s =
     (let served = (if is_tls s then ''https://'' else ''http://''); stale = (if is_tls s then ''http://'' else ''https://'')
      in map (\<lambda>e. if ep_reach e = Some Reach_Ingress \<and> starts_with (ep_url e) stale
                then e\<lparr>ep_url := served @ drop (length stale) (ep_url e)\<rparr> else e) endpoints)"

definition rebindEndpoints :: "install \<Rightarrow> string \<Rightarrow> reach \<Rightarrow> app_endpoint list" where
  "rebindEndpoints i address r = map (\<lambda>e. if ep_port e \<in> set (ingressHostPorts (in_ingress i))
     then \<lparr>ep_component = ep_component e, ep_port = ep_port e, ep_url = ''http://'' @ address @ '':'' @ show_nat (ep_port e),
           ep_reach = Some r\<rparr> else e) (in_endpoints i)"

section \<open>Advice\<close>

definition detailSuffix :: "string \<Rightarrow> string" where
  "detailSuffix detail = (let first = trim (hd (lines_of detail)) in if first = [] then [] else '': '' @ first)"

definition secretReuseWarnings :: "app_plan \<Rightarrow> (string \<times> string) list option \<Rightarrow> install option \<Rightarrow> string list" where
  "secretReuseWarnings plan given prev = (case (prev, given) of
       (Some _, Some kvs) \<Rightarrow> (let reused = filter (\<lambda>k. k \<in> sec_target ` set (plan_secrets plan)) (map fst kvs)
          in if reused = [] then [] else [join '', '' reused @ '' already exists from a prior install - the new value is ignored '' @
               ''(podman never replaces a secret). Remove with `--purge` then reinstall to change it.''])
     | _ \<Rightarrow> [])"

definition hasPublicBind :: "install \<Rightarrow> bool" where
  "hasPublicBind i = list_ex (\<lambda>c. list_ex (\<lambda>p. pp_bind p = PUBLISH_BIND) (ic_published c)) (in_components i)"

definition resolvePublishIntent :: "bool option \<Rightarrow> install option \<Rightarrow> publish_intent \<times> string option" where
  "resolvePublishIntent explicit prev = (case explicit of
       Some True \<Rightarrow> (Public, None)
     | Some False \<Rightarrow> (Loopback, None)
     | None \<Rightarrow> (case prev of
         None \<Rightarrow> (Loopback, None)
       | Some p \<Rightarrow> (case in_publish p of
           Some m \<Rightarrow> (m, None)
         | None \<Rightarrow> if hasPublicBind p
             then (Public, Some (in_name p @ '' keeps its public 0.0.0.0 binding (reachable from any network the host is on, '' @
                    ''bypassing the host firewall). Redeploy with `--no-public` to make it local-only.''))
             else (Loopback, None))))"

definition internalExposureWarnings :: "app_plan \<Rightarrow> ingress_binding option \<Rightarrow> string list" where
  "internalExposureWarnings plan ingress = (case ingress of
       Some i \<Rightarrow> if an_exposure plan = Some Exposure_Internal
         then [an_name plan @ '': its manifest declares `exposure: internal` - the app is meant to be reached only from '' @
               ''the host. vops does NOT enforce that: '' @ ib_hostname i @ '' is being published anyway, so the app answers '' @
               ''from the internet and its hostname appears in public certificate transparency logs. The declaration is '' @
               ''advisory. To keep it host-local, deploy without --domain and reach it over `ssh -L`, or run '' @
               ''`vops app unexpose '' @ an_name plan @ ''` to drop the route.'']
         else []
     | None \<Rightarrow> [])"

definition registryHostOf :: "string \<Rightarrow> string option" where
  "registryHostOf img = (let first = hd (split_on CHR ''/'' img) in
     if first = [] \<or> first = img then None
     else if includes_str first ''.'' \<or> includes_str first '':'' \<or> first = ''localhost'' then Some first else None)"

definition resolveRegistryLogin :: "app_plan \<Rightarrow> (string \<times> string) option \<Rightarrow> registry_login option" where
  "resolveRegistryLogin plan creds = (case creds of
       None \<Rightarrow> None
     | Some (user, tok) \<Rightarrow> if user = [] \<or> tok = [] then None
         else (let primary = (case component_at plan (an_primary plan) of
                   Some c \<Rightarrow> Some c | None \<Rightarrow> find (\<lambda>_. True) (an_components plan))
               in map_option (\<lambda>h. \<lparr>rl_host = h, rl_user = user, rl_token = tok\<rparr>)
                    (registryHostOf (case primary of Some c \<Rightarrow> cm_image c | None \<Rightarrow> []))))"

section \<open>Host names and routes\<close>

definition sanitize :: "string \<Rightarrow> string option" where
  "sanitize i = (let s = replace_all (plus (Cls (\<lambda>c. \<not> (is_lower c \<or> is_digit c \<or> c = CHR ''-'')))) Eps (\<lambda>_. ''-'') (lower i);
       t = rev (dropWhile (\<lambda>c. c = CHR ''-'') (rev (dropWhile (\<lambda>c. c = CHR ''-'') s)))
     in nonempty (Some t))"

definition octet :: re where
  "octet = Seq (Cls is_digit) (up_to 2 (Cls is_digit))"

definition sslipHostname :: "string \<Rightarrow> string \<Rightarrow> failure + string" where
  "sslipHostname ip name =
     (let parts = split_on CHR ''.'' (trim ip);
          ok = full_match (Seq octet (Seq (lit ''.'') (Seq octet (Seq (lit ''.'') (Seq octet (Seq (lit ''.'') octet)))))) (trim ip)
      in if \<not> ok \<or> list_ex (\<lambda>o'. read_nat o' > 255) parts
         then Inl (Plain_Error (''Cannot derive an sslip.io hostname from '' @ quoted ip @ '' (need an IPv4 address).''))
         else (let base = join ''-'' parts @ ''.sslip.io'' in
           if name = [] then Inr base
           else (case sanitize name of
               None \<Rightarrow> Inl (Plain_Error (''Cannot derive a valid name from '' @ quoted name @ ''.''))
             | Some n \<Rightarrow> Inr (n @ ''.'' @ base))))"

definition isSslip :: "string \<Rightarrow> bool" where
  "isSslip hostname \<longleftrightarrow> ends_with (lower hostname) ''.sslip.io'' \<or> ends_with (lower hostname) ''.nip.io''"

text \<open>Labels of 1 to 63 letters, digits and inner hyphens, at least two, the last of letters.\<close>

definition label_ok :: "string \<Rightarrow> bool" where
  "label_ok l \<longleftrightarrow> l \<noteq> [] \<and> length l \<le> 63 \<and> list_all (\<lambda>c. is_lower c \<or> is_upper c \<or> is_digit c \<or> c = CHR ''-'') l \<and>
     hd l \<noteq> CHR ''-'' \<and> last l \<noteq> CHR ''-''"

definition isValidFqdn :: "string \<Rightarrow> bool" where
  "isValidFqdn s = (let labels = split_on CHR ''.'' s in
     length s \<ge> 1 \<and> length s \<le> 253 \<and> length labels \<ge> 2 \<and> list_all label_ok labels \<and>
     length (last labels) \<ge> 2 \<and> list_all (\<lambda>c. is_lower c \<or> is_upper c) (last labels))"

definition assertValidHostname :: "string \<Rightarrow> failure + string" where
  "assertValidHostname s = (let h = lower (trim s) in if isValidFqdn h then Inr h
     else Inl (Plain_Error (''Invalid domain '' @ quoted s @ ''. Expected a hostname like app.example.com.'')))"

text \<open>
  The HTTP ports the ingress fronts: those with a route, and the first one of the primary. A component
  is recognised by its position, a port by its position in it.
\<close>

definition fronted_ports :: "app_plan \<Rightarrow> ingress_route list" where
  "fronted_ports plan =
     (let cs = an_components plan;
          primary = find (\<lambda>k. cm_name (cs ! k) = an_primary plan) [0..<length cs];
          http = (\<lambda>c. find (\<lambda>j. ap_expose (cm_ports c ! j) \<and> ap_protocol (cm_ports c ! j) = Http_Port) [0..<length (cm_ports c)])
      in flat_map (\<lambda>k. let c = cs ! k in flat_map (\<lambda>j. let p = cm_ports c ! j in
           if ap_expose p \<and> ap_protocol p = Http_Port \<and> (ap_route p \<noteq> None \<or> primary = Some k \<and> http c = Some j)
           then [\<lparr>ir_component = cm_name c, ir_container = ap_container p,
                  ir_path = (case ap_route p of Some r \<Rightarrow> pr_path r | None \<Rightarrow> ''/''),
                  ir_strip = (case ap_route p of Some r \<Rightarrow> pr_strip r | None \<Rightarrow> False)\<rparr>]
           else []) [0..<length (cm_ports c)]) [0..<length cs])"

definition routedPorts :: "app_plan \<Rightarrow> failure + ingress_route list" where
  "routedPorts plan = (let routes = fronted_ports plan; paths = map ir_path routes in
     case find (\<lambda>k. paths ! k \<in> set (take k paths)) [0..<length paths] of
       Some k \<Rightarrow> Inl (Plain_Error (''App '' @ quoted (an_name plan) @ '' has two ingress routes at '' @ quoted (paths ! k) @ ''.''))
     | None \<Rightarrow> Inr routes)"

record binding_opts =
  bo_domain :: "string option"
  bo_tls :: "bool option"
  bo_staging :: bool
  bo_direct :: bool
  bo_force_dns :: bool

record resolution =
  rs_binding :: ingress_binding
  rs_staging :: bool
  rs_sslip :: bool
  rs_warnings :: "string list"

definition resolveHostname :: "string \<Rightarrow> host \<Rightarrow> string \<Rightarrow> failure + string \<times> string list" where
  "resolveHostname domain h installName = (if domain \<noteq> ''auto''
     then (case assertValidHostname domain of Inl e \<Rightarrow> Inl e | Inr n \<Rightarrow> Inr (n, []))
     else (case sslipHostname (h_address h) installName of Inl e \<Rightarrow> Inl e
       | Inr n \<Rightarrow> Inr (n, [''No --domain given -> using '' @ n @ '' (sslip.io demo domain).''])))"

definition resolveBinding :: "app_plan \<Rightarrow> host \<Rightarrow> binding_opts \<Rightarrow> failure + resolution option" where
  "resolveBinding plan h opts = (case nonempty (bo_domain opts) of
       None \<Rightarrow> Inr None
     | Some domain \<Rightarrow> (case routedPorts plan of
         Inl e \<Rightarrow> Inl e
       | Inr [] \<Rightarrow> Inl (Bad_Request (quoted (an_name plan) @ '' exposes no HTTP port to route - a domain needs an HTTP endpoint.''))
       | Inr rps \<Rightarrow> (case resolveHostname domain h (an_name plan) of
           Inl e \<Rightarrow> Inl e
         | Inr (hostname, said) \<Rightarrow>
             (let tls = or_default (bo_tls opts) (case an_domain plan of Some d \<Rightarrow> dp_tls d | None \<Rightarrow> True);
                  staging = (bo_staging opts \<or> (case an_domain plan of Some d \<Rightarrow> dp_staging d | None \<Rightarrow> False));
                  challenge = (case an_domain plan of Some d \<Rightarrow> dp_dns_challenge d | None \<Rightarrow> False)
              in Inr (Some \<lparr>rs_binding = \<lparr>ib_hostname = hostname, ib_tls = tls, ib_direct = bo_direct opts, ib_routes = rps\<rparr>,
                    rs_staging = staging, rs_sslip = isSslip hostname,
                    rs_warnings = said @
                      (if challenge then [''certChallenge dns-01 is not supported - using http-01 (no wildcard).''] else []) @
                      (if isSslip hostname \<and> tls \<and> \<not> staging then [''sslip.io shares one Let's Encrypt rate-limit bucket - '' @
                         ''certificates are best-effort. Use --domain <your-domain> for reliable TLS.''] else [])\<rparr>)))))"

section \<open>The login gate\<close>

datatype gate_mode = Gate_None | Gate_Basic

record gate_intent =
  gi_mode :: gate_mode
  gi_user :: "string option"
  gi_pass :: "string option"

text \<open>What the route renders, the secret to create, what is stored, and whether the password was made up.\<close>

record gate =
  ga_user :: string
  ga_hash :: string
  ga_secret :: "(string \<times> string) option"
  ga_state :: gate_state
  ga_generated :: bool

record gate_input =
  gq_ingress :: bool
  gq_access :: "access_mode option"
  gq_auth :: "auth_mode option"
  gq_intent :: "gate_intent option"
  gq_prev :: "gate_state option"

text \<open>The package's hash (of a seed and a text), and the text of random bytes.\<close>

record gate_crypto =
  gc_hash :: "string \<Rightarrow> string \<Rightarrow> string"
  gc_password :: "string \<Rightarrow> string"

definition auth_user_ok :: "string \<Rightarrow> bool" where
  "auth_user_ok u \<longleftrightarrow> u \<noteq> [] \<and> length u \<le> 32 \<and> list_all (\<lambda>c. is_word c \<or> c = CHR ''.'' \<or> c = CHR ''-'') u"

definition checkedUser :: "string option \<Rightarrow> string \<Rightarrow> failure + string" where
  "checkedUser user fallback = (let u = trim (or_default user fallback) in if auth_user_ok u then Inr u
     else Inl (Plain_Error (''Invalid --auth-user '' @ quoted u @ '' - allowed: letters, digits, and . _ - (max 32).'')))"

definition resolveIngressAuth :: "gate_crypto \<Rightarrow> string \<Rightarrow> string \<Rightarrow> gate_intent \<Rightarrow> failure + gate" where
  "resolveIngressAuth C seed app intent = (case checkedUser (gi_user intent) ''admin'' of
       Inl e \<Rightarrow> Inl e
     | Inr user \<Rightarrow> (let given = or_default (gi_pass intent) [];
           plaintext = (if given = [] then gc_password C seed else given);
           n = ''vops-'' @ app @ ''-ingress-auth''; h = gc_hash C seed plaintext
         in Inr \<lparr>ga_user = user, ga_hash = h, ga_secret = Some (n, plaintext),
              ga_state = \<lparr>gt_user = user, gt_secret = n, gt_hash = h\<rparr>, ga_generated = (given = [])\<rparr>))"

definition keptGate :: "gate_input \<Rightarrow> failure + gate option" where
  "keptGate i = (case gq_prev i of
       None \<Rightarrow> Inr None
     | Some prev \<Rightarrow> if nonempty (Option.bind (gq_intent i) gi_pass) \<noteq> None then Inr None
         else (case checkedUser (Option.bind (gq_intent i) gi_user) (gt_user prev) of
             Inl e \<Rightarrow> Inl e
           | Inr user \<Rightarrow> Inr (Some \<lparr>ga_user = user, ga_hash = gt_hash prev, ga_secret = None,
                ga_state = prev\<lparr>gt_user := user\<rparr>, ga_generated = False\<rparr>)))"

text \<open>No login of its own: the first visitor becomes the administrator, or the manifest says none.\<close>

definition nakedReason :: "gate_input \<Rightarrow> string option" where
  "nakedReason i = (if gq_access i = Some First_Visit
     then Some (''it hands admin to the first visitor of its public URL, and certificate transparency logs publish that hostname within seconds'')
     else if gq_auth i = Some Auth_None \<and> gq_access i \<noteq> Some Access_Credentials
     then Some (''it has no login of its own - anyone who reaches its public URL is inside it, and certificate transparency logs publish that hostname within seconds'')
     else None)"

definition WAYS_OUT :: string where
  "WAYS_OUT = ''Re-run with --auth basic to put a login gate in front, --auth none to expose it with no login at all, or drop --domain to keep it on the host.''"

definition ungated :: "string \<Rightarrow> string \<Rightarrow> failure" where
  "ungated app reason = Agent_Bad_Request (agentError ''VOPS_APP_EXPOSURE_UNGATED'' Cat_Input
     (''Refusing to expose '' @ quoted app @ '' on a public domain: '' @ reason @ ''. '' @ WAYS_OUT) (Some True)
     (Some (''Ask the user which they want, then re-run: `--auth basic` gates '' @ app @
       '' behind a generated login, `--auth none` exposes it with no login at all.''))) Exit_Invalid_Input"

definition resolveDeployGate :: "gate_crypto \<Rightarrow> string \<Rightarrow> string \<Rightarrow> gate_input \<Rightarrow> failure + gate option" where
  "resolveDeployGate C seed app i = (case map_option gi_mode (gq_intent i) of
       Some Gate_Basic \<Rightarrow> if \<not> gq_ingress i
         then Inl (Plain_Error ''--auth basic gates the ingress - add --domain (or --domain auto) so there is something to gate.'')
         else (case keptGate i of
             Inl e \<Rightarrow> Inl e
           | Inr (Some g) \<Rightarrow> Inr (Some g)
           | Inr None \<Rightarrow> (case resolveIngressAuth C seed app (the (gq_intent i)) of Inl e \<Rightarrow> Inl e | Inr g \<Rightarrow> Inr (Some g)))
     | Some Gate_None \<Rightarrow> Inr None
     | None \<Rightarrow> (case gq_prev i of
         Some prev \<Rightarrow> if gq_ingress i
           then Inr (Some \<lparr>ga_user = gt_user prev, ga_hash = gt_hash prev, ga_secret = None, ga_state = prev, ga_generated = False\<rparr>)
           else Inr None
       | None \<Rightarrow> if gq_ingress i
           then (case nakedReason i of Some r \<Rightarrow> Inl (ungated app r) | None \<Rightarrow> Inr None)
           else Inr None))"

section \<open>Post-install steps\<close>

definition replace_texts :: "string \<Rightarrow> string \<Rightarrow> string \<Rightarrow> string" where
  "replace_texts a b s = join b (split_text a s)"

definition resolveCommand :: "post_step \<Rightarrow> string option \<Rightarrow> string \<Rightarrow> string list option" where
  "resolveCommand step fqdn name = (if ps_needs_fqdn step \<and> nonempty fqdn = None then None
     else Some (map (\<lambda>arg. replace_texts ''{{install.name}}'' name
                       (replace_texts ''{{install.resolvedFqdn}}'' (or_default fqdn []) arg)) (ps_command step)))"

definition buildPostInstallScript :: "(string \<times> string \<times> string list) list \<Rightarrow> string list \<Rightarrow> string" where
  "buildPostInstallScript runs services = join nl (
     [''set +e'', ''VOPS_PI_FAIL=$(mktemp)'', ''echo '' @ single_quoted ''@@steps''] @
     flat_map (\<lambda>(name, container, command). [
       ''OUT=$(podman exec '' @ shq container @ '' '' @ join '' '' (map shq command) @ '' 2>&1); RC=$?'',
       ''echo '' @ dq (name @ ''=$RC''),
       ''[ '' @ dq ''$RC'' @ '' -eq 0 ] || { echo '' @ dq (''### '' @ name) @ '' >>'' @ dq ''$VOPS_PI_FAIL'' @ ''; echo '' @ dq ''$OUT'' @
         '' | tail -6 >>'' @ dq ''$VOPS_PI_FAIL'' @ ''; }'']) runs @
     [''echo '' @ single_quoted ''@@restart''] @
     map (\<lambda>s. ''systemctl restart '' @ shq s @ '' >/dev/null 2>&1; echo '' @ dq (s @ ''=$(systemctl is-active '' @ shq s @ '' 2>/dev/null)'')) services @
     [''echo '' @ single_quoted ''@@diag'', ''cat '' @ dq ''$VOPS_PI_FAIL'' @ '' 2>/dev/null; rm -f '' @ dq ''$VOPS_PI_FAIL'',
      ''echo '' @ single_quoted ''@@done''])"

text \<open>The blocks between the marks of the script; blank lines at their ends do not matter to the readers.\<close>

fun mark_blocks :: "string list \<Rightarrow> string list \<Rightarrow> string list list" where
  "mark_blocks ls [] = [ls]"
| "mark_blocks ls (l # rest) =
     (if l \<in> {''@@steps'', ''@@restart'', ''@@diag'', ''@@done''} then ls # mark_blocks [] rest
      else mark_blocks (ls @ [l]) rest)"

definition key_values :: "string list \<Rightarrow> (string \<times> string) list" where
  "key_values ls = List.map_filter (last_split CHR ''='') (map trim ls)"

definition step_details :: "string list \<Rightarrow> (string \<times> string) list" where
  "step_details ls = fold (\<lambda>chunk d. case index_of chunk nl of
       Some k \<Rightarrow> if k > 0 then AList.update (trim (take k chunk)) (trim (drop (Suc k) chunk)) d else d
     | None \<Rightarrow> d) (tl (split_text ''### '' (join nl (ls @ [[]])))) []"

record post_outcome =
  po_failed :: "(string \<times> string) list"
  po_not_active :: "string list"

definition parsePostInstallOutput :: "string \<Rightarrow> post_outcome" where
  "parsePostInstallOutput stdout =
     (let blocks = mark_blocks [] (lines_of stdout);
          block = (\<lambda>n. if n < length blocks then blocks ! n else []);
          details = step_details (block 3)
      in \<lparr>po_failed = map (\<lambda>(n, _). (n, or_default (map_of details n) [])) (filter (\<lambda>(_, code). code \<noteq> ''0'') (key_values (block 1))),
          po_not_active = map fst (filter (\<lambda>(_, state). state \<noteq> ''active'') (key_values (block 2)))\<rparr>)"

end
