(* ===== verification/App_Deploy.thy ===== *)
theory App_Deploy
  imports App_Support
begin

text \<open>
  Deploying an application on a host: the ledger of installs (src/src/apps/install-ledger.ts and the
  app_installs table of src/src/lib/store/local-store.ts), the round trips over SSH
  (app-deploy-runner.ts), the gate with its rollback (app-rollback.ts) and the deployment itself
  (vops-apps.service.ts). The reverse proxy and the DNS of vops-ingress.service.ts are the fields of
  a record of parameters, as are the parsing of manifests and the hash of the login gate.
\<close>

section \<open>The world of applications\<close>

text \<open>The local state and machines of the host services, and the table of installs.\<close>

record 'r app_world =
  aw_plane :: "'r plane"
  aw_installs :: "install list"

text \<open>What a deployment can throw: \<open>AppLeftRunningError\<close> is told apart from the rest.\<close>

datatype app_failure = App_Failure failure | Left_Running string

type_synonym ('r, 'a) aact = "('r app_world, app_failure, 'a) action"

definition on_plane :: "('r, 'a) hact \<Rightarrow> ('r, 'a) aact" where
  "on_plane m w = (case m (aw_plane w) of
       (Inl e, p) \<Rightarrow> (Inl (App_Failure e), w\<lparr>aw_plane := p\<rparr>)
     | (Inr x, p) \<Rightarrow> (Inr x, w\<lparr>aw_plane := p\<rparr>))"

definition of_result :: "failure + 'a \<Rightarrow> ('r, 'a) aact" where
  "of_result r = (case r of Inl e \<Rightarrow> throw (App_Failure e) | Inr x \<Rightarrow> ret x)"

definition refuse :: "string \<Rightarrow> ('r, 'a) aact" where
  "refuse m = throw (App_Failure (Bad_Request m))"

section \<open>The ledger\<close>

definition install_key :: "install \<Rightarrow> string \<times> string" where
  "install_key i = (in_host i, in_name i)"

definition put_install :: "install \<Rightarrow> install list \<Rightarrow> install list" where
  "put_install i is = filter (\<lambda>j. install_key j \<noteq> install_key i) is @ [i]"

definition saveInstall :: "install \<Rightarrow> ('r, unit) aact" where
  "saveInstall i = modify (\<lambda>w. w\<lparr>aw_installs := put_install i (aw_installs w)\<rparr>)"

definition install_at :: "string \<Rightarrow> string \<Rightarrow> 'r app_world \<Rightarrow> install option" where
  "install_at h n w = find (\<lambda>i. install_key i = (h, n)) (aw_installs w)"

definition getInstall_row :: "string \<Rightarrow> string \<Rightarrow> ('r, install option) aact" where
  "getInstall_row h n = gets (install_at h n)"

text \<open>\<open>ORDER BY host\<close>, \<open>ORDER BY updated_at DESC\<close>.\<close>

fun text_le :: "string \<Rightarrow> string \<Rightarrow> bool" where
  "text_le [] t = True"
| "text_le (c # s) [] = False"
| "text_le (c # s) (d # t) = (if c = d then text_le s t else (of_char c :: nat) < of_char d)"

fun insert_host :: "install \<Rightarrow> install list \<Rightarrow> install list" where
  "insert_host i [] = [i]"
| "insert_host i (j # js) = (if text_le (in_host i) (in_host j) then i # j # js else j # insert_host i js)"

definition findInstalls :: "string \<Rightarrow> ('r, install list) aact" where
  "findInstalls n = gets (\<lambda>w. foldr insert_host (filter (\<lambda>i. in_name i = n) (aw_installs w)) [])"

definition listInstalls :: "string option \<Rightarrow> ('r, install_summary list) aact" where
  "listInstalls h = gets (\<lambda>w. map installSummary (sort_key (\<lambda>i. - in_updated_at i)
     (filter (\<lambda>i. case nonempty h of Some n \<Rightarrow> in_host i = n | None \<Rightarrow> True) (aw_installs w))))"

definition deleteInstall :: "string \<Rightarrow> string \<Rightarrow> ('r, unit) aact" where
  "deleteInstall h n = modify (\<lambda>w. w\<lparr>aw_installs := filter (\<lambda>i. install_key i \<noteq> (h, n)) (aw_installs w)\<rparr>)"

definition redeployBaseline :: "install option \<Rightarrow> install option" where
  "redeployBaseline prev = (case prev of Some p \<Rightarrow> if in_status p = Deployed then Some p else None | None \<Rightarrow> None)"

definition beginInstall :: "install \<Rightarrow> ('r, unit) aact" where
  "beginInstall i = saveInstall (i\<lparr>in_status := Installing\<rparr>)"

definition revertInstall :: "install \<Rightarrow> install option \<Rightarrow> ('r, unit) aact" where
  "revertInstall i prev = (case prev of Some p \<Rightarrow> saveInstall p | None \<Rightarrow> deleteInstall (in_host i) (in_name i))"

definition withLedgerRevert :: "install \<Rightarrow> install option \<Rightarrow> ('r, 'a) aact \<Rightarrow> ('r, 'a) aact" where
  "withLedgerRevert i prev run = catching run (\<lambda>e. case e of
       Left_Running m \<Rightarrow> throw e
     | App_Failure f \<Rightarrow> andThen (revertInstall i prev) (\<lambda>_. throw e))"

section \<open>What a deployment stands on\<close>

datatype dns_action = Dns_Created | Dns_Reused | Dns_Repointed

record app_source =
  src_catalog :: "string option"
  src_file :: "string option"
  src_image :: "string option"

text \<open>
  The TCP probe of the connection check, the plan of a source (the manifest of a catalog entry or a
  file, parsed and normalised), the hash and passwords of the gate, the switch
  \<open>VOPS_APP_NO_ROLLBACK\<close>, and the ingress: the look at DNS, the writing and discarding of a record,
  the starting of the proxy, the attaching of a route and its removal.
\<close>

record 'r platform =
  pf_probe :: "string \<Rightarrow> nat \<Rightarrow> 'r \<Rightarrow> bool \<times> 'r"
  pf_load :: "app_source \<Rightarrow> string option \<Rightarrow> failure + app_plan"
  pf_gate :: gate_crypto
  pf_no_rollback :: bool
  pf_preflight_dns :: "host \<Rightarrow> ingress_binding \<Rightarrow> bool \<Rightarrow> bool \<Rightarrow> ('r, string option) hact"
  pf_ensure_dns :: "host \<Rightarrow> ingress_binding \<Rightarrow> bool \<Rightarrow> ('r, (dns_action \<times> dns_record) option) hact"
  pf_discard_dns :: "(dns_action \<times> dns_record) option \<Rightarrow> ('r, unit) hact"
  pf_ingress_up :: "string \<Rightarrow> string option \<Rightarrow> ('r, unit) hact"
  pf_attach :: "host \<Rightarrow> install \<Rightarrow> ingress_binding \<Rightarrow> bool \<Rightarrow> gate option \<Rightarrow> (dns_action \<times> dns_record) option \<Rightarrow>
      ('r, ingress_state \<times> string) hact"
  pf_cleanup :: "host \<Rightarrow> install \<Rightarrow> ('r, unit) hact"

section \<open>Round trips\<close>

definition SMOKE_WINDOW :: nat where
  "SMOKE_WINDOW = 120"

definition startupWindow :: "smoke_plan option \<Rightarrow> nat" where
  "startupWindow st = (let asked = (case st of None \<Rightarrow> 0
       | Some s \<Rightarrow> max (or_default (sm_timeout s) 0) (or_default (sm_retries s) 0 * 5))
     in min 600 (max SMOKE_WINDOW asked))"

definition runSmoke :: "'r machine \<Rightarrow> ssh_target \<Rightarrow> app_plan \<Rightarrow> host_plan \<Rightarrow> ('r, smoke_outcome) hact" where
  "runSmoke M t plan hp = (let st = an_smoke plan in
     if map_option sm_type st = Some Smoke_Skip
     then ret \<lparr>so_ok = True, so_detail = ''skipped ('' @ or_default (Option.bind st sm_reason) ''no smoke test'' @ '')''\<rparr>
     else (case ports_of (hp_ports hp) (an_primary plan) of
         [] \<Rightarrow> ret \<lparr>so_ok = True, so_detail = ''no exposed port to probe''\<rparr>
       | p # _ \<Rightarrow> if map_option sm_type st = Some Smoke_Http \<or> st = None \<and> httpPrimary plan
           then (let expect = or_default (Option.bind st sm_status) 200 in
             andThen (runScript M t (buildSmokeHttpScript (pp_host p) (or_default (Option.bind st sm_path) ''/'') expect (startupWindow st)) False)
               (\<lambda>res. ret (parseHttpSmoke (ex_stdout res) expect (Some (pp_host p)))))
           else andThen (runScript M t (buildSmokeTcpScript (pp_host p) (startupWindow st)) False)
               (\<lambda>res. ret (parseTcpSmoke (ex_stdout res) (Some (pp_host p))))))"

definition pullImages :: "'r machine \<Rightarrow> ssh_target \<Rightarrow> string list \<Rightarrow> registry_login option \<Rightarrow> ('r, string option) hact" where
  "pullImages M t images registry = andThen (runScript M t (buildPullScript images registry) True) (\<lambda>res.
     case parsePullOutput (ex_stdout res) of (completed, failures) \<Rightarrow> ret (
       if \<not> completed then Some (trim (''Image pull did not complete on '' @ h_name (tgt_host t) @ ''. '' @ trim (ex_stderr res)))
       else if failures \<noteq> [] then Some (''Image pull failed: '' @ join '', '' failures @
          '' - check the tag exists and the host can reach the registry.'')
       else None))"

definition gatherDiag :: "'r machine \<Rightarrow> ssh_target \<Rightarrow> app_plan \<Rightarrow> ('r, string) hact" where
  "gatherDiag M t plan = (case (case component_at plan (an_primary plan) of
         Some c \<Rightarrow> Some c | None \<Rightarrow> find (\<lambda>_. True) (an_components plan)) of
       None \<Rightarrow> throw (Plain_Error ''Cannot read properties of undefined (reading 'container')'')
     | Some c \<Rightarrow> andThen (runScript M t (buildDiagScript (an_name plan) (cm_container c)) True) (\<lambda>res. ret (trim (ex_stdout res))))"

record post_report =
  pr_warnings :: "string list"
  pr_smoke :: "string option"

definition post_runs :: "app_plan \<Rightarrow> string option \<Rightarrow> (string \<times> string \<times> string list) list" where
  "post_runs plan fqdn = List.map_filter (\<lambda>step.
     case (resolveCommand step fqdn (an_name plan), component_at plan (ps_component step)) of
       (Some command, Some c) \<Rightarrow> Some (ps_name step, cm_container c, command)
     | _ \<Rightarrow> None) (an_post plan)"

definition runPostInstall :: "'r machine \<Rightarrow> ssh_target \<Rightarrow> app_plan \<Rightarrow> host_plan \<Rightarrow> string option \<Rightarrow> ('r, post_report) hact" where
  "runPostInstall M t plan hp fqdn = (let runs = post_runs plan fqdn in
     if runs = [] then ret \<lparr>pr_warnings = [], pr_smoke = None\<rparr>
     else andThen (runScript M t (buildPostInstallScript runs (hp_services hp)) True) (\<lambda>res.
       let out = parsePostInstallOutput (ex_stdout res) in
       andThen (runSmoke M t plan hp) (\<lambda>smoke. ret
         \<lparr>pr_warnings =
            map (\<lambda>(n, d). ''post-install step '' @ quoted n @ '' failed'' @ detailSuffix d) (po_failed out) @
            map (\<lambda>s. s @ '' did not come back after the post-install restart'') (po_not_active out) @
            (if so_ok smoke then [] else [''the app did not answer after the post-install restart ('' @ so_detail smoke @ '')'']),
          pr_smoke = Some (so_detail smoke)\<rparr>)))"

section \<open>The gate of a deployment, and its rollback\<close>

definition probeAppData :: "'r machine \<Rightarrow> ssh_target \<Rightarrow> host_plan \<Rightarrow> ('r, host_data) hact" where
  "probeAppData M t hp = andThen (runScript M t (buildDataProbeScript (hp_volumes hp) (map sec_name (hp_secrets hp))) True)
     (\<lambda>res. ret (parseDataProbe (ex_stdout res)))"

definition restore_input :: "install \<Rightarrow> string \<Rightarrow> deploy_input" where
  "restore_input prev generator = \<lparr>dpi_dir = appUnitDir (in_name prev), dpi_units = in_units prev, dpi_health = [],
     dpi_secrets = [], dpi_services = map (\<lambda>c. ic_container c @ ''.service'') (in_components prev),
     dpi_prereq = prereqServiceNames (in_pod prev) (in_volumes prev), dpi_generator = generator, dpi_registry = None\<rparr>"

definition teardown_input :: "app_plan \<Rightarrow> host_plan \<Rightarrow> host_data \<Rightarrow> remove_input" where
  "teardown_input plan hp pre = (case dataCreatedInRun (hp_volumes hp) (map sec_name (hp_secrets hp)) pre of (volumes, secrets) \<Rightarrow>
     \<lparr>rmi_dir = hp_dir hp, rmi_services = hp_services hp, rmi_prereq = hp_prereq hp,
      rmi_containers = map cm_container (an_components plan), rmi_pod = hp_pod hp, rmi_secrets = secrets, rmi_volumes = volumes,
      rmi_purge = True\<rparr>)"

definition rollbackDeploy :: "'r machine \<Rightarrow> ssh_target \<Rightarrow> app_plan \<Rightarrow> host_plan \<Rightarrow> install option \<Rightarrow> string \<Rightarrow> host_data \<Rightarrow>
    ('r, exec_result) hact" where
  "rollbackDeploy M t plan hp prev generator pre = (case prev of
       Some p \<Rightarrow> runScript M t (buildDeployScript (restore_input p generator)) True
     | None \<Rightarrow> runScript M t (buildRemoveScript (teardown_input plan hp pre)) True)"

definition appended :: "string \<Rightarrow> string" where
  "appended note = (if note = [] then [] else nl @ note)"

definition gateOrRollback :: "'r machine \<Rightarrow> 'r platform \<Rightarrow> ssh_target \<Rightarrow> app_plan \<Rightarrow> host_plan \<Rightarrow> install option \<Rightarrow> string \<Rightarrow>
    host_data \<Rightarrow> exec_result \<Rightarrow> ('r, smoke_outcome) aact" where
  "gateOrRollback M P t plan hp prev generator pre res =
     (let outcome = parseDeployOutput (ex_stdout res) (hp_services hp); reused = reusedDataNote pre in
      if \<not> do_ok outcome
      then andThen (on_plane (rollbackDeploy M t plan hp prev generator pre)) (\<lambda>_.
           refuse (trim (''Deploy failed ('' @ or_default (do_error outcome) ''undefined'' @ ''). '' @ trim (ex_stderr res) @
             '' Rolled back.'' @ appended reused)))
      else andThen (on_plane (runSmoke M t plan hp)) (\<lambda>smoke.
        if so_ok smoke then ret smoke
        else andThen (on_plane (gatherDiag M t plan)) (\<lambda>diag.
          if pf_no_rollback P
          then throw (Left_Running (''Smoke test failed ('' @ so_detail smoke @ ''). Left running (VOPS_APP_NO_ROLLBACK).'' @
                 appended reused @ nl @ diag))
          else andThen (on_plane (rollbackDeploy M t plan hp prev generator pre)) (\<lambda>_.
            refuse (''Smoke test failed ('' @ so_detail smoke @ ''). Rolled back.'' @ appended reused @ nl @ diag)))))"

section \<open>The deployment\<close>

record ingress_opts =
  io_binding :: binding_opts
  io_email :: "string option"
  io_auth :: "gate_intent option"

record deploy_opts =
  dop_name :: "string option"
  dop_set :: "(string \<times> string) list option"
  dop_dry_run :: bool
  dop_ingress :: "ingress_opts option"
  dop_public :: "bool option"
  dop_registry :: "(string \<times> string) option"

record plan_view =
  pv_app :: string
  pv_host :: string
  pv_kind :: app_kind
  pv_dir :: string
  pv_files :: "(string \<times> string) list"
  pv_secrets :: "string list"
  pv_endpoints :: "app_endpoint list"
  pv_services :: "string list"
  pv_coexistence :: bool
  pv_ingress :: "(string \<times> bool \<times> bool \<times> string list) option"
  pv_access :: "(access_plan \<times> string option) option"
  pv_gate :: "string option"
  pv_warnings :: "string list"

record deploy_result =
  dres_app :: string
  dres_host :: string
  dres_status :: install_status
  dres_endpoints :: "app_endpoint list"
  dres_components :: "(string \<times> string) list"
  dres_smoke :: string
  dres_ingress :: "(string \<times> bool \<times> string \<times> string list) option"
  dres_access :: "(access_plan \<times> string option) option"
  dres_gate :: "(string \<times> string \<times> bool) option"
  dres_warnings :: "string list"

definition binding_ingress :: "resolution option \<Rightarrow> ingress_binding option" where
  "binding_ingress r = map_option rs_binding r"

definition planView :: "app_plan \<Rightarrow> host \<Rightarrow> host_plan \<Rightarrow> resolution option \<Rightarrow> gate option \<Rightarrow> plan_view" where
  "planView plan h hp r g = \<lparr>pv_app = an_name plan, pv_host = h_name h, pv_kind = an_kind plan, pv_dir = hp_dir hp,
     pv_files = hp_units hp, pv_secrets = map sec_name (hp_secrets hp), pv_endpoints = hp_endpoints hp,
     pv_services = hp_services hp, pv_coexistence = hp_coexistence hp,
     pv_ingress = map_option (\<lambda>x. (ib_hostname (rs_binding x), ib_tls (rs_binding x), rs_staging x, rs_warnings x)) r,
     pv_access = accessView (an_access plan) (hp_endpoints hp) (an_primary plan)
                   (map_option (\<lambda>x. (ib_hostname (rs_binding x), ib_tls (rs_binding x))) r),
     pv_gate = map_option (gt_user \<circ> ga_state) g, pv_warnings = an_warnings plan\<rparr>"

definition app_preflight :: "'r machine \<Rightarrow> string \<Rightarrow> ('r, host_facts) hact" where
  "app_preflight M n = andThen (show_host n) (\<lambda>h. andThen (resolveSshTarget M h) (\<lambda>t.
     andThen (runScript M t buildPreflightScript False) (\<lambda>res. ret (parsePreflight (ex_stdout res)))))"

definition portReservations :: "string \<Rightarrow> string \<Rightarrow> install option \<Rightarrow> ('r, reservations) aact" where
  "portReservations hostName appName prev = andThen (listInstalls (Some hostName)) (\<lambda>siblings. ret
     \<lparr>rv_own = (case prev of Some p \<Rightarrow> fold (\<lambda>c. AList.update (ic_name c) (ic_published c)) (in_components p) [] | None \<Rightarrow> []),
      rv_others = flat_map (\<lambda>i. map ep_port (su_endpoints i))
        (filter (\<lambda>i. su_name i \<noteq> appName \<and> su_status i \<noteq> Install_Removed) siblings)\<rparr>)"

definition no_binding :: binding_opts where
  "no_binding = \<lparr>bo_domain = None, bo_tls = None, bo_staging = False, bo_direct = False, bo_force_dns = False\<rparr>"

definition binding_of :: "deploy_opts \<Rightarrow> binding_opts" where
  "binding_of opts = (case dop_ingress opts of Some i \<Rightarrow> io_binding i | None \<Rightarrow> no_binding)"

definition intent_of :: "deploy_opts \<Rightarrow> gate_intent option" where
  "intent_of opts = Option.bind (dop_ingress opts) io_auth"

text \<open>A refusal of the gate that is a request error travels as it is; any other becomes one.\<close>

definition gate_failure :: "failure \<Rightarrow> failure" where
  "gate_failure e = (case e of Plain_Error m \<Rightarrow> Bad_Request m | _ \<Rightarrow> e)"

definition resolveGate :: "'r platform \<Rightarrow> app_plan \<Rightarrow> resolution option \<Rightarrow> gate_intent option \<Rightarrow> install option \<Rightarrow> ('r, gate option) aact" where
  "resolveGate P plan r intent prev = andThen (on_plane mint) (\<lambda>seed.
     of_result (case resolveDeployGate (pf_gate P) seed (an_name plan)
         \<lparr>gq_ingress = (r \<noteq> None), gq_access = map_option acc_mode (an_access plan), gq_auth = an_auth plan, gq_intent = intent,
          gq_prev = Option.bind prev (\<lambda>i. Option.bind (in_ingress i) is_auth)\<rparr> of
       Inl e \<Rightarrow> Inl (gate_failure e) | Inr g \<Rightarrow> Inr g))"

definition checkDns :: "'r platform \<Rightarrow> host \<Rightarrow> resolution \<Rightarrow> deploy_opts \<Rightarrow> ('r, resolution) aact" where
  "checkDns P h r opts = andThen (on_plane (pf_preflight_dns P h (rs_binding r) (bo_force_dns (binding_of opts)) (dop_dry_run opts)))
     (\<lambda>dns. ret (case nonempty dns of Some m \<Rightarrow> r\<lparr>rs_warnings := rs_warnings r @ [m]\<rparr> | None \<Rightarrow> r))"

text \<open>The plan with the given inputs: required ones are asked for by a real deployment only.\<close>

definition load_plan :: "'r platform \<Rightarrow> app_source \<Rightarrow> deploy_opts \<Rightarrow> failure + app_plan" where
  "load_plan P source opts = (case pf_load P source (dop_name opts) of
       Inl e \<Rightarrow> Inl e
     | Inr raw \<Rightarrow> (let given = applyOverrides raw (or_default (dop_set opts) []) in
         case (if dop_dry_run opts then None else assertSecretsSatisfied given) of
           Some e \<Rightarrow> Inl e
         | None \<Rightarrow> Inr (refreshAccessValues (pruneUnsetOptional given))))"

record prepared =
  prep_host :: host
  prep_target :: ssh_target
  prep_facts :: host_facts
  prep_plan :: app_plan
  prep_resolution :: "resolution option"
  prep_prev :: "install option"
  prep_gate :: "gate option"
  prep_publish :: "publish_intent \<times> string option"
  prep_hp :: host_plan

text \<open>Everything up to the point where a dry run returns: nothing is changed on the host.\<close>

definition bind_plan :: "'r platform \<Rightarrow> host \<Rightarrow> ssh_target \<Rightarrow> host_facts \<Rightarrow> deploy_opts \<Rightarrow> app_plan \<Rightarrow> resolution option \<Rightarrow> ('r, prepared) aact" where
  "bind_plan P h t facts opts plan0 r =
     (let plan = plan0\<lparr>an_warnings := an_warnings plan0 @ internalExposureWarnings plan0 (binding_ingress r)\<rparr> in
      andThen (getInstall_row (h_name h) (an_name plan)) (\<lambda>prev.
      andThen (resolveGate P plan r (intent_of opts) prev) (\<lambda>g.
      let publish = resolvePublishIntent (dop_public opts) prev in
      andThen (portReservations (h_name h) (an_name plan) prev) (\<lambda>rv.
      andThen (of_result (planHostDeploy plan facts (h_address h) (binding_ingress r) (fst publish) rv)) (\<lambda>(hp, bound).
      andThen (case r of Some x \<Rightarrow> andThen (checkDns P h x opts) (\<lambda>y. ret (Some y)) | None \<Rightarrow> ret None) (\<lambda>r'.
      ret \<lparr>prep_host = h, prep_target = t, prep_facts = facts, prep_plan = bound, prep_resolution = r', prep_prev = prev,
           prep_gate = g, prep_publish = publish, prep_hp = hp\<rparr>))))))"

definition prepare_deploy :: "'r machine \<Rightarrow> 'r platform \<Rightarrow> app_source \<Rightarrow> string \<Rightarrow> deploy_opts \<Rightarrow> ('r, prepared) aact" where
  "prepare_deploy M P source hostName opts =
     andThen (on_plane (show_host hostName)) (\<lambda>h.
     andThen (on_plane (assertHostWritable M h)) (\<lambda>_.
     andThen (on_plane (assertReady M (pf_probe P) hostName)) (\<lambda>_.
     andThen (on_plane (resolveSshTarget M h)) (\<lambda>t.
     andThen (on_plane (app_preflight M hostName)) (\<lambda>facts.
     let issues = readiness facts in
     if issues \<noteq> [] then refuse (''Host '' @ quoted hostName @ '' is not ready for apps: '' @ join '' '' issues)
     else andThen (of_result (load_plan P source opts)) (\<lambda>plan.
       andThen (of_result (resolveBinding plan h (binding_of opts))) (bind_plan P h t facts opts plan)))))))"

definition claim_of :: "prepared \<Rightarrow> instant \<Rightarrow> install" where
  "claim_of p now = (let i = toInstall (prep_plan p) (prep_host p) (prep_hp p) (prep_prev p) now in
     i\<lparr>in_publish := Some (fst (prep_publish p)),
       in_secrets := (case prep_gate p of Some g \<Rightarrow> uniq (in_secrets i @ [gt_secret (ga_state g)]) | None \<Rightarrow> in_secrets i)\<rparr>)"

definition deploy_script_of :: "prepared \<Rightarrow> registry_login option \<Rightarrow> deploy_input" where
  "deploy_script_of p registry = (let hp = prep_hp p in
     \<lparr>dpi_dir = hp_dir hp, dpi_units = hp_units hp, dpi_health = hp_health hp, dpi_secrets = map toMaterial (hp_secrets hp),
      dpi_services = hp_services hp, dpi_prereq = hp_prereq hp, dpi_generator = or_default (hf_quadlet (prep_facts p)) [],
      dpi_registry = registry\<rparr>)"

text \<open>From the ingress to the smoke test; a failure discards the DNS record this run created.\<close>

definition build_app :: "'r machine \<Rightarrow> 'r platform \<Rightarrow> prepared \<Rightarrow> deploy_opts \<Rightarrow> registry_login option \<Rightarrow> host_data \<Rightarrow> ('r, smoke_outcome) aact" where
  "build_app M P p opts registry pre =
     andThen (if prep_resolution p \<noteq> None
              then on_plane (pf_ingress_up P (h_name (prep_host p)) (Option.bind (dop_ingress opts) io_email)) else ret ()) (\<lambda>_.
     andThen (on_plane (pullImages M (prep_target p) (map cm_image (an_components (prep_plan p))) registry)) (\<lambda>err. case err of
       Some m \<Rightarrow> refuse m
     | None \<Rightarrow> andThen (on_plane (runScript M (prep_target p) (buildDeployScript (deploy_script_of p registry)) True)) (\<lambda>res.
         gateOrRollback M P (prep_target p) (prep_plan p) (prep_hp p) (redeployBaseline (prep_prev p))
           (or_default (hf_quadlet (prep_facts p)) []) pre res)))"

definition withDnsCleanup :: "'r platform \<Rightarrow> (dns_action \<times> dns_record) option \<Rightarrow> ('r, 'a) aact \<Rightarrow> ('r, 'a) aact" where
  "withDnsCleanup P dns run = catching run (\<lambda>e. andThen (on_plane (pf_discard_dns P dns)) (\<lambda>_. throw e))"

definition mutate_host :: "'r machine \<Rightarrow> 'r platform \<Rightarrow> prepared \<Rightarrow> deploy_opts \<Rightarrow> registry_login option \<Rightarrow>
    ('r, smoke_outcome \<times> (dns_action \<times> dns_record) option) aact" where
  "mutate_host M P p opts registry =
     andThen (case prep_resolution p of
         Some r \<Rightarrow> on_plane (pf_ensure_dns P (prep_host p) (rs_binding r) (bo_force_dns (binding_of opts)))
       | None \<Rightarrow> ret None) (\<lambda>dns.
     andThen (if redeployBaseline (prep_prev p) \<noteq> None then ret UNPROBED_DATA
              else on_plane (probeAppData M (prep_target p) (prep_hp p))) (\<lambda>pre.
     andThen (withDnsCleanup P dns (build_app M P p opts registry pre)) (\<lambda>smoke. ret (smoke, dns))))"

definition attach_ingress :: "'r platform \<Rightarrow> prepared \<Rightarrow> install \<Rightarrow> (dns_action \<times> dns_record) option \<Rightarrow>
    ('r, install \<times> (string \<times> bool \<times> string \<times> string list) option) aact" where
  "attach_ingress P p i dns = (case prep_resolution p of
       None \<Rightarrow> ret (i, None)
     | Some r \<Rightarrow> andThen (on_plane (pf_attach P (prep_host p) i (rs_binding r) (rs_staging r) (prep_gate p) dns)) (\<lambda>(st, note).
         let i' = i\<lparr>in_ingress := Some st, in_endpoints := applyIngressScheme (in_endpoints i) st\<rparr> in
         andThen (saveInstall i') (\<lambda>_. ret (i', Some (is_hostname st, is_tls st, note, rs_warnings r)))))"

definition result_of :: "prepared \<Rightarrow> deploy_opts \<Rightarrow> install \<Rightarrow> smoke_outcome \<Rightarrow>
    (string \<times> bool \<times> string \<times> string list) option \<Rightarrow> post_report \<Rightarrow> deploy_result" where
  "result_of p opts i smoke out post = \<lparr>dres_app = an_name (prep_plan p), dres_host = h_name (prep_host p),
     dres_status = in_status i, dres_endpoints = in_endpoints i,
     dres_components = map (\<lambda>c. (ic_name c, ic_image c)) (in_components i),
     dres_smoke = or_default (pr_smoke post) (so_detail smoke), dres_ingress = out,
     dres_access = accessView (an_access (prep_plan p)) (in_endpoints i) (an_primary (prep_plan p))
                     (map_option (\<lambda>(hostname, tls, _, _). (hostname, tls)) out),
     dres_gate = map_option (\<lambda>g. (gt_user (ga_state g), gt_secret (ga_state g), ga_generated g)) (prep_gate p),
     dres_warnings = an_warnings (prep_plan p) @ secretReuseWarnings (prep_plan p) (dop_set opts) (prep_prev p) @
       (case nonempty (snd (prep_publish p)) of Some m \<Rightarrow> [m] | None \<Rightarrow> []) @ pr_warnings post\<rparr>"

definition confirm_install :: "'r machine \<Rightarrow> 'r platform \<Rightarrow> prepared \<Rightarrow> deploy_opts \<Rightarrow> install \<Rightarrow> smoke_outcome \<Rightarrow>
    (dns_action \<times> dns_record) option \<Rightarrow> ('r, deploy_result) aact" where
  "confirm_install M P p opts claim smoke dns =
     andThen (on_plane clock) (\<lambda>t. let i = claim\<lparr>in_updated_at := t\<rparr> in
     andThen (saveInstall i) (\<lambda>_.
     andThen (on_plane (appendAudit ''app.deploy'' [(''app'', JStr (an_name (prep_plan p))), (''host'', JStr (h_name (prep_host p))),
        (''appId'', JStr (an_app (prep_plan p))), (''coexistence'', JBool (hp_coexistence (prep_hp p)))])) (\<lambda>_.
     andThen (attach_ingress P p i dns) (\<lambda>(i', out).
     andThen (on_plane (runPostInstall M (prep_target p) (prep_plan p) (prep_hp p) (map_option fst out))) (\<lambda>post.
     ret (result_of p opts i' smoke out post))))))"

definition carry_out :: "'r machine \<Rightarrow> 'r platform \<Rightarrow> deploy_opts \<Rightarrow> prepared \<Rightarrow> ('r, deploy_result) aact" where
  "carry_out M P opts p =
     andThen (on_plane clock) (\<lambda>now. let claim = claim_of p now; registry = resolveRegistryLogin (prep_plan p) (dop_registry opts) in
     andThen (beginInstall claim) (\<lambda>_.
     andThen (withLedgerRevert claim (prep_prev p) (mutate_host M P p opts registry)) (\<lambda>(smoke, dns).
     confirm_install M P p opts claim smoke dns)))"

definition deploy_app :: "'r machine \<Rightarrow> 'r platform \<Rightarrow> app_source \<Rightarrow> string \<Rightarrow> deploy_opts \<Rightarrow> ('r, plan_view + deploy_result) aact" where
  "deploy_app M P source hostName opts = andThen (prepare_deploy M P source hostName opts) (\<lambda>p.
     if dop_dry_run opts
     then ret (Inl (planView (prep_plan p) (prep_host p) (prep_hp p) (prep_resolution p) (prep_gate p)))
     else andThen (carry_out M P opts p) (\<lambda>r. ret (Inr r)))"

end
