(* ===== verification/App_Lifecycle.thy ===== *)
theory App_Lifecycle
  imports App_Deploy
begin

text \<open>
  The operations on deployed applications: which install a name means (src/src/apps/app-resolve.ts),
  the life after a deployment (app-lifecycle.ts), the preparation of a host (setup of
  vops-apps.service.ts with podman-bootstrap.ts) and what the service lists and exposes.
\<close>

section \<open>Which install\<close>

definition hostList :: "install list \<Rightarrow> string" where
  "hostList ms = join '', '' (map in_host ms)"

definition ambiguousInstall :: "string \<Rightarrow> install list \<Rightarrow> failure" where
  "ambiguousInstall n ms = Agent_Bad_Request (agentError ''VOPS_APP_AMBIGUOUS'' Cat_Input
     (quoted n @ '' is installed on '' @ show_nat (length ms) @ '' hosts ('' @ hostList ms @ '') - vops will not guess which one you mean.'')
     (Some True) (Some (''Re-run the same command with `--host <host>` (one of: '' @ hostList ms @
       '') to act on that install - it also reaches an install whose host is gone.''))) Exit_Invalid_Input"

definition wrongHost :: "string \<Rightarrow> string \<Rightarrow> install list \<Rightarrow> failure" where
  "wrongHost n h ms = notFound ''VOPS_APP_NOT_FOUND'' (''No app install named '' @ quoted n @ '' on host '' @ quoted h @ ''.'')
     (''It is installed on '' @ hostList ms @ '' - re-run with `--host <one of those>`.'')"

definition pickInstall :: "string \<Rightarrow> string option \<Rightarrow> install list \<Rightarrow> failure + install" where
  "pickInstall n h ms = (case ms of
       [] \<Rightarrow> Inl (notFound ''VOPS_APP_NOT_FOUND'' (''No app install named '' @ quoted n @ ''.'')
               ''List what is deployed with `vops app list --json`.'')
     | m # rest \<Rightarrow> (case nonempty h of
         None \<Rightarrow> if rest \<noteq> [] then Inl (ambiguousInstall n ms) else Inr m
       | Some x \<Rightarrow> (case find (\<lambda>i. in_host i = x) ms of
           Some i \<Rightarrow> Inr i
         | None \<Rightarrow> Inl (wrongHost n x ms))))"

definition get_install :: "string \<Rightarrow> string option \<Rightarrow> ('r, install) aact" where
  "get_install n h = andThen (findInstalls n) (\<lambda>ms. of_result (pickInstall n h ms))"

section \<open>Reading\<close>

definition ingressUrl :: "(string \<times> bool) option \<Rightarrow> string option" where
  "ingressUrl s = map_option (\<lambda>(hostname, tls). (if tls then ''https'' else ''http'') @ ''://'' @ hostname) s"

record credentials_view =
  cv_app :: string
  cv_host :: string
  cv_access :: "(access_plan \<times> string option) option"
  cv_gate :: "(gate_state \<times> string option) option"

definition credentialsView :: "string \<Rightarrow> string option \<Rightarrow> ('r, credentials_view) aact" where
  "credentialsView n h = andThen (get_install n h) (\<lambda>i.
     let ingress = map_option (\<lambda>s. (is_hostname s, is_tls s)) (in_ingress i);
         access = accessView (in_access i) (in_endpoints i) (in_primary i) ingress;
         auth = Option.bind (in_ingress i) is_auth
     in if access = None \<and> auth = None then refuse (quoted n @ '' has no credentials block.'')
        else ret \<lparr>cv_app = in_name i, cv_host = in_host i, cv_access = access,
                  cv_gate = map_option (\<lambda>a. (a, ingressUrl ingress)) auth\<rparr>)"

definition safe_secret :: "string \<Rightarrow> bool" where
  "safe_secret s \<longleftrightarrow> s \<noteq> [] \<and> list_all (\<lambda>c. is_word c \<or> c = CHR ''.'' \<or> c = CHR ''-'') s"

definition revealable :: "install \<Rightarrow> string list" where
  "revealable i = List.map_filter nonempty
     [Option.bind (Option.bind (in_access i) acc_username) pt_secret, Option.bind (Option.bind (in_access i) acc_password) pt_secret,
      map_option gt_secret (Option.bind (in_ingress i) is_auth)]"

definition target_for :: "'r machine \<Rightarrow> string \<Rightarrow> ('r, ssh_target) aact" where
  "target_for M hostName = on_plane (andThen (show_host hostName) (resolveSshTarget M))"

definition reveal_script :: "string \<Rightarrow> string" where
  "reveal_script secret = ''podman secret inspect --showsecret --format '' @ single_quoted ''{{.SecretData}}'' @ '' '' @ single_quoted secret"

definition revealSecret :: "'r machine \<Rightarrow> string \<Rightarrow> string \<Rightarrow> string option \<Rightarrow> ('r, string \<times> string) aact" where
  "revealSecret M n secret h = andThen (get_install n h) (\<lambda>i.
     if secret \<notin> set (revealable i) then refuse (quoted secret @ '' is not a revealable credential of '' @ quoted n @ ''.'')
     else if \<not> safe_secret secret then refuse ''Invalid secret name.''
     else andThen (target_for M (in_host i)) (\<lambda>t.
       andThen (on_plane (runScript M t (reveal_script secret) True)) (\<lambda>res. let value = trim (ex_stdout res) in
       if value = [] then refuse (''Could not read '' @ quoted secret @ '' on '' @ quoted (in_host i) @ '' - needs podman >= 5 (`--showsecret`).'')
       else ret (secret, value))))"

definition install_services :: "install \<Rightarrow> string list" where
  "install_services i = map (\<lambda>c. ic_container c @ ''.service'') (in_components i)"

definition statusView :: "'r machine \<Rightarrow> string \<Rightarrow> string option \<Rightarrow> ('r, install \<times> unit_status list \<times> string list) aact" where
  "statusView M n h = andThen (get_install n h) (\<lambda>i. andThen (target_for M (in_host i)) (\<lambda>t.
     andThen (on_plane (runScript M t (buildStatusScript (in_name i) (install_services i)) True)) (\<lambda>res.
     ret (i, parseStatusOutput (ex_stdout res)))))"

definition logsView :: "'r machine \<Rightarrow> string \<Rightarrow> nat \<Rightarrow> string option \<Rightarrow> ('r, string) aact" where
  "logsView M n count h = andThen (get_install n h) (\<lambda>i. andThen (target_for M (in_host i)) (\<lambda>t.
     case (case find (\<lambda>c. ic_name c = in_primary i) (in_components i) of Some c \<Rightarrow> Some c | None \<Rightarrow> find (\<lambda>_. True) (in_components i)) of
       None \<Rightarrow> throw (App_Failure (Plain_Error ''Cannot read properties of undefined (reading 'container')''))
     | Some c \<Rightarrow> andThen (on_plane (runScript M t (buildLogsScript (ic_container c) count) True)) (\<lambda>res. ret (ex_stdout res))))"

definition list_apps :: "string option \<Rightarrow> ('r, install_summary list) aact" where
  "list_apps h = andThen (listInstalls h) (\<lambda>is. gets (\<lambda>w.
     map (\<lambda>i. if host_at (su_host i) (aw_plane w) = None then i\<lparr>su_host_missing := True\<rparr> else i) is))"

section \<open>Changing\<close>

definition restartApp :: "'r machine \<Rightarrow> string \<Rightarrow> string option \<Rightarrow> ('r, install \<times> unit_status list \<times> string list) aact" where
  "restartApp M n h = andThen (get_install n h) (\<lambda>i.
     andThen (on_plane (show_host (in_host i))) (\<lambda>ho.
     andThen (on_plane (assertHostWritable M ho)) (\<lambda>_.
     andThen (on_plane (resolveSshTarget M ho)) (\<lambda>t.
     andThen (on_plane (runScript M t (buildRestartScript (in_name i) (install_services i)) True)) (\<lambda>res.
     andThen (on_plane (appendAudit ''app.restart'' [(''app'', JStr (in_name i)), (''host'', JStr (in_host i))])) (\<lambda>_.
     ret (i, parseStatusOutput (ex_stdout res))))))))"

record remove_result =
  rmr_removed :: bool
  rmr_purge :: bool
  rmr_host :: string
  rmr_orphaned :: bool

definition forgetOrphan :: "install \<Rightarrow> bool \<Rightarrow> ('r, remove_result) aact" where
  "forgetOrphan i dryRun = (if dryRun
     then ret \<lparr>rmr_removed = False, rmr_purge = False, rmr_host = in_host i, rmr_orphaned = True\<rparr>
     else andThen (deleteInstall (in_host i) (in_name i)) (\<lambda>_.
       andThen (on_plane (appendAudit ''app.forget'' [(''app'', JStr (in_name i)), (''host'', JStr (in_host i)), (''reason'', JStr ''host-missing'')])) (\<lambda>_.
       ret \<lparr>rmr_removed = True, rmr_purge = False, rmr_host = in_host i, rmr_orphaned = True\<rparr>)))"

definition removal_of :: "install \<Rightarrow> bool \<Rightarrow> remove_input" where
  "removal_of i purge = \<lparr>rmi_dir = appUnitDir (in_name i), rmi_services = install_services i,
     rmi_prereq = prereqServiceNames (in_pod i) (in_volumes i), rmi_containers = map ic_container (in_components i), rmi_pod = in_pod i,
     rmi_secrets = in_secrets i, rmi_volumes = in_volumes i, rmi_purge = purge\<rparr>"

definition removeApp :: "'r machine \<Rightarrow> 'r platform \<Rightarrow> string \<Rightarrow> bool \<Rightarrow> bool \<Rightarrow> string option \<Rightarrow> ('r, remove_result) aact" where
  "removeApp M P n purge dryRun h = andThen (get_install n h) (\<lambda>i.
     andThen (on_plane (get_host (in_host i))) (\<lambda>found. case found of
       None \<Rightarrow> forgetOrphan i dryRun
     | Some ho \<Rightarrow> andThen (on_plane (assertHostWritable M ho)) (\<lambda>_.
         if dryRun then ret \<lparr>rmr_removed = False, rmr_purge = purge, rmr_host = in_host i, rmr_orphaned = False\<rparr>
         else andThen (if in_ingress i \<noteq> None then on_plane (pf_cleanup P ho i) else ret ()) (\<lambda>_.
           andThen (on_plane (resolveSshTarget M ho)) (\<lambda>t.
           andThen (on_plane (runScript M t (buildRemoveScript (removal_of i purge)) True)) (\<lambda>_.
           andThen (deleteInstall (in_host i) (in_name i)) (\<lambda>_.
           andThen (on_plane (appendAudit ''app.remove'' [(''app'', JStr (in_name i)), (''host'', JStr (in_host i)), (''purge'', JBool purge)])) (\<lambda>_.
           ret \<lparr>rmr_removed = True, rmr_purge = purge, rmr_host = in_host i, rmr_orphaned = False\<rparr>))))))))"

text \<open>The units of an install with other contents, and the install without its ingress.\<close>

definition rebound_input :: "install \<Rightarrow> (string \<times> string) list \<Rightarrow> string \<Rightarrow> deploy_input" where
  "rebound_input i units generator = (restore_input i generator)\<lparr>dpi_units := units\<rparr>"

definition unexposed :: "install \<Rightarrow> string \<Rightarrow> install" where
  "unexposed i address = (let public = (in_publish i = Some Public) in
     i\<lparr>in_units := (if public then flipBind (in_units i) (ingressHostPorts (in_ingress i)) else in_units i),
       in_endpoints := rebindEndpoints i (if public then address else ''127.0.0.1'') (if public then Reach_Public else Reach_Loopback),
       in_ingress := None\<rparr>)"

definition unexposeApp :: "'r machine \<Rightarrow> 'r platform \<Rightarrow> string \<Rightarrow> string option \<Rightarrow> ('r, app_endpoint list) aact" where
  "unexposeApp M P n h = andThen (get_install n h) (\<lambda>i.
     andThen (on_plane (show_host (in_host i))) (\<lambda>ho.
     andThen (on_plane (assertHostWritable M ho)) (\<lambda>_.
     if in_ingress i = None then refuse (quoted n @ '' is not exposed via ingress.'')
     else andThen (on_plane (assertReady M (pf_probe P) (in_host i))) (\<lambda>_.
       andThen (on_plane (resolveSshTarget M ho)) (\<lambda>t.
       andThen (on_plane (app_preflight M (in_host i))) (\<lambda>facts.
       let next = unexposed i (h_address ho) in
       andThen (on_plane (runScript M t (buildDeployScript (rebound_input i (in_units next) (or_default (hf_quadlet facts) []))) True)) (\<lambda>_.
       andThen (on_plane (pf_cleanup P ho i)) (\<lambda>_.
       andThen (on_plane clock) (\<lambda>now.
       andThen (saveInstall (next\<lparr>in_updated_at := now\<rparr>)) (\<lambda>_.
       andThen (on_plane (appendAudit ''app.unexpose'' [(''app'', JStr n), (''host'', JStr (in_host i))])) (\<lambda>_.
       ret (in_endpoints next))))))))))))"

text \<open>The catalog is asked whether the application came from it.\<close>

definition expose_app :: "'r machine \<Rightarrow> 'r platform \<Rightarrow> (string \<Rightarrow> bool) \<Rightarrow> string \<Rightarrow> ingress_opts \<Rightarrow> string option \<Rightarrow>
    ('r, plan_view + deploy_result) aact" where
  "expose_app M P inCatalog n opts h = andThen (get_install n h) (\<lambda>i.
     if \<not> inCatalog (in_app i)
     then refuse (quoted n @ '' was not deployed from the catalog - re-run `vops app deploy -f <flui.yaml> --host '' @ in_host i @
            '' --domain <host> --yes` to expose it.'')
     else (case nonempty (case bo_domain (io_binding opts) of Some d \<Rightarrow> Some d | None \<Rightarrow> map_option is_hostname (in_ingress i)) of
         None \<Rightarrow> refuse ''Pass --domain <host> (or --domain auto for an sslip.io demo host).''
       | Some domain \<Rightarrow> deploy_app M P \<lparr>src_catalog = Some (in_app i), src_file = None, src_image = None\<rparr> (in_host i)
           \<lparr>dop_name = Some (in_name i), dop_set = None, dop_dry_run = False,
            dop_ingress = Some (opts\<lparr>io_binding := (io_binding opts)\<lparr>bo_domain := Some domain\<rparr>\<rparr>),
            dop_public = None, dop_registry = None\<rparr>))"

section \<open>Preparing a host\<close>

record podman_binary =
  pb_arch :: string
  pb_url :: string
  pb_sha :: string

definition PODMAN_STATIC_VERSION :: string where
  "PODMAN_STATIC_VERSION = ''5.8.4''"

definition podman_build :: "string \<Rightarrow> string \<Rightarrow> podman_binary" where
  "podman_build arch sha = \<lparr>pb_arch = arch, pb_url = ''https://github.com/mgoltzsche/podman-static/releases/download/v'' @
     PODMAN_STATIC_VERSION @ ''/podman-linux-'' @ arch @ ''.tar.gz'', pb_sha = sha\<rparr>"

definition podmanStaticForArch :: "string \<Rightarrow> podman_binary option" where
  "podmanStaticForArch uname = (let m = trim uname in
     if m = ''x86_64'' \<or> m = ''amd64''
     then Some (podman_build ''amd64'' ''a58765fe8be6ab3fb79f892f1a027b4ce4a7e8eb589df1ef960c167cbde08d69'')
     else if m = ''aarch64'' \<or> m = ''arm64''
     then Some (podman_build ''arm64'' ''a2f6b73cc0f7018e2e8518338a4ec27db70148e1af86e16719235605aefd1df3'')
     else None)"

definition renderPodmanInstall :: "podman_binary \<Rightarrow> string" where
  "renderPodmanInstall bin = (let dir = ''podman-linux-'' @ pb_arch bin in join nl [
     ''set -e'',
     ''cd /tmp'',
     ''curl -fsSL -o vops-podman-static.tar.gz '' @ shq (pb_url bin),
     ''echo '' @ shq (pb_sha bin @ ''  vops-podman-static.tar.gz'') @ '' | sha256sum -c -'',
     ''tar -xzf vops-podman-static.tar.gz'',
     ''cp -r --remove-destination '' @ dir @ ''/usr /'',
     ''cp -rn '' @ dir @ ''/etc / 2>/dev/null || true'',
     ''rm -rf '' @ dir @ '' vops-podman-static.tar.gz'',
     ''mkdir -p /etc/containers/containers.conf.d'',
     ''cat > /etc/containers/containers.conf.d/99-vops-podman-static.conf <<'' @ single_quoted ''VOPS_CONF_EOF'',
     ''[engine]'',
     ''runtime = '' @ dq ''crun'',
     ''conmon_path = ['' @ dq ''/usr/local/lib/podman/conmon'' @ '']'',
     ''helper_binaries_dir = ['' @ dq ''/usr/local/lib/podman'' @ '']'',
     ''[engine.runtimes]'',
     ''crun = ['' @ dq ''/usr/local/bin/crun'' @ '']'',
     ''VOPS_CONF_EOF'',
     ''systemctl daemon-reload'',
     ''echo '' @ single_quoted ''@@version'',
     ''/usr/local/bin/podman --version 2>&1'',
     ''echo '' @ single_quoted ''@@generator'',
     ''test -e /usr/local/lib/systemd/system-generators/podman-system-generator && echo present || echo missing'',
     ''echo '' @ single_quoted ''@@existing'',
     ''test -e /usr/lib/systemd/system-generators/podman-system-generator && echo conflict || echo clean''])"

record setup_result =
  st_host :: string
  st_version :: string
  st_quadlet :: bool
  st_conflict :: bool

definition setup_host :: "'r machine \<Rightarrow> 'r platform \<Rightarrow> string \<Rightarrow> ('r, setup_result) aact" where
  "setup_host M P hostName = on_plane (andThen (show_host hostName) (\<lambda>h.
     andThen (assertHostWritable M h) (\<lambda>_.
     andThen (assertReady M (pf_probe P) hostName) (\<lambda>_.
     andThen (resolveSshTarget M h) (\<lambda>t.
     andThen (ssh_run M t ''uname -m'') (\<lambda>uname. case podmanStaticForArch (ex_stdout uname) of
       None \<Rightarrow> throw (Bad_Request (''Unsupported CPU arch '' @ quoted (trim (ex_stdout uname)) @ '' (need x86_64 or aarch64).''))
     | Some bin \<Rightarrow> andThen (runScript M t (renderPodmanInstall bin) True) (\<lambda>res.
         if ex_code res \<noteq> 0
         then throw (Bad_Request (''podman install failed ('' @ PODMAN_STATIC_VERSION @ ''): '' @
                or_default (nonempty (Some (trim (ex_stderr res)))) ''checksum mismatch''))
         else (case nonempty (extractVersion (section_of (ex_stdout res) ''version'')) of
             None \<Rightarrow> throw (Bad_Request (''podman install did not report a version: '' @ trim (ex_stdout res)))
           | Some version \<Rightarrow> andThen (appendAudit ''app.setup'' [(''host'', JStr (h_name h)),
                 (''podmanStatic'', JStr PODMAN_STATIC_VERSION), (''version'', JStr version)]) (\<lambda>_.
               ret \<lparr>st_host = h_name h, st_version = version,
                    st_quadlet = includes_str (section_of (ex_stdout res) ''generator'') ''present'',
                    st_conflict = includes_str (section_of (ex_stdout res) ''existing'') ''conflict''\<rparr>)))))))))"

end
