(* ===== verification/App_Ledger.thy ===== *)
theory App_Ledger
  imports App_Lifecycle
begin

text \<open>
  What the ledger of installs says after the operations on applications: a deployment that fails
  leaves it as it was, and one that succeeds records the running application.
\<close>

section \<open>Rows\<close>

definition row_of :: "string \<times> string \<Rightarrow> install list \<Rightarrow> install option" where
  "row_of k is = find (\<lambda>j. install_key j = k) is"

lemma row_of_put [simp]: "row_of k (put_install i is) = (if install_key i = k then Some i else row_of k is)"
  by (induction "is") (auto simp: put_install_def row_of_def)

lemma row_of_filter [simp]: "row_of k (filter (\<lambda>i. install_key i \<noteq> k') is) = (if k' = k then None else row_of k is)"
  by (induction "is") (auto simp: row_of_def)

lemma install_at_row: "install_at h n w = row_of (h, n) (aw_installs w)"
  by (simp add: install_at_def row_of_def)

lemma row_of_key: "row_of k is = Some i \<Longrightarrow> install_key i = k \<and> i \<in> set is"
  unfolding row_of_def by (auto dest: find_SomeD)

text \<open>The rows of every other key are as before.\<close>

definition same_but :: "string \<times> string \<Rightarrow> install list \<Rightarrow> install list \<Rightarrow> bool" where
  "same_but k is is' \<longleftrightarrow> (\<forall>k'. k' \<noteq> k \<longrightarrow> row_of k' is' = row_of k' is)"

lemma same_but_simps [simp]:
  "same_but k is is" "install_key i = k \<Longrightarrow> same_but k is (put_install i is') = same_but k is is'"
  by (auto simp: same_but_def)

section \<open>Actions on the plane\<close>

lemma wp_on_plane:
  "(\<And>x p. Q x (w\<lparr>aw_plane := p\<rparr>)) \<Longrightarrow> (\<And>f p. E (App_Failure f) (w\<lparr>aw_plane := p\<rparr>)) \<Longrightarrow> wp (on_plane m) Q E w"
  by (auto simp: wp_def on_plane_def split: prod.split sum.split)

lemma wp_of_result: "wp (of_result r) Q E w \<longleftrightarrow> (case r of Inl e \<Rightarrow> E (App_Failure e) w | Inr x \<Rightarrow> Q x w)"
  by (simp add: of_result_def wp_simps split: sum.split)

lemma wp_refuse: "wp (refuse m) Q E w \<longleftrightarrow> E (App_Failure (Bad_Request m)) w"
  by (simp add: refuse_def wp_simps)

lemma wp_step: "m w = (Inr x, w') \<Longrightarrow> wp (andThen m f) Q E w \<longleftrightarrow> wp (f x) Q E w'"
  by (simp add: wp_def andThen_def)

lemma keeps_on_plane: "keeps (\<lambda>w. Q (aw_installs w)) (on_plane m)"
  by (auto simp: keeps_def on_plane_def split: prod.split sum.split)

lemma keeps_of_result: "keeps Q (of_result r)"
  by (auto simp: of_result_def intro: keeps_intros split: sum.split)

lemma keeps_refuse: "keeps Q (refuse m)"
  by (simp add: refuse_def keeps_throw)

lemmas app_keeps = keeps_intros keeps_on_plane keeps_of_result keeps_refuse

text \<open>The steps on the host leave the ledger alone.\<close>

lemma gateOrRollback_ledger: "keeps (\<lambda>w. aw_installs w = is) (gateOrRollback M P t plan hp prev g pre res)"
  unfolding gateOrRollback_def by (intro app_keeps)

lemma build_app_ledger: "keeps (\<lambda>w. aw_installs w = is) (build_app M P p opts registry pre)"
  unfolding build_app_def by (intro app_keeps gateOrRollback_ledger)

lemma mutate_host_ledger: "keeps (\<lambda>w. aw_installs w = is) (mutate_host M P p opts registry)"
  unfolding mutate_host_def withDnsCleanup_def by (intro app_keeps build_app_ledger)

section \<open>What is prepared\<close>

text \<open>The reservations the ledger asks for, and a prepared deployment that respects them.\<close>

definition others_ports :: "string \<times> string \<Rightarrow> install list \<Rightarrow> nat set" where
  "others_ports k is = {ep_port e | i e. i \<in> set is \<and> in_host i = fst k \<and> in_name i \<noteq> snd k \<and>
     in_status i \<noteq> Install_Removed \<and> e \<in> set (in_endpoints i)}"

definition prev_ports :: "install option \<Rightarrow> (string \<times> published_port list) list" where
  "prev_ports prev = (case prev of Some p \<Rightarrow> fold (\<lambda>c. AList.update (ic_name c) (ic_published c)) (in_components p) [] | None \<Rightarrow> [])"

definition prepared_well :: "install list \<Rightarrow> prepared \<Rightarrow> bool" where
  "prepared_well is p \<longleftrightarrow> prep_prev p = row_of (h_name (prep_host p), an_name (prep_plan p)) is \<and>
     (\<exists>plan facts ingress rv. planHostDeploy plan facts (h_address (prep_host p)) ingress (fst (prep_publish p)) rv =
          Inr (prep_hp p, prep_plan p) \<and>
        rv_own rv = prev_ports (prep_prev p) \<and> others_ports (h_name (prep_host p), an_name (prep_plan p)) is \<subseteq> set (rv_others rv))"

lemma planHostDeploy_name: "planHostDeploy plan facts a i pub rv = Inr (hp, plan') \<Longrightarrow> an_name plan' = an_name plan"
  by (auto simp: planHostDeploy_def substituteAppDomain_def Let_def split: sum.splits)

lemma portReservations_run:
  "\<exists>rv. portReservations h n prev w = (Inr rv, w) \<and> rv_own rv = prev_ports prev \<and>
     others_ports (h, n) (aw_installs w) \<subseteq> set (rv_others rv)"
proof -
  let ?listed = "map installSummary (sort_key (\<lambda>i. - in_updated_at i)
     (filter (\<lambda>i. case nonempty (Some h) of Some n \<Rightarrow> in_host i = n | None \<Rightarrow> True) (aw_installs w)))"
  let ?rv = "\<lparr>rv_own = prev_ports prev, rv_others = flat_map (\<lambda>i. map ep_port (su_endpoints i))
        (filter (\<lambda>i. su_name i \<noteq> n \<and> su_status i \<noteq> Install_Removed) ?listed)\<rparr>"
  have run: "portReservations h n prev w = (Inr ?rv, w)"
    by (simp add: portReservations_def listInstalls_def action_simps prev_ports_def)
  have "ep_port e \<in> set (rv_others ?rv)"
    if "i \<in> set (aw_installs w)" "in_host i = h" "in_name i \<noteq> n" "in_status i \<noteq> Install_Removed" "e \<in> set (in_endpoints i)" for i e
  proof -
    have "installSummary i \<in> set ?listed" using that(1,2) by (auto simp: nonempty_def)
    moreover have "su_name (installSummary i) = in_name i" "su_status (installSummary i) = in_status i"
      "su_endpoints (installSummary i) = in_endpoints i" by (simp_all add: installSummary_def)
    ultimately show ?thesis using that(3,4,5) by (force simp: flat_map_def)
  qed
  then have "others_ports (h, n) (aw_installs w) \<subseteq> set (rv_others ?rv)" unfolding others_ports_def by auto
  with run show ?thesis by (intro exI[of _ ?rv]) simp
qed

text \<open>A refusal before anything is changed.\<close>

definition refused_with :: "install list \<Rightarrow> app_failure \<Rightarrow> 'r app_world \<Rightarrow> bool" where
  "refused_with is e w \<longleftrightarrow> aw_installs w = is \<and> (\<exists>f. e = App_Failure f)"

lemma resolveGate_wp:
  "aw_installs w = is \<Longrightarrow> (\<And>g w'. aw_installs w' = is \<Longrightarrow> Q g w') \<Longrightarrow> wp (resolveGate P plan r intent prev) Q (refused_with is) w"
  unfolding resolveGate_def wp_andThen
  by (intro wp_on_plane) (auto simp: wp_of_result refused_with_def split: sum.split)

lemma checkDns_wp:
  "aw_installs w = is \<Longrightarrow> (\<And>r' w'. aw_installs w' = is \<Longrightarrow> Q r' w') \<Longrightarrow> wp (checkDns P h r opts) Q (refused_with is) w"
  unfolding checkDns_def wp_andThen by (intro wp_on_plane) (auto simp: wp_simps refused_with_def)

lemma bind_plan_wp:
  assumes "aw_installs w = is"
  shows "wp (bind_plan P h t facts opts plan0 r) (\<lambda>p w'. aw_installs w' = is \<and> prepared_well is p) (refused_with is) w"
proof -
  let ?plan = "plan0\<lparr>an_warnings := an_warnings plan0 @ internalExposureWarnings plan0 (binding_ingress r)\<rparr>"
  let ?prev = "row_of (h_name h, an_name plan0) is"
  obtain publish where pub: "publish = resolvePublishIntent (dop_public opts) ?prev" by simp
  have rest: "wp (andThen (portReservations (h_name h) (an_name plan0) ?prev) (\<lambda>rv.
      andThen (of_result (planHostDeploy ?plan facts (h_address h) (binding_ingress r) (fst publish) rv)) (\<lambda>(hp, bound).
      andThen (case r of Some x \<Rightarrow> andThen (checkDns P h x opts) (\<lambda>y. ret (Some y)) | None \<Rightarrow> ret None) (\<lambda>r'.
      ret \<lparr>prep_host = h, prep_target = t, prep_facts = facts, prep_plan = bound, prep_resolution = r', prep_prev = ?prev,
           prep_gate = g, prep_publish = publish, prep_hp = hp\<rparr>))))
      (\<lambda>p w'. aw_installs w' = is \<and> prepared_well is p) (refused_with is) w'"
    if w': "aw_installs w' = is" for g w'
  proof -
    obtain rv where rv: "portReservations (h_name h) (an_name plan0) ?prev w' = (Inr rv, w')" "rv_own rv = prev_ports ?prev"
      "others_ports (h_name h, an_name plan0) is \<subseteq> set (rv_others rv)"
      using portReservations_run[of "h_name h" "an_name plan0" ?prev w'] w' by auto
    show ?thesis
    proof (cases "planHostDeploy ?plan facts (h_address h) (binding_ingress r) (fst publish) rv")
      case (Inl e)
      then show ?thesis using w'
        unfolding wp_step[where m = "portReservations _ _ _", OF rv(1)] unfolding wp_andThen wp_of_result by (simp add: refused_with_def)
    next
      case (Inr x)
      obtain hp bound where x: "x = (hp, bound)" by (cases x)
      have well: "prepared_well is \<lparr>prep_host = h, prep_target = t, prep_facts = facts, prep_plan = bound, prep_resolution = r',
          prep_prev = ?prev, prep_gate = g, prep_publish = publish, prep_hp = hp\<rparr>" for r'
        using Inr rv planHostDeploy_name[of ?plan] unfolding prepared_well_def x by fastforce
      have "wp (case r of Some x \<Rightarrow> andThen (checkDns P h x opts) (\<lambda>y. ret (Some y)) | None \<Rightarrow> ret None)
          (\<lambda>r' w'. aw_installs w' = is) (refused_with is) w'"
        using w' by (auto simp: wp_simps intro!: checkDns_wp split: option.split)
      then show ?thesis using well
        unfolding wp_step[where m = "portReservations _ _ _", OF rv(1)]
        unfolding wp_andThen wp_of_result Inr x sum.case prod.case wp_ret by - (erule wp_mono, auto)
    qed
  qed
  show ?thesis
    unfolding bind_plan_def Let_def wp_andThen[of "getInstall_row _ _"]
    unfolding getInstall_row_def wp_gets install_at_row assms
    unfolding wp_andThen[of "resolveGate _ _ _ _ _"]
    using rest by (intro resolveGate_wp[OF assms]) (simp add: pub)
qed

lemma prepare_deploy_wp:
  assumes w: "aw_installs w = is"
  shows "wp (prepare_deploy M P source hostName opts) (\<lambda>p w'. aw_installs w' = is \<and> prepared_well is p) (refused_with is) w"
  unfolding prepare_deploy_def Let_def wp_andThen
  by (intro wp_on_plane wp_ifI) (auto simp: refused_with_def wp_refuse wp_andThen wp_of_result w split: sum.split intro!: bind_plan_wp)

section \<open>Carrying out\<close>

text \<open>An action of the plane that cannot throw.\<close>

definition returns :: "('r, 'a) hact \<Rightarrow> bool" where
  "returns m \<longleftrightarrow> (\<forall>p. \<exists>x p'. m p = (Inr x, p'))"

named_theorems returns_intros \<open>actions that cannot throw\<close>

lemma returns_ret [returns_intros]: "returns (ret x)"
  by (simp add: returns_def ret_def)

lemma returns_andThen [returns_intros]: "returns m \<Longrightarrow> (\<And>x. returns (f x)) \<Longrightarrow> returns (andThen m f)"
  unfolding returns_def andThen_def by (metis (no_types, lifting) old.prod.case old.sum.simps(6))

lemma returns_runScript [returns_intros]: "returns (runScript M t s sudo)"
  by (auto simp: returns_def runScript_def on_remote_def split: prod.split)

lemma returns_modify [returns_intros]: "returns (modify f)"
  by (simp add: returns_def modify_def)

lemma returns_clock [returns_intros]: "returns clock"
  by (simp add: returns_def clock_def gets_def)

lemma returns_appendAudit [returns_intros]: "returns (appendAudit k d)"
  unfolding appendAudit_def by (rule returns_modify)

lemma returns_if [returns_intros]: "returns m \<Longrightarrow> returns n \<Longrightarrow> returns (if b then m else n)"
  by simp

lemma returns_runSmoke [returns_intros]: "returns (runSmoke M t plan hp)"
  unfolding runSmoke_def Let_def by (auto intro!: returns_intros split: list.split)

lemma returns_runPostInstall [returns_intros]: "returns (runPostInstall M t plan hp fqdn)"
  unfolding runPostInstall_def Let_def by (intro returns_intros)

lemma wp_returns_plane: "returns m \<Longrightarrow> (\<And>x p. Q x (w\<lparr>aw_plane := p\<rparr>)) \<Longrightarrow> wp (on_plane m) Q E w"
  unfolding returns_def wp_def on_plane_def by (metis (mono_tags, lifting) case_prod_conv old.sum.simps(6))

text \<open>The application is left running only by the switch for it.\<close>

definition left_by_switch :: "'r platform \<Rightarrow> app_failure \<Rightarrow> bool" where
  "left_by_switch P e \<longleftrightarrow> (\<forall>m. e = Left_Running m \<longrightarrow> pf_no_rollback P)"

lemma left_by_switch_simps [simp]: "left_by_switch P (App_Failure f)" "left_by_switch P (Left_Running m) \<longleftrightarrow> pf_no_rollback P"
  by (auto simp: left_by_switch_def)

lemma gateOrRollback_left: "wp (gateOrRollback M P t plan hp prev g pre res) (\<lambda>x w'. True) (\<lambda>e w'. left_by_switch P e) w"
  unfolding gateOrRollback_def Let_def wp_andThen
  by (intro wp_ifI; simp add: wp_andThen) (intro wp_on_plane; simp add: wp_refuse wp_simps wp_on_plane)+

lemma wp_trivial: "wp m (\<lambda>x w'. True) E w \<Longrightarrow> (\<And>x w'. Q x w') \<Longrightarrow> wp m Q E w"
  by (rule wp_mono) auto

lemma build_app_left: "wp (build_app M P p opts registry pre) (\<lambda>x w'. True) (\<lambda>e w'. left_by_switch P e) w"
  unfolding build_app_def wp_andThen
  by (intro wp_ifI wp_on_plane) (auto simp: wp_simps wp_refuse intro!: wp_on_plane gateOrRollback_left split: option.split)

lemma mutate_host_left: "wp (mutate_host M P p opts registry) (\<lambda>x w'. True) (\<lambda>e w'. left_by_switch P e) w"
proof -
  have build: "wp (withDnsCleanup P dns (build_app M P p opts registry pre)) (\<lambda>x w'. True) (\<lambda>e w'. left_by_switch P e) w" for dns pre w
    unfolding withDnsCleanup_def wp_catching
    by (rule wp_mono[OF build_app_left]) (auto simp: wp_simps intro!: wp_on_plane)
  show ?thesis
    unfolding mutate_host_def wp_andThen
    by (cases "prep_resolution p"; cases "redeployBaseline (prep_prev p)")
      (auto simp: wp_simps intro!: wp_on_plane wp_trivial[OF build])
qed

lemma mutate_host_wp:
  "aw_installs w = is \<Longrightarrow> wp (mutate_host M P p opts registry) (\<lambda>x w'. aw_installs w' = is)
     (\<lambda>e w'. aw_installs w' = is \<and> left_by_switch P e) w"
proof -
  assume w: "aw_installs w = is"
  have "wp (mutate_host M P p opts registry) (\<lambda>x w'. aw_installs w' = is) (\<lambda>e w'. aw_installs w' = is) w"
    using mutate_host_ledger[of "is" M P p opts registry, unfolded keeps_wp] w by blast
  with mutate_host_left[of M P p opts registry w] show ?thesis
    by (auto simp: wp_def split: prod.splits sum.splits)
qed

definition claim_key :: "prepared \<Rightarrow> string \<times> string" where
  "claim_key p = (h_name (prep_host p), an_name (prep_plan p))"

lemma claim_of_key [simp]: "install_key (claim_of p now) = claim_key p"
  by (simp add: claim_of_def toInstall_def install_key_def claim_key_def Let_def)

lemma claim_of_fields [simp]:
  "in_status (claim_of p now) = Deployed" "in_ingress (claim_of p now) = None" "in_endpoints (claim_of p now) = hp_endpoints (prep_hp p)"
  by (simp_all add: claim_of_def toInstall_def Let_def)

lemma install_key_update [simp]:
  "install_key (i\<lparr>in_status := s\<rparr>) = install_key i" "install_key (i\<lparr>in_updated_at := t\<rparr>) = install_key i"
  "install_key (i\<lparr>in_ingress := g, in_endpoints := e\<rparr>) = install_key i"
  by (simp_all add: install_key_def)

lemma wp_saveInstall: "wp (saveInstall i) Q E w \<longleftrightarrow> Q () (w\<lparr>aw_installs := put_install i (aw_installs w)\<rparr>)"
  by (simp add: saveInstall_def wp_simps)

text \<open>What the confirmation leaves: a row of a running application, whatever happens to its route.\<close>

definition confirmed_row :: "prepared \<Rightarrow> app_endpoint list \<Rightarrow> install list \<Rightarrow> bool" where
  "confirmed_row p eps is \<longleftrightarrow> (\<exists>i. row_of (claim_key p) is = Some i \<and> in_status i = Deployed \<and> in_endpoints i = eps \<and>
     (prep_resolution p = None \<longrightarrow> in_ingress i = None))"

definition after_attach :: "'r platform \<Rightarrow> prepared \<Rightarrow> install list \<Rightarrow> app_endpoint list \<Rightarrow> app_failure \<Rightarrow> 'r app_world \<Rightarrow> bool" where
  "after_attach P p is eps e w' \<longleftrightarrow> same_but (claim_key p) is (aw_installs w') \<and> confirmed_row p eps (aw_installs w') \<and>
     prep_resolution p \<noteq> None \<and> (\<exists>f. e = App_Failure f)"

definition attached_row :: "prepared \<Rightarrow> install list \<Rightarrow> install \<times> (string \<times> bool \<times> string \<times> string list) option \<Rightarrow> 'r app_world \<Rightarrow> bool" where
  "attached_row p is x w' \<longleftrightarrow> same_but (claim_key p) is (aw_installs w') \<and> confirmed_row p (in_endpoints (fst x)) (aw_installs w')"

lemma attach_ingress_wp:
  assumes "same_but (claim_key p) is (aw_installs w)" and "row_of (claim_key p) (aw_installs w) = Some i" and "in_status i = Deployed"
    and "install_key i = claim_key p" and "in_ingress i = None"
  shows "wp (attach_ingress P p i dns) (attached_row p is) (after_attach P p is (in_endpoints i)) w"
proof (cases "prep_resolution p")
  case None
  then show ?thesis using assms by (simp add: attach_ingress_def wp_simps confirmed_row_def attached_row_def)
next
  case (Some r)
  show ?thesis
    unfolding attach_ingress_def Some option.case wp_andThen Let_def
    by (rule wp_on_plane)
      (use assms in \<open>auto simp: wp_andThen wp_saveInstall wp_ret confirmed_row_def attached_row_def after_attach_def Some split: prod.split\<close>)
qed

lemma result_of_fields [simp]:
  "dres_host (result_of p opts i smoke out post) = fst (claim_key p)"
  "dres_app (result_of p opts i smoke out post) = snd (claim_key p)"
  "dres_endpoints (result_of p opts i smoke out post) = in_endpoints i"
  by (simp_all add: result_of_def claim_key_def)

definition deploy_recorded :: "prepared \<Rightarrow> install list \<Rightarrow> deploy_result \<Rightarrow> 'r app_world \<Rightarrow> bool" where
  "deploy_recorded p is r w' \<longleftrightarrow> same_but (claim_key p) is (aw_installs w') \<and> dres_host r = fst (claim_key p) \<and>
     dres_app r = snd (claim_key p) \<and> confirmed_row p (dres_endpoints r) (aw_installs w')"

lemma finish_wp:
  assumes "attached_row p is x w"
  shows "wp (case x of (i', out) \<Rightarrow> andThen (on_plane (runPostInstall M (prep_target p) (prep_plan p) (prep_hp p) (map_option fst out)))
             (\<lambda>post. ret (result_of p opts i' smoke out post))) (deploy_recorded p is) E w"
proof -
  obtain i' out where x: "x = (i', out)" by (cases x)
  show ?thesis
    unfolding x prod.case wp_andThen
    by (intro wp_returns_plane returns_intros) (use assms in \<open>simp add: x wp_ret deploy_recorded_def attached_row_def\<close>)
qed

lemma confirm_install_wp:
  assumes same: "same_but (claim_key p) is (aw_installs w)"
  shows "wp (confirm_install M P p opts (claim_of p now) smoke dns) (deploy_recorded p is) (after_attach P p is (hp_endpoints (prep_hp p))) w"
  unfolding confirm_install_def Let_def wp_andThen wp_saveInstall
proof (intro wp_returns_plane returns_intros)
  fix t :: int and pl pl' :: "'a plane" and u :: unit
  let ?i = "claim_of p now\<lparr>in_updated_at := t\<rparr>"
  let ?w = "w\<lparr>aw_plane := pl, aw_installs := put_install ?i (aw_installs (w\<lparr>aw_plane := pl\<rparr>)), aw_plane := pl'\<rparr>"
  have "wp (attach_ingress P p ?i dns) (attached_row p is) (after_attach P p is (in_endpoints ?i)) ?w"
    by (rule attach_ingress_wp) (use same in simp_all)
  then show "wp (attach_ingress P p ?i dns)
      (\<lambda>x. wp (case x of (i', out) \<Rightarrow> andThen (on_plane (runPostInstall M (prep_target p) (prep_plan p) (prep_hp p) (map_option fst out)))
             (\<lambda>post. ret (result_of p opts i' smoke out post))) (deploy_recorded p is) (after_attach P p is (hp_endpoints (prep_hp p))))
      (after_attach P p is (hp_endpoints (prep_hp p))) ?w"
    by (rule wp_mono) (simp_all add: finish_wp)
qed

text \<open>How a deployment that threw may leave the ledger.\<close>

definition same_rows :: "install list \<Rightarrow> install list \<Rightarrow> bool" where
  "same_rows is is' \<longleftrightarrow> (\<forall>k. row_of k is' = row_of k is)"

definition left_row :: "'r platform \<Rightarrow> prepared \<Rightarrow> install list \<Rightarrow> app_failure \<Rightarrow> 'r app_world \<Rightarrow> bool" where
  "left_row P p is e w' \<longleftrightarrow> pf_no_rollback P \<and> same_but (claim_key p) is (aw_installs w') \<and>
     (\<exists>i. row_of (claim_key p) (aw_installs w') = Some i \<and> in_status i = Installing \<and> in_endpoints i = hp_endpoints (prep_hp p))"

definition undone :: "'r platform \<Rightarrow> prepared \<Rightarrow> install list \<Rightarrow> app_failure \<Rightarrow> 'r app_world \<Rightarrow> bool" where
  "undone P p is e w' \<longleftrightarrow> (case e of App_Failure f \<Rightarrow> same_rows is (aw_installs w') | Left_Running m \<Rightarrow> left_row P p is e w')"

lemma withLedgerRevert_wp:
  assumes well: "prepared_well is p" and w: "aw_installs w = put_install (claim\<lparr>in_status := Installing\<rparr>) is"
    and claim: "claim = claim_of p now"
  shows "wp (withLedgerRevert claim (prep_prev p) (mutate_host M P p opts registry))
     (\<lambda>x w'. aw_installs w' = aw_installs w) (undone P p is) w"
  unfolding withLedgerRevert_def wp_catching
proof (rule wp_mono[OF mutate_host_wp[OF refl]])
  fix e and w' :: "'a app_world"
  assume e: "aw_installs w' = aw_installs w \<and> left_by_switch P e"
  show "wp (case e of App_Failure f \<Rightarrow> andThen (revertInstall claim (prep_prev p)) (\<lambda>_. throw e) | Left_Running m \<Rightarrow> throw e)
      (\<lambda>x w'. aw_installs w' = aw_installs w) (undone P p is) w'"
  proof (cases e)
    case (App_Failure f)
    have key: "(in_host claim, in_name claim) = claim_key p" using claim_of_key[of p now] by (simp add: claim install_key_def)
    have prev: "prep_prev p = row_of (claim_key p) is" using well by (simp add: prepared_well_def claim_key_def)
    have "wp (revertInstall claim (prep_prev p)) (\<lambda>u w''. same_rows is (aw_installs w'')) E w'" for E
    proof (cases "prep_prev p")
      case None
      then show ?thesis using e w prev key claim
        by (auto simp: revertInstall_def deleteInstall_def wp_modify same_rows_def)
    next
      case (Some i)
      have i: "row_of (claim_key p) is = Some i" using prev Some by simp
      with row_of_key have "install_key i = claim_key p" by blast
      then show ?thesis unfolding Some revertInstall_def option.case wp_saveInstall
        using e w i claim by (auto simp: same_rows_def simp del: split_paired_All)
    qed
    from wp_mono[OF this] show ?thesis by (simp add: App_Failure wp_andThen wp_throw undone_def)
  next
    case (Left_Running m)
    then show ?thesis using e w claim by (simp add: wp_throw undone_def left_row_def)
  qed
qed simp

lemma carry_out_wp:
  assumes well: "prepared_well is p" and w: "aw_installs w = is"
  shows "wp (carry_out M P opts p) (deploy_recorded p is)
     (\<lambda>e w'. undone P p is e w' \<or> after_attach P p is (hp_endpoints (prep_hp p)) e w') w"
  unfolding carry_out_def Let_def wp_andThen beginInstall_def wp_saveInstall
proof (intro wp_returns_plane returns_intros)
  fix now :: int and pl :: "'a plane"
  let ?w = "w\<lparr>aw_plane := pl, aw_installs := put_install (claim_of p now\<lparr>in_status := Installing\<rparr>) (aw_installs (w\<lparr>aw_plane := pl\<rparr>))\<rparr>"
  have ledger: "aw_installs ?w = put_install (claim_of p now\<lparr>in_status := Installing\<rparr>) is" using w by simp
  show "wp (withLedgerRevert (claim_of p now) (prep_prev p) (mutate_host M P p opts (resolveRegistryLogin (prep_plan p) (dop_registry opts))))
     (\<lambda>x. wp (case x of (smoke, dns) \<Rightarrow> confirm_install M P p opts (claim_of p now) smoke dns) (deploy_recorded p is)
        (\<lambda>e w'. undone P p is e w' \<or> after_attach P p is (hp_endpoints (prep_hp p)) e w'))
     (\<lambda>e w'. undone P p is e w' \<or> after_attach P p is (hp_endpoints (prep_hp p)) e w') ?w"
  proof (rule wp_mono[OF withLedgerRevert_wp[OF well ledger refl]])
    fix x and w' :: "'a app_world"
    assume "aw_installs w' = aw_installs ?w"
    then have "same_but (claim_key p) is (aw_installs w')" using ledger by simp
    from wp_mono[OF confirm_install_wp[OF this]]
    show "wp (case x of (smoke, dns) \<Rightarrow> confirm_install M P p opts (claim_of p now) smoke dns) (deploy_recorded p is)
        (\<lambda>e w'. undone P p is e w' \<or> after_attach P p is (hp_endpoints (prep_hp p)) e w') w'"
      by (cases x) simp
  qed simp
qed

text \<open>What a failure of the deployment means for the ledger.\<close>

definition failed_ledger :: "'r platform \<Rightarrow> install list \<Rightarrow> app_failure \<Rightarrow> 'r app_world \<Rightarrow> bool" where
  "failed_ledger P is e w' \<longleftrightarrow> (case e of
       App_Failure f \<Rightarrow> same_rows is (aw_installs w') \<or>
         (\<exists>k i. same_but k is (aw_installs w') \<and> row_of k (aw_installs w') = Some i \<and> in_status i = Deployed)
     | Left_Running m \<Rightarrow> pf_no_rollback P \<and>
         (\<exists>k i. same_but k is (aw_installs w') \<and> row_of k (aw_installs w') = Some i \<and> in_status i = Installing))"

lemma undone_failed: "undone P p is e w' \<Longrightarrow> failed_ledger P is e w'"
  unfolding undone_def left_row_def failed_ledger_def by (cases e; simp only: app_failure.case; blast)

lemma attach_failed: "after_attach P p is eps e w' \<Longrightarrow> failed_ledger P is e w'"
  unfolding after_attach_def confirmed_row_def failed_ledger_def by (cases e; simp only: app_failure.case; blast)


end
