(* ===== verification/App_Gate.thy ===== *)
theory App_Gate
  imports App_Ledger
begin

text \<open>
  What a deployment puts in front of an application that gets a public name: the login gate it
  decides on, and what a redeployment keeps of the gate before it.
\<close>

section \<open>The decision\<close>

definition gate_question :: "deploy_opts \<Rightarrow> prepared \<Rightarrow> gate_input" where
  "gate_question opts p = \<lparr>gq_ingress = (prep_resolution p \<noteq> None), gq_access = map_option acc_mode (an_access (prep_plan p)),
     gq_auth = an_auth (prep_plan p), gq_intent = intent_of opts,
     gq_prev = Option.bind (prep_prev p) (\<lambda>i. Option.bind (in_ingress i) is_auth)\<rparr>"

definition prepared_gate :: "'r platform \<Rightarrow> deploy_opts \<Rightarrow> install list \<Rightarrow> prepared \<Rightarrow> bool" where
  "prepared_gate P opts is p \<longleftrightarrow> prep_prev p = row_of (claim_key p) is \<and>
     (\<exists>seed. resolveDeployGate (pf_gate P) seed (an_name (prep_plan p)) (gate_question opts p) = Inr (prep_gate p))"

lemma planHostDeploy_same:
  "planHostDeploy plan facts a i pub rv = Inr (hp, plan') \<Longrightarrow>
     an_name plan' = an_name plan \<and> an_access plan' = an_access plan \<and> an_auth plan' = an_auth plan"
  by (auto simp: planHostDeploy_def substituteAppDomain_def Let_def split: sum.splits)

lemma resolveBinding_domain: "resolveBinding plan h opts = Inr r \<Longrightarrow> r = None \<longleftrightarrow> nonempty (bo_domain opts) = None"
  by (auto simp: resolveBinding_def Let_def split: option.splits sum.splits list.splits)

lemma resolveGate_decides:
  "wp (resolveGate P plan r intent prev)
     (\<lambda>g w'. aw_installs w' = aw_installs w \<and> (\<exists>seed. resolveDeployGate (pf_gate P) seed (an_name plan)
         \<lparr>gq_ingress = (r \<noteq> None), gq_access = map_option acc_mode (an_access plan), gq_auth = an_auth plan, gq_intent = intent,
          gq_prev = Option.bind prev (\<lambda>i. Option.bind (in_ingress i) is_auth)\<rparr> = Inr g)) (\<lambda>e w'. True) w"
  unfolding resolveGate_def wp_andThen
  by (intro wp_on_plane) (auto simp: wp_of_result split: sum.splits)

lemma bind_plan_gate:
  "wp (bind_plan P h t facts opts plan0 r)
     (\<lambda>p w'. prepared_gate P opts (aw_installs w) p \<and> (prep_resolution p = None \<longleftrightarrow> r = None)) (\<lambda>e w'. True) w"
proof -
  let ?plan = "plan0\<lparr>an_warnings := an_warnings plan0 @ internalExposureWarnings plan0 (binding_ingress r)\<rparr>"
  let ?prev = "row_of (h_name h, an_name ?plan) (aw_installs w)"
  let ?Q = "\<lambda>p w'. prepared_gate P opts (aw_installs w) p \<and> (prep_resolution p = None \<longleftrightarrow> r = None)"
  have dns: "wp (case r of Some x \<Rightarrow> andThen (checkDns P h x opts) (\<lambda>y. ret (Some y)) | None \<Rightarrow> ret None)
      (\<lambda>r' w'. r' = None \<longleftrightarrow> r = None) (\<lambda>e w'. True) w'" for w'
    by (cases r) (auto simp: wp_simps checkDns_def intro!: wp_on_plane)
  have rest: "wp (andThen (portReservations (h_name h) (an_name ?plan) ?prev) (\<lambda>rv.
      andThen (of_result (planHostDeploy ?plan facts (h_address h) (binding_ingress r) (fst publish) rv)) (\<lambda>(hp, bound).
      andThen (case r of Some x \<Rightarrow> andThen (checkDns P h x opts) (\<lambda>y. ret (Some y)) | None \<Rightarrow> ret None) (\<lambda>r'.
      ret \<lparr>prep_host = h, prep_target = t, prep_facts = facts, prep_plan = bound, prep_resolution = r', prep_prev = ?prev,
           prep_gate = g, prep_publish = publish, prep_hp = hp\<rparr>)))) ?Q (\<lambda>e w'. True) w'"
    if g: "resolveDeployGate (pf_gate P) seed (an_name ?plan) \<lparr>gq_ingress = (r \<noteq> None),
         gq_access = map_option acc_mode (an_access ?plan), gq_auth = an_auth ?plan, gq_intent = intent_of opts,
         gq_prev = Option.bind ?prev (\<lambda>i. Option.bind (in_ingress i) is_auth)\<rparr> = Inr g" for g w' seed publish
  proof (rule wp_seq[OF wp_true])
    fix rv w''
    show "wp (andThen (of_result (planHostDeploy ?plan facts (h_address h) (binding_ingress r) (fst publish) rv)) (\<lambda>(hp, bound).
      andThen (case r of Some x \<Rightarrow> andThen (checkDns P h x opts) (\<lambda>y. ret (Some y)) | None \<Rightarrow> ret None) (\<lambda>r'.
      ret \<lparr>prep_host = h, prep_target = t, prep_facts = facts, prep_plan = bound, prep_resolution = r', prep_prev = ?prev,
           prep_gate = g, prep_publish = publish, prep_hp = hp\<rparr>))) ?Q (\<lambda>e w'. True) w''"
    proof (cases "planHostDeploy ?plan facts (h_address h) (binding_ingress r) (fst publish) rv")
      case (Inl e)
      then show ?thesis by (simp add: wp_andThen wp_of_result)
    next
      case (Inr x)
      obtain hp bound where x: "x = (hp, bound)" by (cases x)
      have same: "an_name bound = an_name plan0" "an_access bound = an_access ?plan" "an_auth bound = an_auth ?plan"
        using planHostDeploy_same[OF Inr[unfolded x]] by simp_all
      show ?thesis
        unfolding wp_andThen wp_of_result Inr x sum.case prod.case
        by (rule wp_mono[OF dns])
          (use g in \<open>auto simp: wp_ret prepared_gate_def claim_key_def gate_question_def same simp del: map_option_eq_Some\<close>)
    qed
  qed
  show ?thesis
    unfolding bind_plan_def Let_def wp_andThen[of "getInstall_row _ _"]
    unfolding getInstall_row_def wp_gets install_at_row
    unfolding wp_andThen[of "resolveGate _ _ _ _ _"]
    by (rule wp_mono[OF resolveGate_decides]) (elim conjE exE, erule rest, simp)
qed

lemma prepare_deploy_gate:
  "wp (prepare_deploy M P source hostName opts)
     (\<lambda>p w'. prepared_gate P opts (aw_installs w) p \<and>
        (prep_resolution p = None \<longleftrightarrow> nonempty (bo_domain (binding_of opts)) = None)) (\<lambda>e w'. True) w"
proof -
  let ?Q = "\<lambda>p w'. prepared_gate P opts (aw_installs w) p \<and>
        (prep_resolution p = None \<longleftrightarrow> nonempty (bo_domain (binding_of opts)) = None)"
  have bind: "wp (bind_plan P h t facts opts plan r) ?Q (\<lambda>e w'. True) w'"
    if "resolveBinding plan h (binding_of opts) = Inr r" "aw_installs w' = aw_installs w" for h t facts plan r w'
    using bind_plan_gate[of P h t facts opts plan r w'] resolveBinding_domain[OF that(1)] that(2) by simp
  show ?thesis
    unfolding prepare_deploy_def Let_def wp_andThen
    by (intro wp_on_plane wp_ifI) (auto simp: wp_refuse wp_andThen wp_of_result split: sum.split intro!: bind)
qed

section \<open>What it promises\<close>

lemma gate_only_with_ingress: "resolveDeployGate C seed app q = Inr (Some g) \<Longrightarrow> gq_ingress q"
  by (auto simp: resolveDeployGate_def split: option.splits gate_mode.splits if_splits)

lemma gate_when_naked:
  "resolveDeployGate C seed app q = Inr g \<Longrightarrow> gq_ingress q \<Longrightarrow> map_option gi_mode (gq_intent q) \<noteq> Some Gate_None \<Longrightarrow>
   nakedReason q \<noteq> None \<Longrightarrow> g \<noteq> None"
  by (auto simp: resolveDeployGate_def split: option.splits gate_mode.splits if_splits sum.splits)

lemma gate_kept:
  "resolveDeployGate C seed app q = Inr g \<Longrightarrow> gq_ingress q \<Longrightarrow> map_option gi_mode (gq_intent q) \<noteq> Some Gate_None \<Longrightarrow>
   gq_prev q = Some old \<Longrightarrow> nonempty (Option.bind (gq_intent q) gi_pass) = None \<Longrightarrow>
   \<exists>g'. g = Some g' \<and> ga_hash g' = gt_hash old \<and> gt_secret (ga_state g') = gt_secret old \<and> ga_secret g' = None"
  by (auto simp: resolveDeployGate_def keptGate_def split: option.splits gate_mode.splits if_splits sum.splits)

text \<open>
  C21: No silent exposure. A deployment that is prepared has a route exactly when a domain was asked
  for, and a gate only with a route. An application that hands its administration to the first
  visitor, or has no login, gets a route only behind a gate, unless a gate was explicitly declined;
  and a route that had a gate keeps the password of that gate unless a new one is given.
\<close>

theorem no_silent_exposure:
  assumes "prepare_deploy M P source hostName opts w = (Inr p, w')"
  shows "(prep_resolution p \<noteq> None \<longleftrightarrow> nonempty (bo_domain (binding_of opts)) \<noteq> None) \<and>
     (prep_gate p \<noteq> None \<longrightarrow> prep_resolution p \<noteq> None) \<and>
     (prep_resolution p \<noteq> None \<and> map_option gi_mode (intent_of opts) \<noteq> Some Gate_None \<longrightarrow>
        (map_option acc_mode (an_access (prep_plan p)) = Some First_Visit \<or>
         an_auth (prep_plan p) = Some Auth_None \<and> map_option acc_mode (an_access (prep_plan p)) \<noteq> Some Access_Credentials \<longrightarrow>
           prep_gate p \<noteq> None) \<and>
        (\<forall>i st old. install_at (h_name (prep_host p)) (an_name (prep_plan p)) w = Some i \<and> in_ingress i = Some st \<and>
           is_auth st = Some old \<and> nonempty (Option.bind (intent_of opts) gi_pass) = None \<longrightarrow>
           (\<exists>g. prep_gate p = Some g \<and> ga_hash g = gt_hash old \<and> gt_secret (ga_state g) = gt_secret old \<and> ga_secret g = None)))"
proof -
  have gate: "prepared_gate P opts (aw_installs w) p"
    and domain: "prep_resolution p = None \<longleftrightarrow> nonempty (bo_domain (binding_of opts)) = None"
    using wp_returns[OF prepare_deploy_gate assms] by blast+
  obtain seed where run: "resolveDeployGate (pf_gate P) seed (an_name (prep_plan p)) (gate_question opts p) = Inr (prep_gate p)"
    and prev: "prep_prev p = row_of (claim_key p) (aw_installs w)" using gate unfolding prepared_gate_def by blast
  have q: "gq_ingress (gate_question opts p) \<longleftrightarrow> prep_resolution p \<noteq> None" "gq_intent (gate_question opts p) = intent_of opts"
    "gq_prev (gate_question opts p) = Option.bind (prep_prev p) (\<lambda>i. Option.bind (in_ingress i) is_auth)"
    by (simp_all add: gate_question_def)
  have only: "prep_gate p \<noteq> None \<longrightarrow> prep_resolution p \<noteq> None"
    using gate_only_with_ingress run q(1) by (metis not_None_eq)
  have naked: "prep_gate p \<noteq> None" if "prep_resolution p \<noteq> None" "map_option gi_mode (intent_of opts) \<noteq> Some Gate_None"
    "map_option acc_mode (an_access (prep_plan p)) = Some First_Visit \<or>
     an_auth (prep_plan p) = Some Auth_None \<and> map_option acc_mode (an_access (prep_plan p)) \<noteq> Some Access_Credentials"
    using gate_when_naked[OF run] that by (auto simp: gate_question_def nakedReason_def)
  have kept: "\<exists>g. prep_gate p = Some g \<and> ga_hash g = gt_hash old \<and> gt_secret (ga_state g) = gt_secret old \<and> ga_secret g = None"
    if "prep_resolution p \<noteq> None" "map_option gi_mode (intent_of opts) \<noteq> Some Gate_None"
      "install_at (h_name (prep_host p)) (an_name (prep_plan p)) w = Some i" "in_ingress i = Some st"
      "is_auth st = Some old" "nonempty (Option.bind (intent_of opts) gi_pass) = None" for i st old
    using gate_kept[OF run, of old] that q prev by (simp add: install_at_row claim_key_def)
  show ?thesis by (intro conjI) (use domain in simp, rule only, use naked kept in blast)
qed

text \<open>
  A deployment without a domain that succeeds leaves a row without a route, whatever route and
  gate the application had before: the record of the gate is gone.
\<close>

theorem redeploy_forgets_gate:
  assumes run: "deploy_app M P source hostName opts w = (Inr (Inr r), w')" and none: "nonempty (bo_domain (binding_of opts)) = None"
  shows "\<exists>i. install_at (dres_host r) (dres_app r) w' = Some i \<and> in_status i = Deployed \<and> in_ingress i = None"
proof -
  have "wp (prepare_deploy M P source hostName opts)
      (\<lambda>p w1. (aw_installs w1 = aw_installs w \<and> prepared_well (aw_installs w) p) \<and>
        (prepared_gate P opts (aw_installs w) p \<and> (prep_resolution p = None \<longleftrightarrow> nonempty (bo_domain (binding_of opts)) = None)))
      (\<lambda>e w1. refused_with (aw_installs w) e w1 \<and> True) w"
    unfolding wp_conj using prepare_deploy_wp[OF refl] prepare_deploy_gate by blast
  then have "wp (deploy_app M P source hostName opts)
      (\<lambda>x w'. \<forall>r. x = Inr r \<longrightarrow> (\<exists>i. row_of (dres_host r, dres_app r) (aw_installs w') = Some i \<and> in_status i = Deployed \<and> in_ingress i = None))
      (\<lambda>e w'. True) w"
    unfolding deploy_app_def wp_andThen
  proof (rule wp_mono)
    fix p and w1 :: "'a app_world"
    assume p: "(aw_installs w1 = aw_installs w \<and> prepared_well (aw_installs w) p) \<and>
        (prepared_gate P opts (aw_installs w) p \<and> (prep_resolution p = None \<longleftrightarrow> nonempty (bo_domain (binding_of opts)) = None))"
    then have "wp (carry_out M P opts p) (deploy_recorded p (aw_installs w))
     (\<lambda>e w'. undone P p (aw_installs w) e w' \<or> after_attach P p (aw_installs w) (hp_endpoints (prep_hp p)) e w') w1"
      by (intro carry_out_wp) simp_all
    then have "wp (carry_out M P opts p) (\<lambda>r w'. \<exists>i. row_of (dres_host r, dres_app r) (aw_installs w') = Some i \<and>
        in_status i = Deployed \<and> in_ingress i = None) (\<lambda>e w'. True) w1"
      by (rule wp_mono) (use p none in \<open>auto simp: deploy_recorded_def confirmed_row_def\<close>)
    then show "wp (if dop_dry_run opts then ret (Inl (planView (prep_plan p) (prep_host p) (prep_hp p) (prep_resolution p) (prep_gate p)))
        else andThen (carry_out M P opts p) (\<lambda>r. ret (Inr r)))
      (\<lambda>x w'. \<forall>r. x = Inr r \<longrightarrow> (\<exists>i. row_of (dres_host r, dres_app r) (aw_installs w') = Some i \<and> in_status i = Deployed \<and> in_ingress i = None))
      (\<lambda>e w'. True) w1"
      unfolding wp_if wp_andThen wp_ret by simp
  qed simp
  from wp_returns[OF this run] show ?thesis by (simp add: install_at_row)
qed

end
