(* ===== verification/App_Rollback.thy ===== *)
theory App_Rollback
  imports App_Lifecycle
begin

text \<open>
  What the rollback of a first deployment takes away: the answer of the data probe, read back, names
  exactly the volumes and secrets that were there, and a cut answer names none as new.
\<close>

section \<open>Positions in a text\<close>

lemma index_of_least: "index_of (u @ p @ v) p \<noteq> None \<and> the (index_of (u @ p @ v) p) \<le> length u"
proof (induction u)
  case Nil
  have "starts_with (p @ v) p" by (simp add: starts_with_def)
  then show ?case by (cases "p @ v") auto
next
  case (Cons c u)
  then show ?case by auto
qed

lemma index_of_skip: "(\<And>t. \<not> starts_with (c # t) p) \<Longrightarrow> index_of (c # s) p = map_option Suc (index_of s p)"
  by simp

lemma index_of_past: "q \<notin> set a \<Longrightarrow> index_of (a @ q # p @ t) (q # p) = Some (length a)"
  by (induction a) (auto simp: starts_with_def)

text \<open>Lines that end with a line feed each.\<close>

definition as_lines :: "string list \<Rightarrow> string" where
  "as_lines ls = flat_map (\<lambda>l. l @ nl) ls"

lemma as_lines_simps [simp]: "as_lines [] = []" "as_lines (l # ls) = l @ CHR 0x0A # as_lines ls"
  by (simp_all add: as_lines_def flat_map_def nl_def)

definition plain_line :: "string \<Rightarrow> bool" where
  "plain_line l \<longleftrightarrow> l \<noteq> [] \<and> trim l = l \<and> newline \<notin> set l"

lemma text_lines_as_lines: "list_all plain_line ls \<Longrightarrow> text_lines (as_lines ls) = ls"
proof (induction ls)
  case Nil
  show ?case by (simp add: text_lines_def lines_of_def trim_def trim_start_def trim_end_def)
next
  case (Cons l ls)
  then have "split_on newline (as_lines (l # ls)) = l # split_on newline (as_lines ls)"
    by (simp add: plain_line_def split_on_append flip: newline_def)
  with Cons show ?case by (simp add: text_lines_def lines_of_def plain_line_def)
qed

section \<open>The answer of the probe\<close>

text \<open>What the script of the probe prints on a host that has the volumes \<open>ev\<close> and the secrets \<open>es\<close>.\<close>

definition probe_answer :: "string list \<Rightarrow> string list \<Rightarrow> (string \<Rightarrow> bool) \<Rightarrow> (string \<Rightarrow> bool) \<Rightarrow> string" where
  "probe_answer volumes secrets ev es = as_lines ([''@@existing''] @ map (\<lambda>v. ''volume '' @ v) (filter ev volumes) @
     map (\<lambda>s. ''secret '' @ s) (filter es secrets) @ [''@@done''])"

lemma safe_chars:
  assumes "safe_secret n" and "c \<in> set n"
  shows "\<not> is_space c \<and> c \<noteq> newline \<and> c \<noteq> CHR 0x40"
proof -
  have "list_all (\<lambda>x. \<not> (is_word x \<or> x = CHR ''.'' \<or> x = CHR ''-'')) [CHR 0x09, CHR 0x0A, CHR 0x0B, CHR 0x0C, CHR 0x0D, CHR '' '', CHR 0x40]"
    by code_simp
  moreover have "is_word c \<or> c = CHR ''.'' \<or> c = CHR ''-''" using assms by (simp add: safe_secret_def list_all_iff)
  ultimately show ?thesis by (auto simp: is_space_def newline_def)
qed

lemma trim_plain: "s \<noteq> [] \<Longrightarrow> \<not> is_space (hd s) \<Longrightarrow> \<not> is_space (last s) \<Longrightarrow> trim s = s"
proof -
  assume s: "s \<noteq> []" "\<not> is_space (hd s)" "\<not> is_space (last s)"
  then have "dropWhile is_space s = s" "dropWhile is_space (rev s) = rev s" by (simp_all add: dropWhile_eq_self_iff hd_rev)
  then show ?thesis by (simp add: trim_def trim_start_def trim_end_def)
qed

lemma named_plain:
  assumes "safe_secret n" and "p = ''volume '' \<or> p = ''secret ''"
  shows "plain_line (p @ n)" and "CHR 0x40 \<notin> set (p @ n)" and "trim n = n"
proof -
  have n: "n \<noteq> []" using assms(1) by (simp add: safe_secret_def)
  then have ends: "\<not> is_space (hd n)" "\<not> is_space (last n)" "newline \<notin> set n" "CHR 0x40 \<notin> set n"
    using safe_chars[OF assms(1)] by force+
  show "trim n = n" using trim_plain n ends(1,2) by blast
  show "CHR 0x40 \<notin> set (p @ n)" using ends assms(2) by auto
  have "trim (p @ n) = p @ n" using trim_plain[of "p @ n"] n ends assms(2) by (auto simp: is_space_def)
  then show "plain_line (p @ n)" using n ends assms(2) by (auto simp: plain_line_def newline_def)
qed

lemma probe_lines_full:
  assumes "CHR 0x40 \<notin> set body"
  shows "index_of (''@existing'' @ nl @ body @ ''@@done'' @ t) ''@@done'' = Some (10 + length body)"
    and "probe_lines (''@@existing'' @ nl @ body @ ''@@done'' @ t) = Some (text_lines body)"
proof -
  have "index_of (body @ CHR 0x40 # ''@done'' @ t) (CHR 0x40 # ''@done'') = Some (length body)"
    using assms by (rule index_of_past)
  then show at: "index_of (''@existing'' @ nl @ body @ ''@@done'' @ t) ''@@done'' = Some (10 + length body)"
    by (simp add: starts_with_def nl_def)
  have "index_of (''@@existing'' @ nl @ body @ ''@@done'' @ t) ''@@existing'' = Some 0"
    "index_of (''@@existing'' @ nl @ body @ ''@@done'' @ t) nl = Some 10"
    by (simp_all add: starts_with_def nl_def)
  then show "probe_lines (''@@existing'' @ nl @ body @ ''@@done'' @ t) = Some (text_lines body)"
    using at by (simp add: probe_lines_def Let_def nl_def)
qed

text \<open>A text that breaks off before the end of the closing mark reads as if nothing had run.\<close>

lemma probe_lines_cut:
  assumes "CHR 0x40 \<notin> set body" and n: "n < 17 + length body"
  shows "probe_lines (take n (''@@existing'' @ nl @ body @ ''@@done'' @ nl)) = None"
proof -
  let ?full = "''@@existing'' @ nl @ body @ ''@@done'' @ nl" and ?rest = "''@existing'' @ nl @ body @ ''@@done'' @ nl"
  have "\<not> includes_str (drop 1 (take n ?full)) ''@@done''"
  proof
    assume "includes_str (drop 1 (take n ?full)) ''@@done''"
    then obtain u v where uv: "drop 1 (take n ?full) = u @ ''@@done'' @ v" unfolding includes_str_iff by blast
    have part: "?rest = drop 1 (take n ?full) @ drop n ?full" if "n \<noteq> 0"
      using that by (cases n) simp_all
    have "n \<noteq> 0" using uv by (cases n) auto
    from part[OF this] have "?rest = u @ ''@@done'' @ v @ drop n ?full" unfolding uv by simp
    then have "the (index_of ?rest ''@@done'') \<le> length u" using index_of_least by metis
    then have "10 + length body \<le> length u" using probe_lines_full(1)[OF assms(1), of nl] by simp
    moreover have "length u + 6 \<le> n - 1" using arg_cong[OF uv, of length] by simp
    ultimately show False using n by simp
  qed
  then have none: "index_of (drop (Suc 0) (take n ?full)) ''@@done'' = None" by (simp add: includes_str_def)
  show ?thesis
  proof (cases "index_of (take n ?full) ''@@existing''")
    case (Some k)
    obtain u v where uv: "take n ?full = u @ ''@@existing'' @ v"
      using Some includes_str_iff unfolding includes_str_def by blast
    have "length (take n ?full) \<le> n" by (simp only: length_take min.cobounded2)
    then have "10 \<le> n" unfolding uv by simp
    then have "starts_with (take n ?full) ''@@existing''" by (simp add: starts_with_def min_def)
    then have "k = 0" using Some by (cases "take n ?full") (auto split: if_splits)
    then show ?thesis using Some none by (simp add: probe_lines_def)
  qed (simp add: probe_lines_def)
qed

definition found_lines :: "string list \<Rightarrow> string list \<Rightarrow> string list" where
  "found_lines vs ss = map (\<lambda>v. ''volume '' @ v) vs @ map (\<lambda>s. ''secret '' @ s) ss"

lemma probe_answer_shape:
  "probe_answer volumes secrets ev es = ''@@existing'' @ nl @ as_lines (found_lines (filter ev volumes) (filter es secrets)) @ ''@@done'' @ nl"
  by (simp add: probe_answer_def found_lines_def as_lines_def flat_map_def nl_def)

lemma found_lines_plain:
  assumes "\<forall>v \<in> set vs. safe_secret v" and "\<forall>s \<in> set ss. safe_secret s"
  shows "list_all plain_line (found_lines vs ss)" and "CHR 0x40 \<notin> set (as_lines (found_lines vs ss))"
proof -
  have line: "plain_line (''volume '' @ n)" "plain_line (''secret '' @ n)" if "safe_secret n" for n
    by (rule named_plain(1)[OF that], simp)+
  then show "list_all plain_line (found_lines vs ss)" using assms by (auto simp: list_all_iff found_lines_def)
  show "CHR 0x40 \<notin> set (as_lines (found_lines vs ss))"
    using assms named_plain(2) by (auto simp: found_lines_def as_lines_def flat_map_def nl_def)
qed

lemma named_lines_of:
  assumes "\<forall>v \<in> set vs. safe_secret v" and "\<forall>s \<in> set ss. safe_secret s"
  shows "named_lines (found_lines vs ss) ''volume '' = vs"
    and "named_lines (found_lines vs ss) ''secret '' = ss"
proof -
  have "map (\<lambda>v. trim v) vs = vs" "map (\<lambda>s. trim s) ss = ss"
    using assms named_plain(3) by (auto intro!: map_idI)
  then show "named_lines (found_lines vs ss) ''volume '' = vs"
    "named_lines (found_lines vs ss) ''secret '' = ss"
    by (simp_all add: found_lines_def named_lines_def filter_map comp_def starts_with_def)
qed

lemma probe_whole:
  assumes "\<forall>v \<in> set vs. safe_secret v" and "\<forall>s \<in> set ss. safe_secret s"
  shows "parseDataProbe (''@@existing'' @ nl @ as_lines (found_lines vs ss) @ ''@@done'' @ t) =
     \<lparr>hd_ran = True, hd_volumes = vs, hd_secrets = ss\<rparr>"
  unfolding parseDataProbe_def probe_lines_full(2)[OF found_lines_plain(2)[OF assms]] option.case
    text_lines_as_lines[OF found_lines_plain(1)[OF assms]] named_lines_of[OF assms] ..

text \<open>The last line feed of the answer is not read.\<close>

lemma take_front: "take (length a) (a @ b) = a"
  by simp

lemma probe_answer_read:
  assumes safe: "\<forall>n \<in> set volumes \<union> set secrets. safe_secret n"
  shows "length (probe_answer volumes secrets ev es) - 1 \<le> n \<Longrightarrow> parseDataProbe (take n (probe_answer volumes secrets ev es)) =
      \<lparr>hd_ran = True, hd_volumes = filter ev volumes, hd_secrets = filter es secrets\<rparr>"
    and "n < length (probe_answer volumes secrets ev es) - 1 \<Longrightarrow>
      parseDataProbe (take n (probe_answer volumes secrets ev es)) = UNPROBED_DATA"
proof -
  let ?vs = "filter ev volumes" and ?ss = "filter es secrets" and ?answer = "probe_answer volumes secrets ev es"
  have s: "\<forall>v \<in> set ?vs. safe_secret v" "\<forall>s \<in> set ?ss. safe_secret s" using safe by auto
  let ?front = "''@@existing'' @ nl @ as_lines (found_lines ?vs ?ss) @ ''@@done''"
  have answer: "?answer = ?front @ nl" by (simp add: probe_answer_shape)
  show "parseDataProbe (take n ?answer) = \<lparr>hd_ran = True, hd_volumes = ?vs, hd_secrets = ?ss\<rparr>" if n: "length ?answer - 1 \<le> n"
  proof (cases "length ?answer \<le> n")
    case True
    then have "take n ?answer = ''@@existing'' @ nl @ as_lines (found_lines ?vs ?ss) @ ''@@done'' @ nl"
      by (simp add: probe_answer_shape)
    then show ?thesis by (simp only: probe_whole[OF s])
  next
    case False
    have "length ?answer = length ?front + 1" unfolding answer by (simp add: nl_def)
    then have "n = length ?front" using False n by simp
    then have "take n ?answer = ''@@existing'' @ nl @ as_lines (found_lines ?vs ?ss) @ ''@@done'' @ []"
      unfolding answer by (simp only: take_front append_Nil2)
    then show ?thesis by (simp only: probe_whole[OF s])
  qed
  assume "n < length ?answer - 1"
  then have "n < 17 + length (as_lines (found_lines ?vs ?ss))" by (simp add: probe_answer_shape nl_def)
  then have "probe_lines (take n ?answer) = None"
    unfolding probe_answer_shape by (rule probe_lines_cut[OF found_lines_plain(2)[OF s]])
  then show "parseDataProbe (take n ?answer) = UNPROBED_DATA" by (simp add: parseDataProbe_def)
qed

section \<open>What a rollback takes\<close>

text \<open>
  C25: The answer of the data probe, printed and read back: complete, it gives exactly the volumes and
  secrets that exist on the host; broken off anywhere before the end of its last mark, it counts as
  no answer.
\<close>

theorem data_probe_roundtrip:
  assumes safe: "\<forall>n \<in> set volumes \<union> set secrets. safe_secret n"
  shows "parseDataProbe (take n (probe_answer volumes secrets ev es)) =
     (if length (probe_answer volumes secrets ev es) - 1 \<le> n
      then \<lparr>hd_ran = True, hd_volumes = filter ev volumes, hd_secrets = filter es secrets\<rparr> else UNPROBED_DATA)"
  using probe_answer_read[OF safe] by simp

text \<open>
  C22: The rollback of a first deployment removes no volume and no secret that was on the host before,
  however much of the answer of the data probe arrived; and with the whole answer it removes all that
  the deployment may have created.
\<close>

theorem rollback_takes_only_new:
  fixes hp :: host_plan
  assumes safe: "\<forall>n \<in> set (hp_volumes hp) \<union> sec_name ` set (hp_secrets hp). safe_secret n"
  shows "let answer = probe_answer (hp_volumes hp) (map sec_name (hp_secrets hp)) ev es;
             taken = teardown_input plan hp (parseDataProbe (take n answer))
     in set (rmi_volumes taken) \<subseteq> {v. \<not> ev v} \<and> set (rmi_secrets taken) \<subseteq> {s. \<not> es s} \<and>
        (length answer \<le> n \<longrightarrow> rmi_volumes taken = filter (\<lambda>v. \<not> ev v) (hp_volumes hp) \<and>
           rmi_secrets taken = filter (\<lambda>s. \<not> es s) (map sec_name (hp_secrets hp)))"
proof -
  have names: "\<forall>n \<in> set (hp_volumes hp) \<union> set (map sec_name (hp_secrets hp)). safe_secret n" using safe by simp
  note read = probe_answer_read[where ev = ev and es = es and n = n, OF names]
  show ?thesis
  proof (cases "length (probe_answer (hp_volumes hp) (map sec_name (hp_secrets hp)) ev es) - 1 \<le> n")
    case True
    show ?thesis unfolding read(1)[OF True] Let_def
      by (auto simp: teardown_input_def dataCreatedInRun_def intro!: filter_cong)
  next
    case False
    then have "parseDataProbe (take n (probe_answer (hp_volumes hp) (map sec_name (hp_secrets hp)) ev es)) = UNPROBED_DATA"
      using read(2) by simp
    then show ?thesis unfolding Let_def using False
      by (auto simp: teardown_input_def dataCreatedInRun_def UNPROBED_DATA_def)
  qed
qed

end
