(* ===== verification/App_Ports.thy ===== *)
theory App_Ports
  imports App_Ledger
begin

text \<open>
  Who owns a port: whatever is called on applications, no two installs of a host own the same port,
  and every port the units of an install publish is one of those its row accounts for.
\<close>

section \<open>Who owns a port\<close>

definition ports_in :: "install \<Rightarrow> nat set" where
  "ports_in i = ep_port ` set (in_endpoints i)"

definition published_in :: "install \<Rightarrow> nat set" where
  "published_in i = {pp_host b | c b. c \<in> set (in_components i) \<and> b \<in> set (ic_published c)}"

text \<open>An install that may stand beside the other installs of its host.\<close>

definition fits :: "install \<Rightarrow> install list \<Rightarrow> bool" where
  "fits i is \<longleftrightarrow> in_status i \<noteq> Install_Removed \<and> published_in i \<subseteq> ports_in i \<and>
     (\<forall>j \<in> set is. in_host j = in_host i \<longrightarrow> in_name j \<noteq> in_name i \<longrightarrow> ports_in j \<inter> ports_in i = {})"

definition ports_owned :: "install list \<Rightarrow> bool" where
  "ports_owned is \<longleftrightarrow> distinct (map install_key is) \<and> (\<forall>i \<in> set is. fits i is)"

text \<open>Two installs that own the same ports under the same key.\<close>

definition same_shape :: "install \<Rightarrow> install \<Rightarrow> bool" where
  "same_shape i j \<longleftrightarrow> install_key i = install_key j \<and> ports_in i = ports_in j \<and> published_in i = published_in j \<and>
     in_status i \<noteq> Install_Removed \<and> in_status j \<noteq> Install_Removed"

lemma same_shape_fits: "same_shape i j \<Longrightarrow> fits j is \<Longrightarrow> fits i is"
  by (auto simp: same_shape_def fits_def install_key_def)

lemma fits_put: "fits i is \<Longrightarrow> fits j is \<Longrightarrow> install_key i = install_key j \<Longrightarrow> fits i (put_install j is)"
  by (auto simp: fits_def put_install_def install_key_def)

lemma fits_filter: "fits i is \<Longrightarrow> fits i (filter Q is)"
  by (auto simp: fits_def)

lemma ports_owned_put:
  assumes "ports_owned is" and "fits i is"
  shows "ports_owned (put_install i is)"
proof -
  have "fits j (put_install i is)" if "j \<in> set (put_install i is)" for j
  proof (cases "j = i")
    case True
    then show ?thesis using fits_put[OF assms(2,2) refl] by simp
  next
    case False
    with that have j: "j \<in> set is" "install_key j \<noteq> install_key i" by (auto simp: put_install_def)
    with assms show ?thesis by (fastforce simp: ports_owned_def fits_def put_install_def install_key_def)
  qed
  moreover have "distinct (map install_key (put_install i is))"
    using assms(1) by (auto simp: ports_owned_def put_install_def intro: distinct_map_filter)
  ultimately show ?thesis by (simp add: ports_owned_def)
qed

lemma ports_owned_filter: "ports_owned is \<Longrightarrow> ports_owned (filter Q is)"
  by (auto simp: ports_owned_def intro: fits_filter distinct_map_filter)

lemma ports_owned_fits: "ports_owned is \<Longrightarrow> i \<in> set is \<Longrightarrow> fits i is"
  by (simp add: ports_owned_def)

text \<open>The ports a deployment reserves for itself are those of the install before it.\<close>

lemma prev_ports_published:
  "(c, ps) \<in> set (prev_ports prev) \<Longrightarrow> \<exists>i k. prev = Some i \<and> k \<in> set (in_components i) \<and> ps = ic_published k"
proof -
  have "(c, ps) \<in> set (fold (\<lambda>c. AList.update (ic_name c) (ic_published c)) cs kvs) \<Longrightarrow>
      (\<exists>k \<in> set cs. ps = ic_published k) \<or> ps \<in> snd ` set kvs" for cs and kvs :: "(string \<times> published_port list) list"
  proof (induction cs arbitrary: kvs)
    case (Cons k cs)
    have "snd ` set (AList.update (ic_name k) (ic_published k) kvs) \<subseteq> insert (ic_published k) (snd ` set kvs)" by (induction kvs) auto
    then show ?case using Cons.IH[of "AList.update (ic_name k) (ic_published k) kvs"] Cons.prems by auto
  qed force
  from this[of _ "[]"] show "(c, ps) \<in> set (prev_ports prev) \<Longrightarrow> ?thesis"
    by (cases prev) (auto simp: prev_ports_def)
qed

lemma own_hosts_prev:
  assumes "rv_own rv = prev_ports prev" and "h \<in> own_hosts rv"
  shows "\<exists>i. prev = Some i \<and> h \<in> published_in i"
  using ownPorts_hosts[of rv] assms prev_ports_published unfolding published_in_def by fastforce

lemma claim_ports: "ports_in (claim_of p now) = ep_port ` set (hp_endpoints (prep_hp p))"
  by (simp add: ports_in_def)

lemma claim_published:
  "published_in (claim_of p now) \<subseteq> {pp_host b | n b. b \<in> set (ports_of (hp_ports (prep_hp p)) n)}"
proof
  fix h assume "h \<in> published_in (claim_of p now)"
  then obtain c b where c: "c \<in> set (in_components (claim_of p now))" "b \<in> set (ic_published c)" "h = pp_host b"
    unfolding published_in_def by blast
  then obtain n where "ic_published c = ports_of (hp_ports (prep_hp p)) n" by (auto simp: claim_of_def toInstall_def Let_def)
  with c(2,3) show "h \<in> {pp_host b | n b. b \<in> set (ports_of (hp_ports (prep_hp p)) n)}" by auto
qed

lemma claim_fits:
  assumes well: "prepared_well is p" and inv: "ports_owned is"
  shows "fits (claim_of p now) is"
proof -
  obtain plan facts ingress rv where plan: "planHostDeploy plan facts (h_address (prep_host p)) ingress (fst (prep_publish p)) rv =
      Inr (prep_hp p, prep_plan p)" and own: "rv_own rv = prev_ports (prep_prev p)"
    and others: "others_ports (claim_key p) is \<subseteq> set (rv_others rv)" and prev: "prep_prev p = row_of (claim_key p) is"
    using well by (auto simp: prepared_well_def claim_key_def)
  have key: "(in_host (claim_of p now), in_name (claim_of p now)) = claim_key p" using claim_of_key[of p now] by (simp add: install_key_def)
  have published: "published_in (claim_of p now) \<subseteq> ports_in (claim_of p now)"
  proof
    fix h assume "h \<in> published_in (claim_of p now)"
    then obtain n b where b: "b \<in> set (ports_of (hp_ports (prep_hp p)) n)" "h = pp_host b" using claim_published[of p now] by blast
    with binding_chosen[OF plan] show "h \<in> ports_in (claim_of p now)" unfolding claim_ports by blast
  qed
  have "ports_in j \<inter> ports_in (claim_of p now) = {}"
    if j: "j \<in> set is" "in_host j = in_host (claim_of p now)" "in_name j \<noteq> in_name (claim_of p now)" for j
  proof -
    have jf: "fits j is" using inv j(1) by (rule ports_owned_fits)
    have "h \<notin> ports_in j" if h: "h \<in> ports_in (claim_of p now)" for h
    proof
      assume hj: "h \<in> ports_in j"
      have "h \<in> others_ports (claim_key p) is"
        using hj j jf key unfolding others_ports_def ports_in_def fits_def by (auto simp flip: key)
      moreover obtain e where "e \<in> set (hp_endpoints (prep_hp p))" "h = ep_port e" using h unfolding claim_ports by blast
      ultimately have "h \<in> own_hosts rv" using endpoint_chosen[OF plan] others by blast
      then obtain i where i: "prep_prev p = Some i" "h \<in> published_in i" using own_hosts_prev[OF own] by blast
      have ik: "install_key i = claim_key p" "i \<in> set is" using row_of_key[of "claim_key p" "is" i] prev i(1) by auto
      have same: "in_host i = in_host (claim_of p now)" "in_name i = in_name (claim_of p now)"
        using ik(1) key unfolding install_key_def by (metis prod.inject)+
      have "fits i is" using inv ik(2) by (rule ports_owned_fits)
      then have "h \<in> ports_in i" "ports_in j \<inter> ports_in i = {}"
        using i(2) same j by (auto simp: fits_def)
      with hj show False by blast
    qed
    then show ?thesis by blast
  qed
  with published show ?thesis by (simp add: fits_def)
qed

text \<open>
  While an operation works on the install of one key, the other installs stay as they were, and
  whatever is written under that key fits beside them.
\<close>

definition around :: "string \<times> string \<Rightarrow> install list \<Rightarrow> install list \<Rightarrow> bool" where
  "around k is is' \<longleftrightarrow> ports_owned is' \<and> filter (\<lambda>j. install_key j \<noteq> k) is' = filter (\<lambda>j. install_key j \<noteq> k) is"

lemma around_refl: "ports_owned is \<Longrightarrow> around k is is"
  by (simp add: around_def)

lemma around_put:
  assumes around: "around k is is'" and fits: "fits i is" and key: "install_key i = k"
  shows "around k is (put_install i is')"
proof -
  let ?rest = "filter (\<lambda>j. install_key j \<noteq> k)"
  have put: "put_install i is' = put_install i (?rest is)"
    using around by (simp add: put_install_def around_def key)
  have "ports_owned (?rest is')" using around ports_owned_filter unfolding around_def by blast
  then have "ports_owned (?rest is)" using around by (simp add: around_def)
  then have "ports_owned (put_install i is')" unfolding put using fits_filter[OF fits] by (rule ports_owned_put)
  then show ?thesis using around by (simp add: around_def put_install_def key)
qed

lemma around_delete:
  assumes "around k is is'"
  shows "around k is (filter (\<lambda>j. install_key j \<noteq> k) is')"
proof -
  have "ports_owned (filter (\<lambda>j. install_key j \<noteq> k) is')" using assms ports_owned_filter unfolding around_def by blast
  then show ?thesis using assms by (simp add: around_def)
qed

lemma keeps_saveInstall:
  "fits i is \<Longrightarrow> install_key i = k \<Longrightarrow> keeps (\<lambda>w. around k is (aw_installs w)) (saveInstall i)"
  unfolding saveInstall_def by (rule keeps_modify) (simp add: around_put)

lemma keeps_deleteInstall: "k = (h, n) \<Longrightarrow> keeps (\<lambda>w. around k is (aw_installs w)) (deleteInstall h n)"
  unfolding deleteInstall_def by (rule keeps_modify) (simp add: around_delete)

text \<open>The rewritings of an install that leave it its ports.\<close>

lemma same_shape_fields:
  "in_host i = in_host j \<Longrightarrow> in_name i = in_name j \<Longrightarrow> map ep_port (in_endpoints i) = map ep_port (in_endpoints j) \<Longrightarrow>
   in_components i = in_components j \<Longrightarrow> in_status i \<noteq> Install_Removed \<Longrightarrow> in_status j \<noteq> Install_Removed \<Longrightarrow> same_shape i j"
  unfolding same_shape_def ports_in_def published_in_def install_key_def by (metis image_set)

lemma applyIngressScheme_ports: "map ep_port (applyIngressScheme eps s) = map ep_port eps"
  by (simp add: applyIngressScheme_def Let_def)

lemma rebindEndpoints_ports: "map ep_port (rebindEndpoints i a r) = map ep_port (in_endpoints i)"
  by (simp add: rebindEndpoints_def)

lemma unexposed_shape: "in_status i \<noteq> Install_Removed \<Longrightarrow> same_shape (unexposed i a\<lparr>in_updated_at := t\<rparr>) i"
  by (rule same_shape_fields) (simp_all add: unexposed_def Let_def rebindEndpoints_ports)

section \<open>Every operation keeps the ports apart\<close>

lemma attach_ingress_around:
  assumes "fits i is" and "in_status i = Deployed" and "install_key i = k"
  shows "keeps (\<lambda>w. around k is (aw_installs w)) (attach_ingress P p i dns)"
proof -
  have "fits (i\<lparr>in_ingress := Some st, in_endpoints := applyIngressScheme (in_endpoints i) st\<rparr>) is" for st
    by (rule same_shape_fits[OF _ assms(1)], rule same_shape_fields) (simp_all add: assms(2) applyIngressScheme_ports)
  then show ?thesis
    unfolding attach_ingress_def Let_def case_prod_unfold
    by (intro app_keeps keeps_saveInstall) (simp_all add: assms(3))
qed

lemma confirm_install_around:
  assumes "fits claim is" and "in_status claim = Deployed" and "install_key claim = k"
  shows "keeps (\<lambda>w. around k is (aw_installs w)) (confirm_install M P p opts claim smoke dns)"
proof -
  have fits: "fits (claim\<lparr>in_updated_at := t\<rparr>) is" for t
    by (rule same_shape_fits[OF _ assms(1)], rule same_shape_fields) (simp_all add: assms(2))
  show ?thesis
    unfolding confirm_install_def Let_def case_prod_unfold
    by (intro app_keeps keeps_saveInstall attach_ingress_around fits) (simp_all add: assms(2,3))
qed

lemma revertInstall_around:
  assumes "ports_owned is" and "install_key claim = k"
  shows "keeps (\<lambda>w. around k is (aw_installs w)) (revertInstall claim (row_of k is))"
proof (cases "row_of k is")
  case None
  then show ?thesis using assms(2) by (simp add: revertInstall_def keeps_deleteInstall install_key_def)
next
  case (Some i)
  then have "install_key i = k" "i \<in> set is" using row_of_key by blast+
  then show ?thesis using assms(1) by (simp add: Some revertInstall_def keeps_saveInstall ports_owned_fits)
qed

lemma gateOrRollback_keeps: "keeps (\<lambda>w. Q (aw_installs w)) (gateOrRollback M P t plan hp prev g pre res)"
  unfolding gateOrRollback_def by (intro app_keeps)

lemma mutate_host_keeps: "keeps (\<lambda>w. Q (aw_installs w)) (mutate_host M P p opts registry)"
  unfolding mutate_host_def withDnsCleanup_def build_app_def by (intro app_keeps gateOrRollback_keeps)

lemma keeps_case_failure:
  "(\<And>f. keeps Q (g f)) \<Longrightarrow> (\<And>m. keeps Q (h m)) \<Longrightarrow> keeps Q (case e of App_Failure f \<Rightarrow> g f | Left_Running m \<Rightarrow> h m)"
  by (cases e) simp_all

lemma carry_out_around:
  assumes well: "prepared_well is p" and owned: "ports_owned is"
  shows "keeps (\<lambda>w. around (claim_key p) is (aw_installs w)) (carry_out M P opts p)"
proof -
  note fits = claim_fits[OF well owned]
  have begun: "fits (claim_of p now\<lparr>in_status := Installing\<rparr>) is" for now
    by (rule same_shape_fits[OF _ fits], rule same_shape_fields) simp_all
  have prev: "prep_prev p = row_of (claim_key p) is" using well by (simp add: prepared_well_def claim_key_def)
  have "keeps (\<lambda>w. around (claim_key p) is (aw_installs w)) (revertInstall (claim_of p now) (prep_prev p))" for now
    unfolding prev by (rule revertInstall_around[OF owned claim_of_key])
  then show ?thesis
    unfolding carry_out_def beginInstall_def withLedgerRevert_def Let_def case_prod_unfold
    by (intro app_keeps keeps_saveInstall keeps_case_failure mutate_host_keeps confirm_install_around begun fits) simp_all
qed

lemma deploy_app_owned: "keeps (\<lambda>w. ports_owned (aw_installs w)) (deploy_app M P source hostName opts)"
  unfolding keeps_wp
proof (intro allI impI)
  fix w :: "'a app_world"
  assume owned: "ports_owned (aw_installs w)"
  show "wp (deploy_app M P source hostName opts) (\<lambda>x w'. ports_owned (aw_installs w')) (\<lambda>e w'. ports_owned (aw_installs w')) w"
    unfolding deploy_app_def wp_andThen
  proof (rule wp_mono[OF prepare_deploy_wp[OF refl]])
    fix p and w1 :: "'a app_world"
    assume p: "aw_installs w1 = aw_installs w \<and> prepared_well (aw_installs w) p"
    have "wp (carry_out M P opts p) (\<lambda>r w'. around (claim_key p) (aw_installs w) (aw_installs w'))
        (\<lambda>e w'. around (claim_key p) (aw_installs w) (aw_installs w')) w1"
      using carry_out_around[of "aw_installs w" p M P opts] p owned around_refl[OF owned] unfolding keeps_wp by simp
    then have "wp (carry_out M P opts p) (\<lambda>r w'. ports_owned (aw_installs w')) (\<lambda>e w'. ports_owned (aw_installs w')) w1"
      by (rule wp_mono) (simp_all add: around_def)
    then show "wp (if dop_dry_run opts then ret (Inl (planView (prep_plan p) (prep_host p) (prep_hp p) (prep_resolution p) (prep_gate p)))
        else andThen (carry_out M P opts p) (\<lambda>r. ret (Inr r)))
        (\<lambda>x w'. ports_owned (aw_installs w')) (\<lambda>e w'. ports_owned (aw_installs w')) w1"
      unfolding wp_if wp_andThen wp_ret using p owned by simp
  qed (use owned in \<open>simp add: refused_with_def\<close>)
qed

lemma get_install_wp:
  assumes "\<And>i. i \<in> set (aw_installs w) \<Longrightarrow> Q i w" and "\<And>e. E e w"
  shows "wp (get_install n h) Q E w"
proof -
  let ?ms = "foldr insert_host (filter (\<lambda>i. in_name i = n) (aw_installs w)) []"
  have "set (insert_host i is) = insert i (set is)" for i "is" by (induction "is") auto
  then have "set (foldr insert_host is []) = set is" for "is" by (induction "is") auto
  then have found: "set ?ms \<subseteq> set (aw_installs w)" by auto
  have "i \<in> set ms" if "pickInstall n h ms = Inr i" for i ms
    using that by (auto simp: pickInstall_def split: list.splits option.splits if_splits dest!: find_SomeD)
  then have "Q i w" if "pickInstall n h ?ms = Inr i" for i using that found assms(1) by blast
  then show ?thesis
    unfolding get_install_def findInstalls_def wp_andThen wp_gets wp_of_result
    by (cases "pickInstall n h ?ms") (simp_all add: assms(2))
qed

text \<open>An operation that starts with the lookup of an install and writes under its key only.\<close>

lemma on_install_owned:
  assumes f: "\<And>is i. ports_owned is \<Longrightarrow> i \<in> set is \<Longrightarrow> keeps (\<lambda>w. around (install_key i) is (aw_installs w)) (f i)"
  shows "keeps (\<lambda>w. ports_owned (aw_installs w)) (andThen (get_install n h) f)"
  unfolding keeps_wp
proof (intro allI impI)
  fix w :: "'a app_world"
  assume owned: "ports_owned (aw_installs w)"
  have "wp (f i) (\<lambda>x w'. ports_owned (aw_installs w')) (\<lambda>e w'. ports_owned (aw_installs w')) w" if i: "i \<in> set (aw_installs w)" for i
  proof -
    have "wp (f i) (\<lambda>x w'. around (install_key i) (aw_installs w) (aw_installs w'))
        (\<lambda>e w'. around (install_key i) (aw_installs w) (aw_installs w')) w"
      using f[OF owned i] around_refl[OF owned] unfolding keeps_wp by blast
    then show ?thesis by (rule wp_mono) (simp_all add: around_def)
  qed
  then show "wp (andThen (get_install n h) f) (\<lambda>x w'. ports_owned (aw_installs w')) (\<lambda>e w'. ports_owned (aw_installs w')) w"
    unfolding wp_andThen by (intro get_install_wp) (simp_all add: owned)
qed

lemma removeApp_owned: "keeps (\<lambda>w. ports_owned (aw_installs w)) (removeApp M P n purge dryRun h)"
  unfolding removeApp_def forgetOrphan_def
  by (intro on_install_owned app_keeps keeps_deleteInstall) (simp_all add: install_key_def)

lemma unexposeApp_owned: "keeps (\<lambda>w. ports_owned (aw_installs w)) (unexposeApp M P n h)"
  unfolding unexposeApp_def
proof (rule on_install_owned)
  fix "is" i
  assume owned: "ports_owned is" "i \<in> set is"
  then have fits: "fits i is" by (rule ports_owned_fits)
  have later: "fits (unexposed i a\<lparr>in_updated_at := t\<rparr>) is" for a t
    using fits by (intro same_shape_fits[OF unexposed_shape fits]) (simp add: fits_def)
  show "keeps (\<lambda>w. around (install_key i) is (aw_installs w)) (andThen (on_plane (show_host (in_host i))) (\<lambda>ho.
     andThen (on_plane (assertHostWritable M ho)) (\<lambda>_.
     if in_ingress i = None then refuse (quoted n @ '' is not exposed via ingress.'')
     else andThen (on_plane (assertReady M (pf_probe P) (in_host i))) (\<lambda>_.
       andThen (on_plane (resolveSshTarget M ho)) (\<lambda>t.
       andThen (on_plane (app_preflight M (in_host i))) (\<lambda>facts.
       let next = unexposed i (h_address ho) in
       andThen (on_plane (runScript M t (buildDeployScript (rebound_input i (in_units next) (or_default (hf_quadlet facts) []))) True)) (\<lambda>_.
       andThen (on_plane (pf_cleanup P ho i)) (\<lambda>_.
       andThen (on_plane clock) (\<lambda>now.
       andThen (saveInstall (next\<lparr>in_updated_at := now\<rparr>)) (\<lambda>_.
       andThen (on_plane (appendAudit ''app.unexpose'' [(''app'', JStr n), (''host'', JStr (in_host i))])) (\<lambda>_.
       ret (in_endpoints next))))))))))))"
    unfolding Let_def
    by (intro app_keeps keeps_saveInstall later) (simp add: unexposed_def install_key_def Let_def)
qed

lemma restartApp_owned: "keeps (\<lambda>w. ports_owned (aw_installs w)) (restartApp M n h)"
  unfolding restartApp_def by (intro on_install_owned app_keeps)

lemma expose_app_owned: "keeps (\<lambda>w. ports_owned (aw_installs w)) (expose_app M P inCatalog n opts h)"
  unfolding expose_app_def
  by (intro keeps_andThen app_keeps deploy_app_owned) (simp_all add: get_install_def findInstalls_def app_keeps)

section \<open>Calls\<close>

text \<open>
  The worlds that calls lead to, from a table without installs: whatever machines and parameters a
  call meets, and whatever becomes of the files, hosts and machines between two calls.
\<close>

inductive app_reached :: "'r app_world \<Rightarrow> bool" where
  start: "aw_installs w = [] \<Longrightarrow> app_reached w"
| elsewhere: "app_reached w \<Longrightarrow> app_reached (w\<lparr>aw_plane := p\<rparr>)"
| deployed: "app_reached w \<Longrightarrow> deploy_app M P source hostName opts w = (res, w') \<Longrightarrow> app_reached w'"
| exposed: "app_reached w \<Longrightarrow> expose_app M P inCatalog n io h w = (res, w') \<Longrightarrow> app_reached w'"
| unexposed: "app_reached w \<Longrightarrow> unexposeApp M P n h w = (res', w') \<Longrightarrow> app_reached w'"
| restarted: "app_reached w \<Longrightarrow> restartApp M n h w = (status, w') \<Longrightarrow> app_reached w'"
| removed: "app_reached w \<Longrightarrow> removeApp M P n purge dryRun h w = (gone, w') \<Longrightarrow> app_reached w'"

lemma reached_owned: "app_reached w \<Longrightarrow> ports_owned (aw_installs w)"
proof (induction rule: app_reached.induct)
  case (start w)
  then show ?case by (simp add: ports_owned_def)
next
  case (deployed w M P source hostName opts res w')
  show ?case by (rule keepsD[OF deploy_app_owned deployed(3,2)])
next
  case (exposed w M P inCatalog n io h res w')
  show ?case by (rule keepsD[OF expose_app_owned exposed(3,2)])
next
  case (unexposed w M P n h res' w')
  show ?case by (rule keepsD[OF unexposeApp_owned unexposed(3,2)])
next
  case (restarted w M n h status w')
  show ?case by (rule keepsD[OF restartApp_owned restarted(3,2)])
next
  case (removed w M P n purge dryRun h gone w')
  show ?case by (rule keepsD[OF removeApp_owned removed(3,2)])
qed simp

text \<open>
  C19: Whatever calls are made, two installs on one host have different names and own no port in
  common, and the ports that the units of an install publish are ports its row accounts for.
\<close>

theorem ports_never_shared:
  assumes "app_reached w" and "i \<in> set (aw_installs w)"
  shows "(\<forall>c \<in> set (in_components i). \<forall>b \<in> set (ic_published c). pp_host b \<in> ep_port ` set (in_endpoints i)) \<and>
     (\<forall>j \<in> set (aw_installs w). j \<noteq> i \<longrightarrow> in_host j = in_host i \<longrightarrow>
        in_name j \<noteq> in_name i \<and> (\<forall>e \<in> set (in_endpoints i). \<forall>f \<in> set (in_endpoints j). ep_port e \<noteq> ep_port f))"
proof -
  have owned: "distinct (map install_key (aw_installs w))" "fits i (aw_installs w)"
    using reached_owned[OF assms(1)] assms(2) by (simp_all add: ports_owned_def)
  have "in_name j \<noteq> in_name i" if "j \<in> set (aw_installs w)" "j \<noteq> i" "in_host j = in_host i" for j
    using owned(1) assms(2) that unfolding distinct_map inj_on_def install_key_def by blast
  moreover have "ports_in j \<inter> ports_in i = {}" if "j \<in> set (aw_installs w)" "in_host j = in_host i" "in_name j \<noteq> in_name i" for j
    using owned(2) that by (simp add: fits_def)
  moreover have "published_in i \<subseteq> ports_in i" using owned(2) by (simp add: fits_def)
  ultimately show ?thesis unfolding ports_in_def published_in_def by blast
qed

end
