(* ===== verification/App_Witnesses.thy ===== *)
theory App_Witnesses
  imports App_Gate App_Rollback App_Ports Host_Witnesses
begin

text \<open>
  A host that answers every script alike, as one on which all goes well, and an application of one
  container: a deployment that succeeds, and the properties of applications at these.
\<close>

section \<open>A deployment that succeeds\<close>

definition demo_lines :: "string list" where
  "demo_lines = [''@@podman'', ''5.0.1'', ''@@quadlet'', ''/q'', ''@@pull'', ''@@started'', ''x.service=active'', ''@@ok'',
     ''@@http'', ''200'', ''@@done'']"

definition app_box :: "string \<Rightarrow> string list \<Rightarrow> string option \<Rightarrow> unit \<Rightarrow> exec_result \<times> unit" where
  "app_box prog args stdin r = (ok_result (join nl demo_lines), r)"

definition demo_port :: app_port where
  "demo_port = \<lparr>ap_name = ''http'', ap_container = 8, ap_expose = True, ap_protocol = Http_Port, ap_route = None\<rparr>"

definition demo_component :: app_component where
  "demo_component = \<lparr>cm_name = ''web'', cm_container = ''x'', cm_image = ''i'', cm_env = [], cm_secrets = [], cm_ports = [demo_port],
     cm_volumes = [], cm_cpu = None, cm_memory = None, cm_health = None, cm_depends = [], cm_command = None\<rparr>"

definition demo_app :: app_plan where
  "demo_app = \<lparr>an_name = ''x'', an_app = ''x'', an_display = ''X'', an_kind = Standalone, an_pod = None, an_components = [demo_component],
     an_primary = ''web'', an_smoke = None, an_domain = None, an_needs_domain = False, an_access = None, an_auth = None, an_exposure = None,
     an_post = [], an_warnings = []\<rparr>"

definition demo_platform :: "unit platform" where
  "demo_platform = \<lparr>pf_probe = no_probe, pf_load = (\<lambda>s n. Inr demo_app), pf_gate = \<lparr>gc_hash = (\<lambda>s p. p), gc_password = (\<lambda>s. s)\<rparr>,
     pf_no_rollback = False, pf_preflight_dns = (\<lambda>h b f d. ret None), pf_ensure_dns = (\<lambda>h b f. ret None), pf_discard_dns = (\<lambda>d. ret ()),
     pf_ingress_up = (\<lambda>h e. ret ()),
     pf_attach = (\<lambda>h i b st g d. throw (Plain_Error ''x'')), pf_cleanup = (\<lambda>h i. ret ())\<rparr>"

definition demo_world :: "unit app_world" where
  "demo_world = \<lparr>aw_plane = demo_plane (), aw_installs = []\<rparr>"

definition demo_opts :: deploy_opts where
  "demo_opts = \<lparr>dop_name = None, dop_set = None, dop_dry_run = False, dop_ingress = None, dop_public = None, dop_registry = None\<rparr>"

definition demo_source :: app_source where
  "demo_source = \<lparr>src_catalog = Some ''x'', src_file = None, src_image = None\<rparr>"


lemma run_box: "runScript (demo_machine app_box) t s sudo p = (Inr (ok_result (join nl demo_lines)), p)"
  by (simp add: runScript_def on_remote_def demo_machine_def app_box_def)

lemma demo_answers:
  "parsePullOutput (join nl demo_lines) = (True, [])"
  "do_ok (parseDeployOutput (join nl demo_lines) [''x.service''])"
  "so_ok (parseHttpSmoke (join nl demo_lines) 200 port)"
  by code_simp+

text \<open>What the preparation gives, with and without a domain.\<close>

lemma demo_prepared:
  "case fst (prepare_deploy (demo_machine app_box) demo_platform demo_source ''h'' demo_opts demo_world) of Inl e \<Rightarrow> False
   | Inr p \<Rightarrow> hp_services (prep_hp p) = [''x.service''] \<and> prep_resolution p = None \<and> prep_prev p = None \<and>
       an_post (prep_plan p) = [] \<and> an_smoke (prep_plan p) = None \<and> httpPrimary (prep_plan p)"
  by code_simp

lemma demo_carried:
  assumes "hp_services (prep_hp p) = [''x.service'']" "prep_resolution p = None" "prep_prev p = None"
    "an_post (prep_plan p) = []" "an_smoke (prep_plan p) = None" "httpPrimary (prep_plan p)"
  shows "\<exists>r w'. carry_out (demo_machine app_box) demo_platform demo_opts p w = (Inr r, w')"
proof -
  let ?M = "demo_machine app_box"
  have pull: "pullImages ?M t images reg q = (Inr None, q)" for t images reg q
    unfolding pullImages_def andThen_run(2)[where m = "runScript _ _ _ _", OF run_box]
    by (simp add: ok_result_def demo_answers ret_def)
  have smoke: "\<exists>d. runSmoke ?M t (prep_plan p) (prep_hp p) q = (Inr \<lparr>so_ok = True, so_detail = d\<rparr>, q)" for t q
  proof (cases "ports_of (hp_ports (prep_hp p)) (an_primary (prep_plan p))")
    case (Cons b bs)
    let ?o = "parseHttpSmoke (join nl demo_lines) 200 (Some (pp_host b))"
    have "runSmoke ?M t (prep_plan p) (prep_hp p) q = (Inr ?o, q)"
      unfolding runSmoke_def Let_def Cons
      by (simp add: assms andThen_run(2)[where m = "runScript _ _ _ _", OF run_box] ok_result_def ret_def or_default_def)
    then show ?thesis using demo_answers(3)[of "Some (pp_host b)"] by (cases ?o) simp
  qed (simp add: runSmoke_def assms ret_def)
  have gate: "\<exists>s. gateOrRollback ?M demo_platform t (prep_plan p) (prep_hp p) prev g pre (ok_result (join nl demo_lines)) w = (Inr s, w)"
    for t prev g pre w
    using smoke[of t "aw_plane w"] unfolding gateOrRollback_def
    by (auto simp: Let_def ok_result_def assms demo_answers andThen_def on_plane_def ret_def)
  have build: "\<exists>s. build_app ?M demo_platform p demo_opts reg pre w = (Inr s, w)" for reg pre w
    using gate[of "prep_target p" "redeployBaseline (prep_prev p)" "or_default (hf_quadlet (prep_facts p)) []" pre w]
    unfolding build_app_def by (simp add: andThen_def assms ret_def on_plane_def pull run_box)
  have mutated: "\<exists>s. mutate_host ?M demo_platform p demo_opts reg w = (Inr s, w)" for reg w
  proof -
    have probe: "\<exists>d. probeAppData ?M t hp q = (Inr d, q)" for t hp q
      unfolding probeAppData_def by (simp add: andThen_def run_box ret_def)
    obtain pre where pre: "probeAppData ?M (prep_target p) (prep_hp p) (aw_plane w) = (Inr pre, aw_plane w)" using probe by blast
    obtain s where "build_app ?M demo_platform p demo_opts reg pre w = (Inr s, w)" using build by blast
    then show ?thesis unfolding mutate_host_def withDnsCleanup_def
      by (simp add: andThen_def assms redeployBaseline_def on_plane_def pre catching_def ret_def)
  qed
  show ?thesis
  proof -
    obtain s where s: "mutate_host ?M demo_platform p demo_opts reg w = (Inr (s reg w), w)" for reg w using mutated by metis
    show ?thesis
      unfolding carry_out_def confirm_install_def attach_ingress_def withLedgerRevert_def beginInstall_def saveInstall_def Let_def
      by (simp add: andThen_def on_plane_def clock_def gets_def modify_def catching_def ret_def s assms runPostInstall_def post_runs_def
          List.map_filter_simps appendAudit_def split: prod.split)
  qed
qed

lemma demo_deployed: "\<exists>r w'. deploy_app (demo_machine app_box) demo_platform demo_source ''h'' demo_opts demo_world = (Inr (Inr r), w')"
proof -
  obtain p w1 where p: "prepare_deploy (demo_machine app_box) demo_platform demo_source ''h'' demo_opts demo_world = (Inr p, w1)"
    "hp_services (prep_hp p) = [''x.service'']" "prep_resolution p = None" "prep_prev p = None"
    "an_post (prep_plan p) = []" "an_smoke (prep_plan p) = None" "httpPrimary (prep_plan p)"
    using demo_prepared by (cases "prepare_deploy (demo_machine app_box) demo_platform demo_source ''h'' demo_opts demo_world")
      (auto split: sum.splits)
  obtain r w' where "carry_out (demo_machine app_box) demo_platform demo_opts p w1 = (Inr r, w')"
    using demo_carried[OF p(2-)] by blast
  then show ?thesis unfolding deploy_app_def by (simp add: andThen_def p(1) demo_opts_def[THEN arg_cong, of dop_dry_run] ret_def)
qed

section \<open>The properties\<close>

definition demo_pair :: app_plan where
  "demo_pair = demo_app\<lparr>an_components := [demo_component\<lparr>cm_depends := [''db'']\<rparr>,
     demo_component\<lparr>cm_name := ''db'', cm_container := ''y'', cm_ports := []\<rparr>]\<rparr>"

lemma start_order_witness:
  "\<exists>ns. orderServices demo_pair = map (unit_of demo_pair) ns \<and> set ns = {''web'', ''db''} \<and> before ''db'' ''web'' ns"
proof -
  let ?rank = "\<lambda>n. if n = ''web'' then 1 else 0 :: nat"
  have names: "distinct (map cm_name (an_components demo_pair))" by code_simp
  have two: "an_components demo_pair = [demo_component\<lparr>cm_depends := [''db'']\<rparr>,
     demo_component\<lparr>cm_name := ''db'', cm_container := ''y'', cm_ports := []\<rparr>]" by (simp add: demo_pair_def)
  have all: "component_names demo_pair = {''web'', ''db''}" by (simp add: component_names_def two demo_component_def)
  obtain ns where ns: "orderServices demo_pair = map (unit_of demo_pair) ns" "set ns = component_names demo_pair"
    "\<forall>rank :: string \<Rightarrow> nat.
        (\<forall>c \<in> set (an_components demo_pair). \<forall>d \<in> set (cm_depends c) \<inter> component_names demo_pair. rank d < rank (cm_name c)) \<longrightarrow>
        (\<forall>c \<in> set (an_components demo_pair). \<forall>d \<in> set (cm_depends c) \<inter> component_names demo_pair. before d (cm_name c) ns)"
    using start_order[OF names] by blast
  have "\<forall>c \<in> set (an_components demo_pair). \<forall>d \<in> set (cm_depends c) \<inter> component_names demo_pair. ?rank d < ?rank (cm_name c)"
    unfolding all two by (simp add: demo_component_def)
  then have "\<forall>c \<in> set (an_components demo_pair). \<forall>d \<in> set (cm_depends c) \<inter> component_names demo_pair. before d (cm_name c) ns"
    by (rule mp[OF spec[OF ns(3), of ?rank]])
  then have "before ''db'' ''web'' ns" unfolding all two by (simp add: demo_component_def)
  with ns(1,2) all show ?thesis by blast
qed

definition demo_facts :: host_facts where
  "demo_facts = \<lparr>hf_podman = Some ''5.0.1'', hf_quadlet = Some ''/q'', hf_k3s = False, hf_selinux = False,
     hf_arch = ''x86_64'', hf_ports = [22], hf_free_kb = 9, hf_networks = []\<rparr>"

lemma ports_well_chosen_witness:
  "\<exists>hp plan'. planHostDeploy demo_app demo_facts ''a'' None Loopback \<lparr>rv_own = [], rv_others = [7]\<rparr> = Inr (hp, plan') \<and>
     (\<forall>e \<in> set (hp_endpoints hp). ep_port e \<noteq> 22 \<and> ep_port e \<noteq> 7)"
proof -
  let ?run = "planHostDeploy demo_app demo_facts ''a'' None Loopback \<lparr>rv_own = [], rv_others = [7]\<rparr>"
  have "case ?run of Inr x \<Rightarrow> True | Inl e \<Rightarrow> False" by code_simp
  then obtain hp plan' where run: "?run = Inr (hp, plan')" by (cases ?run) auto
  have "own_hosts \<lparr>rv_own = [], rv_others = [7]\<rparr> = {}" by (simp add: own_hosts_def ownPorts_def flat_map_def)
  then have "\<forall>e \<in> set (hp_endpoints hp). ep_port e \<notin> set (hf_ports demo_facts) \<union> {7}"
    using ports_well_chosen[OF run] by auto
  then show ?thesis using run by (auto simp: demo_facts_def)
qed


lemma ports_never_shared_witness:
  "\<exists>(w :: unit app_world) i. app_reached w \<and> i \<in> set (aw_installs w) \<and>
     (\<forall>c \<in> set (in_components i). \<forall>b \<in> set (ic_published c). pp_host b \<in> ep_port ` set (in_endpoints i))"
proof -
  obtain r w' where run: "deploy_app (demo_machine app_box) demo_platform demo_source ''h'' demo_opts demo_world = (Inr (Inr r), w')"
    using demo_deployed by blast
  have reached: "app_reached w'" by (rule app_reached.deployed[OF app_reached.start run]) (simp add: demo_world_def)
  have "wp (deploy_app (demo_machine app_box) demo_platform demo_source ''h'' demo_opts)
      (\<lambda>x w'. \<forall>r. x = Inr r \<longrightarrow> aw_installs w' \<noteq> []) (\<lambda>e w'. True) demo_world"
    unfolding deploy_app_def wp_andThen
    by (rule wp_mono[OF prepare_deploy_wp[OF refl]], unfold wp_if wp_ret wp_andThen, simp add: demo_opts_def, rule wp_mono[OF carry_out_wp])
      (auto simp: deploy_recorded_def confirmed_row_def dest!: row_of_key)
  from wp_returns[OF this run] obtain i where i: "i \<in> set (aw_installs w')" by (cases "aw_installs w'") auto
  show ?thesis using ports_never_shared[OF reached i] reached i by blast
qed

text \<open>The same host with the application already there, behind a gate.\<close>

definition gated_install :: install where
  "gated_install = \<lparr>in_name = ''x'', in_app = ''x'', in_display = ''X'', in_host = ''h'', in_kind = Standalone, in_pod = None,
     in_primary = ''web'', in_components = [\<lparr>ic_name = ''web'', ic_container = ''x'', ic_image = ''i'',
       ic_published = [\<lparr>pp_host = 9, pp_container = 8, pp_bind = ''127.0.0.1''\<rparr>]\<rparr>],
     in_units = [], in_secrets = [], in_volumes = [], in_endpoints = [],
     in_ingress = Some \<lparr>is_hostname = ''a.bc'', is_tls = True, is_staging = False, is_component = ''web'', is_host_port = 9,
       is_routes = [], is_direct = False, is_resolver = [], is_route_file = [], is_dns = None,
       is_auth = Some \<lparr>gt_user = ''u'', gt_secret = ''s'', gt_hash = ''g''\<rparr>, is_attached_at = 0\<rparr>,
     in_access = None, in_publish = None, in_status = Deployed, in_created_at = 0, in_updated_at = 0\<rparr>"

definition gated_world :: "unit app_world" where
  "gated_world = demo_world\<lparr>aw_installs := [gated_install]\<rparr>"

definition gated_opts :: deploy_opts where
  "gated_opts = demo_opts\<lparr>dop_ingress := Some \<lparr>io_binding = no_binding\<lparr>bo_domain := Some ''a.bc''\<rparr>, io_email = None, io_auth = None\<rparr>\<rparr>"

lemma gated_prepared:
  "case fst (prepare_deploy (demo_machine app_box) demo_platform demo_source ''h'' gated_opts gated_world) of Inl e \<Rightarrow> False
   | Inr p \<Rightarrow> h_name (prep_host p) = ''h'' \<and> an_name (prep_plan p) = ''x''"
  by code_simp

lemma no_silent_exposure_witness:
  "\<exists>p w' g. prepare_deploy (demo_machine app_box) demo_platform demo_source ''h'' gated_opts gated_world = (Inr p, w') \<and>
     prep_resolution p \<noteq> None \<and> prep_gate p = Some g \<and> ga_hash g = ''g''"
proof -
  obtain p w' where run: "prepare_deploy (demo_machine app_box) demo_platform demo_source ''h'' gated_opts gated_world = (Inr p, w')"
    and key: "h_name (prep_host p) = ''h''" "an_name (prep_plan p) = ''x''"
    using gated_prepared by (cases "prepare_deploy (demo_machine app_box) demo_platform demo_source ''h'' gated_opts gated_world")
      (auto split: sum.splits)
  have opts: "nonempty (bo_domain (binding_of gated_opts)) \<noteq> None" "intent_of gated_opts = None"
    by (simp_all add: gated_opts_def binding_of_def intent_of_def demo_opts_def nonempty_def)
  have at: "install_at ''h'' ''x'' gated_world = Some gated_install"
    by (simp add: install_at_def gated_world_def install_key_def gated_install_def)
  obtain st old where st: "in_ingress gated_install = Some st" "is_auth st = Some old" "gt_hash old = ''g''"
    by (simp add: gated_install_def)
  show ?thesis using no_silent_exposure[OF run] opts key at st run by (auto simp: nonempty_def)
qed

lemma redeploy_forgets_gate_witness:
  "\<exists>r w' i. deploy_app (demo_machine app_box) demo_platform demo_source ''h'' demo_opts demo_world = (Inr (Inr r), w') \<and>
     install_at (dres_host r) (dres_app r) w' = Some i \<and> in_ingress i = None"
proof -
  obtain r w' where run: "deploy_app (demo_machine app_box) demo_platform demo_source ''h'' demo_opts demo_world = (Inr (Inr r), w')"
    using demo_deployed by blast
  have "nonempty (bo_domain (binding_of demo_opts)) = None"
    by (simp add: demo_opts_def binding_of_def no_binding_def nonempty_def)
  from redeploy_forgets_gate[OF run this] run show ?thesis by blast
qed

lemma data_probe_roundtrip_witness:
  "parseDataProbe (take 6 (probe_answer [''v''] [''s''] (\<lambda>v. True) (\<lambda>s. False))) = UNPROBED_DATA \<and>
   parseDataProbe (take 90 (probe_answer [''v''] [''s''] (\<lambda>v. True) (\<lambda>s. False))) =
     \<lparr>hd_ran = True, hd_volumes = [''v''], hd_secrets = []\<rparr>"
proof -
  have safe: "\<forall>n \<in> set [''v''] \<union> set [''s'']. safe_secret n" by code_simp
  have l: "length (probe_answer [''v''] [''s''] (\<lambda>v. True) (\<lambda>s. False)) = 27"
    by (simp add: probe_answer_def as_lines_def flat_map_def nl_def)
  show ?thesis using data_probe_roundtrip[OF safe, of 6 "\<lambda>v. True" "\<lambda>s. False"] data_probe_roundtrip[OF safe, of 90 "\<lambda>v. True" "\<lambda>s. False"]
    unfolding l by simp
qed

definition data_plan :: host_plan where
  "data_plan = \<lparr>hp_dir = ''d'', hp_coexistence = False, hp_ports = [], hp_units = [], hp_health = [], hp_secrets = [],
     hp_services = [], hp_prereq = [], hp_volumes = [''v'', ''u''], hp_pod = None, hp_endpoints = []\<rparr>"

lemma rollback_takes_only_new_witness:
  "rmi_volumes (teardown_input demo_app data_plan (parseDataProbe (take 90
      (probe_answer [''v'', ''u''] [] (\<lambda>v. v = ''v'') (\<lambda>s. False))))) = [''u'']"
proof -
  have safe: "\<forall>n \<in> set (hp_volumes data_plan) \<union> sec_name ` set (hp_secrets data_plan). safe_secret n"
    by (simp add: data_plan_def) code_simp
  have plan: "hp_volumes data_plan = [''v'', ''u'']" "hp_secrets data_plan = []" by (simp_all add: data_plan_def)
  have "length (probe_answer [''v'', ''u''] [] (\<lambda>v. v = ''v'') (\<lambda>s. False)) \<le> 90"
    by (simp add: probe_answer_def as_lines_def flat_map_def nl_def)
  then show ?thesis
    using rollback_takes_only_new[OF safe, where ev = "\<lambda>v. v = ''v''" and es = "\<lambda>s. False" and plan = demo_app and n = 90]
    unfolding plan Let_def by simp
qed

end
