(* ===== verification/Spec2Isabelle.thy ===== *)
theory Spec2Isabelle
  imports Agent_Witnesses Firewall_Witnesses Remote_Witnesses App_Witnesses
begin

text \<open>
  A verification library for vops (flui-cloud/vops), a program that lets agents and people run
  servers: a local control plane that decides what an agent may do, the host services that act on
  machines over SSH and on the firewalls of cloud providers, and a remote control of that plane by
  paired devices. The TypeScript sources are under src/src/; every path below is relative to it.

  \<^bold>\<open>How code becomes definitions.\<close> A method of a service is an \<open>action\<close> (theory \<open>Vops_Prelude\<close>): a
  function of the state to a value or a thrown error, and the new state. A throw keeps what was
  written before it. The agent control plane works on the record \<open>world\<close> (the tables of its store,
  the clock, the supply of identifiers, the emergency stop in memory), the host services on the
  record \<open>plane\<close> (local files, the inventory, the audit table, the machines at the other end), the
  remote control on the record \<open>remote\<close> (its tables, the secrets of intents, the frames sent, and the
  world of the agent plane inside it, whose actions are lifted by \<open>on_agent\<close>).
  The operations on applications work on the record \<open>app_world\<close> (a plane and the table of installs),
  the actions of the plane lifted by \<open>on_plane\<close>.
  What is not code of the repository is a parameter: the record \<open>host_lib\<close> (SHA-256, the locale's
  comparison, the text of a number), \<open>reg_ajv\<close> (the JSON-schema validator), \<open>machine\<close> (the runner of
  local programs, the key generator, the provider package's server calls), \<open>edge\<close> (the package's
  firewall calls), \<open>services\<close> (what the core executor calls), \<open>remote_env\<close> (ciphers and signatures, the
  relay's socket, the catalog, the snapshot), \<open>platform\<close> (the plan a manifest gives, the hash of a
  password, and what the ingress and DNS services do for a deployment: code of the repository that is not
  modelled). What a theorem relies on of a
  parameter is a named predicate (\<open>key_file_laws\<close>, \<open>fleet_laws\<close>, \<open>sshd_laws\<close>, \<open>table_laws\<close>,
  \<open>edge_laws\<close>, \<open>good_nums\<close>) that is shown to hold of a concrete instance in the witness theories.
  A handler reads the clock once; instants are milliseconds, amounts of money rational numbers.

  \<^bold>\<open>The agent control plane\<close> (agent-control/).
  \<open>Js_Regex\<close> is the backtracking matcher for the regular expressions of \<open>Redaction\<close> (redaction.ts).
  \<open>Stable_Json\<close> is the rendering that hashes are taken of (agent-api/plan-store.ts): two values with
  the same rendering are the same up to the order of their keys.
  \<open>Agent_Model\<close> has the records (agent-model.ts), \<open>Agent_Store\<close> the tables and the log
  (agent-store.ts), with the contract \<open>record_store\<close>: what is saved is read back, redacted.
  \<open>Audit_Log\<close> shows that the hash chain verifies what was appended, that the last hash pins the whole
  log, and that following the page cursors ends and reads every event once.
  \<open>Policy_Engine\<close> (capability-registry.ts, capabilities.json, policy-engine.ts) is the decision for a
  capability in a session; \<open>Session_Manager\<close> (agent-session-manager.ts) issues, authenticates,
  narrows and stops sessions and keeps their budgets; \<open>Operation_Manager\<close> (operation-manager.ts) is
  the state machine of operations; \<open>Approval_Manager\<close> (approval-manager.ts) the decisions of the
  user; \<open>Plan_Engine\<close> (plan-engine.ts) the creation of plans and the gate before their execution;
  \<open>Safety_Verification\<close> (agent-safety-state.ts, verification.ts) the emergency stop and the verdict on
  a run. \<open>Action_Broker\<close> (action-broker.ts) composes them; its executor is an argument that may change
  any state, and the locale \<open>framed_executor\<close> states what an executor must leave alone for
  an execution to end with its operation settled. \<open>Core_Executor\<close> (core-action-executor.ts) is the
  program's own executor and is shown to be one.

  \<^bold>\<open>The host services.\<close>
  \<open>Host_Plane\<close> has the refusals, the inventory's records, the write gate and the SSH primitive
  (agent-api/, hosts/host.model.ts, safety/host-write-gate.ts, lib/ssh-exec.ts); \<open>Ssh_Command\<close> the
  command line shown to the user, which a shell reads back as it was meant.
  \<open>Ssh_Keys\<close> (ssh-keys/vops-ssh-keys.service.ts) keeps the profile's key pairs and promotes the next
  one; \<open>Host_Inventory\<close> (hosts/vops-hosts.service.ts, host-ops/ssh-conn.ts) adds, imports and removes
  hosts, with the contract \<open>inventory\<close>; \<open>Authorized_Keys\<close> (host-ops/authorized-keys.ts) transforms the
  text of an authorized_keys file; \<open>Host_Access\<close> (vops-host-conn, vops-host-keys, remote-ak, ssh-target)
  installs and revokes the operations key; \<open>Key_Rotation\<close> (vops-ops-rotation) replaces it on the fleet;
  \<open>Ssh_Lockdown\<close> (ssh-lockdown, ssh-lockdown-refusal, vops-ssh-lockdown) disables password logins.
  \<open>Firewall_Services\<close> (firewall/firewall-services.ts, lib/providers.ts) and \<open>Nftables\<close>
  (host-firewall/nftables.ts) compile services to rules and rules to a ruleset; \<open>Host_Firewall\<close>
  (vops-host-firewall, foreign-firewall) applies it over SSH; \<open>Server_Firewall\<close> (vops-firewall,
  vops-server-firewall, safety/) is the one surface over the host's firewall and the provider's.
  Their proofs use weakest preconditions (\<open>wp\<close>, collection \<open>wp_simps\<close>): an invariant of the state is
  carried through a handler step by step (\<open>wp_seq\<close>), through every throw as well.

  \<^bold>\<open>Applications\<close> (apps/).
  \<open>App_Model\<close> (app.model.ts, app-parse.ts, splitSections of host-ops/status-battery.ts) has the data of
  plans and installs and the readings of what a host answers; \<open>Quadlet_Render\<close> (quadlet-render.ts,
  health-timer.ts) the unit files; \<open>App_Scripts\<close> (app-scripts.ts, app-data-guard.ts) the scripts, as their
  text; \<open>Deploy_Plan\<close> (app-plan.ts) the choice of host ports, the origin and the order of the services;
  \<open>App_Support\<close> (app-deploy-support.ts, app-deploy-view.ts, ingress-hostname.ts, ingress-auth.ts,
  post-install.ts, resolveBinding of vops-ingress.service.ts) the decisions that touch nothing.
  \<open>App_Deploy\<close> (the app_installs table of lib/store/local-store.ts, install-ledger.ts,
  app-deploy-runner.ts, app-rollback.ts, vops-apps.service.ts) is the deployment: \<open>prepare_deploy\<close> decides,
  \<open>carry_out\<close> claims the row, changes the host and confirms or reverts the claim. \<open>App_Lifecycle\<close>
  (app-resolve.ts, app-lifecycle.ts, podman-bootstrap.ts) has the life after it. \<open>App_Ledger\<close> shows what the
  table says after a deployment, \<open>App_Gate\<close> what stands before a public name, \<open>App_Rollback\<close> what a rollback
  takes, and \<open>App_Ports\<close> that ports are never shared, as an invariant of the relation \<open>app_reached\<close> of all
  calls: while an operation works on one install, the table stays \<open>around\<close> its key.

  \<^bold>\<open>The remote control\<close> (remote/).
  \<open>Remote_Store\<close> (remote-model.ts, remote-store.ts, remote-message.types.ts) has the records and tables of
  devices, pairings, counters, seen messages, commands and intents; \<open>Remote_Messenger\<close>
  (remote-messenger.ts) the environment and the sending of a message. \<open>Intent_Service\<close>
  (intent.service.ts) creates conditional intents with their own session, plan and approval, and
  watches them: an evaluation is in two halves around the answer of the catalog, so that anything may
  happen in between. \<open>Device_Registry\<close> (device-registry.ts) and \<open>Device_Pairing\<close> (pairing.service.ts) keep
  the devices; \<open>Remote_Command\<close> (remote-command.handler.ts) verifies, reserves and executes signed
  commands; \<open>Remote_Gateway\<close> (remote-gateway.ts) opens the envelopes they come in. \<open>Remote_Run\<close> puts the
  calls together: \<open>remote_step\<close> is one of them, \<open>later\<close> any number in any order with the environment
  answering differently each time, \<open>reached\<close> what they lead to from empty tables. Its locales state what
  a property needs of the parts to be kept by every call (\<open>call_frame\<close>, with \<open>table_frame\<close> for the
  tables and \<open>intents_frame\<close> for the intents); they are interpreted on the tables of devices, the
  checked keys, the used commands, the seen messages and the ended intents.

  \<^bold>\<open>What is shown.\<close> Safety of the control plane: no step runs but what the policy allows; a plan that
  runs is approved and unchanged; spending stays within the limit. Safety of the host services: no
  operation on keys, rotations included, touches an entry that is not its own; a lockdown that is
  reported as done has left a working key; a firewall that vops did not make is not changed. Safety of
  the remote control: only a fresh command signed by an active device in its role changes anything, once;
  a decision goes to the plan that was shown; an intent runs at most once, and not at all after it was
  revoked; a revoked device has no power left. Safety of applications: no two installs of a host own a
  port in common; a failed deployment leaves the table as it was and its rollback takes nothing that was
  there before; an application without a login gets a public name only behind a gate. Beside these
  stand functional contracts of the operations, round trips, bounds, the end of executions and of paging,
  and behaviour that contradicts a comment of the code, as plain lemmas.

  \<^bold>\<open>Termination.\<close> No definition takes fuel. The regular-expression matcher terminates because an iteration
  of a star counts only if it consumes a character; \<open>decide\<close> calls itself once more, for an expired
  window, and terminates by a measure; a round of the start order takes at least one service out, and
  the splitting of a text at a separator shortens it. All other recursion is structural.

  \<^bold>\<open>Not modelled.\<close> The remaining services call packages or other programs for most of what they do
  (reverse proxy and DNS, the relay's socket, the turns of agent programs, metrics, builds, backups),
  normalise manifests, or present results (commands, local HTTP interface, dashboard). Time limits of processes are no argument of the runner. Texts are
  ASCII: dashes and arrows of messages are written \<open>-\<close> and \<open>->\<close>. A key looked up in a JavaScript object
  literal is not compared with the names of \<open>Object.prototype\<close>. Key fingerprints and the monitoring
  fields of a host are left out. Concurrency between processes is not modelled beyond the lock of the
  rotation, the growth of the log between two pages and the two halves of an intent's evaluation: the
  run of a plan is one step. Notifying a device over a push service and telling the relay of a device's
  status change nothing and are left out; a message a device sends to the assistant ends in the list
  \<open>rm_chats\<close>.
\<close>

end
